(* ===== verification/Prelude.thy ===== *)
theory Prelude
  imports Main "HOL-Library.Word" "HOL-Library.Multiset"
begin

text \<open>
  Shared vocabulary of the development.

  \<^item> \<open>res\<close>: the outcome of a Go call. A Go function that returns \<open>(T, error)\<close> ends in
    \<open>Ok v\<close> or \<open>Err e\<close>; a run-time panic (explicit \<open>panic\<close>, division by zero, nil
    dereference, index out of range) is \<open>Panic\<close>.
  \<^item> machine integers: \<open>uint64\<close> is \<open>64 word\<close>; \<open>int64\<close> (and \<open>time.Duration\<close>, which counts
    nanoseconds) is \<open>int\<close> with the wrap-around written out by \<open>i64\<close>; a \<open>time.Time\<close> is the
    number of nanoseconds of the instant, an \<open>int\<close>.
  \<^item> \<open>[]byte\<close> is a list of 8-bit words; where the code tells a nil slice from an empty one it
    is an option of such a list.
\<close>

section \<open>Outcomes of Go calls\<close>

datatype ('e, 'a) res = Ok 'a | Err 'e | Panic

primrec bind_res :: "('e, 'a) res \<Rightarrow> ('a \<Rightarrow> ('e, 'b) res) \<Rightarrow> ('e, 'b) res" where
  "bind_res (Ok x) f = f x"
| "bind_res (Err e) f = Err e"
| "bind_res Panic f = Panic"

primrec map_err :: "('e \<Rightarrow> 'f) \<Rightarrow> ('e, 'a) res \<Rightarrow> ('f, 'a) res" where
  "map_err g (Ok x) = Ok x"
| "map_err g (Err e) = Err (g e)"
| "map_err g Panic = Panic"

text \<open>A check that returns an error when its condition fails.\<close>

definition ensure :: "bool \<Rightarrow> 'e \<Rightarrow> ('e, unit) res" where
  "ensure b e = (if b then Ok () else Err e)"

text \<open>The Go \<open>for\<close> loop that returns the first error of its body.\<close>

fun each :: "('a \<Rightarrow> ('e, unit) res) \<Rightarrow> 'a list \<Rightarrow> ('e, unit) res" where
  "each f [] = Ok ()"
| "each f (x # xs) = bind_res (f x) (\<lambda>_. each f xs)"

text \<open>The loop that converts every element and returns the first error.\<close>

fun each_map :: "('a \<Rightarrow> ('e, 'b) res) \<Rightarrow> 'a list \<Rightarrow> ('e, 'b list) res" where
  "each_map f [] = Ok []"
| "each_map f (x # xs) = bind_res (f x) (\<lambda>y. bind_res (each_map f xs) (\<lambda>ys. Ok (y # ys)))"

text \<open>
  A method that changes its receiver: the outcome and the receiver after the call, which keeps
  every change made before an error is returned.
\<close>

fun bind_st :: "('e, 'a) res \<times> 's \<Rightarrow> ('a \<Rightarrow> 's \<Rightarrow> ('e, 'b) res \<times> 's) \<Rightarrow> ('e, 'b) res \<times> 's" where
  "bind_st (Ok x, s) f = f x s"
| "bind_st (Err e, s) f = (Err e, s)"
| "bind_st (Panic, s) f = (Panic, s)"

fun map_err_st :: "('e \<Rightarrow> 'f) \<Rightarrow> ('e, 'a) res \<times> 's \<Rightarrow> ('f, 'a) res \<times> 's" where
  "map_err_st g (r, s) = (map_err g r, s)"

text \<open>A library call that returns a value or an error, and how its error is wrapped.\<close>

fun of_sum :: "('x \<Rightarrow> 'e) \<Rightarrow> 'x + 'a \<Rightarrow> ('e, 'a) res" where
  "of_sum f (Inl e) = Err (f e)"
| "of_sum f (Inr x) = Ok x"

text \<open>A pointer dereference.\<close>

primrec deref :: "'a option \<Rightarrow> ('e, 'a) res" where
  "deref None = Panic"
| "deref (Some x) = Ok x"

primrec is_Ok :: "('e, 'a) res \<Rightarrow> bool" where
  "is_Ok (Ok x) = True"
| "is_Ok (Err e) = False"
| "is_Ok Panic = False"

named_theorems res_dest \<open>what a successful or failing outcome tells about its parts\<close>

lemma bind_res_Ok_iff [res_dest]:
  "bind_res m f = Ok y \<longleftrightarrow> (\<exists>x. m = Ok x \<and> f x = Ok y)"
  by (cases m) auto

lemma bind_res_Err_iff:
  "bind_res m f = Err e \<longleftrightarrow> m = Err e \<or> (\<exists>x. m = Ok x \<and> f x = Err e)"
  by (cases m) auto

lemma bind_res_Panic_iff:
  "bind_res m f = Panic \<longleftrightarrow> m = Panic \<or> (\<exists>x. m = Ok x \<and> f x = Panic)"
  by (cases m) auto

lemma bind_res_assoc: "bind_res (bind_res m f) g = bind_res m (\<lambda>x. bind_res (f x) g)"
  by (cases m) auto

lemma bind_res_cong [fundef_cong]:
  "m = m' \<Longrightarrow> (\<And>x. m' = Ok x \<Longrightarrow> f x = f' x) \<Longrightarrow> bind_res m f = bind_res m' f'"
  by (cases m') auto

lemma ensure_Ok_iff [res_dest]: "ensure b e = Ok u \<longleftrightarrow> b"
  by (simp add: ensure_def)

lemma ensure_Err_iff: "ensure b e = Err e' \<longleftrightarrow> \<not> b \<and> e' = e"
  by (auto simp: ensure_def)

lemma ensure_not_Panic [simp]: "ensure b e \<noteq> Panic"
  by (simp add: ensure_def)

lemma ensure_simps [simp]: "ensure True e = Ok ()" "ensure False e = Err e"
  by (simp_all add: ensure_def)

lemma each_Ok_iff [res_dest]: "each f xs = Ok u \<longleftrightarrow> (\<forall>x \<in> set xs. f x = Ok ())"
  by (induction xs) (auto simp: bind_res_Ok_iff)

lemma each_not_Panic: "(\<And>x. x \<in> set xs \<Longrightarrow> f x \<noteq> Panic) \<Longrightarrow> each f xs \<noteq> Panic"
  by (induction xs) (auto simp: bind_res_Panic_iff)

lemma each_map_Ok_iff:
  "each_map f xs = Ok ys \<longleftrightarrow> list_all2 (\<lambda>x y. f x = Ok y) xs ys"
  by (induction xs arbitrary: ys) (auto simp: bind_res_Ok_iff list_all2_Cons1)

lemma each_map_not_Panic:
  "(\<And>x. x \<in> set xs \<Longrightarrow> f x \<noteq> Panic) \<Longrightarrow> each_map f xs \<noteq> Panic"
  by (induction xs) (auto simp: bind_res_Panic_iff)

lemma map_err_Ok_iff [res_dest, simp]: "map_err g m = Ok x \<longleftrightarrow> m = Ok x"
  by (cases m) auto

lemma map_err_Panic_iff [simp]: "map_err g m = Panic \<longleftrightarrow> m = Panic"
  by (cases m) auto

lemma bind_st_eq:
  "bind_st m f = (case fst m of Ok x \<Rightarrow> f x (snd m) | Err e \<Rightarrow> (Err e, snd m)
                               | Panic \<Rightarrow> (Panic, snd m))"
  by (cases m; cases "fst m") auto

lemma snd_bind_st: "snd (bind_st m f) = (case fst m of Ok x \<Rightarrow> snd (f x (snd m)) | _ \<Rightarrow> snd m)"
  by (cases m; cases "fst m") auto

lemma bind_st_Ok_iff:
  "bind_st m f = (Ok y, s') \<longleftrightarrow> (\<exists>x s. m = (Ok x, s) \<and> f x s = (Ok y, s'))"
  by (cases m; cases "fst m") auto

lemma bind_st_cases:
  assumes "bind_st (p, s) f = (r, s')"
  obtains (stopped) "s' = s" "\<not> is_Ok r" | (continued) x where "p = Ok x" "f x s = (r, s')"
  using assms by (cases p) auto

lemma bind_st_Panic_iff:
  "fst (bind_st m f) = Panic \<longleftrightarrow> fst m = Panic \<or> (\<exists>x. fst m = Ok x \<and> fst (f x (snd m)) = Panic)"
  by (cases m; cases "fst m") auto

lemma snd_map_err_st [simp]: "snd (map_err_st g m) = snd m"
  by (cases m) simp

lemma fst_map_err_st [simp]: "fst (map_err_st g m) = map_err g (fst m)"
  by (cases m) simp

lemma map_err_st_eq: "map_err_st g m = (map_err g (fst m), snd m)"
  by (cases m) simp

lemma of_sum_Ok_iff [res_dest, simp]: "of_sum f x = Ok y \<longleftrightarrow> x = Inr y"
  by (cases x) auto

lemma of_sum_not_Panic [simp]: "of_sum f x \<noteq> Panic"
  by (cases x) auto

lemma deref_Ok_iff [res_dest, simp]: "deref x = Ok y \<longleftrightarrow> x = Some y"
  by (cases x) auto

lemma deref_not_Err [simp]: "deref x \<noteq> Err e"
  by (cases x) auto

lemma deref_Panic_iff [simp]: "deref x = Panic \<longleftrightarrow> x = None"
  by (cases x) auto

lemma is_Ok_iff: "is_Ok m \<longleftrightarrow> (\<exists>x. m = Ok x)"
  by (cases m) auto

section \<open>Machine integers\<close>

type_synonym u64 = "64 word"
type_synonym byte = "8 word"
type_synonym bytes = "byte list"

text \<open>A signed 64-bit result: two's complement wrap-around of the exact value.\<close>

definition i64 :: "int \<Rightarrow> int" where
  "i64 x = (x + 2 ^ 63) mod 2 ^ 64 - 2 ^ 63"

definition maxInt64 :: int where "maxInt64 = 2 ^ 63 - 1"
definition minInt64 :: int where "minInt64 = - (2 ^ 63)"

definition in_i64 :: "int \<Rightarrow> bool" where
  "in_i64 x \<longleftrightarrow> minInt64 \<le> x \<and> x \<le> maxInt64"

definition maxUint64 :: u64 where "maxUint64 = 18446744073709551615"

text \<open>Integer division: unsigned, and signed rounding towards zero. Zero divisors panic.\<close>

definition u64_div :: "u64 \<Rightarrow> u64 \<Rightarrow> ('e, u64) res" where
  "u64_div a b = (if b = 0 then Panic else Ok (a div b))"

definition u64_mod :: "u64 \<Rightarrow> u64 \<Rightarrow> ('e, u64) res" where
  "u64_mod a b = (if b = 0 then Panic else Ok (a mod b))"

definition i64_quot :: "int \<Rightarrow> int \<Rightarrow> ('e, int) res" where
  "i64_quot a b = (if b = 0 then Panic else Ok (i64 (sgn a * sgn b * (\<bar>a\<bar> div \<bar>b\<bar>))))"

text \<open>Conversions \<open>int64(x)\<close> of a \<open>uint64\<close> and \<open>uint64(x)\<close> of an \<open>int64\<close>.\<close>

definition i64_of_u64 :: "u64 \<Rightarrow> int" where
  "i64_of_u64 w = i64 (uint w)"

definition u64_of_i64 :: "int \<Rightarrow> u64" where
  "u64_of_i64 x = word_of_int x"

text \<open>\<open>time.Time.Sub\<close> saturates at the ends of the duration range.\<close>

definition time_sub :: "int \<Rightarrow> int \<Rightarrow> int" where
  "time_sub t u = max minInt64 (min maxInt64 (t - u))"

lemma i64_id: "in_i64 x \<Longrightarrow> i64 x = x"
  by (simp add: i64_def in_i64_def minInt64_def maxInt64_def)

lemma i64_range: "in_i64 (i64 x)"
proof -
  have "0 \<le> (x + 2 ^ 63) mod (2::int) ^ 64" "(x + 2 ^ 63) mod (2::int) ^ 64 < 2 ^ 64"
    by simp_all
  then show ?thesis
    unfolding in_i64_def i64_def minInt64_def maxInt64_def by simp
qed

lemma time_sub_range: "in_i64 (time_sub t u)"
  by (auto simp: in_i64_def time_sub_def minInt64_def maxInt64_def)

lemma time_sub_exact: "in_i64 (t - u) \<Longrightarrow> time_sub t u = t - u"
  by (simp add: in_i64_def time_sub_def)

lemma u64_div_Ok [simp]: "b \<noteq> 0 \<Longrightarrow> u64_div a b = Ok (a div b)"
  by (simp add: u64_div_def)

lemma u64_mod_Ok [simp]: "b \<noteq> 0 \<Longrightarrow> u64_mod a b = Ok (a mod b)"
  by (simp add: u64_mod_def)

lemma i64_quot_nonneg:
  assumes "0 \<le> a" "a \<le> maxInt64" "0 < b"
  shows "i64_quot a b = Ok (a div b)"
proof -
  have "0 \<le> a div b"
    using assms by (simp add: pos_imp_zdiv_nonneg_iff)
  moreover have "a div b \<le> a div 1"
    using assms by (intro zdiv_mono2) auto
  ultimately have "i64 (a div b) = a div b"
    using assms(2) by (intro i64_id) (auto simp: in_i64_def minInt64_def maxInt64_def)
  moreover have "sgn a * sgn b * (\<bar>a\<bar> div \<bar>b\<bar>) = a div b"
    using assms by (cases "a = 0") auto
  moreover have "i64_quot a b = Ok (i64 (sgn a * sgn b * (\<bar>a\<bar> div \<bar>b\<bar>)))"
    using assms(3) unfolding i64_quot_def by (intro if_not_P) simp
  ultimately show ?thesis
    by simp
qed

lemma int_div_bounds:
  fixes a q :: int
  assumes "0 < q"
  shows "a div q * q \<le> a" "a < (a div q + 1) * q"
proof -
  have "a div q * q + a mod q = a" "0 \<le> a mod q" "a mod q < q"
    using assms by simp_all
  then show "a div q * q \<le> a" "a < (a div q + 1) * q"
    unfolding distrib_right mult_1_left by linarith+
qed

lemma i64_of_u64_small: "uint w \<le> maxInt64 \<Longrightarrow> i64_of_u64 w = uint w"
  unfolding i64_of_u64_def
proof (rule i64_id)
  assume "uint w \<le> maxInt64"
  moreover have "minInt64 \<le> 0" "0 \<le> uint w"
    by (simp_all add: minInt64_def)
  ultimately show "in_i64 (uint w)"
    unfolding in_i64_def by linarith
qed

lemma unat_maxUint64: "unat maxUint64 = 2 ^ 64 - 1"
  by (simp add: maxUint64_def)

lemma u64_le_max [simp]: "w \<le> maxUint64"
proof -
  have "maxUint64 = - 1"
    by (simp add: maxUint64_def)
  moreover have "w \<le> - 1"
    by (rule word_n1_ge)
  ultimately show ?thesis
    by simp
qed

text \<open>Dropping the entries of a Go map by a test of their keys.\<close>

lemma map_of_filter_key: "map_of (filter (\<lambda>(k, _). P k) al) k = (if P k then map_of al k else None)"
  by (induction al) auto

end
