(* ===== verification/Network_Config.thy ===== *)
theory Network_Config
  imports Prelude
begin

text \<open>
  The network configuration, \<open>networkconfig/beacon.go\<close>, \<open>networkconfig/ssv.go\<close> and
  \<open>networkconfig/network.go\<close>: the beacon chain's clock (slots, epochs, sync periods), its fork
  schedule and the comparison of two schedules, the SSV network's configuration with its
  marshalled form, and the Boole and Gloas transition windows.

  Slots, epochs and periods are \<open>uint64\<close> values; durations are signed nanoseconds. Wall-clock
  reads (\<open>time.Now\<close>) are arguments named \<open>now\<close>.
\<close>

section \<open>Forks and the beacon configuration\<close>

datatype DataVersion =
    DataVersionPhase0 | DataVersionAltair | DataVersionBellatrix | DataVersionCapella
  | DataVersionDeneb | DataVersionElectra | DataVersionFulu | DataVersionGloas

definition dataVersions :: "DataVersion list" where
  "dataVersions =
     [DataVersionPhase0, DataVersionAltair, DataVersionBellatrix, DataVersionCapella,
      DataVersionDeneb, DataVersionElectra, DataVersionFulu, DataVersionGloas]"

primrec dataVersion_rank :: "DataVersion \<Rightarrow> nat" where
  "dataVersion_rank DataVersionPhase0 = 0"
| "dataVersion_rank DataVersionAltair = 1"
| "dataVersion_rank DataVersionBellatrix = 2"
| "dataVersion_rank DataVersionCapella = 3"
| "dataVersion_rank DataVersionDeneb = 4"
| "dataVersion_rank DataVersionElectra = 5"
| "dataVersion_rank DataVersionFulu = 6"
| "dataVersion_rank DataVersionGloas = 7"

lemma dataVersion_rank_inj: "dataVersion_rank v = dataVersion_rank w \<longleftrightarrow> v = w"
  by (cases v; cases w) simp_all

instantiation DataVersion :: linorder
begin

definition less_eq_DataVersion :: "DataVersion \<Rightarrow> DataVersion \<Rightarrow> bool" where
  "less_eq_DataVersion v w \<longleftrightarrow> dataVersion_rank v \<le> dataVersion_rank w"

definition less_DataVersion :: "DataVersion \<Rightarrow> DataVersion \<Rightarrow> bool" where
  "less_DataVersion v w \<longleftrightarrow> dataVersion_rank v < dataVersion_rank w"

instance
  by standard (auto simp: less_eq_DataVersion_def less_DataVersion_def dataVersion_rank_inj)

end

lemma set_dataVersions [simp]: "set dataVersions = UNIV"
proof -
  have "v \<in> set dataVersions" for v
    by (cases v) (simp_all add: dataVersions_def)
  then show ?thesis by blast
qed

lemma sorted_dataVersions: "sorted_wrt (<) dataVersions"
  by (simp add: dataVersions_def less_DataVersion_def)

record Fork =
  PreviousVersion :: bytes
  CurrentVersion :: bytes
  Epoch :: u64

record Beacon =
  bn_Name :: string
  SlotDuration :: int
  SlotsPerEpoch :: u64
  EpochsPerSyncCommitteePeriod :: u64
  SyncCommitteeSize :: u64
  SyncCommitteeSubnetCount :: u64
  TargetAggregatorsPerSyncSubcommittee :: u64
  TargetAggregatorsPerCommittee :: u64
  GenesisForkVersion :: bytes
  GenesisTime :: int
  GenesisValidatorsRoot :: bytes
  bn_Forks :: "DataVersion \<rightharpoonup> Fork"

definition FarFutureEpoch :: u64 where
  "FarFutureEpoch = maxUint64"

section \<open>The slot clock\<close>

definition SlotStartTime :: "Beacon \<Rightarrow> u64 \<Rightarrow> ('e, int) res" where
  "SlotStartTime b slot =
     (if uint slot > maxInt64 then Panic
      else Ok (GenesisTime b + i64 (i64_of_u64 slot * SlotDuration b)))"

definition TimeAtSlot :: "Beacon \<Rightarrow> u64 \<Rightarrow> ('e, int) res" where
  "TimeAtSlot b slot =
     (if uint slot > maxInt64 then Panic
      else Ok (GenesisTime b + i64 (i64_of_u64 slot * SlotDuration b)))"

definition PayloadAttestationCutoff :: "Beacon \<Rightarrow> u64 \<Rightarrow> ('e, int) res" where
  "PayloadAttestationCutoff b slot =
     bind_res (SlotStartTime b slot) (\<lambda>start.
     bind_res (i64_quot (i64 (SlotDuration b * 3)) 4) (\<lambda>d. Ok (start + d)))"

definition EstimatedSlotAtTime :: "Beacon \<Rightarrow> int \<Rightarrow> ('e, u64) res" where
  "EstimatedSlotAtTime b t =
     (if t < GenesisTime b then Panic
      else bind_res (i64_quot (time_sub t (GenesisTime b)) (SlotDuration b))
             (\<lambda>d. Ok (u64_of_i64 d)))"

definition EstimatedCurrentSlot :: "Beacon \<Rightarrow> int \<Rightarrow> ('e, u64) res" where
  "EstimatedCurrentSlot b now = EstimatedSlotAtTime b now"

definition EstimatedTimeIntoSlot :: "Beacon \<Rightarrow> int \<Rightarrow> ('e, int) res" where
  "EstimatedTimeIntoSlot b now =
     bind_res (EstimatedCurrentSlot b now) (\<lambda>slot.
     bind_res (TimeAtSlot b slot) (\<lambda>t. Ok (time_sub now t)))"

definition EstimatedEpochAtSlot :: "Beacon \<Rightarrow> u64 \<Rightarrow> ('e, u64) res" where
  "EstimatedEpochAtSlot b slot = u64_div slot (SlotsPerEpoch b)"

definition EstimatedCurrentEpoch :: "Beacon \<Rightarrow> int \<Rightarrow> ('e, u64) res" where
  "EstimatedCurrentEpoch b now =
     bind_res (EstimatedCurrentSlot b now) (EstimatedEpochAtSlot b)"

definition IsFirstSlotOfEpoch :: "Beacon \<Rightarrow> u64 \<Rightarrow> ('e, bool) res" where
  "IsFirstSlotOfEpoch b slot =
     bind_res (u64_mod slot (SlotsPerEpoch b)) (\<lambda>r. Ok (r = 0))"

definition EstimatedSyncCommitteePeriodAtEpoch :: "Beacon \<Rightarrow> u64 \<Rightarrow> ('e, u64) res" where
  "EstimatedSyncCommitteePeriodAtEpoch b epoch = u64_div epoch (EpochsPerSyncCommitteePeriod b)"

definition FirstEpochOfSyncPeriod :: "Beacon \<Rightarrow> u64 \<Rightarrow> u64" where
  "FirstEpochOfSyncPeriod b period = period * EpochsPerSyncCommitteePeriod b"

definition FirstSlotAtEpoch :: "Beacon \<Rightarrow> u64 \<Rightarrow> u64" where
  "FirstSlotAtEpoch b epoch = epoch * SlotsPerEpoch b"

definition LastActionableSlotOfSyncPeriod :: "Beacon \<Rightarrow> u64 \<Rightarrow> u64" where
  "LastActionableSlotOfSyncPeriod b period =
     (let lastEpoch = FirstEpochOfSyncPeriod b (period + 1) - 1
      in FirstSlotAtEpoch b (lastEpoch + 1) - 2)"

definition EpochStartTime :: "Beacon \<Rightarrow> u64 \<Rightarrow> ('e, int) res" where
  "EpochStartTime b epoch = TimeAtSlot b (FirstSlotAtEpoch b epoch)"

definition EpochDuration :: "Beacon \<Rightarrow> ('e, int) res" where
  "EpochDuration b =
     (if uint (SlotsPerEpoch b) > maxInt64 then Panic
      else Ok (i64 (SlotDuration b * i64_of_u64 (SlotsPerEpoch b))))"

section \<open>The fork schedule\<close>

text \<open>The loop of \<open>ForkAtEpoch\<close>; the last argument is the fork active so far.\<close>

fun forkAtEpoch_loop ::
  "(DataVersion \<rightharpoonup> Fork) \<Rightarrow> u64 \<Rightarrow> DataVersion list \<Rightarrow> (DataVersion \<times> Fork) option
     \<Rightarrow> ('e, DataVersion \<times> Fork) res" where
  "forkAtEpoch_loop forks epoch [] active =
     (case active of None \<Rightarrow> Panic | Some vf \<Rightarrow> Ok vf)"
| "forkAtEpoch_loop forks epoch (v # vs) active =
     (case forks v of
        None \<Rightarrow> forkAtEpoch_loop forks epoch vs active
      | Some fork \<Rightarrow>
          if epoch < Epoch fork then (case active of None \<Rightarrow> Panic | Some vf \<Rightarrow> Ok vf)
          else forkAtEpoch_loop forks epoch vs (Some (v, fork)))"

definition ForkAtEpoch :: "Beacon \<Rightarrow> u64 \<Rightarrow> ('e, DataVersion \<times> Fork) res" where
  "ForkAtEpoch b epoch = forkAtEpoch_loop (bn_Forks b) epoch dataVersions None"

definition ForkAtVersion :: "Beacon \<Rightarrow> DataVersion \<Rightarrow> Fork option" where
  "ForkAtVersion b version = bn_Forks b version"

definition IsGloas :: "Beacon \<Rightarrow> u64 \<Rightarrow> bool" where
  "IsGloas b epoch =
     (case bn_Forks b DataVersionGloas of None \<Rightarrow> False | Some fork \<Rightarrow> Epoch fork \<le> epoch)"

definition IsGloasAtSlot :: "Beacon \<Rightarrow> u64 \<Rightarrow> ('e, bool) res" where
  "IsGloasAtSlot b slot =
     bind_res (EstimatedEpochAtSlot b slot) (\<lambda>epoch. Ok (IsGloas b epoch))"

definition GloasForkEpoch :: "Beacon \<Rightarrow> u64 \<times> bool" where
  "GloasForkEpoch b =
     (case bn_Forks b DataVersionGloas of None \<Rightarrow> (0, False) | Some fork \<Rightarrow> (Epoch fork, True))"

definition GloasScheduled :: "Beacon \<Rightarrow> bool" where
  "GloasScheduled b = (let (epoch, ok) = GloasForkEpoch b in ok \<and> epoch \<noteq> FarFutureEpoch)"

definition IntervalDuration :: "Beacon \<Rightarrow> u64 \<Rightarrow> ('e, int) res" where
  "IntervalDuration b slot =
     bind_res (IsGloasAtSlot b slot) (\<lambda>g. i64_quot (SlotDuration b) (if g then 4 else 3))"

text \<open>
  The two ways two beacon configurations differ: a \<open>ForkScheduleLagError\<close> (a fork still ahead of
  both), or a plain error, with the text of the source.
\<close>

datatype same_err =
    ForkScheduleLagError DataVersion Fork Fork
  | DifferentForks DataVersion Fork Fork
  | DifferentField string

definition schedule :: "(DataVersion \<rightharpoonup> Fork) \<Rightarrow> DataVersion \<Rightarrow> Fork \<times> bool" where
  "schedule forks version =
     (let unscheduled = \<lparr>PreviousVersion = [0, 0, 0, 0], CurrentVersion = [0, 0, 0, 0],
                         Epoch = FarFutureEpoch\<rparr>
      in case forks version of
           None \<Rightarrow> (unscheduled, False)
         | Some fork \<Rightarrow> if Epoch fork = FarFutureEpoch then (unscheduled, False) else (fork, True))"

fun assertSameForks_loop ::
  "(DataVersion \<rightharpoonup> Fork) \<Rightarrow> (DataVersion \<rightharpoonup> Fork) \<Rightarrow> u64 \<Rightarrow> DataVersion list \<Rightarrow> same_err option
     \<Rightarrow> (same_err, unit) res" where
  "assertSameForks_loop ours theirs cur [] lag =
     (case lag of None \<Rightarrow> Ok () | Some e \<Rightarrow> Err e)"
| "assertSameForks_loop ours theirs cur (v # vs) lag =
     (let (mine, mineScheduled) = schedule ours v;
          (other, otherScheduled) = schedule theirs v
      in if (\<not> mineScheduled \<and> \<not> otherScheduled) \<or> mine = other
         then assertSameForks_loop ours theirs cur vs lag
         else if (mineScheduled \<and> Epoch mine \<le> cur) \<or> (otherScheduled \<and> Epoch other \<le> cur)
         then Err (DifferentForks v mine other)
         else assertSameForks_loop ours theirs cur vs
                (if lag = None then Some (ForkScheduleLagError v mine other) else lag))"

definition assertSameForks ::
  "(DataVersion \<rightharpoonup> Fork) \<Rightarrow> (DataVersion \<rightharpoonup> Fork) \<Rightarrow> u64 \<Rightarrow> (same_err, unit) res" where
  "assertSameForks ours theirs cur =
     assertSameForks_loop ours theirs cur
       (filter (\<lambda>v. ours v \<noteq> None \<or> theirs v \<noteq> None) dataVersions) None"

definition AssertSame :: "Beacon \<Rightarrow> Beacon \<Rightarrow> int \<Rightarrow> (same_err, unit) res" where
  "AssertSame b other now =
     (if bn_Name b \<noteq> bn_Name other then Err (DifferentField ''different Name'')
      else if SlotDuration b \<noteq> SlotDuration other
      then Err (DifferentField ''different SlotDuration'')
      else if SlotsPerEpoch b \<noteq> SlotsPerEpoch other
      then Err (DifferentField ''different SlotsPerEpoch'')
      else if EpochsPerSyncCommitteePeriod b \<noteq> EpochsPerSyncCommitteePeriod other
      then Err (DifferentField ''different EpochsPerSyncCommitteePeriod'')
      else if SyncCommitteeSize b \<noteq> SyncCommitteeSize other
      then Err (DifferentField ''different SyncCommitteeSize'')
      else if SyncCommitteeSubnetCount b \<noteq> SyncCommitteeSubnetCount other
      then Err (DifferentField ''different SyncCommitteeSubnetCount'')
      else if TargetAggregatorsPerSyncSubcommittee b \<noteq> TargetAggregatorsPerSyncSubcommittee other
      then Err (DifferentField ''different TargetAggregatorsPerSyncSubcommittee'')
      else if TargetAggregatorsPerCommittee b \<noteq> TargetAggregatorsPerCommittee other
      then Err (DifferentField ''different TargetAggregatorsPerCommittee'')
      else if GenesisForkVersion b \<noteq> GenesisForkVersion other
      then Err (DifferentField ''different GenesisForkVersion'')
      else if GenesisTime b \<noteq> GenesisTime other
      then Err (DifferentField ''different GenesisTime'')
      else if GenesisValidatorsRoot b \<noteq> GenesisValidatorsRoot other
      then Err (DifferentField ''different GenesisValidatorsRoot'')
      else bind_res (EstimatedCurrentEpoch b now) (\<lambda>cur.
             assertSameForks (bn_Forks b) (bn_Forks other) cur))"

section \<open>The SSV network configuration\<close>

record SSV =
  ssv_Name :: string
  DomainType :: bytes
  NextDomainType :: bytes
  RegistrySyncOffset :: "int option"
  RegistryContractAddr :: bytes
  Bootnodes :: "string list"
  DiscoveryProtocolID :: bytes
  TotalEthereumValidators :: int
  ForksBoole :: u64

text \<open>
  The marshalled form: byte arrays as byte strings of any length, and the fork block and the
  Boole epoch as pointers, \<open>None\<close> for nil.
\<close>

record marshaledConfig =
  mc_Name :: string
  mc_DomainType :: bytes
  mc_NextDomainType :: bytes
  mc_RegistrySyncOffset :: "int option"
  mc_RegistryContractAddr :: bytes
  mc_Bootnodes :: "string list"
  mc_DiscoveryProtocolID :: bytes
  mc_TotalEthereumValidators :: int
  mc_Forks :: "u64 option option"

definition marshal :: "SSV \<Rightarrow> marshaledConfig" where
  "marshal s =
     \<lparr>mc_Name = ssv_Name s, mc_DomainType = DomainType s, mc_NextDomainType = NextDomainType s,
      mc_RegistrySyncOffset = RegistrySyncOffset s,
      mc_RegistryContractAddr = RegistryContractAddr s, mc_Bootnodes = Bootnodes s,
      mc_DiscoveryProtocolID = DiscoveryProtocolID s,
      mc_TotalEthereumValidators = TotalEthereumValidators s,
      mc_Forks = Some (if ForksBoole s \<noteq> maxUint64 then Some (ForksBoole s) else None)\<rparr>"

datatype cfg_err =
    InvalidDomainTypeLength nat
  | InvalidNextDomainTypeLength nat
  | InvalidDiscoveryProtocolIDLength nat

definition unmarshalFromConfig :: "marshaledConfig \<Rightarrow> (cfg_err, SSV) res" where
  "unmarshalFromConfig aux =
     (if length (mc_DomainType aux) \<noteq> 4
      then Err (InvalidDomainTypeLength (length (mc_DomainType aux)))
      else if length (mc_NextDomainType aux) \<noteq> 0 \<and> length (mc_NextDomainType aux) \<noteq> 4
      then Err (InvalidNextDomainTypeLength (length (mc_NextDomainType aux)))
      else let nextDomain = (if length (mc_NextDomainType aux) = 0 then mc_DomainType aux
                             else mc_NextDomainType aux)
      in if length (mc_DiscoveryProtocolID aux) \<noteq> 6
      then Err (InvalidDiscoveryProtocolIDLength (length (mc_DiscoveryProtocolID aux)))
      else Ok \<lparr>ssv_Name = mc_Name aux, DomainType = mc_DomainType aux,
               NextDomainType = nextDomain, RegistrySyncOffset = mc_RegistrySyncOffset aux,
               RegistryContractAddr = mc_RegistryContractAddr aux, Bootnodes = mc_Bootnodes aux,
               DiscoveryProtocolID = mc_DiscoveryProtocolID aux,
               TotalEthereumValidators = mc_TotalEthereumValidators aux,
               ForksBoole = (case mc_Forks aux of
                               Some (Some boole) \<Rightarrow> boole
                             | _ \<Rightarrow> maxUint64)\<rparr>)"

section \<open>The network: fork windows and domains\<close>

record Network =
  nw_Beacon :: Beacon
  nw_SSV :: SSV

definition boolePriorWindowEpochs :: u64 where "boolePriorWindowEpochs = 1"
definition booleSubsequentWindowLateSlots :: u64 where "booleSubsequentWindowLateSlots = 2"
definition gloasPriorWindowEpochs :: u64 where "gloasPriorWindowEpochs = 1"

definition BooleForkAtEpoch :: "Network \<Rightarrow> u64 \<Rightarrow> bool" where
  "BooleForkAtEpoch n epoch \<longleftrightarrow> ForksBoole (nw_SSV n) \<le> epoch"

definition BooleForkAtSlot :: "Network \<Rightarrow> u64 \<Rightarrow> ('e, bool) res" where
  "BooleForkAtSlot n slot =
     bind_res (EstimatedEpochAtSlot (nw_Beacon n) slot) (\<lambda>epoch. Ok (BooleForkAtEpoch n epoch))"

definition BooleFork :: "Network \<Rightarrow> int \<Rightarrow> ('e, bool) res" where
  "BooleFork n now =
     bind_res (EstimatedCurrentEpoch (nw_Beacon n) now) (\<lambda>epoch. Ok (BooleForkAtEpoch n epoch))"

definition BooleForkScheduled :: "Network \<Rightarrow> bool" where
  "BooleForkScheduled n \<longleftrightarrow> ForksBoole (nw_SSV n) \<noteq> maxUint64"

definition DomainTypeAtSlot :: "Network \<Rightarrow> u64 \<Rightarrow> ('e, bytes) res" where
  "DomainTypeAtSlot n slot =
     bind_res (BooleForkAtSlot n slot) (\<lambda>boole.
       Ok (if boole then NextDomainType (nw_SSV n) else DomainType (nw_SSV n)))"

definition CurrentDomainType :: "Network \<Rightarrow> int \<Rightarrow> ('e, bytes) res" where
  "CurrentDomainType n now =
     bind_res (EstimatedCurrentSlot (nw_Beacon n) now) (DomainTypeAtSlot n)"

definition maxEpochConvertibleToSlot :: "Network \<Rightarrow> ('e, u64) res" where
  "maxEpochConvertibleToSlot n = u64_div maxUint64 (SlotsPerEpoch (nw_Beacon n))"

datatype net_err =
    ZeroSlotsPerEpoch
  | BooleEpochOverflows u64 u64
  | BooleWithoutDomainChange u64

definition Validate :: "Network \<Rightarrow> int \<Rightarrow> (net_err, unit) res" where
  "Validate n now =
     (if SlotsPerEpoch (nw_Beacon n) = 0 then Err ZeroSlotsPerEpoch
      else if \<not> BooleForkScheduled n then Ok ()
      else bind_res (maxEpochConvertibleToSlot n) (\<lambda>maxEpoch.
        if maxEpoch < ForksBoole (nw_SSV n)
        then Err (BooleEpochOverflows (ForksBoole (nw_SSV n)) maxEpoch)
        else bind_res (if now < GenesisTime (nw_Beacon n) then Ok False else BooleFork n now)
          (\<lambda>booleForkActive.
            if NextDomainType (nw_SSV n) = DomainType (nw_SSV n) \<and> \<not> booleForkActive
            then Err (BooleWithoutDomainChange (ForksBoole (nw_SSV n)))
            else Ok ())))"

definition inBoolePriorWindowWithEpochs :: "Network \<Rightarrow> u64 \<Rightarrow> u64 \<Rightarrow> ('e, bool) res" where
  "inBoolePriorWindowWithEpochs n slot windowEpochs =
     (let boole = ForksBoole (nw_SSV n);
          priorWindowStartEpoch = (if windowEpochs \<le> boole then boole - windowEpochs else 0)
      in bind_res (EstimatedEpochAtSlot (nw_Beacon n) slot) (\<lambda>epoch.
           if priorWindowStartEpoch \<le> epoch
           then bind_res (BooleForkAtSlot n slot) (\<lambda>f. Ok (\<not> f))
           else Ok False))"

definition inBoolePriorWindow :: "Network \<Rightarrow> u64 \<Rightarrow> ('e, bool) res" where
  "inBoolePriorWindow n slot = inBoolePriorWindowWithEpochs n slot boolePriorWindowEpochs"

definition inBooleSubsequentWindowWithSlots :: "Network \<Rightarrow> u64 \<Rightarrow> u64 \<Rightarrow> ('e, bool) res" where
  "inBooleSubsequentWindowWithSlots n slot windowSlots =
     (if ForksBoole (nw_SSV n) = 0 then Ok False
      else if SlotsPerEpoch (nw_Beacon n) = 0 then Ok False
      else bind_res (maxEpochConvertibleToSlot n) (\<lambda>maxEpoch.
        if maxEpoch < ForksBoole (nw_SSV n) then Ok False
        else let start = FirstSlotAtEpoch (nw_Beacon n) (ForksBoole (nw_SSV n));
                 windowEnd = start + windowSlots
             in Ok (start \<le> slot \<and> slot < windowEnd)))"

definition inBooleSubsequentWindow :: "Network \<Rightarrow> u64 \<Rightarrow> ('e, bool) res" where
  "inBooleSubsequentWindow n slot =
     inBooleSubsequentWindowWithSlots n slot
       (SlotsPerEpoch (nw_Beacon n) + booleSubsequentWindowLateSlots)"

definition InBooleTransitionWindow :: "Network \<Rightarrow> u64 \<Rightarrow> ('e, bool) res" where
  "InBooleTransitionWindow n slot =
     bind_res (inBoolePriorWindow n slot) (\<lambda>prior.
       if prior then Ok True else inBooleSubsequentWindow n slot)"

definition InGloasPriorWindow :: "Network \<Rightarrow> u64 \<Rightarrow> ('e, bool) res" where
  "InGloasPriorWindow n slot =
     (let (gloasEpoch, ok) = GloasForkEpoch (nw_Beacon n)
      in if \<not> ok then Ok False
         else let priorWindowStart = (if gloasPriorWindowEpochs \<le> gloasEpoch
                                      then gloasEpoch - gloasPriorWindowEpochs else 0)
         in bind_res (EstimatedEpochAtSlot (nw_Beacon n) slot) (\<lambda>epoch.
              Ok (priorWindowStart \<le> epoch \<and> epoch < gloasEpoch)))"

section \<open>Lemmas: the clock\<close>

lemma EstimatedEpochAtSlot_Ok [simp]:
  "SlotsPerEpoch b \<noteq> 0 \<Longrightarrow> EstimatedEpochAtSlot b slot = Ok (slot div SlotsPerEpoch b)"
  by (simp add: EstimatedEpochAtSlot_def)

lemma BooleForkAtSlot_Ok [simp]:
  "SlotsPerEpoch (nw_Beacon n) \<noteq> 0 \<Longrightarrow>
   BooleForkAtSlot n slot = Ok (ForksBoole (nw_SSV n) \<le> slot div SlotsPerEpoch (nw_Beacon n))"
  by (simp add: BooleForkAtSlot_def BooleForkAtEpoch_def)

lemma IsGloasAtSlot_Ok [simp]:
  "SlotsPerEpoch b \<noteq> 0 \<Longrightarrow> IsGloasAtSlot b slot = Ok (IsGloas b (slot div SlotsPerEpoch b))"
  by (simp add: IsGloasAtSlot_def)

text \<open>Epochs that are convertible to slots: the multiplication does not wrap.\<close>

lemma unat_mult_le_div:
  fixes a b :: u64
  assumes "b \<noteq> 0" "a \<le> maxUint64 div b"
  shows "unat (a * b) = unat a * unat b"
proof -
  have "unat a \<le> unat maxUint64 div unat b"
    using assms(2) by (simp add: word_le_nat_alt unat_div)
  then have "unat a * unat b \<le> unat maxUint64"
    by (metis div_times_less_eq_dividend le_trans mult_le_mono1)
  then have "unat a * unat b < 2 ^ LENGTH(64)"
    by (simp add: unat_maxUint64)
  then show ?thesis
    by (simp add: unat_word_ariths)
qed

lemma epoch_of_FirstSlotAtEpoch:
  assumes "SlotsPerEpoch b \<noteq> 0" "epoch \<le> maxUint64 div SlotsPerEpoch b"
  shows "FirstSlotAtEpoch b epoch div SlotsPerEpoch b = epoch"
proof -
  have "0 < unat (SlotsPerEpoch b)"
    using assms(1) by (simp add: unat_gt_0)
  then have "unat (FirstSlotAtEpoch b epoch div SlotsPerEpoch b) = unat epoch"
    using unat_mult_le_div [OF assms] by (simp add: FirstSlotAtEpoch_def unat_div)
  then show ?thesis
    by (simp add: word_unat_eq_iff)
qed

lemma slot_div_le_max: "slot div (w::u64) \<le> maxUint64 div w"
  unfolding word_le_nat_alt unat_div
  by (rule div_le_mono) (simp only: word_le_nat_alt [symmetric] u64_le_max)

lemma FirstSlotAtEpoch_le_iff:
  assumes "SlotsPerEpoch b \<noteq> 0" "epoch \<le> maxUint64 div SlotsPerEpoch b"
  shows "FirstSlotAtEpoch b epoch \<le> slot \<longleftrightarrow> epoch \<le> slot div SlotsPerEpoch b"
proof -
  have "0 < unat (SlotsPerEpoch b)"
    using assms(1) by (simp add: unat_gt_0)
  then show ?thesis
    using unat_mult_le_div [OF assms]
    by (simp add: FirstSlotAtEpoch_def word_le_nat_alt unat_div less_eq_div_iff_mult_less_eq)
qed

lemma slot_less_next_epoch:
  assumes "SlotsPerEpoch b \<noteq> 0"
  shows "unat slot < unat (FirstSlotAtEpoch b (slot div SlotsPerEpoch b)) + unat (SlotsPerEpoch b)"
proof -
  have "unat (FirstSlotAtEpoch b (slot div SlotsPerEpoch b))
          = unat slot div unat (SlotsPerEpoch b) * unat (SlotsPerEpoch b)"
    using unat_mult_le_div [OF assms slot_div_le_max] by (simp add: FirstSlotAtEpoch_def unat_div)
  moreover have "0 < unat (SlotsPerEpoch b)"
    using assms by (simp add: unat_gt_0)
  ultimately show ?thesis
    by (metis add.commute dividend_less_div_times)
qed

lemma SlotStartTime_exact:
  assumes "0 \<le> SlotDuration b" "uint slot \<le> maxInt64" "uint slot * SlotDuration b \<le> maxInt64"
  shows "SlotStartTime b slot = Ok (GenesisTime b + uint slot * SlotDuration b)"
proof -
  have "in_i64 (uint slot * SlotDuration b)"
    using assms by (auto simp: in_i64_def minInt64_def intro: order_trans [of _ 0])
  then show ?thesis
    using assms(2) by (simp add: SlotStartTime_def i64_of_u64_small i64_id)
qed

lemma EstimatedSlotAtTime_exact:
  assumes "0 < SlotDuration b" "0 \<le> d" "d \<le> maxInt64"
  shows "EstimatedSlotAtTime b (GenesisTime b + d) = Ok (word_of_int (d div SlotDuration b))"
proof -
  have "time_sub (GenesisTime b + d) (GenesisTime b) = d"
    using assms by (subst time_sub_exact) (auto simp: in_i64_def minInt64_def)
  then show ?thesis
    using assms by (simp add: EstimatedSlotAtTime_def i64_quot_nonneg u64_of_i64_def)
qed

section \<open>Lemmas: the fork schedule\<close>

text \<open>A schedule in which a later version never starts before an earlier one.\<close>

definition forks_ordered :: "(DataVersion \<rightharpoonup> Fork) \<Rightarrow> bool" where
  "forks_ordered forks \<longleftrightarrow>
     (\<forall>v w f g. forks v = Some f \<longrightarrow> forks w = Some g \<longrightarrow> v \<le> w \<longrightarrow> Epoch f \<le> Epoch g)"

text \<open>The specification of the active fork: the latest version already started.\<close>

definition active_fork :: "(DataVersion \<rightharpoonup> Fork) \<Rightarrow> u64 \<Rightarrow> DataVersion \<Rightarrow> Fork \<Rightarrow> bool" where
  "active_fork forks epoch v f \<longleftrightarrow>
     forks v = Some f \<and> Epoch f \<le> epoch \<and>
     (\<forall>w g. forks w = Some g \<longrightarrow> Epoch g \<le> epoch \<longrightarrow> w \<le> v)"

lemma active_fork_unique:
  "active_fork forks epoch v f \<Longrightarrow> active_fork forks epoch w g \<Longrightarrow> v = w \<and> f = g"
  unfolding active_fork_def by (metis option.inject order_antisym)

text \<open>
  The loop invariant: \<open>active\<close> holds the active fork of the versions already passed, \<open>ds\<close>.
\<close>

lemma forkAtEpoch_loop_spec:
  assumes "forks_ordered forks" "sorted_wrt (<) (ds @ vs)" "set (ds @ vs) = UNIV"
    and "case active of
           None \<Rightarrow> (\<forall>w \<in> set ds. forks w = None)
         | Some (v, f) \<Rightarrow> v \<in> set ds \<and> forks v = Some f \<and> Epoch f \<le> epoch \<and>
                          (\<forall>w \<in> set ds. forks w \<noteq> None \<longrightarrow> w \<le> v)"
  shows "(\<exists>v f. forkAtEpoch_loop forks epoch vs active = Ok (v, f) \<and> active_fork forks epoch v f)
         \<or> (forkAtEpoch_loop forks epoch vs active = Panic \<and>
            (\<forall>w g. forks w = Some g \<longrightarrow> epoch < Epoch g))"
  using assms
proof (induction vs arbitrary: ds active)
  case Nil
  then show ?case
    by (cases active) (auto simp: active_fork_def)
next
  case (Cons x vs)
  have ord: "sorted_wrt (<) ((ds @ [x]) @ vs)" "set ((ds @ [x]) @ vs) = UNIV"
    using Cons.prems(2,3) by auto
  show ?case
  proof (cases "forks x")
    case None
    then show ?thesis
      using Cons.IH [OF Cons.prems(1) ord, of active] Cons.prems(4)
      by (auto split: option.splits prod.splits)
  next
    case (Some g)
    show ?thesis
    proof (cases "epoch < Epoch g")
      case True
      have late: "epoch < Epoch h" if "forks w = Some h" "w \<notin> set ds" for w h
      proof -
        have "w \<in> insert x (set vs)"
          using that(2) Cons.prems(3) by auto
        then have "x \<le> w"
          using Cons.prems(2) by (auto simp: sorted_wrt_append)
        then show ?thesis
          using True Some that(1) Cons.prems(1) unfolding forks_ordered_def by fastforce
      qed
      show ?thesis
      proof (cases active)
        case None
        then have "epoch < Epoch h" if "forks w = Some h" for w h
          using that late Cons.prems(4) by (cases "w \<in> set ds") auto
        then show ?thesis
          using True Some None by simp
      next
        case (Some vf)
        obtain v f where vf: "vf = (v, f)"
          by (cases vf)
        have "w \<le> v" if "forks w = Some h" "Epoch h \<le> epoch" for w h
          using that late [of w h] Cons.prems(4) Some vf by (cases "w \<in> set ds") auto
        then have "active_fork forks epoch v f"
          using Cons.prems(4) Some vf by (auto simp: active_fork_def)
        then show ?thesis
          using True \<open>forks x = Some g\<close> Some vf by simp
      qed
    next
      case False
      have "\<forall>w \<in> set (ds @ [x]). w \<le> x"
        using Cons.prems(2) by (auto simp: sorted_wrt_append less_imp_le)
      then show ?thesis
        using Cons.IH [OF Cons.prems(1) ord, of "Some (x, g)"] False Some
        by auto
    qed
  qed
qed

lemma ForkAtEpoch_spec:
  assumes "forks_ordered (bn_Forks b)"
  shows "(\<exists>v f. ForkAtEpoch b epoch = Ok (v, f) \<and> active_fork (bn_Forks b) epoch v f)
         \<or> (ForkAtEpoch b epoch = Panic \<and>
            (\<forall>w g. bn_Forks b w = Some g \<longrightarrow> epoch < Epoch g))"
  unfolding ForkAtEpoch_def
  using forkAtEpoch_loop_spec [OF assms, where ds = "[]" and vs = dataVersions and active = None] sorted_dataVersions
  by simp

text \<open>Two schedules differ at a version when the normalised entries differ.\<close>

definition fork_differs ::
  "(DataVersion \<rightharpoonup> Fork) \<Rightarrow> (DataVersion \<rightharpoonup> Fork) \<Rightarrow> DataVersion \<Rightarrow> bool" where
  "fork_differs ours theirs v \<longleftrightarrow> schedule ours v \<noteq> schedule theirs v"

definition fork_started :: "(DataVersion \<rightharpoonup> Fork) \<Rightarrow> u64 \<Rightarrow> DataVersion \<Rightarrow> bool" where
  "fork_started forks cur v \<longleftrightarrow> snd (schedule forks v) \<and> Epoch (fst (schedule forks v)) \<le> cur"

lemma schedule_flag: "snd (schedule forks v) \<longleftrightarrow> Epoch (fst (schedule forks v)) \<noteq> FarFutureEpoch"
  by (auto simp: schedule_def Let_def split: option.splits)

lemma schedule_unscheduled:
  "\<not> snd (schedule f v) \<Longrightarrow> \<not> snd (schedule g v) \<Longrightarrow> schedule f v = schedule g v"
  by (auto simp: schedule_def Let_def split: option.splits if_splits)

lemma fork_differs_iff:
  "fork_differs ours theirs v \<longleftrightarrow>
     \<not> ((\<not> snd (schedule ours v) \<and> \<not> snd (schedule theirs v)) \<or>
        fst (schedule ours v) = fst (schedule theirs v))"
  using schedule_flag [of ours v] schedule_flag [of theirs v] schedule_unscheduled [of ours v theirs]
  unfolding fork_differs_def by (auto simp: prod_eq_iff)

declare assertSameForks_loop.simps(2) [simp del]

lemma assertSameForks_loop_spec:
  assumes "\<And>e. lag = Some e \<Longrightarrow> \<exists>v m o'. e = ForkScheduleLagError v m o'"
  shows "(\<exists>v \<in> set vs. fork_differs ours theirs v \<and>
            (fork_started ours cur v \<or> fork_started theirs cur v) \<and>
            assertSameForks_loop ours theirs cur vs lag
              = Err (DifferentForks v (fst (schedule ours v)) (fst (schedule theirs v))))
         \<or> ((\<forall>v \<in> set vs. fork_differs ours theirs v \<longrightarrow>
               \<not> fork_started ours cur v \<and> \<not> fork_started theirs cur v) \<and>
            (if lag = None \<and> (\<forall>v \<in> set vs. \<not> fork_differs ours theirs v)
             then assertSameForks_loop ours theirs cur vs lag = Ok ()
             else \<exists>v m o'. assertSameForks_loop ours theirs cur vs lag
                          = Err (ForkScheduleLagError v m o')))"
  using assms
proof (induction vs arbitrary: lag)
  case Nil
  then show ?case by (cases lag) auto
next
  case (Cons x vs)
  show ?case
  proof (cases "fork_differs ours theirs x")
    case False
    have "assertSameForks_loop ours theirs cur (x # vs) lag
            = assertSameForks_loop ours theirs cur vs lag"
      using False by (simp add: assertSameForks_loop.simps(2) fork_differs_iff split_beta)
    then show ?thesis
      using Cons.IH [of lag] Cons.prems False by (auto split: if_splits)
  next
    case True
    show ?thesis
    proof (cases "fork_started ours cur x \<or> fork_started theirs cur x")
      case started: True
      then have "assertSameForks_loop ours theirs cur (x # vs) lag
                   = Err (DifferentForks x (fst (schedule ours x)) (fst (schedule theirs x)))"
        using True by (auto simp: assertSameForks_loop.simps(2) fork_differs_iff fork_started_def split_beta)
      then show ?thesis
        using True started by auto
    next
      case unstarted: False
      define lag' where "lag' = (if lag = None
        then Some (ForkScheduleLagError x (fst (schedule ours x)) (fst (schedule theirs x))) else lag)"
      have "assertSameForks_loop ours theirs cur (x # vs) lag
              = assertSameForks_loop ours theirs cur vs lag'"
        using True unstarted by (auto simp: assertSameForks_loop.simps(2) fork_differs_iff fork_started_def split_beta lag'_def)
      moreover have "lag' \<noteq> None" "\<And>e. lag' = Some e \<Longrightarrow> \<exists>v m o'. e = ForkScheduleLagError v m o'"
        using Cons.prems by (auto simp: lag'_def split: if_splits)
      ultimately show ?thesis
        using Cons.IH [of lag'] True unstarted by auto
    qed
  qed
qed

lemma fork_differs_sym: "fork_differs f g v = fork_differs g f v"
  by (auto simp: fork_differs_def)

lemma fork_differs_named: "fork_differs f g v \<Longrightarrow> f v \<noteq> None \<or> g v \<noteq> None"
  by (auto simp: fork_differs_def schedule_def Let_def split: option.splits)

text \<open>The three outcomes of the comparison, by the forks that differ and have started.\<close>

lemma assertSameForks_outcome:
  "((\<forall>v. \<not> fork_differs f g v) \<and> assertSameForks f g cur = Ok ()) \<or>
   ((\<exists>v. fork_differs f g v) \<and>
    (\<forall>v. fork_differs f g v \<longrightarrow> \<not> fork_started f cur v \<and> \<not> fork_started g cur v) \<and>
    (\<exists>v m o'. assertSameForks f g cur = Err (ForkScheduleLagError v m o'))) \<or>
   ((\<exists>v. fork_differs f g v \<and> (fork_started f cur v \<or> fork_started g cur v)) \<and>
    (\<exists>v m o'. assertSameForks f g cur = Err (DifferentForks v m o')))"
proof -
  define vs where "vs = filter (\<lambda>v. f v \<noteq> None \<or> g v \<noteq> None) dataVersions"
  have "fork_differs f g v \<Longrightarrow> v \<in> set vs" for v
    using fork_differs_named [of f g v] by (simp add: vs_def)
  then show ?thesis
    using assertSameForks_loop_spec [of None vs f g cur]
    unfolding assertSameForks_def vs_def [symmetric]
    by (auto split: if_splits)
qed

section \<open>Properties\<close>

text \<open>What a passed validation guarantees when the Boole fork is scheduled.\<close>

lemma Validate_bounds:
  assumes "Validate n now = Ok ()" "BooleForkScheduled n"
  shows "SlotsPerEpoch (nw_Beacon n) \<noteq> 0"
    and "ForksBoole (nw_SSV n) \<le> maxUint64 div SlotsPerEpoch (nw_Beacon n)"
  using assms
  by (auto simp: Validate_def maxEpochConvertibleToSlot_def not_less split: if_splits)

text \<open>A small configuration for the witnesses: 12 s slots, 32 slots per epoch, Boole at epoch 10.\<close>

definition demo_fork :: "u64 \<Rightarrow> Fork" where
  "demo_fork e = \<lparr>PreviousVersion = [0, 0, 0, 0], CurrentVersion = [1, 0, 0, 0], Epoch = e\<rparr>"

definition demo_Beacon :: Beacon where
  "demo_Beacon =
     \<lparr>bn_Name = ''demo'', SlotDuration = 12000000000, SlotsPerEpoch = 32,
      EpochsPerSyncCommitteePeriod = 256, SyncCommitteeSize = 512, SyncCommitteeSubnetCount = 4,
      TargetAggregatorsPerSyncSubcommittee = 16, TargetAggregatorsPerCommittee = 16,
      GenesisForkVersion = [0, 0, 0, 0], GenesisTime = 1000000000, GenesisValidatorsRoot = [],
      bn_Forks = [DataVersionPhase0 \<mapsto> demo_fork 0, DataVersionFulu \<mapsto> demo_fork 7,
                  DataVersionGloas \<mapsto> demo_fork 20]\<rparr>"

definition demo_SSV :: SSV where
  "demo_SSV =
     \<lparr>ssv_Name = ''demo'', DomainType = [0, 0, 5, 2], NextDomainType = [0, 0, 5, 3],
      RegistrySyncOffset = Some 1, RegistryContractAddr = [1], Bootnodes = [],
      DiscoveryProtocolID = [1, 2, 3, 4, 5, 6], TotalEthereumValidators = 1000000,
      ForksBoole = 10\<rparr>"

definition demo_Network :: Network where
  "demo_Network = \<lparr>nw_Beacon = demo_Beacon, nw_SSV = demo_SSV\<rparr>"

lemmas demo_defs = demo_Network_def demo_SSV_def demo_Beacon_def demo_fork_def

text \<open>
  C32: a network configuration that passes \<open>Validate\<close> with a scheduled Boole fork switches its
  domain exactly at the first slot of the fork epoch: every slot before it has the current
  domain, every slot from it on has the next one, and no slot makes the conversion panic or
  wrap around.
\<close>

theorem validated_domain_switch:
  assumes "Validate n now = Ok ()" "BooleForkScheduled n"
  shows "DomainTypeAtSlot n slot =
           Ok (if FirstSlotAtEpoch (nw_Beacon n) (ForksBoole (nw_SSV n)) \<le> slot
               then NextDomainType (nw_SSV n) else DomainType (nw_SSV n)) \<and>
         unat (FirstSlotAtEpoch (nw_Beacon n) (ForksBoole (nw_SSV n)))
           = unat (ForksBoole (nw_SSV n)) * unat (SlotsPerEpoch (nw_Beacon n))"
proof -
  note valid = Validate_bounds [OF assms]
  show ?thesis
    using valid FirstSlotAtEpoch_le_iff [OF valid] unat_mult_le_div [OF valid]
    by (simp add: DomainTypeAtSlot_def FirstSlotAtEpoch_def)
qed

theorem validated_domain_switch_witness:
  "Validate demo_Network 2000000000 = Ok () \<and> BooleForkScheduled demo_Network \<and>
   DomainTypeAtSlot demo_Network 319 = (Ok [0, 0, 5, 2] :: (net_err, bytes) res) \<and>
   DomainTypeAtSlot demo_Network 320 = (Ok [0, 0, 5, 3] :: (net_err, bytes) res)"
proof -
  have v: "Validate demo_Network 2000000000 = Ok ()" and b: "BooleForkScheduled demo_Network"
    by (simp_all add: Validate_def BooleForkScheduled_def maxEpochConvertibleToSlot_def BooleFork_def
        EstimatedCurrentEpoch_def EstimatedCurrentSlot_def EstimatedSlotAtTime_def
        BooleForkAtEpoch_def time_sub_def i64_quot_def i64_def u64_of_i64_def maxInt64_def
        minInt64_def maxUint64_def demo_defs)
  then show ?thesis
    using validated_domain_switch [OF v b, of 319] validated_domain_switch [OF v b, of 320]
    by (simp add: FirstSlotAtEpoch_def demo_defs)
qed

text \<open>
  C33: the slot clock and the wall clock agree: while the exact instant fits the 64-bit duration
  range, any time inside a slot's interval, from its start time on and before the next start, is
  estimated to be in that slot.
\<close>

theorem slot_time_roundtrip:
  assumes "0 < SlotDuration b" "0 \<le> d" "d < SlotDuration b"
    and "uint slot * SlotDuration b + d \<le> maxInt64"
  shows "\<exists>t. SlotStartTime b slot = Ok t \<and> EstimatedSlotAtTime b (t + d) = Ok slot"
proof -
  have "uint slot \<le> uint slot * SlotDuration b"
    using assms(1) by (simp add: mult_le_cancel_left1)
  then have start: "SlotStartTime b slot = Ok (GenesisTime b + uint slot * SlotDuration b)"
    using assms by (intro SlotStartTime_exact) auto
  have "(uint slot * SlotDuration b + d) div SlotDuration b = uint slot"
    using assms by (simp add: div_pos_pos_trivial)
  then have "EstimatedSlotAtTime b (GenesisTime b + (uint slot * SlotDuration b + d)) = Ok slot"
    using assms by (subst EstimatedSlotAtTime_exact) auto
  then show ?thesis
    using start by (auto simp: add.assoc)
qed

theorem slot_time_roundtrip_witness:
  "\<exists>t. SlotStartTime demo_Beacon 5 = (Ok t :: (net_err, int) res) \<and>
       EstimatedSlotAtTime demo_Beacon (t + 11999999999) = (Ok 5 :: (net_err, u64) res)"
  using slot_time_roundtrip [of demo_Beacon 11999999999 5]
  by (simp add: demo_Beacon_def maxInt64_def)

text \<open>
  C34: on a fork schedule whose epochs follow the version order, \<open>ForkAtEpoch\<close> returns the fork
  of the greatest version already started, and it panics only for an epoch before every
  configured fork.
\<close>

theorem ForkAtEpoch_active:
  assumes "forks_ordered (bn_Forks b)"
  shows "((ForkAtEpoch b epoch :: ('e, DataVersion \<times> Fork) res) = Ok (v, f) \<longleftrightarrow>
            active_fork (bn_Forks b) epoch v f) \<and>
         ((ForkAtEpoch b epoch :: ('e, DataVersion \<times> Fork) res) = Panic \<longleftrightarrow>
           (\<forall>w g. bn_Forks b w = Some g \<longrightarrow> epoch < Epoch g))"
proof -
  have no_active: "\<not> active_fork (bn_Forks b) epoch v' f'"
    if "\<forall>w g. bn_Forks b w = Some g \<longrightarrow> epoch < Epoch g" for v' f'
    using that by (auto simp: active_fork_def dest: leD)
  consider (found) v' f' where
      "(ForkAtEpoch b epoch :: ('e, DataVersion \<times> Fork) res) = Ok (v', f')"
      "active_fork (bn_Forks b) epoch v' f'"
    | (none) "(ForkAtEpoch b epoch :: ('e, DataVersion \<times> Fork) res) = Panic"
      "\<forall>w g. bn_Forks b w = Some g \<longrightarrow> epoch < Epoch g"
    using ForkAtEpoch_spec [OF assms, of epoch] by blast
  then show ?thesis
  proof cases
    case found
    have "active_fork (bn_Forks b) epoch v f \<longleftrightarrow> v = v' \<and> f = f'"
      using found(2) active_fork_unique by metis
    moreover have "\<not> (\<forall>w g. bn_Forks b w = Some g \<longrightarrow> epoch < Epoch g)"
      using found(2) unfolding active_fork_def by (meson leD)
    ultimately show ?thesis
      using found(1) by auto
  next
    case none
    then show ?thesis
      using no_active by simp
  qed
qed

theorem ForkAtEpoch_active_witness:
  "forks_ordered (bn_Forks demo_Beacon) \<and>
   active_fork (bn_Forks demo_Beacon) 19 DataVersionFulu (demo_fork 7)"
proof -
  have ord: "forks_ordered (bn_Forks demo_Beacon)"
    by (auto simp: forks_ordered_def demo_defs less_eq_DataVersion_def split: if_splits)
  have "ForkAtEpoch demo_Beacon 19 = (Ok (DataVersionFulu, demo_fork 7) :: (net_err, _) res)"
    by (simp add: ForkAtEpoch_def dataVersions_def demo_defs)
  then show ?thesis
    using ForkAtEpoch_active [OF ord] ord by blast
qed

text \<open>
  the Boole transition window of a validated network with a fork after genesis is the
  interval of slots from one epoch before the fork to one epoch and two slots after it, as long
  as its end does not wrap around.
\<close>

theorem boole_transition_window:
  assumes "Validate n now = Ok ()" "BooleForkScheduled n" "ForksBoole (nw_SSV n) \<noteq> 0"
    and "unat (FirstSlotAtEpoch (nw_Beacon n) (ForksBoole (nw_SSV n)))
           + unat (SlotsPerEpoch (nw_Beacon n)) + 2 < 2 ^ 64"
  shows "InBooleTransitionWindow n slot =
           Ok (FirstSlotAtEpoch (nw_Beacon n) (ForksBoole (nw_SSV n) - 1) \<le> slot \<and>
               slot < FirstSlotAtEpoch (nw_Beacon n) (ForksBoole (nw_SSV n))
                        + (SlotsPerEpoch (nw_Beacon n) + 2))"
proof -
  define b where "b = nw_Beacon n"
  define e where "e = ForksBoole (nw_SSV n)"
  have spe: "SlotsPerEpoch b \<noteq> 0" and bound: "e \<le> maxUint64 div SlotsPerEpoch b"
    using Validate_bounds [OF assms(1,2)] unfolding b_def e_def by auto
  have e1: "1 \<le> e"
    using assms(3) unfolding e_def by (simp add: word_le_nat_alt Suc_le_eq unat_gt_0)
  then have "e - 1 \<le> e"
    by (simp add: word_le_nat_alt unat_sub)
  then have bound1: "e - 1 \<le> maxUint64 div SlotsPerEpoch b"
    using bound by order
  have prior: "inBoolePriorWindow n slot = Ok (FirstSlotAtEpoch b (e - 1) \<le> slot \<and> \<not> FirstSlotAtEpoch b e \<le> slot)"
    using spe e1 FirstSlotAtEpoch_le_iff [OF spe bound] FirstSlotAtEpoch_le_iff [OF spe bound1]
    by (simp add: inBoolePriorWindow_def inBoolePriorWindowWithEpochs_def boolePriorWindowEpochs_def
        flip: b_def e_def)
  have sub: "inBooleSubsequentWindow n slot =
      Ok (FirstSlotAtEpoch b e \<le> slot \<and> slot < FirstSlotAtEpoch b e + (SlotsPerEpoch b + 2))"
    using spe bound assms(3)
    by (simp add: inBooleSubsequentWindow_def inBooleSubsequentWindowWithSlots_def
        booleSubsequentWindowLateSlots_def maxEpochConvertibleToSlot_def Let_def leD flip: b_def e_def)
  have le: "FirstSlotAtEpoch b (e - 1) \<le> slot" if "FirstSlotAtEpoch b e \<le> slot"
    using that FirstSlotAtEpoch_le_iff [OF spe bound] FirstSlotAtEpoch_le_iff [OF spe bound1]
      \<open>e - 1 \<le> e\<close> by fastforce
  have "FirstSlotAtEpoch b e \<le> FirstSlotAtEpoch b e + (SlotsPerEpoch b + 2)"
  proof -
    have "unat (SlotsPerEpoch b + 2) = unat (SlotsPerEpoch b) + 2"
      using assms(4) unfolding b_def by (subst unat_add_lem [THEN iffD1]) auto
    then show ?thesis
      using assms(4) unfolding b_def e_def by (simp add: word_le_nat_alt unat_word_ariths)
  qed
  then have lt: "slot < FirstSlotAtEpoch b e + (SlotsPerEpoch b + 2)" if "\<not> FirstSlotAtEpoch b e \<le> slot"
    using that by simp
  show ?thesis
    unfolding InBooleTransitionWindow_def prior sub b_def [symmetric] e_def [symmetric]
    using le lt by auto
qed

theorem boole_transition_window_witness:
  "InBooleTransitionWindow demo_Network 288 = (Ok True :: (net_err, bool) res) \<and>
   InBooleTransitionWindow demo_Network 354 = (Ok False :: (net_err, bool) res)"
proof -
  have v: "Validate demo_Network 2000000000 = Ok ()" and b: "BooleForkScheduled demo_Network"
    and z: "ForksBoole (nw_SSV demo_Network) \<noteq> 0"
    by (simp_all add: Validate_def BooleForkScheduled_def maxEpochConvertibleToSlot_def BooleFork_def
        EstimatedCurrentEpoch_def EstimatedCurrentSlot_def EstimatedSlotAtTime_def
        BooleForkAtEpoch_def time_sub_def i64_quot_def i64_def u64_of_i64_def maxInt64_def
        minInt64_def maxUint64_def demo_defs)
  have w: "unat (FirstSlotAtEpoch (nw_Beacon demo_Network) (ForksBoole (nw_SSV demo_Network)))
           + unat (SlotsPerEpoch (nw_Beacon demo_Network)) + 2 < 2 ^ 64"
    by (simp add: FirstSlotAtEpoch_def demo_defs)
  show ?thesis
    using boole_transition_window [OF v b z w, of 288] boole_transition_window [OF v b z w, of 354]
    by (simp add: FirstSlotAtEpoch_def demo_defs)
qed

text \<open>
  reading back a marshalled configuration gives the configuration itself, the unscheduled
  Boole fork included, for every configuration whose byte arrays have their Go lengths.
\<close>

theorem marshal_roundtrip:
  assumes "length (DomainType s) = 4" "length (NextDomainType s) = 4"
    and "length (DiscoveryProtocolID s) = 6"
  shows "unmarshalFromConfig (marshal s) = Ok s"
  using assms by (simp add: unmarshalFromConfig_def marshal_def)

theorem marshal_roundtrip_witness:
  "unmarshalFromConfig (marshal (demo_SSV\<lparr>ForksBoole := maxUint64\<rparr>))
     = Ok (demo_SSV\<lparr>ForksBoole := maxUint64\<rparr>)"
  by (rule marshal_roundtrip) (simp_all add: demo_SSV_def)

text \<open>
  comparing two fork schedules. The comparison succeeds exactly when no fork is scheduled
  differently; it reports different chains exactly when a fork that one side schedules
  differently has started on a side; every other disagreement is a schedule lag. The outcome
  does not depend on which side is ours.
\<close>

theorem assertSameForks_classifies:
  "(assertSameForks ours theirs cur = Ok () \<longleftrightarrow> (\<forall>v. \<not> fork_differs ours theirs v)) \<and>
   ((\<exists>v m o'. assertSameForks ours theirs cur = Err (DifferentForks v m o')) \<longleftrightarrow>
     (\<exists>v. fork_differs ours theirs v \<and> (fork_started ours cur v \<or> fork_started theirs cur v))) \<and>
   ((\<exists>v m o'. assertSameForks ours theirs cur = Err (ForkScheduleLagError v m o')) \<longleftrightarrow>
     (\<exists>v m o'. assertSameForks theirs ours cur = Err (ForkScheduleLagError v m o')))"
  using assertSameForks_outcome [of ours theirs cur] assertSameForks_outcome [of theirs ours cur]
  by (auto simp: fork_differs_sym)

end
