(* ===== verification/Round_Timer.thy ===== *)
theory Round_Timer
  imports Network_Config
begin

text \<open>
  The QBFT round timer, \<open>protocol/v2/qbft/roundtimer/timer.go\<close>: the round budgets per role, the
  round a peer should be in at a given time of the slot, and the timer object with its
  asynchronous callback. \<open>specqbft.FirstRound\<close>, \<open>specqbft.NoRound\<close> and \<open>specqbft.CutoffRound\<close>
  belong to the specification package; they are arguments here.
\<close>

section \<open>Roles and budgets\<close>

datatype RunnerRole =
    RoleCommittee | RoleAggregator | RoleProposer | RoleSyncCommitteeContribution
  | RoleValidatorRegistration | RoleVoluntaryExit | RoleAggregatorCommittee
  | RoleProposerPreferences | RolePTCAttester | RoleUnknown

definition QuickTimeoutThreshold :: u64 where "QuickTimeoutThreshold = 8"
definition QuickTimeout :: int where "QuickTimeout = 2 * 1000000000"
definition DefaultProposerQuickTimeout :: int where "DefaultProposerQuickTimeout = 1500 * 1000000"
definition SlowTimeout :: int where "SlowTimeout = 2 * 60 * 1000000000"

definition DurationFromUint64 :: "u64 \<Rightarrow> int" where
  "DurationFromUint64 t = (if maxInt64 < uint t then maxInt64 else i64_of_u64 t)"

definition MaxRound :: "RunnerRole \<Rightarrow> u64 option" where
  "MaxRound role =
     (case role of
        RoleCommittee \<Rightarrow> Some 12
      | RoleAggregatorCommittee \<Rightarrow> Some 12
      | RoleAggregator \<Rightarrow> Some 12
      | RoleProposer \<Rightarrow> Some 2
      | RoleSyncCommitteeContribution \<Rightarrow> Some 6
      | _ \<Rightarrow> None)"

definition CutOffRoundFor :: "u64 \<Rightarrow> RunnerRole \<Rightarrow> u64" where
  "CutOffRoundFor CutOffRound role =
     (case MaxRound role of
        Some maxRound \<Rightarrow> if maxRound + 1 < CutOffRound then maxRound + 1 else CutOffRound
      | None \<Rightarrow> CutOffRound)"

definition defaultQuickTimeoutForRole :: "RunnerRole \<Rightarrow> int" where
  "defaultQuickTimeoutForRole role =
     (if role = RoleProposer then DefaultProposerQuickTimeout else QuickTimeout)"

definition round1HeadStart :: "RunnerRole \<Rightarrow> int \<Rightarrow> int" where
  "round1HeadStart role intervalDuration =
     (case role of
        RoleCommittee \<Rightarrow> intervalDuration
      | RoleAggregator \<Rightarrow> i64 (2 * intervalDuration)
      | RoleSyncCommitteeContribution \<Rightarrow> i64 (2 * intervalDuration)
      | RoleAggregatorCommittee \<Rightarrow> i64 (2 * intervalDuration)
      | _ \<Rightarrow> 0)"

definition roundTimeoutForRound :: "RunnerRole \<Rightarrow> int \<Rightarrow> int \<Rightarrow> u64 \<Rightarrow> int" where
  "roundTimeoutForRound role intervalDuration quick round =
     (let headStart = round1HeadStart role intervalDuration
      in if round \<le> QuickTimeoutThreshold
         then i64 (headStart + i64 (DurationFromUint64 round * quick))
         else let quickPortion = i64 (DurationFromUint64 QuickTimeoutThreshold * quick);
                  slowPortion = i64 (DurationFromUint64 (round - QuickTimeoutThreshold) * SlowTimeout)
              in i64 (i64 (headStart + quickPortion) + slowPortion))"

definition EstimatedRoundAt :: "u64 \<Rightarrow> RunnerRole \<Rightarrow> int \<Rightarrow> int \<Rightarrow> ('e, u64) res" where
  "EstimatedRoundAt FirstRound role intervalDuration timeIntoSlot =
     (let elapsed = i64 (timeIntoSlot - round1HeadStart role intervalDuration)
      in if elapsed < 0 then Ok FirstRound
         else let quick = defaultQuickTimeoutForRole role;
                  quickEnd = i64 (DurationFromUint64 QuickTimeoutThreshold * quick)
         in if elapsed < quickEnd
            then bind_res (i64_quot elapsed quick) (\<lambda>q. Ok (FirstRound + u64_of_i64 q))
            else let slowElapsed = i64 (elapsed - quickEnd)
                 in bind_res (i64_quot slowElapsed SlowTimeout) (\<lambda>q.
                      Ok (FirstRound + QuickTimeoutThreshold + u64_of_i64 q)))"

definition RoundRelativeRole :: "RunnerRole \<Rightarrow> bool" where
  "RoundRelativeRole role \<longleftrightarrow> role = RoleProposer"

section \<open>The timer object\<close>

text \<open>
  \<open>rt_cancelled\<close> is the state of the timer's context, \<open>rt_timer\<close> the armed \<open>time.Timer\<close> with the
  round its closure was made for and the wait it was started with (\<open>None\<close> for a nil timer or one
  that has fired or was stopped before firing).
\<close>

record RoundTimer =
  rt_cancelled :: bool
  rt_role :: RunnerRole
  rt_beaconConfig :: Beacon
  rt_legacyProposerRoundTimeout :: bool
  rt_slot :: u64
  rt_round :: u64
  rt_timer :: "(u64 \<times> int) option"

definition New :: "u64 \<Rightarrow> Beacon \<Rightarrow> RunnerRole \<Rightarrow> u64 \<Rightarrow> bool \<Rightarrow> RoundTimer" where
  "New NoRound beaconConfig role slot legacy =
     \<lparr>rt_cancelled = False, rt_role = role, rt_beaconConfig = beaconConfig,
      rt_legacyProposerRoundTimeout = legacy, rt_slot = slot, rt_round = NoRound,
      rt_timer = None\<rparr>"

definition quickTimeout :: "RoundTimer \<Rightarrow> int" where
  "quickTimeout t =
     (if rt_role t = RoleProposer \<and> rt_legacyProposerRoundTimeout t then QuickTimeout
      else defaultQuickTimeoutForRole (rt_role t))"

definition RoundTimeout :: "RoundTimer \<Rightarrow> int \<Rightarrow> u64 \<Rightarrow> ('e, int) res" where
  "RoundTimeout t now round =
     (if RoundRelativeRole (rt_role t)
      then Ok (if round \<le> QuickTimeoutThreshold then quickTimeout t else SlowTimeout)
      else bind_res (SlotStartTime (rt_beaconConfig t) (rt_slot t)) (\<lambda>dutyStartTime.
           bind_res (IntervalDuration (rt_beaconConfig t) (rt_slot t)) (\<lambda>interval.
             Ok (time_sub (dutyStartTime
                   + roundTimeoutForRound (rt_role t) interval (quickTimeout t) round) now))))"

definition TimeoutForRound :: "RoundTimer \<Rightarrow> int \<Rightarrow> u64 \<Rightarrow> ('e, RoundTimer) res" where
  "TimeoutForRound t now round =
     (if rt_cancelled t then Ok t
      else let t = t\<lparr>rt_timer := None, rt_round := round\<rparr>
           in bind_res (RoundTimeout t now round) (\<lambda>wait. Ok (t\<lparr>rt_timer := Some (round, wait)\<rparr>)))"

definition Stop :: "RoundTimer \<Rightarrow> RoundTimer" where
  "Stop t = t\<lparr>rt_cancelled := True, rt_timer := None\<rparr>"

text \<open>
  The closure given to \<open>time.AfterFunc\<close> runs in its own goroutine: it leaves when the context is
  cancelled, then waits for the lock, and calls back only if the timer still holds its round.
  \<open>rtc_started\<close> and \<open>rtc_waiting\<close> are the closures before the context check and before the lock;
  \<open>rtc_called\<close> is the log of callback invocations and \<open>rtc_armed\<close> that of the armed rounds.
\<close>

record timer_sys =
  rtc_timer :: RoundTimer
  rtc_started :: "u64 multiset"
  rtc_waiting :: "u64 multiset"
  rtc_called :: "u64 multiset"
  rtc_armed :: "u64 multiset"

inductive timer_step :: "timer_sys \<Rightarrow> timer_sys \<Rightarrow> bool" where
  arm: "TimeoutForRound (rtc_timer s) now round = (Ok t' :: (unit, RoundTimer) res) \<Longrightarrow>
    \<not> rt_cancelled (rtc_timer s) \<Longrightarrow>
    timer_step s (s\<lparr>rtc_timer := t', rtc_armed := add_mset round (rtc_armed s)\<rparr>)"
| arm_cancelled: "TimeoutForRound (rtc_timer s) now round = (Ok t' :: (unit, RoundTimer) res) \<Longrightarrow>
    rt_cancelled (rtc_timer s) \<Longrightarrow> timer_step s (s\<lparr>rtc_timer := t'\<rparr>)"
| expire: "rt_timer (rtc_timer s) = Some (round, wait) \<Longrightarrow>
    timer_step s (s\<lparr>rtc_timer := (rtc_timer s)\<lparr>rt_timer := None\<rparr>,
                    rtc_started := add_mset round (rtc_started s)\<rparr>)"
| drop: "round \<in># rtc_started s \<Longrightarrow> rt_cancelled (rtc_timer s) \<Longrightarrow>
    timer_step s (s\<lparr>rtc_started := rtc_started s - {#round#}\<rparr>)"
| admit: "round \<in># rtc_started s \<Longrightarrow> \<not> rt_cancelled (rtc_timer s) \<Longrightarrow>
    timer_step s (s\<lparr>rtc_started := rtc_started s - {#round#},
                    rtc_waiting := add_mset round (rtc_waiting s)\<rparr>)"
| stale: "round \<in># rtc_waiting s \<Longrightarrow> rt_round (rtc_timer s) \<noteq> round \<Longrightarrow>
    timer_step s (s\<lparr>rtc_waiting := rtc_waiting s - {#round#}\<rparr>)"
| call: "round \<in># rtc_waiting s \<Longrightarrow> rt_round (rtc_timer s) = round \<Longrightarrow>
    timer_step s (s\<lparr>rtc_waiting := rtc_waiting s - {#round#},
                    rtc_called := add_mset round (rtc_called s)\<rparr>)"
| stop: "timer_step s (s\<lparr>rtc_timer := Stop (rtc_timer s)\<rparr>)"

inductive timer_reachable :: "RoundTimer \<Rightarrow> timer_sys \<Rightarrow> bool" for t0 where
  start: "timer_reachable t0 \<lparr>rtc_timer = t0, rtc_started = {#}, rtc_waiting = {#},
                              rtc_called = {#}, rtc_armed = {#}\<rparr>"
| step: "timer_reachable t0 s \<Longrightarrow> timer_step s s' \<Longrightarrow> timer_reachable t0 s'"

text \<open>
  Every arming accounts for at most one closure, wherever it is: still in the timer, started,
  waiting or called back.
\<close>

definition armed_in_timer :: "RoundTimer \<Rightarrow> u64 multiset" where
  "armed_in_timer t = (case rt_timer t of None \<Rightarrow> {#} | Some (round, _) \<Rightarrow> {#round#})"

definition timer_inv :: "timer_sys \<Rightarrow> bool" where
  "timer_inv s \<longleftrightarrow>
     armed_in_timer (rtc_timer s) + rtc_started s + rtc_waiting s + rtc_called s \<subseteq># rtc_armed s"

lemma TimeoutForRound_Ok:
  assumes "TimeoutForRound t now round = Ok t'" "\<not> rt_cancelled t"
  shows "\<exists>wait. t' = t\<lparr>rt_round := round, rt_timer := Some (round, wait)\<rparr>"
  using assms by (auto simp: TimeoutForRound_def Let_def bind_res_Ok_iff)

lemma armed_subset_mono:
  assumes "A + S + W + C \<subseteq># R" "A' \<subseteq># A" "S' \<subseteq># S" "W' \<subseteq># W"
  shows "A' + S' + W' + C \<subseteq># R"
proof -
  have "A' + S' + W' + C \<subseteq># A + S + W + C"
    using assms(2-4) by (intro subset_mset.add_mono) auto
  then show ?thesis
    using assms(1) by (rule subset_mset.order_trans)
qed

lemma timer_step_inv: "timer_step s s' \<Longrightarrow> timer_inv s \<Longrightarrow> timer_inv s'"
proof (induction rule: timer_step.induct)
  case (arm s now round t')
  obtain wait where "t' = (rtc_timer s)\<lparr>rt_round := round, rt_timer := Some (round, wait)\<rparr>"
    using TimeoutForRound_Ok [OF arm.hyps(1,2)] by blast
  moreover have "{#} + rtc_started s + rtc_waiting s + rtc_called s \<subseteq># rtc_armed s"
    using arm.prems unfolding timer_inv_def by (rule armed_subset_mono) auto
  ultimately show ?case
    by (simp add: timer_inv_def armed_in_timer_def add.assoc)
next
  case (arm_cancelled s now round t')
  then show ?case
    by (auto simp: TimeoutForRound_def timer_inv_def)
next
  case (expire s round wait)
  then show ?case
    by (simp add: timer_inv_def armed_in_timer_def)
next
  case (drop round s)
  then show ?case
    by (auto simp: timer_inv_def intro: subset_mset.order_trans [OF diff_subset_eq_self])
next
  case (admit round s)
  then show ?case
    by (auto simp: timer_inv_def dest!: multi_member_split)
next
  case (stale round s)
  then show ?case
    by (auto simp: timer_inv_def intro: subset_mset.order_trans [OF diff_subset_eq_self])
next
  case (call round s)
  then show ?case
    by (auto simp: timer_inv_def dest!: multi_member_split)
next
  case (stop s)
  have "{#} + rtc_started s + rtc_waiting s + rtc_called s \<subseteq># rtc_armed s"
    using stop.prems unfolding timer_inv_def by (rule armed_subset_mono) auto
  then show ?case
    by (simp add: timer_inv_def armed_in_timer_def Stop_def)
qed

lemma timer_reachable_inv:
  assumes "timer_reachable t0 s" "rt_timer t0 = None"
  shows "timer_inv s"
  using assms
proof (induction rule: timer_reachable.induct)
  case start
  then show ?case
    by (simp add: timer_inv_def armed_in_timer_def)
next
  case (step s s')
  then show ?case
    using timer_step_inv by blast
qed

section \<open>Lemmas: budgets without overflow\<close>

text \<open>
  A slot interval below 2^60 ns (36 years) keeps every budget of the first 2^25 rounds inside the
  64-bit duration range.
\<close>

definition sane_interval :: "int \<Rightarrow> bool" where
  "sane_interval d \<longleftrightarrow> 0 \<le> d \<and> d < 2 ^ 60"

lemma round1HeadStart_bounds:
  assumes "sane_interval d"
  shows "0 \<le> round1HeadStart role d" "round1HeadStart role d < 2 ^ 61"
proof -
  have "i64 (2 * d) = 2 * d"
    using assms by (intro i64_id) (auto simp: sane_interval_def in_i64_def minInt64_def maxInt64_def)
  then show "0 \<le> round1HeadStart role d" "round1HeadStart role d < 2 ^ 61"
    using assms by (auto simp: round1HeadStart_def sane_interval_def split: RunnerRole.splits)
qed

lemma DurationFromUint64_small: "uint w \<le> maxInt64 \<Longrightarrow> DurationFromUint64 w = uint w"
  by (simp add: DurationFromUint64_def i64_of_u64_small)

lemma roundTimeout_quick:
  assumes "sane_interval d" "0 \<le> quick" "quick \<le> QuickTimeout" "uint round \<le> 8"
  shows "roundTimeoutForRound role d quick round = round1HeadStart role d + uint round * quick"
proof -
  note h = round1HeadStart_bounds [OF assms(1), of role]
  have "uint round * quick \<le> 8 * QuickTimeout" "0 \<le> uint round * quick"
    using assms by (auto intro: mult_mono)
  then have "in_i64 (uint round * quick)" "in_i64 (round1HeadStart role d + uint round * quick)"
    using h by (auto simp: in_i64_def minInt64_def maxInt64_def QuickTimeout_def)
  moreover have "round \<le> QuickTimeoutThreshold"
    using assms(4) by (simp add: word_le_def QuickTimeoutThreshold_def)
  moreover have "DurationFromUint64 round = uint round"
    using assms(4) by (intro DurationFromUint64_small) (simp add: maxInt64_def)
  ultimately show ?thesis
    by (simp add: roundTimeoutForRound_def i64_id)
qed

lemma roundTimeout_slow:
  assumes "sane_interval d" "0 \<le> quick" "quick \<le> QuickTimeout" "8 < uint round" "uint round \<le> 2 ^ 25"
  shows "roundTimeoutForRound role d quick round
           = round1HeadStart role d + 8 * quick + (uint round - 8) * SlowTimeout"
proof -
  note h = round1HeadStart_bounds [OF assms(1), of role]
  have gt: "\<not> round \<le> QuickTimeoutThreshold"
    using assms(4) by (simp add: word_le_def QuickTimeoutThreshold_def)
  then have "uint (round - QuickTimeoutThreshold) = uint round - uint QuickTimeoutThreshold"
    using uint_minus_simple_alt [of QuickTimeoutThreshold round] by (simp add: not_le less_imp_le)
  then have sub: "uint (round - QuickTimeoutThreshold) = uint round - 8"
    by (simp add: QuickTimeoutThreshold_def)
  have dur: "DurationFromUint64 QuickTimeoutThreshold = 8"
    "DurationFromUint64 (round - QuickTimeoutThreshold) = uint round - 8"
    using sub assms(5) by (subst DurationFromUint64_small; simp add: QuickTimeoutThreshold_def maxInt64_def)+
  have "(uint round - 8) * SlowTimeout \<le> 2 ^ 25 * SlowTimeout" "0 \<le> (uint round - 8) * SlowTimeout"
    using assms(4,5) by (auto intro: mult_right_mono simp: SlowTimeout_def)
  then have "in_i64 ((uint round - 8) * SlowTimeout)" "in_i64 (8 * quick)"
    "in_i64 (round1HeadStart role d + 8 * quick)"
    "in_i64 (round1HeadStart role d + 8 * quick + (uint round - 8) * SlowTimeout)"
    using h assms(2,3)
    by (auto simp: in_i64_def minInt64_def maxInt64_def QuickTimeout_def SlowTimeout_def)
  then show ?thesis
    using gt by (simp add: roundTimeoutForRound_def Let_def dur i64_id)
qed

lemma defaultQuick_bounds:
  "0 < defaultQuickTimeoutForRole role" "defaultQuickTimeoutForRole role \<le> QuickTimeout"
  by (simp_all add: defaultQuickTimeoutForRole_def QuickTimeout_def DefaultProposerQuickTimeout_def)

lemma uint_word_of_int_small: "0 \<le> k \<Longrightarrow> k < 2 ^ 64 \<Longrightarrow> uint (word_of_int k :: u64) = k"
  by (simp add: uint_word_of_int)

lemma uint_pred: "1 \<le> uint (w :: u64) \<Longrightarrow> uint (w - 1) = uint w - 1"
  using uint_minus_simple_alt [of 1 w] by (simp add: word_le_def)

text \<open>
  The three phases of the estimate, as intervals of the time into the slot: before the end of the
  head start, in quick round \<open>k + 1\<close>, in slow round \<open>k + 9\<close>.
\<close>

lemma EstimatedRoundAt_cases:
  fixes role d
  defines "h \<equiv> round1HeadStart role d" and "q \<equiv> defaultQuickTimeoutForRole role"
  assumes "sane_interval d" "0 \<le> t" "t < 2 ^ 61"
  obtains
    (head) "t < h" "EstimatedRoundAt 1 role d t = (Ok 1 :: ('e, u64) res)"
  | (quick) k where "0 \<le> k" "k < 8" "h + k * q \<le> t" "t < h + (k + 1) * q"
      "EstimatedRoundAt 1 role d t = (Ok (word_of_int (k + 1)) :: ('e, u64) res)"
  | (slow) k where "0 \<le> k" "k < 2 ^ 25 - 9" "h + 8 * q + k * SlowTimeout \<le> t"
      "t < h + 8 * q + (k + 1) * SlowTimeout"
      "EstimatedRoundAt 1 role d t = (Ok (word_of_int (k + 9)) :: ('e, u64) res)"
proof -
  have h: "0 \<le> h" "h < 2 ^ 61"
    unfolding h_def using round1HeadStart_bounds [OF assms(3)] by auto
  have q: "0 < q" "q \<le> QuickTimeout"
    unfolding q_def using defaultQuick_bounds by auto
  have el: "i64 (t - h) = t - h"
    using assms(4,5) h by (intro i64_id) (auto simp: in_i64_def minInt64_def maxInt64_def)
  have qe: "i64 (DurationFromUint64 QuickTimeoutThreshold * q) = 8 * q"
  proof -
    have "DurationFromUint64 QuickTimeoutThreshold = 8"
      by (subst DurationFromUint64_small; simp add: QuickTimeoutThreshold_def maxInt64_def)
    then show ?thesis
      using q by (simp add: i64_id in_i64_def minInt64_def maxInt64_def QuickTimeout_def)
  qed
  consider "t < h" | "h \<le> t" "t - h < 8 * q" | "h + 8 * q \<le> t"
    by linarith
  then show thesis
  proof cases
    case 1
    then have "EstimatedRoundAt 1 role d t = (Ok 1 :: ('e, u64) res)"
      unfolding EstimatedRoundAt_def Let_def h_def [symmetric] el by simp
    with 1 show thesis by (rule head)
  next
    case 2
    define k where "k = (t - h) div q"
    have k: "0 \<le> k" "k < 8" "k * q \<le> t - h" "t - h < (k + 1) * q"
    proof -
      show "0 \<le> k" "k * q \<le> t - h" "t - h < (k + 1) * q"
        using 2 q int_div_bounds [of q "t - h"] unfolding k_def
        by (simp_all add: pos_imp_zdiv_nonneg_iff)
      then have "k * q < 8 * q"
        using 2 by linarith
      then show "k < 8"
        using q by simp
    qed
    have "i64_quot (t - h) q = (Ok k :: ('e, int) res)"
      unfolding k_def using 2 q assms(5) h by (intro i64_quot_nonneg) (auto simp: maxInt64_def)
    then have "EstimatedRoundAt 1 role d t = (Ok (word_of_int (k + 1)) :: ('e, u64) res)"
      using 2 unfolding EstimatedRoundAt_def Let_def h_def [symmetric] el q_def [symmetric] qe
      by (simp add: u64_of_i64_def add.commute)
    then show thesis
      using quick [of k] k by (simp add: algebra_simps)
  next
    case 3
    define k where "k = (t - h - 8 * q) div SlowTimeout"
    have pos: "(0::int) < SlowTimeout" by (simp add: SlowTimeout_def)
    have k: "0 \<le> k" "k * SlowTimeout \<le> t - h - 8 * q" "t - h - 8 * q < (k + 1) * SlowTimeout"
      using 3 pos int_div_bounds [of SlowTimeout "t - h - 8 * q"] unfolding k_def
      by (simp_all add: pos_imp_zdiv_nonneg_iff)
    have "k * SlowTimeout < 2 ^ 61"
      using k(2) h(1) q(1) assms(5) by linarith
    then have "k < 2 ^ 25 - 9"
      by (simp add: SlowTimeout_def)
    moreover have "i64_quot (t - h - 8 * q) SlowTimeout = (Ok k :: ('e, int) res)"
      unfolding k_def using 3 pos assms(5) h q by (intro i64_quot_nonneg) (auto simp: maxInt64_def)
    moreover have "i64 (t - h - 8 * q) = t - h - 8 * q"
      using 3 assms(5) h q by (intro i64_id) (auto simp: in_i64_def minInt64_def maxInt64_def)
    ultimately have "EstimatedRoundAt 1 role d t = (Ok (word_of_int (k + 9)) :: ('e, u64) res)" "k < 2 ^ 25 - 9"
      using 3 q unfolding EstimatedRoundAt_def Let_def h_def [symmetric] el q_def [symmetric] qe
      by (simp_all add: u64_of_i64_def QuickTimeoutThreshold_def add.commute)
    then show thesis
      using slow [of k] k by (simp add: algebra_simps)
  qed
qed

section \<open>Properties\<close>

text \<open>
  C36: the round estimated for a peer is aligned with the round timeouts. At any time of the slot
  the estimate is defined, the estimated round has not timed out yet, and the round before it
  (if any) has.
\<close>

theorem EstimatedRoundAt_aligned:
  assumes "sane_interval d" "0 \<le> t" "t < 2 ^ 61"
  shows "\<exists>round. EstimatedRoundAt 1 role d t = (Ok round :: ('e, u64) res) \<and> 1 \<le> round \<and>
           t < roundTimeoutForRound role d (defaultQuickTimeoutForRole role) round \<and>
           (1 < round \<longrightarrow>
              roundTimeoutForRound role d (defaultQuickTimeoutForRole role) (round - 1) \<le> t)"
proof -
  define q where "q = defaultQuickTimeoutForRole role"
  have q: "0 \<le> q" "0 < q" "q \<le> QuickTimeout"
    unfolding q_def using defaultQuick_bounds by (auto intro: less_imp_le)
  note quick = roundTimeout_quick [OF assms(1) q(1,3)] and slow = roundTimeout_slow [OF assms(1) q(1,3)]
  show ?thesis
  proof (cases rule: EstimatedRoundAt_cases [OF assms(1-3), where role = role and 'e = 'e,
      case_names head quick slow])
    case head
    then show ?thesis
      using quick [of 1 role] q(2) by (intro exI [of _ 1]) (simp add: q_def)
  next
    case (quick k)
    define r :: u64 where "r = word_of_int (k + 1)"
    have u: "uint r = k + 1" "uint (r - 1) = k"
    proof -
      show "uint r = k + 1"
        unfolding r_def using quick(1,2) by (intro uint_word_of_int_small) auto
      then show "uint (r - 1) = k"
        using quick(1) by (simp add: uint_pred)
    qed
    show ?thesis
      using roundTimeout_quick [OF assms(1) q(1,3), of r role]
        roundTimeout_quick [OF assms(1) q(1,3), of "r - 1" role] quick(1-4) quick(5) [folded r_def] u
      by (intro exI [of _ r]) (simp add: q_def [symmetric] word_le_def word_less_def)
  next
    case (slow k)
    define r :: u64 where "r = word_of_int (k + 9)"
    have u: "uint r = k + 9" "uint (r - 1) = k + 8"
    proof -
      show "uint r = k + 9"
        unfolding r_def using slow(1,2) by (intro uint_word_of_int_small) auto
      then show "uint (r - 1) = k + 8"
        using slow(1) by (simp add: uint_pred)
    qed
    have "roundTimeoutForRound role d q (r - 1) \<le> t"
      using roundTimeout_quick [OF assms(1) q(1,3), of "r - 1" role]
        roundTimeout_slow [OF assms(1) q(1,3), of "r - 1" role] slow(1-4) u
      by (cases "k = 0") (simp_all add: q_def algebra_simps)
    then show ?thesis
      using roundTimeout_slow [OF assms(1) q(1,3), of r role] slow(1-4) slow(5) [folded r_def] u
      by (intro exI [of _ r]) (simp add: q_def [symmetric] word_le_def word_less_def add.commute)
  qed
qed

theorem EstimatedRoundAt_aligned_witness:
  "EstimatedRoundAt 1 RoleCommittee 4000000000 21000000000 = (Ok 9 :: (unit, u64) res) \<and>
   (\<exists>round. EstimatedRoundAt 1 RoleCommittee 4000000000 21000000000
       = (Ok round :: (unit, u64) res) \<and> 1 \<le> round \<and>
     21000000000 < roundTimeoutForRound RoleCommittee 4000000000
       (defaultQuickTimeoutForRole RoleCommittee) round)"
proof -
  have "EstimatedRoundAt 1 RoleCommittee 4000000000 21000000000 = (Ok 9 :: (unit, u64) res)"
    by (simp add: EstimatedRoundAt_def round1HeadStart_def defaultQuickTimeoutForRole_def
        QuickTimeout_def SlowTimeout_def DurationFromUint64_def QuickTimeoutThreshold_def
        i64_quot_def i64_of_u64_def u64_of_i64_def i64_def maxInt64_def)
  then show ?thesis
    using EstimatedRoundAt_aligned [of 4000000000 21000000000 RoleCommittee, where 'e = unit]
    by (auto simp: sane_interval_def)
qed

text \<open>
  an instance never works in a round that message validation refuses: for a role with a
  consensus phase, every round below the role's cut-off round is within the role's round cap.
\<close>

theorem CutOffRoundFor_within_MaxRound:
  assumes "MaxRound role = Some maxRound" "round < CutOffRoundFor CutOffRound role"
  shows "round \<le> maxRound \<and> CutOffRoundFor CutOffRound role \<le> CutOffRound"
proof -
  have max: "maxRound \<le> 12"
    using assms(1) by (auto simp: MaxRound_def split: RunnerRole.splits)
  have "CutOffRoundFor CutOffRound role \<le> maxRound + 1"
    using assms(1) by (auto simp: CutOffRoundFor_def not_less)
  then have "round < maxRound + 1"
    using assms(2) by order
  moreover have "uint (maxRound + 1) = uint maxRound + 1"
    using max by (simp add: word_le_def uint_word_ariths)
  ultimately have "round \<le> maxRound"
    by (simp add: word_le_def word_less_def)
  then show ?thesis
    using assms(1) by (auto simp: CutOffRoundFor_def not_less)
qed

theorem CutOffRoundFor_within_MaxRound_witness:
  "MaxRound RoleProposer = Some 2 \<and> (2 :: u64) < CutOffRoundFor 15 RoleProposer \<and> (2 :: u64) \<le> 2"
  using CutOffRoundFor_within_MaxRound [of RoleProposer 2 2 15]
  by (simp add: MaxRound_def CutOffRoundFor_def)


definition demo_timer :: RoundTimer where
  "demo_timer = New 0 demo_Beacon RoleProposer 5 False"


end
