(* ===== verification/Qbft_Types.thy ===== *)
theory Qbft_Types
  imports Round_Timer
begin

text \<open>
  Data of the QBFT layer: messages, the instance state and configuration, and the record
  \<open>specqbft\<close> of everything the code takes from the packages \<open>ssv-spec/qbft\<close> and
  \<open>ssv-spec/types\<close> and from the SHA-256 routine. The sources of those packages are not part of
  the repository, so the record is an argument of every definition that uses it; the type
  \<open>'c\<close> is the specification's message container.
\<close>

section \<open>Messages\<close>

type_synonym OperatorID = u64
type_synonym Height = u64
type_synonym Round = u64
type_synonym root = bytes

datatype MessageType =
    ProposalMsgType | PrepareMsgType | CommitMsgType | RoundChangeMsgType | OtherMsgType u64

record Message =
  m_MsgType :: MessageType
  m_Height :: Height
  m_Round :: Round
  m_Identifier :: bytes
  m_Root :: root
  m_DataRound :: Round
  m_RoundChangeJustification :: "bytes list"
  m_PrepareJustification :: "bytes list"

datatype MsgType = SSVConsensusMsgType | SSVPartialSignatureMsgType | OtherSSVMsgType u64

record SSVMessage =
  ssv_MsgType :: MsgType
  ssv_MsgID :: bytes
  ssv_Data :: bytes

text \<open>\<open>s_FullData\<close> is \<open>None\<close> for a nil slice.\<close>

record SignedSSVMessage =
  s_Signatures :: "bytes list"
  s_OperatorIDs :: "OperatorID list"
  s_SSVMessage :: SSVMessage
  s_FullData :: "bytes option"

record ProcessingMessage =
  pm_SignedMessage :: SignedSSVMessage
  pm_QBFTMessage :: Message

abbreviation qmsg :: "ProcessingMessage \<Rightarrow> Message" where
  "qmsg \<equiv> pm_QBFTMessage"

abbreviation signers :: "ProcessingMessage \<Rightarrow> OperatorID list" where
  "signers msg \<equiv> s_OperatorIDs (pm_SignedMessage msg)"

record Operator =
  op_OperatorID :: OperatorID
  op_PubKey :: bytes

record CommitteeMember =
  cm_OperatorID :: OperatorID
  cm_Committee :: "Operator list"

section \<open>What the code uses of the specification packages\<close>

record 'c specqbft =
  FirstRound :: Round
  NoRound :: Round
  FirstHeight :: Height
  NewMsgContainer :: 'c
  AddFirstMsgForSignerAndRound :: "'c \<Rightarrow> ProcessingMessage \<Rightarrow> string + bool \<times> 'c"
  AddMsg :: "'c \<Rightarrow> ProcessingMessage \<Rightarrow> string + 'c"
  MessagesForRound :: "'c \<Rightarrow> Round \<Rightarrow> ProcessingMessage list"
  AllMessages :: "'c \<Rightarrow> ProcessingMessage list"
  LongestUniqueSignersForRoundAndRoot ::
    "'c \<Rightarrow> Round \<Rightarrow> root \<Rightarrow> OperatorID list \<times> ProcessingMessage list"
  HasQuorum :: "CommitteeMember \<Rightarrow> ProcessingMessage list \<Rightarrow> bool"
  HasPartialQuorum :: "CommitteeMember \<Rightarrow> ProcessingMessage list \<Rightarrow> bool"
  MemberHasQuorum :: "CommitteeMember \<Rightarrow> nat \<Rightarrow> bool"
  NewProcessingMessage :: "SignedSSVMessage \<Rightarrow> string + ProcessingMessage"
  MsgValidate :: "ProcessingMessage \<Rightarrow> string option"
  CheckSignersInCommittee :: "SignedSSVMessage \<Rightarrow> Operator list \<Rightarrow> bool"
  MatchedSigners :: "SignedSSVMessage \<Rightarrow> OperatorID list \<Rightarrow> bool"
  GetRoundChangeJustifications :: "Message \<Rightarrow> SignedSSVMessage list"
  GetPrepareJustifications :: "Message \<Rightarrow> SignedSSVMessage list"
  RoundChangePrepared :: "Message \<Rightarrow> bool"
  MarshalJustifications :: "SignedSSVMessage list \<Rightarrow> string + bytes list"
  EncodeMessage :: "Message \<Rightarrow> string + bytes"
  Verify :: "SignedSSVMessage \<Rightarrow> Operator list \<Rightarrow> string option"
  Aggregate :: "SignedSSVMessage \<Rightarrow> SignedSSVMessage \<Rightarrow> string + SignedSSVMessage"
  Sum256 :: "bytes \<Rightarrow> root"

definition HashDataRoot :: "'c specqbft \<Rightarrow> bytes option \<Rightarrow> root" where
  "HashDataRoot S data = Sum256 S (case data of None \<Rightarrow> [] | Some d \<Rightarrow> d)"

section \<open>Errors\<close>

datatype ErrorCode =
    InstanceStoppedProcessingMessagesErrorCode | PastRoundErrorCode
  | NoProposalForCurrentRoundErrorCode | WrongMessageHeightErrorCode
  | MessageAllowsOneSignerOnlyErrorCode | SignerIsNotInCommitteeErrorCode
  | ProposalLeaderInvalidErrorCode | ProposalInvalidErrorCode | RootHashInvalidErrorCode
  | RoundChangeNoQuorumErrorCode | PrepareMessageInvalidErrorCode | WrongMessageRoundErrorCode
  | ProposedDataMismatchErrorCode | MessageSignatureInvalidErrorCode
  | ZeroCommitMessagesErrorCode | CommitMessageInvalidErrorCode | CommitMessageTypeWrongErrorCode
  | JustificationsNoQuorumInvalidErrorCode | TimeoutInstanceErrorCode | StartInstanceErrorCode
  | InstanceAlreadyRunningErrorCode | MessageIdentifierInvalidErrorCode | FutureMessageErrorCode
  | SkipConsensusMessageAsInstanceIsDecidedErrorCode

text \<open>
  \<open>Plain\<close> is \<open>errors.New\<close> or \<open>fmt.Errorf\<close> without a wrapped error (also an error of a library
  call), \<open>Wrap\<close> is \<open>fmt.Errorf\<close> with \<open>%w\<close>, \<open>Coded\<close> is \<open>spectypes.NewError\<close>, \<open>CodeWrap\<close> is
  \<open>spectypes.WrapError\<close>, \<open>Retryable\<close> is \<open>NewRetryableError\<close> of the instance package and
  \<open>CtrlRetryable\<close> that of the controller package.
\<close>

datatype qbft_err =
    Plain string
  | Wrap string qbft_err
  | Coded ErrorCode string
  | CodeWrap ErrorCode qbft_err
  | Retryable qbft_err
  | CtrlRetryable qbft_err

fun IsRetryable :: "qbft_err \<Rightarrow> bool" where
  "IsRetryable (Retryable e) = True"
| "IsRetryable (Wrap s e) = IsRetryable e"
| "IsRetryable (CodeWrap c e) = IsRetryable e"
| "IsRetryable (CtrlRetryable e) = IsRetryable e"
| "IsRetryable _ = False"

definition ErrWrongMsgRound :: qbft_err where
  "ErrWrongMsgRound = Plain ''wrong msg round''"

definition ErrNoProposalForCurrentRound :: qbft_err where
  "ErrNoProposalForCurrentRound = Plain ''did not receive proposal for current round''"

definition ErrWrongMsgHeight :: qbft_err where
  "ErrWrongMsgHeight = Plain ''wrong msg height''"

text \<open>The error of a library call, if there is one.\<close>

fun of_err :: "(string \<Rightarrow> qbft_err) \<Rightarrow> string option \<Rightarrow> (qbft_err, unit) res" where
  "of_err f None = Ok ()"
| "of_err f (Some e) = Err (f e)"

lemma of_err_Ok_iff [res_dest, simp]: "of_err f x = Ok u \<longleftrightarrow> x = None"
  by (cases x) auto

lemma of_err_not_Panic [simp]: "of_err f x \<noteq> Panic"
  by (cases x) auto

section \<open>State, configuration and instance\<close>

record 'c State =
  st_CommitteeMember :: CommitteeMember
  st_ID :: bytes
  st_Round :: Round
  st_Height :: Height
  st_LastPreparedRound :: Round
  st_LastPreparedValue :: "bytes option"
  st_ProposalAcceptedForCurrentRound :: "ProcessingMessage option"
  st_Decided :: bool
  st_DecidedValue :: "bytes option"
  st_ProposeContainer :: 'c
  st_PrepareContainer :: 'c
  st_CommitContainer :: 'c
  st_RoundChangeContainer :: 'c

record 'c Config =
  cfg_ProposerF :: "'c State \<Rightarrow> Round \<Rightarrow> (qbft_err, OperatorID) res"
  cfg_CutOffRound :: Round

text \<open>
  One QBFT instance. \<open>i_ValueChecker\<close> is \<open>None\<close> before \<open>Start\<close>. \<open>i_outbox\<close> is the sequence of the
  calls of \<open>Network.BroadcastAtSlot\<close>, the instance's output.
\<close>

record 'c Instance =
  i_config :: "'c Config"
  i_State :: "'c State"
  i_StartValue :: "bytes option"
  i_ValueChecker :: "(bytes option \<Rightarrow> string option) option"
  i_roundTimer :: RoundTimer
  i_markedIrrelevant :: bool
  i_outbox :: "(SignedSSVMessage \<times> u64) list"

text \<open>
  What one call of a handler meets outside the QBFT layer: the clock, the operator's signer and
  the network.
\<close>

record env =
  e_now :: int
  e_SignSSVMessage :: "SSVMessage \<Rightarrow> string + bytes"
  e_BroadcastAtSlot :: "SignedSSVMessage \<Rightarrow> u64 \<Rightarrow> string option"

type_synonym ('c, 'a) handler = "(qbft_err, 'a) res \<times> 'c Instance"

section \<open>A concrete specification package\<close>

text \<open>
  An instance of the parameter record for the examples: a container is the list of its messages,
  three signers are a quorum and two a partial quorum, a root is the value itself, every signature
  is accepted, and a short message is encoded by its scalar fields.
\<close>

fun demo_type :: "MessageType \<Rightarrow> 8 word" where
  "demo_type ProposalMsgType = 0"
| "demo_type PrepareMsgType = 1"
| "demo_type CommitMsgType = 2"
| "demo_type RoundChangeMsgType = 3"
| "demo_type (OtherMsgType n) = 4"

definition demo_untype :: "8 word \<Rightarrow> MessageType" where
  "demo_untype b = (if b = 0 then ProposalMsgType else if b = 1 then PrepareMsgType
     else if b = 2 then CommitMsgType else if b = 3 then RoundChangeMsgType else OtherMsgType (ucast b))"

definition demo_encode :: "Message \<Rightarrow> string + bytes" where
  "demo_encode m =
     (if demo_type (m_MsgType m) \<noteq> 4 \<and> m_Height m < 256 \<and> m_Round m < 256 \<and> m_DataRound m < 256
         \<and> m_Identifier m = [] \<and> m_RoundChangeJustification m = [] \<and> m_PrepareJustification m = []
      then Inr ([demo_type (m_MsgType m), ucast (m_Height m), ucast (m_Round m), ucast (m_DataRound m)] @ m_Root m)
      else Inl ''cannot encode'')"

fun demo_decode :: "SignedSSVMessage \<Rightarrow> string + ProcessingMessage" where
  "demo_decode sm =
     (case ssv_Data (s_SSVMessage sm) of
        t # h # r # d # root \<Rightarrow>
          Inr \<lparr>pm_SignedMessage = sm,
               pm_QBFTMessage = \<lparr>m_MsgType = demo_untype t, m_Height = ucast h, m_Round = ucast r,
                 m_Identifier = ssv_MsgID (s_SSVMessage sm), m_Root = root, m_DataRound = ucast d,
                 m_RoundChangeJustification = [], m_PrepareJustification = []\<rparr>\<rparr>
      | _ \<Rightarrow> Inl ''short message'')"

definition demo_pack :: "SignedSSVMessage \<Rightarrow> bytes" where
  "demo_pack sm = (case s_OperatorIDs sm of [] \<Rightarrow> 0 | k # _ \<Rightarrow> ucast k) # ssv_Data (s_SSVMessage sm)"

fun demo_unpack :: "bytes \<Rightarrow> SignedSSVMessage list" where
  "demo_unpack [] = []"
| "demo_unpack (k # d) =
     [\<lparr>s_Signatures = [[]], s_OperatorIDs = [ucast k],
       s_SSVMessage = \<lparr>ssv_MsgType = SSVConsensusMsgType, ssv_MsgID = [], ssv_Data = d\<rparr>,
       s_FullData = None\<rparr>]"

definition demo_add :: "ProcessingMessage list \<Rightarrow> ProcessingMessage \<Rightarrow> string + bool \<times> ProcessingMessage list" where
  "demo_add c m =
     (if \<exists>m' \<in> set c. m_Round (qmsg m') = m_Round (qmsg m) \<and> set (signers m') = set (signers m)
      then Inr (False, c) else Inr (True, c @ [m]))"

fun demo_unique :: "OperatorID list \<Rightarrow> ProcessingMessage list \<Rightarrow> OperatorID list \<times> ProcessingMessage list" where
  "demo_unique ids [] = (ids, [])"
| "demo_unique ids (m # ms) =
     (if set (signers m) \<inter> set ids = {} \<and> distinct (signers m)
      then let (ids', ms') = demo_unique (ids @ signers m) ms in (ids', m # ms')
      else demo_unique ids ms)"

definition demo_validate :: "ProcessingMessage \<Rightarrow> string option" where
  "demo_validate m = (if length (s_Signatures (pm_SignedMessage m)) = length (signers m) then None
     else Some ''signatures do not match signers'')"

definition demo_spec :: "ProcessingMessage list specqbft" where
  "demo_spec =
     \<lparr>FirstRound = 1, NoRound = 0, FirstHeight = 0, NewMsgContainer = [],
      AddFirstMsgForSignerAndRound = demo_add,
      AddMsg = (\<lambda>c m. Inr (c @ [m])),
      MessagesForRound = (\<lambda>c r. filter (\<lambda>m. m_Round (qmsg m) = r) c),
      AllMessages = (\<lambda>c. c),
      LongestUniqueSignersForRoundAndRoot = (\<lambda>c r root.
        demo_unique [] (filter (\<lambda>m. m_Round (qmsg m) = r \<and> m_Root (qmsg m) = root) c)),
      HasQuorum = (\<lambda>cm ms. 3 \<le> card (\<Union>m \<in> set ms. set (signers m))),
      HasPartialQuorum = (\<lambda>cm ms. 2 \<le> card (\<Union>m \<in> set ms. set (signers m))),
      MemberHasQuorum = (\<lambda>cm n. 3 \<le> n),
      NewProcessingMessage = demo_decode,
      MsgValidate = demo_validate,
      CheckSignersInCommittee = (\<lambda>sm ops. set (s_OperatorIDs sm) \<subseteq> op_OperatorID ` set ops),
      MatchedSigners = (\<lambda>sm ids. length (s_OperatorIDs sm) = length ids \<and> set (s_OperatorIDs sm) = set ids),
      GetRoundChangeJustifications = (\<lambda>m. concat (map demo_unpack (m_RoundChangeJustification m))),
      GetPrepareJustifications = (\<lambda>m. concat (map demo_unpack (m_PrepareJustification m))),
      RoundChangePrepared = (\<lambda>m. m_MsgType m = RoundChangeMsgType \<and> m_DataRound m \<noteq> 0),
      MarshalJustifications = (\<lambda>ms. Inr (map demo_pack ms)),
      EncodeMessage = demo_encode,
      Verify = (\<lambda>sm ops. None),
      Aggregate = (\<lambda>a b. if set (s_OperatorIDs a) \<inter> set (s_OperatorIDs b) \<noteq> {}
        then Inl ''duplicate signers''
        else Inr (a\<lparr>s_Signatures := s_Signatures a @ s_Signatures b,
                    s_OperatorIDs := s_OperatorIDs a @ s_OperatorIDs b\<rparr>)),
      Sum256 = (\<lambda>d. d)\<rparr>"

lemma demo_spec_simps [simp]:
  "FirstRound demo_spec = 1"
  "NoRound demo_spec = 0"
  "FirstHeight demo_spec = 0"
  "NewMsgContainer demo_spec = []"
  "AddFirstMsgForSignerAndRound demo_spec = demo_add"
  "AddMsg demo_spec = (\<lambda>c m. Inr (c @ [m]))"
  "MessagesForRound demo_spec = (\<lambda>c r. filter (\<lambda>m. m_Round (qmsg m) = r) c)"
  "AllMessages demo_spec = (\<lambda>c. c)"
  "LongestUniqueSignersForRoundAndRoot demo_spec = (\<lambda>c r root.
        demo_unique [] (filter (\<lambda>m. m_Round (qmsg m) = r \<and> m_Root (qmsg m) = root) c))"
  "HasQuorum demo_spec = (\<lambda>cm ms. 3 \<le> card (\<Union>m \<in> set ms. set (signers m)))"
  "HasPartialQuorum demo_spec = (\<lambda>cm ms. 2 \<le> card (\<Union>m \<in> set ms. set (signers m)))"
  "MemberHasQuorum demo_spec = (\<lambda>cm n. 3 \<le> n)"
  "NewProcessingMessage demo_spec = demo_decode"
  "MsgValidate demo_spec = demo_validate"
  "CheckSignersInCommittee demo_spec = (\<lambda>sm ops. set (s_OperatorIDs sm) \<subseteq> op_OperatorID ` set ops)"
  "MatchedSigners demo_spec = (\<lambda>sm ids. length (s_OperatorIDs sm) = length ids \<and> set (s_OperatorIDs sm) = set ids)"
  "GetRoundChangeJustifications demo_spec = (\<lambda>m. concat (map demo_unpack (m_RoundChangeJustification m)))"
  "GetPrepareJustifications demo_spec = (\<lambda>m. concat (map demo_unpack (m_PrepareJustification m)))"
  "RoundChangePrepared demo_spec = (\<lambda>m. m_MsgType m = RoundChangeMsgType \<and> m_DataRound m \<noteq> 0)"
  "MarshalJustifications demo_spec = (\<lambda>ms. Inr (map demo_pack ms))"
  "EncodeMessage demo_spec = demo_encode"
  "Verify demo_spec = (\<lambda>sm ops. None)"
  "Aggregate demo_spec = (\<lambda>a b. if set (s_OperatorIDs a) \<inter> set (s_OperatorIDs b) \<noteq> {}
        then Inl ''duplicate signers''
        else Inr (a\<lparr>s_Signatures := s_Signatures a @ s_Signatures b,
                    s_OperatorIDs := s_OperatorIDs a @ s_OperatorIDs b\<rparr>))"
  "Sum256 demo_spec = (\<lambda>d. d)"
  by (simp_all add: demo_spec_def)

end
