(* ===== verification/Qbft_Proposer.thy ===== *)
theory Qbft_Proposer
  imports Qbft_Types
begin

text \<open>
  Leader selection, \<open>protocol/v2/qbft/round_robin_proposer.go\<close>. \<open>FirstRound\<close> and \<open>FirstHeight\<close> are
  read from the specification package, given as the argument \<open>S\<close>.
\<close>

section \<open>Definitions\<close>

text \<open>Indexing a slice with a 64-bit unsigned index.\<close>

definition index_u64 :: "'a list \<Rightarrow> u64 \<Rightarrow> ('e, 'a) res" where
  "index_u64 xs k = (if unat k < length xs then Ok (xs ! unat k) else Panic)"

definition len_u64 :: "'a list \<Rightarrow> u64" where
  "len_u64 xs = word_of_nat (length xs)"

definition OperatorIDsFromOperators :: "Operator list \<Rightarrow> OperatorID list" where
  "OperatorIDsFromOperators operators = map op_OperatorID operators"

definition roundRobinProposerPreBooleFork ::
    "'c specqbft \<Rightarrow> Height \<Rightarrow> Round \<Rightarrow> OperatorID list \<Rightarrow> ('e, OperatorID) res" where
  "roundRobinProposerPreBooleFork S height round committee =
     bind_res (if height \<noteq> FirstHeight S then u64_mod height (len_u64 committee) else Ok 0)
       (\<lambda>firstRoundIndex.
          bind_res (u64_mod (firstRoundIndex + round - FirstRound S) (len_u64 committee))
            (index_u64 committee))"

definition RoundRobinProposer ::
    "'c specqbft \<Rightarrow> Height \<Rightarrow> Round \<Rightarrow> OperatorID list \<Rightarrow> Network \<Rightarrow> ('e, OperatorID) res" where
  "RoundRobinProposer S height round committee netCfg =
     (let committee = (if \<not> sorted committee then sort committee else committee)
      in bind_res (EstimatedEpochAtSlot (nw_Beacon netCfg) height) (\<lambda>ethEpoch.
         bind_res (if height \<noteq> FirstHeight S then u64_mod height (len_u64 committee) else Ok 0)
           (\<lambda>firstRoundIndex.
              bind_res (u64_mod (firstRoundIndex + round - FirstRound S + ethEpoch)
                          (len_u64 committee))
                (index_u64 committee))))"

definition Proposer ::
    "'c specqbft \<Rightarrow> Height \<Rightarrow> Round \<Rightarrow> OperatorID list \<Rightarrow> Network \<Rightarrow> ('e, OperatorID) res" where
  "Proposer S height round committee netCfg =
     bind_res (BooleForkAtSlot netCfg height) (\<lambda>boole.
       if boole then RoundRobinProposer S height round committee netCfg
       else roundRobinProposerPreBooleFork S height round committee)"

section \<open>Both algorithms are one rotation\<close>

text \<open>The seat a rotation with offset \<open>base\<close> gives to a round.\<close>

definition rotation :: "OperatorID list \<Rightarrow> nat \<Rightarrow> OperatorID" where
  "rotation committee k = committee ! (k mod length committee)"

definition first_seat :: "'c specqbft \<Rightarrow> Height \<Rightarrow> OperatorID list \<Rightarrow> nat" where
  "first_seat S height committee =
     (if height \<noteq> FirstHeight S then unat height mod length committee else 0)"

definition small_committee :: "'a list \<Rightarrow> bool" where
  "small_committee xs \<longleftrightarrow> xs \<noteq> [] \<and> length xs < 2 ^ 63"

lemma unat_len_u64 [simp]: "length xs < 2 ^ 63 \<Longrightarrow> unat (len_u64 xs) = length xs"
  by (simp add: len_u64_def unat_of_nat)

lemma len_u64_nonzero: "small_committee xs \<Longrightarrow> len_u64 xs \<noteq> 0"
  using unat_len_u64 [of xs] unfolding small_committee_def by (metis length_0_conv unat_0)

lemma len_u64_sort [simp]: "len_u64 (sort xs) = len_u64 xs"
  by (simp add: len_u64_def)

lemma index_mod_Ok:
  assumes "small_committee xs"
  shows "bind_res (u64_mod k (len_u64 xs)) (index_u64 xs) = Ok (rotation xs (unat k))"
  using assms len_u64_nonzero [OF assms]
  by (simp add: index_u64_def rotation_def unat_mod small_committee_def)

lemma first_seat_Ok:
  assumes "small_committee xs"
  shows "(if height \<noteq> FirstHeight S then u64_mod height (len_u64 xs) else Ok 0)
           = Ok (word_of_nat (first_seat S height xs))"
proof -
  have "word_of_nat (unat height mod unat (len_u64 xs)) = height mod len_u64 xs"
    by (simp add: word_arith_nat_mod)
  moreover have "unat (len_u64 xs) = length xs"
    using assms by (simp add: small_committee_def)
  ultimately have "word_of_nat (unat height mod length xs) = height mod len_u64 xs"
    by simp
  then show ?thesis
    using len_u64_nonzero [OF assms] by (simp add: first_seat_def)
qed

lemma small_committee_sort [simp]: "small_committee (sort xs) = small_committee xs"
  unfolding small_committee_def by (metis length_0_conv length_sort)

lemma first_seat_sort [simp]: "first_seat S h (sort xs) = first_seat S h xs"
  by (simp add: first_seat_def)

lemma if_sorted [simp]: "(if \<not> sorted xs then sort xs else xs) = sort xs"
  by (simp add: sorted_sort_id)

lemma roundRobin_pre_seat:
  assumes "small_committee committee"
  shows "roundRobinProposerPreBooleFork S height round committee
           = (Ok (rotation committee
                   (unat (word_of_nat (first_seat S height committee) + round - FirstRound S)))
               :: ('e, OperatorID) res)"
  using assms by (simp add: roundRobinProposerPreBooleFork_def first_seat_Ok index_mod_Ok)

lemma RoundRobinProposer_seat:
  assumes "small_committee committee" "SlotsPerEpoch (nw_Beacon netCfg) \<noteq> 0"
  shows "RoundRobinProposer S height round committee netCfg
           = (Ok (rotation (sort committee)
                   (unat (word_of_nat (first_seat S height committee) + round - FirstRound S
                            + height div SlotsPerEpoch (nw_Beacon netCfg))))
               :: ('e, OperatorID) res)"
  using assms index_mod_Ok [of "sort committee"]
  by (simp add: RoundRobinProposer_def EstimatedEpochAtSlot_def first_seat_Ok Let_def)

lemma Proposer_seat:
  assumes "small_committee committee" "SlotsPerEpoch (nw_Beacon netCfg) \<noteq> 0"
  obtains (boole) "BooleForkAtSlot netCfg height = (Ok True :: ('e, bool) res)"
      "\<And>round. Proposer S height round committee netCfg
         = (Ok (rotation (sort committee)
                 (unat (word_of_nat (first_seat S height committee) + round - FirstRound S
                          + height div SlotsPerEpoch (nw_Beacon netCfg)))) :: ('e, OperatorID) res)"
    | (pre) "BooleForkAtSlot netCfg height = (Ok False :: ('e, bool) res)"
      "\<And>round. Proposer S height round committee netCfg
         = (Ok (rotation committee
                 (unat (word_of_nat (first_seat S height committee) + round - FirstRound S)))
             :: ('e, OperatorID) res)"
proof -
  have "BooleForkAtSlot netCfg height
          = (Ok (BooleForkAtEpoch netCfg (height div SlotsPerEpoch (nw_Beacon netCfg))) :: ('e, bool) res)"
    using assms(2) by (simp add: BooleForkAtSlot_def EstimatedEpochAtSlot_def)
  moreover have "Proposer S height round committee netCfg
      = (if BooleForkAtEpoch netCfg (height div SlotsPerEpoch (nw_Beacon netCfg))
         then RoundRobinProposer S height round committee netCfg
         else roundRobinProposerPreBooleFork S height round committee :: ('e, OperatorID) res)"
    for round
    using assms(2) by (simp add: Proposer_def BooleForkAtSlot_def EstimatedEpochAtSlot_def)
  ultimately show thesis
    using boole pre
    unfolding roundRobin_pre_seat [OF assms(1)] RoundRobinProposer_seat [OF assms]
    by (cases "BooleForkAtEpoch netCfg (height div SlotsPerEpoch (nw_Beacon netCfg))") simp_all
qed

section \<open>Rotations\<close>

lemma mset_rotation:
  assumes "xs \<noteq> []"
  shows "mset (map (\<lambda>k. rotation xs (b + k)) [0..<length xs]) = mset xs"
proof -
  let ?n = "length xs"
  have "map (\<lambda>k. rotation xs (b + k)) [0..<?n] = rotate (b mod ?n) xs"
    using assms by (intro nth_equalityI) (simp_all add: rotation_def nth_rotate mod_simps)
  moreover have "mset (rotate (b mod ?n) xs) = mset xs"
    by (metis add.commute append_take_drop_id mset_append rotate_drop_take)
  ultimately show ?thesis
    by simp
qed

lemma rotation_mod: "length xs = n \<Longrightarrow> rotation xs (a mod n + b) = rotation xs (a + b)"
  by (simp add: rotation_def mod_add_left_eq flip: add.assoc)

lemma unat_plus_le: "unat (a + b) \<le> unat a + unat (b :: 'w :: len word)"
  by (simp add: unat_word_ariths)

lemma unat_add_small:
  fixes a :: u64
  assumes "unat a + k < 2 ^ 64"
  shows "unat (a + word_of_nat k) = unat a + k"
proof -
  have "unat (word_of_nat k :: u64) = k"
    using assms by (simp add: unat_of_nat)
  then show ?thesis
    using assms by (simp add: unat_add_lem [THEN iffD1])
qed

lemma each_map_Ok_map: "(\<And>x. x \<in> set xs \<Longrightarrow> f x = Ok (g x)) \<Longrightarrow> each_map f xs = Ok (map g xs)"
  by (induction xs) auto

lemma each_map_rotation:
  fixes a :: u64
  assumes "xs \<noteq> []" "unat a + length xs \<le> 2 ^ 64"
    and "\<And>k. k < length xs \<Longrightarrow> f k = Ok (rotation xs (unat (a + word_of_nat k)))"
  shows "\<exists>ids. each_map f [0..<length xs] = Ok ids \<and> mset ids = mset xs"
proof -
  have "each_map f [0..<length xs] = Ok (map (\<lambda>k. rotation xs (unat a + k)) [0..<length xs])"
  proof (rule each_map_Ok_map)
    fix k assume "k \<in> set [0..<length xs]"
    then have "k < length xs"
      by simp
    with assms(2) have "unat a + k < 2 ^ 64"
      by linarith
    then show "f k = Ok (rotation xs (unat a + k))"
      using assms(3) [OF \<open>k < length xs\<close>] by (simp only: unat_add_small)
  qed
  then show ?thesis
    using mset_rotation [OF assms(1)] by blast
qed

section \<open>The contract of leader selection\<close>

text \<open>
  What the instance and message validation rely on: a leader is a seat of the committee and an
  empty committee has none.
\<close>

locale leader_selection =
  fixes leader :: "Height \<Rightarrow> Round \<Rightarrow> OperatorID list \<Rightarrow> ('e, OperatorID) res"
  assumes leader_in: "leader h r c = Ok p \<Longrightarrow> p \<in> set c"
    and leader_not_Err: "leader h r c \<noteq> Err e"
begin

lemma leader_empty: "leader h r [] = Panic"
  using leader_in [of h r "[]"] leader_not_Err [of h r "[]"] by (cases "leader h r []") auto

lemma sole_signer_in_committee: "leader h r c = Ok p \<Longrightarrow> ids = [p] \<Longrightarrow> set ids \<subseteq> set c"
  using leader_in by auto

end

lemma index_u64_in: "index_u64 xs k = Ok x \<Longrightarrow> x \<in> set xs"
  by (auto simp: index_u64_def split: if_splits)

lemma index_u64_not_Err [simp]: "index_u64 xs k \<noteq> Err e"
  by (simp add: index_u64_def)

lemma u64_mod_not_Err [simp]: "u64_mod a b \<noteq> Err e"
  by (simp add: u64_mod_def)

lemma u64_div_not_Err [simp]: "u64_div a b \<noteq> Err e"
  by (simp add: u64_div_def)

interpretation rr: leader_selection "\<lambda>h r c. Proposer S h r c netCfg" for S netCfg
proof
  fix h r c p
  assume "Proposer S h r c netCfg = Ok p"
  then show "p \<in> set c"
    by (auto simp: Proposer_def RoundRobinProposer_def roundRobinProposerPreBooleFork_def
          bind_res_Ok_iff Let_def dest!: index_u64_in split: if_splits)
next
  fix h r c e
  show "Proposer S h r c netCfg \<noteq> Err e"
    by (auto simp: Proposer_def RoundRobinProposer_def roundRobinProposerPreBooleFork_def
          BooleForkAtSlot_def EstimatedEpochAtSlot_def bind_res_Err_iff Let_def split: if_splits)
qed

section \<open>Properties\<close>

text \<open>
  C35: Over as many consecutive rounds as the committee has seats, every operator of the committee
  leads exactly once, before and after the Boole fork, as long as the round numbers do not reach
  the end of the 64-bit range.
\<close>

theorem leaders_rotate:
  assumes "small_committee committee" "SlotsPerEpoch (nw_Beacon netCfg) \<noteq> 0"
    and "FirstRound S \<le> round" "unat height + unat round + length committee < 2 ^ 63"
  shows "\<exists>ids. each_map (\<lambda>k. Proposer S height (round + word_of_nat k) committee netCfg)
                  [0..<length committee] = (Ok ids :: ('e, OperatorID list) res)
           \<and> mset ids = mset committee"
proof -
  let ?s = "word_of_nat (first_seat S height committee) :: u64"
  let ?e = "height div SlotsPerEpoch (nw_Beacon netCfg)"
  have seat: "first_seat S height committee \<le> unat height"
    by (simp add: first_seat_def)
  then have s: "unat ?s \<le> unat height"
    by (simp add: unat_of_nat le_trans [OF mod_less_eq_dividend])
  have e: "unat ?e \<le> unat height"
    by (simp add: unat_div)
  have r: "unat (round - FirstRound S) \<le> unat round"
    using assms(3) by (simp add: unat_sub)
  have n: "committee \<noteq> []" "sort committee \<noteq> []"
    using assms(1) small_committee_sort [of committee] by (auto simp: small_committee_def)
  have a: "unat (?s + (round - FirstRound S)) \<le> unat height + unat round"
    using unat_plus_le [of ?s "round - FirstRound S"] s r by linarith
  have b: "unat (?s + (round - FirstRound S) + ?e) \<le> 2 * unat height + unat round"
    using unat_plus_le [of "?s + (round - FirstRound S)" ?e] a e by linarith
  show ?thesis
  proof (cases rule: Proposer_seat [OF assms(1,2), where S = S and height = height and 'e = 'e,
        case_names boole pre])
    case boole
    have "\<exists>ids. each_map (\<lambda>k. Proposer S height (round + word_of_nat k) committee netCfg)
                  [0..<length (sort committee)] = (Ok ids :: ('e, OperatorID list) res)
           \<and> mset ids = mset (sort committee)"
      using n b assms(4) boole(2)
      by (intro each_map_rotation [where a = "?s + (round - FirstRound S) + ?e"])
        (simp_all add: algebra_simps)
    then show ?thesis
      by simp
  next
    case pre
    then show ?thesis
      using n a assms(4)
      by (intro each_map_rotation [where a = "?s + (round - FirstRound S)"])
        (simp_all add: algebra_simps)
  qed
qed

theorem leaders_rotate_witness:
  "\<exists>ids. each_map (\<lambda>k. Proposer demo_spec 330 (1 + word_of_nat k) [7, 3, 9, 5] demo_Network) [0..<4]
            = (Ok ids :: (unit, OperatorID list) res) \<and> mset ids = {#7, 3, 9, 5#}"
proof -
  have "small_committee [7, 3, 9, 5 :: OperatorID]" "SlotsPerEpoch (nw_Beacon demo_Network) \<noteq> 0"
    by (simp_all add: small_committee_def demo_defs)
  moreover have "[0..<length [7, 3, 9, 5 :: OperatorID]] = [0..<4]" "mset [7, 3, 9, 5] = {#7, 3, 9, 5#}"
    by (simp_all add: upt_conv_Cons)
  ultimately show ?thesis
    using leaders_rotate [where 'e = unit, of "[7, 3, 9, 5]" demo_Network demo_spec 1 330]
    by (simp only: demo_spec_simps) simp
qed

text \<open>
  After the Boole fork the leader of a height and round does not depend on the order in which
  the caller lists the committee.
\<close>

theorem leader_order_independent:
  assumes "BooleForkAtSlot netCfg height = (Ok True :: ('e, bool) res)"
    and "mset committee = mset committee'"
  shows "Proposer S height round committee netCfg
           = (Proposer S height round committee' netCfg :: ('e, OperatorID) res)"
proof -
  have "sort committee = sort committee'"
    by (rule properties_for_sort) (simp_all add: assms(2))
  then show ?thesis
    using assms(1) by (simp add: Proposer_def RoundRobinProposer_def)
qed

theorem leader_order_independent_witness:
  "Proposer demo_spec 330 2 [7, 3, 9, 5] demo_Network
     = (Proposer demo_spec 330 2 [5, 9, 3, 7] demo_Network :: (unit, OperatorID) res)"
  by (rule leader_order_independent)
    (simp_all add: BooleForkAtSlot_def EstimatedEpochAtSlot_def BooleForkAtEpoch_def demo_defs)

text \<open>
  After the Boole fork the leader of the first round moves on by one seat of the sorted
  committee from one height to the next, and by two where the next height starts an epoch.
\<close>

theorem first_leader_moves:
  assumes "small_committee committee" "SlotsPerEpoch (nw_Beacon netCfg) \<noteq> 0"
    and "FirstHeight S = 0" "unat height < 2 ^ 62"
    and "BooleForkAtSlot netCfg height = (Ok True :: ('e, bool) res)"
    and "BooleForkAtSlot netCfg (height + 1) = (Ok True :: ('e, bool) res)"
  shows "\<exists>k. Proposer S height (FirstRound S) committee netCfg
               = (Ok (rotation (sort committee) k) :: ('e, OperatorID) res)
             \<and> Proposer S (height + 1) (FirstRound S) committee netCfg
               = (Ok (rotation (sort committee)
                    (k + (if (height + 1) mod SlotsPerEpoch (nw_Beacon netCfg) = 0 then 2 else 1)))
                   :: ('e, OperatorID) res)"
proof -
  let ?P = "unat (SlotsPerEpoch (nw_Beacon netCfg))" and ?n = "length committee"
  have seat: "Proposer S h (FirstRound S) committee netCfg
      = (Ok (rotation (sort committee) (unat h mod ?n + unat h div ?P)) :: ('e, OperatorID) res)"
    if "unat h \<le> 2 ^ 62" "BooleForkAtSlot netCfg h = (Ok True :: ('e, bool) res)" for h
  proof -
    have "unat (word_of_nat (unat h mod ?n) + h div SlotsPerEpoch (nw_Beacon netCfg))
        = unat h mod ?n + unat h div ?P"
    proof -
      have "unat h div ?P + unat h mod ?n \<le> unat h + unat h"
        by (intro add_mono) simp_all
      then have "unat h div ?P + unat h mod ?n < 2 ^ 64"
        by (rule le_less_trans) (use that(1) in simp)
      then show ?thesis
        using unat_add_small [of "h div SlotsPerEpoch (nw_Beacon netCfg)" "unat h mod ?n"]
        by (simp add: unat_div add.commute)
    qed
    moreover have "first_seat S h committee = unat h mod ?n"
      using assms(3) by (simp add: first_seat_def)
    ultimately show ?thesis
      using that(2) RoundRobinProposer_seat [OF assms(1,2), of S h "FirstRound S"]
      by (simp add: Proposer_def algebra_simps)
  qed
  have next_height: "unat (height + 1) = unat height + 1"
    using unat_add_small [of height 1] assms(4) by simp
  have "unat ((height + 1) mod SlotsPerEpoch (nw_Beacon netCfg)) = (unat height + 1) mod ?P"
    by (simp add: unat_mod next_height)
  then have zero: "(height + 1) mod SlotsPerEpoch (nw_Beacon netCfg) = 0 \<longleftrightarrow> (unat height + 1) mod ?P = 0"
    by (metis unat_0_iff)
  have epoch: "(unat height + 1) div ?P
      = unat height div ?P + (if (height + 1) mod SlotsPerEpoch (nw_Beacon netCfg) = 0 then 1 else 0)"
    unfolding zero using div_Suc [of "unat height" ?P] by (simp split: if_splits)
  have "rotation (sort committee) ((unat height + 1) mod ?n + (unat height div ?P + d))
      = rotation (sort committee) (unat height mod ?n + unat height div ?P + (1 + d))" for d
    by (simp only: rotation_mod length_sort add.assoc) (simp add: ac_simps)
  then show ?thesis
    using seat [of height] seat [of "height + 1"] assms(4-6) epoch next_height by auto
qed

theorem first_leader_moves_witness:
  "\<exists>k. Proposer demo_spec 351 1 [7, 3, 9, 5] demo_Network
          = (Ok (rotation [3, 5, 7, 9] k) :: (unit, OperatorID) res)
        \<and> Proposer demo_spec 352 1 [7, 3, 9, 5] demo_Network
          = (Ok (rotation [3, 5, 7, 9] (k + 2)) :: (unit, OperatorID) res)"
proof -
  have "small_committee [7, 3, 9, 5 :: OperatorID]" "SlotsPerEpoch (nw_Beacon demo_Network) = 32"
    and "BooleForkAtSlot demo_Network 351 = (Ok True :: (unit, bool) res)"
    and "BooleForkAtSlot demo_Network 352 = (Ok True :: (unit, bool) res)"
    by (simp_all add: small_committee_def demo_defs BooleForkAtSlot_def EstimatedEpochAtSlot_def
        BooleForkAtEpoch_def)
  then show ?thesis
    using first_leader_moves [where 'e = unit, of "[7, 3, 9, 5]" demo_Network demo_spec 351]
    by simp
qed

end
