(* ===== verification/Qbft_Instance.thy ===== *)
theory Qbft_Instance
  imports Qbft_Proposer
begin

text \<open>
  One QBFT instance, \<open>protocol/v2/qbft/instance\<close>: validation of the four message types, creation of
  the instance's own messages, the handlers and the timeout. Every handler returns its outcome and
  the instance after the call. Logging, tracing and metrics are left out.
\<close>

section \<open>Instance basics\<close>

definition upd_State :: "('c State \<Rightarrow> 'c State) \<Rightarrow> 'c Instance \<Rightarrow> 'c Instance" where
  "upd_State f i = i\<lparr>i_State := f (i_State i)\<rparr>"

definition NewInstance ::
    "'c specqbft \<Rightarrow> 'c Config \<Rightarrow> CommitteeMember \<Rightarrow> bytes \<Rightarrow> Height \<Rightarrow> (u64 \<Rightarrow> RoundTimer) \<Rightarrow> 'c Instance" where
  "NewInstance S config committeeMember identifier height roundTimerF =
     \<lparr>i_config = config,
      i_State = \<lparr>st_CommitteeMember = committeeMember, st_ID = identifier, st_Round = FirstRound S,
        st_Height = height, st_LastPreparedRound = NoRound S, st_LastPreparedValue = None,
        st_ProposalAcceptedForCurrentRound = None, st_Decided = False, st_DecidedValue = None,
        st_ProposeContainer = NewMsgContainer S, st_PrepareContainer = NewMsgContainer S,
        st_CommitContainer = NewMsgContainer S, st_RoundChangeContainer = NewMsgContainer S\<rparr>,
      i_StartValue = None, i_ValueChecker = None, i_roundTimer = roundTimerF height,
      i_markedIrrelevant = False, i_outbox = []\<rparr>"

definition IsRelevant :: "'c Instance \<Rightarrow> bool" where
  "IsRelevant i \<longleftrightarrow> \<not> i_markedIrrelevant i \<and> st_Round (i_State i) < cfg_CutOffRound (i_config i)"

definition IsDecided :: "'c Instance \<Rightarrow> bool \<times> bytes option" where
  "IsDecided i = (st_Decided (i_State i), st_DecidedValue (i_State i))"

definition MarkDecided :: "'c Instance \<Rightarrow> Round \<Rightarrow> bytes option \<Rightarrow> ('c, unit) handler" where
  "MarkDecided i round value =
     (if st_Decided (i_State i) then (Err (Plain ''instance has already decided''), i)
      else (Ok (), (upd_State (\<lambda>s. s\<lparr>st_Decided := True, st_Round := round, st_DecidedValue := value\<rparr>) i)
                     \<lparr>i_roundTimer := Stop (i_roundTimer i)\<rparr>))"

definition MarkIrrelevant :: "'c Instance \<Rightarrow> 'c Instance" where
  "MarkIrrelevant i = i\<lparr>i_markedIrrelevant := True, i_roundTimer := Stop (i_roundTimer i)\<rparr>"

definition Broadcast :: "env \<Rightarrow> 'c Instance \<Rightarrow> SignedSSVMessage \<Rightarrow> ('c, unit) handler" where
  "Broadcast E i msg =
     (if \<not> IsRelevant i
      then (Err (Coded InstanceStoppedProcessingMessagesErrorCode
                   ''instance is no longer considered relevant''), i)
      else (of_err Plain (e_BroadcastAtSlot E msg (st_Height (i_State i))),
            i\<lparr>i_outbox := i_outbox i @ [(msg, st_Height (i_State i))]\<rparr>))"

definition bumpToRound :: "env \<Rightarrow> 'c Instance \<Rightarrow> Round \<Rightarrow> ('c, unit) handler" where
  "bumpToRound E i round =
     (if round > st_Round (i_State i)
      then let i = upd_State (\<lambda>s. s\<lparr>st_ProposalAcceptedForCurrentRound := None, st_Round := round\<rparr>) i
           in if IsRelevant i
              then bind_st (TimeoutForRound (i_roundTimer i) (e_now E) round, i)
                     (\<lambda>t i. (Ok (), i\<lparr>i_roundTimer := t\<rparr>))
              else (Ok (), i)
      else (Ok (), i))"

definition ProposerForRound :: "'c Instance \<Rightarrow> Round \<Rightarrow> (qbft_err, OperatorID) res" where
  "ProposerForRound i round = cfg_ProposerF (i_config i) (i_State i) round"

definition LeaderNow :: "'c Instance \<Rightarrow> (qbft_err, OperatorID) res" where
  "LeaderNow i = ProposerForRound i (st_Round (i_State i))"

definition allSigners :: "ProcessingMessage list \<Rightarrow> OperatorID list" where
  "allSigners all = concat (map signers all)"

text \<open>
  The configuration a runner's controller is built with; \<open>CutOff\<close> is \<open>specqbft.CutoffRound\<close>.
\<close>

definition buildConfig :: "'c specqbft \<Rightarrow> Round \<Rightarrow> Network \<Rightarrow> RunnerRole \<Rightarrow> 'c Config" where
  "buildConfig S CutOff netCfg role =
     \<lparr>cfg_ProposerF = (\<lambda>state round.
        let committee = OperatorIDsFromOperators (cm_Committee (st_CommitteeMember state))
        in Proposer S (st_Height state) round committee netCfg),
      cfg_CutOffRound = CutOffRoundFor CutOff role\<rparr>"

section \<open>Signed messages of this operator\<close>

definition Sign :: "'c specqbft \<Rightarrow> env \<Rightarrow> Message \<Rightarrow> OperatorID \<Rightarrow> (qbft_err, SignedSSVMessage) res" where
  "Sign S E msg operatorID =
     bind_res (of_sum (\<lambda>e. Wrap ''could not encode message'' (Plain e)) (EncodeMessage S msg)) (\<lambda>byts.
       let msgID = take 56 (m_Identifier msg @ replicate 56 0);
           ssvMsg = \<lparr>ssv_MsgType = SSVConsensusMsgType, ssv_MsgID = msgID, ssv_Data = byts\<rparr>
       in bind_res (of_sum (\<lambda>e. Wrap ''could not sign SSVMessage'' (Plain e)) (e_SignSSVMessage E ssvMsg))
            (\<lambda>sig. Ok \<lparr>s_Signatures = [sig], s_OperatorIDs = [operatorID], s_SSVMessage = ssvMsg,
                       s_FullData = None\<rparr>))"

abbreviation myID :: "'c Instance \<Rightarrow> OperatorID" where
  "myID i \<equiv> cm_OperatorID (st_CommitteeMember (i_State i))"

definition CreateProposal ::
    "'c specqbft \<Rightarrow> env \<Rightarrow> 'c Instance \<Rightarrow> bytes option \<Rightarrow> ProcessingMessage list \<Rightarrow> ProcessingMessage list
       \<Rightarrow> (qbft_err, SignedSSVMessage) res" where
  "CreateProposal S E i fullData roundChanges prepares =
     (let r = HashDataRoot S fullData;
          marshal = (\<lambda>ms. of_sum (\<lambda>e. Wrap ''could not marshal justifications'' (Plain e))
                       (MarshalJustifications S (map pm_SignedMessage ms)))
      in bind_res (marshal roundChanges) (\<lambda>roundChangesData.
         bind_res (marshal prepares) (\<lambda>preparesData.
         bind_res (map_err (Wrap ''could not wrap proposal message'')
                    (Sign S E \<lparr>m_MsgType = ProposalMsgType, m_Height = st_Height (i_State i),
                               m_Round = st_Round (i_State i), m_Identifier = st_ID (i_State i),
                               m_Root = r, m_DataRound = 0,
                               m_RoundChangeJustification = roundChangesData,
                               m_PrepareJustification = preparesData\<rparr> (myID i)))
           (\<lambda>signedMsg. Ok (signedMsg\<lparr>s_FullData := fullData\<rparr>)))))"

definition CreatePrepare ::
    "'c specqbft \<Rightarrow> env \<Rightarrow> 'c Instance \<Rightarrow> Round \<Rightarrow> root \<Rightarrow> (qbft_err, SignedSSVMessage) res" where
  "CreatePrepare S E i newRound root =
     Sign S E \<lparr>m_MsgType = PrepareMsgType, m_Height = st_Height (i_State i), m_Round = newRound,
               m_Identifier = st_ID (i_State i), m_Root = root, m_DataRound = 0,
               m_RoundChangeJustification = [], m_PrepareJustification = []\<rparr> (myID i)"

definition CreateCommit :: "'c specqbft \<Rightarrow> env \<Rightarrow> 'c Instance \<Rightarrow> root \<Rightarrow> (qbft_err, SignedSSVMessage) res" where
  "CreateCommit S E i root =
     Sign S E \<lparr>m_MsgType = CommitMsgType, m_Height = st_Height (i_State i),
               m_Round = st_Round (i_State i), m_Identifier = st_ID (i_State i), m_Root = root,
               m_DataRound = 0, m_RoundChangeJustification = [], m_PrepareJustification = []\<rparr> (myID i)"

section \<open>Prepare messages\<close>

definition validSignedPrepareForHeightRoundAndRootIgnoreSignature ::
    "'c specqbft \<Rightarrow> 'c Instance \<Rightarrow> ProcessingMessage \<Rightarrow> Round \<Rightarrow> root \<Rightarrow> (qbft_err, unit) res" where
  "validSignedPrepareForHeightRoundAndRootIgnoreSignature S i msg round root =
     bind_res (ensure (m_MsgType (qmsg msg) = PrepareMsgType) (Plain ''prepare msg type is wrong'')) (\<lambda>_.
     bind_res (ensure (m_Height (qmsg msg) = st_Height (i_State i))
                 (CodeWrap WrongMessageHeightErrorCode ErrWrongMsgHeight)) (\<lambda>_.
     bind_res (ensure (m_Round (qmsg msg) = round)
                 (Retryable (CodeWrap WrongMessageRoundErrorCode ErrWrongMsgRound))) (\<lambda>_.
     bind_res (of_err (\<lambda>e. Wrap ''prepareData invalid'' (Plain e)) (MsgValidate S msg)) (\<lambda>_.
     bind_res (ensure (m_Root (qmsg msg) = root)
                 (Coded ProposedDataMismatchErrorCode ''proposed data mismatch'')) (\<lambda>_.
     bind_res (ensure (length (signers msg) = 1)
                 (Coded MessageAllowsOneSignerOnlyErrorCode ''signer not in committee'')) (\<lambda>_.
     ensure (CheckSignersInCommittee S (pm_SignedMessage msg) (cm_Committee (st_CommitteeMember (i_State i))))
       (Coded SignerIsNotInCommitteeErrorCode ''signer not in committee'')))))))"

definition verifySignature :: "'c specqbft \<Rightarrow> ProcessingMessage \<Rightarrow> Operator list \<Rightarrow> (qbft_err, unit) res" where
  "verifySignature S msg operators =
     of_err (\<lambda>e. CodeWrap MessageSignatureInvalidErrorCode (Wrap ''msg signature invalid'' (Plain e)))
       (Verify S (pm_SignedMessage msg) operators)"

definition validSignedPrepareForHeightRoundAndRootVerifySignature ::
    "'c specqbft \<Rightarrow> 'c Instance \<Rightarrow> ProcessingMessage \<Rightarrow> Round \<Rightarrow> root \<Rightarrow> (qbft_err, unit) res" where
  "validSignedPrepareForHeightRoundAndRootVerifySignature S i msg round root =
     bind_res (validSignedPrepareForHeightRoundAndRootIgnoreSignature S i msg round root) (\<lambda>_.
       verifySignature S msg (cm_Committee (st_CommitteeMember (i_State i))))"

definition getRoundChangeJustification :: "'c specqbft \<Rightarrow> 'c Instance \<Rightarrow> ProcessingMessage list" where
  "getRoundChangeJustification S i =
     (case st_LastPreparedValue (i_State i) of
        None \<Rightarrow> []
      | Some v \<Rightarrow>
          let r = HashDataRoot S (Some v);
              prepareMsgs = MessagesForRound S (st_PrepareContainer (i_State i)) (st_LastPreparedRound (i_State i));
              ret = filter (\<lambda>msg. validSignedPrepareForHeightRoundAndRootIgnoreSignature S i msg
                                    (st_LastPreparedRound (i_State i)) r = Ok ()) prepareMsgs
          in if \<not> HasQuorum S (st_CommitteeMember (i_State i)) ret then [] else ret)"

definition uponPrepare :: "'c specqbft \<Rightarrow> env \<Rightarrow> 'c Instance \<Rightarrow> ProcessingMessage \<Rightarrow> ('c, unit) handler" where
  "uponPrepare S E i msg =
     bind_st (deref (st_ProposalAcceptedForCurrentRound (i_State i)), i) (\<lambda>proposal i.
       let proposedRoot = m_Root (qmsg proposal);
           prepares = (\<lambda>i. MessagesForRound S (st_PrepareContainer (i_State i)) (st_Round (i_State i)));
           hadQuorumBefore = HasQuorum S (st_CommitteeMember (i_State i)) (prepares i)
       in bind_st (of_sum (\<lambda>e. Wrap ''could not add prepare msg to container'' (Plain e))
                     (AddFirstMsgForSignerAndRound S (st_PrepareContainer (i_State i)) msg), i)
            (\<lambda>(addedMsg, c) i.
              let i = upd_State (\<lambda>s. s\<lparr>st_PrepareContainer := c\<rparr>) i
              in if \<not> addedMsg then (Ok (), i)
                 else if hadQuorumBefore then (Ok (), i)
                 else if \<not> HasQuorum S (st_CommitteeMember (i_State i)) (prepares i) then (Ok (), i)
                 else let i = upd_State (\<lambda>s. s\<lparr>st_LastPreparedValue := s_FullData (pm_SignedMessage proposal),
                                              st_LastPreparedRound := st_Round s\<rparr>) i
                      in bind_st (map_err (Wrap ''could not create commit msg'') (CreateCommit S E i proposedRoot), i)
                           (\<lambda>commitMsg i. map_err_st (Wrap ''failed to broadcast commit message'')
                                            (Broadcast E i commitMsg))))"

section \<open>Round-change messages: validation\<close>

text \<open>Decoding a list of justifications.\<close>

definition processingMessages ::
    "'c specqbft \<Rightarrow> string \<Rightarrow> SignedSSVMessage list \<Rightarrow> (qbft_err, ProcessingMessage list) res" where
  "processingMessages S what sms = each_map (\<lambda>sm. of_sum (\<lambda>e. Wrap what (Plain e)) (NewProcessingMessage S sm)) sms"

definition validRoundChangeForDataIgnoreSignature ::
    "'c specqbft \<Rightarrow> 'c Instance \<Rightarrow> ProcessingMessage \<Rightarrow> Round \<Rightarrow> bytes option \<Rightarrow> (qbft_err, unit) res" where
  "validRoundChangeForDataIgnoreSignature S i msg round fullData =
     bind_res (ensure (m_MsgType (qmsg msg) = RoundChangeMsgType)
                 (Plain ''round change msg type is wrong'')) (\<lambda>_.
     bind_res (ensure (m_Height (qmsg msg) = st_Height (i_State i))
                 (CodeWrap WrongMessageHeightErrorCode ErrWrongMsgHeight)) (\<lambda>_.
     bind_res (ensure (m_Round (qmsg msg) = round)
                 (Retryable (CodeWrap WrongMessageRoundErrorCode ErrWrongMsgRound))) (\<lambda>_.
     bind_res (ensure (length (signers msg) = 1)
                 (Coded MessageAllowsOneSignerOnlyErrorCode ''msg allows 1 signer'')) (\<lambda>_.
     bind_res (of_err (\<lambda>e. Wrap ''roundChange invalid'' (Plain e)) (MsgValidate S msg)) (\<lambda>_.
     bind_res (ensure (CheckSignersInCommittee S (pm_SignedMessage msg)
                         (cm_Committee (st_CommitteeMember (i_State i))))
                 (Coded SignerIsNotInCommitteeErrorCode ''signer not in committee'')) (\<lambda>_.
     if RoundChangePrepared S (qmsg msg)
     then let r = HashDataRoot S fullData
          in bind_res (processingMessages S
                 ''could not create ProcessingMessage from prepare message in round change justification''
                 (GetRoundChangeJustifications S (qmsg msg))) (\<lambda>prepareMsgs.
             bind_res (each (\<lambda>pm. map_err (Wrap ''round change justification invalid'')
                         (validSignedPrepareForHeightRoundAndRootVerifySignature S i pm
                            (m_DataRound (qmsg msg)) (m_Root (qmsg msg)))) prepareMsgs) (\<lambda>_.
             bind_res (ensure (r = m_Root (qmsg msg)) (Coded RootHashInvalidErrorCode ''H(data) != root'')) (\<lambda>_.
             bind_res (ensure (HasQuorum S (st_CommitteeMember (i_State i)) prepareMsgs)
                         (Coded JustificationsNoQuorumInvalidErrorCode ''no justifications quorum'')) (\<lambda>_.
             ensure (m_DataRound (qmsg msg) \<le> round) (Plain ''prepared round > round'')))))
     else Ok ()))))))"

definition validRoundChangeForDataVerifySignature ::
    "'c specqbft \<Rightarrow> 'c Instance \<Rightarrow> ProcessingMessage \<Rightarrow> Round \<Rightarrow> bytes option \<Rightarrow> (qbft_err, unit) res" where
  "validRoundChangeForDataVerifySignature S i msg round fullData =
     bind_res (validRoundChangeForDataIgnoreSignature S i msg round fullData) (\<lambda>_.
       verifySignature S msg (cm_Committee (st_CommitteeMember (i_State i))))"

fun highestPrepared_loop ::
    "'c specqbft \<Rightarrow> ProcessingMessage option \<Rightarrow> Round \<Rightarrow> ProcessingMessage list \<Rightarrow> ProcessingMessage option" where
  "highestPrepared_loop S ret highestPreparedRound [] = ret"
| "highestPrepared_loop S ret highestPreparedRound (rc # rest) =
     (if \<not> RoundChangePrepared S (qmsg rc) then highestPrepared_loop S ret highestPreparedRound rest
      else if ret = None \<or> highestPreparedRound < m_DataRound (qmsg rc)
      then highestPrepared_loop S (Some rc) (m_DataRound (qmsg rc)) rest
      else highestPrepared_loop S ret highestPreparedRound rest)"

definition highestPrepared :: "'c specqbft \<Rightarrow> ProcessingMessage list \<Rightarrow> ProcessingMessage option" where
  "highestPrepared S roundChanges = highestPrepared_loop S None 0 roundChanges"

fun minRound_loop :: "'c specqbft \<Rightarrow> Round \<Rightarrow> ProcessingMessage list \<Rightarrow> Round" where
  "minRound_loop S ret [] = ret"
| "minRound_loop S ret (msg # rest) =
     minRound_loop S (if ret = NoRound S \<or> ret > m_Round (qmsg msg) then m_Round (qmsg msg) else ret) rest"

definition minRound :: "'c specqbft \<Rightarrow> ProcessingMessage list \<Rightarrow> Round" where
  "minRound S roundChangeMsgs = minRound_loop S (NoRound S) roundChangeMsgs"

section \<open>Proposals\<close>

definition isProposalJustification ::
    "'c specqbft \<Rightarrow> 'c Instance \<Rightarrow> ProcessingMessage list \<Rightarrow> ProcessingMessage list \<Rightarrow> Round \<Rightarrow> bytes option
       \<Rightarrow> (qbft_err, unit) res" where
  "isProposalJustification S i roundChangeMsgs prepareMsgs round fullData =
     bind_res (deref (i_ValueChecker i)) (\<lambda>CheckValue.
     bind_res (of_err (\<lambda>e. Wrap ''proposal fullData invalid'' (Plain e)) (CheckValue fullData)) (\<lambda>_.
     if round = FirstRound S then Ok ()
     else
     bind_res (each (\<lambda>rc. map_err (Wrap ''change round msg not valid'')
                 (validRoundChangeForDataVerifySignature S i rc round fullData)) roundChangeMsgs) (\<lambda>_.
     bind_res (ensure (HasQuorum S (st_CommitteeMember (i_State i)) roundChangeMsgs)
                 (Coded RoundChangeNoQuorumErrorCode ''change round has no quorum'')) (\<lambda>_.
     let previouslyPrepared = list_ex (\<lambda>rc. RoundChangePrepared S (qmsg rc)) roundChangeMsgs
     in if \<not> previouslyPrepared then Ok ()
     else
     bind_res (ensure (HasQuorum S (st_CommitteeMember (i_State i)) prepareMsgs)
                 (Plain ''prepares has no quorum'')) (\<lambda>_.
     case highestPrepared S roundChangeMsgs of
       None \<Rightarrow> Err (Plain ''no highest prepared'')
     | Some rcMsg \<Rightarrow>
         bind_res (ensure (HashDataRoot S fullData = m_Root (qmsg rcMsg))
                     (Plain ''proposed data does not match highest prepared'')) (\<lambda>_.
         each (\<lambda>pm. map_err (\<lambda>_. Coded PrepareMessageInvalidErrorCode ''signed prepare not valid'')
                 (validSignedPrepareForHeightRoundAndRootVerifySignature S i pm
                    (m_DataRound (qmsg rcMsg)) (m_Root (qmsg rcMsg)))) prepareMsgs))))))"

definition isValidProposal :: "'c specqbft \<Rightarrow> 'c Instance \<Rightarrow> ProcessingMessage \<Rightarrow> (qbft_err, unit) res" where
  "isValidProposal S i msg =
     bind_res (ensure (m_MsgType (qmsg msg) = ProposalMsgType) (Plain ''msg type is not proposal'')) (\<lambda>_.
     bind_res (ensure (m_Height (qmsg msg) = st_Height (i_State i))
                 (CodeWrap WrongMessageHeightErrorCode ErrWrongMsgHeight)) (\<lambda>_.
     bind_res (ensure (length (signers msg) = 1)
                 (Coded MessageAllowsOneSignerOnlyErrorCode ''msg allows 1 signer'')) (\<lambda>_.
     bind_res (ensure (CheckSignersInCommittee S (pm_SignedMessage msg)
                         (cm_Committee (st_CommitteeMember (i_State i))))
                 (Coded SignerIsNotInCommitteeErrorCode ''signer not in committee'')) (\<lambda>_.
     bind_res (ProposerForRound i (m_Round (qmsg msg))) (\<lambda>leader.
     bind_res (ensure (MatchedSigners S (pm_SignedMessage msg) [leader])
                 (Coded ProposalLeaderInvalidErrorCode ''proposal leader invalid'')) (\<lambda>_.
     bind_res (of_err (\<lambda>e. CodeWrap ProposalInvalidErrorCode (Wrap ''proposal invalid'' (Plain e)))
                 (MsgValidate S msg)) (\<lambda>_.
     bind_res (ensure (m_Root (qmsg msg) = HashDataRoot S (s_FullData (pm_SignedMessage msg)))
                 (Coded RootHashInvalidErrorCode ''H(data) != root'')) (\<lambda>_.
     bind_res (processingMessages S ''could not create ProcessingMessage from round change justification''
                 (GetRoundChangeJustifications S (qmsg msg))) (\<lambda>roundChangeJustification.
     bind_res (processingMessages S ''could not create ProcessingMessage from prepare justification''
                 (GetPrepareJustifications S (qmsg msg))) (\<lambda>prepareJustification.
     bind_res (map_err (Wrap ''proposal not justified'')
                 (isProposalJustification S i roundChangeJustification prepareJustification
                    (m_Round (qmsg msg)) (s_FullData (pm_SignedMessage msg)))) (\<lambda>_.
     ensure ((st_ProposalAcceptedForCurrentRound (i_State i) = None
                \<and> m_Round (qmsg msg) = st_Round (i_State i))
              \<or> m_Round (qmsg msg) > st_Round (i_State i))
       (Coded ProposalInvalidErrorCode ''proposal is not valid with current state''))))))))))))"

definition uponProposal :: "'c specqbft \<Rightarrow> env \<Rightarrow> 'c Instance \<Rightarrow> ProcessingMessage \<Rightarrow> ('c, unit) handler" where
  "uponProposal S E i msg =
     bind_st (of_sum (\<lambda>e. Wrap ''could not add proposal msg to container'' (Plain e))
                (AddFirstMsgForSignerAndRound S (st_ProposeContainer (i_State i)) msg), i)
       (\<lambda>(addedMsg, c) i.
         let i = upd_State (\<lambda>s. s\<lparr>st_ProposeContainer := c\<rparr>) i
         in if \<not> addedMsg then (Ok (), i)
            else bind_st (bumpToRound E i (m_Round (qmsg msg))) (\<lambda>_ i.
              if \<not> IsRelevant i then (Ok (), i)
              else let i = upd_State (\<lambda>s. s\<lparr>st_ProposalAcceptedForCurrentRound := Some msg\<rparr>) i;
                       r = HashDataRoot S (s_FullData (pm_SignedMessage msg))
                   in bind_st (map_err (Wrap ''could not create prepare msg'')
                                 (CreatePrepare S E i (m_Round (qmsg msg)) r), i)
                        (\<lambda>prepare i. map_err_st (Wrap ''failed to broadcast prepare message'')
                                       (Broadcast E i prepare))))"

section \<open>Commit messages\<close>

definition commitQuorumForRoundRoot ::
    "'c specqbft \<Rightarrow> 'c Instance \<Rightarrow> root \<Rightarrow> Round \<Rightarrow> bool \<times> ProcessingMessage list" where
  "commitQuorumForRoundRoot S i root round =
     (let (ids, msgs) = LongestUniqueSignersForRoundAndRoot S (st_CommitContainer (i_State i)) round root
      in (MemberHasQuorum S (st_CommitteeMember (i_State i)) (length ids), msgs))"

fun aggregate_loop ::
    "'c specqbft \<Rightarrow> SignedSSVMessage \<Rightarrow> ProcessingMessage list \<Rightarrow> (qbft_err, SignedSSVMessage) res" where
  "aggregate_loop S ret [] = Ok ret"
| "aggregate_loop S ret (m # ms) =
     bind_res (of_sum (\<lambda>e. Wrap ''could not aggregate commit msg'' (Plain e))
                 (Aggregate S ret (pm_SignedMessage m)))
       (\<lambda>ret. aggregate_loop S ret ms)"

text \<open>
  \<open>sort.Slice\<close> need not be stable; the order it leaves between equal operator ids is not
  specified. Aggregation gives no operator id twice.
\<close>

definition aggregateCommitMsgs ::
    "'c specqbft \<Rightarrow> ProcessingMessage list \<Rightarrow> bytes option \<Rightarrow> (qbft_err, SignedSSVMessage) res" where
  "aggregateCommitMsgs S msgs fullData =
     (case msgs of
        [] \<Rightarrow> Err (Coded ZeroCommitMessagesErrorCode ''cannot aggregate zero commit msgs'')
      | m # ms \<Rightarrow>
          bind_res (aggregate_loop S (pm_SignedMessage m) ms) (\<lambda>ret.
            let ret = ret\<lparr>s_FullData := fullData\<rparr>; n = length (s_OperatorIDs ret)
            in if length (s_Signatures ret) < n then Panic
               else let pairs = sort_key fst (zip (s_OperatorIDs ret) (s_Signatures ret))
                    in Ok (ret\<lparr>s_OperatorIDs := map fst pairs,
                               s_Signatures := map snd pairs @ drop n (s_Signatures ret)\<rparr>)))"

definition baseCommitValidationIgnoreSignature ::
    "'c specqbft \<Rightarrow> ProcessingMessage \<Rightarrow> Height \<Rightarrow> Operator list \<Rightarrow> (qbft_err, unit) res" where
  "baseCommitValidationIgnoreSignature S msg height operators =
     bind_res (of_err (\<lambda>e. CodeWrap CommitMessageInvalidErrorCode (Wrap ''signed commit invalid'' (Plain e)))
                 (MsgValidate S msg)) (\<lambda>_.
     bind_res (ensure (m_MsgType (qmsg msg) = CommitMsgType)
                 (CodeWrap CommitMessageTypeWrongErrorCode (Plain ''commit msg type is wrong''))) (\<lambda>_.
     bind_res (ensure (m_Height (qmsg msg) = height)
                 (CodeWrap WrongMessageHeightErrorCode ErrWrongMsgHeight)) (\<lambda>_.
     ensure (CheckSignersInCommittee S (pm_SignedMessage msg) operators)
       (Coded SignerIsNotInCommitteeErrorCode ''signer not in committee''))))"

definition BaseCommitValidationVerifySignature ::
    "'c specqbft \<Rightarrow> ProcessingMessage \<Rightarrow> Height \<Rightarrow> Operator list \<Rightarrow> (qbft_err, unit) res" where
  "BaseCommitValidationVerifySignature S msg height operators =
     bind_res (baseCommitValidationIgnoreSignature S msg height operators) (\<lambda>_.
       verifySignature S msg operators)"

definition validateCommit :: "'c specqbft \<Rightarrow> 'c Instance \<Rightarrow> ProcessingMessage \<Rightarrow> (qbft_err, unit) res" where
  "validateCommit S i msg =
     bind_res (baseCommitValidationIgnoreSignature S msg (st_Height (i_State i))
                 (cm_Committee (st_CommitteeMember (i_State i)))) (\<lambda>_.
     bind_res (ensure (length (signers msg) = 1)
                 (Coded MessageAllowsOneSignerOnlyErrorCode ''msg allows 1 signer'')) (\<lambda>_.
     bind_res (ensure (m_Round (qmsg msg) = st_Round (i_State i))
                 (Retryable (CodeWrap WrongMessageRoundErrorCode ErrWrongMsgRound))) (\<lambda>_.
     bind_res (deref (st_ProposalAcceptedForCurrentRound (i_State i))) (\<lambda>proposal.
     ensure (m_Root (qmsg proposal) = m_Root (qmsg msg))
       (Coded ProposedDataMismatchErrorCode ''proposed data mismatch'')))))"

type_synonym decision = "bool \<times> bytes option \<times> SignedSSVMessage option"

definition uponCommit :: "'c specqbft \<Rightarrow> 'c Instance \<Rightarrow> ProcessingMessage \<Rightarrow> ('c, decision) handler" where
  "uponCommit S i msg =
     (let (hadQuorumBefore, _) = commitQuorumForRoundRoot S i (m_Root (qmsg msg)) (m_Round (qmsg msg))
      in bind_st (of_sum (\<lambda>e. Wrap ''could not add commit msg to container'' (Plain e))
                    (AddFirstMsgForSignerAndRound S (st_CommitContainer (i_State i)) msg), i)
           (\<lambda>(addMsg, c) i.
             let i = upd_State (\<lambda>s. s\<lparr>st_CommitContainer := c\<rparr>) i
             in if \<not> addMsg then (Ok (False, None, None), i)
                else if hadQuorumBefore then (Ok (False, None, None), i)
                else let (quorum, commitMsgs) =
                           commitQuorumForRoundRoot S i (m_Root (qmsg msg)) (m_Round (qmsg msg))
                     in if quorum
                        then bind_st (deref (st_ProposalAcceptedForCurrentRound (i_State i)), i) (\<lambda>proposal i.
                               let fullData = s_FullData (pm_SignedMessage proposal)
                               in bind_st (map_err (Wrap ''could not aggregate commit msgs'')
                                             (aggregateCommitMsgs S commitMsgs fullData), i)
                                    (\<lambda>agg i. (Ok (True, fullData, Some agg), i)))
                        else (Ok (False, None, None), i)))"

section \<open>Round changes\<close>

definition getRoundChangeData ::
    "'c specqbft \<Rightarrow> 'c Instance \<Rightarrow> Round \<times> root \<times> bytes option \<times> ProcessingMessage list" where
  "getRoundChangeData S i =
     (if st_LastPreparedRound (i_State i) \<noteq> NoRound S \<and> st_LastPreparedValue (i_State i) \<noteq> None
      then (st_LastPreparedRound (i_State i), HashDataRoot S (st_LastPreparedValue (i_State i)),
            st_LastPreparedValue (i_State i), getRoundChangeJustification S i)
      else (NoRound S, replicate 32 0, None, []))"

definition CreateRoundChange ::
    "'c specqbft \<Rightarrow> env \<Rightarrow> 'c Instance \<Rightarrow> Round \<Rightarrow> (qbft_err, SignedSSVMessage) res" where
  "CreateRoundChange S E i newRound =
     (let (round, root, fullData, justifications) = getRoundChangeData S i
      in bind_res (of_sum (\<lambda>e. Wrap ''could not marshal justifications'' (Plain e))
                     (MarshalJustifications S (map pm_SignedMessage justifications))) (\<lambda>justificationsData.
         bind_res (map_err (Wrap ''could not sign round change message'')
                     (Sign S E \<lparr>m_MsgType = RoundChangeMsgType, m_Height = st_Height (i_State i),
                                m_Round = newRound, m_Identifier = st_ID (i_State i), m_Root = root,
                                m_DataRound = round, m_RoundChangeJustification = justificationsData,
                                m_PrepareJustification = []\<rparr> (myID i)))
           (\<lambda>signedMsg. Ok (signedMsg\<lparr>s_FullData := fullData\<rparr>))))"

definition hasReceivedPartialQuorum :: "'c specqbft \<Rightarrow> 'c Instance \<Rightarrow> bool \<times> ProcessingMessage list" where
  "hasReceivedPartialQuorum S i =
     (let rc = filter (\<lambda>msg. m_Round (qmsg msg) > st_Round (i_State i))
                 (AllMessages S (st_RoundChangeContainer (i_State i)))
      in (HasPartialQuorum S (st_CommitteeMember (i_State i)) rc, rc))"

definition isReceivedProposalJustification ::
    "'c specqbft \<Rightarrow> 'c Instance \<Rightarrow> ProcessingMessage list \<Rightarrow> ProcessingMessage list \<Rightarrow> Round \<Rightarrow> bytes option
       \<Rightarrow> (qbft_err, unit) res" where
  "isReceivedProposalJustification S i roundChanges prepares newRound value =
     map_err (Wrap ''proposal not justified'')
       (isProposalJustification S i roundChanges prepares newRound value)"

definition isProposalJustificationForLeadingRound ::
    "'c specqbft \<Rightarrow> 'c Instance \<Rightarrow> ProcessingMessage \<Rightarrow> ProcessingMessage list \<Rightarrow> ProcessingMessage list
       \<Rightarrow> bytes option \<Rightarrow> Round \<Rightarrow> (qbft_err, unit) res" where
  "isProposalJustificationForLeadingRound S i roundChangeMsg roundChanges roundChangeJustifications value newRound =
     bind_res (isReceivedProposalJustification S i roundChanges roundChangeJustifications
                 (m_Round (qmsg roundChangeMsg)) value) (\<lambda>_.
     bind_res (ProposerForRound i (m_Round (qmsg roundChangeMsg))) (\<lambda>leader.
     bind_res (ensure (leader = myID i) (Plain ''not proposer'')) (\<lambda>_.
       let currentRoundProposal = st_ProposalAcceptedForCurrentRound (i_State i) = None
                                    \<and> st_Round (i_State i) = newRound;
           futureRoundProposal = newRound > st_Round (i_State i)
       in ensure (currentRoundProposal \<or> futureRoundProposal) (Plain ''proposal round mismatch''))))"

fun leadingRound_loop ::
    "'c specqbft \<Rightarrow> 'c Instance \<Rightarrow> ProcessingMessage list \<Rightarrow> Round \<Rightarrow> ProcessingMessage list
       \<Rightarrow> (qbft_err, (ProcessingMessage \<times> bytes option) option) res" where
  "leadingRound_loop S i roundChanges round [] = Ok None"
| "leadingRound_loop S i roundChanges round (rc # rest) =
     (let valueToPropose = (if RoundChangePrepared S (qmsg rc) then s_FullData (pm_SignedMessage rc)
                            else i_StartValue i)
      in bind_res (processingMessages S ''could not create ProcessingMessage from round change justification''
                     (GetRoundChangeJustifications S (qmsg rc))) (\<lambda>roundChangeJustification.
           case isProposalJustificationForLeadingRound S i rc roundChanges roundChangeJustification
                  valueToPropose round of
             Ok _ \<Rightarrow> Ok (Some (rc, valueToPropose))
           | Err _ \<Rightarrow> leadingRound_loop S i roundChanges round rest
           | Panic \<Rightarrow> Panic))"

definition hasReceivedProposalJustificationForLeadingRound ::
    "'c specqbft \<Rightarrow> 'c Instance \<Rightarrow> ProcessingMessage
       \<Rightarrow> (qbft_err, (ProcessingMessage \<times> bytes option) option) res" where
  "hasReceivedProposalJustificationForLeadingRound S i roundChangeMessage =
     (let roundChanges = MessagesForRound S (st_RoundChangeContainer (i_State i))
                           (m_Round (qmsg roundChangeMessage))
      in if \<not> HasQuorum S (st_CommitteeMember (i_State i)) roundChanges then Ok None
         else leadingRound_loop S i roundChanges (m_Round (qmsg roundChangeMessage)) roundChanges)"

definition uponChangeRoundPartialQuorum ::
    "'c specqbft \<Rightarrow> env \<Rightarrow> 'c Instance \<Rightarrow> Round \<Rightarrow> ('c, unit) handler" where
  "uponChangeRoundPartialQuorum S E i newRound =
     bind_st (bumpToRound E i newRound) (\<lambda>_ i.
       if \<not> IsRelevant i then (Ok (), i)
       else bind_st (map_err (Wrap ''failed to create round change message'') (CreateRoundChange S E i newRound), i)
              (\<lambda>roundChange i. map_err_st (Wrap ''failed to broadcast round change message'')
                                 (Broadcast E i roundChange)))"

definition uponRoundChange :: "'c specqbft \<Rightarrow> env \<Rightarrow> 'c Instance \<Rightarrow> ProcessingMessage \<Rightarrow> ('c, unit) handler" where
  "uponRoundChange S E i msg =
     (let hadQuorumBefore = HasQuorum S (st_CommitteeMember (i_State i))
            (MessagesForRound S (st_RoundChangeContainer (i_State i)) (m_Round (qmsg msg)))
      in bind_st (of_sum (\<lambda>e. Wrap ''could not add round change msg to container'' (Plain e))
                    (AddFirstMsgForSignerAndRound S (st_RoundChangeContainer (i_State i)) msg), i)
           (\<lambda>(addedMsg, c) i.
             let i = upd_State (\<lambda>s. s\<lparr>st_RoundChangeContainer := c\<rparr>) i
             in if \<not> addedMsg then (Ok (), i)
                else if hadQuorumBefore then (Ok (), i)
                else bind_st (map_err (Wrap ''could not get proposal justification for leading round'')
                                (hasReceivedProposalJustificationForLeadingRound S i msg), i) (\<lambda>just i.
                  case just of
                    Some (justifiedRoundChangeMsg, valueToPropose) \<Rightarrow>
                      bind_st (bumpToRound E i (m_Round (qmsg justifiedRoundChangeMsg))) (\<lambda>_ i.
                        if \<not> IsRelevant i then (Ok (), i)
                        else bind_st (processingMessages S
                                 ''could not create ProcessingMessage from round change justification''
                                 (GetRoundChangeJustifications S (qmsg justifiedRoundChangeMsg)), i)
                               (\<lambda>roundChangeJustification i.
                             bind_st (map_err (Wrap ''failed to create proposal'')
                                 (CreateProposal S E i valueToPropose
                                    (MessagesForRound S (st_RoundChangeContainer (i_State i)) (st_Round (i_State i)))
                                    roundChangeJustification), i)
                               (\<lambda>proposal i. map_err_st (Wrap ''failed to broadcast proposal message'')
                                               (Broadcast E i proposal))))
                  | None \<Rightarrow>
                      (case hasReceivedPartialQuorum S i of (partialQuorum, rcs) \<Rightarrow>
                         if partialQuorum
                         then let newRound = minRound S rcs
                              in if newRound \<le> st_Round (i_State i) then (Ok (), i)
                                 else uponChangeRoundPartialQuorum S E i newRound
                         else (Ok (), i)))))"

definition UponRoundTimeout :: "'c specqbft \<Rightarrow> env \<Rightarrow> 'c Instance \<Rightarrow> ('c, unit) handler" where
  "UponRoundTimeout S E i =
     (if \<not> IsRelevant i
      then (Err (CodeWrap TimeoutInstanceErrorCode (Plain ''instance is no longer considered relevant'')), i)
      else let newRound = st_Round (i_State i) + 1
           in bind_st (bumpToRound E i newRound) (\<lambda>_ i.
                if \<not> IsRelevant i then (Ok (), i)
                else bind_st (map_err (Wrap ''could not generate round change msg'')
                                (CreateRoundChange S E i newRound), i)
                       (\<lambda>roundChange i. map_err_st (Wrap ''failed to broadcast round change message'')
                                          (Broadcast E i roundChange))))"

section \<open>Start and message processing\<close>

definition Start ::
    "'c specqbft \<Rightarrow> env \<Rightarrow> 'c Instance \<Rightarrow> bytes option \<Rightarrow> (bytes option \<Rightarrow> string option) \<Rightarrow> ('c, unit) handler" where
  "Start S E i value valueChecker =
     bind_st (ProposerForRound i (FirstRound S), i) (\<lambda>proposerID i.
       let i = i\<lparr>i_StartValue := value, i_ValueChecker := Some valueChecker\<rparr>
       in bind_st (TimeoutForRound (i_roundTimer i) (e_now E) (FirstRound S), i) (\<lambda>t i.
            let i = i\<lparr>i_roundTimer := t\<rparr>
            in if proposerID = myID i
               then (case CreateProposal S E i (i_StartValue i) [] [] of
                       Ok proposal \<Rightarrow> (case Broadcast E i proposal of
                                          (Panic, i) \<Rightarrow> (Panic, i) | (_, i) \<Rightarrow> (Ok (), i))
                     | Err _ \<Rightarrow> (Ok (), i)
                     | Panic \<Rightarrow> (Panic, i))
               else (Ok (), i)))"

definition BaseMsgValidation :: "'c specqbft \<Rightarrow> 'c Instance \<Rightarrow> ProcessingMessage \<Rightarrow> (qbft_err, unit) res" where
  "BaseMsgValidation S i msg =
     bind_res (of_err Plain (MsgValidate S msg)) (\<lambda>_.
     let decided = m_MsgType (qmsg msg) = CommitMsgType
                     \<and> MemberHasQuorum S (st_CommitteeMember (i_State i)) (length (signers msg))
     in bind_res (ensure (decided \<or> \<not> m_Round (qmsg msg) < st_Round (i_State i))
                    (Coded PastRoundErrorCode ''past round'')) (\<lambda>_.
        case m_MsgType (qmsg msg) of
          ProposalMsgType \<Rightarrow> isValidProposal S i msg
        | PrepareMsgType \<Rightarrow>
            (case st_ProposalAcceptedForCurrentRound (i_State i) of
               None \<Rightarrow> Err (Retryable (CodeWrap NoProposalForCurrentRoundErrorCode ErrNoProposalForCurrentRound))
             | Some proposedMsg \<Rightarrow>
                 validSignedPrepareForHeightRoundAndRootIgnoreSignature S i msg (st_Round (i_State i))
                   (m_Root (qmsg proposedMsg)))
        | CommitMsgType \<Rightarrow>
            (case st_ProposalAcceptedForCurrentRound (i_State i) of
               None \<Rightarrow> Err (Retryable (CodeWrap NoProposalForCurrentRoundErrorCode ErrNoProposalForCurrentRound))
             | Some proposedMsg \<Rightarrow> validateCommit S i msg)
        | RoundChangeMsgType \<Rightarrow>
            validRoundChangeForDataIgnoreSignature S i msg (m_Round (qmsg msg)) (s_FullData (pm_SignedMessage msg))
        | OtherMsgType _ \<Rightarrow> Err (Plain ''signed message type not supported'')))"

abbreviation no_decision :: "unit \<Rightarrow> 'c Instance \<Rightarrow> ('c, decision) handler" where
  "no_decision \<equiv> \<lambda>_ i. (Ok (False, None, None), i)"

definition ProcessMsg :: "'c specqbft \<Rightarrow> env \<Rightarrow> 'c Instance \<Rightarrow> ProcessingMessage \<Rightarrow> ('c, decision) handler" where
  "ProcessMsg S E i msg =
     (if \<not> IsRelevant i
      then (Err (Coded InstanceStoppedProcessingMessagesErrorCode
                   ''instance is no longer considered relevant''), i)
      else bind_st (map_err (Wrap ''invalid signed message'') (BaseMsgValidation S i msg), i) (\<lambda>_ i.
        case m_MsgType (qmsg msg) of
          ProposalMsgType \<Rightarrow> bind_st (uponProposal S E i msg) no_decision
        | PrepareMsgType \<Rightarrow> bind_st (uponPrepare S E i msg) no_decision
        | CommitMsgType \<Rightarrow>
            bind_st (uponCommit S i msg) (\<lambda>(decided, decidedValue, aggregatedCommit) i.
              if decided
              then bind_st (map_err_st (Wrap ''mark as decided'') (MarkDecided i (m_Round (qmsg msg)) decidedValue))
                     (\<lambda>_ i. (Ok (decided, decidedValue, aggregatedCommit), i))
              else (Ok (decided, decidedValue, aggregatedCommit), i))
        | RoundChangeMsgType \<Rightarrow> bind_st (uponRoundChange S E i msg) no_decision
        | OtherMsgType _ \<Rightarrow> (Err (Plain ''signed message type not supported''), i)))"

end
