(* ===== verification/Qbft_Refinement.thy ===== *)
theory Qbft_Refinement
  imports Qbft_Instance
begin

text \<open>
  The protocol steps a QBFT instance promises to take, as a step relation, and the proof that every
  handler of \<open>Qbft_Instance\<close> is a sequence of such steps, whatever it returns. The safety
  properties are proved over the steps.
\<close>

section \<open>Protocol steps\<close>

abbreviation round_of :: "'c Instance \<Rightarrow> Round" where
  "round_of i \<equiv> st_Round (i_State i)"

abbreviation accepted :: "'c Instance \<Rightarrow> ProcessingMessage option" where
  "accepted i \<equiv> st_ProposalAcceptedForCurrentRound (i_State i)"

abbreviation full_data :: "ProcessingMessage \<Rightarrow> bytes option" where
  "full_data m \<equiv> s_FullData (pm_SignedMessage m)"

text \<open>What never changes in an instance once it has started.\<close>

definition same_setup :: "'c Instance \<Rightarrow> 'c Instance \<Rightarrow> bool" where
  "same_setup i j \<longleftrightarrow> i_config i = i_config j \<and> i_ValueChecker i = i_ValueChecker j
     \<and> i_StartValue i = i_StartValue j \<and> st_Height (i_State i) = st_Height (i_State j)
     \<and> st_CommitteeMember (i_State i) = st_CommitteeMember (i_State j) \<and> st_ID (i_State i) = st_ID (i_State j)"

text \<open>The messages an instance may broadcast in a state.\<close>

inductive own_message :: "'c specqbft \<Rightarrow> 'c Instance \<Rightarrow> SignedSSVMessage \<Rightarrow> bool" for S i where
  first_proposal: "CreateProposal S E i (i_StartValue i) [] [] = Ok sm \<Longrightarrow> round_of i = FirstRound S \<Longrightarrow>
    ProposerForRound i0 (FirstRound S) = Ok (myID i) \<Longrightarrow> i_config i0 = i_config i \<Longrightarrow> own_message S i sm"
| proposal: "CreateProposal S E i v rcs prepares = Ok sm \<Longrightarrow> same_setup i0 i \<Longrightarrow>
    isProposalJustificationForLeadingRound S i0 rc rcs0 prepares v newRound = Ok () \<Longrightarrow>
    rcs0 = MessagesForRound S (st_RoundChangeContainer (i_State i)) newRound \<Longrightarrow>
    rcs = MessagesForRound S (st_RoundChangeContainer (i_State i)) (round_of i) \<Longrightarrow>
    rc \<in> set rcs0 \<Longrightarrow> m_Round (qmsg rc) \<le> round_of i \<Longrightarrow> own_message S i sm"
| prepare: "accepted i = Some p \<Longrightarrow> m_Round (qmsg p) = r \<Longrightarrow>
    CreatePrepare S E i r (HashDataRoot S (full_data p)) = Ok sm \<Longrightarrow> own_message S i sm"
| commit: "accepted i = Some p \<Longrightarrow> st_LastPreparedRound (i_State i) = round_of i \<Longrightarrow>
    st_LastPreparedValue (i_State i) = full_data p \<Longrightarrow> CreateCommit S E i (m_Root (qmsg p)) = Ok sm \<Longrightarrow>
    own_message S i sm"
| round_change: "CreateRoundChange S E i (round_of i) = Ok sm \<Longrightarrow> own_message S i sm"

inductive qstep :: "'c specqbft \<Rightarrow> 'c Instance \<Rightarrow> 'c Instance \<Rightarrow> bool" for S where
  store_proposal: "isValidProposal S i msg = Ok () \<Longrightarrow>
    AddFirstMsgForSignerAndRound S (st_ProposeContainer (i_State i)) msg = Inr (b, c) \<Longrightarrow>
    qstep S i (upd_State (\<lambda>s. s\<lparr>st_ProposeContainer := c\<rparr>) i)"
| store_prepare: "accepted i = Some p \<Longrightarrow>
    validSignedPrepareForHeightRoundAndRootIgnoreSignature S i msg (round_of i) (m_Root (qmsg p)) = Ok () \<Longrightarrow>
    AddFirstMsgForSignerAndRound S (st_PrepareContainer (i_State i)) msg = Inr (b, c) \<Longrightarrow>
    qstep S i (upd_State (\<lambda>s. s\<lparr>st_PrepareContainer := c\<rparr>) i)"
| store_commit: "accepted i = Some p \<Longrightarrow> validateCommit S i msg = Ok () \<Longrightarrow>
    AddFirstMsgForSignerAndRound S (st_CommitContainer (i_State i)) msg = Inr (b, c) \<Longrightarrow>
    qstep S i (upd_State (\<lambda>s. s\<lparr>st_CommitContainer := c\<rparr>) i)"
| store_round_change: "validRoundChangeForDataIgnoreSignature S i msg (m_Round (qmsg msg)) (full_data msg) = Ok () \<Longrightarrow>
    AddFirstMsgForSignerAndRound S (st_RoundChangeContainer (i_State i)) msg = Inr (b, c) \<Longrightarrow>
    qstep S i (upd_State (\<lambda>s. s\<lparr>st_RoundChangeContainer := c\<rparr>) i)"
| bump: "round_of i < r \<Longrightarrow>
    qstep S i (upd_State (\<lambda>s. s\<lparr>st_ProposalAcceptedForCurrentRound := None, st_Round := r\<rparr>) i)"
| arm: "IsRelevant i \<Longrightarrow> TimeoutForRound (i_roundTimer i) now (round_of i) = (Ok t :: (qbft_err, RoundTimer) res) \<Longrightarrow>
    qstep S i (i\<lparr>i_roundTimer := t\<rparr>)"
| accept: "IsRelevant i \<Longrightarrow> accepted i = None \<Longrightarrow> m_Round (qmsg msg) = round_of i \<Longrightarrow>
    isValidProposal S i0 msg = Ok () \<Longrightarrow> same_setup i0 i \<Longrightarrow>
    qstep S i (upd_State (\<lambda>s. s\<lparr>st_ProposalAcceptedForCurrentRound := Some msg\<rparr>) i)"
| prepared: "IsRelevant i \<Longrightarrow> accepted i = Some p \<Longrightarrow>
    HasQuorum S (st_CommitteeMember (i_State i)) (MessagesForRound S (st_PrepareContainer (i_State i)) (round_of i)) \<Longrightarrow>
    qstep S i (upd_State (\<lambda>s. s\<lparr>st_LastPreparedValue := full_data p, st_LastPreparedRound := st_Round s\<rparr>) i)"
| send: "IsRelevant i \<Longrightarrow> own_message S i sm \<Longrightarrow>
    qstep S i (i\<lparr>i_outbox := i_outbox i @ [(sm, st_Height (i_State i))]\<rparr>)"
| decide: "IsRelevant i \<Longrightarrow> \<not> st_Decided (i_State i) \<Longrightarrow> accepted i = Some p \<Longrightarrow>
    LongestUniqueSignersForRoundAndRoot S (st_CommitContainer (i_State i)) (round_of i) (m_Root (qmsg p)) = (ids, msgs) \<Longrightarrow>
    MemberHasQuorum S (st_CommitteeMember (i_State i)) (length ids) \<Longrightarrow>
    MarkDecided i (round_of i) (full_data p) = (Ok (), i') \<Longrightarrow> qstep S i i'"

abbreviation qsteps :: "'c specqbft \<Rightarrow> 'c Instance \<Rightarrow> 'c Instance \<Rightarrow> bool" where
  "qsteps S \<equiv> (qstep S)\<^sup>*\<^sup>*"

section \<open>Handlers are sequences of protocol steps\<close>

lemma qsteps_bind_st:
  assumes "qsteps S i (snd m)" "\<And>x. fst m = Ok x \<Longrightarrow> qsteps S (snd m) (snd (f x (snd m)))"
  shows "qsteps S i (snd (bind_st m f))"
proof (cases "fst m")
  case (Ok x)
  then show ?thesis
    using assms by (simp add: snd_bind_st rtranclp_trans)
qed (use assms(1) in \<open>simp_all add: snd_bind_st\<close>)

lemma same_setup_refl [simp]: "same_setup i i"
  by (simp add: same_setup_def)

lemma same_setup_trans: "same_setup i j \<Longrightarrow> same_setup j k \<Longrightarrow> same_setup i k"
  by (simp add: same_setup_def)

lemma upd_State_simps [simp]:
  "i_State (upd_State f i) = f (i_State i)" "i_config (upd_State f i) = i_config i"
  "i_StartValue (upd_State f i) = i_StartValue i" "i_ValueChecker (upd_State f i) = i_ValueChecker i"
  "i_roundTimer (upd_State f i) = i_roundTimer i" "i_outbox (upd_State f i) = i_outbox i"
  "i_markedIrrelevant (upd_State f i) = i_markedIrrelevant i"
  by (simp_all add: upd_State_def)

lemma MarkDecided_Ok:
  "MarkDecided i r v = (Ok (), i') \<Longrightarrow>
     \<not> st_Decided (i_State i) \<and>
     i' = (upd_State (\<lambda>s. s\<lparr>st_Decided := True, st_Round := r, st_DecidedValue := v\<rparr>) i)
            \<lparr>i_roundTimer := Stop (i_roundTimer i)\<rparr>"
  by (auto simp: MarkDecided_def split: if_splits)

lemma qstep_same_setup: "qstep S i j \<Longrightarrow> same_setup i j"
  by (induction rule: qstep.induct) (auto simp: same_setup_def dest!: MarkDecided_Ok)

lemma qsteps_same_setup: "qsteps S i j \<Longrightarrow> same_setup i j"
  by (induction rule: rtranclp_induct) (auto intro: same_setup_trans qstep_same_setup)

lemma bumpToRound_qsteps: "qsteps S i (snd (bumpToRound E i r))"
proof (cases "round_of i < r")
  case True
  let ?i = "upd_State (\<lambda>s. s\<lparr>st_ProposalAcceptedForCurrentRound := None, st_Round := r\<rparr>) i"
  have "qstep S i ?i"
    using True by (rule qstep.bump)
  moreover have "qsteps S ?i (?i\<lparr>i_roundTimer := t\<rparr>)"
    if "IsRelevant ?i" "TimeoutForRound (i_roundTimer ?i) (e_now E) r = (Ok t :: (qbft_err, RoundTimer) res)" for t
    using qstep.arm [of ?i "e_now E" t S] that by simp
  ultimately show ?thesis
    using True by (auto simp: bumpToRound_def Let_def snd_bind_st split: res.splits
        intro: converse_rtranclp_into_rtranclp)
qed (simp add: bumpToRound_def)

lemma bumpToRound_Ok:
  assumes "fst (bumpToRound E i r) = Ok u"
  shows "round_of (snd (bumpToRound E i r)) = max (round_of i) r"
    and "accepted (snd (bumpToRound E i r)) = (if round_of i < r then None else accepted i)"
    and "st_RoundChangeContainer (i_State (snd (bumpToRound E i r))) = st_RoundChangeContainer (i_State i)"
  using assms by (auto simp: bumpToRound_def Let_def bind_st_eq split: res.splits if_splits)

lemma Broadcast_qsteps: "own_message S i sm \<Longrightarrow> qsteps S i (snd (Broadcast E i sm))"
  by (auto simp: Broadcast_def intro: qstep.send)

lemma isValidProposal_round:
  assumes "isValidProposal S i msg = Ok ()"
  shows "accepted i = None \<and> m_Round (qmsg msg) = round_of i \<or> round_of i < m_Round (qmsg msg)"
  using assms by (auto simp: isValidProposal_def res_dest)

lemma uponProposal_qsteps:
  assumes valid: "isValidProposal S i msg = Ok ()"
  shows "qsteps S i (snd (uponProposal S E i msg))"
proof (cases "AddFirstMsgForSignerAndRound S (st_ProposeContainer (i_State i)) msg")
  case (Inl e)
  then show ?thesis
    by (simp add: uponProposal_def)
next
  case (Inr bc)
  then obtain b c where add: "AddFirstMsgForSignerAndRound S (st_ProposeContainer (i_State i)) msg = Inr (b, c)"
    by (cases bc) auto
  define i1 where "i1 = upd_State (\<lambda>s. s\<lparr>st_ProposeContainer := c\<rparr>) i"
  define j where "j = snd (bumpToRound E i1 (m_Round (qmsg msg)))"
  define k where "k = upd_State (\<lambda>s. s\<lparr>st_ProposalAcceptedForCurrentRound := Some msg\<rparr>) j"
  have store: "qsteps S i i1"
    using qstep.store_proposal [OF valid add] by (auto simp: i1_def)
  have bump: "qsteps S i1 j"
    unfolding j_def by (rule bumpToRound_qsteps)
  have eq: "same_setup i j"
    using rtranclp_trans [OF store bump] by (rule qsteps_same_setup)
  have acc: "qsteps S j k" if "fst (bumpToRound E i1 (m_Round (qmsg msg))) = Ok ()" "IsRelevant j"
    unfolding k_def
    using bumpToRound_Ok [OF that(1), folded j_def] isValidProposal_round [OF valid] that(2) eq valid
    by (intro r_into_rtranclp qstep.accept [where ?i0.0 = i]) (auto simp: i1_def)
  have sent: "qsteps S k (snd (Broadcast E k prepare))"
    if "CreatePrepare S E k (m_Round (qmsg msg)) (HashDataRoot S (full_data msg)) = Ok prepare" for prepare
    using that by (intro Broadcast_qsteps own_message.prepare [where p = msg]) (auto simp: k_def)
  have "qsteps S i1 (snd (uponProposal S E i msg))"
    using bump acc sent
    by (auto simp: uponProposal_def add Let_def intro!: qsteps_bind_st simp flip: i1_def j_def k_def
        intro: rtranclp_trans)
  with store show ?thesis
    by (rule rtranclp_trans)
qed

lemma uponPrepare_qsteps:
  assumes rel: "IsRelevant i" and p: "accepted i = Some p"
    and valid: "validSignedPrepareForHeightRoundAndRootIgnoreSignature S i msg (round_of i) (m_Root (qmsg p)) = Ok ()"
  shows "qsteps S i (snd (uponPrepare S E i msg))"
proof (cases "AddFirstMsgForSignerAndRound S (st_PrepareContainer (i_State i)) msg")
  case (Inl e)
  then show ?thesis
    by (simp add: uponPrepare_def p)
next
  case (Inr bc)
  then obtain b c where add: "AddFirstMsgForSignerAndRound S (st_PrepareContainer (i_State i)) msg = Inr (b, c)"
    by (cases bc) auto
  define j where "j = upd_State (\<lambda>s. s\<lparr>st_PrepareContainer := c\<rparr>) i"
  define k where "k = upd_State (\<lambda>s. s\<lparr>st_LastPreparedValue := full_data p, st_LastPreparedRound := st_Round s\<rparr>) j"
  have store: "qsteps S i j"
    using qstep.store_prepare [OF p valid add] by (auto simp: j_def)
  have prep: "qsteps S j k"
    if "HasQuorum S (st_CommitteeMember (i_State i)) (MessagesForRound S c (round_of i))"
    unfolding k_def using that rel p
    by (intro r_into_rtranclp qstep.prepared) (auto simp: j_def IsRelevant_def)
  have sent: "qsteps S k (snd (Broadcast E k commit))"
    if "CreateCommit S E k (m_Root (qmsg p)) = Ok commit" for commit
    using that p by (intro Broadcast_qsteps own_message.commit [where p = p]) (auto simp: k_def j_def)
  have "qsteps S j (snd (uponPrepare S E i msg))"
    using prep sent
    by (auto simp: uponPrepare_def p add Let_def intro!: qsteps_bind_st simp flip: j_def k_def
        intro: rtranclp_trans)
      (auto simp: j_def)
  with store show ?thesis
    by (rule rtranclp_trans)
qed

lemma validateCommit_Ok:
  assumes "validateCommit S i msg = Ok ()" "accepted i = Some p"
  shows "m_Round (qmsg msg) = round_of i" "m_Root (qmsg msg) = m_Root (qmsg p)"
  using assms by (auto simp: validateCommit_def res_dest)

text \<open>The two outcomes of a commit message: it is stored, or it is stored and completes a quorum.\<close>

lemma uponCommit_cases:
  assumes valid: "validateCommit S i msg = Ok ()" and p: "accepted i = Some p"
  obtains (failed) "snd (uponCommit S i msg) = i" "\<nexists>d. fst (uponCommit S i msg) = Ok d"
  | (stored) b c where
      "AddFirstMsgForSignerAndRound S (st_CommitContainer (i_State i)) msg = Inr (b, c)"
      "snd (uponCommit S i msg) = upd_State (\<lambda>s. s\<lparr>st_CommitContainer := c\<rparr>) i"
      "\<And>d. fst (uponCommit S i msg) = Ok d \<Longrightarrow> d = (False, None, None)"
  | (quorum) c ids msgs agg where
      "AddFirstMsgForSignerAndRound S (st_CommitContainer (i_State i)) msg = Inr (True, c)"
      "LongestUniqueSignersForRoundAndRoot S c (round_of i) (m_Root (qmsg p)) = (ids, msgs)"
      "MemberHasQuorum S (st_CommitteeMember (i_State i)) (length ids)"
      "aggregateCommitMsgs S msgs (full_data p) = Ok agg"
      "uponCommit S i msg = (Ok (True, full_data p, Some agg), upd_State (\<lambda>s. s\<lparr>st_CommitContainer := c\<rparr>) i)"
proof (cases "AddFirstMsgForSignerAndRound S (st_CommitContainer (i_State i)) msg")
  case (Inl e)
  then show ?thesis
    using failed by (simp add: uponCommit_def)
next
  case (Inr bc)
  then obtain b c where add: "AddFirstMsgForSignerAndRound S (st_CommitContainer (i_State i)) msg = Inr (b, c)"
    by (cases bc) auto
  obtain ids msgs where l: "LongestUniqueSignersForRoundAndRoot S c (round_of i) (m_Root (qmsg p)) = (ids, msgs)"
    by fastforce
  note [simp] = validateCommit_Ok [OF valid p] add p l
  show ?thesis
  proof (cases "b \<and> \<not> fst (commitQuorumForRoundRoot S i (m_Root (qmsg p)) (round_of i))
                 \<and> MemberHasQuorum S (st_CommitteeMember (i_State i)) (length ids)")
    case False
    then have "uponCommit S i msg = (Ok (False, None, None), upd_State (\<lambda>s. s\<lparr>st_CommitContainer := c\<rparr>) i)"
      by (auto simp: uponCommit_def commitQuorumForRoundRoot_def Let_def split: prod.splits)
    then show ?thesis
      by (intro stored [of b c]) simp_all
  next
    case True
    then have eq: "uponCommit S i msg =
        bind_st (map_err (Wrap ''could not aggregate commit msgs'') (aggregateCommitMsgs S msgs (full_data p)),
                 upd_State (\<lambda>s. s\<lparr>st_CommitContainer := c\<rparr>) i)
          (\<lambda>agg i. (Ok (True, full_data p, Some agg), i))"
      by (auto simp: uponCommit_def commitQuorumForRoundRoot_def Let_def split: prod.splits)
    show ?thesis
    proof (cases "aggregateCommitMsgs S msgs (full_data p)")
      case (Ok agg)
      then show ?thesis
        using True by (intro quorum [of c ids msgs agg]) (simp_all add: eq)
    qed (auto simp: eq intro!: stored [of b c])
  qed
qed

lemma commit_branch_qsteps:
  assumes rel: "IsRelevant i" and p: "accepted i = Some p" and valid: "validateCommit S i msg = Ok ()"
  shows "qsteps S i (snd (bind_st (uponCommit S i msg) (\<lambda>(decided, decidedValue, aggregatedCommit) i.
              if decided
              then bind_st (map_err_st (Wrap ''mark as decided'') (MarkDecided i (m_Round (qmsg msg)) decidedValue))
                     (\<lambda>_ i. (Ok (decided, decidedValue, aggregatedCommit), i))
              else (Ok (decided, decidedValue, aggregatedCommit), i))))"
proof (cases rule: uponCommit_cases [OF valid p, case_names failed stored quorum])
  case failed
  then show ?thesis
    by (auto simp: snd_bind_st split: res.splits)
next
  case (stored b c)
  then have "qsteps S i (snd (uponCommit S i msg))"
    using qstep.store_commit [OF p valid stored(1)] by auto
  then show ?thesis
    using stored(3) by (auto intro!: qsteps_bind_st)
next
  case (quorum c ids msgs agg)
  define j where "j = upd_State (\<lambda>s. s\<lparr>st_CommitContainer := c\<rparr>) i"
  have store: "qsteps S i j"
    using qstep.store_commit [OF p valid quorum(1)] by (auto simp: j_def)
  have "qsteps S j (snd (MarkDecided j (round_of i) (full_data p)))"
  proof (cases "st_Decided (i_State j)")
    case False
    then obtain k where k: "MarkDecided j (round_of i) (full_data p) = (Ok (), k)"
      by (simp add: MarkDecided_def)
    have "qstep S j k"
      using rel p False quorum(2,3) k
      by (intro qstep.decide [where p = p]) (auto simp: j_def IsRelevant_def)
    then show ?thesis
      by (simp add: k)
  qed (simp add: MarkDecided_def)
  then show ?thesis
    using store quorum(5) validateCommit_Ok [OF valid p]
    by (auto simp: j_def [symmetric] snd_bind_st split: res.splits intro: rtranclp_trans)
qed

lemma CreateRoundChange_qsteps:
  "round_of i = r \<Longrightarrow> qsteps S i (snd (if \<not> IsRelevant i then (Ok (), i)
       else bind_st (map_err f (CreateRoundChange S E i r), i)
              (\<lambda>roundChange i. map_err_st g (Broadcast E i roundChange))))"
  by (auto intro!: qsteps_bind_st Broadcast_qsteps own_message.round_change)

lemma less_add_one_u64:
  fixes w :: u64
  assumes "w < v"
  shows "w < w + 1"
proof -
  have "unat w < unat v" "unat v < 2 ^ 64"
    using assms unsigned_less [of v, where 'a = nat] by (simp_all add: word_less_nat_alt)
  then have "unat w + 1 < 2 ^ 64"
    by linarith
  then show ?thesis
    using unat_add_small [of w 1] by (simp add: word_less_nat_alt)
qed

lemma bump_and_change_qsteps:
  assumes "round_of i < r"
  shows "qsteps S i (snd (bind_st (bumpToRound E i r) (\<lambda>_ i.
           if \<not> IsRelevant i then (Ok (), i)
           else bind_st (map_err f (CreateRoundChange S E i r), i)
                  (\<lambda>roundChange i. map_err_st g (Broadcast E i roundChange)))))"
proof (rule qsteps_bind_st [OF bumpToRound_qsteps])
  fix u
  assume "fst (bumpToRound E i r) = Ok u"
  then have "round_of (snd (bumpToRound E i r)) = r"
    using assms by (simp add: bumpToRound_Ok)
  then show "qsteps S (snd (bumpToRound E i r))
      (snd (if \<not> IsRelevant (snd (bumpToRound E i r)) then (Ok (), snd (bumpToRound E i r))
           else bind_st (map_err f (CreateRoundChange S E (snd (bumpToRound E i r)) r), snd (bumpToRound E i r))
                  (\<lambda>roundChange i. map_err_st g (Broadcast E i roundChange))))"
    by (rule CreateRoundChange_qsteps)
qed

lemma UponRoundTimeout_qsteps: "qsteps S i (snd (UponRoundTimeout S E i))"
proof (cases "IsRelevant i")
  case True
  then have "round_of i < round_of i + 1"
    unfolding IsRelevant_def by (blast intro: less_add_one_u64)
  then show ?thesis
    using True bump_and_change_qsteps by (simp add: UponRoundTimeout_def Let_def)
qed (simp add: UponRoundTimeout_def)

lemma uponChangeRoundPartialQuorum_qsteps:
  "round_of i < newRound \<Longrightarrow> qsteps S i (snd (uponChangeRoundPartialQuorum S E i newRound))"
  using bump_and_change_qsteps by (simp add: uponChangeRoundPartialQuorum_def)

lemma leadingRound_loop_Some:
  assumes "leadingRound_loop S i rcs round ms = Ok (Some (rc, v))"
  shows "rc \<in> set ms \<and> (\<exists>js. processingMessages S ''could not create ProcessingMessage from round change justification''
            (GetRoundChangeJustifications S (qmsg rc)) = Ok js
          \<and> isProposalJustificationForLeadingRound S i rc rcs js v round = Ok ())"
  using assms
proof (induction ms)
  case (Cons m ms)
  define w where "w = (if RoundChangePrepared S (qmsg m) then full_data m else i_StartValue i)"
  obtain js where js: "processingMessages S ''could not create ProcessingMessage from round change justification''
      (GetRoundChangeJustifications S (qmsg m)) = Ok js"
    using Cons.prems by (auto simp: Let_def bind_res_Ok_iff)
  show ?case
    using Cons js by (cases "isProposalJustificationForLeadingRound S i m rcs js w round")
      (auto simp: Let_def simp flip: w_def)
qed simp

lemma uponRoundChange_qsteps:
  assumes valid: "validRoundChangeForDataIgnoreSignature S i msg (m_Round (qmsg msg)) (full_data msg) = Ok ()"
  shows "qsteps S i (snd (uponRoundChange S E i msg))"
proof (cases "AddFirstMsgForSignerAndRound S (st_RoundChangeContainer (i_State i)) msg")
  case (Inl e)
  then show ?thesis
    by (simp add: uponRoundChange_def)
next
  case (Inr bc)
  then obtain b c where add: "AddFirstMsgForSignerAndRound S (st_RoundChangeContainer (i_State i)) msg = Inr (b, c)"
    by (cases bc) auto
  define j where "j = upd_State (\<lambda>s. s\<lparr>st_RoundChangeContainer := c\<rparr>) i"
  have store: "qsteps S i j"
    using qstep.store_round_change [OF valid add] by (auto simp: j_def)
  have sent: "qsteps S k (snd (Broadcast E k proposal))"
    if "hasReceivedProposalJustificationForLeadingRound S j msg = Ok (Some (rc, v))"
      and k: "fst (bumpToRound E j (m_Round (qmsg rc))) = Ok u" "k = snd (bumpToRound E j (m_Round (qmsg rc)))"
      and "processingMessages S ''could not create ProcessingMessage from round change justification''
             (GetRoundChangeJustifications S (qmsg rc)) = Ok js"
      and "CreateProposal S E k v (MessagesForRound S (st_RoundChangeContainer (i_State k)) (round_of k)) js
             = Ok proposal"
    for rc v u k js proposal
  proof -
    have "rc \<in> set (MessagesForRound S c (m_Round (qmsg msg)))"
      and "isProposalJustificationForLeadingRound S j rc (MessagesForRound S c (m_Round (qmsg msg))) js v
             (m_Round (qmsg msg)) = Ok ()"
      using that(1,4) leadingRound_loop_Some [of S j]
      by (fastforce simp: hasReceivedProposalJustificationForLeadingRound_def j_def Let_def split: if_splits)+
    moreover have "same_setup j k"
      unfolding k(2) by (rule qsteps_same_setup [OF bumpToRound_qsteps])
    moreover have "st_RoundChangeContainer (i_State k) = c" "m_Round (qmsg rc) \<le> round_of k"
      using bumpToRound_Ok [OF k(1), folded k(2)] by (simp_all add: j_def)
    ultimately show ?thesis
      using that(5) by (intro Broadcast_qsteps own_message.proposal) auto
  qed
  have "qsteps S j (snd (uponRoundChange S E i msg))"
    using sent
    by (auto simp: uponRoundChange_def add Let_def not_le simp flip: j_def intro!: qsteps_bind_st
        bumpToRound_qsteps uponChangeRoundPartialQuorum_qsteps split: option.splits prod.splits)
  with store show ?thesis
    by (rule rtranclp_trans)
qed

lemma BaseMsgValidation_Ok:
  assumes "BaseMsgValidation S i msg = Ok ()"
  obtains "m_MsgType (qmsg msg) = ProposalMsgType" "isValidProposal S i msg = Ok ()"
  | p where "m_MsgType (qmsg msg) = PrepareMsgType" "accepted i = Some p"
      "validSignedPrepareForHeightRoundAndRootIgnoreSignature S i msg (round_of i) (m_Root (qmsg p)) = Ok ()"
  | p where "m_MsgType (qmsg msg) = CommitMsgType" "accepted i = Some p" "validateCommit S i msg = Ok ()"
  | "m_MsgType (qmsg msg) = RoundChangeMsgType"
      "validRoundChangeForDataIgnoreSignature S i msg (m_Round (qmsg msg)) (full_data msg) = Ok ()"
  using assms by (auto simp: BaseMsgValidation_def res_dest Let_def split: MessageType.splits option.splits)

lemma ProcessMsg_qsteps: "qsteps S i (snd (ProcessMsg S E i msg))"
proof (cases "IsRelevant i \<and> BaseMsgValidation S i msg = Ok ()")
  case False
  then show ?thesis
    by (cases "BaseMsgValidation S i msg") (auto simp: ProcessMsg_def)
next
  case True
  then have rel: "IsRelevant i" and "BaseMsgValidation S i msg = Ok ()"
    by auto
  from this(2) show ?thesis
  proof (cases rule: BaseMsgValidation_Ok)
    case 1
    then show ?thesis
      using rel True by (auto simp: ProcessMsg_def intro!: qsteps_bind_st uponProposal_qsteps)
  next
    case (2 p)
    then show ?thesis
      using rel True by (auto simp: ProcessMsg_def intro!: qsteps_bind_st uponPrepare_qsteps)
  next
    case (3 p)
    then show ?thesis
      using True commit_branch_qsteps [OF rel 3(2,3)] by (simp add: ProcessMsg_def)
  next
    case 4
    then show ?thesis
      using rel True by (auto simp: ProcessMsg_def intro!: qsteps_bind_st uponRoundChange_qsteps)
  qed
qed

section \<open>Runs of an instance\<close>

text \<open>
  The life of an instance: it is created, started once, and then handles messages and timeouts in
  any order. The controller may mark it irrelevant, or decided when a decided message with a
  quorum of signatures arrives.
\<close>

datatype input = Deliver env ProcessingMessage | Timeout env | Irrelevant | Adopt Round "bytes option"

fun handle :: "'c specqbft \<Rightarrow> 'c Instance \<Rightarrow> input \<Rightarrow> 'c Instance" where
  "handle S i (Deliver E msg) = snd (ProcessMsg S E i msg)"
| "handle S i (Timeout E) = snd (UponRoundTimeout S E i)"
| "handle S i Irrelevant = MarkIrrelevant i"
| "handle S i (Adopt round value) = snd (MarkDecided i round value)"

definition run :: "'c specqbft \<Rightarrow> 'c Instance \<Rightarrow> input list \<Rightarrow> 'c Instance" where
  "run S i inputs = foldl (handle S) i inputs"

end
