(* ===== verification/Qbft_Safety.thy ===== *)
theory Qbft_Safety
  imports Qbft_Refinement
begin

text \<open>
  Safety of one QBFT instance: the invariant of its runs and the properties that follow from it.
\<close>

section \<open>What is used of the specification package\<close>

text \<open>
  The documented behaviour of the message container: a new container is empty, adding a message
  appends it to its round unless it is refused, and the longest list of unique signers is taken
  from the stored messages of the round and root.
\<close>

definition container_laws :: "'c specqbft \<Rightarrow> bool" where
  "container_laws S \<longleftrightarrow>
     (\<forall>r. MessagesForRound S (NewMsgContainer S) r = []) \<and>
     (\<forall>c m b c' r. AddFirstMsgForSignerAndRound S c m = Inr (b, c') \<longrightarrow>
        MessagesForRound S c' r = MessagesForRound S c r @ (if b \<and> r = m_Round (qmsg m) then [m] else [])) \<and>
     (\<forall>c r root ids ms. LongestUniqueSignersForRoundAndRoot S c r root = (ids, ms) \<longrightarrow>
        distinct ids \<and> set ids = (\<Union>m \<in> set ms. set (signers m)) \<and>
        set ms \<subseteq> {m \<in> set (MessagesForRound S c r). m_Root (qmsg m) = root})"

text \<open>
  A quorum is a positive number of distinct signers, so more messages old it, and round numbers start above
  the number that stands for no round.
\<close>

definition quorum_laws :: "'c specqbft \<Rightarrow> bool" where
  "quorum_laws S \<longleftrightarrow>
     (\<forall>cm ms ms'. HasQuorum S cm ms \<longrightarrow> set ms \<subseteq> set ms' \<longrightarrow> HasQuorum S cm ms') \<and>
     (\<forall>cm. \<not> HasQuorum S cm []) \<and> NoRound S < FirstRound S"

lemma container_lawsD:
  assumes "container_laws S"
  shows "MessagesForRound S (NewMsgContainer S) r = []"
    and "AddFirstMsgForSignerAndRound S c m = Inr (b, c') \<Longrightarrow>
      MessagesForRound S c' r = MessagesForRound S c r @ (if b \<and> r = m_Round (qmsg m) then [m] else [])"
    and "LongestUniqueSignersForRoundAndRoot S c r root = (ids, ms) \<Longrightarrow>
      distinct ids \<and> set ids = (\<Union>m \<in> set ms. set (signers m)) \<and>
      set ms \<subseteq> {m \<in> set (MessagesForRound S c r). m_Root (qmsg m) = root}"
  using assms unfolding container_laws_def by blast+

section \<open>The invariant\<close>

abbreviation prepares :: "'c specqbft \<Rightarrow> 'c Instance \<Rightarrow> Round \<Rightarrow> ProcessingMessage list" where
  "prepares S i r \<equiv> MessagesForRound S (st_PrepareContainer (i_State i)) r"

abbreviation commits :: "'c specqbft \<Rightarrow> 'c Instance \<Rightarrow> Round \<Rightarrow> ProcessingMessage list" where
  "commits S i r \<equiv> MessagesForRound S (st_CommitContainer (i_State i)) r"

definition proposal_inv :: "'c specqbft \<Rightarrow> 'c Instance \<Rightarrow> bool" where
  "proposal_inv S i \<longleftrightarrow> FirstRound S \<le> round_of i \<and>
     (\<forall>p. accepted i = Some p \<longrightarrow>
        m_Round (qmsg p) = round_of i \<and> (\<exists>i0. same_setup i0 i \<and> isValidProposal S i0 p = Ok ()))"

text \<open>A vote is stored for the accepted proposal only, so a round has votes for one root.\<close>

definition votes_inv :: "'c Instance \<Rightarrow> (Round \<Rightarrow> ProcessingMessage list) \<Rightarrow> bool" where
  "votes_inv i ms \<longleftrightarrow>
     (\<forall>r. \<forall>m \<in> set (ms r). m_Round (qmsg m) = r \<and> r \<le> round_of i) \<and>
     (\<forall>m \<in> set (ms (round_of i)). \<exists>p. accepted i = Some p \<and> m_Root (qmsg m) = m_Root (qmsg p)) \<and>
     (\<forall>r. \<exists>root. \<forall>m \<in> set (ms r). m_Root (qmsg m) = root)"

definition valid_prepare :: "'c specqbft \<Rightarrow> 'c Instance \<Rightarrow> ProcessingMessage \<Rightarrow> bool" where
  "valid_prepare S i m \<longleftrightarrow>
     validSignedPrepareForHeightRoundAndRootIgnoreSignature S i m (m_Round (qmsg m)) (m_Root (qmsg m)) = Ok ()"

definition valid_commit :: "'c specqbft \<Rightarrow> 'c Instance \<Rightarrow> ProcessingMessage \<Rightarrow> bool" where
  "valid_commit S i m \<longleftrightarrow> length (signers m) = 1 \<and>
     baseCommitValidationIgnoreSignature S m (st_Height (i_State i))
       (cm_Committee (st_CommitteeMember (i_State i))) = Ok ()"

definition prepared_inv :: "'c specqbft \<Rightarrow> 'c Instance \<Rightarrow> bool" where
  "prepared_inv S i \<longleftrightarrow>
     (let r = st_LastPreparedRound (i_State i)
      in r \<le> round_of i \<and>
         (st_LastPreparedValue (i_State i) \<noteq> None \<longrightarrow>
            FirstRound S \<le> r \<and> HasQuorum S (st_CommitteeMember (i_State i)) (prepares S i r)
            \<and> (\<forall>m \<in> set (prepares S i r). m_Root (qmsg m) = HashDataRoot S (st_LastPreparedValue (i_State i)))))"

definition inst_inv :: "'c specqbft \<Rightarrow> 'c Instance \<Rightarrow> bool" where
  "inst_inv S i \<longleftrightarrow> proposal_inv S i \<and> votes_inv i (prepares S i) \<and> votes_inv i (commits S i)
     \<and> (\<forall>r m. m \<in> set (prepares S i r) \<longrightarrow> valid_prepare S i m)
     \<and> (\<forall>r m. m \<in> set (commits S i r) \<longrightarrow> valid_commit S i m)
     \<and> prepared_inv S i"

lemma valid_prepare_setup: "same_setup i j \<Longrightarrow> valid_prepare S i m = valid_prepare S j m"
  by (simp add: valid_prepare_def validSignedPrepareForHeightRoundAndRootIgnoreSignature_def same_setup_def)

lemma valid_commit_setup: "same_setup i j \<Longrightarrow> valid_commit S i m = valid_commit S j m"
  by (simp add: valid_commit_def same_setup_def)

lemma isValidProposal_root:
  "isValidProposal S i p = Ok () \<Longrightarrow> m_Root (qmsg p) = HashDataRoot S (full_data p)"
  by (auto simp: isValidProposal_def res_dest)

lemma votes_inv_add:
  assumes inv: "votes_inv i ms" and p: "accepted i = Some p"
    and m: "m_Round (qmsg m) = round_of i" "m_Root (qmsg m) = m_Root (qmsg p)"
    and add: "\<And>r. ms' r = ms r @ (if b \<and> r = m_Round (qmsg m) then [m] else [])"
    and eq: "accepted j = accepted i" "round_of j = round_of i"
  shows "votes_inv j ms'"
proof -
  have sub: "set (ms' r) \<subseteq> set (ms r) \<union> (if r = round_of i then {m} else {})" for r
    by (auto simp: add m(1))
  have here: "m_Root (qmsg m') = m_Root (qmsg p)" if "m' \<in> set (ms' (round_of i))" for m'
    using that sub [of "round_of i"] inv p m(2) by (auto simp: votes_inv_def)
  have "\<exists>root. \<forall>m' \<in> set (ms' r). m_Root (qmsg m') = root" for r
  proof (cases "r = round_of i")
    case False
    then have "ms' r = ms r"
      by (simp add: add m(1))
    then show ?thesis
      using inv by (simp add: votes_inv_def)
  qed (use here in blast)
  moreover have "m_Round (qmsg m') = r \<and> r \<le> round_of i" if "m' \<in> set (ms' r)" for r m'
    using that sub [of r] inv m(1) by (fastforce simp: votes_inv_def split: if_splits)
  ultimately show ?thesis
    using here p eq by (simp add: votes_inv_def)
qed

lemma votes_inv_bump:
  assumes "votes_inv i ms" "round_of i < round_of j"
  shows "votes_inv j ms"
proof -
  have past: "m_Round (qmsg m) = r \<and> r \<le> round_of i" if "m \<in> set (ms r)" for r m
    using that assms(1) by (simp add: votes_inv_def)
  then have "ms (round_of j) = []"
    using assms(2) by (metis leD list.set_intros(1) neq_Nil_conv)
  then show ?thesis
    using past assms unfolding votes_inv_def by (fastforce intro: order.strict_implies_order order.trans)
qed

lemma votes_inv_accept:
  assumes "votes_inv i ms" "accepted i = None" "round_of j = round_of i"
  shows "votes_inv j ms"
  using assms unfolding votes_inv_def by fastforce

lemma votes_inv_same:
  "votes_inv i ms \<Longrightarrow> accepted j = accepted i \<Longrightarrow> round_of j = round_of i \<Longrightarrow> votes_inv j ms"
  by (simp add: votes_inv_def)

section \<open>Every protocol step keeps the invariant\<close>

lemma qstep_proposal_inv:
  assumes "qstep S i j" "proposal_inv S i"
  shows "proposal_inv S j"
  using assms
proof (induction rule: qstep.induct)
  case (accept i msg i0)
  then show ?case
    by (auto simp: proposal_inv_def same_setup_def)
next
  case (decide i p ids msgs i')
  then show ?case
    by (auto simp: proposal_inv_def same_setup_def dest!: MarkDecided_Ok)
qed (auto simp: proposal_inv_def same_setup_def)

lemma qstep_prepares_inv:
  assumes laws: "container_laws S" and "qstep S i j" "votes_inv i (prepares S i)"
  shows "votes_inv j (prepares S j)"
  using assms(2,3)
proof (induction rule: qstep.induct)
  case (store_prepare i p msg b c)
  then show ?case
    by (intro votes_inv_add [where p = p and b = b and m = msg, OF store_prepare.prems])
      (auto simp: container_lawsD(2) [OF laws]
        validSignedPrepareForHeightRoundAndRootIgnoreSignature_def res_dest)
next
  case (bump i r)
  then show ?case
    by (auto intro: votes_inv_bump [OF bump.prems])
next
  case (accept i msg i0)
  then show ?case
    by (auto intro: votes_inv_accept [OF accept.prems])
next
  case (decide i p ids msgs i')
  then show ?case
    by (auto dest!: MarkDecided_Ok intro: votes_inv_same)
qed (auto intro: votes_inv_same)

lemma qstep_commits_inv:
  assumes laws: "container_laws S" and "qstep S i j" "votes_inv i (commits S i)"
  shows "votes_inv j (commits S j)"
  using assms(2,3)
proof (induction rule: qstep.induct)
  case (store_commit i p msg b c)
  then show ?case
    using validateCommit_Ok [OF store_commit.hyps(2,1)]
    by (intro votes_inv_add [where p = p and b = b and m = msg, OF store_commit.prems])
      (auto simp: container_lawsD(2) [OF laws])
next
  case (bump i r)
  then show ?case
    by (auto intro: votes_inv_bump [OF bump.prems])
next
  case (accept i msg i0)
  then show ?case
    by (auto intro: votes_inv_accept [OF accept.prems])
next
  case (decide i p ids msgs i')
  then show ?case
    by (auto dest!: MarkDecided_Ok intro: votes_inv_same)
qed (auto intro: votes_inv_same)

lemma qstep_valid_prepares:
  assumes laws: "container_laws S" and step: "qstep S i j" and "\<And>r m. m \<in> set (prepares S i r) \<Longrightarrow> valid_prepare S i m"
  shows "m \<in> set (prepares S j r) \<Longrightarrow> valid_prepare S j m"
  unfolding valid_prepare_setup [OF qstep_same_setup [OF step], symmetric]
  using step assms(3)
proof (induction rule: qstep.induct)
  case (store_prepare i p msg b c)
  then show ?case
    by (auto simp: container_lawsD(2) [OF laws] valid_prepare_def
        validSignedPrepareForHeightRoundAndRootIgnoreSignature_def res_dest split: if_splits)
qed (auto dest!: MarkDecided_Ok)

lemma qstep_valid_commits:
  assumes laws: "container_laws S" and step: "qstep S i j" and "\<And>r m. m \<in> set (commits S i r) \<Longrightarrow> valid_commit S i m"
  shows "m \<in> set (commits S j r) \<Longrightarrow> valid_commit S j m"
  unfolding valid_commit_setup [OF qstep_same_setup [OF step], symmetric]
  using step assms(3)
proof (induction rule: qstep.induct)
  case (store_commit i p msg b c)
  then show ?case
    by (auto simp: container_lawsD(2) [OF laws] valid_commit_def validateCommit_def res_dest split: if_splits)
qed (auto dest!: MarkDecided_Ok)

lemma qstep_prepared_inv:
  assumes laws: "container_laws S" "quorum_laws S" and step: "qstep S i j" and inv: "inst_inv S i"
  shows "prepared_inv S j"
  using step inv
proof (induction rule: qstep.induct)
  case (store_prepare i p msg b c)
  let ?r = "st_LastPreparedRound (i_State i)"
  have valid: "m_Round (qmsg msg) = round_of i" "m_Root (qmsg msg) = m_Root (qmsg p)"
    using store_prepare.hyps(2)
    by (auto simp: validSignedPrepareForHeightRoundAndRootIgnoreSignature_def res_dest)
  have c: "MessagesForRound S c ?r = prepares S i ?r @ (if b \<and> ?r = m_Round (qmsg msg) then [msg] else [])"
    by (rule container_lawsD(2) [OF laws(1) store_prepare.hyps(3)])
  have prep: "prepared_inv S i" and votes: "votes_inv i (prepares S i)"
    using store_prepare.prems by (auto simp: inst_inv_def)
  have "m_Root (qmsg p) = HashDataRoot S (st_LastPreparedValue (i_State i))"
    if "st_LastPreparedValue (i_State i) \<noteq> None" "?r = round_of i"
  proof -
    have "prepares S i ?r \<noteq> []"
      using prep that(1) laws(2) by (force simp: prepared_inv_def Let_def quorum_laws_def)
    then obtain m where "m \<in> set (prepares S i ?r)"
      by (meson last_in_set)
    then show ?thesis
      using prep votes that store_prepare.hyps(1) by (auto simp: prepared_inv_def Let_def votes_inv_def)
  qed
  moreover have "HasQuorum S cm (ms @ ms')" if "HasQuorum S cm ms" for cm ms ms'
    using laws(2) that unfolding quorum_laws_def by (metis Un_upper1 set_append)
  ultimately show ?case
    using prep valid by (auto simp: prepared_inv_def Let_def c split: if_splits)
next
  case (bump i r)
  then show ?case
    by (auto simp: inst_inv_def prepared_inv_def Let_def)
next
  case (prepared i p)
  then show ?case
    by (auto simp: inst_inv_def prepared_inv_def Let_def proposal_inv_def votes_inv_def dest!: isValidProposal_root)
next
  case (decide i p ids msgs i')
  then show ?case
    by (auto simp: inst_inv_def prepared_inv_def Let_def dest!: MarkDecided_Ok)
qed (auto simp: inst_inv_def prepared_inv_def Let_def)

lemma qstep_inst_inv:
  assumes "container_laws S" "quorum_laws S" "qstep S i j" "inst_inv S i"
  shows "inst_inv S j"
proof -
  have "proposal_inv S j"
    using assms by (auto simp: inst_inv_def intro: qstep_proposal_inv)
  moreover have "votes_inv j (prepares S j)"
    using assms by (intro qstep_prepares_inv [OF assms(1,3)]) (simp add: inst_inv_def)
  moreover have "votes_inv j (commits S j)"
    using assms by (intro qstep_commits_inv [OF assms(1,3)]) (simp add: inst_inv_def)
  moreover have "valid_prepare S j m" if "m \<in> set (prepares S j r)" for r m
    using that assms(4) by (intro qstep_valid_prepares [OF assms(1,3)]) (auto simp: inst_inv_def)
  moreover have "valid_commit S j m" if "m \<in> set (commits S j r)" for r m
    using that assms(4) by (intro qstep_valid_commits [OF assms(1,3)]) (auto simp: inst_inv_def)
  ultimately show ?thesis
    using qstep_prepared_inv [OF assms] by (simp add: inst_inv_def)
qed

lemma qsteps_inst_inv:
  assumes "container_laws S" "quorum_laws S" "qsteps S i j" "inst_inv S i"
  shows "inst_inv S j"
  using assms(3,4) by (induction rule: rtranclp_induct) (auto intro: qstep_inst_inv [OF assms(1,2)])

section \<open>Runs\<close>

text \<open>An instance as the controller starts it.\<close>

definition started :: "'c specqbft \<Rightarrow> 'c Instance \<Rightarrow> bool" where
  "started S i \<longleftrightarrow> (\<exists>E config cm ident h timerF v chk.
     Start S E (NewInstance S config cm ident h timerF) v chk = (Ok (), i))"

lemma started_qsteps:
  assumes "started S i"
  obtains i1 config cm ident h timerF where
    "i_State i1 = i_State (NewInstance S config cm ident h timerF)" "i_ValueChecker i1 \<noteq> None"
    "i_outbox i1 = []" "\<not> i_markedIrrelevant i1" "qsteps S i1 i"
proof -
  from assms obtain E config cm ident h timerF v chk where
    st: "Start S E (NewInstance S config cm ident h timerF) v chk = (Ok (), i)"
    by (auto simp: started_def)
  let ?n = "NewInstance S config cm ident h timerF"
  obtain k t where k: "ProposerForRound ?n (FirstRound S) = Ok k"
    and t: "TimeoutForRound (i_roundTimer ?n) (e_now E) (FirstRound S) = (Ok t :: (qbft_err, RoundTimer) res)"
    using st by (auto simp: Start_def bind_st_Ok_iff Let_def)
  define i1 where "i1 = ?n\<lparr>i_StartValue := v, i_ValueChecker := Some chk, i_roundTimer := t\<rparr>"
  have sent: "qsteps S i1 (snd (Broadcast E i1 sm))" if "CreateProposal S E i1 v [] [] = Ok sm" "k = myID i1" for sm
    using that k by (intro Broadcast_qsteps own_message.first_proposal [where ?i0.0 = ?n])
      (auto simp: i1_def NewInstance_def)
  have "qsteps S i1 i"
    using st k t sent
    by (auto simp: Start_def Let_def simp flip: i1_def split: if_splits res.splits prod.splits)
      (simp_all add: i1_def)
  then show thesis
    using that [of i1 config cm ident h timerF] by (simp add: i1_def NewInstance_def)
qed

lemma started_inst_inv:
  assumes "container_laws S" "quorum_laws S" "started S i"
  shows "inst_inv S i"
proof (rule started_qsteps [OF assms(3)])
  fix i1 config cm ident h timerF
  assume "i_State i1 = i_State (NewInstance S config cm ident h timerF)" "qsteps S i1 i"
  moreover have "inst_inv S i1"
    using calculation(1) assms(2) container_lawsD(1) [OF assms(1)]
    by (simp add: inst_inv_def proposal_inv_def votes_inv_def prepared_inv_def NewInstance_def quorum_laws_def
        order.strict_implies_order)
  ultimately show ?thesis
    by (blast intro: qsteps_inst_inv [OF assms(1,2)])
qed

text \<open>The inputs that come from the instance's own protocol: everything but an adopted decision.\<close>

fun own_input :: "input \<Rightarrow> bool" where
  "own_input (Adopt _ _) = False"
| "own_input _ = True"

lemma MarkIrrelevant_inst_inv [simp]: "inst_inv S (MarkIrrelevant i) = inst_inv S i"
proof -
  have "same_setup i0 (MarkIrrelevant i) = same_setup i0 i" for i0
    by (simp add: same_setup_def MarkIrrelevant_def)
  moreover have "same_setup (MarkIrrelevant i) i"
    by (simp add: same_setup_def MarkIrrelevant_def)
  ultimately show ?thesis
    using valid_prepare_setup [of "MarkIrrelevant i" i S] valid_commit_setup [of "MarkIrrelevant i" i S]
    by (simp add: inst_inv_def proposal_inv_def votes_inv_def prepared_inv_def)
      (simp add: MarkIrrelevant_def)
qed

lemma handle_inst_inv:
  assumes "container_laws S" "quorum_laws S" "inst_inv S i" "own_input x"
  shows "inst_inv S (handle S i x)"
  using assms ProcessMsg_qsteps [of S i] UponRoundTimeout_qsteps [of S i]
  by (cases x) (auto intro: qsteps_inst_inv)

lemma run_inst_inv:
  assumes "container_laws S" "quorum_laws S" "started S i" "list_all own_input xs"
  shows "inst_inv S (run S i xs)"
proof -
  have "inst_inv S (foldl (handle S) j xs)" if "inst_inv S j" for j
    using that assms(4) by (induction xs arbitrary: j) (auto intro: handle_inst_inv [OF assms(1,2)])
  then show ?thesis
    using started_inst_inv [OF assms(1-3)] by (simp add: run_def)
qed

section \<open>What the instance sends\<close>

text \<open>A signed message of the outbox and the QBFT message it carries.\<close>

definition carries :: "'c specqbft \<Rightarrow> SignedSSVMessage \<Rightarrow> Message \<Rightarrow> bool" where
  "carries S sm m \<longleftrightarrow> EncodeMessage S m = Inr (ssv_Data (s_SSVMessage sm))"

definition is_vote :: "Message \<Rightarrow> bool" where
  "is_vote m \<longleftrightarrow> m_MsgType m = PrepareMsgType \<or> m_MsgType m = CommitMsgType"

text \<open>
  The book of votes: at most one root per round, none beyond the current round, and for the current
  round only that of the accepted proposal.
\<close>

definition book_ok :: "'c Instance \<Rightarrow> (Round \<Rightarrow> root option) \<Rightarrow> bool" where
  "book_ok i book \<longleftrightarrow> (\<forall>r root. book r = Some root \<longrightarrow>
     r \<le> round_of i \<and> (r = round_of i \<longrightarrow> (\<exists>p. accepted i = Some p \<and> m_Root (qmsg p) = root)))"

definition sent_ok :: "'c specqbft \<Rightarrow> 'c Instance \<Rightarrow> (Round \<Rightarrow> root option) \<Rightarrow> SignedSSVMessage \<Rightarrow> Height \<Rightarrow> bool" where
  "sent_ok S i book sm h \<longleftrightarrow> h = st_Height (i_State i) \<and> s_OperatorIDs sm = [myID i] \<and>
     (\<exists>m. carries S sm m \<and> m_Height m = st_Height (i_State i) \<and> m_Identifier m = st_ID (i_State i)
          \<and> m_Round m < cfg_CutOffRound (i_config i)
          \<and> (is_vote m \<longrightarrow> book (m_Round m) = Some (m_Root m)))"

definition outbox_inv :: "'c specqbft \<Rightarrow> 'c Instance \<Rightarrow> bool" where
  "outbox_inv S i \<longleftrightarrow> (\<exists>book. book_ok i book \<and> (\<forall>(sm, h) \<in> set (i_outbox i). sent_ok S i book sm h))"

lemma Sign_Ok:
  assumes "Sign S E m k = Ok sm"
  shows "carries S sm m" "s_OperatorIDs sm = [k]"
  using assms by (auto simp: Sign_def carries_def Let_def res_dest)

lemma carries_FullData [simp]: "carries S (sm\<lparr>s_FullData := v\<rparr>) m = carries S sm m"
  by (simp add: carries_def)

lemma own_message_shape:
  assumes "own_message S i sm" "proposal_inv S i"
  obtains m where "carries S sm m" "s_OperatorIDs sm = [myID i]" "m_Height m = st_Height (i_State i)"
    "m_Identifier m = st_ID (i_State i)" "m_Round m = round_of i"
    "is_vote m \<longrightarrow> (\<exists>p. accepted i = Some p \<and> m_Root m = m_Root (qmsg p))"
  using assms(1)
proof cases
  case (first_proposal E i0)
  then show ?thesis
    using that by (fastforce simp: CreateProposal_def Let_def res_dest is_vote_def dest: Sign_Ok)
next
  case (proposal E v rcs prepares i0 rc rcs0 newRound)
  then show ?thesis
    using that by (fastforce simp: CreateProposal_def Let_def res_dest is_vote_def dest: Sign_Ok)
next
  case (prepare p r E)
  then have "r = round_of i" "m_Root (qmsg p) = HashDataRoot S (full_data p)"
    using assms(2) isValidProposal_root by (auto simp: proposal_inv_def)
  then show ?thesis
    using that prepare by (fastforce simp: CreatePrepare_def dest: Sign_Ok)
next
  case (commit p E)
  then show ?thesis
    using that by (fastforce simp: CreateCommit_def dest: Sign_Ok)
next
  case (round_change E)
  then show ?thesis
    using that by (fastforce simp: CreateRoundChange_def Let_def res_dest is_vote_def dest: Sign_Ok split: prod.splits)
qed

lemma sent_ok_setup: "same_setup i j \<Longrightarrow> sent_ok S i book sm h = sent_ok S j book sm h"
  by (simp add: sent_ok_def same_setup_def)

lemma sent_ok_book: "sent_ok S i book sm h \<Longrightarrow> (\<And>r root. book r = Some root \<Longrightarrow> book' r = Some root) \<Longrightarrow>
    sent_ok S i book' sm h"
  by (auto simp: sent_ok_def)

lemma qstep_outbox_inv:
  assumes step: "qstep S i j" and pinv: "proposal_inv S i" and inv: "outbox_inv S i"
  shows "outbox_inv S j"
proof -
  obtain book where book: "book_ok i book" "\<forall>(sm, h) \<in> set (i_outbox i). sent_ok S i book sm h"
    using inv by (auto simp: outbox_inv_def)
  have old: "\<forall>(sm, h) \<in> set (i_outbox i). sent_ok S j book sm h"
    using book(2) sent_ok_setup [OF qstep_same_setup [OF step]] by auto
  have easy: "outbox_inv S j" if "book_ok j book" "i_outbox j = i_outbox i"
    using old that by (auto simp: outbox_inv_def)
  show ?thesis
    using step
  proof cases
    case (send sm)
    then obtain m where m: "carries S sm m" "s_OperatorIDs sm = [myID i]" "m_Height m = st_Height (i_State i)"
      "m_Identifier m = st_ID (i_State i)" "m_Round m = round_of i"
      "is_vote m \<longrightarrow> (\<exists>p. accepted i = Some p \<and> m_Root m = m_Root (qmsg p))"
      using own_message_shape [OF _ pinv] by blast
    define book' where "book' = (if is_vote m then book(m_Round m := Some (m_Root m)) else book)"
    have more: "book' r = Some root" if "book r = Some root" for r root
      using that book(1) m(5,6) by (auto simp: book'_def book_ok_def)
    have "book_ok j book'"
      using book(1) m(5,6) send by (auto simp: book_ok_def book'_def split: if_splits)
    moreover have "sent_ok S j book' sm (st_Height (i_State i))"
      using m send by (auto simp: sent_ok_def book'_def IsRelevant_def)
    moreover have "\<forall>(sm, h) \<in> set (i_outbox i). sent_ok S j book' sm h"
      using old more sent_ok_book [of S j book] by blast
    ultimately show ?thesis
      unfolding outbox_inv_def by (intro exI [of _ book']) (simp add: send(1))
  next
    case (bump r)
    have "r' < r" if "book r' = Some root" for r' root
      using book(1) bump(2) that unfolding book_ok_def by (meson le_less_trans)
    then show ?thesis
      using bump(1) by (intro easy) (auto simp: book_ok_def order.strict_implies_order)
  next
    case (accept msg i0)
    then show ?thesis
      using book(1) by (intro easy) (auto simp: book_ok_def)
  next
    case (decide p ids msgs)
    then show ?thesis
      using book(1) by (intro easy) (auto simp: book_ok_def dest!: MarkDecided_Ok)
  qed (rule easy; use book(1) in \<open>simp add: book_ok_def\<close>)+
qed

lemma qsteps_outbox_inv:
  assumes "qsteps S i j" "proposal_inv S i" "outbox_inv S i"
  shows "proposal_inv S j \<and> outbox_inv S j"
  using assms by (induction rule: rtranclp_induct) (auto intro: qstep_proposal_inv qstep_outbox_inv)

lemma started_outbox_inv:
  assumes "started S i"
  shows "proposal_inv S i \<and> outbox_inv S i"
proof (rule started_qsteps [OF assms])
  fix i1 config cm ident h timerF
  assume i1: "i_State i1 = i_State (NewInstance S config cm ident h timerF)" "i_outbox i1 = []"
    and "qsteps S i1 i"
  moreover have "proposal_inv S i1" "outbox_inv S i1"
    using i1 by (auto simp: proposal_inv_def outbox_inv_def book_ok_def NewInstance_def intro: exI [of _ Map.empty])
  ultimately show ?thesis
    using qsteps_outbox_inv by blast
qed

lemma MarkIrrelevant_outbox_inv:
  "proposal_inv S (MarkIrrelevant i) = proposal_inv S i" "outbox_inv S (MarkIrrelevant i) = outbox_inv S i"
  by (simp_all add: MarkIrrelevant_def proposal_inv_def same_setup_def outbox_inv_def book_ok_def sent_ok_def)

lemma run_outbox_inv:
  assumes "started S i" "list_all own_input xs"
  shows "proposal_inv S (run S i xs) \<and> outbox_inv S (run S i xs)"
proof -
  have "proposal_inv S (handle S j x) \<and> outbox_inv S (handle S j x)"
    if "proposal_inv S j \<and> outbox_inv S j" "own_input x" for j x
    using that ProcessMsg_qsteps [of S j] UponRoundTimeout_qsteps [of S j]
    by (cases x) (auto simp: MarkIrrelevant_outbox_inv dest: qsteps_outbox_inv)
  then have "proposal_inv S (foldl (handle S) j xs) \<and> outbox_inv S (foldl (handle S) j xs)"
    if "proposal_inv S j \<and> outbox_inv S j" for j
    using that assms(2) by (induction xs arbitrary: j) auto
  then show ?thesis
    using started_outbox_inv [OF assms(1)] by (simp add: run_def)
qed

end
