(* ===== verification/Qbft_Lemmas.thy ===== *)
theory Qbft_Lemmas
  imports Qbft_Safety
begin

text \<open>
  Lemmas behind the properties of a QBFT instance: the shape of a decision, finality of a decision,
  the two search loops over round changes, and the absence of panics.
\<close>

section \<open>Lemmas\<close>

lemma isValidProposal_checked:
  assumes "isValidProposal S i p = Ok ()"
  shows "\<exists>chk. i_ValueChecker i = Some chk \<and> chk (full_data p) = None"
  using assms by (auto simp: isValidProposal_def isProposalJustification_def res_dest)

lemma ProcessMsg_decided:
  assumes "ProcessMsg S E i msg = (Ok (True, v, agg), i')"
  obtains p c ids msgs a where "accepted i = Some p" "validateCommit S i msg = Ok ()" "v = full_data p" "agg = Some a"
    "LongestUniqueSignersForRoundAndRoot S c (round_of i) (m_Root (qmsg p)) = (ids, msgs)"
    "MemberHasQuorum S (st_CommitteeMember (i_State i)) (length ids)"
    "aggregateCommitMsgs S msgs v = Ok a" "\<not> st_Decided (i_State i)" "IsRelevant i"
    "AddFirstMsgForSignerAndRound S (st_CommitContainer (i_State i)) msg = Inr (True, c)"
    "i' = (upd_State (\<lambda>s. s\<lparr>st_CommitContainer := c, st_Decided := True, st_DecidedValue := v\<rparr>) i)
            \<lparr>i_roundTimer := Stop (i_roundTimer i)\<rparr>"
proof -
  have rel: "IsRelevant i" and "BaseMsgValidation S i msg = Ok ()"
    using assms by (auto simp: ProcessMsg_def bind_st_Ok_iff split: if_splits)
  from this(2) show thesis
  proof (cases rule: BaseMsgValidation_Ok)
    case (3 p)
    have h: "bind_st (uponCommit S i msg) (\<lambda>(decided, decidedValue, aggregatedCommit) i.
              if decided
              then bind_st (map_err_st (Wrap ''mark as decided'') (MarkDecided i (m_Round (qmsg msg)) decidedValue))
                     (\<lambda>_ i. (Ok (decided, decidedValue, aggregatedCommit), i))
              else (Ok (decided, decidedValue, aggregatedCommit), i)) = (Ok (True, v, agg), i')"
      using assms rel \<open>BaseMsgValidation S i msg = Ok ()\<close> 3 by (simp add: ProcessMsg_def)
    note eqs = validateCommit_Ok [OF 3(3,2)]
    show thesis
      using 3(3,2)
    proof (cases rule: uponCommit_cases [case_names failed stored quorum])
      case failed
      then show thesis
        using h by (auto simp: bind_st_Ok_iff)
    next
      case (stored b c)
      then show thesis
        using h by (auto simp: bind_st_Ok_iff)
    next
      case (quorum c ids msgs a)
      then show thesis
        using h eqs rel 3
        by (intro that [of p a c ids msgs])
          (auto simp: bind_st_Ok_iff MarkDecided_def upd_State_def map_err_st_eq split: if_splits)
    qed
  qed (use assms rel in \<open>auto simp: ProcessMsg_def bind_st_Ok_iff\<close>)
qed

lemma qstep_decided:
  assumes "qstep S i j" "st_Decided (i_State i)"
  shows "IsDecided j = IsDecided i"
  using assms by cases (auto simp: IsDecided_def)

lemma qsteps_decided: "qsteps S i j \<Longrightarrow> st_Decided (i_State i) \<Longrightarrow> IsDecided j = IsDecided i"
proof (induction rule: rtranclp_induct)
  case (step j k)
  then show ?case
    using qstep_decided [of S j k] by (simp add: IsDecided_def)
qed simp

lemma handle_decided:
  assumes "st_Decided (i_State i)"
  shows "IsDecided (handle S i x) = IsDecided i"
  using qsteps_decided [OF ProcessMsg_qsteps assms] qsteps_decided [OF UponRoundTimeout_qsteps assms] assms
  by (cases x) (simp_all add: MarkIrrelevant_def MarkDecided_def IsDecided_def)

lemma run_decided: "st_Decided (i_State i) \<Longrightarrow> IsDecided (run S i xs) = IsDecided i"
  unfolding run_def
proof (induction xs arbitrary: i)
  case (Cons x xs)
  then show ?case
    using handle_decided [of i S x] by (simp add: IsDecided_def)
qed simp

lemma qstep_round: "qstep S i j \<Longrightarrow> round_of i \<le> round_of j"
  by (induction rule: qstep.induct) (auto dest!: MarkDecided_Ok)

lemma qsteps_round: "qsteps S i j \<Longrightarrow> round_of i \<le> round_of j"
  by (induction rule: rtranclp_induct) (auto dest: qstep_round)

lemma highestPrepared_loop_max:
  assumes "highestPrepared_loop S ret hr rcs = Some rc" "ret \<noteq> None \<longrightarrow> (\<exists>m. ret = Some m \<and> m_DataRound (qmsg m) = hr)"
  shows "(ret = Some rc \<or> rc \<in> set rcs \<and> RoundChangePrepared S (qmsg rc)) \<and>
    (ret \<noteq> None \<longrightarrow> hr \<le> m_DataRound (qmsg rc)) \<and>
    (\<forall>m \<in> set rcs. RoundChangePrepared S (qmsg m) \<longrightarrow> m_DataRound (qmsg m) \<le> m_DataRound (qmsg rc))"
  using assms
proof (induction rcs arbitrary: ret hr)
  case (Cons m rcs)
  show ?case
  proof (cases "RoundChangePrepared S (qmsg m) \<and> (ret = None \<or> hr < m_DataRound (qmsg m))")
    case True
    then show ?thesis
      using Cons.IH [of "Some m" "m_DataRound (qmsg m)"] Cons.prems(1) by auto
  next
    case False
    then show ?thesis
      using Cons.IH [of ret hr] Cons.prems by (auto split: if_splits)
  qed
qed auto

lemma highestPrepared_max:
  assumes "highestPrepared S rcs = Some rc"
  shows "rc \<in> set rcs" "RoundChangePrepared S (qmsg rc)"
    "m \<in> set rcs \<Longrightarrow> RoundChangePrepared S (qmsg m) \<Longrightarrow> m_DataRound (qmsg m) \<le> m_DataRound (qmsg rc)"
  using highestPrepared_loop_max [of S None 0 rcs rc] assms by (auto simp: highestPrepared_def)

lemma Min_insert_min: "finite A \<Longrightarrow> Min (insert a (insert b A)) = Min (insert (min a b) A)"
  by (cases "A = {}") (simp_all add: min.assoc)

lemma minRound_loop_Min:
  assumes "\<forall>m \<in> set ms. m_Round (qmsg m) \<noteq> NoRound S" "r \<noteq> NoRound S"
  shows "minRound_loop S r ms = Min (insert r ((m_Round \<circ> qmsg) ` set ms))"
  using assms
proof (induction ms arbitrary: r)
  case (Cons m ms)
  have "minRound_loop S r (m # ms) = minRound_loop S (min r (m_Round (qmsg m))) ms"
    using Cons.prems by (auto simp: min_def not_le)
  also have "\<dots> = Min (insert (min r (m_Round (qmsg m))) ((m_Round \<circ> qmsg) ` set ms))"
    using Cons.prems by (intro Cons.IH) (auto simp: min_def)
  finally show ?case
    by (simp add: Min_insert_min del: Min_insert)
qed simp

lemma minRound_Min:
  assumes "\<forall>m \<in> set ms. m_Round (qmsg m) \<noteq> NoRound S" "ms \<noteq> []"
  shows "minRound S ms = Min ((m_Round \<circ> qmsg) ` set ms)"
proof (cases ms)
  case (Cons m ms')
  then show ?thesis
    using minRound_loop_Min [of ms' S "m_Round (qmsg m)"] assms(1) by (simp add: minRound_def)
qed (use assms(2) in simp)

lemma isProposalJustification_Ok:
  assumes "isProposalJustification S i rcs ps r v = Ok ()" "r \<noteq> FirstRound S"
  shows "(\<forall>rc \<in> set rcs. validRoundChangeForDataVerifySignature S i rc r v = Ok ())"
    and "HasQuorum S (st_CommitteeMember (i_State i)) rcs"
    and "\<exists>rc \<in> set rcs. RoundChangePrepared S (qmsg rc) \<Longrightarrow>
      \<exists>rc \<in> set rcs. RoundChangePrepared S (qmsg rc) \<and> m_Root (qmsg rc) = HashDataRoot S v
        \<and> (\<forall>rc' \<in> set rcs. RoundChangePrepared S (qmsg rc') \<longrightarrow> m_DataRound (qmsg rc') \<le> m_DataRound (qmsg rc))
        \<and> HasQuorum S (st_CommitteeMember (i_State i)) ps
        \<and> (\<forall>pm \<in> set ps. validSignedPrepareForHeightRoundAndRootVerifySignature S i pm
              (m_DataRound (qmsg rc)) (HashDataRoot S v) = Ok ())"
proof -
  show "\<forall>rc \<in> set rcs. validRoundChangeForDataVerifySignature S i rc r v = Ok ()"
    and "HasQuorum S (st_CommitteeMember (i_State i)) rcs"
    using assms by (auto simp: isProposalJustification_def res_dest)
  assume "\<exists>rc \<in> set rcs. RoundChangePrepared S (qmsg rc)"
  then have ex: "list_ex (\<lambda>rc. RoundChangePrepared S (qmsg rc)) rcs"
    by (simp add: list_ex_iff)
  then obtain rc where rc: "highestPrepared S rcs = Some rc" "HashDataRoot S v = m_Root (qmsg rc)"
    "HasQuorum S (st_CommitteeMember (i_State i)) ps"
    "\<forall>pm \<in> set ps. validSignedPrepareForHeightRoundAndRootVerifySignature S i pm
              (m_DataRound (qmsg rc)) (m_Root (qmsg rc)) = Ok ()"
    using assms by (auto simp: isProposalJustification_def res_dest split: option.splits)
  then show "\<exists>rc \<in> set rcs. RoundChangePrepared S (qmsg rc) \<and> m_Root (qmsg rc) = HashDataRoot S v
        \<and> (\<forall>rc' \<in> set rcs. RoundChangePrepared S (qmsg rc') \<longrightarrow> m_DataRound (qmsg rc') \<le> m_DataRound (qmsg rc))
        \<and> HasQuorum S (st_CommitteeMember (i_State i)) ps
        \<and> (\<forall>pm \<in> set ps. validSignedPrepareForHeightRoundAndRootVerifySignature S i pm
              (m_DataRound (qmsg rc)) (HashDataRoot S v) = Ok ())"
    using highestPrepared_max [OF rc(1)] by metis
qed

lemma bumpToRound_round: "round_of (snd (bumpToRound E i r)) = max (round_of i) r"
  by (auto simp: bumpToRound_def Let_def snd_bind_st max_def split: res.splits)

lemma Broadcast_round [simp]: "round_of (snd (Broadcast E i sm)) = round_of i"
  by (simp add: Broadcast_def)

text \<open>Where a handler could panic.\<close>

lemma validSignedPrepare_no_Panic [simp]:
  "validSignedPrepareForHeightRoundAndRootIgnoreSignature S i m r root \<noteq> Panic"
  "validSignedPrepareForHeightRoundAndRootVerifySignature S i m r root \<noteq> Panic"
  by (auto simp: validSignedPrepareForHeightRoundAndRootIgnoreSignature_def verifySignature_def
      validSignedPrepareForHeightRoundAndRootVerifySignature_def bind_res_Panic_iff)

lemma processingMessages_no_Panic [simp]: "processingMessages S what sms \<noteq> Panic"
  by (simp add: processingMessages_def each_map_not_Panic)

lemma validRoundChange_no_Panic [simp]:
  "validRoundChangeForDataIgnoreSignature S i m r v \<noteq> Panic"
  "validRoundChangeForDataVerifySignature S i m r v \<noteq> Panic"
  by (auto simp: validRoundChangeForDataIgnoreSignature_def validRoundChangeForDataVerifySignature_def
      verifySignature_def bind_res_Panic_iff each_not_Panic Let_def)

lemma isProposalJustification_no_Panic:
  "i_ValueChecker i \<noteq> None \<Longrightarrow> isProposalJustification S i rcs ps r v \<noteq> Panic"
  by (auto simp: isProposalJustification_def bind_res_Panic_iff each_not_Panic Let_def split: option.splits)

lemma Sign_no_Panic [simp]: "Sign S E m k \<noteq> Panic"
  by (auto simp: Sign_def bind_res_Panic_iff Let_def)

lemma Create_no_Panic [simp]:
  "CreateProposal S E i v rcs ps \<noteq> Panic" "CreatePrepare S E i r root \<noteq> Panic"
  "CreateCommit S E i root \<noteq> Panic" "CreateRoundChange S E i r \<noteq> Panic"
  by (auto simp: CreateProposal_def CreatePrepare_def CreateCommit_def CreateRoundChange_def
      bind_res_Panic_iff Let_def split: prod.splits)

lemma Broadcast_no_Panic [simp]: "fst (Broadcast E i sm) \<noteq> Panic"
  by (simp add: Broadcast_def)

text \<open>
  The parts an instance needs to work: a value checker, a leader for every round, a timer that can
  compute its waits, and commit messages with one signature per signer.
\<close>

definition no_panic_setup :: "'c Instance \<Rightarrow> bool" where
  "no_panic_setup i \<longleftrightarrow> i_ValueChecker i \<noteq> None \<and>
     (\<forall>st r. st_Height st = st_Height (i_State i) \<longrightarrow> st_CommitteeMember st = st_CommitteeMember (i_State i) \<longrightarrow>
        cfg_ProposerF (i_config i) st r \<noteq> Panic) \<and>
     (\<forall>now r. TimeoutForRound (i_roundTimer i) now r \<noteq> (Panic :: (qbft_err, RoundTimer) res))"

lemma TimeoutForRound_no_Panic_iff:
  "(\<forall>now r. TimeoutForRound t now r \<noteq> (Panic :: ('e, RoundTimer) res)) \<longleftrightarrow>
     (rt_cancelled t \<or> RoundRelativeRole (rt_role t) \<or>
       (SlotStartTime (rt_beaconConfig t) (rt_slot t) \<noteq> (Panic :: ('e, int) res) \<and>
        (\<forall>s. SlotStartTime (rt_beaconConfig t) (rt_slot t) = (Ok s :: ('e, int) res) \<longrightarrow>
           IntervalDuration (rt_beaconConfig t) (rt_slot t) \<noteq> (Panic :: ('e, int) res))))"
  by (auto simp: TimeoutForRound_def RoundTimeout_def Let_def bind_res_Panic_iff)

lemma TimeoutForRound_keeps:
  assumes "TimeoutForRound t now r = (Ok t' :: ('e, RoundTimer) res)"
  shows "rt_cancelled t' = rt_cancelled t" "rt_role t' = rt_role t" "rt_beaconConfig t' = rt_beaconConfig t"
    "rt_slot t' = rt_slot t"
  using assms by (auto simp: TimeoutForRound_def Let_def res_dest split: if_splits)

lemma qstep_no_panic_setup:
  assumes "qstep S i j" "no_panic_setup i"
  shows "no_panic_setup j"
  using assms
  by cases (auto simp: no_panic_setup_def TimeoutForRound_no_Panic_iff TimeoutForRound_keeps Stop_def
      dest!: MarkDecided_Ok)

lemma qsteps_no_panic_setup: "qsteps S i j \<Longrightarrow> no_panic_setup i \<Longrightarrow> no_panic_setup j"
  by (induction rule: rtranclp_induct) (auto intro: qstep_no_panic_setup)

lemma bumpToRound_no_Panic: "no_panic_setup i \<Longrightarrow> fst (bumpToRound E i r) \<noteq> Panic"
  by (auto simp: bumpToRound_def Let_def bind_st_Panic_iff no_panic_setup_def)

lemma isValidProposal_no_Panic: "no_panic_setup i \<Longrightarrow> isValidProposal S i m \<noteq> Panic"
  by (auto simp: isValidProposal_def bind_res_Panic_iff ProposerForRound_def no_panic_setup_def
      isProposalJustification_no_Panic)

lemma validateCommit_no_Panic: "accepted i \<noteq> None \<Longrightarrow> validateCommit S i m \<noteq> Panic"
  by (auto simp: validateCommit_def baseCommitValidationIgnoreSignature_def bind_res_Panic_iff)

lemma BaseMsgValidation_no_Panic: "no_panic_setup i \<Longrightarrow> BaseMsgValidation S i m \<noteq> Panic"
  by (auto simp: BaseMsgValidation_def bind_res_Panic_iff Let_def isValidProposal_no_Panic validateCommit_no_Panic
      split: MessageType.splits option.splits)

lemma no_panic_setup_containers [simp]:
  "no_panic_setup (upd_State (\<lambda>s. s\<lparr>st_ProposeContainer := c\<rparr>) i) = no_panic_setup i"
  "no_panic_setup (upd_State (\<lambda>s. s\<lparr>st_RoundChangeContainer := c\<rparr>) i) = no_panic_setup i"
  by (simp_all add: no_panic_setup_def)

lemma uponProposal_no_Panic: "no_panic_setup i \<Longrightarrow> fst (uponProposal S E i m) \<noteq> Panic"
  by (auto simp: uponProposal_def bind_st_Panic_iff Let_def bumpToRound_no_Panic)

lemma uponPrepare_no_Panic: "accepted i \<noteq> None \<Longrightarrow> fst (uponPrepare S E i m) \<noteq> Panic"
  by (auto simp: uponPrepare_def bind_st_Panic_iff Let_def split: if_splits)

lemma leadingRound_loop_no_Panic: "no_panic_setup i \<Longrightarrow> leadingRound_loop S i rcs r ms \<noteq> Panic"
proof (induction ms)
  case (Cons m ms)
  then have "isProposalJustificationForLeadingRound S i m rcs js v r \<noteq> Panic" for js v
    by (auto simp: isProposalJustificationForLeadingRound_def isReceivedProposalJustification_def
        bind_res_Panic_iff ProposerForRound_def no_panic_setup_def isProposalJustification_no_Panic Let_def)
  then show ?case
    using Cons by (auto simp: bind_res_Panic_iff Let_def split: res.splits)
qed simp

lemma uponChangeRoundPartialQuorum_no_Panic:
  "no_panic_setup i \<Longrightarrow> fst (uponChangeRoundPartialQuorum S E i r) \<noteq> Panic"
  by (auto simp: uponChangeRoundPartialQuorum_def bind_st_Panic_iff bumpToRound_no_Panic)

lemma hasReceivedProposalJustification_no_Panic:
  "no_panic_setup i \<Longrightarrow> hasReceivedProposalJustificationForLeadingRound S i m \<noteq> Panic"
  by (simp add: hasReceivedProposalJustificationForLeadingRound_def Let_def leadingRound_loop_no_Panic)

lemma uponRoundChange_no_Panic: "no_panic_setup i \<Longrightarrow> fst (uponRoundChange S E i m) \<noteq> Panic"
  by (auto simp: uponRoundChange_def bind_st_Panic_iff Let_def uponChangeRoundPartialQuorum_no_Panic
      bumpToRound_no_Panic hasReceivedProposalJustification_no_Panic split: option.splits prod.splits if_splits)

lemma UponRoundTimeout_no_Panic: "no_panic_setup i \<Longrightarrow> fst (UponRoundTimeout S E i) \<noteq> Panic"
  by (auto simp: UponRoundTimeout_def bind_st_Panic_iff Let_def bumpToRound_no_Panic)


text \<open>
  What message validation and aggregation of signed messages promise: as many signatures as signers,
  and aggregation appends.
\<close>

definition signature_laws :: "'c specqbft \<Rightarrow> bool" where
  "signature_laws S \<longleftrightarrow>
     (\<forall>m. MsgValidate S m = None \<longrightarrow> length (s_Signatures (pm_SignedMessage m)) = length (signers m)) \<and>
     (\<forall>a b c. Aggregate S a b = Inr c \<longrightarrow>
        s_OperatorIDs c = s_OperatorIDs a @ s_OperatorIDs b \<and> s_Signatures c = s_Signatures a @ s_Signatures b)"

lemma aggregate_loop_pairs:
  assumes "signature_laws S" "aggregate_loop S a ms = Ok r" "length (s_Signatures a) = length (s_OperatorIDs a)"
    and "\<forall>m \<in> set ms. length (s_Signatures (pm_SignedMessage m)) = length (signers m)"
  shows "length (s_Signatures r) = length (s_OperatorIDs r)
      \<and> zip (s_OperatorIDs r) (s_Signatures r) = zip (s_OperatorIDs a) (s_Signatures a)
          @ concat (map (\<lambda>m. zip (signers m) (s_Signatures (pm_SignedMessage m))) ms)"
  using assms(2-4)
proof (induction ms arbitrary: a)
  case (Cons m ms)
  then obtain b where "Aggregate S a (pm_SignedMessage m) = Inr b" "aggregate_loop S b ms = Ok r"
    by (auto simp: res_dest)
  then show ?case
    using Cons.IH [of b] Cons.prems assms(1) by (simp add: signature_laws_def)
qed simp

lemma aggregate_loop_no_Panic [simp]: "aggregate_loop S a ms \<noteq> Panic"
  by (induction ms arbitrary: a) (auto simp: bind_res_Panic_iff)

lemma aggregateCommitMsgs_no_Panic:
  assumes "signature_laws S" "\<forall>m \<in> set msgs. length (s_Signatures (pm_SignedMessage m)) = length (signers m)"
  shows "aggregateCommitMsgs S msgs v \<noteq> Panic"
  using assms aggregate_loop_pairs [OF assms(1)]
  by (fastforce simp: aggregateCommitMsgs_def bind_res_Panic_iff Let_def split: list.splits if_splits)

lemma uponCommit_no_Panic:
  assumes laws: "container_laws S" "signature_laws S" and inv: "inst_inv S i"
    and valid: "validateCommit S i msg = Ok ()" and p: "accepted i = Some p"
  shows "fst (uponCommit S i msg) \<noteq> Panic"
proof (cases "AddFirstMsgForSignerAndRound S (st_CommitContainer (i_State i)) msg")
  case (Inr bc)
  then obtain b c where add: "AddFirstMsgForSignerAndRound S (st_CommitContainer (i_State i)) msg = Inr (b, c)"
    by (cases bc) auto
  let ?j = "upd_State (\<lambda>s. s\<lparr>st_CommitContainer := c\<rparr>) i"
  have "qstep S i ?j"
    by (rule qstep.store_commit [OF p valid add])
  then have vc: "valid_commit S ?j m" if "m \<in> set (commits S ?j r)" for m r
    using qstep_valid_commits [OF laws(1)] inv that by (fastforce simp: inst_inv_def)
  have "length (s_Signatures (pm_SignedMessage m)) = length (signers m)" if "m \<in> set (commits S ?j r)" for m r
    using vc [OF that] laws(2)
    by (auto simp: valid_commit_def baseCommitValidationIgnoreSignature_def res_dest signature_laws_def)
  then have "aggregateCommitMsgs S msgs v \<noteq> Panic"
    if "LongestUniqueSignersForRoundAndRoot S c r root = (ids, msgs)" for r root ids msgs v
    using container_lawsD(3) [OF laws(1) that] by (intro aggregateCommitMsgs_no_Panic [OF laws(2)]) auto
  then show ?thesis
    using add p by (auto simp: uponCommit_def commitQuorumForRoundRoot_def bind_st_Panic_iff Let_def split: prod.splits)
qed (simp add: uponCommit_def Let_def split: prod.split)


lemma handle_no_panic_setup:
  assumes "no_panic_setup i" "own_input x"
  shows "no_panic_setup (handle S i x)"
proof -
  have "no_panic_setup (MarkIrrelevant i)"
    using assms(1) by (auto simp: no_panic_setup_def MarkIrrelevant_def TimeoutForRound_no_Panic_iff Stop_def)
  then show ?thesis
    using assms qsteps_no_panic_setup [OF ProcessMsg_qsteps] qsteps_no_panic_setup [OF UponRoundTimeout_qsteps]
    by (cases x) simp_all
qed

lemma run_no_panic_setup: "no_panic_setup i \<Longrightarrow> list_all own_input xs \<Longrightarrow> no_panic_setup (run S i xs)"
  unfolding run_def by (induction xs arbitrary: i) (auto intro: handle_no_panic_setup)

lemma ProcessMsg_no_Panic:
  assumes laws: "container_laws S" "signature_laws S" and inv: "inst_inv S i" and ok: "no_panic_setup i"
  shows "fst (ProcessMsg S E i msg) \<noteq> Panic"
proof (cases "BaseMsgValidation S i msg = Ok ()")
  case True
  then show ?thesis
  proof (cases rule: BaseMsgValidation_Ok)
    case 1
    then show ?thesis
      using True ok by (auto simp: ProcessMsg_def bind_st_Panic_iff uponProposal_no_Panic)
  next
    case (2 p)
    then show ?thesis
      using True by (auto simp: ProcessMsg_def bind_st_Panic_iff uponPrepare_no_Panic)
  next
    case (3 p)
    then show ?thesis
      using True uponCommit_no_Panic [OF laws inv 3(3,2)]
      by (auto simp: ProcessMsg_def bind_st_Panic_iff MarkDecided_def)
  next
    case 4
    then show ?thesis
      using True ok by (auto simp: ProcessMsg_def bind_st_Panic_iff uponRoundChange_no_Panic)
  qed
next
  case False
  then show ?thesis
    using BaseMsgValidation_no_Panic [OF ok, of S msg]
    by (cases "BaseMsgValidation S i msg") (auto simp: ProcessMsg_def)
qed

lemma buildConfig_no_panic:
  assumes "small_committee (cm_Committee cm)" "SlotsPerEpoch (nw_Beacon netCfg) \<noteq> 0"
    and "st_CommitteeMember st = cm"
  shows "\<exists>k. cfg_ProposerF (buildConfig S CutOff netCfg role) st r = Ok k"
proof -
  have c: "small_committee (OperatorIDsFromOperators (cm_Committee cm))"
    using assms(1) by (simp add: small_committee_def OperatorIDsFromOperators_def)
  show ?thesis
    by (rule Proposer_seat [OF c assms(2), where 'e = qbft_err, of "st_Height st" S])
      (simp_all add: buildConfig_def assms(3) Let_def)
qed

lemma New_timer_no_panic:
  assumes "SlotsPerEpoch b \<noteq> 0" "uint slot \<le> maxInt64"
  shows "\<exists>t. TimeoutForRound (New n b role slot legacy) now r = (Ok t :: ('e, RoundTimer) res)"
  using assms by (auto simp: TimeoutForRound_def RoundTimeout_def New_def SlotStartTime_def IntervalDuration_def
      IsGloasAtSlot_def EstimatedEpochAtSlot_def i64_quot_def Let_def)

lemma Start_production:
  assumes "small_committee (cm_Committee cm)" "SlotsPerEpoch (nw_Beacon netCfg) \<noteq> 0" "uint h \<le> maxInt64"
    and "i0 = NewInstance S (buildConfig S CutOff netCfg role) cm ident h
                (\<lambda>slot. New (NoRound S) (nw_Beacon netCfg) role slot legacy)"
  shows "\<exists>i. Start S E i0 v chk = (Ok (), i) \<and> no_panic_setup i"
proof -
  let ?cfg = "buildConfig S CutOff netCfg role"
  obtain k where k: "ProposerForRound i0 (FirstRound S) = Ok k"
    using buildConfig_no_panic [OF assms(1,2), of "i_State i0" S CutOff role "FirstRound S"]
    by (auto simp: assms(4) NewInstance_def ProposerForRound_def)
  obtain t where t: "TimeoutForRound (i_roundTimer i0) (e_now E) (FirstRound S) = (Ok t :: (qbft_err, RoundTimer) res)"
    using New_timer_no_panic [OF assms(2,3), where 'e = qbft_err, of "NoRound S" role legacy]
    by (fastforce simp: assms(4) NewInstance_def)
  define i1 where "i1 = i0\<lparr>i_StartValue := v, i_ValueChecker := Some chk, i_roundTimer := t\<rparr>"
  have timer: "\<forall>now r. TimeoutForRound (i_roundTimer i0) now r \<noteq> (Panic :: (qbft_err, RoundTimer) res)"
    using New_timer_no_panic [OF assms(2,3), where 'e = qbft_err]
    by (metis (no_types, lifting) NewInstance_def assms(4) Instance.select_convs(5) res.distinct(3))
  then have "\<forall>now r. TimeoutForRound t now r \<noteq> (Panic :: (qbft_err, RoundTimer) res)"
    unfolding TimeoutForRound_no_Panic_iff by (simp add: TimeoutForRound_keeps [OF t])
  moreover have "cfg_ProposerF ?cfg st r \<noteq> Panic" if "st_CommitteeMember st = cm" for st r
    using buildConfig_no_panic [OF assms(1,2) that, of S CutOff role r] by auto
  ultimately have ok: "no_panic_setup (i1\<lparr>i_outbox := out\<rparr>)" for out
    by (simp add: no_panic_setup_def i1_def assms(4) NewInstance_def)
  show ?thesis
    using k t ok [of "i_outbox i1"] ok
    by (auto simp: Start_def Let_def Broadcast_def simp flip: i1_def split: res.splits)
qed

end
