(* ===== verification/Qbft_Demo.thy ===== *)
theory Qbft_Demo
  imports Qbft_Lemmas
begin

text \<open>
  A concrete run of an instance: operator 1 of a committee of four at height 5, with the concrete
  specification package, which is shown to satisfy what the properties assume of it.
\<close>

section \<open>The concrete package satisfies the laws\<close>

lemma demo_unique_spec:
  "demo_unique ids ms = (ids', ms') \<Longrightarrow> distinct ids \<Longrightarrow>
     distinct ids' \<and> set ids' = set ids \<union> (\<Union>m \<in> set ms'. set (signers m)) \<and> set ms' \<subseteq> set ms"
proof (induction ids ms arbitrary: ids' ms' rule: demo_unique.induct)
  case (2 ids m ms)
  show ?case
  proof (cases "set (signers m) \<inter> set ids = {} \<and> distinct (signers m)")
    case True
    obtain ids1 ms1 where rec: "demo_unique (ids @ signers m) ms = (ids1, ms1)"
      by fastforce
    have "distinct (ids @ signers m)"
      using True 2(4) by auto
    from 2(1) [OF True rec this] show ?thesis
      using 2(3) True rec by auto
  next
    case False
    have "demo_unique ids ms = (ids', ms')"
      using 2(3) False by auto
    from 2(2) [OF False this 2(4)] show ?thesis
      by auto
  qed
qed simp

lemma demo_container_laws: "container_laws demo_spec"
  unfolding container_laws_def
  using demo_unique_spec by (fastforce simp: demo_add_def split: if_splits)

lemma demo_quorum_laws: "quorum_laws demo_spec"
proof -
  have "3 \<le> card (\<Union>m \<in> set ms'. set (signers m))"
    if "3 \<le> card (\<Union>m \<in> set ms. set (signers m))" "set ms \<subseteq> set ms'" for ms ms'
  proof -
    have "card (\<Union>m \<in> set ms. set (signers m)) \<le> card (\<Union>m \<in> set ms'. set (signers m))"
      using that(2) by (intro card_mono) auto
    then show ?thesis
      using that(1) by linarith
  qed
  then show ?thesis
    by (simp add: quorum_laws_def)
qed

lemma demo_signature_laws: "signature_laws demo_spec"
  by (auto simp: signature_laws_def demo_validate_def split: if_splits)

lemma demo_type_inject: "demo_type t = demo_type t' \<Longrightarrow> demo_type t \<noteq> 4 \<Longrightarrow> t = t'"
  by (cases t; cases t') auto

lemma ucast_inject_small:
  fixes a b :: u64
  assumes "ucast a = (ucast b :: 8 word)" "a < 256" "b < 256"
  shows "a = b"
proof -
  have "unat (ucast x :: 8 word) = unat x" if "x < 256" for x :: u64
    using that by (simp add: unsigned_ucast_eq take_bit_nat_eq_self word_less_nat_alt)
  then show ?thesis
    using assms by (metis word_unat_eq_iff)
qed

lemma demo_encode_inject:
  assumes "demo_encode m = Inr d" "demo_encode m' = Inr d"
  shows "m = m'"
  using assms
  by (auto simp: demo_encode_def split: if_splits dest: demo_type_inject ucast_inject_small
      intro!: Message.equality)

section \<open>The run\<close>

definition demo_cm :: "OperatorID \<Rightarrow> CommitteeMember" where
  "demo_cm k = \<lparr>cm_OperatorID = k, cm_Committee = map (\<lambda>n. \<lparr>op_OperatorID = n, op_PubKey = []\<rparr>) [1, 2, 3, 4]\<rparr>"

definition demo_env :: env where
  "demo_env = \<lparr>e_now = 1000000000, e_SignSSVMessage = (\<lambda>_. Inr [7]), e_BroadcastAtSlot = (\<lambda>_ _. None)\<rparr>"

definition demo_new :: "ProcessingMessage list Instance" where
  "demo_new = NewInstance demo_spec (buildConfig demo_spec 15 demo_Network RoleCommittee) (demo_cm 1) [] 5
     (\<lambda>slot. New 0 demo_Beacon RoleCommittee slot False)"

definition demo_check :: "bytes option \<Rightarrow> string option" where
  "demo_check v = (if v = None then Some ''empty'' else None)"

definition demo_start :: "ProcessingMessage list Instance" where
  "demo_start = snd (Start demo_spec demo_env demo_new (Some [42]) demo_check)"

definition demo_msg :: "MessageType \<Rightarrow> Round \<Rightarrow> OperatorID \<Rightarrow> bytes option \<Rightarrow> ProcessingMessage" where
  "demo_msg t r k v =
     \<lparr>pm_SignedMessage = \<lparr>s_Signatures = [[7]], s_OperatorIDs = [k],
        s_SSVMessage = \<lparr>ssv_MsgType = SSVConsensusMsgType, ssv_MsgID = [], ssv_Data = []\<rparr>, s_FullData = v\<rparr>,
      pm_QBFTMessage = \<lparr>m_MsgType = t, m_Height = 5, m_Round = r, m_Identifier = [], m_Root = [42],
        m_DataRound = 0, m_RoundChangeJustification = [], m_PrepareJustification = []\<rparr>\<rparr>"

definition demo_prepared :: "input list" where
  "demo_prepared = map (Deliver demo_env)
     (demo_msg ProposalMsgType 1 2 (Some [42]) # map (\<lambda>k. demo_msg PrepareMsgType 1 k None) [1, 2, 3])"

definition demo_committed :: "input list" where
  "demo_committed = demo_prepared @ map (\<lambda>k. Deliver demo_env (demo_msg CommitMsgType 1 k None)) [1, 2]"

lemma demo_started: "started demo_spec demo_start"
proof -
  have "fst (Start demo_spec demo_env demo_new (Some [42]) demo_check) = Ok ()"
    by code_simp
  then have "Start demo_spec demo_env demo_new (Some [42]) demo_check = (Ok (), demo_start)"
    by (simp add: demo_start_def prod_eq_iff)
  then show ?thesis
    unfolding started_def demo_new_def by blast
qed

lemma demo_own_inputs: "list_all own_input demo_prepared" "list_all own_input demo_committed"
  by code_simp+

text \<open>The instance after the third commit message, and a proposal of the second round.\<close>

definition demo_decided :: "ProcessingMessage list Instance" where
  "demo_decided = run demo_spec demo_start (demo_committed @ [Deliver demo_env (demo_msg CommitMsgType 1 3 None)])"

definition demo_proposal2 :: ProcessingMessage where
  "demo_proposal2 = (demo_msg ProposalMsgType 2 3 (Some [42]))
     \<lparr>pm_QBFTMessage := (pm_QBFTMessage (demo_msg ProposalMsgType 2 3 None))
        \<lparr>m_RoundChangeJustification := map (\<lambda>k. [k, 3, 5, 2, 0]) [1, 2, 4]\<rparr>\<rparr>"

definition demo_aggregate :: SignedSSVMessage where
  "demo_aggregate = \<lparr>s_Signatures = [[7], [7], [7]], s_OperatorIDs = [1, 2, 3],
     s_SSVMessage = \<lparr>ssv_MsgType = SSVConsensusMsgType, ssv_MsgID = [], ssv_Data = []\<rparr>, s_FullData = Some [42]\<rparr>"

lemma demo_decides:
  "ProcessMsg demo_spec demo_env (run demo_spec demo_start demo_committed) (demo_msg CommitMsgType 1 3 None)
     = (Ok (True, Some [42], Some demo_aggregate), demo_decided)"
proof -
  have "fst (ProcessMsg demo_spec demo_env (run demo_spec demo_start demo_committed) (demo_msg CommitMsgType 1 3 None))
      = Ok (True, Some [42], Some demo_aggregate)"
    by code_simp
  then show ?thesis
    by (simp add: prod_eq_iff demo_decided_def run_def)
qed

end
