(* ===== verification/Qbft_Properties.thy ===== *)
theory Qbft_Properties
  imports Qbft_Demo
begin

text \<open>The properties of a QBFT instance, over its runs.\<close>

section \<open>Properties\<close>

text \<open>
  C1: Decision soundness. When processing a message makes an instance report a decision, the
  decided value is the full data of the proposal it accepted in its round, that value passed the
  value check and hashes to the voted root, and a quorum of distinct operators of the committee
  stands behind it, each with a stored commit message for that height, round and root.
\<close>

theorem decision_sound:
  assumes "container_laws S" "quorum_laws S" "started S i0" "list_all own_input xs" "i = run S i0 xs"
    and "ProcessMsg S E i msg = (Ok (True, v, agg), i')"
  shows "IsDecided i' = (True, v) \<and>
    (\<exists>chk. i_ValueChecker i = Some chk \<and> chk v = None) \<and>
    (\<exists>p ids. accepted i = Some p \<and> v = full_data p \<and> m_Root (qmsg p) = HashDataRoot S v
       \<and> distinct ids \<and> MemberHasQuorum S (st_CommitteeMember (i_State i)) (length ids)
       \<and> (\<forall>k \<in> set ids. \<exists>m \<in> set (commits S i' (round_of i)). signers m = [k]
             \<and> m_MsgType (qmsg m) = CommitMsgType \<and> m_Height (qmsg m) = st_Height (i_State i)
             \<and> m_Round (qmsg m) = round_of i \<and> m_Root (qmsg m) = HashDataRoot S v
             \<and> CheckSignersInCommittee S (pm_SignedMessage m) (cm_Committee (st_CommitteeMember (i_State i)))))"
proof -
  have inv: "inst_inv S i"
    using run_inst_inv [OF assms(1-4)] assms(5) by simp
  have inv': "inst_inv S i'"
    using qsteps_inst_inv [OF assms(1,2) ProcessMsg_qsteps inv, of E msg] assms(6) by simp
  from ProcessMsg_decided [OF assms(6)] obtain p c ids msgs a where
    p: "accepted i = Some p" "v = full_data p"
    and l: "LongestUniqueSignersForRoundAndRoot S c (round_of i) (m_Root (qmsg p)) = (ids, msgs)"
    and q: "MemberHasQuorum S (st_CommitteeMember (i_State i)) (length ids)"
    and i': "i' = (upd_State (\<lambda>s. s\<lparr>st_CommitContainer := c, st_Decided := True, st_DecidedValue := v\<rparr>) i)
                    \<lparr>i_roundTimer := Stop (i_roundTimer i)\<rparr>"
    by metis
  obtain i1 where i1: "same_setup i1 i" "isValidProposal S i1 p = Ok ()"
    using inv p(1) by (auto simp: inst_inv_def proposal_inv_def)
  have root: "m_Root (qmsg p) = HashDataRoot S v"
    using isValidProposal_root [OF i1(2)] p(2) by simp
  have checked: "\<exists>chk. i_ValueChecker i = Some chk \<and> chk v = None"
    using isValidProposal_checked [OF i1(2)] i1(1) p(2) by (simp add: same_setup_def)
  have votes: "distinct ids" "set ids = (\<Union>m \<in> set msgs. set (signers m))"
    "set msgs \<subseteq> {m \<in> set (commits S i' (round_of i)). m_Root (qmsg m) = m_Root (qmsg p)}"
    using container_lawsD(3) [OF assms(1) l] by (simp_all add: i')
  have "\<exists>m \<in> set (commits S i' (round_of i)). signers m = [k]
             \<and> m_MsgType (qmsg m) = CommitMsgType \<and> m_Height (qmsg m) = st_Height (i_State i)
             \<and> m_Round (qmsg m) = round_of i \<and> m_Root (qmsg m) = HashDataRoot S v
             \<and> CheckSignersInCommittee S (pm_SignedMessage m) (cm_Committee (st_CommitteeMember (i_State i)))"
    if "k \<in> set ids" for k
  proof -
    obtain m where m: "m \<in> set (commits S i' (round_of i))" "k \<in> set (signers m)" "m_Root (qmsg m) = m_Root (qmsg p)"
      using \<open>k \<in> set ids\<close> votes(2,3) by blast
    have "valid_commit S i' m" "m_Round (qmsg m) = round_of i"
      using m(1) inv' by (auto simp: inst_inv_def votes_inv_def)
    then show ?thesis
      using m root by (intro bexI [of _ m])
        (auto simp: valid_commit_def baseCommitValidationIgnoreSignature_def res_dest i' length_Suc_conv)
  qed
  then show ?thesis
    using checked p root votes(1) q by (auto simp: IsDecided_def i')
qed

theorem decision_sound_witness:
  "IsDecided demo_decided = (True, Some [42]) \<and>
   (\<exists>ids. distinct ids \<and> 3 \<le> length ids \<and>
      (\<forall>k \<in> set ids. \<exists>m \<in> set (commits demo_spec demo_decided 1). signers m = [k] \<and> m_Root (qmsg m) = [42]))"
proof -
  let ?i = "run demo_spec demo_start demo_committed"
  have r: "round_of ?i = 1" "HashDataRoot demo_spec (Some [42]) = [42]"
    by code_simp+
  note d = decision_sound [OF demo_container_laws demo_quorum_laws demo_started demo_own_inputs(2) refl demo_decides,
      unfolded r]
  then obtain ids where "distinct ids" "MemberHasQuorum demo_spec (st_CommitteeMember (i_State ?i)) (length ids)"
    "\<forall>k \<in> set ids. \<exists>m \<in> set (commits demo_spec demo_decided 1). signers m = [k] \<and> m_Root (qmsg m) = [42]"
    by blast
  with d show ?thesis
    by (auto simp del: demo_spec_simps(7))
qed

text \<open>
  C10: A decision is final. Whatever messages, timeouts, adopted decisions or stops follow, a
  decided instance keeps its value, and no later message makes it report a decision again.
\<close>

theorem decision_final:
  assumes "IsDecided i = (True, v)"
  shows "IsDecided (run S i xs) = (True, v) \<and>
    (\<forall>E msg w agg i'. ProcessMsg S E (run S i xs) msg \<noteq> (Ok (True, w, agg), i'))"
proof -
  have d: "st_Decided (i_State i)"
    using assms by (simp add: IsDecided_def)
  have "IsDecided (run S i xs) = (True, v)"
    using run_decided [OF d] assms by simp
  moreover have "ProcessMsg S E (run S i xs) msg \<noteq> (Ok (True, w, agg), i')" for E msg w agg i'
  proof
    assume "ProcessMsg S E (run S i xs) msg = (Ok (True, w, agg), i')"
    then have "\<not> st_Decided (i_State (run S i xs))"
      by (rule ProcessMsg_decided) simp
    then show False
      using \<open>IsDecided (run S i xs) = (True, v)\<close> by (simp add: IsDecided_def)
  qed
  ultimately show ?thesis
    by blast
qed

theorem decision_final_witness:
  "IsDecided (run demo_spec demo_decided [Timeout demo_env, Adopt 3 None, Irrelevant]) = (True, Some [42])"
proof -
  have "IsDecided demo_decided = (True, Some [42])"
    by code_simp
  then show ?thesis
    using decision_final by blast
qed

text \<open>
  C2: An operator votes once per round. Any two prepare or commit messages that an instance hands
  to the network in a run carry the same root if they are for the same round.
\<close>

theorem single_vote_per_round:
  assumes "\<And>m m' d. EncodeMessage S m = Inr d \<Longrightarrow> EncodeMessage S m' = Inr d \<Longrightarrow> m = m'"
    and "started S i" "list_all own_input xs"
    and "(sm1, h1) \<in> set (i_outbox (run S i xs))" "carries S sm1 m1" "is_vote m1"
    and "(sm2, h2) \<in> set (i_outbox (run S i xs))" "carries S sm2 m2" "is_vote m2"
    and "m_Round m1 = m_Round m2"
  shows "m_Root m1 = m_Root m2"
proof -
  obtain book where book: "\<forall>(sm, h) \<in> set (i_outbox (run S i xs)). sent_ok S (run S i xs) book sm h"
    using run_outbox_inv [OF assms(2,3)] by (auto simp: outbox_inv_def)
  have "book (m_Round m) = Some (m_Root m)"
    if "(sm, h) \<in> set (i_outbox (run S i xs))" "carries S sm m" "is_vote m" for sm h m
  proof -
    have "sent_ok S (run S i xs) book sm h"
      using that(1) book by blast
    then obtain m' where "carries S sm m'" "is_vote m' \<longrightarrow> book (m_Round m') = Some (m_Root m')"
      by (auto simp: sent_ok_def)
    moreover have "m' = m"
      using calculation(1) that(2) assms(1) by (simp add: carries_def)
    ultimately show ?thesis
      using that(3) by simp
  qed
  from this [OF assms(4-6)] this [OF assms(7-9)] assms(10) show ?thesis
    by simp
qed

theorem single_vote_per_round_witness:
  "m_Root (qmsg (demo_msg PrepareMsgType 1 1 None)) = m_Root (qmsg (demo_msg CommitMsgType 1 1 None))"
proof -
  let ?out = "i_outbox (run demo_spec demo_start demo_prepared)"
  have n: "length ?out = 2"
    by code_simp
  have "carries demo_spec (fst (?out ! 0)) (qmsg (demo_msg PrepareMsgType 1 1 None))"
    "carries demo_spec (fst (?out ! 1)) (qmsg (demo_msg CommitMsgType 1 1 None))"
    "is_vote (qmsg (demo_msg PrepareMsgType 1 1 None))" "is_vote (qmsg (demo_msg CommitMsgType 1 1 None))"
    "m_Round (qmsg (demo_msg PrepareMsgType 1 1 None)) = m_Round (qmsg (demo_msg CommitMsgType 1 1 None))"
    by code_simp+
  moreover have "(fst (?out ! k), snd (?out ! k)) \<in> set ?out" if "k < 2" for k
    using that n by simp
  ultimately show ?thesis
    using single_vote_per_round [OF _ demo_started demo_own_inputs(1), of "fst (?out ! 0)" "snd (?out ! 0)" _
        "fst (?out ! 1)" "snd (?out ! 1)"] demo_encode_inject
    by simp
qed

text \<open>
  C15: Nothing is sent at or past the cutoff round, and every message sent is this operator's own,
  for the instance's height and identifier.
\<close>

theorem sent_before_cutoff:
  assumes "started S i" "list_all own_input xs" "(sm, h) \<in> set (i_outbox (run S i xs))"
  shows "h = st_Height (i_State (run S i xs)) \<and> s_OperatorIDs sm = [myID (run S i xs)] \<and>
    (\<exists>m. carries S sm m \<and> m_Round m < cfg_CutOffRound (i_config (run S i xs))
         \<and> m_Height m = st_Height (i_State (run S i xs)) \<and> m_Identifier m = st_ID (i_State (run S i xs)))"
proof -
  obtain book where "\<forall>(sm, h) \<in> set (i_outbox (run S i xs)). sent_ok S (run S i xs) book sm h"
    using run_outbox_inv [OF assms(1,2)] by (auto simp: outbox_inv_def)
  then have "sent_ok S (run S i xs) book sm h"
    using assms(3) by blast
  then show ?thesis
    unfolding sent_ok_def by blast
qed

theorem sent_before_cutoff_witness:
  "\<exists>m. carries demo_spec (fst (i_outbox (run demo_spec demo_start demo_prepared) ! 1)) m \<and> m_Round m < 13"
proof -
  let ?i = "run demo_spec demo_start demo_prepared"
  have n: "length (i_outbox ?i) = 2" and c: "cfg_CutOffRound (i_config ?i) = 13"
    by code_simp+
  then have "(fst (i_outbox ?i ! 1), snd (i_outbox ?i ! 1)) \<in> set (i_outbox ?i)"
    by simp
  then show ?thesis
    using sent_before_cutoff [OF demo_started demo_own_inputs(1)] c by fastforce
qed

text \<open>
  C5: The prepared certificate. An instance that has prepared a value can always justify it: the
  data of its round-change message is the prepared round, the hash of the prepared value, the value
  itself and a quorum of stored prepare messages, each valid for that round and hash.
\<close>

theorem prepared_certificate:
  assumes "container_laws S" "quorum_laws S" "started S i0" "list_all own_input xs" "i = run S i0 xs"
    and "st_LastPreparedValue (i_State i) = Some v"
  shows "\<exists>js. getRoundChangeData S i
           = (st_LastPreparedRound (i_State i), HashDataRoot S (Some v), Some v, js)
         \<and> st_LastPreparedRound (i_State i) \<le> round_of i
         \<and> HasQuorum S (st_CommitteeMember (i_State i)) js
         \<and> (\<forall>m \<in> set js. validSignedPrepareForHeightRoundAndRootIgnoreSignature S i m
               (st_LastPreparedRound (i_State i)) (HashDataRoot S (Some v)) = Ok ())"
proof -
  let ?r = "st_LastPreparedRound (i_State i)"
  have inv: "inst_inv S i"
    using run_inst_inv [OF assms(1-4)] assms(5) by simp
  have prep: "FirstRound S \<le> ?r" "?r \<le> round_of i" "HasQuorum S (st_CommitteeMember (i_State i)) (prepares S i ?r)"
    "\<forall>m \<in> set (prepares S i ?r). m_Root (qmsg m) = HashDataRoot S (Some v)"
    using inv assms(6) by (auto simp: inst_inv_def prepared_inv_def Let_def)
  have valid: "validSignedPrepareForHeightRoundAndRootIgnoreSignature S i m ?r (HashDataRoot S (Some v)) = Ok ()"
    if "m \<in> set (prepares S i ?r)" for m
  proof -
    have "valid_prepare S i m" "m_Round (qmsg m) = ?r" "m_Root (qmsg m) = HashDataRoot S (Some v)"
      using inv that prep(4) by (auto simp: inst_inv_def votes_inv_def)
    then show ?thesis
      by (simp add: valid_prepare_def)
  qed
  then have "filter (\<lambda>m. validSignedPrepareForHeightRoundAndRootIgnoreSignature S i m ?r
                            (HashDataRoot S (Some v)) = Ok ()) (prepares S i ?r) = prepares S i ?r"
    by (simp add: filter_id_conv)
  then have "getRoundChangeJustification S i = prepares S i ?r"
    using assms(6) prep(3) by (simp add: getRoundChangeJustification_def Let_def)
  moreover have "?r \<noteq> NoRound S"
    using prep(1) assms(2) by (auto simp: quorum_laws_def)
  ultimately show ?thesis
    using assms(6) prep valid by (simp add: getRoundChangeData_def)
qed

theorem prepared_certificate_witness:
  "\<exists>js. getRoundChangeData demo_spec (run demo_spec demo_start demo_prepared) = (1, [42], Some [42], js)
        \<and> HasQuorum demo_spec (demo_cm 1) js"
proof -
  let ?i = "run demo_spec demo_start demo_prepared"
  have "st_LastPreparedValue (i_State ?i) = Some [42]" "st_LastPreparedRound (i_State ?i) = 1"
    "st_CommitteeMember (i_State ?i) = demo_cm 1"
    by code_simp+
  then show ?thesis
    using prepared_certificate [OF demo_container_laws demo_quorum_laws demo_started demo_own_inputs(1) refl]
    by (fastforce simp: HashDataRoot_def)
qed

text \<open>
  C3: Every accepted proposal is justified. A proposal accepted in a round after the first comes
  with a quorum of valid and signed round changes to that round; if one of them is prepared, then the
  proposed value is that of a round change with the highest prepared round among them, and a quorum
  of valid and signed prepare messages for that round and value comes with it.
\<close>

theorem accepted_proposal_justified:
  assumes "started S i0" "list_all own_input xs" "i = run S i0 xs"
    and "accepted i = Some p" "m_Round (qmsg p) \<noteq> FirstRound S"
  shows "\<exists>i1 rcs ps. same_setup i1 i
     \<and> processingMessages S ''could not create ProcessingMessage from round change justification''
         (GetRoundChangeJustifications S (qmsg p)) = Ok rcs
     \<and> processingMessages S ''could not create ProcessingMessage from prepare justification''
         (GetPrepareJustifications S (qmsg p)) = Ok ps
     \<and> HasQuorum S (st_CommitteeMember (i_State i)) rcs
     \<and> (\<forall>rc \<in> set rcs. validRoundChangeForDataVerifySignature S i1 rc (round_of i) (full_data p) = Ok ())
     \<and> ((\<exists>rc \<in> set rcs. RoundChangePrepared S (qmsg rc)) \<longrightarrow>
         (\<exists>rc \<in> set rcs. RoundChangePrepared S (qmsg rc) \<and> m_Root (qmsg rc) = HashDataRoot S (full_data p)
           \<and> (\<forall>rc' \<in> set rcs. RoundChangePrepared S (qmsg rc') \<longrightarrow> m_DataRound (qmsg rc') \<le> m_DataRound (qmsg rc))
           \<and> HasQuorum S (st_CommitteeMember (i_State i)) ps
           \<and> (\<forall>pm \<in> set ps. validSignedPrepareForHeightRoundAndRootVerifySignature S i1 pm
                 (m_DataRound (qmsg rc)) (HashDataRoot S (full_data p)) = Ok ())))"
proof -
  have "proposal_inv S i"
    using run_outbox_inv [OF assms(1,2)] assms(3) by simp
  then obtain i1 where i1: "same_setup i1 i" "isValidProposal S i1 p = Ok ()" "m_Round (qmsg p) = round_of i"
    using assms(4) by (auto simp: proposal_inv_def)
  then obtain rcs ps where
    dec: "processingMessages S ''could not create ProcessingMessage from round change justification''
         (GetRoundChangeJustifications S (qmsg p)) = Ok rcs"
      "processingMessages S ''could not create ProcessingMessage from prepare justification''
         (GetPrepareJustifications S (qmsg p)) = Ok ps"
    and just: "isProposalJustification S i1 rcs ps (round_of i) (full_data p) = Ok ()"
    by (auto simp: isValidProposal_def res_dest)
  have cm: "st_CommitteeMember (i_State i1) = st_CommitteeMember (i_State i)"
    using i1(1) by (simp add: same_setup_def)
  have "round_of i \<noteq> FirstRound S"
    using assms(5) i1(3) by simp
  note isProposalJustification_Ok [OF just this, unfolded cm]
  with i1(1) dec show ?thesis
    by blast
qed

theorem accepted_proposal_justified_witness:
  "\<exists>rcs. processingMessages demo_spec ''could not create ProcessingMessage from round change justification''
          (GetRoundChangeJustifications demo_spec (qmsg demo_proposal2)) = Ok rcs
        \<and> HasQuorum demo_spec (demo_cm 1) rcs"
proof -
  let ?i = "run demo_spec demo_start [Deliver demo_env demo_proposal2]"
  have "accepted ?i = Some demo_proposal2" "st_CommitteeMember (i_State ?i) = demo_cm 1"
    "m_Round (qmsg demo_proposal2) \<noteq> FirstRound demo_spec" "list_all own_input [Deliver demo_env demo_proposal2]"
    by code_simp+
  then show ?thesis
    using accepted_proposal_justified [OF demo_started _ refl, of "[Deliver demo_env demo_proposal2]" demo_proposal2]
    by (fastforce simp del: demo_spec_simps)
qed

text \<open>
  C12: The handlers implement the protocol. Whatever message or timeout an instance is given, and
  whatever the handler returns, the change of the instance is a sequence of protocol steps, and its
  round never goes down.
\<close>

theorem handlers_refine_protocol:
  "qsteps S i (snd (ProcessMsg S E i msg)) \<and> qsteps S i (snd (UponRoundTimeout S E i))
   \<and> round_of i \<le> round_of (snd (ProcessMsg S E i msg))
   \<and> round_of i \<le> round_of (snd (UponRoundTimeout S E i))"
  using ProcessMsg_qsteps [of S i E msg] UponRoundTimeout_qsteps [of S i E] qsteps_round by blast

text \<open>
  C17: Catching up. When a stored round change leads to no proposal of this operator but completes a
  partial quorum of messages for higher rounds, the instance moves to the lowest of those rounds.
\<close>

theorem partial_quorum_catches_up:
  assumes "AddFirstMsgForSignerAndRound S (st_RoundChangeContainer (i_State i)) msg = Inr (True, c)"
    and "\<not> HasQuorum S (st_CommitteeMember (i_State i))
           (MessagesForRound S (st_RoundChangeContainer (i_State i)) (m_Round (qmsg msg)))"
    and "i1 = upd_State (\<lambda>s. s\<lparr>st_RoundChangeContainer := c\<rparr>) i"
    and "hasReceivedProposalJustificationForLeadingRound S i1 msg = Ok None"
    and "hasReceivedPartialQuorum S i1 = (True, rcs)" "rcs \<noteq> []" "NoRound S \<le> round_of i"
  shows "round_of (snd (uponRoundChange S E i msg)) = Min ((m_Round \<circ> qmsg) ` set rcs)
         \<and> round_of i < round_of (snd (uponRoundChange S E i msg))"
proof -
  have above: "round_of i < m_Round (qmsg m)" if "m \<in> set rcs" for m
    using that assms(3,5) by (auto simp: hasReceivedPartialQuorum_def Let_def)
  then have min: "minRound S rcs = Min ((m_Round \<circ> qmsg) ` set rcs)"
    using assms(6,7) by (intro minRound_Min) (auto dest!: above)
  have "Min ((m_Round \<circ> qmsg) ` set rcs) \<in> (m_Round \<circ> qmsg) ` set rcs"
    using assms(6) by (intro Min_in) auto
  then have up: "round_of i < minRound S rcs"
    using above min by auto
  have "uponRoundChange S E i msg = uponChangeRoundPartialQuorum S E i1 (minRound S rcs)"
    using assms(1,2,4,5) up [THEN less_le_not_le [THEN iffD1]] by (simp add: uponRoundChange_def Let_def assms(3))
  moreover have "round_of (snd (uponChangeRoundPartialQuorum S E i1 (minRound S rcs))) = minRound S rcs"
    using up by (auto simp: uponChangeRoundPartialQuorum_def snd_bind_st bumpToRound_round max_def assms(3)
        split: res.splits)
  ultimately show ?thesis
    using min up by simp
qed

theorem partial_quorum_catches_up_witness:
  "round_of (snd (uponRoundChange demo_spec demo_env
     (run demo_spec demo_start [Deliver demo_env (demo_msg RoundChangeMsgType 4 2 None)])
     (demo_msg RoundChangeMsgType 3 4 None))) = 3"
proof -
  let ?i = "run demo_spec demo_start [Deliver demo_env (demo_msg RoundChangeMsgType 4 2 None)]"
  let ?m = "demo_msg RoundChangeMsgType 3 4 None"
  let ?c = "[demo_msg RoundChangeMsgType 4 2 None, demo_msg RoundChangeMsgType 3 4 None]"
  let ?j = "upd_State (\<lambda>s. s\<lparr>st_RoundChangeContainer := ?c\<rparr>) ?i"
  have "AddFirstMsgForSignerAndRound demo_spec (st_RoundChangeContainer (i_State ?i)) ?m = Inr (True, ?c)"
    "\<not> HasQuorum demo_spec (st_CommitteeMember (i_State ?i))
        (MessagesForRound demo_spec (st_RoundChangeContainer (i_State ?i)) (m_Round (qmsg ?m)))"
    "hasReceivedProposalJustificationForLeadingRound demo_spec ?j ?m = Ok None"
    "hasReceivedPartialQuorum demo_spec ?j = (True, ?c)" "NoRound demo_spec \<le> round_of ?i"
    by code_simp+
  from partial_quorum_catches_up [OF this(1,2) refl this(3,4) _ this(5), of demo_env] show ?thesis
    by (simp add: demo_msg_def min_def)
qed

text \<open>
  The aggregated decision message. It carries the full data and exactly the signer and signature
  pairs of the commit messages it was made of, in ascending order of the operator ids.
\<close>

theorem aggregated_commit_sorted:
  assumes "signature_laws S"
    and "\<forall>m \<in> set msgs. length (s_Signatures (pm_SignedMessage m)) = length (signers m)"
    and "aggregateCommitMsgs S msgs v = Ok agg"
  shows "s_FullData agg = v \<and> sorted (s_OperatorIDs agg)
    \<and> length (s_Signatures agg) = length (s_OperatorIDs agg)
    \<and> mset (zip (s_OperatorIDs agg) (s_Signatures agg))
        = mset (concat (map (\<lambda>m. zip (signers m) (s_Signatures (pm_SignedMessage m))) msgs))"
proof -
  obtain m ms where msgs: "msgs = m # ms"
    using assms(3) by (auto simp: aggregateCommitMsgs_def split: list.splits)
  obtain ret where ret: "aggregate_loop S (pm_SignedMessage m) ms = Ok ret"
    using assms(3) by (auto simp: aggregateCommitMsgs_def msgs res_dest)
  define pairs where "pairs = sort_key fst (zip (s_OperatorIDs ret) (s_Signatures ret))"
  have r: "length (s_Signatures ret) = length (s_OperatorIDs ret)"
    "zip (s_OperatorIDs ret) (s_Signatures ret)
       = concat (map (\<lambda>m. zip (signers m) (s_Signatures (pm_SignedMessage m))) msgs)"
    using aggregate_loop_pairs [OF assms(1) ret] assms(2) by (simp_all add: msgs)
  have "agg = ret\<lparr>s_FullData := v, s_OperatorIDs := map fst pairs, s_Signatures := map snd pairs\<rparr>"
    using assms(3) ret r(1) by (simp add: aggregateCommitMsgs_def msgs Let_def pairs_def)
  then show ?thesis
    using r(2) by (simp add: pairs_def zip_map_fst_snd)
qed

theorem aggregated_commit_sorted_witness:
  "\<exists>agg. aggregateCommitMsgs demo_spec (map (\<lambda>k. demo_msg CommitMsgType 1 k None) [3, 1, 2]) (Some [42]) = Ok agg
        \<and> sorted (s_OperatorIDs agg)"
proof -
  have "aggregateCommitMsgs demo_spec (map (\<lambda>k. demo_msg CommitMsgType 1 k None) [3, 1, 2]) (Some [42])
          = Ok demo_aggregate"
    "\<forall>m \<in> set (map (\<lambda>k. demo_msg CommitMsgType 1 k None) [3, 1, 2]).
        length (s_Signatures (pm_SignedMessage m)) = length (signers m)"
    by code_simp+
  then show ?thesis
    using aggregated_commit_sorted [OF demo_signature_laws] by blast
qed

text \<open>
  C8: No panic. An instance of a non-empty committee, built and started as the runners do, on a
  network with a non-zero epoch length, starts, and neither a message nor a timeout ever makes a
  handler panic, in whatever order they come.
\<close>

theorem instance_never_panics:
  assumes "container_laws S" "quorum_laws S" "signature_laws S" "list_all own_input xs"
    and "small_committee (cm_Committee cm)" "SlotsPerEpoch (nw_Beacon netCfg) \<noteq> 0" "uint h \<le> maxInt64"
    and "i0 = NewInstance S (buildConfig S CutOff netCfg role) cm ident h
                (\<lambda>slot. New (NoRound S) (nw_Beacon netCfg) role slot legacy)"
  shows "\<exists>i. Start S E i0 v chk = (Ok (), i)
             \<and> fst (ProcessMsg S E' (run S i xs) msg) \<noteq> Panic
             \<and> fst (UponRoundTimeout S E' (run S i xs)) \<noteq> Panic"
proof -
  obtain i where i: "Start S E i0 v chk = (Ok (), i)" "no_panic_setup i"
    using Start_production [OF assms(5-8)] by blast
  then have st: "started S i"
    using assms(8) unfolding started_def by blast
  have "no_panic_setup (run S i xs)" "inst_inv S (run S i xs)"
    using run_no_panic_setup [OF i(2) assms(4)] run_inst_inv [OF assms(1,2) st assms(4)] by auto
  then show ?thesis
    using i(1) ProcessMsg_no_Panic [OF assms(1,3)] UponRoundTimeout_no_Panic by blast
qed

theorem instance_never_panics_witness:
  "\<exists>i. Start demo_spec demo_env demo_new (Some [42]) demo_check = (Ok (), i)
       \<and> fst (ProcessMsg demo_spec demo_env (run demo_spec i demo_committed) (demo_msg CommitMsgType 1 3 None)) \<noteq> Panic
       \<and> fst (UponRoundTimeout demo_spec demo_env (run demo_spec i demo_committed)) \<noteq> Panic"
proof -
  have "small_committee (cm_Committee (demo_cm 1))" "SlotsPerEpoch (nw_Beacon demo_Network) \<noteq> 0"
    "uint (5 :: u64) \<le> maxInt64"
    "demo_new = NewInstance demo_spec (buildConfig demo_spec 15 demo_Network RoleCommittee) (demo_cm 1) [] 5
       (\<lambda>slot. New (NoRound demo_spec) (nw_Beacon demo_Network) RoleCommittee slot False)"
    by (simp_all add: small_committee_def demo_cm_def demo_Network_def demo_Beacon_def maxInt64_def demo_new_def)
  then show ?thesis
    by (rule instance_never_panics [OF demo_container_laws demo_quorum_laws demo_signature_laws demo_own_inputs(2)])
qed

end
