(* ===== verification/Qbft_Controller.thy ===== *)
theory Qbft_Controller
  imports Qbft_Lemmas
begin

text \<open>
  The QBFT controller, \<open>protocol/v2/qbft/controller\<close>: the bounded container of recent instances, starting
  an instance, routing a message to its instance, adopting decided messages, and timeouts. The
  container holds pointers to instances; a handler that changes an instance changes the entry of the
  container, which the model replaces.
\<close>

section \<open>The container of recent instances\<close>

definition InstancesDefaultCapacity :: nat where "InstancesDefaultCapacity = 2"

text \<open>A slice with its capacity.\<close>

record 'c Instances =
  ic_list :: "'c Instance list"
  ic_cap :: nat

abbreviation GetHeight :: "'c Instance \<Rightarrow> Height" where
  "GetHeight i \<equiv> st_Height (i_State i)"

definition FindInstance :: "'c Instances \<Rightarrow> Height \<Rightarrow> 'c Instance option" where
  "FindInstance ic height = find (\<lambda>inst. GetHeight inst = height) (ic_list ic)"

fun indexToInsert :: "'c Instance list \<Rightarrow> Height \<Rightarrow> nat" where
  "indexToInsert [] height = 0"
| "indexToInsert (existing # rest) height =
     (if GetHeight existing < height then 0 else Suc (indexToInsert rest height))"

definition addNewInstance :: "'c Instances \<Rightarrow> 'c Instance \<Rightarrow> 'c Instances" where
  "addNewInstance ic0 inst =
     (let ic = (if ic_cap ic0 = 0 then \<lparr>ic_list = [], ic_cap = InstancesDefaultCapacity\<rparr> else ic0);
          xs = ic_list ic; k = indexToInsert xs (GetHeight inst)
      in if k = length xs
         then (if length xs < ic_cap ic then ic\<lparr>ic_list := xs @ [inst]\<rparr> else ic)
         else if length xs = ic_cap ic
         then ic\<lparr>ic_list := take k xs @ inst # take (length xs - k - 1) (drop k xs)\<rparr>
         else ic\<lparr>ic_list := take k xs @ inst # drop k xs\<rparr>)"

text \<open>A change of an instance through the pointer that \<open>FindInstance\<close> returned.\<close>

fun set_first :: "Height \<Rightarrow> 'c Instance \<Rightarrow> 'c Instance list \<Rightarrow> 'c Instance list" where
  "set_first height inst [] = []"
| "set_first height inst (x # xs) = (if GetHeight x = height then inst # xs else x # set_first height inst xs)"

definition putInstance :: "'c Instances \<Rightarrow> Height \<Rightarrow> 'c Instance \<Rightarrow> 'c Instances" where
  "putInstance ic height inst = ic\<lparr>ic_list := set_first height inst (ic_list ic)\<rparr>"

section \<open>The controller\<close>

text \<open>\<open>ctl_broadcasts\<close> is the sequence of the decided messages handed to the network.\<close>

record 'c Controller =
  ctl_Identifier :: bytes
  ctl_IdentifierFn :: "(Height \<Rightarrow> bytes) option"
  ctl_LatestInstanceHeight :: Height
  ctl_RecentInstances :: "'c Instances"
  ctl_CommitteeMember :: CommitteeMember
  ctl_config :: "'c Config"
  ctl_fullNode :: bool
  ctl_broadcasts :: "(SignedSSVMessage option \<times> u64) list"

type_synonym ('c, 'a) chandler = "(qbft_err, 'a) res \<times> 'c Controller"

definition identifierAtHeight :: "'c Controller \<Rightarrow> Height \<Rightarrow> bytes" where
  "identifierAtHeight c height =
     (case ctl_IdentifierFn c of Some f \<Rightarrow> f height | None \<Rightarrow> ctl_Identifier c)"

definition NewController ::
    "'c specqbft \<Rightarrow> bytes \<Rightarrow> CommitteeMember \<Rightarrow> 'c Config \<Rightarrow> bool \<Rightarrow> 'c Controller" where
  "NewController S identifier committeeMember config fullNode =
     \<lparr>ctl_Identifier = identifier, ctl_IdentifierFn = None, ctl_LatestInstanceHeight = FirstHeight S,
      ctl_RecentInstances = \<lparr>ic_list = [], ic_cap = InstancesDefaultCapacity\<rparr>,
      ctl_CommitteeMember = committeeMember, ctl_config = config, ctl_fullNode = fullNode,
      ctl_broadcasts = []\<rparr>"

definition markRecentInstancesIrrelevant :: "'c Controller \<Rightarrow> 'c Controller" where
  "markRecentInstancesIrrelevant c =
     c\<lparr>ctl_RecentInstances := (ctl_RecentInstances c)
         \<lparr>ic_list := map MarkIrrelevant (ic_list (ctl_RecentInstances c))\<rparr>\<rparr>"

definition startInstance ::
    "'c specqbft \<Rightarrow> env \<Rightarrow> 'c Controller \<Rightarrow> Height \<Rightarrow> bytes option \<Rightarrow> (bytes option \<Rightarrow> string option)
       \<Rightarrow> (u64 \<Rightarrow> RoundTimer) \<Rightarrow> ('c, 'c Instance) chandler" where
  "startInstance S E c height value valueChecker roundTimerF =
     (if height < ctl_LatestInstanceHeight c
      then (Err (CodeWrap StartInstanceErrorCode
                   (Plain ''attempting to start an instance with a past height'')), c)
      else if FindInstance (ctl_RecentInstances c) height \<noteq> None
      then (Err (CodeWrap InstanceAlreadyRunningErrorCode (Plain ''instance already running'')), c)
      else let c = markRecentInstancesIrrelevant c;
               newInstance = NewInstance S (ctl_config c) (ctl_CommitteeMember c)
                               (identifierAtHeight c height) height roundTimerF
           in case Start S E newInstance value valueChecker of
                (Ok _, newInstance) \<Rightarrow>
                  (Ok newInstance, c\<lparr>ctl_RecentInstances := addNewInstance (ctl_RecentInstances c) newInstance,
                                     ctl_LatestInstanceHeight := height\<rparr>)
              | (Err e, _) \<Rightarrow> (Err e, c)
              | (Panic, _) \<Rightarrow> (Panic, c))"

definition StartNewInstance ::
    "'c specqbft \<Rightarrow> env \<Rightarrow> 'c Controller \<Rightarrow> Height \<Rightarrow> bytes option \<Rightarrow> (bytes option \<Rightarrow> string option)
       \<Rightarrow> (u64 \<Rightarrow> RoundTimer) \<Rightarrow> ('c, 'c Instance) chandler" where
  "StartNewInstance S E c height value valueChecker roundTimerF =
     (case valueChecker value of
        Some e \<Rightarrow> (Err (Wrap ''value invalid'' (Plain e)), c)
      | None \<Rightarrow> startInstance S E c height value valueChecker roundTimerF)"

definition isDecidedMsg :: "'c specqbft \<Rightarrow> 'c Controller \<Rightarrow> ProcessingMessage \<Rightarrow> bool" where
  "isDecidedMsg S c msg \<longleftrightarrow> MemberHasQuorum S (ctl_CommitteeMember c) (length (signers msg))
     \<and> m_MsgType (qmsg msg) = CommitMsgType"

definition ValidateDecided :: "'c specqbft \<Rightarrow> 'c Controller \<Rightarrow> ProcessingMessage \<Rightarrow> (qbft_err, unit) res" where
  "ValidateDecided S c msg =
     bind_res (ensure (isDecidedMsg S c msg) (Plain ''not a decided msg'')) (\<lambda>_.
     bind_res (map_err (Wrap ''invalid decided msg'')
                 (BaseCommitValidationVerifySignature S msg (m_Height (qmsg msg))
                    (cm_Committee (ctl_CommitteeMember c)))) (\<lambda>_.
     ensure (HashDataRoot S (s_FullData (pm_SignedMessage msg)) = m_Root (qmsg msg))
       (Coded RootHashInvalidErrorCode ''H(data) != root'')))"

text \<open>Marking an instance decided by a decided message and recording the message.\<close>

definition adoptDecided :: "'c specqbft \<Rightarrow> 'c Instance \<Rightarrow> ProcessingMessage \<Rightarrow> ('c, unit) handler" where
  "adoptDecided S inst msg =
     bind_st (map_err_st (Wrap ''mark as decided'')
                (MarkDecided inst (m_Round (qmsg msg)) (s_FullData (pm_SignedMessage msg)))) (\<lambda>_ inst.
     bind_st (of_sum (\<lambda>e. Wrap ''add message to commit-container'' (Plain e))
                (AddMsg S (st_CommitContainer (i_State inst)) msg), inst) (\<lambda>c inst.
       (Ok (), upd_State (\<lambda>s. s\<lparr>st_CommitContainer := c\<rparr>) inst)))"

definition UponDecided ::
    "'c specqbft \<Rightarrow> 'c Controller \<Rightarrow> ProcessingMessage \<Rightarrow> (u64 \<Rightarrow> RoundTimer)
       \<Rightarrow> ('c, SignedSSVMessage option) chandler" where
  "UponDecided S c msg roundTimerF =
     (let height = m_Height (qmsg msg)
      in case map_err (Wrap ''invalid decided msg'') (ValidateDecided S c msg) of
        Err e \<Rightarrow> (Err e, c)
      | Panic \<Rightarrow> (Panic, c)
      | Ok _ \<Rightarrow>
         (case FindInstance (ctl_RecentInstances c) height of
            None \<Rightarrow>
              let inst = NewInstance S (ctl_config c) (ctl_CommitteeMember c) (identifierAtHeight c height)
                           height roundTimerF
              in (case adoptDecided S inst msg of
                    (Ok _, inst) \<Rightarrow>
                      let c = c\<lparr>ctl_RecentInstances := addNewInstance (ctl_RecentInstances c) inst\<rparr>;
                          c = (if height > ctl_LatestInstanceHeight c
                               then c\<lparr>ctl_LatestInstanceHeight := height\<rparr> else c)
                      in (Ok (Some (pm_SignedMessage msg)), c)
                  | (Err e, _) \<Rightarrow> (Err e, c)
                  | (Panic, _) \<Rightarrow> (Panic, c))
          | Some inst \<Rightarrow>
              if \<not> st_Decided (i_State inst)
              then (case adoptDecided S inst msg of (r, inst) \<Rightarrow>
                      let c = c\<lparr>ctl_RecentInstances := putInstance (ctl_RecentInstances c) height inst\<rparr>
                      in (bind_res r (\<lambda>_. Ok (Some (pm_SignedMessage msg))), c))
              else let (ids, _) = LongestUniqueSignersForRoundAndRoot S (st_CommitContainer (i_State inst))
                                    (m_Round (qmsg msg)) (m_Root (qmsg msg))
                   in if length (signers msg) > length ids
                      then (case AddMsg S (st_CommitContainer (i_State inst)) msg of
                              Inl e \<Rightarrow> (Err (Plain e), c)
                            | Inr cc \<Rightarrow>
                                (Ok None, c\<lparr>ctl_RecentInstances := putInstance (ctl_RecentInstances c) height
                                    (upd_State (\<lambda>s. s\<lparr>st_CommitContainer := cc\<rparr>) inst)\<rparr>))
                      else (Ok None, c)))"

definition ErrFutureConsensusMsg :: qbft_err where
  "ErrFutureConsensusMsg = Plain ''future consensus msg''"

definition ErrInstanceNotFound :: qbft_err where
  "ErrInstanceNotFound = Plain ''instance not found''"

fun CtrlIsRetryable :: "qbft_err \<Rightarrow> bool" where
  "CtrlIsRetryable (CtrlRetryable e) = True"
| "CtrlIsRetryable (Wrap s e) = CtrlIsRetryable e"
| "CtrlIsRetryable (CodeWrap c e) = CtrlIsRetryable e"
| "CtrlIsRetryable (Retryable e) = CtrlIsRetryable e"
| "CtrlIsRetryable _ = False"

definition isFutureMessage :: "'c specqbft \<Rightarrow> 'c Controller \<Rightarrow> ProcessingMessage \<Rightarrow> bool" where
  "isFutureMessage S c msg \<longleftrightarrow>
     (if ctl_LatestInstanceHeight c = FirstHeight S
         \<and> FindInstance (ctl_RecentInstances c) (ctl_LatestInstanceHeight c) = None then True
      else m_Height (qmsg msg) > ctl_LatestInstanceHeight c)"

definition broadcastDecided :: "'c Controller \<Rightarrow> SignedSSVMessage option \<Rightarrow> Height \<Rightarrow> 'c Controller" where
  "broadcastDecided c aggregatedCommit height =
     c\<lparr>ctl_broadcasts := ctl_broadcasts c @ [(aggregatedCommit, height)]\<rparr>"

definition UponExistingInstanceMsg ::
    "'c specqbft \<Rightarrow> env \<Rightarrow> 'c Controller \<Rightarrow> ProcessingMessage \<Rightarrow> ('c, SignedSSVMessage option) chandler" where
  "UponExistingInstanceMsg S E c msg =
     (let height = m_Height (qmsg msg)
      in case FindInstance (ctl_RecentInstances c) height of
        None \<Rightarrow> (Err (CtrlRetryable ErrInstanceNotFound), c)
      | Some inst \<Rightarrow>
          if fst (IsDecided inst)
          then (Err (Coded SkipConsensusMessageAsInstanceIsDecidedErrorCode
                       ''not processing consensus message since instance is already decided''), c)
          else (case ProcessMsg S E inst msg of (r, inst) \<Rightarrow>
            let c = c\<lparr>ctl_RecentInstances := putInstance (ctl_RecentInstances c) height inst\<rparr>
            in case r of
                 Err e \<Rightarrow> (Err (if IsRetryable e then CtrlRetryable e else Wrap ''could not process msg'' e), c)
               | Panic \<Rightarrow> (Panic, c)
               | Ok (decided, _, decidedMsg) \<Rightarrow>
                   if \<not> decided then (Ok None, c)
                   else (Ok decidedMsg, broadcastDecided c decidedMsg height)))"

definition ControllerProcessMsg ::
    "'c specqbft \<Rightarrow> env \<Rightarrow> 'c Controller \<Rightarrow> SignedSSVMessage \<Rightarrow> (u64 \<Rightarrow> RoundTimer)
       \<Rightarrow> ('c, SignedSSVMessage option) chandler" where
  "ControllerProcessMsg S E c signedMessage roundTimerF =
     (case NewProcessingMessage S signedMessage of
        Inl e \<Rightarrow> (Err (Wrap ''could not create ProcessingMessage from signed message'' (Plain e)), c)
      | Inr msg \<Rightarrow>
          if identifierAtHeight c (m_Height (qmsg msg)) \<noteq> m_Identifier (qmsg msg)
          then (Err (Coded MessageIdentifierInvalidErrorCode ''message does not belong to Identifier''), c)
          else if isDecidedMsg S c msg then UponDecided S c msg roundTimerF
          else if isFutureMessage S c msg
          then (Err (CtrlRetryable (CodeWrap FutureMessageErrorCode ErrFutureConsensusMsg)), c)
          else UponExistingInstanceMsg S E c msg)"

definition OnQBFTRoundTimeout ::
    "'c specqbft \<Rightarrow> env \<Rightarrow> 'c Controller \<Rightarrow> u64 \<Rightarrow> Round \<Rightarrow> ('c, unit) chandler" where
  "OnQBFTRoundTimeout S E c slot round =
     (case FindInstance (ctl_RecentInstances c) slot of
        None \<Rightarrow> (Err (Plain ''instance is nil''), c)
      | Some inst \<Rightarrow>
          if round < st_Round (i_State inst) then (Ok (), c)
          else if fst (IsDecided inst) then (Ok (), c)
          else (case UponRoundTimeout S E inst of (r, inst) \<Rightarrow>
                  (map_err (Wrap ''failed to handle round timeout'') r,
                   c\<lparr>ctl_RecentInstances := putInstance (ctl_RecentInstances c) slot inst\<rparr>)))"

section \<open>The container is a bounded list of the highest instances\<close>

fun insert_desc :: "'c Instance \<Rightarrow> 'c Instance list \<Rightarrow> 'c Instance list" where
  "insert_desc inst [] = [inst]"
| "insert_desc inst (x # xs) =
     (if GetHeight x < GetHeight inst then inst # x # xs else x # insert_desc inst xs)"

abbreviation descending :: "'c Instance list \<Rightarrow> bool" where
  "descending \<equiv> sorted_wrt (\<lambda>a b. GetHeight b < GetHeight a)"

definition ic_ok :: "'c Instances \<Rightarrow> bool" where
  "ic_ok ic \<longleftrightarrow> ic_cap ic \<noteq> 0 \<and> length (ic_list ic) \<le> ic_cap ic \<and> descending (ic_list ic)"

lemma indexToInsert_le: "indexToInsert xs h \<le> length xs"
  by (induction xs) auto

lemma insert_desc_index:
  "insert_desc inst xs = take (indexToInsert xs (GetHeight inst)) xs @ inst # drop (indexToInsert xs (GetHeight inst)) xs"
  by (induction xs) auto

lemma addNewInstance_insert:
  assumes "ic_cap ic \<noteq> 0" "length (ic_list ic) \<le> ic_cap ic"
  shows "addNewInstance ic inst = ic\<lparr>ic_list := take (ic_cap ic) (insert_desc inst (ic_list ic))\<rparr>"
  using assms indexToInsert_le [of "ic_list ic" "GetHeight inst"]
  by (auto simp: addNewInstance_def insert_desc_index Let_def min_def take_Cons')

lemma set_insert_desc [simp]: "set (insert_desc inst xs) = insert inst (set xs)"
  by (induction xs) auto

lemma length_insert_desc [simp]: "length (insert_desc inst xs) = Suc (length xs)"
  by (induction xs) auto

lemma descending_insert_desc:
  assumes "descending xs" "\<forall>x \<in> set xs. GetHeight x \<noteq> GetHeight inst"
  shows "descending (insert_desc inst xs)"
  using assms by (induction xs) (auto intro: less_trans)

lemma find_heights: "find (\<lambda>i. GetHeight i = h) xs = None \<longleftrightarrow> (\<forall>i \<in> set xs. GetHeight i \<noteq> h)"
  by (auto simp: find_None_iff)

lemma find_descending:
  "descending xs \<Longrightarrow> i \<in> set xs \<Longrightarrow> find (\<lambda>x. GetHeight x = GetHeight i) xs = Some i"
  by (induction xs) auto

lemma FindInstance_Some: "FindInstance ic h = Some i \<Longrightarrow> i \<in> set (ic_list ic) \<and> GetHeight i = h"
  by (auto simp: FindInstance_def find_Some_iff)

lemma descending_take: "descending xs \<Longrightarrow> descending (take n xs)"
  using sorted_wrt_take by blast

text \<open>
  The contract of the container that the controller relies on: a lookup finds an instance of the height
  asked for, an insertion of a new height keeps the container well formed and finds the new instance
  if it is the highest, and changes no other lookup except by evicting.
\<close>

locale instance_store =
  fixes store_ok :: "'s \<Rightarrow> bool" and lookup :: "'s \<Rightarrow> Height \<Rightarrow> 'i option"
    and insert_new :: "'s \<Rightarrow> 'i \<Rightarrow> 's" and height_of :: "'i \<Rightarrow> Height"
  assumes lookup_height: "lookup s h = Some i \<Longrightarrow> height_of i = h"
    and insert_ok: "store_ok s \<Longrightarrow> lookup s (height_of i) = None \<Longrightarrow> store_ok (insert_new s i)"
    and insert_top: "store_ok s \<Longrightarrow> (\<And>h j. lookup s h = Some j \<Longrightarrow> h < height_of i) \<Longrightarrow>
      lookup (insert_new s i) (height_of i) = Some i"
    and insert_other: "store_ok s \<Longrightarrow> lookup s (height_of i) = None \<Longrightarrow> h \<noteq> height_of i \<Longrightarrow>
      lookup (insert_new s i) h = None \<or> lookup (insert_new s i) h = lookup s h"
begin

lemma top_lookup:
  assumes "store_ok s" "\<And>h j. lookup s h = Some j \<Longrightarrow> h < height_of i" "lookup (insert_new s i) h = Some j"
  shows "j = i \<and> h = height_of i \<or> lookup s h = Some j"
proof (cases "h = height_of i")
  case True
  then show ?thesis
    using insert_top [OF assms(1,2)] assms(3) by simp
next
  case False
  have "lookup s (height_of i) = None"
    using assms(2) by (metis less_irrefl not_Some_eq)
  then show ?thesis
    using insert_other [OF assms(1) _ False] assms(3) by auto
qed

lemma two_tops:
  assumes "store_ok s" "\<And>h j. lookup s h = Some j \<Longrightarrow> h < height_of i" "height_of i < height_of k"
  shows "lookup (insert_new (insert_new s i) k) (height_of k) = Some k"
proof (rule insert_top)
  have "lookup s (height_of i) = None"
    using assms(2) by (metis less_irrefl not_Some_eq)
  then show "store_ok (insert_new s i)"
    by (rule insert_ok [OF assms(1)])
next
  fix h j
  assume "lookup (insert_new s i) h = Some j"
  then have "h \<le> height_of i"
    using top_lookup [OF assms(1,2)] assms(2) by (fastforce intro: less_imp_le)
  then show "h < height_of k"
    using assms(3) by simp
qed

end

lemma find_take_descending:
  assumes "descending xs" "find (\<lambda>i. GetHeight i = h) (take n xs) = Some i"
  shows "find (\<lambda>i. GetHeight i = h) xs = Some i"
  using assms find_descending [OF assms(1), of i] by (auto simp: find_Some_iff dest: in_set_takeD)

interpretation ri: instance_store "ic_ok :: 'c Instances \<Rightarrow> bool" FindInstance addNewInstance GetHeight
proof
  fix s :: "'c Instances" and h i
  assume "FindInstance s h = Some i"
  then show "GetHeight i = h"
    by (simp add: FindInstance_Some)
next
  fix s :: "'c Instances" and i :: "'c Instance"
  assume "ic_ok s" "FindInstance s (GetHeight i) = None"
  then show "ic_ok (addNewInstance s i)"
    by (auto simp: ic_ok_def FindInstance_def find_heights addNewInstance_insert
        intro!: descending_take descending_insert_desc)
next
  fix s :: "'c Instances" and i :: "'c Instance"
  assume ok: "ic_ok s" and top: "\<And>h j. FindInstance s h = Some j \<Longrightarrow> h < GetHeight i"
  have "GetHeight x < GetHeight i" if "x \<in> set (ic_list s)" for x
    using top [of "GetHeight x" x] find_descending [of "ic_list s" x] that ok by (simp add: ic_ok_def FindInstance_def)
  then have "insert_desc i (ic_list s) = i # ic_list s"
    by (cases "ic_list s") auto
  then show "FindInstance (addNewInstance s i) (GetHeight i) = Some i"
    using ok by (auto simp: ic_ok_def FindInstance_def addNewInstance_insert take_Cons' split: if_splits)
next
  fix s :: "'c Instances" and i :: "'c Instance" and h
  assume ok: "ic_ok s" and new: "FindInstance s (GetHeight i) = None" and other: "h \<noteq> GetHeight i"
  have desc: "descending (insert_desc i (ic_list s))"
    using ok new by (auto simp: ic_ok_def FindInstance_def find_heights intro!: descending_insert_desc)
  have same: "find (\<lambda>x. GetHeight x = h) (insert_desc i xs) = find (\<lambda>x. GetHeight x = h) xs" for xs
    using other by (induction xs) auto
  show "FindInstance (addNewInstance s i) h = None \<or> FindInstance (addNewInstance s i) h = FindInstance s h"
    using ok find_take_descending [OF desc, of h] same [of "ic_list s"]
    by (cases "FindInstance (addNewInstance s i) h") (auto simp: ic_ok_def FindInstance_def addNewInstance_insert)
qed

section \<open>Runs of a controller\<close>

datatype cinput =
    StartHeight env Height "bytes option" "bytes option \<Rightarrow> string option" "u64 \<Rightarrow> RoundTimer"
  | Receive env SignedSSVMessage "u64 \<Rightarrow> RoundTimer"
  | RoundTimeoutAt env u64 Round

fun chandle :: "'c specqbft \<Rightarrow> 'c Controller \<Rightarrow> cinput \<Rightarrow> 'c Controller" where
  "chandle S c (StartHeight E h v chk tf) = snd (StartNewInstance S E c h v chk tf)"
| "chandle S c (Receive E sm tf) = snd (ControllerProcessMsg S E c sm tf)"
| "chandle S c (RoundTimeoutAt E slot r) = snd (OnQBFTRoundTimeout S E c slot r)"

definition crun :: "'c specqbft \<Rightarrow> 'c Controller \<Rightarrow> cinput list \<Rightarrow> 'c Controller" where
  "crun S c xs = foldl (chandle S) c xs"

text \<open>An instance that still works: neither decided nor stopped.\<close>

definition active :: "'c Instance \<Rightarrow> bool" where
  "active i \<longleftrightarrow> \<not> st_Decided (i_State i) \<and> \<not> i_markedIrrelevant i"

definition ctl_inv :: "'c Controller \<Rightarrow> bool" where
  "ctl_inv c \<longleftrightarrow> ic_ok (ctl_RecentInstances c)
     \<and> (\<forall>i \<in> set (ic_list (ctl_RecentInstances c)).
          GetHeight i \<le> ctl_LatestInstanceHeight c \<and> (\<not> st_Decided (i_State i) \<longrightarrow> i_ValueChecker i \<noteq> None))
     \<and> length (filter active (ic_list (ctl_RecentInstances c))) \<le> 1"

text \<open>Replacing an instance by one of the same height that is not more active than before.\<close>

lemma descending_map_height:
  assumes "map GetHeight xs = map GetHeight ys"
  shows "descending xs = descending ys"
proof -
  have "descending zs = sorted_wrt (\<lambda>a b. b < a) (map GetHeight zs)" for zs :: "'c Instance list"
    by (simp add: sorted_wrt_map)
  with assms show ?thesis
    by metis
qed

lemma set_first_heights [simp]:
  "GetHeight j = h \<Longrightarrow> map GetHeight (set_first h j xs) = map GetHeight xs"
  by (induction xs) auto

lemma length_set_first [simp]: "length (set_first h j xs) = length xs"
  by (induction xs) auto

lemma set_first_in: "x \<in> set (set_first h j xs) \<Longrightarrow> x \<in> set xs \<or> x = j"
  by (induction xs) (auto split: if_splits)

lemma filter_set_first:
  assumes "find (\<lambda>i. GetHeight i = h) xs = Some i" "active j \<Longrightarrow> active i"
  shows "length (filter active (set_first h j xs)) \<le> length (filter active xs)"
  using assms by (induction xs) (auto split: if_splits)

lemma putInstance_inv:
  assumes "ctl_inv c" "FindInstance (ctl_RecentInstances c) h = Some i" "GetHeight j = h"
    and "active j \<Longrightarrow> active i" "i_ValueChecker j = i_ValueChecker i"
    and "st_Decided (i_State i) \<Longrightarrow> st_Decided (i_State j)"
  shows "ctl_inv (c\<lparr>ctl_RecentInstances := putInstance (ctl_RecentInstances c) h j\<rparr>)"
proof -
  let ?xs = "ic_list (ctl_RecentInstances c)"
  have i: "i \<in> set ?xs" "GetHeight i = h"
    using FindInstance_Some [OF assms(2)] by auto
  have "descending (set_first h j ?xs)"
    using assms(1) descending_map_height [OF set_first_heights [OF assms(3), of ?xs]]
    by (simp add: ctl_inv_def ic_ok_def)
  moreover have "length (filter active (set_first h j ?xs)) \<le> 1"
    using filter_set_first [of h ?xs i j] assms(1,2,4) by (simp add: ctl_inv_def FindInstance_def)
  ultimately show ?thesis
    using assms i by (auto simp: ctl_inv_def ic_ok_def putInstance_def dest!: set_first_in)
qed

lemma find_set_first:
  assumes "find (\<lambda>x. GetHeight x = h) xs = Some i" "GetHeight j = h"
  shows "find (\<lambda>x. GetHeight x = h') (set_first h j xs) = (if h' = h then Some j else find (\<lambda>x. GetHeight x = h') xs)"
  using assms by (induction xs) (auto split: if_splits)

lemma FindInstance_putInstance:
  assumes "FindInstance ic h = Some i" "GetHeight j = h"
  shows "FindInstance (putInstance ic h j) h' = (if h' = h then Some j else FindInstance ic h')"
  using assms find_set_first [of h "ic_list ic" i j h'] by (simp add: FindInstance_def putInstance_def)

section \<open>The changes a handler makes\<close>

text \<open>What may happen to an instance that is found by its height.\<close>

definition advances :: "'c Instance \<Rightarrow> 'c Instance \<Rightarrow> bool" where
  "advances i j \<longleftrightarrow> GetHeight j = GetHeight i \<and> i_ValueChecker j = i_ValueChecker i
     \<and> i_markedIrrelevant j = i_markedIrrelevant i
     \<and> (st_Decided (i_State i) \<longrightarrow> IsDecided j = IsDecided i)"

inductive cstep :: "'c Controller \<Rightarrow> 'c Controller \<Rightarrow> bool" for c where
  none: "ctl_RecentInstances c' = ctl_RecentInstances c \<Longrightarrow>
    ctl_LatestInstanceHeight c' = ctl_LatestInstanceHeight c \<Longrightarrow> cstep c c'"
| put: "FindInstance (ctl_RecentInstances c) h = Some i \<Longrightarrow> advances i j \<Longrightarrow>
    ctl_RecentInstances c' = putInstance (ctl_RecentInstances c) h j \<Longrightarrow>
    ctl_LatestInstanceHeight c' = ctl_LatestInstanceHeight c \<Longrightarrow> cstep c c'"
| stop_all: "ctl_RecentInstances c' = ctl_RecentInstances (markRecentInstancesIrrelevant c) \<Longrightarrow>
    ctl_LatestInstanceHeight c' = ctl_LatestInstanceHeight c \<Longrightarrow> cstep c c'"
| start: "ctl_LatestInstanceHeight c \<le> GetHeight i \<Longrightarrow>
    FindInstance (ctl_RecentInstances c) (GetHeight i) = None \<Longrightarrow> i_ValueChecker i \<noteq> None \<Longrightarrow>
    ctl_RecentInstances c' = addNewInstance (ctl_RecentInstances (markRecentInstancesIrrelevant c)) i \<Longrightarrow>
    ctl_LatestInstanceHeight c' = GetHeight i \<Longrightarrow> cstep c c'"
| adopt: "FindInstance (ctl_RecentInstances c) (GetHeight i) = None \<Longrightarrow> st_Decided (i_State i) \<Longrightarrow>
    ctl_RecentInstances c' = addNewInstance (ctl_RecentInstances c) i \<Longrightarrow>
    ctl_LatestInstanceHeight c' = max (ctl_LatestInstanceHeight c) (GetHeight i) \<Longrightarrow> cstep c c'"

lemma cstep_put:
  "FindInstance (ctl_RecentInstances c) h = Some i \<Longrightarrow> advances i j \<Longrightarrow>
     cstep c (c\<lparr>ctl_RecentInstances := putInstance (ctl_RecentInstances c) h j\<rparr>)"
  by (rule cstep.put) auto

lemma cstep_adopt:
  "FindInstance (ctl_RecentInstances c) (GetHeight i) = None \<Longrightarrow> st_Decided (i_State i) \<Longrightarrow>
     cstep c (c\<lparr>ctl_RecentInstances := addNewInstance (ctl_RecentInstances c) i,
                ctl_LatestInstanceHeight := max (ctl_LatestInstanceHeight c) (GetHeight i)\<rparr>)"
  by (rule cstep.adopt) auto

lemma qstep_marked: "qstep S i j \<Longrightarrow> i_markedIrrelevant j = i_markedIrrelevant i"
  by (induction rule: qstep.induct) (auto dest!: MarkDecided_Ok)

lemma qstep_advances: "qstep S i j \<Longrightarrow> advances i j"
  using qstep_same_setup [of S i j] qstep_decided [of S i j] qstep_marked [of S i j]
  by (simp add: advances_def same_setup_def)

lemma qsteps_advances: "qsteps S i j \<Longrightarrow> advances i j"
proof (induction rule: rtranclp_induct)
  case base
  then show ?case
    by (simp add: advances_def)
next
  case (step j k)
  then show ?case
    using qstep_advances [of S j k] by (auto simp: advances_def IsDecided_def)
qed

lemma Start_Ok:
  assumes "Start S E (NewInstance S config cm ident h tf) v chk = (Ok (), i)"
  shows "GetHeight i = h" "i_ValueChecker i \<noteq> None"
proof -
  have "started S i"
    using assms unfolding started_def by blast
  have "GetHeight i = h \<and> i_ValueChecker i \<noteq> None"
    using assms
    by (auto simp: Start_def bind_st_Ok_iff Let_def Broadcast_def NewInstance_def split: if_splits res.splits)
  then show "GetHeight i = h" "i_ValueChecker i \<noteq> None"
    by auto
qed

lemma StartNewInstance_cstep: "cstep c (snd (StartNewInstance S E c h v chk tf))"
proof (cases "chk v = None \<and> \<not> h < ctl_LatestInstanceHeight c \<and> FindInstance (ctl_RecentInstances c) h = None")
  case False
  then show ?thesis
    by (auto simp: StartNewInstance_def startInstance_def split: option.splits intro: cstep.none)
next
  case True
  define c1 where "c1 = markRecentInstancesIrrelevant c"
  define n where "n = NewInstance S (ctl_config c1) (ctl_CommitteeMember c1) (identifierAtHeight c1 h) h tf"
  have eq: "StartNewInstance S E c h v chk tf =
     (case Start S E n v chk of
        (Ok _, newInstance) \<Rightarrow>
          (Ok newInstance, c1\<lparr>ctl_RecentInstances := addNewInstance (ctl_RecentInstances c1) newInstance,
                             ctl_LatestInstanceHeight := h\<rparr>)
      | (Err e, _) \<Rightarrow> (Err e, c1) | (Panic, _) \<Rightarrow> (Panic, c1))"
    using True by (auto simp: StartNewInstance_def startInstance_def Let_def c1_def n_def split: prod.splits res.splits)
  have same: "ctl_LatestInstanceHeight c1 = ctl_LatestInstanceHeight c"
    by (simp add: c1_def markRecentInstancesIrrelevant_def)
  obtain r i where st: "Start S E n v chk = (r, i)"
    by fastforce
  show ?thesis
  proof (cases r)
    case (Ok u)
    then have "GetHeight i = h" "i_ValueChecker i \<noteq> None"
      using st Start_Ok unfolding n_def by auto
    then show ?thesis
      using True st Ok by (intro cstep.start [of _ i]) (auto simp: eq c1_def)
  qed (use st same in \<open>auto simp: eq c1_def intro: cstep.stop_all\<close>)
qed

lemma adoptDecided_shape:
  assumes "adoptDecided S i msg = (r, j)"
  shows "advances i j" "r = Ok u \<Longrightarrow> st_Decided (i_State j)"
    "r = Ok u \<Longrightarrow> IsDecided j = (True, s_FullData (pm_SignedMessage msg))"
  using assms by (auto simp: adoptDecided_def MarkDecided_def advances_def IsDecided_def bind_st_eq
      split: if_splits res.splits)

lemma UponDecided_cstep: "cstep c (snd (UponDecided S c msg tf))"
proof (cases "ValidateDecided S c msg = Ok ()")
  case False
  then show ?thesis
    by (cases "ValidateDecided S c msg") (auto simp: UponDecided_def Let_def intro: cstep.none)
next
  case True
  let ?h = "m_Height (qmsg msg)"
  show ?thesis
  proof (cases "FindInstance (ctl_RecentInstances c) ?h")
    case None
    let ?n = "NewInstance S (ctl_config c) (ctl_CommitteeMember c) (identifierAtHeight c ?h) ?h tf"
    obtain r i where ad: "adoptDecided S ?n msg = (r, i)"
      by fastforce
    have "GetHeight i = ?h"
      using adoptDecided_shape(1) [OF ad] by (simp add: advances_def NewInstance_def)
    moreover have "st_Decided (i_State i)" if "r = Ok u" for u
      using adoptDecided_shape(2) [OF ad that] .
    ultimately show ?thesis
      using True None ad cstep_adopt [of c i]
      by (cases r) (auto simp: UponDecided_def Let_def max_def not_less intro: cstep.none split: if_splits)
  next
    case (Some i)
    obtain r j where ad: "adoptDecided S i msg = (r, j)"
      by fastforce
    have "cstep c (c\<lparr>ctl_RecentInstances := putInstance (ctl_RecentInstances c) ?h
                        (upd_State (\<lambda>s. s\<lparr>st_CommitContainer := cc\<rparr>) i)\<rparr>)" for cc
      using Some by (intro cstep.put) (auto simp: advances_def IsDecided_def)
    then show ?thesis
      using True Some ad adoptDecided_shape(1) [OF ad]
      by (auto simp: UponDecided_def Let_def split: prod.splits sum.splits intro: cstep.none cstep.put)
  qed
qed

lemma UponExistingInstanceMsg_cstep: "cstep c (snd (UponExistingInstanceMsg S E c msg))"
proof (cases "FindInstance (ctl_RecentInstances c) (m_Height (qmsg msg))")
  case None
  then show ?thesis
    by (auto simp: UponExistingInstanceMsg_def Let_def intro: cstep.none)
next
  case (Some i)
  obtain r j where p: "ProcessMsg S E i msg = (r, j)"
    by fastforce
  then have "advances i j"
    using qsteps_advances [OF ProcessMsg_qsteps [of S i E msg]] by simp
  then show ?thesis
    using Some p
    by (auto simp: UponExistingInstanceMsg_def Let_def broadcastDecided_def split: res.splits prod.splits
        intro: cstep.none cstep.put)
qed

lemma chandle_cstep: "cstep c (chandle S c x)"
proof (cases x)
  case (StartHeight E h v chk tf)
  then show ?thesis
    by (simp add: StartNewInstance_cstep)
next
  case (Receive E sm tf)
  then show ?thesis
    using UponDecided_cstep UponExistingInstanceMsg_cstep
    by (auto simp: ControllerProcessMsg_def split: sum.splits intro: cstep.none)
next
  case (RoundTimeoutAt E slot r)
  have "advances i j" if "UponRoundTimeout S E i = (r', j)" for i r' j
    using qsteps_advances [OF UponRoundTimeout_qsteps [of S i E]] that by simp
  then show ?thesis
    using RoundTimeoutAt
    by (auto simp: OnQBFTRoundTimeout_def split: option.splits prod.splits intro: cstep.none cstep_put)
qed

section \<open>The invariant of the controller\<close>

lemma ctl_inv_cong:
  "ctl_RecentInstances c' = ctl_RecentInstances c \<Longrightarrow>
   ctl_LatestInstanceHeight c' = ctl_LatestInstanceHeight c \<Longrightarrow> ctl_inv c' = ctl_inv c"
  by (simp add: ctl_inv_def)

lemma MarkIrrelevant_simps [simp]:
  "GetHeight (MarkIrrelevant i) = GetHeight i" "IsDecided (MarkIrrelevant i) = IsDecided i"
  "i_ValueChecker (MarkIrrelevant i) = i_ValueChecker i" "\<not> active (MarkIrrelevant i)"
  "st_Decided (i_State (MarkIrrelevant i)) = st_Decided (i_State i)"
  by (simp_all add: MarkIrrelevant_def IsDecided_def active_def)

lemma markRecent_list:
  "ic_list (ctl_RecentInstances (markRecentInstancesIrrelevant c)) = map MarkIrrelevant (ic_list (ctl_RecentInstances c))"
  "ic_cap (ctl_RecentInstances (markRecentInstancesIrrelevant c)) = ic_cap (ctl_RecentInstances c)"
  by (simp_all add: markRecentInstancesIrrelevant_def)

lemma find_map_MarkIrrelevant:
  "find (\<lambda>i. GetHeight i = h) (map MarkIrrelevant xs) = map_option MarkIrrelevant (find (\<lambda>i. GetHeight i = h) xs)"
  by (induction xs) auto

lemma markRecent_find:
  "FindInstance (ctl_RecentInstances (markRecentInstancesIrrelevant c)) h
     = map_option MarkIrrelevant (FindInstance (ctl_RecentInstances c) h)"
  by (simp add: FindInstance_def markRecent_list find_map_MarkIrrelevant)

lemma ic_ok_markRecent:
  "ic_ok (ctl_RecentInstances c) \<Longrightarrow> ic_ok (ctl_RecentInstances (markRecentInstancesIrrelevant c))"
  by (simp add: ic_ok_def markRecent_list sorted_wrt_map)

lemma filter_insert_desc: "length (filter active (insert_desc i xs)) = (if active i then 1 else 0) + length (filter active xs)"
  by (induction xs) auto

lemma filter_take_le: "length (filter P (take n xs)) \<le> length (filter P xs)"
proof -
  have "filter P xs = filter P (take n xs) @ filter P (drop n xs)"
    by (metis append_take_drop_id filter_append)
  then show ?thesis
    by simp
qed

lemma addNew_inv:
  assumes "ic_ok ic" "FindInstance ic (GetHeight i) = None" "\<forall>x \<in> set (ic_list ic). GetHeight x \<le> latest \<and>
      (\<not> st_Decided (i_State x) \<longrightarrow> i_ValueChecker x \<noteq> None)"
    and "GetHeight i \<le> latest" "\<not> st_Decided (i_State i) \<longrightarrow> i_ValueChecker i \<noteq> None"
    and "(if active i then 1 else 0) + length (filter active (ic_list ic)) \<le> 1"
    and "ctl_RecentInstances c = addNewInstance ic i" "ctl_LatestInstanceHeight c = latest"
  shows "ctl_inv c"
proof -
  have l: "ic_list (addNewInstance ic i) = take (ic_cap ic) (insert_desc i (ic_list ic))"
    using assms(1) by (simp add: addNewInstance_insert ic_ok_def)
  have "set (ic_list (addNewInstance ic i)) \<subseteq> insert i (set (ic_list ic))"
    unfolding l using set_take_subset [of "ic_cap ic" "insert_desc i (ic_list ic)"] by simp
  moreover have "length (filter active (ic_list (addNewInstance ic i))) \<le> 1"
    using filter_take_le [of active "ic_cap ic" "insert_desc i (ic_list ic)"] assms(6)
    unfolding l filter_insert_desc by linarith
  ultimately show ?thesis
    using assms(3-5) ri.insert_ok [OF assms(1,2)] unfolding ctl_inv_def assms(7,8) by blast
qed

lemma cstep_inv:
  assumes "cstep c c'" "ctl_inv c"
  shows "ctl_inv c'"
  using assms(1)
proof cases
  case none
  then show ?thesis
    using assms(2) ctl_inv_cong by blast
next
  case (put h i j)
  have "ctl_inv (c\<lparr>ctl_RecentInstances := putInstance (ctl_RecentInstances c) h j\<rparr>)"
    using put(1,2) FindInstance_Some [OF put(1)]
    by (intro putInstance_inv [OF assms(2) put(1)]) (auto simp: advances_def active_def IsDecided_def)
  then show ?thesis
    using put(3,4) ctl_inv_cong [of c' "c\<lparr>ctl_RecentInstances := putInstance (ctl_RecentInstances c) h j\<rparr>"] by simp
next
  case stop_all
  have "filter active (map MarkIrrelevant xs) = []" for xs
    by (induction xs) auto
  then show ?thesis
    using assms(2) stop_all ic_ok_markRecent [of c] by (simp add: ctl_inv_def markRecent_list)
next
  case (start i)
  have "filter active (map MarkIrrelevant xs) = []" for xs
    by (induction xs) auto
  then show ?thesis
    using assms(2) start
    by (intro addNew_inv [OF ic_ok_markRecent [of c], of i "GetHeight i"])
      (auto simp: ctl_inv_def markRecent_list markRecent_find intro: order_trans)
next
  case (adopt i)
  then show ?thesis
    using assms(2)
    by (intro addNew_inv [of "ctl_RecentInstances c" i "max (ctl_LatestInstanceHeight c) (GetHeight i)"])
      (auto simp: ctl_inv_def active_def max_def intro: order_trans)
qed

lemma cstep_latest: "cstep c c' \<Longrightarrow> ctl_LatestInstanceHeight c \<le> ctl_LatestInstanceHeight c'"
  by (induction rule: cstep.induct) auto

lemma crun_inv: "ctl_inv c \<Longrightarrow> ctl_inv (crun S c xs)"
  unfolding crun_def by (induction xs arbitrary: c) (auto intro: cstep_inv [OF chandle_cstep])

lemma crun_latest: "ctl_LatestInstanceHeight c \<le> ctl_LatestInstanceHeight (crun S c xs)"
  unfolding crun_def
proof (induction xs arbitrary: c)
  case (Cons x xs)
  then show ?case
    using order_trans [OF cstep_latest [OF chandle_cstep [of c S x]] Cons.IH] by simp
qed simp

end
