(* ===== verification/Qbft_Controller_Properties.thy ===== *)
theory Qbft_Controller_Properties
  imports Qbft_Controller Qbft_Demo
begin

text \<open>The properties of the QBFT controller, over its runs.\<close>

section \<open>Decided heights\<close>

text \<open>
  The height \<open>h\<close> is decided with value \<open>v\<close>, or its instance has been pushed out by higher ones for
  good.
\<close>

definition settled :: "Height \<Rightarrow> bytes option \<Rightarrow> 'c Instances \<Rightarrow> bool" where
  "settled h v ic \<longleftrightarrow> (\<exists>i. FindInstance ic h = Some i \<and> IsDecided i = (True, v))
     \<or> length (ic_list ic) = ic_cap ic \<and> (\<forall>i \<in> set (ic_list ic). h < GetHeight i)"

lemma descending_dropped:
  assumes "descending ys" "x \<in> set ys" "x \<notin> set (take n ys)"
  shows "length (take n ys) = n \<and> (\<forall>y \<in> set (take n ys). GetHeight x < GetHeight y)"
proof -
  have "x \<in> set (drop n ys)"
    using assms(2,3) by (metis UnE append_take_drop_id set_append)
  then have "n < length ys"
    by (metis drop_all empty_iff list.set(1) not_less)
  moreover have "descending (take n ys @ drop n ys)"
    using assms(1) by simp
  ultimately show ?thesis
    using \<open>x \<in> set (drop n ys)\<close> unfolding sorted_wrt_append by simp
qed

lemma insert_desc_last: "\<forall>x \<in> set xs. GetHeight i < GetHeight x \<Longrightarrow> insert_desc i xs = xs @ [i]"
  by (induction xs) (auto dest: less_asym)

lemma addNew_settled:
  assumes "ic_ok ic" "FindInstance ic (GetHeight i) = None" "settled h v ic"
  shows "settled h v (addNewInstance ic i)"
proof -
  let ?ys = "insert_desc i (ic_list ic)"
  have l: "addNewInstance ic i = ic\<lparr>ic_list := take (ic_cap ic) ?ys\<rparr>"
    using assms(1) by (simp add: addNewInstance_insert ic_ok_def)
  have desc: "descending ?ys"
    using assms(1,2) by (auto simp: ic_ok_def FindInstance_def find_heights intro!: descending_insert_desc)
  from assms(3) consider (found) j where "FindInstance ic h = Some j" "IsDecided j = (True, v)"
    | (gone) "length (ic_list ic) = ic_cap ic" "\<forall>i \<in> set (ic_list ic). h < GetHeight i"
    by (auto simp: settled_def)
  then show ?thesis
  proof cases
    case (found j)
    then have j: "j \<in> set ?ys" "GetHeight j = h"
      using FindInstance_Some [OF found(1)] by auto
    show ?thesis
    proof (cases "j \<in> set (take (ic_cap ic) ?ys)")
      case True
      then show ?thesis
        using find_descending [OF descending_take [OF desc] True] found(2) j(2)
        by (auto simp: settled_def l FindInstance_def)
    next
      case False
      then show ?thesis
        using descending_dropped [OF desc j(1) False] j(2) by (simp add: settled_def l)
    qed
  next
    case gone
    show ?thesis
    proof (cases "h < GetHeight i")
      case True
      have "set (take (ic_cap ic) ?ys) \<subseteq> insert i (set (ic_list ic))"
        using set_take_subset [of "ic_cap ic" ?ys] by simp
      then show ?thesis
        using gone True by (auto simp: settled_def l)
    next
      case False
      then have "?ys = ic_list ic @ [i]"
        using gone(2) by (intro insert_desc_last) (auto intro: le_less_trans)
      then show ?thesis
        using gone by (simp add: settled_def l)
    qed
  qed
qed

lemma cstep_settled:
  assumes "cstep c c'" "ctl_inv c" "settled h v (ctl_RecentInstances c)"
  shows "settled h v (ctl_RecentInstances c')"
  using assms(1)
proof cases
  case none
  then show ?thesis
    using assms(3) by simp
next
  case (put h' i j)
  have j: "GetHeight j = h'" "st_Decided (i_State i) \<longrightarrow> IsDecided j = IsDecided i"
    using put(2) FindInstance_Some [OF put(1)] by (auto simp: advances_def)
  let ?xs = "ic_list (ctl_RecentInstances c)"
  have "GetHeight ` set (set_first h' j ?xs) = GetHeight ` set ?xs"
    by (metis set_map set_first_heights [OF j(1)])
  then have "(\<forall>i \<in> set (set_first h' j ?xs). h < GetHeight i) = (\<forall>i \<in> set ?xs. h < GetHeight i)"
    by (metis (no_types, lifting) imageE imageI)
  then show ?thesis
    using assms(3) put(1,3) j FindInstance_putInstance [OF put(1) j(1)]
    by (auto simp: settled_def putInstance_def IsDecided_def)
next
  case stop_all
  then show ?thesis
    using assms(3) by (auto simp: settled_def markRecent_find markRecent_list)
next
  case (start i)
  have "settled h v (ctl_RecentInstances (markRecentInstancesIrrelevant c))"
    using assms(3) by (auto simp: settled_def markRecent_find markRecent_list)
  then show ?thesis
    using start assms(2) by (auto simp: ctl_inv_def markRecent_find intro!: addNew_settled ic_ok_markRecent)
next
  case (adopt i)
  then show ?thesis
    using assms(2,3) by (auto simp: ctl_inv_def intro!: addNew_settled)
qed

lemma crun_settled:
  "ctl_inv c \<Longrightarrow> settled h v (ctl_RecentInstances c) \<Longrightarrow> settled h v (ctl_RecentInstances (crun S c xs))"
  unfolding crun_def
  by (induction xs arbitrary: c) (auto intro: cstep_settled [OF chandle_cstep] cstep_inv [OF chandle_cstep])

lemma cstep_cap:
  assumes "cstep c c'" "ctl_inv c"
  shows "ic_cap (ctl_RecentInstances c') = ic_cap (ctl_RecentInstances c)"
  using assms ic_ok_markRecent [of c]
  by cases (auto simp: putInstance_def markRecent_list addNewInstance_insert ctl_inv_def ic_ok_def)

lemma crun_cap: "ctl_inv c \<Longrightarrow> ic_cap (ctl_RecentInstances (crun S c xs)) = ic_cap (ctl_RecentInstances c)"
  unfolding crun_def
  by (induction xs arbitrary: c) (simp_all add: cstep_cap [OF chandle_cstep] cstep_inv [OF chandle_cstep])

lemma FindInstance_addNew_same:
  assumes "ic_ok ic" "FindInstance ic (GetHeight i) = None" "FindInstance (addNewInstance ic i) (GetHeight i) = Some j"
  shows "j = i"
proof -
  have "j \<in> set (insert_desc i (ic_list ic))" "GetHeight j = GetHeight i"
    using FindInstance_Some [OF assms(3)] assms(1) by (auto simp: addNewInstance_insert ic_ok_def dest: in_set_takeD)
  then show ?thesis
    using assms(2) by (auto simp: FindInstance_def find_heights)
qed

lemma UponDecided_reported:
  assumes "ctl_inv c" "UponDecided S c msg tf = (Ok (Some d), c')"
  shows "(\<forall>i. FindInstance (ctl_RecentInstances c) (m_Height (qmsg msg)) = Some i \<longrightarrow> \<not> st_Decided (i_State i))
    \<and> (\<forall>j. FindInstance (ctl_RecentInstances c') (m_Height (qmsg msg)) = Some j \<longrightarrow> st_Decided (i_State j))"
proof -
  let ?h = "m_Height (qmsg msg)"
  have valid: "ValidateDecided S c msg = Ok ()"
    using assms(2) by (cases "ValidateDecided S c msg") (auto simp: UponDecided_def Let_def)
  show ?thesis
  proof (cases "FindInstance (ctl_RecentInstances c) ?h")
    case None
    let ?n = "NewInstance S (ctl_config c) (ctl_CommitteeMember c) (identifierAtHeight c ?h) ?h tf"
    obtain r i where ad: "adoptDecided S ?n msg = (r, i)"
      by fastforce
    then have "r = Ok ()" and c': "ctl_RecentInstances c' = addNewInstance (ctl_RecentInstances c) i"
      using assms(2) valid None by (auto simp: UponDecided_def Let_def split: res.splits if_splits)
    then have i: "st_Decided (i_State i)" "GetHeight i = ?h"
      using adoptDecided_shape [OF ad] by (auto simp: advances_def NewInstance_def)
    then show ?thesis
      using None FindInstance_addNew_same [of "ctl_RecentInstances c" i] assms(1) by (auto simp: c' ctl_inv_def)
  next
    case (Some i)
    obtain r j where ad: "adoptDecided S i msg = (r, j)"
      by fastforce
    have "\<not> st_Decided (i_State i)"
      using assms(2) valid Some by (auto simp: UponDecided_def Let_def split: prod.splits if_splits sum.splits)
    moreover from this have "r = Ok ()" and c': "ctl_RecentInstances c' = putInstance (ctl_RecentInstances c) ?h j"
      using assms(2) valid Some ad by (auto simp: UponDecided_def Let_def bind_res_Ok_iff)
    moreover have "st_Decided (i_State j)" "GetHeight j = ?h"
      using adoptDecided_shape [OF ad] \<open>r = Ok ()\<close> FindInstance_Some [OF Some] by (auto simp: advances_def)
    ultimately show ?thesis
      using Some FindInstance_putInstance [OF Some, of j ?h] by auto
  qed
qed

lemma UponExisting_reported:
  assumes "UponExistingInstanceMsg S E c msg = (Ok (Some d), c')"
  shows "(\<forall>i. FindInstance (ctl_RecentInstances c) (m_Height (qmsg msg)) = Some i \<longrightarrow> \<not> st_Decided (i_State i))
    \<and> (\<forall>j. FindInstance (ctl_RecentInstances c') (m_Height (qmsg msg)) = Some j \<longrightarrow> st_Decided (i_State j))"
proof -
  let ?h = "m_Height (qmsg msg)"
  obtain i where i: "FindInstance (ctl_RecentInstances c) ?h = Some i" "\<not> st_Decided (i_State i)"
    using assms by (auto simp: UponExistingInstanceMsg_def Let_def IsDecided_def split: option.splits if_splits)
  obtain v j where p: "ProcessMsg S E i msg = (Ok (True, v, Some d), j)"
    and c': "ctl_RecentInstances c' = putInstance (ctl_RecentInstances c) ?h j"
    using assms i by (auto simp: UponExistingInstanceMsg_def Let_def IsDecided_def broadcastDecided_def
        split: prod.splits res.splits if_splits)
  have "st_Decided (i_State j)"
    using p by (rule ProcessMsg_decided) simp
  moreover have "GetHeight j = ?h"
    using qsteps_advances [OF ProcessMsg_qsteps [of S i E msg]] FindInstance_Some [OF i(1)] p
    by (simp add: advances_def)
  ultimately show ?thesis
    using i FindInstance_putInstance [OF i(1), of j ?h] by (simp add: c')
qed

section \<open>A concrete run\<close>

definition demo_ctl :: "ProcessingMessage list Controller" where
  "demo_ctl = NewController demo_spec [] (demo_cm 1) (buildConfig demo_spec 15 demo_Network RoleCommittee) False
     \<lparr>ctl_IdentifierFn := None\<rparr>"

definition demo_timerF :: "u64 \<Rightarrow> RoundTimer" where
  "demo_timerF slot = New 0 demo_Beacon RoleCommittee slot False"

text \<open>A commit message of height 9 with the signatures of three operators, as it is received.\<close>

definition demo_decided_msg :: SignedSSVMessage where
  "demo_decided_msg = \<lparr>s_Signatures = [[7], [7], [7]], s_OperatorIDs = [1, 2, 3],
     s_SSVMessage = \<lparr>ssv_MsgType = SSVConsensusMsgType, ssv_MsgID = [], ssv_Data = [2, 9, 1, 0, 42]\<rparr>,
     s_FullData = Some [42]\<rparr>"

definition demo_cinputs :: "cinput list" where
  "demo_cinputs = [StartHeight demo_env 5 (Some [42]) demo_check demo_timerF,
     StartHeight demo_env 7 (Some [42]) demo_check demo_timerF, Receive demo_env demo_decided_msg demo_timerF]"

lemma demo_ctl_decided:
  "\<exists>i. FindInstance (ctl_RecentInstances (crun demo_spec demo_ctl demo_cinputs)) 9 = Some i
       \<and> IsDecided i = (True, Some [42])"
proof -
  have "map_option IsDecided (FindInstance (ctl_RecentInstances (crun demo_spec demo_ctl demo_cinputs)) 9)
      = Some (True, Some [42])"
    by code_simp
  then show ?thesis
    by auto
qed

lemma demo_ctl_inv: "ctl_inv demo_ctl"
  by (simp add: demo_ctl_def ctl_inv_def ic_ok_def NewController_def InstancesDefaultCapacity_def)

section \<open>Properties\<close>

text \<open>
  C18: The instances of a controller. However heights are started and messages and timeouts arrive, a
  controller keeps at most two instances, of strictly descending heights up to its latest height, at
  most one of them neither decided nor stopped, and each undecided one has its value checker.
\<close>

theorem recent_instances_invariant:
  assumes "c = crun S (NewController S ident cm config full\<lparr>ctl_IdentifierFn := idf\<rparr>) xs"
  shows "length (ic_list (ctl_RecentInstances c)) \<le> 2
    \<and> sorted_wrt (\<lambda>a b. GetHeight b < GetHeight a) (ic_list (ctl_RecentInstances c))
    \<and> (\<forall>i \<in> set (ic_list (ctl_RecentInstances c)). GetHeight i \<le> ctl_LatestInstanceHeight c
         \<and> (\<not> st_Decided (i_State i) \<longrightarrow> i_ValueChecker i \<noteq> None))
    \<and> length (filter (\<lambda>i. \<not> st_Decided (i_State i) \<and> \<not> i_markedIrrelevant i) (ic_list (ctl_RecentInstances c))) \<le> 1"
proof -
  let ?c0 = "NewController S ident cm config full\<lparr>ctl_IdentifierFn := idf\<rparr>"
  have "ctl_inv ?c0"
    by (simp add: ctl_inv_def ic_ok_def NewController_def InstancesDefaultCapacity_def)
  then have inv: "ctl_inv c"
    unfolding assms by (rule crun_inv)
  have "ic_cap (ctl_RecentInstances c) = 2"
    using crun_cap [OF \<open>ctl_inv ?c0\<close>, of S xs]
    by (simp add: assms NewController_def InstancesDefaultCapacity_def)
  then show ?thesis
    using inv by (simp add: ctl_inv_def ic_ok_def active_def [abs_def])
qed

theorem recent_instances_invariant_witness:
  "length (ic_list (ctl_RecentInstances (crun demo_spec demo_ctl demo_cinputs))) \<le> 2"
  using recent_instances_invariant [OF refl, where S = demo_spec and ident = "[]" and cm = "demo_cm 1"
      and config = "buildConfig demo_spec 15 demo_Network RoleCommittee" and full = False and idf = None
      and xs = demo_cinputs]
  by (simp add: demo_ctl_def)

text \<open>
  C13: A decision of a height is final for the controller. Once the instance of a height is decided,
  any later instance the controller finds for that height is decided with the same value, and the
  latest height never goes down.
\<close>

theorem height_decision_final:
  assumes "c = crun S (NewController S ident cm config full\<lparr>ctl_IdentifierFn := idf\<rparr>) xs"
    and "FindInstance (ctl_RecentInstances c) h = Some i" "IsDecided i = (True, v)"
  shows "ctl_LatestInstanceHeight c \<le> ctl_LatestInstanceHeight (crun S c ys)
    \<and> (\<forall>j. FindInstance (ctl_RecentInstances (crun S c ys)) h = Some j \<longrightarrow> IsDecided j = (True, v))"
proof -
  have "ctl_inv (NewController S ident cm config full\<lparr>ctl_IdentifierFn := idf\<rparr>)"
    by (simp add: ctl_inv_def ic_ok_def NewController_def InstancesDefaultCapacity_def)
  then have "ctl_inv c"
    unfolding assms(1) by (rule crun_inv)
  moreover have "settled h v (ctl_RecentInstances c)"
    using assms(2,3) by (auto simp: settled_def)
  ultimately have "settled h v (ctl_RecentInstances (crun S c ys))"
    by (rule crun_settled)
  then show ?thesis
    using crun_latest [of c S ys] by (auto simp: settled_def dest: FindInstance_Some)
qed

theorem height_decision_final_witness:
  "ctl_LatestInstanceHeight (crun demo_spec demo_ctl demo_cinputs)
     \<le> ctl_LatestInstanceHeight (crun demo_spec (crun demo_spec demo_ctl demo_cinputs) demo_cinputs)"
proof -
  obtain i where "FindInstance (ctl_RecentInstances (crun demo_spec demo_ctl demo_cinputs)) 9 = Some i"
    "IsDecided i = (True, Some [42])"
    using demo_ctl_decided by blast
  then show ?thesis
    using height_decision_final [OF refl, where S = demo_spec and ident = "[]" and cm = "demo_cm 1"
      and config = "buildConfig demo_spec 15 demo_Network RoleCommittee" and full = False and idf = None
      and xs = demo_cinputs, folded demo_ctl_def]
    by blast
qed

text \<open>
  C28: Starting a height. A successful start makes the new instance the one found for its height and
  the latest one, stops every other instance, and messages for that height are no longer future.
\<close>

theorem start_instance_routes:
  assumes "ctl_inv c" "StartNewInstance S E c h v chk tf = (Ok i, c')"
  shows "chk v = None \<and> FindInstance (ctl_RecentInstances c') h = Some i \<and> ctl_LatestInstanceHeight c' = h
    \<and> (\<forall>j \<in> set (ic_list (ctl_RecentInstances c')). j \<noteq> i \<longrightarrow> i_markedIrrelevant j)
    \<and> (\<forall>msg. m_Height (qmsg msg) = h \<longrightarrow> \<not> isFutureMessage S c' msg)"
proof -
  let ?c1 = "markRecentInstancesIrrelevant c"
  have pre: "chk v = None" "\<not> h < ctl_LatestInstanceHeight c" "FindInstance (ctl_RecentInstances c) h = None"
    using assms(2) by (auto simp: StartNewInstance_def startInstance_def split: option.splits if_splits)
  then have st: "Start S E (NewInstance S (ctl_config ?c1) (ctl_CommitteeMember ?c1) (identifierAtHeight ?c1 h) h tf) v chk
        = (Ok (), i)"
    and c': "c' = ?c1\<lparr>ctl_RecentInstances := addNewInstance (ctl_RecentInstances ?c1) i, ctl_LatestInstanceHeight := h\<rparr>"
    using assms(2) by (auto simp: StartNewInstance_def startInstance_def Let_def split: prod.splits res.splits)
  have h: "GetHeight i = h"
    by (rule Start_Ok [OF st])
  have ok: "ic_ok (ctl_RecentInstances ?c1)"
    using assms(1) by (auto simp: ctl_inv_def intro: ic_ok_markRecent)
  have "h' < GetHeight i" if found: "FindInstance (ctl_RecentInstances ?c1) h' = Some j" for h' j
  proof -
    obtain k where k: "FindInstance (ctl_RecentInstances c) h' = Some k"
      using found by (auto simp: markRecent_find)
    then have "h' \<le> h" "h' \<noteq> h"
      using FindInstance_Some [OF k] assms(1) pre(2,3) by (auto simp: ctl_inv_def intro: order_trans)
    then show ?thesis
      using h by simp
  qed
  then have found: "FindInstance (ctl_RecentInstances c') h = Some i"
    using ri.insert_top [OF ok, of i] h by (simp add: c')
  moreover have "i_markedIrrelevant j" if "j \<in> set (ic_list (ctl_RecentInstances c'))" "j \<noteq> i" for j
  proof -
    have "j \<in> set (insert_desc i (ic_list (ctl_RecentInstances ?c1)))"
      using that(1) ok by (auto simp: c' addNewInstance_insert ic_ok_def dest: in_set_takeD)
    then show ?thesis
      using that(2) by (auto simp: markRecent_list MarkIrrelevant_def)
  qed
  ultimately show ?thesis
    using pre(1) by (auto simp: isFutureMessage_def c')
qed

theorem start_instance_routes_witness:
  "ctl_LatestInstanceHeight (snd (StartNewInstance demo_spec demo_env demo_ctl 5 (Some [42]) demo_check demo_timerF)) = 5"
proof -
  let ?r = "StartNewInstance demo_spec demo_env demo_ctl 5 (Some [42]) demo_check demo_timerF"
  have "is_Ok (fst ?r)"
    by code_simp
  then obtain i where "?r = (Ok i, snd ?r)"
    by (auto simp: is_Ok_iff prod_eq_iff)
  then show ?thesis
    using start_instance_routes [OF demo_ctl_inv] by blast
qed



end
