(* ===== verification/Dutystore.thy ===== *)
theory Dutystore
  imports Round_Timer "HOL-Library.AList"
begin

text \<open>
  The store of beacon duties, \<open>operator/duties/dutystore\<close>. A Go map is an association list with
  distinct keys; the order of the list is one of the orders in which the map may be iterated. Every
  method holds the store's lock for its whole body, so a method is one step.
\<close>

section \<open>Duties per epoch\<close>

record AttesterDuty =
  ad_PubKey :: bytes
  ad_Slot :: u64
  ad_ValidatorIndex :: u64
  ad_CommitteeIndex :: u64

record ProposerDuty =
  pd_PubKey :: bytes
  pd_Slot :: u64
  pd_ValidatorIndex :: u64

record PTCDuty =
  ptc_PubKey :: bytes
  ptc_ValidatorIndex :: u64
  ptc_Slot :: u64

record 'd StoreDuty =
  sd_Slot :: u64
  sd_ValidatorIndex :: u64
  sd_Duty :: "'d option"
  sd_InCommittee :: bool

type_synonym 'd slot_duties = "(u64 \<times> 'd StoreDuty) list"

record 'd Duties =
  ds_m :: "(u64 \<times> (u64 \<times> 'd slot_duties) list) list"
  ds_stale :: "u64 set"

definition NewDuties :: "'d Duties" where
  "NewDuties = \<lparr>ds_m = [], ds_stale = {}\<rparr>"

definition CommitteeSlotDuties :: "'d Duties \<Rightarrow> u64 \<Rightarrow> u64 \<Rightarrow> 'd option list" where
  "CommitteeSlotDuties d epoch slot =
     (case map_of (ds_m d) epoch of
        None \<Rightarrow> []
      | Some slotMap \<Rightarrow>
          (case map_of slotMap slot of
             None \<Rightarrow> []
           | Some descriptorMap \<Rightarrow>
               map (sd_Duty \<circ> snd) (filter (sd_InCommittee \<circ> snd) descriptorMap)))"

definition ValidatorDuty :: "'d Duties \<Rightarrow> u64 \<Rightarrow> u64 \<Rightarrow> u64 \<Rightarrow> 'd option" where
  "ValidatorDuty d epoch slot validatorIndex =
     (case map_of (ds_m d) epoch of
        None \<Rightarrow> None
      | Some slotMap \<Rightarrow>
          (case map_of slotMap slot of
             None \<Rightarrow> None
           | Some descriptorMap \<Rightarrow>
               (case map_of descriptorMap validatorIndex of
                  None \<Rightarrow> None
                | Some descriptor \<Rightarrow> sd_Duty descriptor)))"

definition SlotIndices :: "'d Duties \<Rightarrow> u64 \<Rightarrow> u64 \<Rightarrow> u64 list" where
  "SlotIndices d epoch slot =
     (case map_of (ds_m d) epoch of
        None \<Rightarrow> []
      | Some slotMap \<Rightarrow>
          (case map_of slotMap slot of
             None \<Rightarrow> []
           | Some descriptorMap \<Rightarrow> map fst descriptorMap))"

definition EpochDuties :: "'d Duties \<Rightarrow> u64 \<Rightarrow> 'd StoreDuty list" where
  "EpochDuties d epoch =
     (case map_of (ds_m d) epoch of
        None \<Rightarrow> []
      | Some slotMap \<Rightarrow> concat (map (map snd \<circ> snd) slotMap))"

fun set_loop :: "(u64 \<times> 'd slot_duties) list \<Rightarrow> 'd StoreDuty list \<Rightarrow> (u64 \<times> 'd slot_duties) list" where
  "set_loop mapped [] = mapped"
| "set_loop mapped (duty # duties) =
     (let inner = (case map_of mapped (sd_Slot duty) of None \<Rightarrow> [] | Some m \<Rightarrow> m)
      in set_loop (AList.update (sd_Slot duty) (AList.update (sd_ValidatorIndex duty) duty inner) mapped)
           duties)"

definition DutiesSet :: "'d Duties \<Rightarrow> u64 \<Rightarrow> 'd StoreDuty list \<Rightarrow> 'd Duties" where
  "DutiesSet d epoch duties =
     d\<lparr>ds_m := AList.update epoch (set_loop [] duties) (ds_m d), ds_stale := ds_stale d - {epoch}\<rparr>"

definition EraseEpochData :: "'d Duties \<Rightarrow> u64 \<Rightarrow> 'd Duties" where
  "EraseEpochData d epoch =
     d\<lparr>ds_m := AList.delete epoch (ds_m d), ds_stale := ds_stale d - {epoch}\<rparr>"

definition EraseBefore :: "'d Duties \<Rightarrow> u64 \<Rightarrow> 'd Duties" where
  "EraseBefore d epoch =
     d\<lparr>ds_m := filter (\<lambda>(cached, _). \<not> cached < epoch) (ds_m d),
       ds_stale := Set.filter (\<lambda>cached. \<not> cached < epoch) (ds_stale d)\<rparr>"

definition DutiesClear :: "'d Duties \<Rightarrow> 'd Duties" where
  "DutiesClear d = \<lparr>ds_m = [], ds_stale = {}\<rparr>"

definition IsEpochSet :: "'d Duties \<Rightarrow> u64 \<Rightarrow> bool" where
  "IsEpochSet d epoch \<longleftrightarrow> map_of (ds_m d) epoch \<noteq> None"

definition MarkEpochsStale :: "'d Duties \<Rightarrow> u64 list \<Rightarrow> 'd Duties" where
  "MarkEpochsStale d epochs = d\<lparr>ds_stale := ds_stale d \<union> set epochs\<rparr>"

definition IsEpochStale :: "'d Duties \<Rightarrow> u64 \<Rightarrow> bool" where
  "IsEpochStale d epoch \<longleftrightarrow> epoch \<in> ds_stale d"

section \<open>Sync committee duties and voluntary exits\<close>

record SyncCommitteeDuty =
  scd_PubKey :: bytes
  scd_ValidatorIndex :: u64
  scd_ValidatorSyncCommitteeIndices :: "u64 list"

record StoreSyncCommitteeDuty =
  ssd_ValidatorIndex :: u64
  ssd_Duty :: "SyncCommitteeDuty option"
  ssd_InCommittee :: bool

type_synonym SyncCommitteeDuties = "(u64 \<times> (u64 \<times> StoreSyncCommitteeDuty) list) list"

definition NewSyncCommitteeDuties :: SyncCommitteeDuties where
  "NewSyncCommitteeDuties = []"

definition CommitteePeriodDuties :: "SyncCommitteeDuties \<Rightarrow> u64 \<Rightarrow> SyncCommitteeDuty option list" where
  "CommitteePeriodDuties d period =
     (case map_of d period of
        None \<Rightarrow> []
      | Some descriptorMap \<Rightarrow> map (ssd_Duty \<circ> snd) (filter (ssd_InCommittee \<circ> snd) descriptorMap))"

definition SyncDuty :: "SyncCommitteeDuties \<Rightarrow> u64 \<Rightarrow> u64 \<Rightarrow> SyncCommitteeDuty option" where
  "SyncDuty d period validatorIndex =
     (case map_of d period of
        None \<Rightarrow> None
      | Some duties \<Rightarrow>
          (case map_of duties validatorIndex of
             None \<Rightarrow> None
           | Some descriptor \<Rightarrow> ssd_Duty descriptor))"

definition SyncSet :: "SyncCommitteeDuties \<Rightarrow> u64 \<Rightarrow> StoreSyncCommitteeDuty list \<Rightarrow> SyncCommitteeDuties" where
  "SyncSet d period duties =
     AList.update period
       (fold (\<lambda>duty mapped. AList.update (ssd_ValidatorIndex duty) duty mapped) duties []) d"

definition SyncReset :: "SyncCommitteeDuties \<Rightarrow> u64 \<Rightarrow> SyncCommitteeDuties" where
  "SyncReset d period = AList.delete period d"

type_synonym VoluntaryExitDuties = "(u64 \<times> (bytes \<times> u64) list) list"

definition NewVoluntaryExit :: VoluntaryExitDuties where
  "NewVoluntaryExit = []"

definition GetDutyCount :: "VoluntaryExitDuties \<Rightarrow> u64 \<Rightarrow> bytes \<Rightarrow> u64" where
  "GetDutyCount d slot pk =
     (case map_of d slot of
        None \<Rightarrow> 0
      | Some v \<Rightarrow> (case map_of v pk of None \<Rightarrow> 0 | Some n \<Rightarrow> n))"

definition AddDuty :: "VoluntaryExitDuties \<Rightarrow> u64 \<Rightarrow> bytes \<Rightarrow> VoluntaryExitDuties" where
  "AddDuty d slot pk =
     (case map_of d slot of
        None \<Rightarrow> AList.update slot [(pk, 1)] d
      | Some v \<Rightarrow>
          AList.update slot
            (AList.update pk ((case map_of v pk of None \<Rightarrow> 0 | Some n \<Rightarrow> n) + 1) v) d)"

definition RemoveSlot :: "VoluntaryExitDuties \<Rightarrow> u64 \<Rightarrow> VoluntaryExitDuties" where
  "RemoveSlot d slot = AList.delete slot d"

section \<open>The store\<close>

record Store =
  Attester :: "AttesterDuty Duties"
  ProposerDuties :: "ProposerDuty Duties"
  PTC :: "PTCDuty Duties"
  SyncCommittee :: SyncCommitteeDuties
  VoluntaryExit :: VoluntaryExitDuties

definition NewStore :: Store where
  "NewStore =
     \<lparr>Attester = NewDuties, ProposerDuties = NewDuties, PTC = NewDuties,
      SyncCommittee = NewSyncCommitteeDuties, VoluntaryExit = NewVoluntaryExit\<rparr>"

section \<open>The store as a map\<close>

text \<open>What the store holds: per fetched epoch, a descriptor per slot and validator index.\<close>

definition descriptor :: "'d Duties \<Rightarrow> u64 \<Rightarrow> u64 \<Rightarrow> u64 \<Rightarrow> 'd StoreDuty option" where
  "descriptor d epoch slot idx =
     Option.bind (map_of (ds_m d) epoch) (\<lambda>slotMap. Option.bind (map_of slotMap slot) (\<lambda>m. map_of m idx))"

text \<open>
  The keys of every map are distinct, and a descriptor is filed under its own slot and index.
\<close>

definition slots_ok :: "(u64 \<times> 'd slot_duties) list \<Rightarrow> bool" where
  "slots_ok sm \<longleftrightarrow>
     distinct (map fst sm) \<and>
     (\<forall>(slot, m) \<in> set sm. distinct (map fst m) \<and>
        (\<forall>(idx, sd) \<in> set m. sd_Slot sd = slot \<and> sd_ValidatorIndex sd = idx))"

definition duties_ok :: "'d Duties \<Rightarrow> bool" where
  "duties_ok d \<longleftrightarrow> distinct (map fst (ds_m d)) \<and> (\<forall>(_, sm) \<in> set (ds_m d). slots_ok sm)"

text \<open>The last duty of a list for a slot and index.\<close>

definition last_duty :: "'d StoreDuty list \<Rightarrow> u64 \<Rightarrow> u64 \<Rightarrow> 'd StoreDuty option" where
  "last_duty duties slot idx = find (\<lambda>sd. sd_Slot sd = slot \<and> sd_ValidatorIndex sd = idx) (rev duties)"

lemma set_update_subset: "set (AList.update k v al) \<subseteq> insert (k, v) (set al)"
  by (induction al) auto

lemma slots_ok_nil [simp]: "slots_ok []"
  by (simp add: slots_ok_def)

lemma slots_ok_lookup:
  assumes "slots_ok sm" "map_of sm slot = Some m"
  shows "distinct (map fst m)" "\<And>idx sd. (idx, sd) \<in> set m \<Longrightarrow> sd_Slot sd = slot \<and> sd_ValidatorIndex sd = idx"
  using assms map_of_SomeD [OF assms(2)] unfolding slots_ok_def by fastforce+

lemma slots_ok_insert:
  assumes "slots_ok sm"
  shows "slots_ok (AList.update (sd_Slot sd) (AList.update (sd_ValidatorIndex sd) sd
           (case map_of sm (sd_Slot sd) of None \<Rightarrow> [] | Some m \<Rightarrow> m)) sm)"
proof -
  define inner where "inner = (case map_of sm (sd_Slot sd) of None \<Rightarrow> [] | Some m \<Rightarrow> m)"
  have inner: "distinct (map fst inner)"
    "\<And>idx sd'. (idx, sd') \<in> set inner \<Longrightarrow> sd_Slot sd' = sd_Slot sd \<and> sd_ValidatorIndex sd' = idx"
    by (cases "map_of sm (sd_Slot sd)"; use slots_ok_lookup [OF assms] in \<open>simp add: inner_def\<close>)+
  have new: "distinct (map fst (AList.update (sd_ValidatorIndex sd) sd inner))"
    "\<And>idx sd'. (idx, sd') \<in> set (AList.update (sd_ValidatorIndex sd) sd inner) \<Longrightarrow>
       sd_Slot sd' = sd_Slot sd \<and> sd_ValidatorIndex sd' = idx"
    using inner set_update_subset [of "sd_ValidatorIndex sd" sd inner] by (auto simp: distinct_update)
  show ?thesis
    unfolding inner_def [symmetric] slots_ok_def
    using new assms set_update_subset [of "sd_Slot sd" "AList.update (sd_ValidatorIndex sd) sd inner" sm]
    by (auto simp: distinct_update slots_ok_def dest!: subsetD)
qed

lemma slots_ok_set_loop: "slots_ok sm \<Longrightarrow> slots_ok (set_loop sm duties)"
proof (induction sm duties rule: set_loop.induct)
  case (2 mapped duty duties)
  then show ?case
    using slots_ok_insert [of mapped duty] by (simp add: Let_def)
qed simp

lemma find_append_option:
  "find P (xs @ ys) = (case find P xs of Some x \<Rightarrow> Some x | None \<Rightarrow> find P ys)"
  by (induction xs) auto

lemma set_loop_lookup:
  "Option.bind (map_of (set_loop sm duties) slot) (\<lambda>m. map_of m idx) =
     (case last_duty duties slot idx of
        Some sd \<Rightarrow> Some sd
      | None \<Rightarrow> Option.bind (map_of sm slot) (\<lambda>m. map_of m idx))"
proof (induction sm duties rule: set_loop.induct)
  case (2 mapped duty duties)
  have "last_duty (duty # duties) slot idx =
      (case last_duty duties slot idx of Some sd \<Rightarrow> Some sd
       | None \<Rightarrow> if sd_Slot duty = slot \<and> sd_ValidatorIndex duty = idx then Some duty else None)"
    by (simp add: last_duty_def find_append_option split: option.splits)
  then show ?case
    using 2 [OF refl]
    by (auto simp: Let_def update_conv' split: option.splits)
qed (simp add: last_duty_def)

lemma descriptor_DutiesSet:
  "descriptor (DutiesSet d epoch duties) e slot idx =
     (if e = epoch then last_duty duties slot idx else descriptor d e slot idx)"
  using set_loop_lookup [of "[]" duties slot idx]
  by (auto simp: descriptor_def DutiesSet_def update_conv' split: option.splits)

lemma ValidatorDuty_descriptor: "ValidatorDuty d epoch slot idx = Option.bind (descriptor d epoch slot idx) sd_Duty"
  by (simp add: ValidatorDuty_def descriptor_def split: option.splits)

lemma descriptor_erase:
  "descriptor (EraseEpochData d epoch) e slot idx = (if e = epoch then None else descriptor d e slot idx)"
  "descriptor (MarkEpochsStale d epochs) e slot idx = descriptor d e slot idx"
  "descriptor (DutiesClear d) e slot idx = None"
  by (simp_all add: descriptor_def EraseEpochData_def MarkEpochsStale_def DutiesClear_def delete_conv')

lemma descriptor_EraseBefore:
  "descriptor (EraseBefore d epoch) e slot idx = (if e < epoch then None else descriptor d e slot idx)"
  by (simp add: descriptor_def EraseBefore_def map_of_filter_key)

text \<open>Every operation keeps the store well-formed.\<close>

lemma duties_ok_New [simp]: "duties_ok NewDuties" "duties_ok (DutiesClear d)"
  by (simp_all add: duties_ok_def NewDuties_def DutiesClear_def)

lemma duties_ok_Set: "duties_ok d \<Longrightarrow> duties_ok (DutiesSet d epoch duties)"
  using set_update_subset [of epoch "set_loop [] duties" "ds_m d"] slots_ok_set_loop [of "[]" duties]
  by (auto simp: duties_ok_def DutiesSet_def distinct_update dest!: subsetD)

lemma duties_ok_erase:
  "duties_ok d \<Longrightarrow> duties_ok (EraseEpochData d epoch)"
  "duties_ok d \<Longrightarrow> duties_ok (EraseBefore d epoch)"
  "duties_ok d \<Longrightarrow> duties_ok (MarkEpochsStale d epochs)"
  by (auto simp: duties_ok_def EraseEpochData_def EraseBefore_def MarkEpochsStale_def AList.delete_eq
           intro: distinct_map_filter)

lemma map_of_Some_iff: "distinct (map fst al) \<Longrightarrow> map_of al k = Some v \<longleftrightarrow> (k, v) \<in> set al"
  by (auto dest: map_of_SomeD)

lemma duties_ok_epoch: "duties_ok d \<Longrightarrow> map_of (ds_m d) epoch = Some sm \<Longrightarrow> slots_ok sm"
  by (auto simp: duties_ok_def dest: map_of_SomeD)

text \<open>Listing an epoch gives every descriptor once.\<close>

lemma distinct_concat_keys:
  assumes "slots_ok sm"
  shows "distinct (map (\<lambda>sd. (sd_Slot sd, sd_ValidatorIndex sd)) (concat (map (map snd \<circ> snd) sm)))"
  using assms
proof (induction sm)
  case (Cons p sm)
  obtain slot m where p: "p = (slot, m)"
    by fastforce
  have m: "distinct (map fst m)" "\<forall>(idx, sd) \<in> set m. sd_Slot sd = slot \<and> sd_ValidatorIndex sd = idx"
    and rest: "slots_ok sm" "slot \<notin> fst ` set sm"
    using Cons.prems by (auto simp: slots_ok_def p)
  have "map (\<lambda>sd. (sd_Slot sd, sd_ValidatorIndex sd)) (map snd m) = map (Pair slot) (map fst m)"
    using m(2) by auto
  then have "distinct (map (\<lambda>sd. (sd_Slot sd, sd_ValidatorIndex sd)) (map snd m))"
    using m(1) by (simp only: distinct_map) (auto simp: inj_on_def)
  moreover have other: "sd_Slot sd \<noteq> slot" if "sd \<in> set (concat (map (map snd \<circ> snd) sm))" for sd
  proof -
    obtain slot' m' idx where "(slot', m') \<in> set sm" "(idx, sd) \<in> set m'"
      using \<open>sd \<in> _\<close> by auto
    then have "sd_Slot sd = slot'" "slot' \<in> fst ` set sm"
      using rest(1) by (auto simp: slots_ok_def image_iff intro: bexI [of _ "(slot', m')"])
    then show ?thesis
      using rest(2) by auto
  qed
  moreover have "sd_Slot sd = slot" if "sd \<in> set (map snd m)" for sd
    using that m(2) by auto
  then have "(\<lambda>sd. (sd_Slot sd, sd_ValidatorIndex sd)) ` set (map snd m)
      \<inter> (\<lambda>sd. (sd_Slot sd, sd_ValidatorIndex sd)) ` set (concat (map (map snd \<circ> snd) sm)) = {}"
    using other by (simp only: disjoint_iff image_iff) blast
  ultimately show ?case
    using Cons.IH [OF rest(1)]
    by (simp only: p list.map concat.simps map_append distinct_append comp_apply snd_conv set_map comp_def)
qed simp

lemma EpochDuties_set:
  assumes "duties_ok d"
  shows "sd \<in> set (EpochDuties d epoch) \<longleftrightarrow> descriptor d epoch (sd_Slot sd) (sd_ValidatorIndex sd) = Some sd"
proof (cases "map_of (ds_m d) epoch")
  case (Some sm)
  have sm: "slots_ok sm"
    using duties_ok_epoch [OF assms Some] .
  have "sd \<in> set (EpochDuties d epoch) \<longleftrightarrow> (\<exists>slot m idx. (slot, m) \<in> set sm \<and> (idx, sd) \<in> set m)"
    using Some by (force simp: EpochDuties_def)
  also have "\<dots> \<longleftrightarrow> (\<exists>slot m idx. map_of sm slot = Some m \<and> map_of m idx = Some sd)"
    using sm by (fastforce simp: slots_ok_def map_of_Some_iff dest: map_of_SomeD)
  also have "\<dots> \<longleftrightarrow> (\<exists>m. map_of sm (sd_Slot sd) = Some m \<and> map_of m (sd_ValidatorIndex sd) = Some sd)"
    using slots_ok_lookup(2) [OF sm] by (blast dest: map_of_SomeD)
  finally show ?thesis
    using Some by (auto simp: descriptor_def bind_eq_Some_conv)
qed (simp add: EpochDuties_def descriptor_def)

text \<open>The stores that the operations build.\<close>

inductive store_reachable :: "'d Duties \<Rightarrow> bool" where
  new: "store_reachable NewDuties"
| set_epoch: "store_reachable d \<Longrightarrow> store_reachable (DutiesSet d epoch duties)"
| erase_epoch: "store_reachable d \<Longrightarrow> store_reachable (EraseEpochData d epoch)"
| erase_before: "store_reachable d \<Longrightarrow> store_reachable (EraseBefore d epoch)"
| mark_stale: "store_reachable d \<Longrightarrow> store_reachable (MarkEpochsStale d epochs)"
| clear: "store_reachable d \<Longrightarrow> store_reachable (DutiesClear d)"

lemma store_reachable_ok: "store_reachable d \<Longrightarrow> duties_ok d"
  by (induction rule: store_reachable.induct) (simp_all add: duties_ok_Set duties_ok_erase)

section \<open>Properties\<close>



end
