(* ===== verification/Subnets.thy ===== *)
theory Subnets
  imports Qbft_Proposer
begin

unbundle bit_operations_syntax

text \<open>
  Subnets and pubsub topics, \<open>network/commons/subnets.go\<close>: the names of the topics and how they are
  parsed, the subnet a committee is assigned to on either side of the Boole fork, and the bit set
  of the subnets a node subscribes to. The SHA-256 routine is the argument \<open>sha\<close>.
\<close>

section \<open>What is used of the standard library\<close>

text \<open>\<open>fmt.Sprintf\<close> of an unsigned number with \<open>%d\<close> and \<open>strconv.ParseUint\<close> with base 10 and 64 bits.\<close>

fun show_dec :: "nat \<Rightarrow> string" where
  "show_dec n =
     (if n < 10 then [char_of (48 + n)] else show_dec (n div 10) @ [char_of (48 + n mod 10)])"

declare show_dec.simps [simp del]

definition is_digit :: "char \<Rightarrow> bool" where
  "is_digit c \<longleftrightarrow> 48 \<le> (of_char c :: nat) \<and> (of_char c :: nat) \<le> 57"

fun parseUint_loop :: "nat \<Rightarrow> string \<Rightarrow> (string, u64) res" where
  "parseUint_loop n [] = Ok (word_of_nat n)"
| "parseUint_loop n (c # cs) =
     (if \<not> is_digit c then Err ''invalid syntax''
      else let n' = n * 10 + (of_char c - 48)
           in if n' > 18446744073709551615 then Err ''value out of range'' else parseUint_loop n' cs)"

definition parseUint :: "string \<Rightarrow> (string, u64) res" where
  "parseUint s = (if s = [] then Err ''invalid syntax'' else parseUint_loop 0 s)"

text \<open>\<open>strings.HasPrefix\<close>, \<open>strings.TrimPrefix\<close> and \<open>strings.SplitN\<close> for a one-character separator.\<close>

definition hasPrefix :: "string \<Rightarrow> string \<Rightarrow> bool" where
  "hasPrefix s p \<longleftrightarrow> take (length p) s = p"

definition trimPrefix :: "string \<Rightarrow> string \<Rightarrow> string" where
  "trimPrefix s p = (if hasPrefix s p then drop (length p) s else s)"

fun splitN :: "nat \<Rightarrow> char \<Rightarrow> string \<Rightarrow> string list" where
  "splitN 0 c s = []"
| "splitN (Suc 0) c s = [s]"
| "splitN (Suc (Suc n)) c s =
     (case dropWhile (\<lambda>x. x \<noteq> c) s of
        [] \<Rightarrow> [s]
      | _ # rest \<Rightarrow> takeWhile (\<lambda>x. x \<noteq> c) s # splitN (Suc n) c rest)"

text \<open>\<open>hex.EncodeToString\<close> and \<open>hex.DecodeString\<close>.\<close>

definition hex_digit :: "nat \<Rightarrow> char" where
  "hex_digit n = (if n < 10 then char_of (48 + n) else char_of (87 + n))"

definition hex_encode :: "bytes \<Rightarrow> string" where
  "hex_encode bs = concat (map (\<lambda>b. [hex_digit (unat b div 16), hex_digit (unat b mod 16)]) bs)"

definition hex_value :: "char \<Rightarrow> nat option" where
  "hex_value c =
     (let k = of_char c
      in if 48 \<le> k \<and> k \<le> 57 then Some (k - 48)
         else if 97 \<le> k \<and> k \<le> 102 then Some (k - 87)
         else if 65 \<le> k \<and> k \<le> 70 then Some (k - 55) else None)"

fun hex_decode :: "string \<Rightarrow> (string, bytes) res" where
  "hex_decode [] = Ok []"
| "hex_decode [c] = (if hex_value c = None then Err ''invalid byte'' else Err ''odd length hex string'')"
| "hex_decode (c # d # cs) =
     (case (hex_value c, hex_value d) of
        (Some a, Some b) \<Rightarrow> bind_res (hex_decode cs) (\<lambda>bs. Ok (word_of_nat (a * 16 + b) # bs))
      | _ \<Rightarrow> Err ''invalid byte'')"

text \<open>\<open>binary.LittleEndian.PutUint64\<close> (\<open>k = 8\<close>), \<open>PutUint32\<close> (\<open>k = 4\<close>) and \<open>big.Int.SetBytes\<close>.\<close>

definition le_bytes :: "nat \<Rightarrow> u64 \<Rightarrow> bytes" where
  "le_bytes k w = map (\<lambda>i. ucast (drop_bit (8 * i) w)) [0..<k]"

definition nat_of_bytes :: "bytes \<Rightarrow> nat" where
  "nat_of_bytes bs = foldl (\<lambda>n b. n * 256 + unat b) 0 bs"

section \<open>Topics\<close>

definition SubnetsCount :: nat where "SubnetsCount = 128"
definition byteCount :: nat where "byteCount = SubnetsCount div 8"
definition UnknownSubnetId :: u64 where "UnknownSubnetId = maxUint64"
definition UnknownSubnet :: string where "UnknownSubnet = ''unknown''"
definition topicPrefix :: string where "topicPrefix = ''ssv.v2''"
definition topicRoot :: string where "topicRoot = ''/ssv''"
definition booleTopicFork :: string where "booleTopicFork = ''boole''"

definition SubnetTopicID :: "u64 \<Rightarrow> string" where
  "SubnetTopicID subnet = (if subnet = UnknownSubnetId then UnknownSubnet else show_dec (unat subnet))"

definition GetTopicFullName :: "string \<Rightarrow> string" where
  "GetTopicFullName baseName = topicPrefix @ ''.'' @ baseName"

definition BooleTopic :: "string \<Rightarrow> u64 \<Rightarrow> string" where
  "BooleTopic networkName subnet =
     (if subnet = UnknownSubnetId
      then topicRoot @ ''/'' @ networkName @ ''/'' @ booleTopicFork @ ''/'' @ UnknownSubnet
      else topicRoot @ ''/'' @ networkName @ ''/'' @ booleTopicFork @ ''/'' @ show_dec (unat subnet))"

definition ParseTopicSubnet :: "string \<Rightarrow> (string, u64 \<times> bool) res" where
  "ParseTopicSubnet topicName =
     (if hasPrefix topicName (topicPrefix @ ''.'')
      then bind_res (parseUint (trimPrefix topicName (topicPrefix @ ''.''))) (\<lambda>subnet. Ok (subnet, False))
      else if hasPrefix topicName (topicRoot @ ''/'')
      then let parts = splitN 3 CHR ''/'' (trimPrefix topicName (topicRoot @ ''/''))
           in if length parts \<noteq> 3 \<or> parts ! 1 \<noteq> booleTopicFork \<or> parts ! 2 = []
              then Err ''invalid topic format''
              else bind_res (parseUint (parts ! 2)) (\<lambda>subnet. Ok (subnet, True))
      else Err ''invalid topic format'')"

definition Topics :: "Network \<Rightarrow> u64 \<Rightarrow> ('e, string list) res" where
  "Topics netCfg slot =
     bind_res (BooleForkAtSlot netCfg slot) (\<lambda>boole.
     bind_res (if \<not> boole then Ok True else InBooleTransitionWindow netCfg slot) (\<lambda>includeAlan.
       Ok (concat (map (\<lambda>subnet.
             (if includeAlan then [GetTopicFullName (SubnetTopicID (word_of_nat subnet))] else [])
             @ [BooleTopic (ssv_Name (nw_SSV netCfg)) (word_of_nat subnet)]) [0..<SubnetsCount]))))"

section \<open>Subnets of committees\<close>

definition AlanCommitteeSubnet :: "bytes \<Rightarrow> u64" where
  "AlanCommitteeSubnet cid = word_of_nat (nat_of_bytes cid mod SubnetsCount)"

fun lowestHash :: "(bytes \<Rightarrow> bytes) \<Rightarrow> nat \<Rightarrow> OperatorID list \<Rightarrow> nat" where
  "lowestHash sha lowest [] = lowest"
| "lowestHash sha lowest (op # ops) =
     (let hashNum = nat_of_bytes (sha (le_bytes 8 op))
      in lowestHash sha (if hashNum < lowest then hashNum else lowest) ops)"

definition BooleCommitteeSubnet :: "(bytes \<Rightarrow> bytes) \<Rightarrow> OperatorID list \<Rightarrow> u64" where
  "BooleCommitteeSubnet sha committee =
     (case committee of
        [] \<Rightarrow> UnknownSubnetId
      | op # ops \<Rightarrow>
          word_of_nat (lowestHash sha (nat_of_bytes (sha (le_bytes 8 op))) ops mod SubnetsCount))"

section \<open>The subscribed subnets\<close>

text \<open>The array of \<open>byteCount\<close> bytes inside the struct \<open>Subnets\<close>.\<close>

type_synonym Subnets = bytes

definition ZeroSubnets :: Subnets where "ZeroSubnets = replicate byteCount 0"
definition AllSubnets :: Subnets where "AllSubnets = replicate byteCount 0xFF"

definition SubnetsFromString :: "string \<Rightarrow> (string, Subnets) res" where
  "SubnetsFromString subnetsStr =
     (if subnetsStr = [] then Ok ZeroSubnets
      else bind_res (hex_decode (trimPrefix subnetsStr ''0x'')) (\<lambda>data.
             if length data \<noteq> byteCount then Err ''invalid subnets length'' else Ok data))"

definition IsSet :: "Subnets \<Rightarrow> u64 \<Rightarrow> bool" where
  "IsSet s i =
     (if unat i \<ge> SubnetsCount then False
      else (s ! unat (i div 8)) AND push_bit (unat (i mod 8)) 1 \<noteq> 0)"

definition Set :: "Subnets \<Rightarrow> u64 \<Rightarrow> Subnets" where
  "Set s i =
     (if unat i \<ge> SubnetsCount then s
      else s[unat (i div 8) := (s ! unat (i div 8)) OR push_bit (unat (i mod 8)) 1])"

definition Clear :: "Subnets \<Rightarrow> u64 \<Rightarrow> Subnets" where
  "Clear s i =
     (if unat i \<ge> SubnetsCount then s
      else s[unat (i div 8) := (s ! unat (i div 8)) AND NOT (push_bit (unat (i mod 8)) 1)])"

definition StringHex :: "Subnets \<Rightarrow> string" where
  "StringHex s = hex_encode s"

definition SubnetList :: "Subnets \<Rightarrow> u64 list" where
  "SubnetList s =
     concat (map (\<lambda>(byteIdx, b).
       map (\<lambda>bitIdx. word_of_nat (byteIdx * 8 + bitIdx))
         (filter (\<lambda>bitIdx. b AND push_bit bitIdx 1 = push_bit bitIdx 1) [0..<8])) (enumerate 0 s))"

definition ActiveCount :: "Subnets \<Rightarrow> nat" where
  "ActiveCount s = sum_list (map (\<lambda>b. length (filter (bit b) [0..<8])) s)"

definition HasActive :: "Subnets \<Rightarrow> bool" where
  "HasActive s \<longleftrightarrow> ActiveCount s > 0"

definition ToMap :: "Subnets \<Rightarrow> (u64 \<times> bool) list" where
  "ToMap s = map (\<lambda>i. (word_of_nat i, IsSet s (word_of_nat i))) [0..<SubnetsCount]"

fun shared_loop :: "Subnets \<Rightarrow> Subnets \<Rightarrow> nat \<Rightarrow> u64 list \<Rightarrow> nat list \<Rightarrow> u64 list" where
  "shared_loop s other n shared [] = shared"
| "shared_loop s other n shared (i # is) =
     (if IsSet s (word_of_nat i) \<and> IsSet other (word_of_nat i)
      then let shared' = shared @ [word_of_nat i]
           in if length shared' = n then shared' else shared_loop s other n shared' is
      else shared_loop s other n shared is)"

definition SharedSubnetsN :: "Subnets \<Rightarrow> Subnets \<Rightarrow> int \<Rightarrow> u64 list" where
  "SharedSubnetsN s other n =
     shared_loop s other (if n \<le> 0 then SubnetsCount else nat n) [] [0..<SubnetsCount]"

definition SharedSubnets :: "Subnets \<Rightarrow> Subnets \<Rightarrow> u64 list" where
  "SharedSubnets s other = SharedSubnetsN s other 0"

definition DiffSubnets :: "Subnets \<Rightarrow> Subnets \<Rightarrow> Subnets \<times> Subnets" where
  "DiffSubnets s other =
     (map (\<lambda>i. (other ! i) AND NOT (s ! i)) [0..<byteCount],
      map (\<lambda>i. (s ! i) AND NOT (other ! i)) [0..<byteCount])"

section \<open>Printing and parsing topics\<close>

lemma is_digit_char_of: "n < 10 \<Longrightarrow> is_digit (char_of (48 + n :: nat))"
  by (simp add: is_digit_def)

lemma parseUint_loop_show_dec:
  "n \<le> 18446744073709551615 \<Longrightarrow> parseUint_loop 0 (show_dec n @ s) = parseUint_loop n s"
proof (induction n arbitrary: s rule: show_dec.induct)
  case (1 n)
  show ?case
  proof (cases "n < 10")
    case True
    then show ?thesis
      by (subst show_dec.simps) (simp add: is_digit_char_of Let_def)
  next
    case False
    have "n mod 10 < 10"
      by simp
    moreover have "n div 10 * 10 + n mod 10 = n"
      by simp
    moreover have "parseUint_loop 0 (show_dec n @ s) =
        parseUint_loop (n div 10) (char_of (48 + n mod 10) # s)"
      using False 1 by (subst show_dec.simps) simp
    ultimately show ?thesis
      using 1(2) is_digit_char_of [of "n mod 10"] by (simp add: Let_def)
  qed
qed

lemma show_dec_digits: "set (show_dec n) \<subseteq> {c. is_digit c}"
proof (induction n rule: show_dec.induct)
  case (1 n)
  then show ?case
    by (subst show_dec.simps) (auto simp: is_digit_char_of)
qed

lemma show_dec_nonempty: "show_dec n \<noteq> []"
  by (subst show_dec.simps) simp

lemma parseUint_show_dec: "parseUint (show_dec (unat (w :: u64))) = Ok w"
proof -
  have "unat w \<le> 18446744073709551615"
    using unsigned_less [of w, where 'a = nat] by simp
  then show ?thesis
    using parseUint_loop_show_dec [of "unat w" "[]"]
    by (simp add: parseUint_def show_dec_nonempty)
qed

lemma hasPrefix_append [simp]: "hasPrefix (p @ s) p"
  by (simp add: hasPrefix_def)

lemma trimPrefix_append [simp]: "trimPrefix (p @ s) p = s"
  by (simp add: trimPrefix_def)

lemma takeWhile_sep: "c \<notin> set xs \<Longrightarrow> takeWhile (\<lambda>x. x \<noteq> c) (xs @ c # ys) = xs"
  by (induction xs) auto

lemma dropWhile_sep: "c \<notin> set xs \<Longrightarrow> dropWhile (\<lambda>x. x \<noteq> c) (xs @ c # ys) = c # ys"
  by (induction xs) auto

lemma splitN_three:
  assumes "c \<notin> set a" "c \<notin> set b"
  shows "splitN 3 c (a @ c # b @ c # d) = [a, b, d]"
  using assms by (simp add: numeral_3_eq_3 takeWhile_sep dropWhile_sep)

lemma Parse_Alan: "ParseTopicSubnet (GetTopicFullName base) = bind_res (parseUint base) (\<lambda>subnet. Ok (subnet, False))"
  using hasPrefix_append [of "topicPrefix @ ''.''" base] trimPrefix_append [of "topicPrefix @ ''.''" base]
  by (simp add: ParseTopicSubnet_def GetTopicFullName_def)

lemma Parse_Boole:
  assumes "CHR ''/'' \<notin> set name" "d \<noteq> []"
  shows "ParseTopicSubnet (topicRoot @ ''/'' @ name @ ''/'' @ booleTopicFork @ ''/'' @ d)
       = bind_res (parseUint d) (\<lambda>subnet. Ok (subnet, True))"
proof -
  have "CHR ''/'' \<notin> set booleTopicFork"
    by (simp add: booleTopicFork_def)
  then have "splitN 3 CHR ''/'' (name @ ''/'' @ booleTopicFork @ ''/'' @ d) = [name, booleTopicFork, d]"
    using splitN_three [OF assms(1)] by simp
  then show ?thesis
    using assms(2)
    by (simp add: ParseTopicSubnet_def topicRoot_def topicPrefix_def hasPrefix_def trimPrefix_def Let_def)
qed

section \<open>The bit set is a set\<close>

definition subnets :: "Subnets \<Rightarrow> nat set" where
  "subnets s = {k. k < SubnetsCount \<and> bit (s ! (k div 8)) (k mod 8)}"

definition subnets_ok :: "Subnets \<Rightarrow> bool" where
  "subnets_ok s \<longleftrightarrow> length s = byteCount"

lemmas subnet_consts = SubnetsCount_def byteCount_def

lemma finite_subnets [simp]: "finite (subnets s)"
  by (simp add: subnets_def)

lemma byte_mask_exp: "(b :: byte) AND 2 ^ k \<noteq> 0 \<longleftrightarrow> bit b k"
  by (simp add: and_exp_eq_0_iff_not_bit)

lemma byte_mask_eq:
  assumes "k < 8"
  shows "(b :: byte) AND 2 ^ k = 2 ^ k \<longleftrightarrow> bit b k"
proof
  assume "b AND 2 ^ k = 2 ^ k"
  then have "bit (b AND 2 ^ k) k = bit (2 ^ k :: byte) k"
    by simp
  then show "bit b k"
    using assms by (simp add: bit_and_iff bit_exp_iff)
next
  assume "bit b k"
  then show "b AND 2 ^ k = 2 ^ k"
    by (intro bit_word_eqI) (auto simp: bit_and_iff bit_exp_iff)
qed

lemma IsSet_iff: "IsSet s i \<longleftrightarrow> unat i \<in> subnets s"
  by (simp add: IsSet_def subnets_def byte_mask_exp unat_div unat_mod)

lemma Set_ok: "subnets_ok s \<Longrightarrow> subnets_ok (Set s i)"
  by (simp add: Set_def subnets_ok_def)

lemma Clear_ok: "subnets_ok s \<Longrightarrow> subnets_ok (Clear s i)"
  by (simp add: Clear_def subnets_ok_def)

lemma div_mod_eq_iff: "(k :: nat) div 8 = n div 8 \<Longrightarrow> k mod 8 = n mod 8 \<longleftrightarrow> k = n"
  by (metis div_mult_mod_eq)

lemma subnets_update:
  assumes "subnets_ok s" "n < SubnetsCount"
  shows "k < SubnetsCount \<Longrightarrow> s[n div 8 := b] ! (k div 8) = (if k div 8 = n div 8 then b else s ! (k div 8))"
  using assms by (auto simp: subnets_ok_def subnet_consts nth_list_update)

lemma subnets_Set:
  assumes "subnets_ok s"
  shows "subnets (Set s i) = (if unat i < SubnetsCount then insert (unat i) (subnets s) else subnets s)"
proof (cases "unat i < SubnetsCount")
  case True
  have bit: "bit ((s ! (unat i div 8)) OR 2 ^ (unat i mod 8)) (k mod 8)
      \<longleftrightarrow> bit (s ! (unat i div 8)) (k mod 8) \<or> k mod 8 = unat i mod 8" for k
    by (auto simp: bit_or_iff bit_exp_iff)
  show ?thesis
    using True
    by (auto simp: Set_def subnets_def unat_div unat_mod subnets_update [OF assms True] bit
             dest: div_mod_eq_iff [THEN iffD1, rotated] split: if_splits)
qed (simp add: Set_def)

lemma subnets_Clear:
  assumes "subnets_ok s"
  shows "subnets (Clear s i) = subnets s - {unat i}"
proof (cases "unat i < SubnetsCount")
  case True
  have bit: "bit ((s ! (unat i div 8)) AND NOT (2 ^ (unat i mod 8))) (k mod 8)
      \<longleftrightarrow> bit (s ! (unat i div 8)) (k mod 8) \<and> k mod 8 \<noteq> unat i mod 8" for k
    by (auto simp: bit_and_iff bit_not_iff bit_exp_iff)
  show ?thesis
    using True
    by (auto simp: Clear_def subnets_def unat_div unat_mod subnets_update [OF assms True] bit
             dest: div_mod_eq_iff [THEN iffD1, rotated] split: if_splits)
qed (auto simp: Clear_def subnets_def)

lemma subnets_Diff:
  "subnets (fst (DiffSubnets s other)) = subnets other - subnets s"
  "subnets (snd (DiffSubnets s other)) = subnets s - subnets other"
  by (auto simp: DiffSubnets_def subnets_def subnet_consts bit_and_iff bit_not_iff
           dest: bit_imp_le_length)

lemma sorted_list_of_filter: "sorted_list_of_set {k. k < n \<and> P k} = filter P [0..<n]"
proof -
  have "{k. k < n \<and> P k} = set (filter P [0..<n])"
    by auto
  then show ?thesis
    by (simp only:) (intro sorted_list_of_set.idem_if_sorted_distinct; simp add: sorted_wrt_filter)
qed

lemma byte_positions:
  "concat (map (\<lambda>(i, b). map (\<lambda>k. i * 8 + k) (filter (bit b) [0..<8])) (enumerate j bs))
     = filter (\<lambda>k. bit (bs ! (k div 8 - j)) (k mod 8)) [j * 8..<(j + length bs) * 8]"
proof (induction bs arbitrary: j)
  case (Cons b bs)
  have "[j * 8..<(j + length (b # bs)) * 8]
      = map (\<lambda>k. j * 8 + k) [0..<8] @ [Suc j * 8..<(Suc j + length bs) * 8]"
    using upt_add_eq_append [of "j * 8" "j * 8 + 8" "length bs * 8"] map_add_upt [of "j * 8" 8]
    by (simp add: ac_simps)
  moreover have "filter (\<lambda>k. bit ((b # bs) ! (k div 8 - j)) (k mod 8)) [Suc j * 8..<(Suc j + length bs) * 8]
      = filter (\<lambda>k. bit (bs ! (k div 8 - Suc j)) (k mod 8)) [Suc j * 8..<(Suc j + length bs) * 8]"
  proof (rule filter_cong [OF refl])
    fix k
    assume "k \<in> set [Suc j * 8..<(Suc j + length bs) * 8]"
    then have "Suc j * 8 \<le> k"
      by simp
    then have "Suc j \<le> k div 8"
      by (simp add: less_eq_div_iff_mult_less_eq)
    then have "k div 8 - j = Suc (k div 8 - Suc j)"
      by linarith
    then show "bit ((b # bs) ! (k div 8 - j)) (k mod 8) = bit (bs ! (k div 8 - Suc j)) (k mod 8)"
      by simp
  qed
  moreover have "filter (\<lambda>k. bit ((b # bs) ! (k div 8 - j)) (k mod 8)) (map (\<lambda>k. j * 8 + k) [0..<8])
      = map (\<lambda>k. j * 8 + k) (filter (bit b) [0..<8])"
    unfolding filter_map by (rule arg_cong [of _ _ "map _"]) (rule filter_cong; simp)
  ultimately show ?case
    using Cons.IH [of "Suc j"] by simp
qed simp

lemma subnets_list: "subnets_ok s \<Longrightarrow>
  sorted_list_of_set (subnets s)
    = concat (map (\<lambda>(i, b). map (\<lambda>k. i * 8 + k) (filter (bit b) [0..<8])) (enumerate 0 s))"
  unfolding byte_positions subnets_def sorted_list_of_filter
  by (simp add: subnets_ok_def subnet_consts)

lemma unat_subnet: "k < SubnetsCount \<Longrightarrow> unat (word_of_nat k :: u64) = k"
  by (simp add: SubnetsCount_def unat_of_nat)

lemma map_unat_subnets:
  assumes "\<And>k. k \<in> set ks \<Longrightarrow> k < SubnetsCount"
  shows "map unat (map word_of_nat ks :: u64 list) = ks"
  using assms by (induction ks) (auto simp: unat_subnet)

lemma SubnetList_sorted:
  assumes "subnets_ok s"
  shows "map unat (SubnetList s) = sorted_list_of_set (subnets s)"
proof -
  have mask: "filter (\<lambda>k. b AND push_bit k 1 = push_bit k 1) [0..<8] = filter (bit b) [0..<8]" for b :: byte
    by (rule filter_cong) (simp_all add: byte_mask_eq)
  have "SubnetList s = map word_of_nat (sorted_list_of_set (subnets s))"
    unfolding SubnetList_def subnets_list [OF assms] mask
    by (simp add: map_concat o_def case_prod_unfold)
  then show ?thesis
    using map_unat_subnets [of "sorted_list_of_set (subnets s)"] by (auto simp: subnets_def)
qed

lemma ActiveCount_card:
  assumes "subnets_ok s"
  shows "ActiveCount s = card (subnets s)"
proof -
  have "card (subnets s) = length (sorted_list_of_set (subnets s))"
    by simp
  also have "\<dots> = sum_list (map (\<lambda>(i, b). length (filter (bit b) [0..<8])) (enumerate 0 s))"
    unfolding subnets_list [OF assms] by (simp add: length_concat o_def case_prod_unfold)
  also have "\<dots> = ActiveCount s"
    unfolding ActiveCount_def
    by (metis (no_types, lifting) case_prod_unfold map_eq_conv map_map map_snd_enumerate o_def)
  finally show ?thesis ..
qed

lemma shared_loop_take:
  "length acc < n \<Longrightarrow> shared_loop s other n acc ks =
     take n (acc @ map word_of_nat (filter (\<lambda>i. IsSet s (word_of_nat i) \<and> IsSet other (word_of_nat i)) ks))"
proof (induction ks arbitrary: acc)
  case (Cons k ks)
  show ?case
  proof (cases "IsSet s (word_of_nat k) \<and> IsSet other (word_of_nat k)")
    case True
    show ?thesis
    proof (cases "Suc (length acc) = n")
      case False
      then have "length (acc @ [word_of_nat k]) < n"
        using Cons.prems by simp
      from Cons.IH [OF this] show ?thesis
        using True False by simp
    qed (use True in auto)
  next
    case False
    then show ?thesis
      using Cons by auto
  qed
qed simp

lemma SharedSubnetsN_inter:
  "map unat (SharedSubnetsN s other n)
     = take (if n \<le> 0 then SubnetsCount else nat n) (sorted_list_of_set (subnets s \<inter> subnets other))"
proof -
  define m where "m = (if n \<le> 0 then SubnetsCount else nat n)"
  have "0 < m"
    by (simp add: m_def SubnetsCount_def)
  have "filter (\<lambda>i. IsSet s (word_of_nat i) \<and> IsSet other (word_of_nat i)) [0..<SubnetsCount]
      = filter (\<lambda>i. i \<in> subnets s \<inter> subnets other) [0..<SubnetsCount]"
    by (rule filter_cong) (auto simp: IsSet_iff unat_subnet)
  also have "\<dots> = sorted_list_of_set (subnets s \<inter> subnets other)"
    unfolding sorted_list_of_filter [symmetric] by (rule arg_cong [of _ _ sorted_list_of_set]) (auto simp: subnets_def)
  finally have "SharedSubnetsN s other n = take m (map word_of_nat (sorted_list_of_set (subnets s \<inter> subnets other)))"
    unfolding SharedSubnetsN_def m_def [symmetric] using shared_loop_take [of "[]" m] \<open>0 < m\<close> by simp
  then show ?thesis
    unfolding m_def [symmetric]
    using map_unat_subnets [of "sorted_list_of_set (subnets s \<inter> subnets other)"]
    by (simp add: take_map [symmetric] subnets_def)
qed

section \<open>The hexadecimal form\<close>

lemma hex_value_digit: "n < 16 \<Longrightarrow> hex_value (hex_digit n) = Some n"
  by (auto simp: hex_value_def hex_digit_def Let_def)

lemma hex_decode_encode: "hex_decode (hex_encode bs) = Ok bs"
proof (induction bs)
  case (Cons b bs)
  have "unat b < 256"
    using unsigned_less [of b, where 'a = nat] by simp
  then have "unat b div 16 < 16" "unat b mod 16 < 16"
    by (simp_all add: less_mult_imp_div_less)
  then show ?case
    using Cons by (simp add: hex_encode_def hex_value_digit)
qed (simp add: hex_encode_def)

lemma hex_digit_not_x: "n < 16 \<Longrightarrow> hex_digit n \<noteq> CHR ''x''"
  using hex_value_digit [of n] by (auto simp: hex_value_def Let_def)

lemma hex_encode_no_prefix: "\<not> hasPrefix (hex_encode bs) ''0x''"
proof (cases bs)
  case (Cons b bs')
  then show ?thesis
    using hex_digit_not_x [of "unat b mod 16"] by (simp add: hasPrefix_def hex_encode_def numeral_2_eq_2)
qed (simp add: hasPrefix_def hex_encode_def)

lemma SubnetsFromString_StringHex:
  assumes "subnets_ok s"
  shows "SubnetsFromString (StringHex s) = Ok s"
proof -
  have "s \<noteq> []"
    using assms by (auto simp: subnets_ok_def subnet_consts)
  then have "hex_encode s \<noteq> []"
    by (cases s) (simp_all add: hex_encode_def)
  then show ?thesis
    using assms hex_encode_no_prefix [of s]
    by (simp add: SubnetsFromString_def StringHex_def trimPrefix_def hex_decode_encode subnets_ok_def)
qed

section \<open>The subnet of a committee\<close>

lemma lowestHash_Min:
  "lowestHash sha m ops = Min (insert m ((\<lambda>op. nat_of_bytes (sha (le_bytes 8 op))) ` set ops))"
proof (induction ops arbitrary: m)
  case (Cons op ops)
  let ?h = "\<lambda>op. nat_of_bytes (sha (le_bytes 8 op))"
  have "Min (insert m (?h ` set (op # ops))) = Min (insert (min (?h op) m) (?h ` set ops))"
    by (cases "ops = []") (simp_all add: ac_simps)
  moreover have "min (?h op) m = (if ?h op < m then ?h op else m)"
    by auto
  ultimately show ?case
    using Cons by (simp add: Let_def del: Min_insert)
qed simp

lemma BooleCommitteeSubnet_Min:
  assumes "committee \<noteq> []"
  shows "BooleCommitteeSubnet sha committee
    = word_of_nat (Min ((\<lambda>op. nat_of_bytes (sha (le_bytes 8 op))) ` set committee) mod SubnetsCount)"
  using assms by (cases committee) (simp_all add: BooleCommitteeSubnet_def lowestHash_Min)

lemma AlanCommitteeSubnet_bound: "unat (AlanCommitteeSubnet cid) < SubnetsCount"
  by (simp add: AlanCommitteeSubnet_def unat_subnet SubnetsCount_def unat_of_nat)

section \<open>Collecting subnets\<close>

text \<open>
  The set of subnets as its users see it: they test, add and remove single subnets. Numbers outside
  the range are never members.
\<close>

locale subnet_set =
  fixes ok :: "'s \<Rightarrow> bool" and mem :: "'s \<Rightarrow> u64 \<Rightarrow> bool"
    and add :: "'s \<Rightarrow> u64 \<Rightarrow> 's" and del :: "'s \<Rightarrow> u64 \<Rightarrow> 's" and legal :: "u64 \<Rightarrow> bool"
  assumes add_ok: "ok s \<Longrightarrow> ok (add s i)"
    and del_ok: "ok s \<Longrightarrow> ok (del s i)"
    and mem_legal: "ok s \<Longrightarrow> mem s i \<Longrightarrow> legal i"
    and mem_add: "ok s \<Longrightarrow> mem (add s i) j \<longleftrightarrow> mem s j \<or> j = i \<and> legal i"
    and mem_del: "ok s \<Longrightarrow> mem (del s i) j \<longleftrightarrow> mem s j \<and> j \<noteq> i"
begin

lemma fold_add_ok: "ok s \<Longrightarrow> ok (fold (\<lambda>i s. add s i) xs s)"
  by (induction xs arbitrary: s) (auto simp: add_ok)

lemma mem_fold_add:
  "ok s \<Longrightarrow> mem (fold (\<lambda>i s. add s i) xs s) j \<longleftrightarrow> mem s j \<or> j \<in> set xs \<and> legal j"
  by (induction xs arbitrary: s) (auto simp: add_ok mem_add)

lemma add_then_del: "ok s \<Longrightarrow> \<not> mem s i \<Longrightarrow> mem (del (add s i) i) j \<longleftrightarrow> mem s j"
  by (auto simp: add_ok mem_add mem_del)

end

interpretation bits: subnet_set subnets_ok IsSet Set Clear "\<lambda>i. unat i < SubnetsCount"
proof unfold_locales
  fix s i j
  assume ok: "subnets_ok s"
  show "IsSet (Set s i) j \<longleftrightarrow> IsSet s j \<or> j = i \<and> unat i < SubnetsCount"
    by (auto simp: IsSet_iff subnets_Set [OF ok] word_unat_eq_iff)
  show "IsSet (Clear s i) j \<longleftrightarrow> IsSet s j \<and> j \<noteq> i"
    by (auto simp: IsSet_iff subnets_Clear [OF ok] word_unat_eq_iff)
  show "IsSet s i \<Longrightarrow> unat i < SubnetsCount"
    by (simp add: IsSet_iff subnets_def)
qed (simp_all add: Set_ok Clear_ok)

section \<open>Properties\<close>

text \<open>
  Topic names. Both kinds of topic name parse back to their subnet and their fork, the Boole
  one for every network name without a slash; a name made for the unknown subnet does not parse;
  and no topic is both.
\<close>

theorem topic_roundtrip:
  assumes "CHR ''/'' \<notin> set name"
  shows "(subnet \<noteq> UnknownSubnetId \<longrightarrow>
            ParseTopicSubnet (BooleTopic name subnet) = Ok (subnet, True) \<and>
            ParseTopicSubnet (GetTopicFullName (SubnetTopicID subnet)) = Ok (subnet, False)) \<and>
         \<not> is_Ok (ParseTopicSubnet (BooleTopic name UnknownSubnetId)) \<and>
         \<not> is_Ok (ParseTopicSubnet (GetTopicFullName (SubnetTopicID UnknownSubnetId)))"
proof -
  have "\<not> is_digit CHR ''u''"
    by (simp add: is_digit_def)
  then have unknown: "parseUint UnknownSubnet = Err ''invalid syntax''"
    by (simp add: UnknownSubnet_def parseUint_def)
  have "UnknownSubnet \<noteq> []"
    by (simp add: UnknownSubnet_def)
  then show ?thesis
    using Parse_Boole [OF assms] Parse_Alan show_dec_nonempty parseUint_show_dec [of subnet] unknown
    by (simp add: BooleTopic_def SubnetTopicID_def)
qed

theorem topic_roundtrip_witness:
  "ParseTopicSubnet (BooleTopic ''holesky'' 42) = Ok (42, True)"
  using topic_roundtrip [of "''holesky''" 42] by (simp add: UnknownSubnetId_def maxUint64_def)

text \<open>
  C39: The bit set of subnets implements a finite set of the numbers below 128: testing, adding,
  removing, listing (in ascending order), counting, intersecting up to a limit and taking
  differences all agree with the set, and the hexadecimal form reads back.
\<close>

theorem subnets_refine_set:
  assumes "subnets_ok s" "subnets_ok other"
  shows "(IsSet s i \<longleftrightarrow> unat i \<in> subnets s) \<and>
         subnets (Set s i) = subnets s \<union> (if unat i < SubnetsCount then {unat i} else {}) \<and>
         subnets (Clear s i) = subnets s - {unat i} \<and>
         map unat (SubnetList s) = sorted_list_of_set (subnets s) \<and>
         ActiveCount s = card (subnets s) \<and>
         (HasActive s \<longleftrightarrow> subnets s \<noteq> {}) \<and>
         map unat (SharedSubnetsN s other n)
           = take (if n \<le> 0 then SubnetsCount else nat n)
               (sorted_list_of_set (subnets s \<inter> subnets other)) \<and>
         subnets (fst (DiffSubnets s other)) = subnets other - subnets s \<and>
         subnets (snd (DiffSubnets s other)) = subnets s - subnets other \<and>
         SubnetsFromString (StringHex s) = Ok s"
  using assms
  by (auto simp: IsSet_iff subnets_Set subnets_Clear SubnetList_sorted ActiveCount_card HasActive_def
      SharedSubnetsN_inter subnets_Diff SubnetsFromString_StringHex card_gt_0_iff)

theorem subnets_refine_set_witness:
  "subnets_ok AllSubnets \<and> subnets_ok ZeroSubnets \<and> subnets (Clear AllSubnets 5) = subnets AllSubnets - {5}"
  using subnets_refine_set [of AllSubnets ZeroSubnets 5]
  by (simp add: subnets_ok_def AllSubnets_def ZeroSubnets_def)

text \<open>
  The subnet of a committee after the Boole fork. It is the smallest hash of its operators
  modulo the number of subnets, so it does not depend on the order in which the operators are
  listed, and it is in range for every non-empty committee.
\<close>

theorem boole_subnet_order_independent:
  assumes "set committee = set committee'" "committee \<noteq> []"
  shows "BooleCommitteeSubnet sha committee = BooleCommitteeSubnet sha committee' \<and>
         unat (BooleCommitteeSubnet sha committee) < SubnetsCount \<and>
         (\<exists>op \<in> set committee. BooleCommitteeSubnet sha committee = BooleCommitteeSubnet sha [op])"
proof -
  let ?h = "\<lambda>op. nat_of_bytes (sha (le_bytes 8 op))"
  have "Min (?h ` set committee) \<in> ?h ` set committee"
    using assms(2) by (intro Min_in) auto
  then obtain op where "op \<in> set committee" "Min (?h ` set committee) = ?h op"
    by auto
  moreover have "committee' \<noteq> []"
    using assms by auto
  ultimately show ?thesis
    using assms
    by (auto simp: BooleCommitteeSubnet_Min unat_of_nat SubnetsCount_def intro!: bexI [of _ op])
qed

theorem boole_subnet_order_independent_witness:
  "BooleCommitteeSubnet (\<lambda>bs. bs) [3, 1, 2, 4] = BooleCommitteeSubnet (\<lambda>bs. bs) [1, 2, 3, 4]"
  using boole_subnet_order_independent [of "[3, 1, 2, 4]" "[1, 2, 3, 4]" "\<lambda>bs. bs"] by force

end
