(* ===== verification/Share.thy ===== *)
theory Share
  imports Subnets
begin

text \<open>
  Validator shares, \<open>protocol/v2/types/ssvshare.go\<close>: participation of a validator in duties, the
  committee a share belongs to, and the quorum arithmetic. The predicates on the validator status
  belong to the beacon client library; they are the fields of the argument \<open>A\<close>. The SHA-256 and
  Keccak-256 routines are arguments too.
\<close>

section \<open>Data\<close>

datatype ValidatorState =
    ValidatorStateUnknown | ValidatorStatePendingInitialized | ValidatorStatePendingQueued
  | ValidatorStateActiveOngoing | ValidatorStateActiveExiting | ValidatorStateActiveSlashed
  | ValidatorStateExitedUnslashed | ValidatorStateExitedSlashed
  | ValidatorStateWithdrawalPossible | ValidatorStateWithdrawalDone

record stateAPI =
  vs_IsPending :: "ValidatorState \<Rightarrow> bool"
  vs_HasActivated :: "ValidatorState \<Rightarrow> bool"
  vs_IsActive :: "ValidatorState \<Rightarrow> bool"
  vs_IsAttesting :: "ValidatorState \<Rightarrow> bool"
  vs_IsExited :: "ValidatorState \<Rightarrow> bool"
  vs_HasExited :: "ValidatorState \<Rightarrow> bool"

record ShareMember =
  Signer :: OperatorID
  mem_SharePubKey :: bytes

text \<open>
  The three cached values are \<open>None\<close> before they are first asked for. A \<open>time.Time\<close> is a number of
  nanoseconds.
\<close>

record SSVShare =
  sh_ValidatorIndex :: u64
  sh_ValidatorPubKey :: bytes
  sh_SharePubKey :: bytes
  sh_Committee :: "ShareMember list"
  sh_DomainType :: bytes
  sh_Graffiti :: bytes
  sh_Status :: ValidatorState
  sh_ActivationEpoch :: u64
  sh_ExitEpoch :: u64
  sh_OwnerAddress :: bytes
  sh_Liquidated :: bool
  sh_BeaconMetadataLastUpdated :: int
  sh_committeeID :: "bytes option"
  sh_booleCommitteeSubnet :: "u64 option"
  sh_alanCommitteeSubnet :: "u64 option"
  sh_minParticipationEpoch :: u64

record ValidatorMetadata =
  md_Status :: ValidatorState
  md_Index :: u64
  md_ActivationEpoch :: u64
  md_ExitEpoch :: u64

section \<open>Quorums and identifiers\<close>

definition ComputeF :: "u64 \<Rightarrow> u64" where
  "ComputeF committeeSize = (committeeSize - 1) div 3"

definition ComputeQuorumAndPartialQuorum :: "u64 \<Rightarrow> u64 \<times> u64" where
  "ComputeQuorumAndPartialQuorum committeeSize =
     (let f = ComputeF committeeSize in (f * 2 + 1, f + 1))"

definition ValidCommitteeSize :: "u64 \<Rightarrow> bool" where
  "ValidCommitteeSize committeeSize =
     (let f = ComputeF committeeSize
      in (committeeSize - 1) mod 3 = 0 \<and> 1 \<le> f \<and> f \<le> 4)"

definition ComputeCommitteeID :: "(bytes \<Rightarrow> bytes) \<Rightarrow> OperatorID list \<Rightarrow> bytes" where
  "ComputeCommitteeID sha committee = sha (concat (map (le_bytes 4) (sort committee)))"

text \<open>\<open>binary.BigEndian.PutUint64\<close> into the last 8 of 32 bytes.\<close>

definition abi_word :: "u64 \<Rightarrow> bytes" where
  "abi_word w = replicate 24 0 @ rev (le_bytes 8 w)"

definition ComputeClusterIDHash :: "(bytes \<Rightarrow> bytes) \<Rightarrow> bytes \<Rightarrow> u64 list \<Rightarrow> bytes" where
  "ComputeClusterIDHash keccak address operatorIds =
     keccak (address @ concat (map abi_word (sort operatorIds)))"

section \<open>Methods of a share\<close>

definition BelongsToOperator :: "SSVShare \<Rightarrow> OperatorID \<Rightarrow> bool" where
  "BelongsToOperator s operatorID =
     (if operatorID = 0 then False else \<exists>m \<in> set (sh_Committee s). Signer m = operatorID)"

definition BeaconMetadata :: "SSVShare \<Rightarrow> ValidatorMetadata" where
  "BeaconMetadata s =
     \<lparr>md_Status = sh_Status s, md_Index = sh_ValidatorIndex s,
      md_ActivationEpoch = sh_ActivationEpoch s, md_ExitEpoch = sh_ExitEpoch s\<rparr>"

definition SetBeaconMetadata :: "int \<Rightarrow> SSVShare \<Rightarrow> ValidatorMetadata option \<Rightarrow> SSVShare" where
  "SetBeaconMetadata now s metadata =
     (case metadata of
        None \<Rightarrow> s
      | Some m \<Rightarrow> s\<lparr>sh_ValidatorIndex := md_Index m, sh_Status := md_Status m,
                    sh_ActivationEpoch := md_ActivationEpoch m, sh_ExitEpoch := md_ExitEpoch m,
                    sh_BeaconMetadataLastUpdated := now\<rparr>)"

definition HasBeaconMetadata :: "SSVShare option \<Rightarrow> bool" where
  "HasBeaconMetadata s = (case s of None \<Rightarrow> False | Some s \<Rightarrow> sh_Status s \<noteq> ValidatorStateUnknown)"

definition Pending :: "stateAPI \<Rightarrow> SSVShare \<Rightarrow> bool" where
  "Pending A s = vs_IsPending A (sh_Status s)"

definition Activated :: "stateAPI \<Rightarrow> SSVShare \<Rightarrow> bool" where
  "Activated A s \<longleftrightarrow>
     vs_HasActivated A (sh_Status s) \<or> vs_IsActive A (sh_Status s) \<or> vs_IsAttesting A (sh_Status s)"

definition IsActive :: "SSVShare \<Rightarrow> bool" where
  "IsActive s \<longleftrightarrow> sh_Status s = ValidatorStateActiveOngoing"

definition Exited :: "stateAPI \<Rightarrow> SSVShare \<Rightarrow> bool" where
  "Exited A s \<longleftrightarrow> vs_IsExited A (sh_Status s) \<or> vs_HasExited A (sh_Status s)"

definition Slashed :: "SSVShare \<Rightarrow> bool" where
  "Slashed s \<longleftrightarrow>
     sh_Status s = ValidatorStateExitedSlashed \<or> sh_Status s = ValidatorStateActiveSlashed"

definition IsAttesting :: "stateAPI \<Rightarrow> SSVShare \<Rightarrow> u64 \<Rightarrow> bool" where
  "IsAttesting A s epoch =
     (if sh_Liquidated s \<or> \<not> HasBeaconMetadata (Some s) then False
      else if vs_IsAttesting A (sh_Status s) then True
      else sh_Status s = ValidatorStatePendingQueued \<and> sh_ActivationEpoch s \<le> epoch)"

definition isSyncCommitteeEligible :: "stateAPI \<Rightarrow> Beacon \<Rightarrow> SSVShare \<Rightarrow> u64 \<Rightarrow> ('e, bool) res" where
  "isSyncCommitteeEligible A b s epoch =
     (if sh_Liquidated s then Ok False
      else if IsAttesting A s epoch then Ok True
      else if vs_IsExited A (sh_Status s) \<or> sh_Status s = ValidatorStateWithdrawalPossible
              \<or> sh_Status s = ValidatorStateActiveSlashed
      then if sh_ExitEpoch s \<le> epoch
           then bind_res (EstimatedSyncCommitteePeriodAtEpoch b epoch) (\<lambda>p.
                bind_res (EstimatedSyncCommitteePeriodAtEpoch b (sh_ExitEpoch s)) (\<lambda>q. Ok (p - q \<le> 1)))
           else Ok False
      else Ok False)"

definition IsParticipating :: "stateAPI \<Rightarrow> Beacon \<Rightarrow> SSVShare \<Rightarrow> u64 \<Rightarrow> ('e, bool) res" where
  "IsParticipating A b s epoch = isSyncCommitteeEligible A b s epoch"

definition SetMinParticipationEpoch :: "SSVShare \<Rightarrow> u64 \<Rightarrow> SSVShare" where
  "SetMinParticipationEpoch s epoch = s\<lparr>sh_minParticipationEpoch := epoch\<rparr>"

definition OperatorIDs :: "SSVShare \<Rightarrow> OperatorID list" where
  "OperatorIDs s = map Signer (sh_Committee s)"

text \<open>The methods that fill a cached value return the share they leave behind.\<close>

definition CommitteeID :: "(bytes \<Rightarrow> bytes) \<Rightarrow> SSVShare \<Rightarrow> bytes \<times> SSVShare" where
  "CommitteeID sha s =
     (case sh_committeeID s of
        Some cid \<Rightarrow> (cid, s)
      | None \<Rightarrow> let cid = ComputeCommitteeID sha (map Signer (sh_Committee s))
                in (cid, s\<lparr>sh_committeeID := Some cid\<rparr>))"

definition shareBooleSubnet :: "(bytes \<Rightarrow> bytes) \<Rightarrow> SSVShare \<Rightarrow> u64 \<times> SSVShare" where
  "shareBooleSubnet sha s =
     (case sh_booleCommitteeSubnet s of
        Some subnet \<Rightarrow> (subnet, s)
      | None \<Rightarrow> let subnet = BooleCommitteeSubnet sha (OperatorIDs s)
                in (subnet, s\<lparr>sh_booleCommitteeSubnet := Some subnet\<rparr>))"

definition shareAlanSubnet :: "(bytes \<Rightarrow> bytes) \<Rightarrow> SSVShare \<Rightarrow> u64 \<times> SSVShare" where
  "shareAlanSubnet sha s =
     (case sh_alanCommitteeSubnet s of
        Some subnet \<Rightarrow> (subnet, s)
      | None \<Rightarrow> let (cid, s') = CommitteeID sha s; subnet = AlanCommitteeSubnet cid
                in (subnet, s'\<lparr>sh_alanCommitteeSubnet := Some subnet\<rparr>))"

definition Quorum :: "SSVShare \<Rightarrow> u64" where
  "Quorum s = fst (ComputeQuorumAndPartialQuorum (len_u64 (sh_Committee s)))"

definition shareHasQuorum :: "SSVShare \<Rightarrow> u64 \<Rightarrow> bool" where
  "shareHasQuorum s cnt \<longleftrightarrow> Quorum s \<le> cnt"

section \<open>Valid committee sizes\<close>

lemma ValidCommitteeSize_iff: "ValidCommitteeSize n \<longleftrightarrow> n \<in> {4, 7, 10, 13}"
proof
  assume v: "ValidCommitteeSize n"
  define k where "k = n - 1"
  have k: "k mod 3 = 0" "1 \<le> k div 3" "k div 3 \<le> 4"
    using v by (auto simp: ValidCommitteeSize_def ComputeF_def Let_def k_def)
  then have "unat k mod 3 = 0" "1 \<le> unat k div 3" "unat k div 3 \<le> 4"
    by (auto simp: word_le_nat_alt unat_div word_unat_eq_iff unat_mod)
  then have "unat k \<in> {3, 6, 9, 12}"
    by (simp; presburger)
  then have "k \<in> {3, 6, 9, 12}"
    by (auto simp: word_unat_eq_iff)
  then show "n \<in> {4, 7, 10, 13}"
    unfolding k_def by (auto simp: diff_eq_eq)
qed (auto simp: ValidCommitteeSize_def ComputeF_def Let_def)

lemma quorum_values:
  "ComputeQuorumAndPartialQuorum 4 = (3, 2)"
  "ComputeQuorumAndPartialQuorum 7 = (5, 3)"
  "ComputeQuorumAndPartialQuorum 10 = (7, 4)"
  "ComputeQuorumAndPartialQuorum 13 = (9, 5)"
  by (simp_all add: ComputeQuorumAndPartialQuorum_def ComputeF_def)

lemma quorum_counts:
  assumes "ValidCommitteeSize n" "ComputeQuorumAndPartialQuorum n = (q, p)"
  shows "unat n + unat p = 2 * unat q" "unat q + unat p = unat n + 1"
  using assms unfolding ValidCommitteeSize_iff by (auto simp: quorum_values)

section \<open>Cached values\<close>

definition caches_ok :: "(bytes \<Rightarrow> bytes) \<Rightarrow> SSVShare \<Rightarrow> bool" where
  "caches_ok sha s \<longleftrightarrow>
     (\<forall>cid. sh_committeeID s = Some cid \<longrightarrow> cid = ComputeCommitteeID sha (OperatorIDs s)) \<and>
     (\<forall>k. sh_booleCommitteeSubnet s = Some k \<longrightarrow> k = BooleCommitteeSubnet sha (OperatorIDs s)) \<and>
     (\<forall>k. sh_alanCommitteeSubnet s = Some k \<longrightarrow>
        k = AlanCommitteeSubnet (ComputeCommitteeID sha (OperatorIDs s)))"

lemma CommitteeID_value:
  "caches_ok sha s \<Longrightarrow> fst (CommitteeID sha s) = ComputeCommitteeID sha (OperatorIDs s)"
  by (auto simp: CommitteeID_def caches_ok_def OperatorIDs_def Let_def split: option.splits)

lemma CommitteeID_caches: "caches_ok sha s \<Longrightarrow> caches_ok sha (snd (CommitteeID sha s))"
  by (auto simp: CommitteeID_def caches_ok_def OperatorIDs_def Let_def split: option.splits)

lemma CommitteeID_Committee [simp]: "sh_Committee (snd (CommitteeID sha s)) = sh_Committee s"
  by (simp add: CommitteeID_def Let_def split: option.splits)

lemma shareBooleSubnet_value:
  "caches_ok sha s \<Longrightarrow> fst (shareBooleSubnet sha s) = BooleCommitteeSubnet sha (OperatorIDs s)"
  by (auto simp: shareBooleSubnet_def caches_ok_def Let_def split: option.splits)

lemma shareBooleSubnet_caches: "caches_ok sha s \<Longrightarrow> caches_ok sha (snd (shareBooleSubnet sha s))"
  by (auto simp: shareBooleSubnet_def caches_ok_def OperatorIDs_def Let_def split: option.splits)

lemma shareAlanSubnet_value:
  "caches_ok sha s \<Longrightarrow>
     fst (shareAlanSubnet sha s) = AlanCommitteeSubnet (ComputeCommitteeID sha (OperatorIDs s))"
  using CommitteeID_value [of sha s]
  by (auto simp: shareAlanSubnet_def caches_ok_def case_prod_unfold Let_def split: option.splits)

lemma shareAlanSubnet_caches:
  assumes "caches_ok sha s"
  shows "caches_ok sha (snd (shareAlanSubnet sha s))"
  using CommitteeID_caches [OF assms] CommitteeID_value [OF assms] assms
  by (auto simp: shareAlanSubnet_def caches_ok_def case_prod_unfold Let_def OperatorIDs_def
           split: option.splits)

section \<open>Properties\<close>



text \<open>
  Identity of a committee. The identifier and both subnets of a share depend only on the
  operators of its committee, not on their order nor on what the share has cached; asking for
  them keeps the cached values right.
\<close>

theorem committee_identity:
  assumes "caches_ok sha s" "caches_ok sha s'" "mset (OperatorIDs s) = mset (OperatorIDs s')"
    and "sh_Committee s \<noteq> []"
  shows "fst (CommitteeID sha s) = fst (CommitteeID sha s') \<and>
         fst (shareAlanSubnet sha s) = fst (shareAlanSubnet sha s') \<and>
         fst (shareBooleSubnet sha s) = fst (shareBooleSubnet sha s') \<and>
         caches_ok sha (snd (CommitteeID sha s)) \<and> caches_ok sha (snd (shareAlanSubnet sha s)) \<and>
         caches_ok sha (snd (shareBooleSubnet sha s))"
proof -
  have "sort (OperatorIDs s) = sort (OperatorIDs s')"
    using assms(3) by (metis mset_sort properties_for_sort sorted_sort)
  then have cid: "ComputeCommitteeID sha (OperatorIDs s) = ComputeCommitteeID sha (OperatorIDs s')"
    by (simp add: ComputeCommitteeID_def)
  have "OperatorIDs s \<noteq> []" "OperatorIDs s' \<noteq> []"
    using assms(3,4) by (auto simp: OperatorIDs_def)
  then have "BooleCommitteeSubnet sha (OperatorIDs s) = BooleCommitteeSubnet sha (OperatorIDs s')"
    using mset_eq_setD [OF assms(3)] by (simp add: BooleCommitteeSubnet_Min)
  then show ?thesis
    using CommitteeID_caches [OF assms(1)] shareAlanSubnet_caches [OF assms(1)]
      shareBooleSubnet_caches [OF assms(1)]
    unfolding CommitteeID_value [OF assms(1)] CommitteeID_value [OF assms(2)]
      shareAlanSubnet_value [OF assms(1)] shareAlanSubnet_value [OF assms(2)]
      shareBooleSubnet_value [OF assms(1)] shareBooleSubnet_value [OF assms(2)] cid
    by blast
qed

definition demo_share :: "OperatorID list \<Rightarrow> SSVShare" where
  "demo_share ids =
     \<lparr>sh_ValidatorIndex = 7, sh_ValidatorPubKey = [1, 2, 3], sh_SharePubKey = [],
      sh_Committee = map (\<lambda>k. \<lparr>Signer = k, mem_SharePubKey = []\<rparr>) ids, sh_DomainType = [], sh_Graffiti = [],
      sh_Status = ValidatorStateActiveOngoing, sh_ActivationEpoch = 0, sh_ExitEpoch = FarFutureEpoch,
      sh_OwnerAddress = [9], sh_Liquidated = False, sh_BeaconMetadataLastUpdated = 0,
      sh_committeeID = None, sh_booleCommitteeSubnet = None, sh_alanCommitteeSubnet = None,
      sh_minParticipationEpoch = 0\<rparr>"

definition demo_stateAPI :: stateAPI where
  "demo_stateAPI =
     \<lparr>vs_IsPending = (\<lambda>s. s = ValidatorStatePendingInitialized \<or> s = ValidatorStatePendingQueued),
      vs_HasActivated = (\<lambda>s. s \<notin> {ValidatorStateUnknown, ValidatorStatePendingInitialized, ValidatorStatePendingQueued}),
      vs_IsActive = (\<lambda>s. s \<in> {ValidatorStateActiveOngoing, ValidatorStateActiveExiting, ValidatorStateActiveSlashed}),
      vs_IsAttesting = (\<lambda>s. s \<in> {ValidatorStateActiveOngoing, ValidatorStateActiveExiting}),
      vs_IsExited = (\<lambda>s. s \<in> {ValidatorStateExitedUnslashed, ValidatorStateExitedSlashed}),
      vs_HasExited = (\<lambda>s. s \<in> {ValidatorStateWithdrawalPossible, ValidatorStateWithdrawalDone})\<rparr>"

theorem committee_identity_witness:
  "fst (CommitteeID (\<lambda>b. b) (demo_share [3, 1, 2, 4])) = fst (CommitteeID (\<lambda>b. b) (demo_share [1, 2, 3, 4]))"
  using committee_identity [of "\<lambda>b. b" "demo_share [3, 1, 2, 4]" "demo_share [1, 2, 3, 4]"]
  by (simp add: caches_ok_def demo_share_def OperatorIDs_def)

text \<open>
  C38: Participation after an exit. A validator that is not attesting any more still takes part in
  duties, for its sync committee, from its exit epoch to the end of the sync committee period
  after the one it exited in, and only if it exited, is withdrawable or is being slashed; a
  liquidated validator never takes part.
\<close>

theorem participation_window:
  assumes "EpochsPerSyncCommitteePeriod b \<noteq> 0" "\<not> IsAttesting A s epoch"
  shows "IsParticipating A b s epoch = (Ok True :: ('e, bool) res) \<longleftrightarrow>
           \<not> sh_Liquidated s \<and>
           (vs_IsExited A (sh_Status s) \<or> sh_Status s = ValidatorStateWithdrawalPossible
              \<or> sh_Status s = ValidatorStateActiveSlashed) \<and>
           sh_ExitEpoch s \<le> epoch \<and>
           unat epoch < (unat (sh_ExitEpoch s) div unat (EpochsPerSyncCommitteePeriod b) + 2)
             * unat (EpochsPerSyncCommitteePeriod b)"
proof -
  let ?E = "EpochsPerSyncCommitteePeriod b" and ?x = "sh_ExitEpoch s"
  have E: "0 < unat ?E"
    using assms(1) by (simp add: unat_gt_0)
  have window: "epoch div ?E - ?x div ?E \<le> 1 \<longleftrightarrow> unat epoch < (unat ?x div unat ?E + 2) * unat ?E"
    if "?x \<le> epoch"
  proof -
    have le: "?x div ?E \<le> epoch div ?E"
      using that by (simp add: word_le_nat_alt unat_div div_le_mono)
    then have "epoch div ?E - ?x div ?E \<le> 1 \<longleftrightarrow> unat epoch div unat ?E - unat ?x div unat ?E \<le> 1"
      by (simp add: word_le_nat_alt unat_sub unat_div)
    also have "\<dots> \<longleftrightarrow> unat epoch div unat ?E < unat ?x div unat ?E + 2"
      using le by (auto simp: word_le_nat_alt unat_div)
    also have "\<dots> \<longleftrightarrow> unat epoch < (unat ?x div unat ?E + 2) * unat ?E"
      using E by (simp add: div_less_iff_less_mult)
    finally show ?thesis .
  qed
  then show ?thesis
    using assms
    by (auto simp: IsParticipating_def isSyncCommitteeEligible_def EstimatedSyncCommitteePeriodAtEpoch_def)
qed

theorem participation_window_witness:
  "IsParticipating demo_stateAPI demo_Beacon
     ((demo_share [1])\<lparr>sh_Status := ValidatorStateExitedUnslashed, sh_ExitEpoch := 300\<rparr>) 700 = (Ok True :: (unit, bool) res)"
  using participation_window [of demo_Beacon demo_stateAPI
     "(demo_share [1])\<lparr>sh_Status := ValidatorStateExitedUnslashed, sh_ExitEpoch := 300\<rparr>" 700, where 'e = unit]
  by (simp add: demo_share_def demo_stateAPI_def demo_Beacon_def IsAttesting_def HasBeaconMetadata_def)

end
