(* ===== verification/Validator_Store.thy ===== *)
theory Validator_Store
  imports Share "HOL-Library.AList"
begin

text \<open>
  The registry of validator shares: the indices of \<open>registry/storage/validatorstore.go\<close> (shares by
  validator index, committees by identifier, shares and committees by operator), which
  \<open>registry/storage/shares.go\<close> keeps in step with the shares.

  A Go map is an association list with distinct keys, whose order is one of the iteration orders. A
  share is held by pointer in every index and the pointer of a validator is the same everywhere.
  Methods that lock the store are single steps.
\<close>

section \<open>Committees\<close>

record Committee =
  c_ID :: bytes
  c_Operators :: "OperatorID list"
  c_Shares :: "SSVShare list"
  c_Indices :: "u64 list"
  c_booleCommitteeSubnet :: "u64 option"
  c_alanCommitteeSubnet :: "u64 option"

definition committeeBooleSubnet :: "(bytes \<Rightarrow> bytes) \<Rightarrow> Committee \<Rightarrow> u64 \<times> Committee" where
  "committeeBooleSubnet sha c =
     (case c_booleCommitteeSubnet c of
        Some subnet \<Rightarrow> (subnet, c)
      | None \<Rightarrow> let subnet = BooleCommitteeSubnet sha (c_Operators c)
                in (subnet, c\<lparr>c_booleCommitteeSubnet := Some subnet\<rparr>))"

definition committeeAlanSubnet :: "Committee \<Rightarrow> u64 \<times> Committee" where
  "committeeAlanSubnet c =
     (case c_alanCommitteeSubnet c of
        Some subnet \<Rightarrow> (subnet, c)
      | None \<Rightarrow> let subnet = AlanCommitteeSubnet (c_ID c)
                in (subnet, c\<lparr>c_alanCommitteeSubnet := Some subnet\<rparr>))"

fun any_participating :: "stateAPI \<Rightarrow> Beacon \<Rightarrow> u64 \<Rightarrow> SSVShare list \<Rightarrow> ('e, bool) res" where
  "any_participating A b epoch [] = Ok False"
| "any_participating A b epoch (s # ss) =
     bind_res (IsParticipating A b s epoch) (\<lambda>yes. if yes then Ok True else any_participating A b epoch ss)"

definition committeeIsParticipating :: "stateAPI \<Rightarrow> Beacon \<Rightarrow> Committee \<Rightarrow> u64 \<Rightarrow> ('e, bool) res" where
  "committeeIsParticipating A b c epoch = any_participating A b epoch (c_Shares c)"

abbreviation cid :: "(bytes \<Rightarrow> bytes) \<Rightarrow> SSVShare \<Rightarrow> bytes" where
  "cid sha s \<equiv> fst (CommitteeID sha s)"

text \<open>Indexing the first share panics on an empty slice.\<close>

definition buildCommittee :: "(bytes \<Rightarrow> bytes) \<Rightarrow> SSVShare list \<Rightarrow> ('e, Committee) res" where
  "buildCommittee sha shares =
     (case shares of
        [] \<Rightarrow> Panic
      | s0 # _ \<Rightarrow>
          Ok \<lparr>c_ID = cid sha s0, c_Operators = sort (map Signer (sh_Committee s0)), c_Shares = shares,
              c_Indices = map sh_ValidatorIndex shares,
              c_booleCommitteeSubnet = None, c_alanCommitteeSubnet = None\<rparr>)"

section \<open>The indices\<close>

record sharesAndCommittees =
  sc_shares :: "SSVShare list"
  sc_committees :: "Committee list"

record validatorStore =
  vs_operatorID :: "OperatorID option"
  byValidatorIndex :: "(u64 \<times> SSVShare) list"
  byCommitteeID :: "(bytes \<times> Committee) list"
  byOperatorID :: "(OperatorID \<times> sharesAndCommittees) list"
  pubkeyToIndex :: "(bytes \<times> u64) list"
  indexToPubkey :: "(u64 \<times> bytes) list"

datatype store_err =
    NilShare | ShareInCommittee | DuplicateOperator | ShareInOperator | CommitteeNotFound
  | OperatorNotFound | ShareNotInOperator | ShareNotInCommittee | IndexMismatch
  | RemoveFromCommittee store_err | UpdateInCommittee store_err
  | HandleUpdated store_err | HandleAdded store_err | DBError string
  | ValidatorNotFound | NilShareForIndex | NoFeeRecipient string

definition newValidatorStore :: "(bytes \<times> u64) list \<Rightarrow> validatorStore" where
  "newValidatorStore pki =
     \<lparr>vs_operatorID = None, byValidatorIndex = [], byCommitteeID = [], byOperatorID = [],
      pubkeyToIndex = pki, indexToPubkey = fold (\<lambda>(pk, idx) m. AList.update idx pk m) pki []\<rparr>"

definition ValidatorIndex :: "validatorStore \<Rightarrow> bytes \<Rightarrow> u64 option" where
  "ValidatorIndex c pubkey = map_of (pubkeyToIndex c) pubkey"

definition ValidatorPubkey :: "validatorStore \<Rightarrow> u64 \<Rightarrow> bytes option" where
  "ValidatorPubkey c index = map_of (indexToPubkey c) index"

definition ValidatorByIndex :: "validatorStore \<Rightarrow> u64 \<Rightarrow> SSVShare option" where
  "ValidatorByIndex c index = map_of (byValidatorIndex c) index"

fun filter_res :: "('a \<Rightarrow> ('e, bool) res) \<Rightarrow> 'a list \<Rightarrow> ('e, 'a list) res" where
  "filter_res f [] = Ok []"
| "filter_res f (x # xs) =
     bind_res (f x) (\<lambda>yes. bind_res (filter_res f xs) (\<lambda>ys. Ok (if yes then x # ys else ys)))"

definition ParticipatingValidators ::
    "stateAPI \<Rightarrow> Beacon \<Rightarrow> SSVShare list \<Rightarrow> u64 \<Rightarrow> ('e, SSVShare list) res" where
  "ParticipatingValidators A b shares epoch = filter_res (\<lambda>s. IsParticipating A b s epoch) shares"

definition OperatorValidators :: "validatorStore \<Rightarrow> OperatorID \<Rightarrow> SSVShare list" where
  "OperatorValidators c op = (case map_of (byOperatorID c) op of Some d \<Rightarrow> sc_shares d | None \<Rightarrow> [])"

definition CommitteeByID :: "validatorStore \<Rightarrow> bytes \<Rightarrow> Committee option" where
  "CommitteeByID c k = map_of (byCommitteeID c) k"

definition Committees :: "validatorStore \<Rightarrow> Committee list" where
  "Committees c = map snd (byCommitteeID c)"

definition ParticipatingCommittees ::
    "stateAPI \<Rightarrow> Beacon \<Rightarrow> validatorStore \<Rightarrow> u64 \<Rightarrow> ('e, Committee list) res" where
  "ParticipatingCommittees A b c epoch =
     filter_res (\<lambda>cm. committeeIsParticipating A b cm epoch) (map snd (byCommitteeID c))"

definition OperatorCommittees :: "validatorStore \<Rightarrow> OperatorID \<Rightarrow> Committee list" where
  "OperatorCommittees c op = (case map_of (byOperatorID c) op of Some d \<Rightarrow> sc_committees d | None \<Rightarrow> [])"

definition WithOperatorID :: "validatorStore \<Rightarrow> OperatorID \<Rightarrow> validatorStore" where
  "WithOperatorID c op = c\<lparr>vs_operatorID := Some op\<rparr>"

definition SelfValidators :: "validatorStore \<Rightarrow> SSVShare list" where
  "SelfValidators c = (case vs_operatorID c of None \<Rightarrow> [] | Some op \<Rightarrow> OperatorValidators c op)"

definition SelfParticipatingValidators ::
    "stateAPI \<Rightarrow> Beacon \<Rightarrow> validatorStore \<Rightarrow> u64 \<Rightarrow> ('e, SSVShare list) res" where
  "SelfParticipatingValidators A b c epoch =
     (case vs_operatorID c of
        None \<Rightarrow> Ok []
      | Some op \<Rightarrow> filter_res (\<lambda>s. IsParticipating A b s epoch) (OperatorValidators c op))"

definition SelfCommittees :: "validatorStore \<Rightarrow> Committee list" where
  "SelfCommittees c = (case vs_operatorID c of None \<Rightarrow> [] | Some op \<Rightarrow> OperatorCommittees c op)"

definition SelfParticipatingCommittees ::
    "stateAPI \<Rightarrow> Beacon \<Rightarrow> validatorStore \<Rightarrow> u64 \<Rightarrow> ('e, Committee list) res" where
  "SelfParticipatingCommittees A b c epoch =
     (case vs_operatorID c of
        None \<Rightarrow> Ok []
      | Some op \<Rightarrow> filter_res (\<lambda>cm. committeeIsParticipating A b cm epoch) (OperatorCommittees c op))"

definition GetFeeRecipient ::
    "(bytes \<Rightarrow> string + bytes) \<Rightarrow> validatorStore \<Rightarrow> bytes \<Rightarrow> (store_err, bytes) res" where
  "GetFeeRecipient feeRecipientByOwner c validatorPK =
     (case map_of (pubkeyToIndex c) validatorPK of
        None \<Rightarrow> Err ValidatorNotFound
      | Some validatorIndex \<Rightarrow>
          (case map_of (byValidatorIndex c) validatorIndex of
             None \<Rightarrow> Err NilShareForIndex
           | Some share \<Rightarrow> of_sum NoFeeRecipient (feeRecipientByOwner (sh_OwnerAddress share))))"

section \<open>Changing the indices\<close>

abbreviation pk :: "SSVShare \<Rightarrow> bytes" where
  "pk \<equiv> sh_ValidatorPubKey"

definition containsShare :: "SSVShare list \<Rightarrow> SSVShare \<Rightarrow> bool" where
  "containsShare shares share \<longleftrightarrow> (\<exists>existing \<in> set shares. pk existing = pk share)"

text \<open>Updating the three maps that are keyed by the validator index.\<close>

definition indexShare :: "validatorStore \<Rightarrow> SSVShare \<Rightarrow> validatorStore" where
  "indexShare c share =
     (if HasBeaconMetadata (Some share)
      then c\<lparr>byValidatorIndex := AList.update (sh_ValidatorIndex share) share (byValidatorIndex c),
             pubkeyToIndex := AList.update (pk share) (sh_ValidatorIndex share) (pubkeyToIndex c),
             indexToPubkey := AList.update (sh_ValidatorIndex share) (pk share) (indexToPubkey c)\<rparr>
      else c)"

text \<open>The first committee of a list with the given identifier is replaced.\<close>

fun replaceCommittee :: "bytes \<Rightarrow> Committee \<Rightarrow> Committee list \<Rightarrow> Committee list" where
  "replaceCommittee k cm [] = []"
| "replaceCommittee k cm (c # cs) = (if c_ID c = k then cm # cs else c # replaceCommittee k cm cs)"

definition upsertCommittee :: "Committee \<Rightarrow> Committee list \<Rightarrow> Committee list" where
  "upsertCommittee cm cs =
     (if \<exists>c \<in> set cs. c_ID c = c_ID cm then replaceCommittee (c_ID cm) cm cs else cs @ [cm])"

fun addToOperators ::
    "Committee \<Rightarrow> SSVShare \<Rightarrow> OperatorID set \<Rightarrow> ShareMember list \<Rightarrow> validatorStore
       \<Rightarrow> (store_err, unit) res \<times> validatorStore" where
  "addToOperators cm share seen [] c = (Ok (), c)"
| "addToOperators cm share seen (operator # ops) c =
     (if Signer operator \<in> seen then (Err DuplicateOperator, c)
      else let data = (case map_of (byOperatorID c) (Signer operator) of
                         Some d \<Rightarrow> d | None \<Rightarrow> \<lparr>sc_shares = [], sc_committees = []\<rparr>)
           in if containsShare (sc_shares data) share then (Err ShareInOperator, c)
              else addToOperators cm share (insert (Signer operator) seen) ops
                     (c\<lparr>byOperatorID := AList.update (Signer operator)
                         \<lparr>sc_shares = sc_shares data @ [share],
                          sc_committees = upsertCommittee cm (sc_committees data)\<rparr> (byOperatorID c)\<rparr>))"

definition addShare ::
    "(bytes \<Rightarrow> bytes) \<Rightarrow> SSVShare option \<Rightarrow> validatorStore \<Rightarrow> (store_err, unit) res \<times> validatorStore" where
  "addShare sha mshare c =
     (case mshare of
        None \<Rightarrow> (Err NilShare, c)
      | Some share \<Rightarrow>
          let c = indexShare c share
          in bind_st
               (case map_of (byCommitteeID c) (cid sha share) of
                  Some committee \<Rightarrow>
                    if containsShare (c_Shares committee) share then (Err ShareInCommittee, c)
                    else (buildCommittee sha (c_Shares committee @ [share]), c)
                | None \<Rightarrow> (buildCommittee sha [share], c))
               (\<lambda>committee c.
                  addToOperators committee share {} (sh_Committee share)
                    (c\<lparr>byCommitteeID := AList.update (c_ID committee) committee (byCommitteeID c)\<rparr>)))"

fun handleSharesAdded ::
    "(bytes \<Rightarrow> bytes) \<Rightarrow> SSVShare option list \<Rightarrow> validatorStore \<Rightarrow> (store_err, unit) res \<times> validatorStore" where
  "handleSharesAdded sha [] c = (Ok (), c)"
| "handleSharesAdded sha (share # shares) c =
     bind_st (addShare sha share c) (\<lambda>_. handleSharesAdded sha shares)"

text \<open>The loop over a committee's shares and its positionally aligned indices.\<close>

fun withoutShare :: "SSVShare \<Rightarrow> SSVShare list \<Rightarrow> u64 list \<Rightarrow> (store_err, bool \<times> SSVShare list) res" where
  "withoutShare rm [] idxs = Ok (False, [])"
| "withoutShare rm (share # shares) idxs =
     (if pk share = pk rm
      then (case idxs of
              [] \<Rightarrow> Panic
            | idx # idxs' \<Rightarrow>
                if sh_ValidatorIndex share \<noteq> idx then Err IndexMismatch
                else bind_res (withoutShare rm shares idxs') (\<lambda>(_, rest). Ok (True, rest)))
      else bind_res (withoutShare rm shares (tl idxs)) (\<lambda>(removed, rest). Ok (removed, share # rest)))"

definition removeShareFromCommittee ::
    "(bytes \<Rightarrow> bytes) \<Rightarrow> Committee \<Rightarrow> SSVShare \<Rightarrow> (store_err, Committee) res" where
  "removeShareFromCommittee sha committee rm =
     bind_res (withoutShare rm (c_Shares committee) (c_Indices committee)) (\<lambda>(removed, shares).
       if \<not> removed then Err ShareNotInCommittee
       else if shares = []
       then Ok \<lparr>c_ID = c_ID committee, c_Operators = [], c_Shares = [], c_Indices = [],
                c_booleCommitteeSubnet = None, c_alanCommitteeSubnet = None\<rparr>
       else buildCommittee sha shares)"

fun removeFirstShare :: "SSVShare \<Rightarrow> SSVShare list \<Rightarrow> SSVShare list option" where
  "removeFirstShare rm [] = None"
| "removeFirstShare rm (s # ss) =
     (if pk s = pk rm then Some ss else map_option ((#) s) (removeFirstShare rm ss))"

fun removeFirstCommittee :: "bytes \<Rightarrow> Committee list \<Rightarrow> Committee list" where
  "removeFirstCommittee k [] = []"
| "removeFirstCommittee k (c # cs) = (if c_ID c = k then cs else c # removeFirstCommittee k cs)"

fun removeFromOperators ::
    "bytes \<Rightarrow> Committee \<Rightarrow> SSVShare \<Rightarrow> ShareMember list \<Rightarrow> validatorStore
       \<Rightarrow> (store_err, unit) res \<times> validatorStore" where
  "removeFromOperators k newCommittee share [] c = (Ok (), c)"
| "removeFromOperators k newCommittee share (operator # ops) c =
     (case map_of (byOperatorID c) (Signer operator) of
        None \<Rightarrow> (Err OperatorNotFound, c)
      | Some data \<Rightarrow>
          (case removeFirstShare share (sc_shares data) of
             None \<Rightarrow> (Err ShareNotInOperator, c)
           | Some shares \<Rightarrow>
               let committees = (if c_Shares newCommittee = []
                                 then removeFirstCommittee k (sc_committees data)
                                 else replaceCommittee k newCommittee (sc_committees data))
               in removeFromOperators k newCommittee share ops
                    (c\<lparr>byOperatorID :=
                        (if shares = [] then AList.delete (Signer operator) (byOperatorID c)
                         else AList.update (Signer operator)
                                \<lparr>sc_shares = shares, sc_committees = committees\<rparr> (byOperatorID c))\<rparr>)))"

definition handleShareRemoved ::
    "(bytes \<Rightarrow> bytes) \<Rightarrow> SSVShare option \<Rightarrow> validatorStore \<Rightarrow> (store_err, unit) res \<times> validatorStore" where
  "handleShareRemoved sha mshare c =
     (case mshare of
        None \<Rightarrow> (Err NilShare, c)
      | Some share \<Rightarrow>
          let c = (if HasBeaconMetadata (Some share)
                   then c\<lparr>byValidatorIndex := AList.delete (sh_ValidatorIndex share) (byValidatorIndex c)\<rparr>
                   else c);
              k = cid sha share
          in case map_of (byCommitteeID c) k of
               None \<Rightarrow> (Err CommitteeNotFound, c)
             | Some committee \<Rightarrow>
                 bind_st (map_err RemoveFromCommittee (removeShareFromCommittee sha committee share), c)
                   (\<lambda>newCommittee c.
                      removeFromOperators k newCommittee share (sh_Committee share)
                        (c\<lparr>byCommitteeID :=
                            (if c_Shares newCommittee = []
                             then AList.delete (c_ID newCommittee) (byCommitteeID c)
                             else AList.update (c_ID newCommittee) newCommittee (byCommitteeID c))\<rparr>)))"

definition updateCommitteeWithShare ::
    "(bytes \<Rightarrow> bytes) \<Rightarrow> Committee \<Rightarrow> SSVShare \<Rightarrow> (store_err, Committee) res" where
  "updateCommitteeWithShare sha committee share =
     (if \<not> containsShare (c_Shares committee) share then Err ShareNotInCommittee
      else buildCommittee sha (map (\<lambda>s. if pk s = pk share then share else s) (c_Shares committee)))"

fun replaceFirstShare :: "SSVShare \<Rightarrow> SSVShare list \<Rightarrow> SSVShare list" where
  "replaceFirstShare share [] = []"
| "replaceFirstShare share (s # ss) = (if pk s = pk share then share # ss else s # replaceFirstShare share ss)"

fun updateInOperators ::
    "bytes \<Rightarrow> Committee \<Rightarrow> SSVShare \<Rightarrow> ShareMember list \<Rightarrow> validatorStore
       \<Rightarrow> (store_err, unit) res \<times> validatorStore" where
  "updateInOperators k newCommittee share [] c = (Ok (), c)"
| "updateInOperators k newCommittee share (m # ms) c =
     (case map_of (byOperatorID c) (Signer m) of
        None \<Rightarrow> (Err OperatorNotFound, c)
      | Some data \<Rightarrow>
          if \<not> containsShare (sc_shares data) share then (Err ShareNotInOperator, c)
          else updateInOperators k newCommittee share ms
                 (c\<lparr>byOperatorID := AList.update (Signer m)
                     \<lparr>sc_shares = replaceFirstShare share (sc_shares data),
                      sc_committees = replaceCommittee k newCommittee (sc_committees data)\<rparr> (byOperatorID c)\<rparr>))"

definition updateShare ::
    "(bytes \<Rightarrow> bytes) \<Rightarrow> SSVShare option \<Rightarrow> validatorStore \<Rightarrow> (store_err, unit) res \<times> validatorStore" where
  "updateShare sha mshare c =
     (case mshare of
        None \<Rightarrow> (Err NilShare, c)
      | Some share \<Rightarrow>
          let c = indexShare c share; k = cid sha share
          in case map_of (byCommitteeID c) k of
               None \<Rightarrow> (Err CommitteeNotFound, c)
             | Some committee \<Rightarrow>
                 bind_st (map_err UpdateInCommittee (updateCommitteeWithShare sha committee share), c)
                   (\<lambda>newCommittee c.
                      updateInOperators k newCommittee share (sh_Committee share)
                        (c\<lparr>byCommitteeID := AList.update k newCommittee (byCommitteeID c)\<rparr>)))"

fun handleSharesUpdated ::
    "(bytes \<Rightarrow> bytes) \<Rightarrow> SSVShare option list \<Rightarrow> validatorStore \<Rightarrow> (store_err, unit) res \<times> validatorStore" where
  "handleSharesUpdated sha [] c = (Ok (), c)"
| "handleSharesUpdated sha (share # shares) c =
     bind_st (updateShare sha share c) (\<lambda>_. handleSharesUpdated sha shares)"

definition handleDrop :: "validatorStore \<Rightarrow> validatorStore" where
  "handleDrop c = c\<lparr>byValidatorIndex := [], byCommitteeID := [], byOperatorID := []\<rparr>"

end
