(* ===== verification/Messages.thy ===== *)
theory Messages
  imports Qbft_Proposer
begin

text \<open>
  Messages as they travel between the network and the duty runners: partial signatures, the events
  of \<open>protocol/v2/types/messages.go\<close>, and the decoded messages of \<open>protocol/v2/ssv/queue/messages.go\<close>.
  The codecs of the specification package and of the JSON library are fields of the argument \<open>P\<close>.
\<close>

section \<open>Errors\<close>

text \<open>
  Go errors: \<open>Error\<close> of the validation package with its text, reject flag and inner error; the context
  sentinels; \<open>fmt.Errorf\<close> without and with a wrapped error. The details \<open>got\<close> and \<open>want\<close> of an
  \<open>Error\<close>, which only appear in logs, are left out.
\<close>

datatype go_err =
    VErr string bool "go_err option"
  | DeadlineExceeded
  | Canceled
  | PlainErr string
  | WrapErr string go_err

section \<open>Partial signatures\<close>

datatype PartialSigMsgType =
    PostConsensusPartialSig | RandaoPartialSig | SelectionProofPartialSig | ContributionProofs
  | ValidatorRegistrationPartialSig | VoluntaryExitPartialSig | AggregatorCommitteePartialSig
  | PTCAttesterPartialSig | ProposerPreferencesPartialSig | RequestAuthPartialSig
  | OtherPartialSig u64

record PartialSignatureMessage =
  psm_PartialSignature :: bytes
  psm_SigningRoot :: root
  psm_Signer :: OperatorID
  psm_ValidatorIndex :: u64

record PartialSignatureMessages =
  ps_Type :: PartialSigMsgType
  ps_Slot :: u64
  ps_Messages :: "PartialSignatureMessage list"

section \<open>Events\<close>

datatype EventType = Timeout | ExecuteDuty | OtherEventType int

record EventMsg =
  ev_Type :: EventType
  ev_Data :: bytes

record TimeoutData =
  td_Slot :: u64
  td_Round :: Round

text \<open>The slot of the duty of an \<open>ExecuteDuty\<close> event is all that is read of it here.\<close>

record ExecuteDutyData =
  ed_DutySlot :: "u64 option"

section \<open>What is used of the codecs\<close>

text \<open>
  A signed message as it is decoded; the inner message may be absent. A \<open>RunnerRole\<close> that no
  constant of the source names is \<open>RoleUnknown\<close>.
\<close>

record SignedMsg =
  w_Signatures :: "bytes list"
  w_OperatorIDs :: "OperatorID list"
  w_SSVMessage :: "SSVMessage option"
  w_FullData :: bytes

record specmsg =
  GetDomain :: "bytes \<Rightarrow> bytes"
  GetRoleType :: "bytes \<Rightarrow> RunnerRole"
  GetDutyExecutorID :: "bytes \<Rightarrow> bytes"
  DecodeSigned :: "bytes \<Rightarrow> go_err + SignedMsg"
  DecodeMessage :: "bytes \<Rightarrow> go_err + Message"
  DecodePartialSigs :: "bytes \<Rightarrow> go_err + PartialSignatureMessages"
  DecodeEvent :: "bytes \<Rightarrow> go_err + EventMsg"
  DecodeTimeoutData :: "bytes \<Rightarrow> go_err + TimeoutData"
  DecodeExecuteDutyData :: "bytes \<Rightarrow> go_err + ExecuteDutyData"
  PrepareJustificationsOf :: "Message \<Rightarrow> go_err + SignedSSVMessage list"
  RoundChangeJustificationsOf :: "Message \<Rightarrow> go_err + SignedSSVMessage list"
  SpecHashDataRoot :: "bytes \<Rightarrow> go_err + root"

section \<open>Decoded messages\<close>

definition SSVEventMsgType :: MsgType where
  "SSVEventMsgType = OtherSSVMsgType 200"

datatype Body = ConsensusBody Message | PartialBody PartialSignatureMessages | EventBody EventMsg

record DecodedMsg =
  dm_Signed :: "SignedMsg option"
  dm_SSVMessage :: "SSVMessage option"
  dm_Body :: "Body option"

definition GetTimeoutData :: "specmsg \<Rightarrow> EventMsg \<Rightarrow> (go_err, TimeoutData) res" where
  "GetTimeoutData P m = of_sum (\<lambda>e. e) (DecodeTimeoutData P (ev_Data m))"

definition GetExecuteDutyData :: "specmsg \<Rightarrow> EventMsg \<Rightarrow> (go_err, ExecuteDutyData) res" where
  "GetExecuteDutyData P m = of_sum (\<lambda>e. e) (DecodeExecuteDutyData P (ev_Data m))"

definition SlotOf :: "specmsg \<Rightarrow> DecodedMsg \<Rightarrow> (go_err, u64) res" where
  "SlotOf P d =
     (case dm_Body d of
        None \<Rightarrow> Err (PlainErr ''nil SSVMessage body'')
      | Some (ConsensusBody m) \<Rightarrow> Ok (m_Height m)
      | Some (PartialBody m) \<Rightarrow> Ok (ps_Slot m)
      | Some (EventBody m) \<Rightarrow>
          (case ev_Type m of
             Timeout \<Rightarrow>
               bind_res (map_err (WrapErr ''get Timeout data'') (GetTimeoutData P m)) (\<lambda>data. Ok (td_Slot data))
           | ExecuteDuty \<Rightarrow>
               bind_res (map_err (WrapErr ''get ExecuteDuty data'') (GetExecuteDutyData P m)) (\<lambda>data.
                 case ed_DutySlot data of
                   None \<Rightarrow> Err (PlainErr ''nil duty data in EventMsg'')
                 | Some slot \<Rightarrow> Ok slot)
           | OtherEventType _ \<Rightarrow> Err (PlainErr ''unknown event type'')))"

definition ExtractMsgBody :: "specmsg \<Rightarrow> SSVMessage \<Rightarrow> (go_err, Body) res" where
  "ExtractMsgBody P m =
     (if ssv_MsgType m = SSVConsensusMsgType
      then bind_res (of_sum (WrapErr ''failed to decode SignedMessage'') (DecodeMessage P (ssv_Data m)))
             (\<lambda>sm. Ok (ConsensusBody sm))
      else if ssv_MsgType m = SSVPartialSignatureMsgType
      then bind_res (of_sum (WrapErr ''failed to decode SignedPartialSignatureMessage'')
                       (DecodePartialSigs P (ssv_Data m))) (\<lambda>sm. Ok (PartialBody sm))
      else if ssv_MsgType m = SSVEventMsgType
      then bind_res (of_sum (WrapErr ''failed to decode EventMsg'') (DecodeEvent P (ssv_Data m)))
             (\<lambda>msg. Ok (EventBody msg))
      else Err (PlainErr ''unknown message type''))"

text \<open>Reading the type of a nil message panics.\<close>

definition DecodeSSVMessage :: "specmsg \<Rightarrow> SSVMessage option \<Rightarrow> (go_err, DecodedMsg) res" where
  "DecodeSSVMessage P mm =
     bind_res (deref mm) (\<lambda>m.
     bind_res (ExtractMsgBody P m) (\<lambda>body.
       Ok \<lparr>dm_Signed = None, dm_SSVMessage = Some m, dm_Body = Some body\<rparr>))"

definition DecodeSignedSSVMessage :: "specmsg \<Rightarrow> SignedMsg \<Rightarrow> (go_err, DecodedMsg) res" where
  "DecodeSignedSSVMessage P sm =
     bind_res (DecodeSSVMessage P (w_SSVMessage sm)) (\<lambda>d. Ok (d\<lparr>dm_Signed := Some sm\<rparr>))"

end
