(* ===== verification/Validation_Errors.thy ===== *)
theory Validation_Errors
  imports Messages
begin

text \<open>
  The sentinel errors of message validation, \<open>message/validation/errors.go\<close>: each has a text and says
  whether the peer that sent the message is to be penalised (a rejection) or not (an ignored message).
\<close>

datatype ignored_error =
    NWrongDomain
  | NNoShareMetadata
  | NUnknownValidator
  | NValidatorLiquidated
  | NValidatorNotAttesting
  | NEarlySlotMessage
  | NLateSlotMessage
  | NSlotAlreadyAdvanced
  | NRoundAlreadyAdvanced
  | NPubSubDataTooBig
  | NIncorrectTopic
  | NNonExistentCommitteeID
  | NRoundTooHigh
  | NValidatorIndexMismatch
  | NTooManyDutiesPerEpoch
  | NNoDuty
  | NEstimatedRoundNotInAllowedSpread
  | NUnknownOperator
  | NOperatorValidation
  | NDuplicatedMessage
  | NTooManyPartialSigMessage
  | NDifferentProposalData
  | NDecidedMessageWithTooFewSigners
  | NValidatorRegistrationRetired

primrec ignoredError :: "ignored_error \<Rightarrow> go_err" where
  "ignoredError NWrongDomain = VErr ''wrong domain'' False None"
| "ignoredError NNoShareMetadata = VErr ''share has no metadata'' False None"
| "ignoredError NUnknownValidator = VErr ''unknown validator'' False None"
| "ignoredError NValidatorLiquidated = VErr ''validator is liquidated'' False None"
| "ignoredError NValidatorNotAttesting = VErr ''validator is not attesting'' False None"
| "ignoredError NEarlySlotMessage = VErr ''message was sent before slot starts'' False None"
| "ignoredError NLateSlotMessage = VErr ''current time is above duty's start +34(committee, aggregator, and aggregator committee) or +3(proposer, sync committee contribution) slots'' False None"
| "ignoredError NSlotAlreadyAdvanced = VErr ''signer has already advanced to a later slot'' False None"
| "ignoredError NRoundAlreadyAdvanced = VErr ''signer has already advanced to a later round'' False None"
| "ignoredError NPubSubDataTooBig = VErr ''pub-sub message data too big'' False None"
| "ignoredError NIncorrectTopic = VErr ''incorrect topic'' False None"
| "ignoredError NNonExistentCommitteeID = VErr ''committee ID doesn't exist'' False None"
| "ignoredError NRoundTooHigh = VErr ''round is too high for this role'' False None"
| "ignoredError NValidatorIndexMismatch = VErr ''partial signature validator index not found'' False None"
| "ignoredError NTooManyDutiesPerEpoch = VErr ''too many duties per epoch'' False None"
| "ignoredError NNoDuty = VErr ''no duty for this epoch'' False None"
| "ignoredError NEstimatedRoundNotInAllowedSpread = VErr ''message round is too far from estimated'' False None"
| "ignoredError NUnknownOperator = VErr ''operator is unknown'' False None"
| "ignoredError NOperatorValidation = VErr ''failed to validate operator data'' False None"
| "ignoredError NDuplicatedMessage = VErr ''got duplicate message'' False None"
| "ignoredError NTooManyPartialSigMessage = VErr ''got more partial signature messages of a certain type than allowed'' False None"
| "ignoredError NDifferentProposalData = VErr ''got different proposal data'' False None"
| "ignoredError NDecidedMessageWithTooFewSigners = VErr ''got decided message with too few signers (same number or less)'' False None"
| "ignoredError NValidatorRegistrationRetired = VErr ''validator registrations ended with the Gloas fork'' False None"

datatype rejected_error =
    NEmptyData
  | NMismatchedIdentifier
  | NSignatureVerification
  | NPubSubMessageHasNoData
  | NMalformedPubSubMessage
  | NNilSignedSSVMessage
  | NNilSSVMessage
  | NSSVDataTooBig
  | NInvalidRole
  | NUnexpectedConsensusMessage
  | NNoSigners
  | NWrongRSASignatureSize
  | NZeroSigner
  | NSignerNotInCommittee
  | NDuplicatedSigner
  | NSignerNotLeader
  | NSignersNotSorted
  | NInconsistentSigners
  | NInconsistentValidatorIndex
  | NInvalidHash
  | NFullDataHash
  | NUndecodableMessageData
  | NEventMessage
  | NUnknownSSVMessageType
  | NUnknownQBFTMessageType
  | NInvalidPartialSignatureType
  | NPartialSignatureTypeRoleMismatch
  | NNonDecidedWithMultipleSigners
  | NDecidedNotEnoughSigners
  | NMalformedPrepareJustifications
  | NUnexpectedPrepareJustifications
  | NMalformedRoundChangeJustifications
  | NUnexpectedRoundChangeJustifications
  | NNoMessagesInPartialSigMessage
  | NNoValidators
  | NNoSignatures
  | NTooManySignaturesInPartialSigMessage
  | NSignersAndSignaturesWithDifferentLength
  | NPartialSigMessageMustHaveOneSigner
  | NPrepareOrCommitWithFullData
  | NFullDataNotInConsensusMessage
  | NTooManyEqualValidatorIndicesInPartialSignatures
  | NZeroRound

primrec rejectedError :: "rejected_error \<Rightarrow> go_err" where
  "rejectedError NEmptyData = VErr ''empty data'' True None"
| "rejectedError NMismatchedIdentifier = VErr ''identifier mismatch'' True None"
| "rejectedError NSignatureVerification = VErr ''signature verification'' True None"
| "rejectedError NPubSubMessageHasNoData = VErr ''pub-sub message has no data'' True None"
| "rejectedError NMalformedPubSubMessage = VErr ''pub-sub message is malformed'' True None"
| "rejectedError NNilSignedSSVMessage = VErr ''signed ssv message is nil'' True None"
| "rejectedError NNilSSVMessage = VErr ''ssv message is nil'' True None"
| "rejectedError NSSVDataTooBig = VErr ''ssv message data too big'' True None"
| "rejectedError NInvalidRole = VErr ''invalid role'' True None"
| "rejectedError NUnexpectedConsensusMessage = VErr ''unexpected consensus message for this role'' True None"
| "rejectedError NNoSigners = VErr ''no signers'' True None"
| "rejectedError NWrongRSASignatureSize = VErr ''wrong RSA signature size'' True None"
| "rejectedError NZeroSigner = VErr ''zero signer ID'' True None"
| "rejectedError NSignerNotInCommittee = VErr ''signer is not in committee'' True None"
| "rejectedError NDuplicatedSigner = VErr ''signer is duplicated'' True None"
| "rejectedError NSignerNotLeader = VErr ''signer is not leader'' True None"
| "rejectedError NSignersNotSorted = VErr ''signers are not sorted'' True None"
| "rejectedError NInconsistentSigners = VErr ''signer is not expected'' True None"
| "rejectedError NInconsistentValidatorIndex = VErr ''validator index differs across partial signatures'' True None"
| "rejectedError NInvalidHash = VErr ''root doesn't match full data hash'' True None"
| "rejectedError NFullDataHash = VErr ''couldn't hash root'' True None"
| "rejectedError NUndecodableMessageData = VErr ''message data could not be decoded'' True None"
| "rejectedError NEventMessage = VErr ''unexpected event message'' True None"
| "rejectedError NUnknownSSVMessageType = VErr ''unknown SSV message type'' True None"
| "rejectedError NUnknownQBFTMessageType = VErr ''unknown QBFT message type'' True None"
| "rejectedError NInvalidPartialSignatureType = VErr ''unknown partial signature message type'' True None"
| "rejectedError NPartialSignatureTypeRoleMismatch = VErr ''partial signature type and role don't match'' True None"
| "rejectedError NNonDecidedWithMultipleSigners = VErr ''non-decided with multiple signers'' True None"
| "rejectedError NDecidedNotEnoughSigners = VErr ''not enough signers in decided message'' True None"
| "rejectedError NMalformedPrepareJustifications = VErr ''malformed prepare justifications'' True None"
| "rejectedError NUnexpectedPrepareJustifications = VErr ''prepare justifications unexpected for this message type'' True None"
| "rejectedError NMalformedRoundChangeJustifications = VErr ''malformed round change justifications'' True None"
| "rejectedError NUnexpectedRoundChangeJustifications = VErr ''round change justifications unexpected for this message type'' True None"
| "rejectedError NNoMessagesInPartialSigMessage = VErr ''no messages in partial signature messages'' True None"
| "rejectedError NNoValidators = VErr ''no validators for this committee ID'' True None"
| "rejectedError NNoSignatures = VErr ''no signatures'' True None"
| "rejectedError NTooManySignaturesInPartialSigMessage = VErr ''too many signatures in a partial-signature message'' True None"
| "rejectedError NSignersAndSignaturesWithDifferentLength = VErr ''signature and operator ID length mismatch'' True None"
| "rejectedError NPartialSigMessageMustHaveOneSigner = VErr ''partial signature message must have exactly one signer'' True None"
| "rejectedError NPrepareOrCommitWithFullData = VErr ''prepare or commit with full data'' True None"
| "rejectedError NFullDataNotInConsensusMessage = VErr ''full data not in consensus message'' True None"
| "rejectedError NTooManyEqualValidatorIndicesInPartialSignatures = VErr ''validator index appears too many times in partial signatures'' True None"
| "rejectedError NZeroRound = VErr ''zero round'' True None"

text \<open>The variables of the source.\<close>

abbreviation ErrWrongDomain :: go_err where "ErrWrongDomain \<equiv> ignoredError NWrongDomain"
abbreviation ErrNoShareMetadata :: go_err where "ErrNoShareMetadata \<equiv> ignoredError NNoShareMetadata"
abbreviation ErrUnknownValidator :: go_err where "ErrUnknownValidator \<equiv> ignoredError NUnknownValidator"
abbreviation ErrValidatorLiquidated :: go_err where "ErrValidatorLiquidated \<equiv> ignoredError NValidatorLiquidated"
abbreviation ErrValidatorNotAttesting :: go_err where "ErrValidatorNotAttesting \<equiv> ignoredError NValidatorNotAttesting"
abbreviation ErrEarlySlotMessage :: go_err where "ErrEarlySlotMessage \<equiv> ignoredError NEarlySlotMessage"
abbreviation ErrLateSlotMessage :: go_err where "ErrLateSlotMessage \<equiv> ignoredError NLateSlotMessage"
abbreviation ErrSlotAlreadyAdvanced :: go_err where "ErrSlotAlreadyAdvanced \<equiv> ignoredError NSlotAlreadyAdvanced"
abbreviation ErrRoundAlreadyAdvanced :: go_err where "ErrRoundAlreadyAdvanced \<equiv> ignoredError NRoundAlreadyAdvanced"
abbreviation ErrPubSubDataTooBig :: go_err where "ErrPubSubDataTooBig \<equiv> ignoredError NPubSubDataTooBig"
abbreviation ErrIncorrectTopic :: go_err where "ErrIncorrectTopic \<equiv> ignoredError NIncorrectTopic"
abbreviation ErrNonExistentCommitteeID :: go_err where "ErrNonExistentCommitteeID \<equiv> ignoredError NNonExistentCommitteeID"
abbreviation ErrRoundTooHigh :: go_err where "ErrRoundTooHigh \<equiv> ignoredError NRoundTooHigh"
abbreviation ErrValidatorIndexMismatch :: go_err where "ErrValidatorIndexMismatch \<equiv> ignoredError NValidatorIndexMismatch"
abbreviation ErrTooManyDutiesPerEpoch :: go_err where "ErrTooManyDutiesPerEpoch \<equiv> ignoredError NTooManyDutiesPerEpoch"
abbreviation ErrNoDuty :: go_err where "ErrNoDuty \<equiv> ignoredError NNoDuty"
abbreviation ErrEstimatedRoundNotInAllowedSpread :: go_err where "ErrEstimatedRoundNotInAllowedSpread \<equiv> ignoredError NEstimatedRoundNotInAllowedSpread"
abbreviation ErrUnknownOperator :: go_err where "ErrUnknownOperator \<equiv> ignoredError NUnknownOperator"
abbreviation ErrOperatorValidation :: go_err where "ErrOperatorValidation \<equiv> ignoredError NOperatorValidation"
abbreviation ErrDuplicatedMessage :: go_err where "ErrDuplicatedMessage \<equiv> ignoredError NDuplicatedMessage"
abbreviation ErrTooManyPartialSigMessage :: go_err where "ErrTooManyPartialSigMessage \<equiv> ignoredError NTooManyPartialSigMessage"
abbreviation ErrDifferentProposalData :: go_err where "ErrDifferentProposalData \<equiv> ignoredError NDifferentProposalData"
abbreviation ErrDecidedMessageWithTooFewSigners :: go_err where "ErrDecidedMessageWithTooFewSigners \<equiv> ignoredError NDecidedMessageWithTooFewSigners"
abbreviation ErrValidatorRegistrationRetired :: go_err where "ErrValidatorRegistrationRetired \<equiv> ignoredError NValidatorRegistrationRetired"
abbreviation ErrEmptyData :: go_err where "ErrEmptyData \<equiv> rejectedError NEmptyData"
abbreviation ErrMismatchedIdentifier :: go_err where "ErrMismatchedIdentifier \<equiv> rejectedError NMismatchedIdentifier"
abbreviation ErrSignatureVerification :: go_err where "ErrSignatureVerification \<equiv> rejectedError NSignatureVerification"
abbreviation ErrPubSubMessageHasNoData :: go_err where "ErrPubSubMessageHasNoData \<equiv> rejectedError NPubSubMessageHasNoData"
abbreviation ErrMalformedPubSubMessage :: go_err where "ErrMalformedPubSubMessage \<equiv> rejectedError NMalformedPubSubMessage"
abbreviation ErrNilSignedSSVMessage :: go_err where "ErrNilSignedSSVMessage \<equiv> rejectedError NNilSignedSSVMessage"
abbreviation ErrNilSSVMessage :: go_err where "ErrNilSSVMessage \<equiv> rejectedError NNilSSVMessage"
abbreviation ErrSSVDataTooBig :: go_err where "ErrSSVDataTooBig \<equiv> rejectedError NSSVDataTooBig"
abbreviation ErrInvalidRole :: go_err where "ErrInvalidRole \<equiv> rejectedError NInvalidRole"
abbreviation ErrUnexpectedConsensusMessage :: go_err where "ErrUnexpectedConsensusMessage \<equiv> rejectedError NUnexpectedConsensusMessage"
abbreviation ErrNoSigners :: go_err where "ErrNoSigners \<equiv> rejectedError NNoSigners"
abbreviation ErrWrongRSASignatureSize :: go_err where "ErrWrongRSASignatureSize \<equiv> rejectedError NWrongRSASignatureSize"
abbreviation ErrZeroSigner :: go_err where "ErrZeroSigner \<equiv> rejectedError NZeroSigner"
abbreviation ErrSignerNotInCommittee :: go_err where "ErrSignerNotInCommittee \<equiv> rejectedError NSignerNotInCommittee"
abbreviation ErrDuplicatedSigner :: go_err where "ErrDuplicatedSigner \<equiv> rejectedError NDuplicatedSigner"
abbreviation ErrSignerNotLeader :: go_err where "ErrSignerNotLeader \<equiv> rejectedError NSignerNotLeader"
abbreviation ErrSignersNotSorted :: go_err where "ErrSignersNotSorted \<equiv> rejectedError NSignersNotSorted"
abbreviation ErrInconsistentSigners :: go_err where "ErrInconsistentSigners \<equiv> rejectedError NInconsistentSigners"
abbreviation ErrInconsistentValidatorIndex :: go_err where "ErrInconsistentValidatorIndex \<equiv> rejectedError NInconsistentValidatorIndex"
abbreviation ErrInvalidHash :: go_err where "ErrInvalidHash \<equiv> rejectedError NInvalidHash"
abbreviation ErrFullDataHash :: go_err where "ErrFullDataHash \<equiv> rejectedError NFullDataHash"
abbreviation ErrUndecodableMessageData :: go_err where "ErrUndecodableMessageData \<equiv> rejectedError NUndecodableMessageData"
abbreviation ErrEventMessage :: go_err where "ErrEventMessage \<equiv> rejectedError NEventMessage"
abbreviation ErrUnknownSSVMessageType :: go_err where "ErrUnknownSSVMessageType \<equiv> rejectedError NUnknownSSVMessageType"
abbreviation ErrUnknownQBFTMessageType :: go_err where "ErrUnknownQBFTMessageType \<equiv> rejectedError NUnknownQBFTMessageType"
abbreviation ErrInvalidPartialSignatureType :: go_err where "ErrInvalidPartialSignatureType \<equiv> rejectedError NInvalidPartialSignatureType"
abbreviation ErrPartialSignatureTypeRoleMismatch :: go_err where "ErrPartialSignatureTypeRoleMismatch \<equiv> rejectedError NPartialSignatureTypeRoleMismatch"
abbreviation ErrNonDecidedWithMultipleSigners :: go_err where "ErrNonDecidedWithMultipleSigners \<equiv> rejectedError NNonDecidedWithMultipleSigners"
abbreviation ErrDecidedNotEnoughSigners :: go_err where "ErrDecidedNotEnoughSigners \<equiv> rejectedError NDecidedNotEnoughSigners"
abbreviation ErrMalformedPrepareJustifications :: go_err where "ErrMalformedPrepareJustifications \<equiv> rejectedError NMalformedPrepareJustifications"
abbreviation ErrUnexpectedPrepareJustifications :: go_err where "ErrUnexpectedPrepareJustifications \<equiv> rejectedError NUnexpectedPrepareJustifications"
abbreviation ErrMalformedRoundChangeJustifications :: go_err where "ErrMalformedRoundChangeJustifications \<equiv> rejectedError NMalformedRoundChangeJustifications"
abbreviation ErrUnexpectedRoundChangeJustifications :: go_err where "ErrUnexpectedRoundChangeJustifications \<equiv> rejectedError NUnexpectedRoundChangeJustifications"
abbreviation ErrNoMessagesInPartialSigMessage :: go_err where "ErrNoMessagesInPartialSigMessage \<equiv> rejectedError NNoMessagesInPartialSigMessage"
abbreviation ErrNoValidators :: go_err where "ErrNoValidators \<equiv> rejectedError NNoValidators"
abbreviation ErrNoSignatures :: go_err where "ErrNoSignatures \<equiv> rejectedError NNoSignatures"
abbreviation ErrTooManySignaturesInPartialSigMessage :: go_err where "ErrTooManySignaturesInPartialSigMessage \<equiv> rejectedError NTooManySignaturesInPartialSigMessage"
abbreviation ErrSignersAndSignaturesWithDifferentLength :: go_err where "ErrSignersAndSignaturesWithDifferentLength \<equiv> rejectedError NSignersAndSignaturesWithDifferentLength"
abbreviation ErrPartialSigMessageMustHaveOneSigner :: go_err where "ErrPartialSigMessageMustHaveOneSigner \<equiv> rejectedError NPartialSigMessageMustHaveOneSigner"
abbreviation ErrPrepareOrCommitWithFullData :: go_err where "ErrPrepareOrCommitWithFullData \<equiv> rejectedError NPrepareOrCommitWithFullData"
abbreviation ErrFullDataNotInConsensusMessage :: go_err where "ErrFullDataNotInConsensusMessage \<equiv> rejectedError NFullDataNotInConsensusMessage"
abbreviation ErrTooManyEqualValidatorIndicesInPartialSignatures :: go_err where "ErrTooManyEqualValidatorIndicesInPartialSignatures \<equiv> rejectedError NTooManyEqualValidatorIndicesInPartialSignatures"
abbreviation ErrZeroRound :: go_err where "ErrZeroRound \<equiv> rejectedError NZeroRound"

declare ignoredError.simps [simp del] rejectedError.simps [simp del]

end
