(* ===== verification/Validation_State.thy ===== *)
theory Validation_State
  imports Validation_Errors Validator_Store Dutystore
begin

unbundle bit_operations_syntax

text \<open>
  The state that message validation keeps per signer, \<open>message/validation/consensus_state.go\<close>,
  \<open>signer_state.go\<close>, \<open>seen_msg_types.go\<close> and \<open>committee_info.go\<close>: for every message identifier a
  state per operator of the committee, which remembers the messages seen in recent slots in a ring
  indexed by the slot, and counts the operator's duties in a ring indexed by the epoch.

  A state object is shared by pointer; the functions return the changed object and their callers
  put it back where the pointer came from.
\<close>

section \<open>Errors\<close>

text \<open>A copy of an error with its reject flag or its inner error set.\<close>

fun set_reject :: "go_err \<Rightarrow> go_err" where
  "set_reject (VErr t r i) = VErr t True i"
| "set_reject e = e"

fun set_inner :: "go_err \<Rightarrow> go_err \<Rightarrow> go_err" where
  "set_inner (VErr t r i) e = VErr t r (Some e)"
| "set_inner e' e = e'"

section \<open>Committees\<close>

record CommitteeInfo =
  ci_committeeID :: bytes
  ci_committee :: "OperatorID list"
  ci_signerIndices :: "OperatorID \<rightharpoonup> nat"
  ci_validatorIndices :: "u64 list"
  ci_subnet :: u64
  ci_subnetAlan :: u64

definition newCommitteeInfo :: "bytes \<Rightarrow> OperatorID list \<Rightarrow> u64 list \<Rightarrow> u64 \<Rightarrow> u64 \<Rightarrow> CommitteeInfo" where
  "newCommitteeInfo committeeID operators validatorIndices booleSubnet alanSubnet =
     \<lparr>ci_committeeID = committeeID, ci_committee = operators,
      ci_signerIndices = fold (\<lambda>(i, operator) m. m(operator \<mapsto> i)) (enumerate 0 operators) Map.empty,
      ci_validatorIndices = validatorIndices, ci_subnet = booleSubnet, ci_subnetAlan = alanSubnet\<rparr>"

text \<open>A missing key of a Go map reads as zero.\<close>

definition signerIndex :: "CommitteeInfo \<Rightarrow> OperatorID \<Rightarrow> nat" where
  "signerIndex ci signer = (case ci_signerIndices ci signer of Some i \<Rightarrow> i | None \<Rightarrow> 0)"

section \<open>Seen message types\<close>

definition preConsensusIdx :: nat where "preConsensusIdx = 0"
definition proposalIdx :: nat where "proposalIdx = 1"
definition prepareIdx :: nat where "prepareIdx = 2"
definition commitIdx :: nat where "commitIdx = 3"
definition roundChangeIdx :: nat where "roundChangeIdx = 4"
definition postConsensusIdx :: nat where "postConsensusIdx = 5"

lemmas idx_defs = preConsensusIdx_def proposalIdx_def prepareIdx_def commitIdx_def roundChangeIdx_def
  postConsensusIdx_def

type_synonym SeenMsgTypes = byte

definition recordPreConsensus :: "SeenMsgTypes \<Rightarrow> SeenMsgTypes" where
  "recordPreConsensus v = v OR push_bit preConsensusIdx 1"
definition recordProposal :: "SeenMsgTypes \<Rightarrow> SeenMsgTypes" where
  "recordProposal v = v OR push_bit proposalIdx 1"
definition recordPrepare :: "SeenMsgTypes \<Rightarrow> SeenMsgTypes" where
  "recordPrepare v = v OR push_bit prepareIdx 1"
definition recordCommit :: "SeenMsgTypes \<Rightarrow> SeenMsgTypes" where
  "recordCommit v = v OR push_bit commitIdx 1"
definition recordRoundChange :: "SeenMsgTypes \<Rightarrow> SeenMsgTypes" where
  "recordRoundChange v = v OR push_bit roundChangeIdx 1"
definition recordPostConsensus :: "SeenMsgTypes \<Rightarrow> SeenMsgTypes" where
  "recordPostConsensus v = v OR push_bit postConsensusIdx 1"

definition reachedPreConsensusLimit :: "SeenMsgTypes \<Rightarrow> bool" where
  "reachedPreConsensusLimit v \<longleftrightarrow> v AND push_bit preConsensusIdx 1 \<noteq> 0"
definition reachedProposalLimit :: "SeenMsgTypes \<Rightarrow> bool" where
  "reachedProposalLimit v \<longleftrightarrow> v AND push_bit proposalIdx 1 \<noteq> 0"
definition reachedPrepareLimit :: "SeenMsgTypes \<Rightarrow> bool" where
  "reachedPrepareLimit v \<longleftrightarrow> v AND push_bit prepareIdx 1 \<noteq> 0"
definition reachedCommitLimit :: "SeenMsgTypes \<Rightarrow> bool" where
  "reachedCommitLimit v \<longleftrightarrow> v AND push_bit commitIdx 1 \<noteq> 0"
definition reachedRoundChangeLimit :: "SeenMsgTypes \<Rightarrow> bool" where
  "reachedRoundChangeLimit v \<longleftrightarrow> v AND push_bit roundChangeIdx 1 \<noteq> 0"
definition reachedPostConsensusLimit :: "SeenMsgTypes \<Rightarrow> bool" where
  "reachedPostConsensusLimit v \<longleftrightarrow> v AND push_bit postConsensusIdx 1 \<noteq> 0"

definition RecordConsensusMessage :: "OperatorID list \<Rightarrow> Message \<Rightarrow> SeenMsgTypes \<Rightarrow> (go_err, SeenMsgTypes) res" where
  "RecordConsensusMessage operatorIDs msg c =
     (case m_MsgType msg of
        ProposalMsgType \<Rightarrow> Ok (recordProposal c)
      | PrepareMsgType \<Rightarrow> Ok (recordPrepare c)
      | CommitMsgType \<Rightarrow> Ok (if length operatorIDs = 1 then recordCommit c else c)
      | RoundChangeMsgType \<Rightarrow> Ok (recordRoundChange c)
      | OtherMsgType _ \<Rightarrow> Err (PlainErr ''unexpected signed message type''))"

definition RecordPartialSignatureMessage :: "PartialSignatureMessages \<Rightarrow> SeenMsgTypes \<Rightarrow> (go_err, SeenMsgTypes) res" where
  "RecordPartialSignatureMessage messages c =
     (case ps_Type messages of
        RandaoPartialSig \<Rightarrow> Ok (recordPreConsensus c)
      | SelectionProofPartialSig \<Rightarrow> Ok (recordPreConsensus c)
      | ContributionProofs \<Rightarrow> Ok (recordPreConsensus c)
      | ValidatorRegistrationPartialSig \<Rightarrow> Ok (recordPreConsensus c)
      | VoluntaryExitPartialSig \<Rightarrow> Ok (recordPreConsensus c)
      | AggregatorCommitteePartialSig \<Rightarrow> Ok (recordPreConsensus c)
      | PTCAttesterPartialSig \<Rightarrow> Ok (recordPreConsensus c)
      | ProposerPreferencesPartialSig \<Rightarrow> Ok c
      | RequestAuthPartialSig \<Rightarrow> Ok c
      | PostConsensusPartialSig \<Rightarrow> Ok (recordPostConsensus c)
      | OtherPartialSig _ \<Rightarrow> Err (PlainErr ''unexpected partial signature message type''))"

section \<open>The state of a signer\<close>

record SignerState =
  SeenTypes :: SeenMsgTypes
  HashedProposalData :: "root option"
  SeenDecidedMsgSignersCount :: nat

definition zeroSignerState :: SignerState where
  "zeroSignerState = \<lparr>SeenTypes = 0, HashedProposalData = None, SeenDecidedMsgSignersCount = 0\<rparr>"

record SignerStateForSlotRound =
  sg_Slot :: u64
  sg_Round :: Round
  sg_Peers :: "string \<rightharpoonup> SignerState"
  sg_World :: SignerState
  SeenProposerPreferencesRoots :: "root list"
  SeenRequestAuthRoots :: "root list"

text \<open>\<open>Peer\<close> adds an empty state for a new peer; \<open>upd_Peer\<close> is a write through the result.\<close>

definition peekPeer :: "SignerStateForSlotRound \<Rightarrow> string \<Rightarrow> SignerState" where
  "peekPeer s peerID = (case sg_Peers s peerID of Some st \<Rightarrow> st | None \<Rightarrow> zeroSignerState)"

definition upd_Peer :: "string \<Rightarrow> (SignerState \<Rightarrow> SignerState) \<Rightarrow> SignerStateForSlotRound \<Rightarrow> SignerStateForSlotRound" where
  "upd_Peer peerID f s =
     s\<lparr>sg_Peers := (sg_Peers s)(peerID \<mapsto> f (case sg_Peers s peerID of Some st \<Rightarrow> st | None \<Rightarrow> zeroSignerState))\<rparr>"

definition Reset :: "u64 \<Rightarrow> Round \<Rightarrow> SignerStateForSlotRound \<Rightarrow> SignerStateForSlotRound" where
  "Reset slot round s =
     s\<lparr>sg_Slot := slot, sg_Round := round, sg_Peers := Map.empty,
       sg_World := (sg_World s)\<lparr>SeenTypes := 0, HashedProposalData := None, SeenDecidedMsgSignersCount := 0\<rparr>,
       SeenProposerPreferencesRoots := [], SeenRequestAuthRoots := []\<rparr>"

definition newSignerState :: "u64 \<Rightarrow> Round \<Rightarrow> SignerStateForSlotRound" where
  "newSignerState slot round =
     Reset slot round
       \<lparr>sg_Slot = 0, sg_Round = 0, sg_Peers = Map.empty, sg_World = zeroSignerState,
        SeenProposerPreferencesRoots = [], SeenRequestAuthRoots = []\<rparr>"

text \<open>\<open>seenRootSet\<close>: membership and recording.\<close>

definition has_root :: "root list \<Rightarrow> root \<Rightarrow> bool" where
  "has_root s r \<longleftrightarrow> r \<in> set s"

definition record_root :: "root \<Rightarrow> root list \<Rightarrow> root list" where
  "record_root r s = (if r \<in> set s then s else s @ [r])"

text \<open>The pointer to a root set, as its current content.\<close>

definition seenRootsFor :: "SignerStateForSlotRound \<Rightarrow> PartialSigMsgType \<Rightarrow> root list option" where
  "seenRootsFor s t =
     (case t of
        ProposerPreferencesPartialSig \<Rightarrow> Some (SeenProposerPreferencesRoots s)
      | RequestAuthPartialSig \<Rightarrow> Some (SeenRequestAuthRoots s)
      | _ \<Rightarrow> None)"

definition recordRoots :: "PartialSignatureMessages \<Rightarrow> SignerStateForSlotRound \<Rightarrow> SignerStateForSlotRound" where
  "recordRoots m s =
     (let roots = map psm_SigningRoot (ps_Messages m)
      in case ps_Type m of
           ProposerPreferencesPartialSig \<Rightarrow>
             s\<lparr>SeenProposerPreferencesRoots := fold record_root roots (SeenProposerPreferencesRoots s)\<rparr>
         | RequestAuthPartialSig \<Rightarrow> s\<lparr>SeenRequestAuthRoots := fold record_root roots (SeenRequestAuthRoots s)\<rparr>
         | _ \<Rightarrow> s)"

section \<open>The state of an operator\<close>

record epochDuties =
  ed_epoch :: u64
  ed_count :: u64

record OperatorState =
  os_signers :: "SignerStateForSlotRound option list"
  os_maxSlot :: u64
  os_duties :: "epochDuties list"

definition newOperatorState :: "u64 \<Rightarrow> u64 \<Rightarrow> OperatorState" where
  "newOperatorState slotCount epochCount =
     \<lparr>os_signers = replicate (unat slotCount) None, os_maxSlot = 0,
      os_duties = replicate (unat epochCount) \<lparr>ed_epoch = 0, ed_count = 0\<rparr>\<rparr>"

definition GetSignerStateForSlot ::
    "OperatorState option \<Rightarrow> u64 \<Rightarrow> ('e, SignerStateForSlotRound option) res" where
  "GetSignerStateForSlot mos slot =
     (case mos of
        None \<Rightarrow> Ok None
      | Some os \<Rightarrow>
          bind_res (u64_mod slot (len_u64 (os_signers os))) (\<lambda>k.
          bind_res (index_u64 (os_signers os) k) (\<lambda>s.
            Ok (case s of None \<Rightarrow> None | Some st \<Rightarrow> if sg_Slot st \<noteq> slot then None else Some st))))"

definition countDuty :: "u64 \<Rightarrow> OperatorState \<Rightarrow> ('e, OperatorState) res" where
  "countDuty epoch os =
     bind_res (u64_mod epoch (len_u64 (os_duties os))) (\<lambda>k.
     bind_res (index_u64 (os_duties os) k) (\<lambda>entry.
       Ok (if ed_count entry = 0 \<or> ed_epoch entry < epoch
           then os\<lparr>os_duties := (os_duties os)[unat k := \<lparr>ed_epoch = epoch, ed_count = 1\<rparr>]\<rparr>
           else if epoch = ed_epoch entry
           then os\<lparr>os_duties := (os_duties os)[unat k := entry\<lparr>ed_count := ed_count entry + 1\<rparr>]\<rparr>
           else os)))"

text \<open>Writing the signer state of a slot: the store of the pointer, and of its later content.\<close>

definition writeSignerState :: "u64 \<Rightarrow> SignerStateForSlotRound \<Rightarrow> OperatorState \<Rightarrow> ('e, OperatorState) res" where
  "writeSignerState slot state os =
     bind_res (u64_mod slot (len_u64 (os_signers os))) (\<lambda>k.
     bind_res (index_u64 (os_signers os) k) (\<lambda>_.
       Ok (os\<lparr>os_signers := (os_signers os)[unat k := Some state]\<rparr>)))"

definition SetSignerStateForSlot ::
    "u64 \<Rightarrow> u64 \<Rightarrow> SignerStateForSlotRound \<Rightarrow> OperatorState \<Rightarrow> ('e, OperatorState) res" where
  "SetSignerStateForSlot slot epoch state os =
     bind_res (writeSignerState slot state os) (\<lambda>os.
       countDuty epoch (if os_maxSlot os < slot then os\<lparr>os_maxSlot := slot\<rparr> else os))"

definition MaxSlot :: "OperatorState option \<Rightarrow> u64" where
  "MaxSlot mos = (case mos of None \<Rightarrow> 0 | Some os \<Rightarrow> os_maxSlot os)"

definition DutyCount :: "OperatorState option \<Rightarrow> u64 \<Rightarrow> ('e, u64) res" where
  "DutyCount mos epoch =
     (case mos of
        None \<Rightarrow> Ok 0
      | Some os \<Rightarrow>
          bind_res (u64_mod epoch (len_u64 (os_duties os))) (\<lambda>k.
          bind_res (index_u64 (os_duties os) k) (\<lambda>entry.
            Ok (if ed_count entry = 0 \<or> ed_epoch entry \<noteq> epoch then 0 else ed_count entry))))"

section \<open>The state of a message identifier\<close>

record ValState =
  va_committeeID :: bytes
  va_operators :: "OperatorState option list"
  va_storedSlotCount :: u64
  va_storedEpochCount :: u64

definition peekOperatorState :: "ValState \<Rightarrow> nat \<Rightarrow> ('e, OperatorState option) res" where
  "peekOperatorState cs operatorIdx =
     (if operatorIdx < length (va_operators cs) then Ok (va_operators cs ! operatorIdx) else Panic)"

text \<open>\<open>ValidatorState.OperatorState\<close>: the state, allocated on first use.\<close>

definition operatorStateOf :: "ValState \<Rightarrow> nat \<Rightarrow> ('e, OperatorState \<times> ValState) res" where
  "operatorStateOf cs operatorIdx =
     bind_res (peekOperatorState cs operatorIdx) (\<lambda>mos.
       case mos of
         Some os \<Rightarrow> Ok (os, cs)
       | None \<Rightarrow> let os = newOperatorState (va_storedSlotCount cs) (va_storedEpochCount cs)
                 in Ok (os, cs\<lparr>va_operators := (va_operators cs)[operatorIdx := Some os]\<rparr>))"

end
