(* ===== verification/Validation.thy ===== *)
theory Validation
  imports Validation_State
begin

text \<open>
  Validation of gossiped messages, \<open>message/validation\<close>. Definitions follow the source file by
  file: the limits of \<open>const.go\<close>, the checks of \<open>common_checks.go\<close> and \<open>signed_ssv_message.go\<close>, the
  rules for consensus messages and for partial signatures, and the entry points of
  \<open>validation.go\<close>, \<open>pubsub_validation.go\<close>, \<open>self.go\<close> and \<open>errors.go\<close>.

  \<open>mv\<close> holds what a validator is built with; \<open>E\<close> holds what one message meets: the clocks, the peer
  and topic it came from, and the outcome of \<open>ctx.Err()\<close> at every place that asks for it. The cache
  of states is a map from message identifiers; it loses an entry when its time to live runs out,
  which is a step of its own in the runs considered later. The lock per message identifier makes a
  validation one step for that identifier.

  The decoded body that is returned beside an error only feeds logs and is left out.
\<close>

section \<open>The validator and what a message meets\<close>

record messageValidator =
  mv_spec :: specmsg
  mv_netCfg :: Network
  mv_stateAPI :: stateAPI
  mv_sha :: "bytes \<Rightarrow> bytes"
  mv_Validator :: "bytes \<Rightarrow> SSVShare option"
  mv_Committee :: "bytes \<Rightarrow> Committee option"
  mv_OperatorsExist :: "OperatorID list \<Rightarrow> go_err + bool"
  mv_dutyStore :: Store
  mv_VerifySignature :: "OperatorID \<Rightarrow> SSVMessage \<Rightarrow> bytes \<Rightarrow> go_err option"
  mv_selfPID :: string
  mv_selfAccept :: bool

abbreviation beacon :: "messageValidator \<Rightarrow> Beacon" where
  "beacon mv \<equiv> nw_Beacon (mv_netCfg mv)"

abbreviation roleOf :: "messageValidator \<Rightarrow> SSVMessage \<Rightarrow> RunnerRole" where
  "roleOf mv m \<equiv> GetRoleType (mv_spec mv) (ssv_MsgID m)"

datatype ctx_point = AtValidate | AtPubsub | AtSigned | AtLock | AtVerify | AtSignature nat

record venv =
  v_now :: int
  v_receivedAt :: int
  v_receivedFrom :: string
  v_topic :: string
  v_ctx :: "ctx_point \<Rightarrow> go_err option"

type_synonym states = "bytes \<rightharpoonup> ValState"

definition ctx_Err :: "venv \<Rightarrow> ctx_point \<Rightarrow> (go_err, unit) res" where
  "ctx_Err E p = (case v_ctx E p of None \<Rightarrow> Ok () | Some e \<Rightarrow> Err e)"

section \<open>Limits\<close>

definition lateMessageMargin :: int where "lateMessageMargin = 1000000000 * 3"
definition clockErrorTolerance :: int where "clockErrorTolerance = 1000000 * 50"
definition earlyMessageMargin :: int where "earlyMessageMargin = 1000000000"
definition allowedRoundsInPast :: u64 where "allowedRoundsInPast = 2"
definition allowedRoundsInFuture :: u64 where "allowedRoundsInFuture = 1"
definition LateSlotAllowance :: u64 where "LateSlotAllowance = 2"
definition rsaSignatureSize :: nat where "rsaSignatureSize = 256"
definition operatorIDSize :: nat where "operatorIDSize = 8"
definition slotSize :: nat where "slotSize = 8"
definition validatorIndexSize :: nat where "validatorIndexSize = 8"
definition identifierSize :: nat where "identifierSize = 56"
definition rootSize :: nat where "rootSize = 32"
definition maxSignatures :: nat where "maxSignatures = 13"
definition encodingOverheadDivisor :: nat where "encodingOverheadDivisor = 20"
definition proposerPreferencesEarlyEpochs :: u64 where "proposerPreferencesEarlyEpochs = 2"
definition maxProposerPreferencesDistinctRoots :: nat where "maxProposerPreferencesDistinctRoots = 4"
definition maxRequestAuthDistinctRoots :: nat where "maxRequestAuthDistinctRoots = 8"
definition maxRequestAuthEntries :: nat where "maxRequestAuthEntries = 8"

definition maxConsensusMsgSize :: nat where
  "maxConsensusMsgSize = 8 + 8 + 8 + identifierSize + rootSize + 8 + maxSignatures * (3616 + 50624)"
definition maxEncodedConsensusMsgSize :: nat where
  "maxEncodedConsensusMsgSize = maxConsensusMsgSize + maxConsensusMsgSize div encodingOverheadDivisor + 4"
definition partialSignatureMsgSize :: nat where
  "partialSignatureMsgSize = 96 + rootSize + operatorIDSize + validatorIndexSize"
definition maxPartialSignatureMsgsSize :: nat where
  "maxPartialSignatureMsgsSize = 8 + slotSize + 5048 * partialSignatureMsgSize"
definition maxEncodedPartialSignatureSize :: nat where
  "maxEncodedPartialSignatureSize =
     maxPartialSignatureMsgsSize + maxPartialSignatureMsgsSize div encodingOverheadDivisor + 4"
definition maxPayloadDataSize :: nat where
  "maxPayloadDataSize = max maxEncodedConsensusMsgSize maxEncodedPartialSignatureSize"
definition maxSignedMsgSize :: nat where
  "maxSignedMsgSize =
     maxSignatures * rsaSignatureSize + maxSignatures * operatorIDSize + 8 + identifierSize
     + maxPayloadDataSize + 8388836"
definition MaxEncodedMsgSize :: nat where
  "MaxEncodedMsgSize = maxSignedMsgSize + maxSignedMsgSize div encodingOverheadDivisor + 4"

section \<open>Retention\<close>

definition maxStoredSlots :: "messageValidator \<Rightarrow> u64" where
  "maxStoredSlots mv = SlotsPerEpoch (beacon mv) + LateSlotAllowance"

definition storedSlotCount :: "messageValidator \<Rightarrow> RunnerRole \<Rightarrow> u64" where
  "storedSlotCount mv role =
     (if role = RoleProposerPreferences
      then proposerPreferencesEarlyEpochs * SlotsPerEpoch (beacon mv) + LateSlotAllowance + 1
      else maxStoredSlots mv)"

definition storedEpochCount :: "messageValidator \<Rightarrow> RunnerRole \<Rightarrow> u64" where
  "storedEpochCount mv role =
     (case role of
        RoleProposerPreferences \<Rightarrow> proposerPreferencesEarlyEpochs + 1
      | RoleCommittee \<Rightarrow> 3
      | RoleAggregatorCommittee \<Rightarrow> 3
      | RoleAggregator \<Rightarrow> 3
      | _ \<Rightarrow> 2)"

text \<open>
  The time to live of a state; for the roles with the cache's default it is the one \<open>New\<close> sets.
\<close>

definition stateTTL :: "messageValidator \<Rightarrow> RunnerRole \<Rightarrow> int" where
  "stateTTL mv role =
     (if role = RoleProposerPreferences
      then i64 (i64_of_u64 (storedSlotCount mv role + 1) * SlotDuration (beacon mv))
      else i64 (i64_of_u64 (maxStoredSlots mv) * SlotDuration (beacon mv)))"

definition validatorState :: "messageValidator \<Rightarrow> bytes \<Rightarrow> CommitteeInfo \<Rightarrow> states \<Rightarrow> ValState \<times> states" where
  "validatorState mv key ci st =
     (let new = \<lparr>va_committeeID = ci_committeeID ci,
                 va_operators = replicate (length (ci_committee ci)) None,
                 va_storedSlotCount = storedSlotCount mv (GetRoleType (mv_spec mv) key),
                 va_storedEpochCount = storedEpochCount mv (GetRoleType (mv_spec mv) key)\<rparr>
      in case st key of
           Some v \<Rightarrow> if va_committeeID v = ci_committeeID ci then (v, st) else (new, st(key \<mapsto> new))
         | None \<Rightarrow> (new, st(key \<mapsto> new)))"

section \<open>Common checks\<close>

definition committeeRole :: "RunnerRole \<Rightarrow> bool" where
  "committeeRole role \<longleftrightarrow> role = RoleCommittee \<or> role = RoleAggregatorCommittee"

definition monotonicSlotRole :: "RunnerRole \<Rightarrow> bool" where
  "monotonicSlotRole role \<longleftrightarrow> \<not> committeeRole role \<and> role \<noteq> RoleProposerPreferences"

definition messageEarliness :: "messageValidator \<Rightarrow> u64 \<Rightarrow> RunnerRole \<Rightarrow> int \<Rightarrow> ('e, int) res" where
  "messageEarliness mv slot role receivedAt =
     bind_res (SlotStartTime (beacon mv) slot) (\<lambda>slotStart.
     bind_res
       (if role = RoleProposerPreferences
        then bind_res (EstimatedEpochAtSlot (beacon mv) slot) (\<lambda>epoch.
               let lookback = proposerPreferencesEarlyEpochs - 1;
                   epoch = (if lookback \<le> epoch then epoch - lookback else 0)
               in SlotStartTime (beacon mv) (FirstSlotAtEpoch (beacon mv) epoch))
        else Ok slotStart) (\<lambda>expectedFrom.
       Ok (time_sub expectedFrom receivedAt)))"

definition lateness_ttl :: "messageValidator \<Rightarrow> RunnerRole \<Rightarrow> u64 option" where
  "lateness_ttl mv role =
     (case role of
        RoleProposer \<Rightarrow> Some (1 + LateSlotAllowance)
      | RolePTCAttester \<Rightarrow> Some (1 + LateSlotAllowance)
      | RoleSyncCommitteeContribution \<Rightarrow> Some (1 + LateSlotAllowance)
      | RoleCommittee \<Rightarrow> Some (maxStoredSlots mv)
      | RoleAggregatorCommittee \<Rightarrow> Some (maxStoredSlots mv)
      | RoleAggregator \<Rightarrow> Some (maxStoredSlots mv)
      | RoleValidatorRegistration \<Rightarrow> None
      | RoleVoluntaryExit \<Rightarrow> None
      | RoleProposerPreferences \<Rightarrow> Some LateSlotAllowance
      | RoleUnknown \<Rightarrow> None)"

definition messageLateness :: "messageValidator \<Rightarrow> u64 \<Rightarrow> RunnerRole \<Rightarrow> int \<Rightarrow> ('e, int) res" where
  "messageLateness mv slot role receivedAt =
     (case lateness_ttl mv role of
        None \<Rightarrow> Ok 0
      | Some ttl \<Rightarrow>
          bind_res (SlotStartTime (beacon mv) (slot + ttl)) (\<lambda>start.
            Ok (time_sub receivedAt (start + lateMessageMargin))))"

definition validateSlotTime :: "messageValidator \<Rightarrow> u64 \<Rightarrow> RunnerRole \<Rightarrow> int \<Rightarrow> (go_err, unit) res" where
  "validateSlotTime mv messageSlot role receivedAt =
     bind_res (messageEarliness mv messageSlot role receivedAt) (\<lambda>earliness.
       if earliness > clockErrorTolerance + earlyMessageMargin then Err ErrEarlySlotMessage
       else bind_res (messageLateness mv messageSlot role receivedAt) (\<lambda>lateness.
              if lateness > clockErrorTolerance then Err ErrLateSlotMessage else Ok ()))"

definition dutyLimit :: "messageValidator \<Rightarrow> bytes \<Rightarrow> u64 \<Rightarrow> u64 list \<Rightarrow> ('e, u64 option) res" where
  "dutyLimit mv msgID slot validatorIndices =
     (let committeeLimit =
            (let n = len_u64 validatorIndices; spe = SlotsPerEpoch (beacon mv)
             in if n < spe div 2
                then bind_res (EstimatedEpochAtSlot (beacon mv) slot) (\<lambda>epoch.
                     bind_res (EstimatedSyncCommitteePeriodAtEpoch (beacon mv) epoch) (\<lambda>period.
                       if \<exists>i \<in> set validatorIndices. SyncDuty (SyncCommittee (mv_dutyStore mv)) period i \<noteq> None
                       then Ok (Some spe) else Ok (Some (min spe (2 * n)))))
                else Ok (Some (min spe (2 * n))))
      in case GetRoleType (mv_spec mv) msgID of
           RoleVoluntaryExit \<Rightarrow>
             Ok (Some (GetDutyCount (VoluntaryExit (mv_dutyStore mv)) slot
               (take 48 (GetDutyExecutorID (mv_spec mv) msgID @ replicate 48 0))))
         | RoleAggregator \<Rightarrow> Ok (Some 2)
         | RoleValidatorRegistration \<Rightarrow> Ok (Some 2)
         | RolePTCAttester \<Rightarrow> Ok (Some 2)
         | RoleCommittee \<Rightarrow> committeeLimit
         | RoleAggregatorCommittee \<Rightarrow> committeeLimit
         | RoleProposerPreferences \<Rightarrow> Ok (Some (SlotsPerEpoch (beacon mv)))
         | _ \<Rightarrow> Ok None)"

definition validateDutyCount ::
    "messageValidator \<Rightarrow> bytes \<Rightarrow> u64 \<Rightarrow> u64 list \<Rightarrow> OperatorState option \<Rightarrow> (go_err, unit) res" where
  "validateDutyCount mv msgID msgSlot validatorIndices operatorState =
     bind_res (EstimatedEpochAtSlot (beacon mv) msgSlot) (\<lambda>epoch.
     bind_res (DutyCount operatorState epoch) (\<lambda>dutyCount.
     bind_res (dutyLimit mv msgID msgSlot validatorIndices) (\<lambda>limit.
       case limit of
         None \<Rightarrow> Ok ()
       | Some lim \<Rightarrow>
           bind_res (GetSignerStateForSlot operatorState msgSlot) (\<lambda>signerState.
             let dutyCount = (if signerState = None then dutyCount + 1 else dutyCount)
             in if dutyCount > lim then Err ErrTooManyDutiesPerEpoch else Ok ()))))"

definition validateBeaconDuty ::
    "messageValidator \<Rightarrow> venv \<Rightarrow> RunnerRole \<Rightarrow> u64 \<Rightarrow> u64 list \<Rightarrow> bool \<Rightarrow> (go_err, unit) res" where
  "validateBeaconDuty mv E role slot indices randaoMsg =
     bind_res (EstimatedEpochAtSlot (beacon mv) slot) (\<lambda>epoch.
       case indices of
         [] \<Rightarrow> Err ErrNoValidators
       | validatorIndex # _ \<Rightarrow>
           (case role of
              RoleProposer \<Rightarrow>
                bind_res (if randaoMsg then IsFirstSlotOfEpoch (beacon mv) slot else Ok False) (\<lambda>first.
                bind_res (if first then bind_res (EstimatedCurrentSlot (beacon mv) (v_now E)) (\<lambda>cur. Ok (cur \<le> slot))
                          else Ok False) (\<lambda>tolerate.
                  if tolerate \<and> \<not> IsEpochSet (ProposerDuties (mv_dutyStore mv)) epoch then Ok ()
                  else ensure (ValidatorDuty (ProposerDuties (mv_dutyStore mv)) epoch slot validatorIndex \<noteq> None)
                         ErrNoDuty))
            | RoleProposerPreferences \<Rightarrow>
                ensure (\<not> (IsEpochSet (ProposerDuties (mv_dutyStore mv)) epoch
                           \<and> \<not> IsEpochStale (ProposerDuties (mv_dutyStore mv)) epoch
                           \<and> ValidatorDuty (ProposerDuties (mv_dutyStore mv)) epoch slot validatorIndex = None))
                  ErrNoDuty
            | RoleSyncCommitteeContribution \<Rightarrow>
                bind_res (EstimatedSyncCommitteePeriodAtEpoch (beacon mv) epoch) (\<lambda>period.
                  ensure (SyncDuty (SyncCommittee (mv_dutyStore mv)) period validatorIndex \<noteq> None) ErrNoDuty)
            | RolePTCAttester \<Rightarrow>
                ensure (\<not> (IsEpochSet (PTC (mv_dutyStore mv)) epoch
                           \<and> ValidatorDuty (PTC (mv_dutyStore mv)) epoch slot validatorIndex = None))
                  ErrNoDuty
            | _ \<Rightarrow> Ok ()))"

section \<open>Signed messages\<close>

definition validateSignerNotZero :: "OperatorID \<Rightarrow> (go_err, unit) res" where
  "validateSignerNotZero signer = ensure (signer \<noteq> 0) ErrZeroSigner"

definition validateSignerUnique :: "OperatorID \<Rightarrow> OperatorID \<Rightarrow> (go_err, unit) res" where
  "validateSignerUnique signer prevSigner = ensure (signer \<noteq> prevSigner) ErrDuplicatedSigner"

definition validateSignerIsKnown :: "messageValidator \<Rightarrow> OperatorID \<Rightarrow> (go_err, unit) res" where
  "validateSignerIsKnown mv signer =
     bind_res (of_sum (\<lambda>_. ErrOperatorValidation) (mv_OperatorsExist mv [signer])) (\<lambda>exists.
       ensure exists ErrUnknownOperator)"

fun validateSigners :: "messageValidator \<Rightarrow> OperatorID \<Rightarrow> OperatorID list \<Rightarrow> (go_err, unit) res" where
  "validateSigners mv prevSigner [] = Ok ()"
| "validateSigners mv prevSigner (signer # rest) =
     bind_res (validateSignerNotZero signer) (\<lambda>_.
     bind_res (validateSignerUnique signer prevSigner) (\<lambda>_.
     bind_res (validateSignerIsKnown mv signer) (\<lambda>_. validateSigners mv signer rest)))"

definition validateSignedSSVMessage :: "messageValidator \<Rightarrow> SignedMsg option \<Rightarrow> (go_err, unit) res" where
  "validateSignedSSVMessage mv msm =
     (case msm of
        None \<Rightarrow> Err ErrNilSignedSSVMessage
      | Some sm \<Rightarrow>
          bind_res (ensure (w_OperatorIDs sm \<noteq> []) ErrNoSigners) (\<lambda>_.
          bind_res (ensure (w_Signatures sm \<noteq> []) ErrNoSignatures) (\<lambda>_.
          bind_res (each (\<lambda>signature. ensure (length signature = rsaSignatureSize) ErrWrongRSASignatureSize)
                      (w_Signatures sm)) (\<lambda>_.
          bind_res (ensure (sorted (w_OperatorIDs sm)) ErrSignersNotSorted) (\<lambda>_.
          bind_res (ensure (length (w_OperatorIDs sm) = length (w_Signatures sm))
                      ErrSignersAndSignaturesWithDifferentLength) (\<lambda>_.
          bind_res (validateSigners mv 0 (w_OperatorIDs sm)) (\<lambda>_.
            ensure (w_SSVMessage sm \<noteq> None) ErrNilSSVMessage)))))))"

definition validRoleUnion :: "RunnerRole \<Rightarrow> bool" where
  "validRoleUnion roleType \<longleftrightarrow>
     roleType \<in> {RoleCommittee, RoleProposer, RoleValidatorRegistration, RoleVoluntaryExit,
       RoleAggregatorCommittee, RoleAggregator, RoleSyncCommitteeContribution, RolePTCAttester,
       RoleProposerPreferences}"

definition validRoleAtSlot :: "messageValidator \<Rightarrow> RunnerRole \<Rightarrow> u64 \<Rightarrow> ('e, bool) res" where
  "validRoleAtSlot mv roleType slot =
     bind_res (BooleForkAtSlot (mv_netCfg mv) slot) (\<lambda>isInBooleFork.
     bind_res (IsGloasAtSlot (beacon mv) slot) (\<lambda>isInGloas.
       Ok (case roleType of
             RoleCommittee \<Rightarrow> True
           | RoleProposer \<Rightarrow> True
           | RoleVoluntaryExit \<Rightarrow> True
           | RoleValidatorRegistration \<Rightarrow> \<not> isInGloas
           | RoleAggregatorCommittee \<Rightarrow> isInBooleFork
           | RoleAggregator \<Rightarrow> \<not> isInBooleFork
           | RoleSyncCommitteeContribution \<Rightarrow> \<not> isInBooleFork
           | RolePTCAttester \<Rightarrow> isInGloas
           | RoleProposerPreferences \<Rightarrow> isInGloas
           | RoleUnknown \<Rightarrow> False)))"

definition validateSSVMessage :: "messageValidator \<Rightarrow> SSVMessage \<Rightarrow> (go_err, unit) res" where
  "validateSSVMessage mv m =
     bind_res (ensure (ssv_Data m \<noteq> []) ErrEmptyData) (\<lambda>_.
     bind_res (ensure (length (ssv_Data m) \<le> maxPayloadDataSize) ErrSSVDataTooBig) (\<lambda>_.
     bind_res (if ssv_MsgType m = SSVConsensusMsgType \<or> ssv_MsgType m = SSVPartialSignatureMsgType then Ok ()
               else if ssv_MsgType m = SSVEventMsgType then Err ErrEventMessage
               else Err ErrUnknownSSVMessageType) (\<lambda>_.
       ensure (validRoleUnion (roleOf mv m)) ErrInvalidRole)))"

definition belongsToCommittee :: "OperatorID list \<Rightarrow> OperatorID list \<Rightarrow> (go_err, unit) res" where
  "belongsToCommittee operatorIDs committee =
     each (\<lambda>signer. ensure (signer \<in> set committee) ErrSignerNotInCommittee) operatorIDs"

section \<open>Domain, topic and committee\<close>

definition validateDomainAllowlist :: "messageValidator \<Rightarrow> bytes \<Rightarrow> (go_err, unit) res" where
  "validateDomainAllowlist mv msgID =
     (let msgDomain = GetDomain (mv_spec mv) msgID
      in ensure (msgDomain = DomainType (nw_SSV (mv_netCfg mv)) \<or> msgDomain = NextDomainType (nw_SSV (mv_netCfg mv)))
           ErrWrongDomain)"

definition validateTopicAtSlot :: "messageValidator \<Rightarrow> CommitteeInfo \<Rightarrow> string \<Rightarrow> u64 \<Rightarrow> (go_err, unit) res" where
  "validateTopicAtSlot mv ci topic slot =
     bind_res (BooleForkAtSlot (mv_netCfg mv) slot) (\<lambda>boole.
       ensure ((if boole then BooleTopic (ssv_Name (nw_SSV (mv_netCfg mv))) (ci_subnet ci)
                else GetTopicFullName (SubnetTopicID (ci_subnetAlan ci))) = topic) ErrIncorrectTopic)"

definition validateDomainAtSlot :: "messageValidator \<Rightarrow> bytes \<Rightarrow> u64 \<Rightarrow> (go_err, unit) res" where
  "validateDomainAtSlot mv msgID slot =
     bind_res (DomainTypeAtSlot (mv_netCfg mv) slot) (\<lambda>expectedDomain.
       ensure (GetDomain (mv_spec mv) msgID = expectedDomain) ErrWrongDomain)"

definition getCommitteeAndValidatorIndices :: "messageValidator \<Rightarrow> venv \<Rightarrow> bytes \<Rightarrow> (go_err, CommitteeInfo) res" where
  "getCommitteeAndValidatorIndices mv E msgID =
     (if committeeRole (GetRoleType (mv_spec mv) msgID)
      then let committeeID = drop 16 (GetDutyExecutorID (mv_spec mv) msgID)
           in case mv_Committee mv committeeID of
                None \<Rightarrow> Err ErrNonExistentCommitteeID
              | Some committee \<Rightarrow>
                  if c_Indices committee = [] then Err ErrNoValidators
                  else Ok (newCommitteeInfo committeeID (c_Operators committee) (c_Indices committee)
                             (fst (committeeBooleSubnet (mv_sha mv) committee)) (fst (committeeAlanSubnet committee)))
      else case mv_Validator mv (GetDutyExecutorID (mv_spec mv) msgID) of
             None \<Rightarrow> Err ErrUnknownValidator
           | Some share \<Rightarrow>
               if sh_Liquidated share then Err ErrValidatorLiquidated
               else if \<not> HasBeaconMetadata (Some share) then Err ErrNoShareMetadata
               else bind_res (EstimatedCurrentEpoch (beacon mv) (v_now E)) (\<lambda>epoch.
                      if \<not> IsAttesting (mv_stateAPI mv) share epoch then Err ErrValidatorNotAttesting
                      else Ok (newCommitteeInfo (cid (mv_sha mv) share) (map Signer (sh_Committee share))
                                 [sh_ValidatorIndex share] (fst (shareBooleSubnet (mv_sha mv) share))
                                 (fst (shareAlanSubnet (mv_sha mv) share)))))"

section \<open>Consensus messages\<close>

definition validConsensusMsgType :: "MessageType \<Rightarrow> bool" where
  "validConsensusMsgType msgType \<longleftrightarrow>
     (case msgType of ProposalMsgType \<Rightarrow> True | PrepareMsgType \<Rightarrow> True | CommitMsgType \<Rightarrow> True
      | RoundChangeMsgType \<Rightarrow> True | OtherMsgType _ \<Rightarrow> False)"

definition maxRound :: "RunnerRole \<Rightarrow> (go_err, Round) res" where
  "maxRound role = (case MaxRound role of None \<Rightarrow> Err (PlainErr ''unknown role'') | Some r \<Rightarrow> Ok r)"

definition validateJustifications :: "messageValidator \<Rightarrow> Message \<Rightarrow> (go_err, unit) res" where
  "validateJustifications mv message =
     bind_res (of_sum (set_inner ErrMalformedPrepareJustifications) (PrepareJustificationsOf (mv_spec mv) message)) (\<lambda>pj.
     bind_res (ensure (pj = [] \<or> m_MsgType message = ProposalMsgType) ErrUnexpectedPrepareJustifications) (\<lambda>_.
     bind_res (of_sum (set_inner ErrMalformedRoundChangeJustifications)
                 (RoundChangeJustificationsOf (mv_spec mv) message)) (\<lambda>rcj.
       ensure (rcj = [] \<or> m_MsgType message = ProposalMsgType \<or> m_MsgType message = RoundChangeMsgType)
         ErrUnexpectedRoundChangeJustifications)))"

definition validateConsensusMessageSemantics ::
    "'c specqbft \<Rightarrow> messageValidator \<Rightarrow> SignedMsg \<Rightarrow> SSVMessage \<Rightarrow> Message \<Rightarrow> OperatorID list \<Rightarrow> (go_err, unit) res" where
  "validateConsensusMessageSemantics S mv sm ssvMessage msg committee =
     (let signers = w_OperatorIDs sm;
          quorumSize = fst (ComputeQuorumAndPartialQuorum (len_u64 committee));
          msgType = m_MsgType msg; role = roleOf mv ssvMessage
      in bind_res (validRoleAtSlot mv role (m_Height msg)) (\<lambda>valid.
         bind_res (ensure valid ErrInvalidRole) (\<lambda>_.
         bind_res (if length signers > 1
                   then bind_res (ensure (msgType = CommitMsgType) ErrNonDecidedWithMultipleSigners) (\<lambda>_.
                          ensure (quorumSize \<le> len_u64 signers) ErrDecidedNotEnoughSigners)
                   else Ok ()) (\<lambda>_.
         bind_res (if w_FullData sm \<noteq> []
                   then if msgType = PrepareMsgType \<or> msgType = CommitMsgType \<and> length signers = 1
                        then Err ErrPrepareOrCommitWithFullData
                        else bind_res (of_sum (set_inner ErrFullDataHash) (SpecHashDataRoot (mv_spec mv) (w_FullData sm)))
                               (\<lambda>hashedFullData. ensure (hashedFullData = m_Root msg) ErrInvalidHash)
                   else Ok ()) (\<lambda>_.
         bind_res (ensure (validConsensusMsgType msgType) ErrUnknownQBFTMessageType) (\<lambda>_.
         bind_res (ensure (m_Round msg \<noteq> NoRound S) ErrZeroRound) (\<lambda>_.
         bind_res (ensure (role \<notin> {RoleValidatorRegistration, RoleVoluntaryExit, RolePTCAttester, RoleProposerPreferences})
                     ErrUnexpectedConsensusMessage) (\<lambda>_.
         bind_res (map_err (WrapErr ''failed to get max round'') (maxRound role)) (\<lambda>maxRound.
         bind_res (ensure (m_Round msg \<le> maxRound) ErrRoundTooHigh) (\<lambda>_.
         bind_res (ensure (m_Identifier msg = ssv_MsgID ssvMessage) ErrMismatchedIdentifier) (\<lambda>_.
           validateJustifications mv msg)))))))))))"

text \<open>The same peer repeating itself is rejected, a repetition through another peer is ignored.\<close>

definition repeated :: "(SeenMsgTypes \<Rightarrow> bool) \<Rightarrow> go_err \<Rightarrow> SignerState \<Rightarrow> SignerState \<Rightarrow> (go_err, unit) res" where
  "repeated reached err peerState world =
     (if reached (SeenTypes peerState) then Err (set_reject err)
      else if reached (SeenTypes world) then Err err else Ok ())"

definition validateConsensusMessageLimit ::
    "OperatorID list \<Rightarrow> Message \<Rightarrow> string \<Rightarrow> SignerStateForSlotRound \<Rightarrow> (go_err, unit) res" where
  "validateConsensusMessageLimit operatorIDs msg receivedFrom signerState =
     (let peerState = peekPeer signerState receivedFrom; world = sg_World signerState
      in case m_MsgType msg of
           ProposalMsgType \<Rightarrow> repeated reachedProposalLimit ErrDuplicatedMessage peerState world
         | PrepareMsgType \<Rightarrow> repeated reachedPrepareLimit ErrDuplicatedMessage peerState world
         | CommitMsgType \<Rightarrow>
             if length operatorIDs = 1 then repeated reachedCommitLimit ErrDuplicatedMessage peerState world else Ok ()
         | RoundChangeMsgType \<Rightarrow> repeated reachedRoundChangeLimit ErrDuplicatedMessage peerState world
         | OtherMsgType _ \<Rightarrow> Err (PlainErr ''unexpected signed message type''))"

definition validateSignerQBFT ::
    "SignedMsg \<Rightarrow> Message \<Rightarrow> string \<Rightarrow> SignerStateForSlotRound \<Rightarrow> (go_err, unit) res" where
  "validateSignerQBFT sm msg receivedFrom signerState =
     (if length (w_OperatorIDs sm) = 1
      then if m_Round msg < sg_Round signerState then Err ErrRoundAlreadyAdvanced
           else if m_Round msg = sg_Round signerState
           then bind_res
                  (if w_FullData sm \<noteq> []
                   then (case HashedProposalData (peekPeer signerState receivedFrom) of
                           Some hashed \<Rightarrow> if hashed \<noteq> m_Root msg then Err (set_reject ErrDifferentProposalData) else Ok ()
                         | None \<Rightarrow> Ok ())
                   else Ok ()) (\<lambda>_.
                bind_res
                  (if w_FullData sm \<noteq> []
                   then (case HashedProposalData (sg_World signerState) of
                           Some hashed \<Rightarrow> if hashed \<noteq> m_Root msg then Err ErrDifferentProposalData else Ok ()
                         | None \<Rightarrow> Ok ())
                   else Ok ()) (\<lambda>_.
                  validateConsensusMessageLimit (w_OperatorIDs sm) msg receivedFrom signerState))
           else Ok ()
      else if length (w_OperatorIDs sm) > 1
      then ensure (length (w_OperatorIDs sm) > SeenDecidedMsgSignersCount (sg_World signerState))
             ErrDecidedMessageWithTooFewSigners
      else Ok ())"

text \<open>Reading the first signer panics when there is none.\<close>

definition firstSigner :: "SignedMsg \<Rightarrow> ('e, OperatorID) res" where
  "firstSigner sm = (case w_OperatorIDs sm of [] \<Rightarrow> Panic | signer # _ \<Rightarrow> Ok signer)"

definition validateQBFTLogic ::
    "'c specqbft \<Rightarrow> messageValidator \<Rightarrow> venv \<Rightarrow> SignedMsg \<Rightarrow> Message \<Rightarrow> CommitteeInfo \<Rightarrow> ValState \<Rightarrow> (go_err, unit) res" where
  "validateQBFTLogic S mv E sm msg ci state =
     bind_res
       (if m_MsgType msg = ProposalMsgType
        then bind_res (Proposer S (m_Height msg) (m_Round msg) (ci_committee ci) (mv_netCfg mv)) (\<lambda>leader.
             bind_res (firstSigner sm) (\<lambda>signer. ensure (signer = leader) ErrSignerNotLeader))
        else Ok ()) (\<lambda>_.
       each (\<lambda>signer.
         bind_res (peekOperatorState state (signerIndex ci signer)) (\<lambda>mos.
         bind_res (GetSignerStateForSlot mos (m_Height msg)) (\<lambda>signerState.
           case signerState of
             None \<Rightarrow> Ok ()
           | Some s \<Rightarrow> validateSignerQBFT sm msg (v_receivedFrom E) s))) (w_OperatorIDs sm))"

definition roundBelongsToAllowedSpread ::
    "'c specqbft \<Rightarrow> messageValidator \<Rightarrow> venv \<Rightarrow> RunnerRole \<Rightarrow> Message \<Rightarrow> (go_err, unit) res" where
  "roundBelongsToAllowedSpread S mv E role msg =
     (if RoundRelativeRole role then Ok ()
      else bind_res (SlotStartTime (beacon mv) (m_Height msg)) (\<lambda>slotStartTime.
           bind_res (IntervalDuration (beacon mv) (m_Height msg)) (\<lambda>interval.
           bind_res (EstimatedRoundAt (FirstRound S) role interval (time_sub (v_receivedAt E) slotStartTime)) (\<lambda>estimated.
             let lowestAllowedRound = (if estimated > allowedRoundsInPast then estimated - allowedRoundsInPast
                                       else FirstRound S);
                 highestAllowedRound = estimated + allowedRoundsInFuture
             in ensure (lowestAllowedRound \<le> m_Round msg \<and> m_Round msg \<le> highestAllowedRound)
                  ErrEstimatedRoundNotInAllowedSpread))))"

definition validateQBFTMessageByDutyLogic ::
    "'c specqbft \<Rightarrow> messageValidator \<Rightarrow> venv \<Rightarrow> SignedMsg \<Rightarrow> SSVMessage \<Rightarrow> Message \<Rightarrow> CommitteeInfo \<Rightarrow> ValState
       \<Rightarrow> (go_err, unit) res" where
  "validateQBFTMessageByDutyLogic S mv E sm ssvMessage msg ci state =
     (let role = roleOf mv ssvMessage; msgSlot = m_Height msg
      in bind_res
           (if \<not> committeeRole role
            then each (\<lambda>signer.
                   bind_res (peekOperatorState state (signerIndex ci signer)) (\<lambda>mos.
                     ensure (MaxSlot mos \<le> m_Height msg) ErrSlotAlreadyAdvanced)) (w_OperatorIDs sm)
            else Ok ()) (\<lambda>_.
         bind_res (validateBeaconDuty mv E role msgSlot (ci_validatorIndices ci) False) (\<lambda>_.
         bind_res (validateSlotTime mv msgSlot role (v_receivedAt E)) (\<lambda>_.
         bind_res (if length (w_OperatorIDs sm) = 1 then roundBelongsToAllowedSpread S mv E role msg else Ok ()) (\<lambda>_.
           each (\<lambda>signer.
             bind_res (peekOperatorState state (signerIndex ci signer)) (\<lambda>mos.
               validateDutyCount mv (ssv_MsgID ssvMessage) msgSlot (ci_validatorIndices ci) mos)) (w_OperatorIDs sm))))))"

text \<open>The recording methods keep what they changed before an error.\<close>

definition processSignerState ::
    "SignedMsg \<Rightarrow> Message \<Rightarrow> string \<Rightarrow> SignerStateForSlotRound \<Rightarrow> (go_err, unit) res \<times> SignerStateForSlotRound" where
  "processSignerState sm msg receivedFrom s =
     (let s = (if w_FullData sm \<noteq> [] \<and> m_MsgType msg = ProposalMsgType
               then (upd_Peer receivedFrom (\<lambda>p. p\<lparr>HashedProposalData := Some (m_Root msg)\<rparr>) s)
                      \<lparr>sg_World := (sg_World s)\<lparr>HashedProposalData := Some (m_Root msg)\<rparr>\<rparr>
               else s);
          signerCount = length (w_OperatorIDs sm);
          s = (if signerCount > 1
               then (upd_Peer receivedFrom (\<lambda>p. p\<lparr>SeenDecidedMsgSignersCount := signerCount\<rparr>) s)
                      \<lparr>sg_World := (sg_World s)\<lparr>SeenDecidedMsgSignersCount := signerCount\<rparr>\<rparr>
               else s);
          s = upd_Peer receivedFrom (\<lambda>p. p) s
      in case RecordConsensusMessage (w_OperatorIDs sm) msg (SeenTypes (peekPeer s receivedFrom)) of
           Ok seen \<Rightarrow>
             let s = upd_Peer receivedFrom (\<lambda>p. p\<lparr>SeenTypes := seen\<rparr>) s
             in (case RecordConsensusMessage (w_OperatorIDs sm) msg (SeenTypes (sg_World s)) of
                   Ok seen \<Rightarrow> (Ok (), s\<lparr>sg_World := (sg_World s)\<lparr>SeenTypes := seen\<rparr>\<rparr>)
                 | Err e \<Rightarrow> (Err e, s)
                 | Panic \<Rightarrow> (Panic, s))
         | Err e \<Rightarrow> (Err e, s)
         | Panic \<Rightarrow> (Panic, s))"

definition updateSignerConsensus ::
    "venv \<Rightarrow> SignedMsg \<Rightarrow> Message \<Rightarrow> u64 \<Rightarrow> CommitteeInfo \<Rightarrow> OperatorID \<Rightarrow> ValState
       \<Rightarrow> (go_err, unit) res \<times> ValState" where
  "updateSignerConsensus E sm msg msgEpoch ci signer cs =
     (let idx = signerIndex ci signer; msgSlot = m_Height msg
      in case bind_res (operatorStateOf cs idx) (\<lambda>(os, cs).
              bind_res (GetSignerStateForSlot (Some os) msgSlot) (\<lambda>mss.
              bind_res (case mss of
                          None \<Rightarrow> let s = newSignerState msgSlot (m_Round msg)
                                  in bind_res (SetSignerStateForSlot msgSlot msgEpoch s os) (\<lambda>os. Ok (s, os))
                        | Some s \<Rightarrow> Ok (if m_Round msg > sg_Round s then Reset msgSlot (m_Round msg) s else s, os))
                (\<lambda>(s, os).
                   let (r, s) = processSignerState sm msg (v_receivedFrom E) s
                   in bind_res (writeSignerState msgSlot s os) (\<lambda>os.
                        Ok (r, cs\<lparr>va_operators := (va_operators cs)[idx := Some os]\<rparr>))))) of
           Ok (r, cs') \<Rightarrow> (r, cs')
         | Err e \<Rightarrow> (Err e, cs)
         | Panic \<Rightarrow> (Panic, cs))"

fun updateSignersConsensus ::
    "venv \<Rightarrow> SignedMsg \<Rightarrow> Message \<Rightarrow> u64 \<Rightarrow> CommitteeInfo \<Rightarrow> OperatorID list \<Rightarrow> ValState
       \<Rightarrow> (go_err, unit) res \<times> ValState" where
  "updateSignersConsensus E sm msg msgEpoch ci [] cs = (Ok (), cs)"
| "updateSignersConsensus E sm msg msgEpoch ci (signer # rest) cs =
     bind_st (updateSignerConsensus E sm msg msgEpoch ci signer cs)
       (\<lambda>_. updateSignersConsensus E sm msg msgEpoch ci rest)"

definition updateConsensusState ::
    "messageValidator \<Rightarrow> venv \<Rightarrow> SignedMsg \<Rightarrow> Message \<Rightarrow> CommitteeInfo \<Rightarrow> ValState
       \<Rightarrow> (go_err, unit) res \<times> ValState" where
  "updateConsensusState mv E sm msg ci cs =
     bind_st (EstimatedEpochAtSlot (beacon mv) (m_Height msg), cs)
       (\<lambda>msgEpoch. updateSignersConsensus E sm msg msgEpoch ci (w_OperatorIDs sm))"

text \<open>The signatures are checked one by one, asking the context before each.\<close>

fun verifySignatures ::
    "messageValidator \<Rightarrow> venv \<Rightarrow> SSVMessage \<Rightarrow> nat \<Rightarrow> OperatorID list \<Rightarrow> bytes list \<Rightarrow> (go_err, unit) res" where
  "verifySignatures mv E ssvMessage i ids [] = Ok ()"
| "verifySignatures mv E ssvMessage i [] (signature # signatures) = Panic"
| "verifySignatures mv E ssvMessage i (operatorID # ids) (signature # signatures) =
     bind_res (ctx_Err E (AtSignature i)) (\<lambda>_.
     bind_res (case mv_VerifySignature mv operatorID ssvMessage signature of
                 None \<Rightarrow> Ok ()
               | Some e \<Rightarrow> Err (set_inner ErrSignatureVerification (WrapErr ''verify opid signature'' e))) (\<lambda>_.
       verifySignatures mv E ssvMessage (Suc i) ids signatures))"

definition validateConsensusMessage ::
    "'c specqbft \<Rightarrow> messageValidator \<Rightarrow> venv \<Rightarrow> SignedMsg \<Rightarrow> SSVMessage \<Rightarrow> CommitteeInfo \<Rightarrow> states
       \<Rightarrow> (go_err, Message) res \<times> states" where
  "validateConsensusMessage S mv E sm ssvMessage ci st =
     bind_st
       (bind_res (ensure (length (ssv_Data ssvMessage) \<le> maxEncodedConsensusMsgSize) ErrSSVDataTooBig) (\<lambda>_.
        bind_res (of_sum (set_inner ErrUndecodableMessageData) (DecodeMessage (mv_spec mv) (ssv_Data ssvMessage))) (\<lambda>msg.
        bind_res (validateTopicAtSlot mv ci (v_topic E) (m_Height msg)) (\<lambda>_.
        bind_res (validateDomainAtSlot mv (ssv_MsgID ssvMessage) (m_Height msg)) (\<lambda>_.
        bind_res (validateConsensusMessageSemantics S mv sm ssvMessage msg (ci_committee ci)) (\<lambda>_.
          Ok msg))))), st)
       (\<lambda>msg st.
          let (state, st) = validatorState mv (ssv_MsgID ssvMessage) ci st
          in bind_st
               (bind_res (validateQBFTLogic S mv E sm msg ci state) (\<lambda>_.
                bind_res (validateQBFTMessageByDutyLogic S mv E sm ssvMessage msg ci state) (\<lambda>_.
                bind_res (ctx_Err E AtVerify) (\<lambda>_.
                  verifySignatures mv E ssvMessage 0 (w_OperatorIDs sm) (w_Signatures sm)))), st)
               (\<lambda>_ st.
                  let (r, state) = updateConsensusState mv E sm msg ci state
                  in (bind_res r (\<lambda>_. Ok msg), st(ssv_MsgID ssvMessage \<mapsto> state))))"

section \<open>Partial signatures\<close>

definition validPartialSigMsgType :: "PartialSigMsgType \<Rightarrow> bool" where
  "validPartialSigMsgType msgType \<longleftrightarrow> (case msgType of OtherPartialSig _ \<Rightarrow> False | _ \<Rightarrow> True)"

definition partialSignatureTypeMatchesRole :: "PartialSigMsgType \<Rightarrow> RunnerRole \<Rightarrow> bool" where
  "partialSignatureTypeMatchesRole msgType role \<longleftrightarrow>
     (case role of
        RoleCommittee \<Rightarrow> msgType = PostConsensusPartialSig
      | RoleAggregator \<Rightarrow> msgType = PostConsensusPartialSig \<or> msgType = SelectionProofPartialSig
      | RoleProposer \<Rightarrow> msgType = PostConsensusPartialSig \<or> msgType = RandaoPartialSig
      | RoleSyncCommitteeContribution \<Rightarrow> msgType = PostConsensusPartialSig \<or> msgType = ContributionProofs
      | RoleValidatorRegistration \<Rightarrow> msgType = ValidatorRegistrationPartialSig
      | RoleVoluntaryExit \<Rightarrow> msgType = VoluntaryExitPartialSig
      | RoleAggregatorCommittee \<Rightarrow> msgType = AggregatorCommitteePartialSig \<or> msgType = PostConsensusPartialSig
      | RolePTCAttester \<Rightarrow> msgType = PTCAttesterPartialSig
      | RoleProposerPreferences \<Rightarrow> msgType = ProposerPreferencesPartialSig \<or> msgType = RequestAuthPartialSig
      | RoleUnknown \<Rightarrow> False)"

definition maxValidatorRoleSignatures :: "messageValidator \<Rightarrow> RunnerRole \<Rightarrow> PartialSigMsgType \<Rightarrow> u64 \<Rightarrow> ('e, nat) res" where
  "maxValidatorRoleSignatures mv role msgType slot =
     bind_res (if role = RoleProposer \<and> msgType = PostConsensusPartialSig then IsGloasAtSlot (beacon mv) slot
               else Ok False) (\<lambda>two.
       Ok (if two then 2
           else if role = RoleProposerPreferences \<and> msgType = RequestAuthPartialSig then maxRequestAuthEntries
           else 1))"

definition validatePartialSignatureMessageSemantics ::
    "messageValidator \<Rightarrow> SignedMsg \<Rightarrow> SSVMessage \<Rightarrow> PartialSignatureMessages \<Rightarrow> u64 list \<Rightarrow> (go_err, unit) res" where
  "validatePartialSignatureMessageSemantics mv sm ssvMessage psm validatorIndices =
     (let role = roleOf mv ssvMessage; slot = ps_Slot psm
      in bind_res (validRoleAtSlot mv role slot) (\<lambda>valid.
         bind_res (ensure valid ErrInvalidRole) (\<lambda>_.
         bind_res (ensure (length (w_OperatorIDs sm) = 1) ErrPartialSigMessageMustHaveOneSigner) (\<lambda>_.
         bind_res (firstSigner sm) (\<lambda>signer.
         bind_res (ensure (w_FullData sm = []) ErrFullDataNotInConsensusMessage) (\<lambda>_.
         bind_res (ensure (validPartialSigMsgType (ps_Type psm)) ErrInvalidPartialSignatureType) (\<lambda>_.
         bind_res (ensure (partialSignatureTypeMatchesRole (ps_Type psm) role) ErrPartialSignatureTypeRoleMismatch) (\<lambda>_.
         bind_res (ensure (ps_Messages psm \<noteq> []) ErrNoMessagesInPartialSigMessage) (\<lambda>_.
         bind_res (if \<not> committeeRole role \<and> role \<noteq> RoleSyncCommitteeContribution
                   then bind_res (maxValidatorRoleSignatures mv role (ps_Type psm) slot) (\<lambda>limit.
                          ensure (length (ps_Messages psm) \<le> limit) ErrTooManySignaturesInPartialSigMessage)
                   else Ok ()) (\<lambda>_.
           let firstValidatorIndex = psm_ValidatorIndex (hd (ps_Messages psm))
           in each (\<lambda>message.
                bind_res (ensure (psm_Signer message = signer) ErrInconsistentSigners) (\<lambda>_.
                  if \<not> committeeRole role
                  then bind_res (ensure (psm_ValidatorIndex message = firstValidatorIndex) ErrInconsistentValidatorIndex) (\<lambda>_.
                         ensure (psm_ValidatorIndex message \<in> set validatorIndices) ErrValidatorIndexMismatch)
                  else Ok ())) (ps_Messages psm)))))))))))"

definition validateDistinctRootBudget ::
    "PartialSignatureMessages \<Rightarrow> SignerStateForSlotRound \<Rightarrow> nat \<Rightarrow> (go_err, unit) res" where
  "validateDistinctRootBudget m signerState budget =
     bind_res (deref (seenRootsFor signerState (ps_Type m))) (\<lambda>seen.
       let fresh = remdups (filter (\<lambda>r. \<not> has_root seen r) (map psm_SigningRoot (ps_Messages m)))
       in bind_res (ensure (fresh \<noteq> []) ErrTooManyPartialSigMessage) (\<lambda>_.
            ensure (length seen + length fresh \<le> budget) ErrTooManyPartialSigMessage))"

definition validatePartialSignatureMessageLimit ::
    "PartialSignatureMessages \<Rightarrow> string \<Rightarrow> SignerStateForSlotRound \<Rightarrow> (go_err, unit) res" where
  "validatePartialSignatureMessageLimit m receivedFrom signerState =
     (let peerState = peekPeer signerState receivedFrom; world = sg_World signerState
      in if ps_Type m \<in> {RandaoPartialSig, SelectionProofPartialSig, ContributionProofs,
                          ValidatorRegistrationPartialSig, VoluntaryExitPartialSig,
                          AggregatorCommitteePartialSig, PTCAttesterPartialSig}
         then repeated reachedPreConsensusLimit ErrTooManyPartialSigMessage peerState world
         else if ps_Type m = ProposerPreferencesPartialSig
         then validateDistinctRootBudget m signerState maxProposerPreferencesDistinctRoots
         else if ps_Type m = RequestAuthPartialSig
         then validateDistinctRootBudget m signerState maxRequestAuthDistinctRoots
         else if ps_Type m = PostConsensusPartialSig
         then repeated reachedPostConsensusLimit ErrTooManyPartialSigMessage peerState world
         else Err (PlainErr ''unexpected partial signature message type''))"

definition registrationsRetired :: "messageValidator \<Rightarrow> int \<Rightarrow> ('e, bool) res" where
  "registrationsRetired mv receivedAt =
     bind_res (EstimatedSlotAtTime (beacon mv) receivedAt) (\<lambda>slot.
     bind_res (EstimatedEpochAtSlot (beacon mv) slot) (\<lambda>epoch.
       Ok (epoch > 0 \<and> IsGloas (beacon mv) (epoch - 1))))"

text \<open>The loop that counts the entries of every validator index.\<close>

fun validatorIndexCount_loop :: "nat \<Rightarrow> (u64 \<Rightarrow> nat) \<Rightarrow> PartialSignatureMessage list \<Rightarrow> (go_err, unit) res" where
  "validatorIndexCount_loop maxDuties cnt [] = Ok ()"
| "validatorIndexCount_loop maxDuties cnt (m # ms) =
     (let cnt' = cnt(psm_ValidatorIndex m := cnt (psm_ValidatorIndex m) + 1)
      in if cnt' (psm_ValidatorIndex m) > maxDuties then Err ErrTooManyEqualValidatorIndicesInPartialSignatures
         else validatorIndexCount_loop maxDuties cnt' ms)"

definition validatePartialSigMessagesByDutyLogic ::
    "messageValidator \<Rightarrow> venv \<Rightarrow> SignedMsg \<Rightarrow> SSVMessage \<Rightarrow> PartialSignatureMessages \<Rightarrow> CommitteeInfo \<Rightarrow> ValState
       \<Rightarrow> (go_err, unit) res" where
  "validatePartialSigMessagesByDutyLogic mv E sm ssvMessage psm ci state =
     (let role = roleOf mv ssvMessage; messageSlot = ps_Slot psm
      in bind_res (firstSigner sm) (\<lambda>signer.
         bind_res (if role = RoleValidatorRegistration
                   then bind_res (registrationsRetired mv (v_receivedAt E)) (\<lambda>retired.
                          ensure (\<not> retired) ErrValidatorRegistrationRetired)
                   else Ok ()) (\<lambda>_.
         bind_res (peekOperatorState state (signerIndex ci signer)) (\<lambda>operatorState.
         bind_res (if monotonicSlotRole role
                   then ensure (\<not> (MaxSlot operatorState \<noteq> 0 \<and> MaxSlot operatorState > messageSlot)) ErrSlotAlreadyAdvanced
                   else Ok ()) (\<lambda>_.
         bind_res (validateBeaconDuty mv E role messageSlot (ci_validatorIndices ci) (ps_Type psm = RandaoPartialSig)) (\<lambda>_.
         bind_res (GetSignerStateForSlot operatorState messageSlot) (\<lambda>mss.
         bind_res (case mss of
                     None \<Rightarrow> Ok ()
                   | Some s \<Rightarrow> validatePartialSignatureMessageLimit psm (v_receivedFrom E) s) (\<lambda>_.
         bind_res (validateSlotTime mv messageSlot role (v_receivedAt E)) (\<lambda>_.
         bind_res (validateDutyCount mv (ssv_MsgID ssvMessage) messageSlot (ci_validatorIndices ci) operatorState) (\<lambda>_.
           let clusterValidatorCount = length (ci_validatorIndices ci);
               count = length (ps_Messages psm)
           in if committeeRole role
              then let scSubnets = (if role = RoleAggregatorCommittee then 4 else 1);
                       maxDutiesForRole = scSubnets + 1;
                       messageLimit = min (int (maxDutiesForRole * clusterValidatorCount))
                         (i64 (int clusterValidatorCount
                            + i64 (int scSubnets * i64_of_u64 (SyncCommitteeSize (beacon mv)))))
                   in bind_res (ensure (int count \<le> messageLimit) ErrTooManySignaturesInPartialSigMessage) (\<lambda>_.
                        validatorIndexCount_loop maxDutiesForRole (\<lambda>_. 0) (ps_Messages psm))
              else if role = RoleSyncCommitteeContribution
              then ensure (count \<le> maxSignatures) ErrTooManySignaturesInPartialSigMessage
              else Ok ())))))))))) "

definition recordPartialSignature ::
    "PartialSignatureMessages \<Rightarrow> string \<Rightarrow> SignerStateForSlotRound \<Rightarrow> (go_err, unit) res \<times> SignerStateForSlotRound" where
  "recordPartialSignature psm receivedFrom s =
     (let s = upd_Peer receivedFrom (\<lambda>p. p) s
      in case RecordPartialSignatureMessage psm (SeenTypes (peekPeer s receivedFrom)) of
           Ok seen \<Rightarrow>
             let s = upd_Peer receivedFrom (\<lambda>p. p\<lparr>SeenTypes := seen\<rparr>) s
             in (case RecordPartialSignatureMessage psm (SeenTypes (sg_World s)) of
                   Ok seen \<Rightarrow> (Ok (), recordRoots psm (s\<lparr>sg_World := (sg_World s)\<lparr>SeenTypes := seen\<rparr>\<rparr>))
                 | Err e \<Rightarrow> (Err e, s)
                 | Panic \<Rightarrow> (Panic, s))
         | Err e \<Rightarrow> (Err e, s)
         | Panic \<Rightarrow> (Panic, s))"

definition updatePartialSignatureState ::
    "'c specqbft \<Rightarrow> messageValidator \<Rightarrow> venv \<Rightarrow> PartialSignatureMessages \<Rightarrow> CommitteeInfo \<Rightarrow> OperatorID \<Rightarrow> ValState
       \<Rightarrow> (go_err, unit) res \<times> ValState" where
  "updatePartialSignatureState S mv E psm ci signer cs =
     bind_st (EstimatedEpochAtSlot (beacon mv) (ps_Slot psm), cs) (\<lambda>messageEpoch cs.
       let idx = signerIndex ci signer; messageSlot = ps_Slot psm
       in case bind_res (operatorStateOf cs idx) (\<lambda>(os, cs).
               bind_res (GetSignerStateForSlot (Some os) messageSlot) (\<lambda>mss.
               bind_res (case mss of
                           None \<Rightarrow> let s = newSignerState messageSlot (FirstRound S)
                                   in bind_res (SetSignerStateForSlot messageSlot messageEpoch s os) (\<lambda>os. Ok (s, os))
                         | Some s \<Rightarrow> Ok (s, os))
                 (\<lambda>(s, os).
                    let (r, s) = recordPartialSignature psm (v_receivedFrom E) s
                    in bind_res (writeSignerState messageSlot s os) (\<lambda>os.
                         Ok (r, cs\<lparr>va_operators := (va_operators cs)[idx := Some os]\<rparr>))))) of
            Ok (r, cs') \<Rightarrow> (r, cs')
          | Err e \<Rightarrow> (Err e, cs)
          | Panic \<Rightarrow> (Panic, cs))"

definition validatePartialSignatureMessage ::
    "'c specqbft \<Rightarrow> messageValidator \<Rightarrow> venv \<Rightarrow> SignedMsg \<Rightarrow> SSVMessage \<Rightarrow> CommitteeInfo \<Rightarrow> states
       \<Rightarrow> (go_err, PartialSignatureMessages) res \<times> states" where
  "validatePartialSignatureMessage S mv E sm ssvMessage ci st =
     bind_st
       (bind_res (ensure (length (ssv_Data ssvMessage) \<le> maxEncodedPartialSignatureSize) ErrSSVDataTooBig) (\<lambda>_.
        bind_res (of_sum (set_inner ErrUndecodableMessageData) (DecodePartialSigs (mv_spec mv) (ssv_Data ssvMessage))) (\<lambda>psm.
        bind_res (validateTopicAtSlot mv ci (v_topic E) (ps_Slot psm)) (\<lambda>_.
        bind_res (validateDomainAtSlot mv (ssv_MsgID ssvMessage) (ps_Slot psm)) (\<lambda>_.
        bind_res (validatePartialSignatureMessageSemantics mv sm ssvMessage psm (ci_validatorIndices ci)) (\<lambda>_.
          Ok psm))))), st)
       (\<lambda>psm st.
          let (state, st) = validatorState mv (ssv_MsgID ssvMessage) ci st
          in bind_st
               (bind_res (validatePartialSigMessagesByDutyLogic mv E sm ssvMessage psm ci state) (\<lambda>_.
                bind_res (ctx_Err E AtVerify) (\<lambda>_.
                bind_res (firstSigner sm) (\<lambda>signer.
                bind_res (case w_Signatures sm of [] \<Rightarrow> Panic | signature # _ \<Rightarrow> Ok signature) (\<lambda>signature.
                  case mv_VerifySignature mv signer ssvMessage signature of
                    None \<Rightarrow> Ok signer
                  | Some e \<Rightarrow> Err (set_inner ErrSignatureVerification (WrapErr ''verify opid signature'' e)))))), st)
               (\<lambda>signer st.
                  let (r, state) = updatePartialSignatureState S mv E psm ci signer state
                  in (bind_res r (\<lambda>_. Ok psm), st(ssv_MsgID ssvMessage \<mapsto> state))))"

section \<open>Entry points\<close>

definition validatePubSubMessage :: "bytes \<Rightarrow> (go_err, unit) res" where
  "validatePubSubMessage data =
     bind_res (ensure (data \<noteq> []) ErrPubSubMessageHasNoData) (\<lambda>_.
       ensure (length data \<le> MaxEncodedMsgSize) ErrPubSubDataTooBig)"

definition decodeSignedSSVMessage :: "messageValidator \<Rightarrow> bytes \<Rightarrow> (go_err, SignedMsg) res" where
  "decodeSignedSSVMessage mv data =
     of_sum (set_inner ErrMalformedPubSubMessage) (DecodeSigned (mv_spec mv) data)"

definition handleSignedSSVMessage ::
    "'c specqbft \<Rightarrow> messageValidator \<Rightarrow> venv \<Rightarrow> SignedMsg \<Rightarrow> states \<Rightarrow> (go_err, DecodedMsg) res \<times> states" where
  "handleSignedSSVMessage S mv E sm st =
     bind_st
       (bind_res (ctx_Err E AtSigned) (\<lambda>_.
        bind_res (validateSignedSSVMessage mv (Some sm)) (\<lambda>_.
        bind_res (deref (w_SSVMessage sm)) (\<lambda>ssvMessage.
        bind_res (validateSSVMessage mv ssvMessage) (\<lambda>_.
        bind_res (validateDomainAllowlist mv (ssv_MsgID ssvMessage)) (\<lambda>_.
        bind_res (getCommitteeAndValidatorIndices mv E (ssv_MsgID ssvMessage)) (\<lambda>ci.
        bind_res (belongsToCommittee (w_OperatorIDs sm) (ci_committee ci)) (\<lambda>_.
        bind_res (ctx_Err E AtLock) (\<lambda>_. Ok (ssvMessage, ci))))))))), st)
       (\<lambda>(ssvMessage, ci) st.
          if ssv_MsgType ssvMessage = SSVConsensusMsgType
          then bind_st (validateConsensusMessage S mv E sm ssvMessage ci st) (\<lambda>msg st.
                 (Ok \<lparr>dm_Signed = Some sm, dm_SSVMessage = Some ssvMessage, dm_Body = Some (ConsensusBody msg)\<rparr>, st))
          else if ssv_MsgType ssvMessage = SSVPartialSignatureMsgType
          then bind_st (validatePartialSignatureMessage S mv E sm ssvMessage ci st) (\<lambda>psm st.
                 (Ok \<lparr>dm_Signed = Some sm, dm_SSVMessage = Some ssvMessage, dm_Body = Some (PartialBody psm)\<rparr>, st))
          else (Err (PlainErr ''unreachable: message type assertion should have been done''), st))"

definition handlePubsubMessage ::
    "'c specqbft \<Rightarrow> messageValidator \<Rightarrow> venv \<Rightarrow> bytes \<Rightarrow> states \<Rightarrow> (go_err, DecodedMsg) res \<times> states" where
  "handlePubsubMessage S mv E data st =
     bind_st
       (bind_res (ctx_Err E AtPubsub) (\<lambda>_.
        bind_res (validatePubSubMessage data) (\<lambda>_. decodeSignedSSVMessage mv data)), st)
       (\<lambda>sm st. handleSignedSSVMessage S mv E sm st)"

text \<open>
  \<open>errors.Is\<close> and \<open>errors.As\<close> walk the chain of wrapped errors. The targets are the context sentinels
  and the errors of this package; \<open>Error.Is\<close> compares texts, and the values of \<open>fmt.Errorf\<close> are no
  target.
\<close>

fun as_Error :: "go_err \<Rightarrow> (string \<times> bool) option" where
  "as_Error (VErr t r i) = Some (t, r)"
| "as_Error (WrapErr s e) = as_Error e"
| "as_Error _ = None"

fun errors_Is :: "go_err \<Rightarrow> go_err \<Rightarrow> bool" where
  "errors_Is (VErr t r i) target \<longleftrightarrow>
     (case as_Error target of Some (t', _) \<Rightarrow> t = t' | None \<Rightarrow> False)
     \<or> (case i of None \<Rightarrow> False | Some e \<Rightarrow> errors_Is e target)"
| "errors_Is (WrapErr s e) target \<longleftrightarrow> errors_Is e target"
| "errors_Is (PlainErr s) target \<longleftrightarrow> False"
| "errors_Is DeadlineExceeded target \<longleftrightarrow> target = DeadlineExceeded"
| "errors_Is Canceled target \<longleftrightarrow> target = Canceled"

datatype discardKind = discardIgnored | discardTimeout | discardCanceled | discardRejected

definition classifyDiscard :: "go_err \<Rightarrow> discardKind" where
  "classifyDiscard err =
     (if errors_Is err DeadlineExceeded then discardTimeout
      else if errors_Is err Canceled then discardCanceled
      else case as_Error err of
             None \<Rightarrow> discardIgnored
           | Some (_, reject) \<Rightarrow> if reject then discardRejected else discardIgnored)"

definition routineSelfIgnores :: "go_err list" where
  "routineSelfIgnores =
     [ErrDuplicatedMessage, ErrDecidedMessageWithTooFewSigners, ErrSlotAlreadyAdvanced,
      ErrRoundAlreadyAdvanced, ErrEarlySlotMessage, ErrLateSlotMessage,
      ErrEstimatedRoundNotInAllowedSpread, ErrRoundTooHigh]"

definition isRoutineSelfIgnore :: "go_err \<Rightarrow> bool" where
  "isRoutineSelfIgnore err \<longleftrightarrow> (\<exists>benign \<in> set routineSelfIgnores. errors_Is err benign)"

datatype ValidationResult = ValidationAccept | ValidationIgnore | ValidationReject
datatype log_level = LogDebug | LogWarn

definition isSelfPeer :: "messageValidator \<Rightarrow> string \<Rightarrow> bool" where
  "isSelfPeer mv peerID \<longleftrightarrow> mv_selfPID mv \<noteq> [] \<and> peerID = mv_selfPID mv"

text \<open>The result and the level of the log line.\<close>

definition handleValidationError :: "messageValidator \<Rightarrow> string \<Rightarrow> go_err \<Rightarrow> ValidationResult \<times> log_level" where
  "handleValidationError mv peerID err =
     (let kind = classifyDiscard err
      in (if kind = discardRejected then ValidationReject else ValidationIgnore,
          if isSelfPeer mv peerID
          then (case kind of
                  discardRejected \<Rightarrow> LogWarn
                | discardTimeout \<Rightarrow> LogWarn
                | discardCanceled \<Rightarrow> LogDebug
                | discardIgnored \<Rightarrow> if isRoutineSelfIgnore err then LogDebug else LogWarn)
          else LogDebug))"

definition validateSelf :: "messageValidator \<Rightarrow> bytes \<Rightarrow> ('e, ValidationResult \<times> DecodedMsg option) res" where
  "validateSelf mv data =
     (case DecodeSigned (mv_spec mv) data of
        Inl _ \<Rightarrow> Ok (ValidationReject, None)
      | Inr sm \<Rightarrow>
          (case DecodeSignedSSVMessage (mv_spec mv) sm of
             Ok d \<Rightarrow> Ok (ValidationAccept, Some d)
           | Err _ \<Rightarrow> Ok (ValidationReject, None)
           | Panic \<Rightarrow> Panic))"

text \<open>
  \<open>Validate\<close>: the verdict, the decoded message handed on with an accepted one, and the states.
\<close>

definition ValidateMessage ::
    "'c specqbft \<Rightarrow> messageValidator \<Rightarrow> venv \<Rightarrow> string \<Rightarrow> bytes \<Rightarrow> states
       \<Rightarrow> (unit, ValidationResult \<times> DecodedMsg option) res \<times> states" where
  "ValidateMessage S mv E peerID data st =
     (if mv_selfAccept mv \<and> peerID = mv_selfPID mv then (validateSelf mv data, st)
      else case ctx_Err E AtValidate of
             Ok _ \<Rightarrow>
               (case handlePubsubMessage S mv E data st of
                  (Ok d, st) \<Rightarrow> (Ok (ValidationAccept, Some d), st)
                | (Err e, st) \<Rightarrow> (Ok (fst (handleValidationError mv peerID e), None), st)
                | (Panic, st) \<Rightarrow> (Panic, st))
           | Err e \<Rightarrow> (Ok (fst (handleValidationError mv peerID e), None), st)
           | Panic \<Rightarrow> (Panic, st))"

end
