(* ===== verification/Validation_Lemmas.thy ===== *)
theory Validation_Lemmas
  imports Validation
begin

text \<open>
  Facts shared by the properties of message validation: what the rings of signer states return after
  a write, what an update keeps, and what each check guarantees when it passes.
\<close>

section \<open>Rings of signer states\<close>

definition ring_index :: "OperatorState \<Rightarrow> u64 \<Rightarrow> nat" where
  "ring_index os slot = unat slot mod length (os_signers os)"

definition os_ok :: "u64 \<Rightarrow> u64 \<Rightarrow> OperatorState \<Rightarrow> bool" where
  "os_ok slots epochs os \<longleftrightarrow> slots \<noteq> 0 \<and> epochs \<noteq> 0
     \<and> length (os_signers os) = unat slots \<and> length (os_duties os) = unat epochs"

definition slot_state :: "OperatorState option \<Rightarrow> u64 \<Rightarrow> SignerStateForSlotRound option" where
  "slot_state mos slot =
     (case mos of
        None \<Rightarrow> None
      | Some os \<Rightarrow> (case os_signers os ! ring_index os slot of
                      None \<Rightarrow> None
                    | Some s \<Rightarrow> if sg_Slot s = slot then Some s else None))"

lemma len_u64_word: "length xs = unat (w :: u64) \<Longrightarrow> len_u64 xs = w"
  by (simp add: len_u64_def)

lemma ring_index_less: "os_ok c e os \<Longrightarrow> ring_index os slot < length (os_signers os)"
  by (auto simp: os_ok_def ring_index_def unat_gt_0)

lemma ring_index_eq: "os_ok c e os \<Longrightarrow> ring_index os slot = unat (slot mod c)"
  by (simp add: os_ok_def ring_index_def unat_mod)

lemma ring_mod_Ok:
  assumes "os_ok c e os"
  shows "u64_mod slot (len_u64 (os_signers os)) = Ok (slot mod c)"
    "index_u64 (os_signers os) (slot mod c) = Ok (os_signers os ! ring_index os slot)"
  using assms ring_index_less [OF assms, of slot]
  by (auto simp: len_u64_word os_ok_def index_u64_def ring_index_eq [OF assms])

lemma GetSignerStateForSlot_slot_state:
  "(\<And>os. mos = Some os \<Longrightarrow> os_ok c e os) \<Longrightarrow> GetSignerStateForSlot mos slot = Ok (slot_state mos slot)"
  by (cases mos) (auto simp: GetSignerStateForSlot_def slot_state_def ring_mod_Ok split: option.splits)

lemma writeSignerState_Ok:
  assumes "os_ok c e os"
  shows "writeSignerState slot s os = Ok (os\<lparr>os_signers := (os_signers os)[ring_index os slot := Some s]\<rparr>)"
  using assms by (simp add: writeSignerState_def ring_mod_Ok ring_index_eq [symmetric])

lemma os_ok_write [simp]: "os_ok c e (os\<lparr>os_signers := (os_signers os)[k := x]\<rparr>) = os_ok c e os"
  by (simp add: os_ok_def)

lemma os_ok_newOperatorState: "c \<noteq> 0 \<Longrightarrow> e \<noteq> 0 \<Longrightarrow> os_ok c e (newOperatorState c e)"
  by (simp add: os_ok_def newOperatorState_def)

lemma slot_state_newOperatorState [simp]: "c \<noteq> 0 \<Longrightarrow> slot_state (Some (newOperatorState c e)) slot = None"
  by (simp add: slot_state_def newOperatorState_def ring_index_def unat_gt_0)

lemma slot_state_write:
  assumes "os_ok c e os" "sg_Slot s = slot"
  shows "slot_state (Some (os\<lparr>os_signers := (os_signers os)[ring_index os slot := Some s]\<rparr>)) slot = Some s"
    "ring_index os slot' \<noteq> ring_index os slot \<Longrightarrow>
     slot_state (Some (os\<lparr>os_signers := (os_signers os)[ring_index os slot := Some s]\<rparr>)) slot'
       = slot_state (Some os) slot'"
  using assms ring_index_less [OF assms(1)] by (auto simp: slot_state_def ring_index_def)

lemma slot_state_Slot: "slot_state mos slot = Some s \<Longrightarrow> sg_Slot s = slot"
  by (auto simp: slot_state_def split: option.splits if_splits)

lemma epoch_index_Ok:
  assumes "os_ok c e os"
  shows "u64_mod epoch (len_u64 (os_duties os)) = Ok (epoch mod e)"
    "index_u64 (os_duties os) (epoch mod e) = Ok (os_duties os ! unat (epoch mod e))"
    "unat (epoch mod e) < length (os_duties os)"
  using assms by (auto simp: os_ok_def len_u64_word index_u64_def unat_mod unat_gt_0)

lemma countDuty_Ok:
  assumes "os_ok c e os"
  shows "\<exists>ds. countDuty epoch os = (Ok (os\<lparr>os_duties := ds\<rparr>) :: ('e, _) res) \<and> length ds = length (os_duties os)"
  by (cases "ed_count (os_duties os ! unat (epoch mod e)) = 0 \<or> ed_epoch (os_duties os ! unat (epoch mod e)) < epoch";
      cases "epoch = ed_epoch (os_duties os ! unat (epoch mod e))")
    (auto simp: countDuty_def Let_def epoch_index_Ok [OF assms] intro: exI [of _ "os_duties os"]
      exI [of _ "(os_duties os)[_ := _]"])

lemma SetSignerStateForSlot_Ok:
  assumes "os_ok c e os" "sg_Slot s = slot"
  obtains os' where "SetSignerStateForSlot slot epoch s os = (Ok os' :: (go_err, _) res)" "os_ok c e os'"
    "os_signers os' = (os_signers os)[ring_index os slot := Some s]"
proof -
  let ?w = "os\<lparr>os_signers := (os_signers os)[ring_index os slot := Some s]\<rparr>"
  let ?m = "if os_maxSlot ?w < slot then ?w\<lparr>os_maxSlot := slot\<rparr> else ?w"
  have "os_ok c e ?m" using assms by (auto simp: os_ok_def)
  from countDuty_Ok [OF this, of epoch, where 'e = go_err] obtain ds
    where ds: "countDuty epoch ?m = (Ok (?m\<lparr>os_duties := ds\<rparr>) :: (go_err, _) res)" "length ds = length (os_duties ?m)" by blast
  have "SetSignerStateForSlot slot epoch s os = (Ok (?m\<lparr>os_duties := ds\<rparr>) :: (go_err, _) res)"
    using ds(1) assms(1) by (simp add: SetSignerStateForSlot_def writeSignerState_Ok)
  moreover have "os_ok c e (?m\<lparr>os_duties := ds\<rparr>)" using ds(2) assms by (auto simp: os_ok_def)
  moreover have "os_signers (?m\<lparr>os_duties := ds\<rparr>) = (os_signers os)[ring_index os slot := Some s]" by simp
  ultimately show ?thesis using that by blast
qed

lemma slot_state_cong: "os_signers os = os_signers os' \<Longrightarrow> slot_state (Some os) slot = slot_state (Some os') slot"
  by (simp add: slot_state_def ring_index_def)

section \<open>Recording a message\<close>

fun seen_type :: "MessageType \<Rightarrow> SeenMsgTypes \<Rightarrow> bool" where
  "seen_type ProposalMsgType v = reachedProposalLimit v"
| "seen_type PrepareMsgType v = reachedPrepareLimit v"
| "seen_type CommitMsgType v = reachedCommitLimit v"
| "seen_type RoundChangeMsgType v = reachedRoundChangeLimit v"
| "seen_type (OtherMsgType n) v = False"

lemma reached_bit:
  "reachedPreConsensusLimit v \<longleftrightarrow> bit v preConsensusIdx"
  "reachedProposalLimit v \<longleftrightarrow> bit v proposalIdx"
  "reachedPrepareLimit v \<longleftrightarrow> bit v prepareIdx"
  "reachedCommitLimit v \<longleftrightarrow> bit v commitIdx"
  "reachedRoundChangeLimit v \<longleftrightarrow> bit v roundChangeIdx"
  "reachedPostConsensusLimit v \<longleftrightarrow> bit v postConsensusIdx"
  by (simp_all add: reachedPreConsensusLimit_def reachedProposalLimit_def reachedPrepareLimit_def
      reachedCommitLimit_def reachedRoundChangeLimit_def reachedPostConsensusLimit_def and_exp_eq_0_iff_not_bit)

lemma record_bit:
  "n < 8 \<Longrightarrow> bit (recordPreConsensus v) n \<longleftrightarrow> bit v n \<or> n = preConsensusIdx"
  "n < 8 \<Longrightarrow> bit (recordProposal v) n \<longleftrightarrow> bit v n \<or> n = proposalIdx"
  "n < 8 \<Longrightarrow> bit (recordPrepare v) n \<longleftrightarrow> bit v n \<or> n = prepareIdx"
  "n < 8 \<Longrightarrow> bit (recordCommit v) n \<longleftrightarrow> bit v n \<or> n = commitIdx"
  "n < 8 \<Longrightarrow> bit (recordRoundChange v) n \<longleftrightarrow> bit v n \<or> n = roundChangeIdx"
  "n < 8 \<Longrightarrow> bit (recordPostConsensus v) n \<longleftrightarrow> bit v n \<or> n = postConsensusIdx"
  by (auto simp: recordPreConsensus_def recordProposal_def recordPrepare_def recordCommit_def
      recordRoundChange_def recordPostConsensus_def bit_or_iff bit_exp_iff)

lemmas seen_bit = reached_bit record_bit idx_defs

lemma RecordConsensusMessage_valid:
  "RecordConsensusMessage ids msg v \<noteq> Panic"
  "validConsensusMsgType (m_MsgType msg) \<Longrightarrow> RecordConsensusMessage ids msg v \<noteq> Err e"
  by (auto simp: RecordConsensusMessage_def validConsensusMsgType_def split: MessageType.splits)

lemma RecordConsensusMessage_mono:
  "RecordConsensusMessage ids msg v = Ok v' \<Longrightarrow> seen_type t v \<Longrightarrow> seen_type t v'"
  by (cases "m_MsgType msg"; cases t) (auto simp: RecordConsensusMessage_def seen_bit split: if_splits)

lemma RecordConsensusMessage_records:
  "RecordConsensusMessage [i] msg v = Ok v' \<Longrightarrow> seen_type (m_MsgType msg) v'"
  by (cases "m_MsgType msg") (auto simp: RecordConsensusMessage_def seen_bit)

lemma RecordPartialSignatureMessage_mono:
  "RecordPartialSignatureMessage psm v = Ok v' \<Longrightarrow> seen_type t v \<Longrightarrow> seen_type t v'"
  by (cases "ps_Type psm"; cases t) (auto simp: RecordPartialSignatureMessage_def seen_bit)

lemma upd_Peer_simps [simp]:
  "sg_Slot (upd_Peer p f s) = sg_Slot s" "sg_Round (upd_Peer p f s) = sg_Round s"
  "sg_World (upd_Peer p f s) = sg_World s"
  "SeenProposerPreferencesRoots (upd_Peer p f s) = SeenProposerPreferencesRoots s"
  "SeenRequestAuthRoots (upd_Peer p f s) = SeenRequestAuthRoots s"
  by (simp_all add: upd_Peer_def)

lemma Reset_simps [simp]:
  "sg_Slot (Reset slot r s) = slot" "sg_Round (Reset slot r s) = r"
  "SeenTypes (sg_World (Reset slot r s)) = 0"
  by (simp_all add: Reset_def)

lemma newSignerState_simps [simp]:
  "sg_Slot (newSignerState slot r) = slot" "sg_Round (newSignerState slot r) = r"
  by (simp_all add: newSignerState_def)

lemma processSignerState_keeps:
  assumes "processSignerState sm msg p s = (r, s')"
  shows "sg_Slot s' = sg_Slot s" "sg_Round s' = sg_Round s"
    "seen_type t (SeenTypes (sg_World s)) \<Longrightarrow> seen_type t (SeenTypes (sg_World s'))"
    "r = Ok () \<Longrightarrow> w_OperatorIDs sm = [i] \<Longrightarrow> seen_type (m_MsgType msg) (SeenTypes (sg_World s'))"
  using assms
  by (auto simp: processSignerState_def Let_def split: res.splits if_splits
      intro: RecordConsensusMessage_mono dest: RecordConsensusMessage_records)

lemma processSignerState_Ok:
  "validConsensusMsgType (m_MsgType msg) \<Longrightarrow> fst (processSignerState sm msg p s) = Ok ()"
  by (auto simp: processSignerState_def Let_def RecordConsensusMessage_valid split: res.split)

lemma recordPartialSignature_keeps:
  assumes "recordPartialSignature psm p s = (r, s')"
  shows "sg_Slot s' = sg_Slot s" "sg_Round s' = sg_Round s"
    "seen_type t (SeenTypes (sg_World s)) \<Longrightarrow> seen_type t (SeenTypes (sg_World s'))"
  using assms
  by (auto simp: recordPartialSignature_def recordRoots_def Let_def split: res.splits PartialSigMsgType.splits
      intro: RecordPartialSignatureMessage_mono)

lemma recordPartialSignature_Ok:
  "validPartialSigMsgType (ps_Type psm) \<Longrightarrow> fst (recordPartialSignature psm p s) = Ok ()"
  by (cases "ps_Type psm")
    (simp_all add: recordPartialSignature_def validPartialSigMsgType_def RecordPartialSignatureMessage_def Let_def)

section \<open>One signer's update\<close>

text \<open>The common shape of both updates: fetch or allocate the slot's state, rework it, write it back.\<close>

definition slot_update ::
    "nat \<Rightarrow> u64 \<Rightarrow> u64 \<Rightarrow> SignerStateForSlotRound \<Rightarrow> (SignerStateForSlotRound \<Rightarrow> SignerStateForSlotRound)
       \<Rightarrow> (SignerStateForSlotRound \<Rightarrow> (go_err, unit) res \<times> SignerStateForSlotRound) \<Rightarrow> ValState
       \<Rightarrow> (go_err, unit) res \<times> ValState" where
  "slot_update idx slot epoch fresh renew f cs =
     (case bind_res (operatorStateOf cs idx) (\<lambda>(os, cs).
           bind_res (GetSignerStateForSlot (Some os) slot) (\<lambda>mss.
           bind_res (case mss of
                       None \<Rightarrow> bind_res (SetSignerStateForSlot slot epoch fresh os) (\<lambda>os. Ok (fresh, os))
                     | Some s \<Rightarrow> Ok (renew s, os))
             (\<lambda>(s, os).
                let (r, s) = f s
                in bind_res (writeSignerState slot s os) (\<lambda>os.
                     Ok (r, cs\<lparr>va_operators := (va_operators cs)[idx := Some os]\<rparr>))))) of
        Ok (r, cs') \<Rightarrow> (r, cs')
      | Err e \<Rightarrow> (Err e, cs)
      | Panic \<Rightarrow> (Panic, cs))"

lemma updateSignerConsensus_slot_update:
  "updateSignerConsensus E sm msg epoch ci signer cs =
     slot_update (signerIndex ci signer) (m_Height msg) epoch (newSignerState (m_Height msg) (m_Round msg))
       (\<lambda>s. if m_Round msg > sg_Round s then Reset (m_Height msg) (m_Round msg) s else s)
       (processSignerState sm msg (v_receivedFrom E)) cs"
  unfolding updateSignerConsensus_def slot_update_def Let_def ..

lemma updatePartialSignatureState_slot_update:
  "EstimatedEpochAtSlot (beacon mv) (ps_Slot psm) = (Ok epoch :: (go_err, _) res) \<Longrightarrow>
   updatePartialSignatureState S mv E psm ci signer cs =
     slot_update (signerIndex ci signer) (ps_Slot psm) epoch (newSignerState (ps_Slot psm) (FirstRound S))
       (\<lambda>s. s) (recordPartialSignature psm (v_receivedFrom E)) cs"
  unfolding updatePartialSignatureState_def slot_update_def Let_def by simp

definition va_ok :: "u64 \<Rightarrow> u64 \<Rightarrow> nat \<Rightarrow> ValState \<Rightarrow> bool" where
  "va_ok c e n v \<longleftrightarrow> c \<noteq> 0 \<and> e \<noteq> 0 \<and> va_storedSlotCount v = c \<and> va_storedEpochCount v = e
     \<and> length (va_operators v) = n \<and> (\<forall>os. Some os \<in> set (va_operators v) \<longrightarrow> os_ok c e os)"

lemma va_ok_nth: "va_ok c e n v \<Longrightarrow> i < n \<Longrightarrow> va_operators v ! i = Some os \<Longrightarrow> os_ok c e os"
  by (metis va_ok_def nth_mem)

lemma va_ok_update: "va_ok c e n v \<Longrightarrow> os_ok c e os \<Longrightarrow> va_ok c e n (v\<lparr>va_operators := (va_operators v)[i := Some os]\<rparr>)"
  using set_update_subset_insert [of "va_operators v" i "Some os"] by (auto simp: va_ok_def)

lemma operatorStateOf_Ok:
  assumes "va_ok c e n cs" "idx < n"
  obtains os where "operatorStateOf cs idx = (Ok (os, cs\<lparr>va_operators := (va_operators cs)[idx := Some os]\<rparr>) :: (go_err, _) res)"
    "os_ok c e os" "\<And>slot. slot_state (Some os) slot = slot_state (va_operators cs ! idx) slot"
proof (cases "va_operators cs ! idx")
  case None
  then show ?thesis
    using assms that [of "newOperatorState c e"]
    by (simp add: operatorStateOf_def peekOperatorState_def va_ok_def os_ok_newOperatorState slot_state_def [of None] Let_def)
next
  case (Some os)
  then have "(va_operators cs)[idx := Some os] = va_operators cs" by (metis list_update_id)
  with Some show ?thesis
    using assms that [of os] by (simp add: operatorStateOf_def peekOperatorState_def va_ok_def va_ok_nth [OF assms])
qed

lemma slot_update_spec:
  assumes ok: "va_ok c e n cs" "idx < n" and fresh: "sg_Slot fresh = slot"
    and renew: "\<And>s. sg_Slot s = slot \<Longrightarrow> sg_Slot (renew s) = slot"
    and f: "\<And>s. sg_Slot (snd (f s)) = sg_Slot s"
    and s: "s = (case slot_state (va_operators cs ! idx) slot of None \<Rightarrow> fresh | Some s \<Rightarrow> renew s)"
    and upd: "slot_update idx slot epoch fresh renew f cs = (r, cs')"
  shows "r = fst (f s) \<and> va_ok c e n cs' \<and> va_committeeID cs' = va_committeeID cs
    \<and> slot_state (va_operators cs' ! idx) slot = Some (snd (f s))
    \<and> (\<forall>i. i \<noteq> idx \<longrightarrow> va_operators cs' ! i = va_operators cs ! i)
    \<and> (\<forall>slot'. slot' mod c \<noteq> slot mod c \<longrightarrow>
         slot_state (va_operators cs' ! idx) slot' = slot_state (va_operators cs ! idx) slot')"
proof -
  obtain os where os: "operatorStateOf cs idx = (Ok (os, cs\<lparr>va_operators := (va_operators cs)[idx := Some os]\<rparr>) :: (go_err, _) res)"
    "os_ok c e os" "\<And>slot. slot_state (Some os) slot = slot_state (va_operators cs ! idx) slot"
    using operatorStateOf_Ok [OF ok] by blast
  have get: "GetSignerStateForSlot (Some os) slot = (Ok (slot_state (va_operators cs ! idx) slot) :: (go_err, _) res)"
    using GetSignerStateForSlot_slot_state [of "Some os" c e, where 'a = go_err] os(2,3) by simp
  obtain os1 where os1: "(case slot_state (va_operators cs ! idx) slot of
          None \<Rightarrow> bind_res (SetSignerStateForSlot slot epoch fresh os) (\<lambda>os. Ok (fresh, os))
        | Some s \<Rightarrow> Ok (renew s, os)) = (Ok (s, os1) :: (go_err, _) res)"
    "os_ok c e os1" "os_signers os1 = os_signers os \<or> os_signers os1 = (os_signers os)[ring_index os slot := Some fresh]"
    "sg_Slot s = slot"
  proof (cases "slot_state (va_operators cs ! idx) slot")
    case None
    obtain os1 where "SetSignerStateForSlot slot epoch fresh os = (Ok os1 :: (go_err, _) res)" "os_ok c e os1"
      "os_signers os1 = (os_signers os)[ring_index os slot := Some fresh]"
      using SetSignerStateForSlot_Ok [OF os(2) fresh] by blast
    with None s fresh show ?thesis by (intro that [of os1]) auto
  next
    case (Some x)
    with s os(2) renew slot_state_Slot [OF Some] show ?thesis by (intro that [of os]) auto
  qed
  let ?os = "os1\<lparr>os_signers := (os_signers os1)[ring_index os1 slot := Some (snd (f s))]\<rparr>"
  have idx: "ring_index os1 = ring_index os" using os1(3) by (auto simp: ring_index_def fun_eq_iff)
  have cs': "cs' = cs\<lparr>va_operators := (va_operators cs)[idx := Some ?os]\<rparr>" "r = fst (f s)"
    using upd by (cases "f s"; simp add: slot_update_def os(1) get os1(1) writeSignerState_Ok [OF os1(2)])+
  have fs: "sg_Slot (snd (f s)) = slot" using f os1(4) by simp
  have "os_ok c e ?os" using os1(2) by simp
  moreover have "slot_state (Some ?os) slot = Some (snd (f s))"
    by (rule slot_state_write(1) [OF os1(2) fs])
  moreover have "slot_state (Some ?os) slot' = slot_state (va_operators cs ! idx) slot'" if "slot' mod c \<noteq> slot mod c" for slot'
  proof -
    have ne: "ring_index os slot' \<noteq> ring_index os slot"
      using that by (simp add: ring_index_eq [OF os(2)] word_unat_eq_iff)
    have "slot_state (Some ?os) slot' = slot_state (Some os1) slot'"
      using ne by (intro slot_state_write(2) [OF os1(2) fs]) (simp add: idx)
    also have "\<dots> = slot_state (Some os) slot'"
      using os1(3) ne by (auto simp: slot_state_def idx)
    finally show ?thesis using os(3) by simp
  qed
  moreover have "va_ok c e n cs'" unfolding cs'(1) by (rule va_ok_update [OF ok(1)]) (use os1(2) in simp)
  moreover have "idx < length (va_operators cs)" using ok by (simp add: va_ok_def)
  ultimately show ?thesis using cs' by simp
qed

section \<open>Indices of the committee\<close>

definition ci_ok :: "CommitteeInfo \<Rightarrow> bool" where
  "ci_ok ci \<longleftrightarrow> (\<forall>signer i. ci_signerIndices ci signer = Some i \<longrightarrow> i < length (ci_committee ci) \<and> ci_committee ci ! i = signer)
     \<and> (\<forall>signer \<in> set (ci_committee ci). ci_signerIndices ci signer \<noteq> None)"

lemma fold_indices_Some:
  "fold (\<lambda>(i, operator) m. m(operator \<mapsto> i)) (enumerate k ops) m signer = Some i \<Longrightarrow>
     m signer = Some i \<or> k \<le> i \<and> i < k + length ops \<and> ops ! (i - k) = signer"
proof (induction ops arbitrary: k m)
  case (Cons a ops)
  from Cons.IH [of "Suc k" "m(a \<mapsto> k)"] Cons.prems show ?case
    by (auto simp: nth_Cons' split: if_splits)
qed simp

lemma fold_indices_None:
  "m signer \<noteq> None \<or> signer \<in> set ops \<Longrightarrow>
     fold (\<lambda>(i, operator) m. m(operator \<mapsto> i)) (enumerate k ops) m signer \<noteq> None"
proof (induction ops arbitrary: k m)
  case (Cons a ops)
  from Cons.IH [of "m(a \<mapsto> k)" "Suc k"] Cons.prems show ?case by (auto split: if_splits)
qed simp

lemma newCommitteeInfo_ok [simp]: "ci_ok (newCommitteeInfo k ops idx b a)"
  using fold_indices_Some [of 0 ops Map.empty] fold_indices_None [of Map.empty _ ops 0]
  by (auto simp: ci_ok_def newCommitteeInfo_def)

lemma newCommitteeInfo_sel [simp]:
  "ci_committeeID (newCommitteeInfo k ops idx b a) = k"
  "ci_committee (newCommitteeInfo k ops idx b a) = ops"
  "ci_validatorIndices (newCommitteeInfo k ops idx b a) = idx"
  by (simp_all add: newCommitteeInfo_def)

lemma signerIndex_nth:
  assumes "ci_ok ci" "signer \<in> set (ci_committee ci)"
  shows "signerIndex ci signer < length (ci_committee ci)" "ci_committee ci ! signerIndex ci signer = signer"
  using assms by (auto simp: ci_ok_def signerIndex_def split: option.splits)

lemma signerIndex_inj:
  assumes "ci_ok ci" "a \<in> set (ci_committee ci)" "b \<in> set (ci_committee ci)"
  shows "signerIndex ci a = signerIndex ci b \<longleftrightarrow> a = b"
  using signerIndex_nth(2) [OF assms(1,2)] signerIndex_nth(2) [OF assms(1,3)] by metis

lemma getCommittee_ok: "getCommitteeAndValidatorIndices mv E key = Ok ci \<Longrightarrow> ci_ok ci"
  by (auto simp: getCommitteeAndValidatorIndices_def Let_def bind_res_Ok_iff split: if_splits option.splits)

text \<open>The clock only decides whether there is a committee, not which.\<close>

lemma getCommittee_same:
  "getCommitteeAndValidatorIndices mv E key = Ok ci \<Longrightarrow>
   getCommitteeAndValidatorIndices mv E' key = Ok ci' \<Longrightarrow> ci' = ci"
  by (auto simp: getCommitteeAndValidatorIndices_def Let_def bind_res_Ok_iff split: if_splits option.splits)

section \<open>Messages a state no longer admits\<close>

definition blocked :: "ValState \<Rightarrow> nat \<Rightarrow> u64 \<Rightarrow> Round \<Rightarrow> MessageType \<Rightarrow> bool" where
  "blocked v idx slot r t \<longleftrightarrow>
     (case slot_state (va_operators v ! idx) slot of
        None \<Rightarrow> False
      | Some s \<Rightarrow> r < sg_Round s \<or> r = sg_Round s \<and> seen_type t (SeenTypes (sg_World s)))"

lemma updateSignerConsensus_keeps:
  assumes "va_ok c e n cs" "signerIndex ci signer < n" "updateSignerConsensus E sm msg epoch ci signer cs = (r', cs')"
  shows "va_ok c e n cs'" "va_committeeID cs' = va_committeeID cs"
    "blocked cs idx slot r t \<Longrightarrow> m_Height msg = slot \<or> m_Height msg mod c \<noteq> slot mod c \<Longrightarrow> blocked cs' idx slot r t"
    "validConsensusMsgType (m_MsgType msg) \<Longrightarrow> r' = Ok ()"
    "w_OperatorIDs sm = [i] \<Longrightarrow> r' = Ok () \<Longrightarrow>
       (\<And>s. slot_state (va_operators cs ! signerIndex ci signer) (m_Height msg) = Some s \<Longrightarrow> sg_Round s \<le> m_Round msg) \<Longrightarrow>
       blocked cs' (signerIndex ci signer) (m_Height msg) (m_Round msg) (m_MsgType msg)"
proof -
  let ?k = "signerIndex ci signer" and ?f = "processSignerState sm msg (v_receivedFrom E)"
  define s where "s = (case slot_state (va_operators cs ! ?k) (m_Height msg) of
      None \<Rightarrow> newSignerState (m_Height msg) (m_Round msg)
    | Some s \<Rightarrow> if m_Round msg > sg_Round s then Reset (m_Height msg) (m_Round msg) s else s)"
  have keep: "sg_Slot (snd (?f x)) = sg_Slot x" for x
    using processSignerState_keeps(1) [of sm msg "v_receivedFrom E" x] by (metis surjective_pairing)
  have renew: "sg_Slot x = m_Height msg \<Longrightarrow>
      sg_Slot (if m_Round msg > sg_Round x then Reset (m_Height msg) (m_Round msg) x else x) = m_Height msg" for x by simp
  note spec = slot_update_spec [OF assms(1,2) newSignerState_simps(1) renew keep s_def assms(3) [unfolded updateSignerConsensus_slot_update]]
  have fs: "sg_Round (snd (?f s)) = sg_Round s"
      "seen_type t (SeenTypes (sg_World s)) \<Longrightarrow> seen_type t (SeenTypes (sg_World (snd (?f s))))"
      "fst (?f s) = Ok () \<Longrightarrow> w_OperatorIDs sm = [i] \<Longrightarrow> seen_type (m_MsgType msg) (SeenTypes (sg_World (snd (?f s))))" for t i
    using processSignerState_keeps [of sm msg "v_receivedFrom E" s] by (metis surjective_pairing)+
  show "va_ok c e n cs'" "va_committeeID cs' = va_committeeID cs" using spec by blast+
  show "validConsensusMsgType (m_MsgType msg) \<Longrightarrow> r' = Ok ()" using spec by (simp add: processSignerState_Ok)
  show "blocked cs' idx slot r t" if b: "blocked cs idx slot r t" "m_Height msg = slot \<or> m_Height msg mod c \<noteq> slot mod c"
  proof (cases "idx = ?k \<and> m_Height msg = slot")
    case True
    with b(1) spec fs show ?thesis by (auto simp: blocked_def s_def split: option.splits if_splits)
  next
    case False
    then have "slot_state (va_operators cs' ! idx) slot = slot_state (va_operators cs ! idx) slot"
      using spec b(2) by (cases "idx = ?k") auto
    with b(1) show ?thesis by (simp add: blocked_def)
  qed
  show "blocked cs' ?k (m_Height msg) (m_Round msg) (m_MsgType msg)"
    if "w_OperatorIDs sm = [i]" "r' = Ok ()"
      "\<And>s. slot_state (va_operators cs ! ?k) (m_Height msg) = Some s \<Longrightarrow> sg_Round s \<le> m_Round msg"
    using that spec fs by (auto simp: blocked_def s_def split: option.splits if_splits dest: antisym)
qed

lemma updateSignersConsensus_keeps:
  assumes "va_ok c e n cs" "\<forall>signer \<in> set ids. signerIndex ci signer < n"
    "updateSignersConsensus E sm msg epoch ci ids cs = (r', cs')"
  shows "va_ok c e n cs' \<and> va_committeeID cs' = va_committeeID cs
    \<and> (blocked cs idx slot r t \<longrightarrow> m_Height msg = slot \<or> m_Height msg mod c \<noteq> slot mod c \<longrightarrow> blocked cs' idx slot r t)
    \<and> (validConsensusMsgType (m_MsgType msg) \<longrightarrow> r' = Ok ())"
  using assms
proof (induction ids arbitrary: cs)
  case (Cons a ids)
  obtain r1 cs1 where one: "updateSignerConsensus E sm msg epoch ci a cs = (r1, cs1)" by fastforce
  note keep = updateSignerConsensus_keeps [OF Cons.prems(1) _ one]
  have a: "signerIndex ci a < n" using Cons.prems(2) by simp
  show ?case
  proof (cases "r1 = Ok ()")
    case True
    with Cons.prems one have "updateSignersConsensus E sm msg epoch ci ids cs1 = (r', cs')" by simp
    from Cons.IH [OF keep(1) [OF a] _ this] Cons.prems(2) keep [OF a] show ?thesis by simp
  next
    case False
    with Cons.prems one have "r' = r1" "cs' = cs1" by (cases r1; simp)+
    with keep [OF a] False show ?thesis by blast
  qed
qed simp

lemma updateConsensusState_keeps:
  assumes "va_ok c e n cs" "\<forall>signer \<in> set (w_OperatorIDs sm). signerIndex ci signer < n"
    "updateConsensusState mv E sm msg ci cs = (r', cs')"
  shows "va_ok c e n cs' \<and> va_committeeID cs' = va_committeeID cs
    \<and> (blocked cs idx slot r t \<longrightarrow> m_Height msg = slot \<or> m_Height msg mod c \<noteq> slot mod c \<longrightarrow> blocked cs' idx slot r t)"
proof (cases "EstimatedEpochAtSlot (beacon mv) (m_Height msg) :: (go_err, _) res")
  case (Ok epoch)
  with assms(3) have "updateSignersConsensus E sm msg epoch ci (w_OperatorIDs sm) cs = (r', cs')"
    by (simp add: updateConsensusState_def)
  from updateSignersConsensus_keeps [OF assms(1,2) this] show ?thesis by blast
qed (use assms in \<open>auto simp: updateConsensusState_def\<close>)

lemma updatePartialSignatureState_keeps:
  assumes "va_ok c e n cs" "signerIndex ci signer < n" "updatePartialSignatureState S mv E psm ci signer cs = (r', cs')"
  shows "va_ok c e n cs' \<and> va_committeeID cs' = va_committeeID cs
    \<and> (blocked cs idx slot r t \<longrightarrow> ps_Slot psm = slot \<or> ps_Slot psm mod c \<noteq> slot mod c \<longrightarrow> blocked cs' idx slot r t)"
proof (cases "EstimatedEpochAtSlot (beacon mv) (ps_Slot psm) :: (go_err, _) res")
  case (Ok epoch)
  let ?k = "signerIndex ci signer" and ?f = "recordPartialSignature psm (v_receivedFrom E)"
  define s where "s = (case slot_state (va_operators cs ! ?k) (ps_Slot psm) of
      None \<Rightarrow> newSignerState (ps_Slot psm) (FirstRound S) | Some s \<Rightarrow> s)"
  have keep: "sg_Slot (snd (?f x)) = sg_Slot x" for x
    using recordPartialSignature_keeps(1) [of psm "v_receivedFrom E" x] by (metis surjective_pairing)
  note spec = slot_update_spec [OF assms(1,2) newSignerState_simps(1) _ keep s_def
      assms(3) [unfolded updatePartialSignatureState_slot_update [OF Ok]], simplified]
  have fs: "sg_Round (snd (?f s)) = sg_Round s"
      "seen_type t (SeenTypes (sg_World s)) \<Longrightarrow> seen_type t (SeenTypes (sg_World (snd (?f s))))"
    using recordPartialSignature_keeps [of psm "v_receivedFrom E" s] by (metis surjective_pairing)+
  have "blocked cs' idx slot r t" if b: "blocked cs idx slot r t" "ps_Slot psm = slot \<or> ps_Slot psm mod c \<noteq> slot mod c"
  proof (cases "idx = ?k \<and> ps_Slot psm = slot")
    case True
    with b(1) spec fs show ?thesis by (auto simp: blocked_def s_def split: option.splits)
  next
    case False
    then have "slot_state (va_operators cs' ! idx) slot = slot_state (va_operators cs ! idx) slot"
      using spec b(2) by (cases "idx = ?k") auto
    with b(1) show ?thesis by (simp add: blocked_def)
  qed
  with spec show ?thesis by blast
qed (use assms in \<open>auto simp: updatePartialSignatureState_def\<close>)

text \<open>Both updates end without an error, or in the panic of a division by zero slots per epoch.\<close>

lemma updateConsensusState_Ok:
  assumes "va_ok c e n cs" "\<forall>signer \<in> set (w_OperatorIDs sm). signerIndex ci signer < n"
    "validConsensusMsgType (m_MsgType msg)"
  shows "fst (updateConsensusState mv E sm msg ci cs) =
    (case EstimatedEpochAtSlot (beacon mv) (m_Height msg) :: (go_err, _) res of Ok _ \<Rightarrow> Ok () | Err x \<Rightarrow> Err x | Panic \<Rightarrow> Panic)"
  using updateSignersConsensus_keeps [OF assms(1,2)] assms(3)
  by (auto simp: updateConsensusState_def prod_eq_iff split: res.split) (metis surjective_pairing)

lemma updatePartialSignatureState_Ok:
  assumes "va_ok c e n cs" "signerIndex ci signer < n" "validPartialSigMsgType (ps_Type psm)"
  shows "fst (updatePartialSignatureState S mv E psm ci signer cs) =
    (case EstimatedEpochAtSlot (beacon mv) (ps_Slot psm) :: (go_err, _) res of Ok _ \<Rightarrow> Ok () | Err x \<Rightarrow> Err x | Panic \<Rightarrow> Panic)"
proof (cases "EstimatedEpochAtSlot (beacon mv) (ps_Slot psm) :: (go_err, _) res")
  case (Ok epoch)
  have keep: "sg_Slot (snd (recordPartialSignature psm (v_receivedFrom E) x)) = sg_Slot x" for x
    using recordPartialSignature_keeps(1) [of psm "v_receivedFrom E" x] by (metis surjective_pairing)
  from slot_update_spec [OF assms(1,2) newSignerState_simps(1) _ keep refl] Ok assms(3) show ?thesis
    by (simp add: updatePartialSignatureState_slot_update [OF Ok] recordPartialSignature_Ok)
      (metis recordPartialSignature_Ok surjective_pairing)
qed (simp_all add: updatePartialSignatureState_def)

section \<open>The ways a validation ends\<close>

definition envelope_checked :: "messageValidator \<Rightarrow> venv \<Rightarrow> SignedMsg \<Rightarrow> SSVMessage \<Rightarrow> CommitteeInfo \<Rightarrow> bool" where
  "envelope_checked mv E sm m ci \<longleftrightarrow> validateSignedSSVMessage mv (Some sm) = Ok () \<and> w_SSVMessage sm = Some m
     \<and> validateSSVMessage mv m = Ok () \<and> validateDomainAllowlist mv (ssv_MsgID m) = Ok ()
     \<and> getCommitteeAndValidatorIndices mv E (ssv_MsgID m) = Ok ci
     \<and> belongsToCommittee (w_OperatorIDs sm) (ci_committee ci) = Ok ()"

definition consensus_checked ::
    "'c specqbft \<Rightarrow> messageValidator \<Rightarrow> venv \<Rightarrow> SignedMsg \<Rightarrow> SSVMessage \<Rightarrow> CommitteeInfo \<Rightarrow> Message \<Rightarrow> ValState \<Rightarrow> bool" where
  "consensus_checked S mv E sm m ci msg state \<longleftrightarrow>
     DecodeMessage (mv_spec mv) (ssv_Data m) = Inr msg
     \<and> validateTopicAtSlot mv ci (v_topic E) (m_Height msg) = Ok ()
     \<and> validateDomainAtSlot mv (ssv_MsgID m) (m_Height msg) = Ok ()
     \<and> validateConsensusMessageSemantics S mv sm m msg (ci_committee ci) = Ok ()
     \<and> validateQBFTLogic S mv E sm msg ci state = Ok ()
     \<and> validateQBFTMessageByDutyLogic S mv E sm m msg ci state = Ok ()
     \<and> verifySignatures mv E m 0 (w_OperatorIDs sm) (w_Signatures sm) = Ok ()"

definition partial_checked ::
    "messageValidator \<Rightarrow> venv \<Rightarrow> SignedMsg \<Rightarrow> SSVMessage \<Rightarrow> CommitteeInfo \<Rightarrow> PartialSignatureMessages \<Rightarrow> ValState
       \<Rightarrow> OperatorID \<Rightarrow> bool" where
  "partial_checked mv E sm m ci psm state signer \<longleftrightarrow>
     DecodePartialSigs (mv_spec mv) (ssv_Data m) = Inr psm
     \<and> validateTopicAtSlot mv ci (v_topic E) (ps_Slot psm) = Ok ()
     \<and> validateDomainAtSlot mv (ssv_MsgID m) (ps_Slot psm) = Ok ()
     \<and> validatePartialSignatureMessageSemantics mv sm m psm (ci_validatorIndices ci) = Ok ()
     \<and> validatePartialSigMessagesByDutyLogic mv E sm m psm ci state = Ok ()
     \<and> firstSigner sm = (Ok signer :: (go_err, _) res)
     \<and> (\<exists>signature. w_Signatures sm \<noteq> [] \<and> hd (w_Signatures sm) = signature
           \<and> mv_VerifySignature mv signer m signature = None)"

lemma validatorState_writes: "validatorState mv key ci st = (state, st') \<Longrightarrow> st' = st(key \<mapsto> state)"
  by (auto simp: validatorState_def Let_def fun_eq_iff split: option.splits if_splits)

lemma validateConsensusMessage_cases:
  assumes "validateConsensusMessage S mv E sm m ci st = (r, st')"
  obtains (before) "st' = st" "\<not> is_Ok r"
  | (refused) "st' = st(ssv_MsgID m \<mapsto> fst (validatorState mv (ssv_MsgID m) ci st))" "\<not> is_Ok r"
  | (recorded) msg r2 state where "consensus_checked S mv E sm m ci msg (fst (validatorState mv (ssv_MsgID m) ci st))"
      "updateConsensusState mv E sm msg ci (fst (validatorState mv (ssv_MsgID m) ci st)) = (r2, state)"
      "st' = st(ssv_MsgID m \<mapsto> state)" "r = bind_res r2 (\<lambda>_. Ok msg)"
proof -
  obtain state1 st1 where vs: "validatorState mv (ssv_MsgID m) ci st = (state1, st1)" by fastforce
  note st1 = validatorState_writes [OF vs]
  from assms [unfolded validateConsensusMessage_def] show ?thesis
  proof (cases rule: bind_st_cases)
    case (continued msg)
    from continued(2) [unfolded vs Let_def prod.case] show ?thesis
    proof (cases rule: bind_st_cases)
      case stopped
      with refused vs st1 show ?thesis by simp
    next
      case mid: (continued u)
      obtain r2 state where upd: "updateConsensusState mv E sm msg ci state1 = (r2, state)" by fastforce
      have "consensus_checked S mv E sm m ci msg state1"
        using continued(1) mid(1) by (auto simp: consensus_checked_def res_dest)
      with recorded vs upd mid(2) st1 show ?thesis by simp
    qed
  qed (rule before)
qed

lemma validatePartialSignatureMessage_cases:
  assumes "validatePartialSignatureMessage S mv E sm m ci st = (r, st')"
  obtains (before) "st' = st" "\<not> is_Ok r"
  | (refused) "st' = st(ssv_MsgID m \<mapsto> fst (validatorState mv (ssv_MsgID m) ci st))" "\<not> is_Ok r"
  | (recorded) psm signer r2 state where "partial_checked mv E sm m ci psm (fst (validatorState mv (ssv_MsgID m) ci st)) signer"
      "updatePartialSignatureState S mv E psm ci signer (fst (validatorState mv (ssv_MsgID m) ci st)) = (r2, state)"
      "st' = st(ssv_MsgID m \<mapsto> state)" "r = bind_res r2 (\<lambda>_. Ok psm)"
proof -
  obtain state1 st1 where vs: "validatorState mv (ssv_MsgID m) ci st = (state1, st1)" by fastforce
  note st1 = validatorState_writes [OF vs]
  from assms [unfolded validatePartialSignatureMessage_def] show ?thesis
  proof (cases rule: bind_st_cases)
    case (continued psm)
    from continued(2) [unfolded vs Let_def prod.case] show ?thesis
    proof (cases rule: bind_st_cases)
      case stopped
      with refused vs st1 show ?thesis by simp
    next
      case mid: (continued signer)
      obtain r2 state where upd: "updatePartialSignatureState S mv E psm ci signer state1 = (r2, state)" by fastforce
      have "partial_checked mv E sm m ci psm state1 signer"
        using continued(1) mid(1) by (auto simp: partial_checked_def res_dest split: list.splits option.splits)
      with recorded vs upd mid(2) st1 show ?thesis by simp
    qed
  qed (rule before)
qed

lemma handleSignedSSVMessage_cases:
  assumes "handleSignedSSVMessage S mv E sm st = (r, st')"
  obtains (before) "st' = st" "\<not> is_Ok r"
  | (consensus) m ci r1 where "envelope_checked mv E sm m ci" "ssv_MsgType m = SSVConsensusMsgType"
      "validateConsensusMessage S mv E sm m ci st = (r1, st')"
      "r = bind_res r1 (\<lambda>msg. Ok \<lparr>dm_Signed = Some sm, dm_SSVMessage = Some m, dm_Body = Some (ConsensusBody msg)\<rparr>)"
  | (partial) m ci r1 where "envelope_checked mv E sm m ci" "ssv_MsgType m = SSVPartialSignatureMsgType"
      "validatePartialSignatureMessage S mv E sm m ci st = (r1, st')"
      "r = bind_res r1 (\<lambda>psm. Ok \<lparr>dm_Signed = Some sm, dm_SSVMessage = Some m, dm_Body = Some (PartialBody psm)\<rparr>)"
  using assms [unfolded handleSignedSSVMessage_def]
proof (cases rule: bind_st_cases)
  case (continued mc)
  obtain m ci where mc: "mc = (m, ci)" by fastforce
  have env: "envelope_checked mv E sm m ci"
    using continued(1) unfolding mc by (auto simp: envelope_checked_def res_dest)
  consider "ssv_MsgType m = SSVConsensusMsgType" | "ssv_MsgType m = SSVPartialSignatureMsgType"
    "ssv_MsgType m \<noteq> SSVConsensusMsgType"
    using env by (auto simp: envelope_checked_def validateSSVMessage_def res_dest split: if_splits)
  then show ?thesis
  proof cases
    case 1
    obtain r1 st1 where v: "validateConsensusMessage S mv E sm m ci st = (r1, st1)" by fastforce
    with continued(2) mc 1 show ?thesis by (cases r1) (auto intro: consensus [OF env 1])
  next
    case 2
    obtain r1 st1 where v: "validatePartialSignatureMessage S mv E sm m ci st = (r1, st1)" by fastforce
    with continued(2) mc 2 show ?thesis by (cases r1) (auto intro: partial [OF env 2(1)])
  qed
qed (rule before)

end
