(* ===== verification/Validation_Demo.thy ===== *)
theory Validation_Demo
  imports Validation_Lemmas
begin

text \<open>
  A concrete validator for the witnesses: a committee of four operators that serves one validator on
  the small network configuration, with codecs for fixed-width messages.
\<close>

definition demo_key :: bytes where
  "demo_key = [0, 0, 5, 2] @ [0, 0, 0, 0] @ replicate 48 0"

definition demo_committee :: Committee where
  "demo_committee =
     \<lparr>c_ID = replicate 32 0, c_Operators = [1, 2, 3, 4], c_Shares = [], c_Indices = [7],
      c_booleCommitteeSubnet = Some 5, c_alanCommitteeSubnet = Some 3\<rparr>"

text \<open>Byte 0 is the type, byte 1 the round, the next eight bytes the height.\<close>

definition demo_DecodeMessage :: "bytes \<Rightarrow> go_err + Message" where
  "demo_DecodeMessage data =
     (if length data = 10
      then Inr \<lparr>m_MsgType = (if data ! 0 = 0 then ProposalMsgType else if data ! 0 = 1 then PrepareMsgType
                             else if data ! 0 = 2 then CommitMsgType else RoundChangeMsgType),
                m_Height = word_of_nat (nat_of_bytes (drop 2 data)), m_Round = ucast (data ! 1),
                m_Identifier = demo_key, m_Root = [], m_DataRound = 0,
                m_RoundChangeJustification = [], m_PrepareJustification = []\<rparr>
      else Inl (PlainErr ''length''))"

definition demo_DecodePartialSigs :: "bytes \<Rightarrow> go_err + PartialSignatureMessages" where
  "demo_DecodePartialSigs data =
     (if length data = 10
      then Inr \<lparr>ps_Type = PostConsensusPartialSig, ps_Slot = word_of_nat (nat_of_bytes (drop 2 data)),
                ps_Messages = [\<lparr>psm_PartialSignature = [], psm_SigningRoot = [], psm_Signer = ucast (data ! 1),
                                psm_ValidatorIndex = 7\<rparr>]\<rparr>
      else Inl (PlainErr ''length''))"

definition demo_specmsg :: specmsg where
  "demo_specmsg =
     \<lparr>GetDomain = take 4, GetRoleType = (\<lambda>key. if key ! 4 = 0 then RoleCommittee else RoleUnknown),
      GetDutyExecutorID = drop 8, DecodeSigned = (\<lambda>_. Inl (PlainErr ''demo'')), DecodeMessage = demo_DecodeMessage,
      DecodePartialSigs = demo_DecodePartialSigs, DecodeEvent = (\<lambda>_. Inl (PlainErr ''demo'')),
      DecodeTimeoutData = (\<lambda>_. Inl (PlainErr ''demo'')), DecodeExecuteDutyData = (\<lambda>_. Inl (PlainErr ''demo'')),
      PrepareJustificationsOf = (\<lambda>_. Inr []), RoundChangeJustificationsOf = (\<lambda>_. Inr []),
      SpecHashDataRoot = (\<lambda>b. Inr b)\<rparr>"

text \<open>A signature of operator \<open>k\<close> is 256 bytes that begin with \<open>k\<close>.\<close>

definition demo_sign :: "OperatorID \<Rightarrow> bytes" where
  "demo_sign k = ucast k # replicate 255 0"

definition demo_validator :: "(OperatorID \<Rightarrow> SSVMessage \<Rightarrow> bytes \<Rightarrow> go_err option) \<Rightarrow> messageValidator" where
  "demo_validator verify =
     \<lparr>mv_spec = demo_specmsg, mv_netCfg = demo_Network\<lparr>nw_SSV := demo_SSV\<lparr>ForksBoole := maxUint64\<rparr>\<rparr>,
      mv_stateAPI = demo_stateAPI, mv_sha = (\<lambda>b. b),
      mv_Validator = (\<lambda>_. None), mv_Committee = (\<lambda>k. if k = replicate 32 0 then Some demo_committee else None),
      mv_OperatorsExist = (\<lambda>_. Inr True), mv_dutyStore = NewStore, mv_VerifySignature = verify,
      mv_selfPID = [], mv_selfAccept = False\<rparr>"

definition demo_mv :: messageValidator where
  "demo_mv = demo_validator (\<lambda>k m s. if s = demo_sign k then None else Some (PlainErr ''signature''))"

text \<open>Received five seconds into slot 5.\<close>

definition demo_env :: venv where
  "demo_env =
     \<lparr>v_now = 66000000000, v_receivedAt = 66000000000, v_receivedFrom = ''peer'',
      v_topic = GetTopicFullName (SubnetTopicID 3), v_ctx = (\<lambda>_. None)\<rparr>"

definition demo_msg :: "MsgType \<Rightarrow> bytes \<Rightarrow> SSVMessage" where
  "demo_msg t data = \<lparr>ssv_MsgType = t, ssv_MsgID = demo_key, ssv_Data = data\<rparr>"

definition demo_signed :: "OperatorID list \<Rightarrow> SSVMessage \<Rightarrow> SignedMsg" where
  "demo_signed ids m =
     \<lparr>w_Signatures = map demo_sign ids, w_OperatorIDs = ids, w_SSVMessage = Some m, w_FullData = []\<rparr>"

definition demo_prepare :: SignedMsg where
  "demo_prepare = demo_signed [2] (demo_msg SSVConsensusMsgType [1, 1, 0, 0, 0, 0, 0, 0, 0, 5])"

text \<open>The same message under a signature that is not the signer's.\<close>

definition demo_forged :: SignedMsg where
  "demo_forged = demo_prepare\<lparr>w_Signatures := [demo_sign 3]\<rparr>"

text \<open>And for slot \<open>2 ^ 63\<close>, likewise not signed by the signer it names.\<close>

definition demo_oversized :: SignedMsg where
  "demo_oversized =
     (demo_signed [2] (demo_msg SSVConsensusMsgType [1, 1, 128, 0, 0, 0, 0, 0, 0, 0]))\<lparr>w_Signatures := [replicate 256 0]\<rparr>"

definition demo_qbft_at :: "u64 \<Rightarrow> Message" where
  "demo_qbft_at h =
     \<lparr>m_MsgType = PrepareMsgType, m_Height = h, m_Round = 1, m_Identifier = demo_key, m_Root = [], m_DataRound = 0,
      m_RoundChangeJustification = [], m_PrepareJustification = []\<rparr>"

abbreviation demo_qbft :: Message where
  "demo_qbft \<equiv> demo_qbft_at 5"

definition demo_ci :: CommitteeInfo where
  "demo_ci = newCommitteeInfo (replicate 32 0) [1, 2, 3, 4] [7] 5 3"

definition demo_va :: ValState where
  "demo_va =
     \<lparr>va_committeeID = replicate 32 0, va_operators = [None, None, None, None], va_storedSlotCount = 34,
      va_storedEpochCount = 3\<rparr>"

definition demo_decoded :: DecodedMsg where
  "demo_decoded =
     \<lparr>dm_Signed = Some demo_prepare, dm_SSVMessage = w_SSVMessage demo_prepare, dm_Body = Some (ConsensusBody demo_qbft)\<rparr>"

section \<open>What the pieces evaluate to\<close>

lemma demo_validator_sel [simp]:
  "mv_spec (demo_validator v) = demo_specmsg" "mv_OperatorsExist (demo_validator v) ids = Inr True"
  "mv_dutyStore (demo_validator v) = NewStore" "mv_VerifySignature (demo_validator v) = v"
  "mv_Committee (demo_validator v) k = (if k = replicate 32 0 then Some demo_committee else None)"
  "SlotDuration (beacon (demo_validator v)) = 12000000000" "SlotsPerEpoch (beacon (demo_validator v)) = 32"
  "GenesisTime (beacon (demo_validator v)) = 1000000000" "EpochsPerSyncCommitteePeriod (beacon (demo_validator v)) = 256"
  "ForksBoole (nw_SSV (mv_netCfg (demo_validator v))) = maxUint64"
  "DomainType (nw_SSV (mv_netCfg (demo_validator v))) = [0, 0, 5, 2]"
  "IsGloas (beacon (demo_validator v)) e = (20 \<le> e)"
  by (simp_all add: demo_validator_def demo_defs IsGloas_def)

lemma demo_mv_spec: "mv_spec demo_mv = demo_specmsg"
  by (simp add: demo_mv_def)

lemma demo_key_sel [simp]:
  "GetRoleType demo_specmsg demo_key = RoleCommittee" "GetDomain demo_specmsg demo_key = [0, 0, 5, 2]"
  "GetDutyExecutorID demo_specmsg demo_key = replicate 48 0"
  by (simp_all add: demo_specmsg_def demo_key_def)

lemma demo_msg_sel [simp]:
  "ssv_MsgID (demo_msg t data) = demo_key" "ssv_MsgType (demo_msg t data) = t" "ssv_Data (demo_msg t data) = data"
  by (simp_all add: demo_msg_def)

lemma demo_signed_sel [simp]:
  "w_OperatorIDs (demo_signed ids m) = ids" "w_FullData (demo_signed ids m) = []"
  "w_Signatures (demo_signed ids m) = map demo_sign ids" "w_SSVMessage (demo_signed ids m) = Some m"
  by (simp_all add: demo_signed_def)

lemma demo_prepare_sel [simp]:
  "w_OperatorIDs demo_prepare = [2]" "w_FullData demo_prepare = []" "w_Signatures demo_prepare = [demo_sign 2]"
  "w_SSVMessage demo_prepare = Some (demo_msg SSVConsensusMsgType [1, 1, 0, 0, 0, 0, 0, 0, 0, 5])"
  by (simp_all add: demo_prepare_def)

lemma demo_decoded_sel [simp]: "dm_Body demo_decoded = Some (ConsensusBody demo_qbft)"
  by (simp add: demo_decoded_def)

lemma demo_forged_sel [simp]:
  "w_OperatorIDs demo_forged = [2]" "w_FullData demo_forged = []" "w_Signatures demo_forged = [demo_sign 3]"
  "w_SSVMessage demo_forged = Some (demo_msg SSVConsensusMsgType [1, 1, 0, 0, 0, 0, 0, 0, 0, 5])"
  by (simp_all add: demo_forged_def)

lemma demo_oversized_sel [simp]:
  "w_OperatorIDs demo_oversized = [2]" "w_FullData demo_oversized = []" "w_Signatures demo_oversized = [replicate 256 0]"
  "w_SSVMessage demo_oversized = Some (demo_msg SSVConsensusMsgType [1, 1, 128, 0, 0, 0, 0, 0, 0, 0])"
  by (simp_all add: demo_oversized_def)

lemma demo_sign_length [simp]: "length (demo_sign k) = 256"
  by (simp add: demo_sign_def)

lemma demo_ci_sel [simp]:
  "ci_committee demo_ci = [1, 2, 3, 4]" "ci_validatorIndices demo_ci = [7]" "ci_committeeID demo_ci = replicate 32 0"
  "ci_subnetAlan demo_ci = 3"
  by (simp_all add: demo_ci_def newCommitteeInfo_def)

lemma demo_signerIndex [simp]: "signerIndex demo_ci 2 = 1"
  by (simp add: signerIndex_def demo_ci_def newCommitteeInfo_def eval_nat_numeral)

lemma demo_qbft_sel [simp]:
  "m_MsgType (demo_qbft_at h) = PrepareMsgType" "m_Height (demo_qbft_at h) = h" "m_Round (demo_qbft_at h) = 1"
  "m_Identifier (demo_qbft_at h) = demo_key"
  by (simp_all add: demo_qbft_at_def)

lemma demo_decode [simp]:
  "DecodeMessage demo_specmsg [1, 1, 0, 0, 0, 0, 0, 0, 0, 5] = Inr demo_qbft"
  "DecodeMessage demo_specmsg [1, 1, 128, 0, 0, 0, 0, 0, 0, 0] = Inr (demo_qbft_at (2 ^ 63))"
  by (simp_all add: demo_specmsg_def demo_DecodeMessage_def demo_qbft_at_def nat_of_bytes_def)

lemma size_limits:
  "maxPayloadDataSize = 763278" "maxEncodedConsensusMsgSize = 740506" "maxEncodedPartialSignatureSize = 763278"
  by (simp_all add: maxPayloadDataSize_def maxEncodedConsensusMsgSize_def maxConsensusMsgSize_def identifierSize_def
      rootSize_def maxSignatures_def encodingOverheadDivisor_def maxEncodedPartialSignatureSize_def
      maxPartialSignatureMsgsSize_def slotSize_def partialSignatureMsgSize_def operatorIDSize_def validatorIndexSize_def)

lemmas margin_defs = clockErrorTolerance_def earlyMessageMargin_def lateMessageMargin_def LateSlotAllowance_def

lemmas duration_defs = i64_of_u64_def i64_def maxInt64_def minInt64_def time_sub_def i64_quot_def u64_of_i64_def

lemma demo_ctx [simp]: "ctx_Err demo_env p = Ok ()"
  by (simp add: ctx_Err_def demo_env_def)

section \<open>The checks before the state\<close>

lemma demo_envelope:
  assumes "w_OperatorIDs sm = [2]" "w_Signatures sm = [s]" "length s = 256" "w_SSVMessage sm = Some m"
    "m = demo_msg SSVConsensusMsgType data" "length data = 10"
  shows "validateSignedSSVMessage (demo_validator v) (Some sm) = Ok ()" "validateSSVMessage (demo_validator v) m = Ok ()"
    "validateDomainAllowlist (demo_validator v) demo_key = Ok ()"
    "getCommitteeAndValidatorIndices (demo_validator v) E demo_key = Ok demo_ci"
    "belongsToCommittee [2] (ci_committee demo_ci) = Ok ()"
proof -
  show "validateSignedSSVMessage (demo_validator v) (Some sm) = Ok ()"
    using assms by (simp add: validateSignedSSVMessage_def rsaSignatureSize_def validateSignerNotZero_def
        validateSignerUnique_def validateSignerIsKnown_def)
  show "validateSSVMessage (demo_validator v) m = Ok ()"
    using assms(5,6) by (cases data) (auto simp: validateSSVMessage_def size_limits validRoleUnion_def)
  show "validateDomainAllowlist (demo_validator v) demo_key = Ok ()" "belongsToCommittee [2] (ci_committee demo_ci) = Ok ()"
    by (simp_all add: validateDomainAllowlist_def belongsToCommittee_def)
  show "getCommitteeAndValidatorIndices (demo_validator v) E demo_key = Ok demo_ci"
    by (simp add: getCommitteeAndValidatorIndices_def committeeRole_def Let_def demo_committee_def demo_ci_def
        committeeBooleSubnet_def committeeAlanSubnet_def)
qed

lemma demo_handle:
  assumes "w_OperatorIDs sm = [2]" "w_Signatures sm = [s]" "length s = 256"
    "w_SSVMessage sm = Some (demo_msg SSVConsensusMsgType data)" "length data = 10"
  shows "handleSignedSSVMessage S (demo_validator v) demo_env sm st =
    bind_st (validateConsensusMessage S (demo_validator v) demo_env sm (demo_msg SSVConsensusMsgType data) demo_ci st)
      (\<lambda>msg st. (Ok \<lparr>dm_Signed = Some sm, dm_SSVMessage = w_SSVMessage sm, dm_Body = Some (ConsensusBody msg)\<rparr>, st))"
  using demo_envelope [OF assms(1-4) refl assms(5)] assms(1,4) by (simp add: handleSignedSSVMessage_def)

lemma demo_topic:
  "slot = 5 \<or> slot = 2 ^ 63 \<Longrightarrow> validateTopicAtSlot (demo_validator v) demo_ci (v_topic demo_env) slot = Ok ()"
  "slot = 5 \<or> slot = 2 ^ 63 \<Longrightarrow> validateDomainAtSlot (demo_validator v) demo_key slot = Ok ()"
  by (auto simp: validateTopicAtSlot_def validateDomainAtSlot_def DomainTypeAtSlot_def demo_env_def maxUint64_def)

lemma demo_semantics:
  assumes "w_OperatorIDs sm = [2]" "w_FullData sm = []"
  shows "validateConsensusMessageSemantics demo_spec (demo_validator v) sm (demo_msg t data) (demo_qbft_at h) [1, 2, 3, 4] = Ok ()"
  using assms
  by (simp add: validateConsensusMessageSemantics_def Let_def validRoleAtSlot_def validConsensusMsgType_def demo_spec_def
      maxRound_def MaxRound_def validateJustifications_def demo_specmsg_def demo_key_def)

lemma demo_state: "validatorState (demo_validator v) demo_key demo_ci Map.empty = (demo_va, Map.empty(demo_key \<mapsto> demo_va))"
  by (simp add: validatorState_def Let_def demo_va_def storedSlotCount_def storedEpochCount_def maxStoredSlots_def
      LateSlotAllowance_def eval_nat_numeral)

lemma demo_va_ok: "va_ok 34 3 4 demo_va"
  by (simp add: va_ok_def demo_va_def)

lemma demo_logic:
  "w_OperatorIDs sm = [2] \<Longrightarrow> validateQBFTLogic demo_spec (demo_validator v) demo_env sm (demo_qbft_at h) demo_ci demo_va = Ok ()"
  by (simp add: validateQBFTLogic_def peekOperatorState_def demo_va_def GetSignerStateForSlot_def)

section \<open>The prepare message is accepted, the forged one is not\<close>

lemma demo_slot_time: "validateSlotTime (demo_validator v) 5 RoleCommittee (v_receivedAt demo_env) = Ok ()"
  by (simp add: validateSlotTime_def messageEarliness_def messageLateness_def lateness_ttl_def maxStoredSlots_def
      SlotStartTime_def demo_env_def margin_defs duration_defs)

lemma demo_round: "roundBelongsToAllowedSpread demo_spec (demo_validator v) demo_env RoleCommittee demo_qbft = Ok ()"
  by (simp add: roundBelongsToAllowedSpread_def RoundRelativeRole_def SlotStartTime_def duration_defs demo_env_def
      IntervalDuration_def EstimatedRoundAt_def round1HeadStart_def Let_def defaultQuickTimeoutForRole_def QuickTimeout_def
      DurationFromUint64_def QuickTimeoutThreshold_def demo_spec_def allowedRoundsInPast_def allowedRoundsInFuture_def)

lemma demo_duty_count: "validateDutyCount (demo_validator v) demo_key 5 [7] None = Ok ()"
  by (simp add: validateDutyCount_def DutyCount_def dutyLimit_def Let_def GetSignerStateForSlot_def
      EstimatedSyncCommitteePeriodAtEpoch_def len_u64_def NewStore_def SyncDuty_def NewSyncCommitteeDuties_def)

lemma demo_duty:
  "w_OperatorIDs sm = [2] \<Longrightarrow>
   validateQBFTMessageByDutyLogic demo_spec (demo_validator v) demo_env sm (demo_msg t data) demo_qbft demo_ci demo_va = Ok ()"
  by (simp add: validateQBFTMessageByDutyLogic_def peekOperatorState_def demo_va_def Let_def committeeRole_def
      validateBeaconDuty_def demo_slot_time demo_round demo_duty_count)

lemma demo_update:
  "w_OperatorIDs sm = [2] \<Longrightarrow> fst (updateConsensusState (demo_validator v) demo_env sm demo_qbft demo_ci demo_va) = Ok ()"
  by (subst updateConsensusState_Ok [OF demo_va_ok]) (simp_all add: validConsensusMsgType_def)

lemma demo_accepts: "fst (handleSignedSSVMessage demo_spec demo_mv demo_env demo_prepare Map.empty) = Ok demo_decoded"
proof -
  obtain cs where cs: "updateConsensusState demo_mv demo_env demo_prepare demo_qbft demo_ci demo_va = (Ok (), cs)"
    using demo_update [of demo_prepare] unfolding demo_mv_def by (metis demo_prepare_sel(1) surjective_pairing)
  show ?thesis
    using cs unfolding demo_mv_def
    by (simp add: demo_handle validateConsensusMessage_def size_limits demo_topic demo_semantics demo_state demo_logic
        demo_duty demo_decoded_def)
qed

lemma demo_refuses_forged:
  "handleSignedSSVMessage demo_spec demo_mv demo_env demo_forged Map.empty =
     (Err (set_inner ErrSignatureVerification (WrapErr ''verify opid signature'' (PlainErr ''signature''))),
      Map.empty(demo_key \<mapsto> demo_va))"
proof -
  have "demo_sign 3 \<noteq> demo_sign 2" by (simp add: demo_sign_def)
  then show ?thesis
    unfolding demo_mv_def
    by (simp add: demo_handle validateConsensusMessage_def size_limits demo_topic demo_semantics demo_state demo_logic
        demo_duty)
qed

section \<open>A slot out of range\<close>

lemma demo_duty_oversized:
  "w_OperatorIDs sm = [2] \<Longrightarrow>
   validateQBFTMessageByDutyLogic demo_spec (demo_validator v) demo_env sm (demo_msg t data) (demo_qbft_at (2 ^ 63)) demo_ci st
     = Panic"
  by (simp add: validateQBFTMessageByDutyLogic_def Let_def committeeRole_def validateBeaconDuty_def validateSlotTime_def
      messageEarliness_def SlotStartTime_def maxInt64_def)


end
