(* ===== verification/Validation_Properties.thy ===== *)
theory Validation_Properties
  imports Validation_Demo
begin

text \<open>
  What message validation guarantees: the shape of the states it keeps, that a message it refuses
  leaves no trace in them, what an accepted message has passed, and that no consensus message is
  accepted twice.
\<close>

section \<open>The states\<close>

definition slots_of :: "messageValidator \<Rightarrow> bytes \<Rightarrow> u64" where
  "slots_of mv key = storedSlotCount mv (GetRoleType (mv_spec mv) key)"

definition epochs_of :: "messageValidator \<Rightarrow> bytes \<Rightarrow> u64" where
  "epochs_of mv key = storedEpochCount mv (GetRoleType (mv_spec mv) key)"

definition states_ok :: "messageValidator \<Rightarrow> states \<Rightarrow> bool" where
  "states_ok mv st \<longleftrightarrow>
     (\<forall>key v. st key = Some v \<longrightarrow>
        va_ok (slots_of mv key) (epochs_of mv key) (length (va_operators v)) v
        \<and> (\<forall>E ci. getCommitteeAndValidatorIndices mv E key = Ok ci \<longrightarrow> ci_committeeID ci = va_committeeID v \<longrightarrow>
             length (va_operators v) = length (ci_committee ci)))"

definition retention_ok :: "messageValidator \<Rightarrow> bool" where
  "retention_ok mv \<longleftrightarrow> (\<forall>role. storedSlotCount mv role \<noteq> 0)"

lemma storedEpochCount_nonzero [simp]: "storedEpochCount mv role \<noteq> 0"
  by (cases role) (simp_all add: storedEpochCount_def proposerPreferencesEarlyEpochs_def)

lemma validatorState_ok:
  assumes "states_ok mv st" "retention_ok mv" "getCommitteeAndValidatorIndices mv E key = Ok ci"
  shows "va_ok (slots_of mv key) (epochs_of mv key) (length (ci_committee ci)) (fst (validatorState mv key ci st))"
    "va_committeeID (fst (validatorState mv key ci st)) = ci_committeeID ci"
proof -
  have new: "va_ok (slots_of mv key) (epochs_of mv key) (length (ci_committee ci))
      \<lparr>va_committeeID = ci_committeeID ci, va_operators = replicate (length (ci_committee ci)) None,
       va_storedSlotCount = slots_of mv key, va_storedEpochCount = epochs_of mv key\<rparr>"
    using assms(2) by (auto simp: va_ok_def retention_ok_def slots_of_def epochs_of_def)
  show "va_ok (slots_of mv key) (epochs_of mv key) (length (ci_committee ci)) (fst (validatorState mv key ci st))"
  proof (cases "st key")
    case None
    with new show ?thesis by (simp add: validatorState_def slots_of_def epochs_of_def Let_def)
  next
    case (Some v)
    with assms(1,3) have "va_ok (slots_of mv key) (epochs_of mv key) (length (ci_committee ci)) v"
      if "va_committeeID v = ci_committeeID ci" using that unfolding states_ok_def by metis
    with Some new show ?thesis by (simp add: validatorState_def slots_of_def epochs_of_def Let_def)
  qed
  show "va_committeeID (fst (validatorState mv key ci st)) = ci_committeeID ci"
    by (simp add: validatorState_def Let_def split: option.split)
qed

lemma states_ok_update:
  assumes "states_ok mv st" "getCommitteeAndValidatorIndices mv E key = Ok ci"
    "va_ok (slots_of mv key) (epochs_of mv key) (length (ci_committee ci)) v" "va_committeeID v = ci_committeeID ci"
  shows "states_ok mv (st(key \<mapsto> v))"
proof -
  have len: "length (va_operators v) = length (ci_committee ci)" using assms(3) by (simp add: va_ok_def)
  have "length (va_operators v) = length (ci_committee ci')"
    if "getCommitteeAndValidatorIndices mv E' key = Ok ci'" for E' ci'
    using getCommittee_same [OF assms(2) that] len by simp
  then show ?thesis using assms(1,3) len by (simp add: states_ok_def)
qed

lemma envelope_signers:
  assumes "envelope_checked mv E sm m ci" "signer \<in> set (w_OperatorIDs sm)"
  shows "signer \<in> set (ci_committee ci)" "signerIndex ci signer < length (ci_committee ci)"
proof -
  show "signer \<in> set (ci_committee ci)"
    using assms by (auto simp: envelope_checked_def belongsToCommittee_def res_dest)
  then show "signerIndex ci signer < length (ci_committee ci)"
    using assms(1) signerIndex_nth(1) getCommittee_ok by (metis envelope_checked_def)
qed

section \<open>Runs\<close>

text \<open>
  A run of the validator: messages arriving one after the other, and entries of the cache of states
  running out in between.
\<close>

datatype val_event = Gossip venv SignedMsg | Expire bytes

primrec val_step :: "'c specqbft \<Rightarrow> messageValidator \<Rightarrow> val_event \<Rightarrow> states \<Rightarrow> states" where
  "val_step S mv (Gossip E sm) st = snd (handleSignedSSVMessage S mv E sm st)"
| "val_step S mv (Expire key) st = st(key := None)"

text \<open>The slot of a message, when it decodes.\<close>

definition slot_of :: "messageValidator \<Rightarrow> SSVMessage \<Rightarrow> u64 option" where
  "slot_of mv m =
     (if ssv_MsgType m = SSVConsensusMsgType
      then (case DecodeMessage (mv_spec mv) (ssv_Data m) of Inr msg \<Rightarrow> Some (m_Height msg) | Inl _ \<Rightarrow> None)
      else (case DecodePartialSigs (mv_spec mv) (ssv_Data m) of Inr psm \<Rightarrow> Some (ps_Slot psm) | Inl _ \<Rightarrow> None))"

text \<open>An event that does not evict the state of \<open>key\<close> at \<open>slot\<close>.\<close>

definition spares :: "messageValidator \<Rightarrow> bytes \<Rightarrow> u64 \<Rightarrow> val_event \<Rightarrow> bool" where
  "spares mv key slot ev \<longleftrightarrow>
     (case ev of
        Expire k \<Rightarrow> k \<noteq> key
      | Gossip E sm \<Rightarrow>
          (case w_SSVMessage sm of
             None \<Rightarrow> True
           | Some m \<Rightarrow> ssv_MsgID m \<noteq> key
               \<or> (case slot_of mv m of
                    None \<Rightarrow> True
                  | Some slot' \<Rightarrow> slot' = slot \<or> slot' mod slots_of mv key \<noteq> slot mod slots_of mv key)))"

definition held :: "states \<Rightarrow> bytes \<Rightarrow> CommitteeInfo \<Rightarrow> nat \<Rightarrow> u64 \<Rightarrow> Round \<Rightarrow> MessageType \<Rightarrow> bool" where
  "held st key ci idx slot r t \<longleftrightarrow>
     (\<exists>v. st key = Some v \<and> va_committeeID v = ci_committeeID ci \<and> blocked v idx slot r t)"

lemma held_validatorState: "held st key ci idx slot r t \<Longrightarrow> blocked (fst (validatorState mv key ci st)) idx slot r t"
  by (auto simp: held_def validatorState_def Let_def)

lemma consensus_step:
  assumes "states_ok mv st" "retention_ok mv" "envelope_checked mv E sm m ci"
    "ssv_MsgType m = SSVConsensusMsgType" "validateConsensusMessage S mv E sm m ci st = (r1, st')"
  shows "states_ok mv st'"
    "held st (ssv_MsgID m) ci idx slot r t \<Longrightarrow> spares mv (ssv_MsgID m) slot (Gossip E sm) \<Longrightarrow>
     held st' (ssv_MsgID m) ci idx slot r t"
    "k \<noteq> ssv_MsgID m \<Longrightarrow> st' k = st k"
proof -
  let ?key = "ssv_MsgID m"
  let ?v = "fst (validatorState mv ?key ci st)"
  have ci: "getCommitteeAndValidatorIndices mv E ?key = Ok ci" using assms(3) by (simp add: envelope_checked_def)
  note vok = validatorState_ok [OF assms(1,2) ci]
  have refused: "states_ok mv (st(?key \<mapsto> ?v))" by (rule states_ok_update [OF assms(1) ci vok])
  have idxs: "\<forall>signer \<in> set (w_OperatorIDs sm). signerIndex ci signer < length (ci_committee ci)"
    using envelope_signers [OF assms(3)] by blast
  have rec: "states_ok mv (st(?key \<mapsto> state)) \<and>
      (held st ?key ci idx slot r t \<longrightarrow> spares mv ?key slot (Gossip E sm) \<longrightarrow> held (st(?key \<mapsto> state)) ?key ci idx slot r t)"
    if u: "consensus_checked S mv E sm m ci msg ?v" "updateConsensusState mv E sm msg ci ?v = (r2, state)" for msg r2 state
  proof -
    note keep = updateConsensusState_keeps [OF vok(1) idxs u(2)]
    have "slot_of mv m = Some (m_Height msg)" "w_SSVMessage sm = Some m"
      using u(1) assms(3,4) by (simp_all add: slot_of_def consensus_checked_def envelope_checked_def)
    then show ?thesis
      using keep vok(2) states_ok_update [OF assms(1) ci] held_validatorState [of st ?key ci]
      by (auto simp: held_def spares_def)
  qed
  from assms(5) show "states_ok mv st'"
    by (cases rule: validateConsensusMessage_cases) (use assms(1) refused rec in auto)
  from assms(5) show "held st' ?key ci idx slot r t" if "held st ?key ci idx slot r t" "spares mv ?key slot (Gossip E sm)"
    by (cases rule: validateConsensusMessage_cases)
      (use that rec held_validatorState [OF that(1)] vok(2) in \<open>auto simp: held_def\<close>)
  from assms(5) show "k \<noteq> ?key \<Longrightarrow> st' k = st k"
    by (cases rule: validateConsensusMessage_cases) auto
qed

lemma partial_step:
  assumes "states_ok mv st" "retention_ok mv" "envelope_checked mv E sm m ci"
    "ssv_MsgType m = SSVPartialSignatureMsgType" "validatePartialSignatureMessage S mv E sm m ci st = (r1, st')"
  shows "states_ok mv st'"
    "held st (ssv_MsgID m) ci idx slot r t \<Longrightarrow> spares mv (ssv_MsgID m) slot (Gossip E sm) \<Longrightarrow>
     held st' (ssv_MsgID m) ci idx slot r t"
    "k \<noteq> ssv_MsgID m \<Longrightarrow> st' k = st k"
proof -
  let ?key = "ssv_MsgID m"
  let ?v = "fst (validatorState mv ?key ci st)"
  have ci: "getCommitteeAndValidatorIndices mv E ?key = Ok ci" using assms(3) by (simp add: envelope_checked_def)
  note vok = validatorState_ok [OF assms(1,2) ci]
  have refused: "states_ok mv (st(?key \<mapsto> ?v))" by (rule states_ok_update [OF assms(1) ci vok])
  have rec: "states_ok mv (st(?key \<mapsto> state)) \<and>
      (held st ?key ci idx slot r t \<longrightarrow> spares mv ?key slot (Gossip E sm) \<longrightarrow> held (st(?key \<mapsto> state)) ?key ci idx slot r t)"
    if u: "partial_checked mv E sm m ci psm ?v signer"
      "updatePartialSignatureState S mv E psm ci signer ?v = (r2, state)" for psm signer r2 state
  proof -
    have "signer \<in> set (w_OperatorIDs sm)"
      using u(1) by (auto simp: partial_checked_def firstSigner_def split: list.splits)
    note keep = updatePartialSignatureState_keeps [OF vok(1) envelope_signers(2) [OF assms(3) this] u(2)]
    have "slot_of mv m = Some (ps_Slot psm)" "w_SSVMessage sm = Some m"
      using u(1) assms(3,4) by (simp_all add: slot_of_def partial_checked_def envelope_checked_def)
    then show ?thesis
      using keep vok(2) states_ok_update [OF assms(1) ci] held_validatorState [of st ?key ci]
      by (auto simp: held_def spares_def)
  qed
  from assms(5) show "states_ok mv st'"
    by (cases rule: validatePartialSignatureMessage_cases) (use assms(1) refused rec in auto)
  from assms(5) show "held st' ?key ci idx slot r t" if "held st ?key ci idx slot r t" "spares mv ?key slot (Gossip E sm)"
    by (cases rule: validatePartialSignatureMessage_cases)
      (use that rec held_validatorState [OF that(1)] vok(2) in \<open>auto simp: held_def\<close>)
  from assms(5) show "k \<noteq> ?key \<Longrightarrow> st' k = st k"
    by (cases rule: validatePartialSignatureMessage_cases) auto
qed

lemma handle_step:
  assumes "states_ok mv st" "retention_ok mv" "handleSignedSSVMessage S mv E sm st = (r', st')"
  shows "states_ok mv st'"
    "getCommitteeAndValidatorIndices mv E0 key = Ok ci \<Longrightarrow> held st key ci idx slot r t \<Longrightarrow>
     spares mv key slot (Gossip E sm) \<Longrightarrow> held st' key ci idx slot r t"
proof -
  from assms(3) show "states_ok mv st'"
    by (cases rule: handleSignedSSVMessage_cases)
      (use assms(1) consensus_step(1) [OF assms(1,2)] partial_step(1) [OF assms(1,2)] in blast)+
  assume ci: "getCommitteeAndValidatorIndices mv E0 key = Ok ci"
    and h: "held st key ci idx slot r t" and sp: "spares mv key slot (Gossip E sm)"
  from assms(3) show "held st' key ci idx slot r t"
  proof (cases rule: handleSignedSSVMessage_cases)
    case before
    with h show ?thesis by simp
  next
    case (consensus m ci' r1)
    note step = consensus_step [OF assms(1,2) consensus(1-3)]
    show ?thesis
    proof (cases "key = ssv_MsgID m")
      case True
      with ci consensus(1) have "ci' = ci" by (auto simp: envelope_checked_def intro: getCommittee_same)
      with step(2) True h sp show ?thesis by simp
    qed (use step(3) h in \<open>simp add: held_def\<close>)
  next
    case (partial m ci' r1)
    note step = partial_step [OF assms(1,2) partial(1-3)]
    show ?thesis
    proof (cases "key = ssv_MsgID m")
      case True
      with ci partial(1) have "ci' = ci" by (auto simp: envelope_checked_def intro: getCommittee_same)
      with step(2) True h sp show ?thesis by simp
    qed (use step(3) h in \<open>simp add: held_def\<close>)
  qed
qed

lemma val_step_ok: "states_ok mv st \<Longrightarrow> retention_ok mv \<Longrightarrow> states_ok mv (val_step S mv ev st)"
proof (cases ev)
  case (Gossip E sm)
  assume "states_ok mv st" "retention_ok mv"
  from handle_step(1) [OF this, of S E sm] Gossip show ?thesis by (metis surjective_pairing val_step.simps(1))
qed (auto simp: states_ok_def)

lemma val_step_held:
  assumes "states_ok mv st" "retention_ok mv" "getCommitteeAndValidatorIndices mv E0 key = Ok ci"
    "held st key ci idx slot r t" "spares mv key slot ev"
  shows "held (val_step S mv ev st) key ci idx slot r t"
proof (cases ev)
  case (Gossip E sm)
  with handle_step(2) [OF assms(1,2) _ assms(3,4), of S E sm] assms(5) show ?thesis
    by (metis surjective_pairing val_step.simps(1))
qed (use assms in \<open>auto simp: held_def spares_def\<close>)

lemma run_ok: "states_ok mv st \<Longrightarrow> retention_ok mv \<Longrightarrow> states_ok mv (fold (val_step S mv) evs st)"
  by (induction evs arbitrary: st) (simp_all add: val_step_ok)

lemma run_held:
  assumes "states_ok mv st" "retention_ok mv" "getCommitteeAndValidatorIndices mv E0 key = Ok ci"
    "held st key ci idx slot r t" "\<forall>ev \<in> set evs. spares mv key slot ev"
  shows "held (fold (val_step S mv) evs st) key ci idx slot r t"
  using assms
proof (induction evs arbitrary: st)
  case (Cons ev evs)
  have "spares mv key slot ev" "\<forall>ev \<in> set evs. spares mv key slot ev" using Cons.prems(5) by simp_all
  with Cons.IH [OF val_step_ok [OF Cons.prems(1,2)] Cons.prems(2,3) val_step_held [OF Cons.prems(1-4)]]
  show ?case by simp
qed simp

section \<open>Accepted messages\<close>

lemma limit_repeated:
  "seen_type (m_MsgType msg) (SeenTypes (sg_World s)) \<Longrightarrow> length ids = 1 \<Longrightarrow>
   validateConsensusMessageLimit ids msg p s \<noteq> Ok ()"
  by (cases "m_MsgType msg") (auto simp: validateConsensusMessageLimit_def repeated_def Let_def)

lemma slot_state_get:
  assumes "va_ok c e n v" "i < n"
  shows "peekOperatorState v i = (Ok (va_operators v ! i) :: (go_err, _) res)"
    "GetSignerStateForSlot (va_operators v ! i) slot = (Ok (slot_state (va_operators v ! i) slot) :: (go_err, _) res)"
  using assms GetSignerStateForSlot_slot_state [of "va_operators v ! i" c e, where 'a = go_err] va_ok_nth [OF assms]
  by (auto simp: peekOperatorState_def va_ok_def)

lemma gate_not_blocked:
  assumes "va_ok c e n v" "signerIndex ci signer < n" "w_OperatorIDs sm = [signer]"
    "validateQBFTLogic S mv E sm msg ci v = Ok ()"
  shows "\<not> blocked v (signerIndex ci signer) (m_Height msg) (m_Round msg) (m_MsgType msg)"
    "slot_state (va_operators v ! signerIndex ci signer) (m_Height msg) = Some s \<Longrightarrow> sg_Round s \<le> m_Round msg"
proof -
  have gate: "case slot_state (va_operators v ! signerIndex ci signer) (m_Height msg) of
      None \<Rightarrow> True | Some s \<Rightarrow> validateSignerQBFT sm msg (v_receivedFrom E) s = Ok ()"
    using assms(3,4) slot_state_get [OF assms(1,2)]
    by (auto simp: validateQBFTLogic_def res_dest split: option.splits)
  then show "\<not> blocked v (signerIndex ci signer) (m_Height msg) (m_Round msg) (m_MsgType msg)"
    using assms(3) limit_repeated [of msg _ "[signer]"]
    by (auto simp: blocked_def validateSignerQBFT_def res_dest split: option.splits if_splits)
  show "sg_Round s \<le> m_Round msg"
    if "slot_state (va_operators v ! signerIndex ci signer) (m_Height msg) = Some s"
    using gate that assms(3) by (auto simp: validateSignerQBFT_def split: if_splits)
qed

lemma accepted_consensus:
  assumes "handleSignedSSVMessage S mv E sm st = (Ok d, st')" "dm_Body d = Some (ConsensusBody msg)"
  obtains m ci state where "envelope_checked mv E sm m ci" "ssv_MsgType m = SSVConsensusMsgType"
    "consensus_checked S mv E sm m ci msg (fst (validatorState mv (ssv_MsgID m) ci st))"
    "updateConsensusState mv E sm msg ci (fst (validatorState mv (ssv_MsgID m) ci st)) = (Ok (), state)"
    "st' = st(ssv_MsgID m \<mapsto> state)"
  using assms(1)
proof (cases rule: handleSignedSSVMessage_cases)
  case (consensus m ci r1)
  from consensus(4) assms(2) have r1: "r1 = Ok msg" by (cases r1) auto
  from consensus(3) show ?thesis
    by (cases rule: validateConsensusMessage_cases)
      (use that [OF consensus(1,2)] r1 in \<open>auto simp: bind_res_Ok_iff dest: sym\<close>)
next
  case (partial m ci r1)
  with assms(2) show ?thesis by (cases r1) auto
qed auto

lemma accepted_partial:
  assumes "handleSignedSSVMessage S mv E sm st = (Ok d, st')" "dm_Body d = Some (PartialBody psm)"
  obtains m ci signer state where "envelope_checked mv E sm m ci" "ssv_MsgType m = SSVPartialSignatureMsgType"
    "partial_checked mv E sm m ci psm (fst (validatorState mv (ssv_MsgID m) ci st)) signer"
    "updatePartialSignatureState S mv E psm ci signer (fst (validatorState mv (ssv_MsgID m) ci st)) = (Ok (), state)"
    "st' = st(ssv_MsgID m \<mapsto> state)"
  using assms(1)
proof (cases rule: handleSignedSSVMessage_cases)
  case (partial m ci r1)
  from partial(4) assms(2) have r1: "r1 = Ok psm" by (cases r1) auto
  from partial(3) show ?thesis
    by (cases rule: validatePartialSignatureMessage_cases)
      (use that [OF partial(1,2)] r1 in \<open>auto simp: bind_res_Ok_iff dest: sym\<close>)
next
  case (consensus m ci r1)
  with assms(2) show ?thesis by (cases r1) auto
qed auto

lemma accepted_held:
  assumes "states_ok mv st" "retention_ok mv" "handleSignedSSVMessage S mv E sm st = (Ok d, st')"
    "dm_Body d = Some (ConsensusBody msg)" "w_OperatorIDs sm = [signer]" "w_SSVMessage sm = Some m"
  obtains ci where "envelope_checked mv E sm m ci"
    "held st' (ssv_MsgID m) ci (signerIndex ci signer) (m_Height msg) (m_Round msg) (m_MsgType msg)"
proof -
  obtain m' ci state where a: "envelope_checked mv E sm m' ci"
    "consensus_checked S mv E sm m' ci msg (fst (validatorState mv (ssv_MsgID m') ci st))"
    "updateConsensusState mv E sm msg ci (fst (validatorState mv (ssv_MsgID m') ci st)) = (Ok (), state)"
    "st' = st(ssv_MsgID m' \<mapsto> state)"
    using accepted_consensus [OF assms(3,4)] by metis
  have m: "m' = m" using a(1) assms(6) by (simp add: envelope_checked_def)
  let ?v = "fst (validatorState mv (ssv_MsgID m) ci st)"
  have ci: "getCommitteeAndValidatorIndices mv E (ssv_MsgID m) = Ok ci" using a(1) m by (simp add: envelope_checked_def)
  note vok = validatorState_ok [OF assms(1,2) ci]
  have idx: "signerIndex ci signer < length (ci_committee ci)" using envelope_signers(2) [OF a(1)] assms(5) by simp
  obtain epoch where "updateSignerConsensus E sm msg epoch ci signer ?v = (Ok (), state)"
  proof (cases "EstimatedEpochAtSlot (beacon mv) (m_Height msg) :: (go_err, _) res")
    case (Ok epoch)
    with a(3) m assms(5) show ?thesis
      by (auto simp: updateConsensusState_def bind_st_Ok_iff intro!: that [of epoch])
  qed (use a(3) in \<open>simp_all add: updateConsensusState_def\<close>)
  note upd = updateSignerConsensus_keeps [OF vok(1) idx this]
  have "validateQBFTLogic S mv E sm msg ci ?v = Ok ()" using a(2) m by (simp add: consensus_checked_def)
  from gate_not_blocked(2) [OF vok(1) idx assms(5) this] upd(2,5) assms(5) vok(2) a(4) m
  have "held st' (ssv_MsgID m) ci (signerIndex ci signer) (m_Height msg) (m_Round msg) (m_MsgType msg)"
    by (simp add: held_def)
  with a(1) m that show ?thesis by blast
qed

lemma held_refuses:
  assumes "states_ok mv st" "retention_ok mv" "held st (ssv_MsgID m) ci (signerIndex ci signer) (m_Height msg) (m_Round msg) (m_MsgType msg)"
    "getCommitteeAndValidatorIndices mv E0 (ssv_MsgID m) = Ok ci"
    "w_OperatorIDs sm = [signer]" "w_SSVMessage sm = Some m" "ssv_MsgType m = SSVConsensusMsgType"
    "DecodeMessage (mv_spec mv) (ssv_Data m) = Inr msg'" "m_Height msg' = m_Height msg" "m_Round msg' = m_Round msg"
    "m_MsgType msg' = m_MsgType msg"
  shows "\<not> is_Ok (fst (handleSignedSSVMessage S mv E sm st))"
proof
  assume "is_Ok (fst (handleSignedSSVMessage S mv E sm st))"
  then obtain d st' where ok: "handleSignedSSVMessage S mv E sm st = (Ok d, st')"
    by (metis is_Ok_iff surjective_pairing)
  then obtain ci' r1 where c: "envelope_checked mv E sm m ci'" "validateConsensusMessage S mv E sm m ci' st = (r1, st')" "is_Ok r1"
    by (cases rule: handleSignedSSVMessage_cases)
      (use assms(6,7) in \<open>auto simp: envelope_checked_def eq_commute [of "Ok d" "bind_res _ _"] bind_res_Ok_iff is_Ok_iff\<close>)
  have ci: "getCommitteeAndValidatorIndices mv E (ssv_MsgID m) = Ok ci'" "ci' = ci"
    using c(1) getCommittee_same [OF assms(4)] by (auto simp: envelope_checked_def)
  from c(2,3) obtain msg'' where "consensus_checked S mv E sm m ci msg'' (fst (validatorState mv (ssv_MsgID m) ci st))"
    by (cases rule: validateConsensusMessage_cases) (auto simp: ci(2))
  with assms(8) have "validateQBFTLogic S mv E sm msg' ci (fst (validatorState mv (ssv_MsgID m) ci st)) = Ok ()"
    by (simp add: consensus_checked_def)
  moreover have "signerIndex ci signer < length (ci_committee ci)"
    using envelope_signers(2) [OF c(1)] assms(5) ci(2) by simp
  ultimately have "\<not> blocked (fst (validatorState mv (ssv_MsgID m) ci st)) (signerIndex ci signer) (m_Height msg') (m_Round msg') (m_MsgType msg')"
    using gate_not_blocked(1) [OF validatorState_ok(1) [OF assms(1,2) assms(4)] _ assms(5)] by blast
  with held_validatorState [OF assms(3), of mv] assms(9-11) show False by simp
qed

lemma validateSigners_Ok:
  "validateSigners mv p ids = Ok () \<Longrightarrow> sorted (p # ids) \<Longrightarrow> sorted_wrt (<) (p # ids) \<and> 0 \<notin> set ids"
proof (induction ids arbitrary: p)
  case (Cons a ids)
  have a: "a \<noteq> 0" "a \<noteq> p" "validateSigners mv a ids = Ok ()"
    using Cons.prems(1) by (auto simp: res_dest validateSignerNotZero_def validateSignerUnique_def)
  with Cons.IH [OF a(3)] Cons.prems(2) have tail: "sorted_wrt (<) (a # ids)" "0 \<notin> set ids" by simp_all
  moreover have "p < a" using a(2) Cons.prems(2) by auto
  ultimately show ?case using a(1) by (auto intro: less_trans)
qed simp

lemma verifySignatures_Ok:
  "verifySignatures mv E m k ids sigs = Ok () \<Longrightarrow> i < length sigs \<Longrightarrow> mv_VerifySignature mv (ids ! i) m (sigs ! i) = None"
  by (induction mv E m k ids sigs arbitrary: i rule: verifySignatures.induct)
    (auto simp: res_dest nth_Cons' split: option.splits)

lemma envelope_facts:
  assumes "envelope_checked mv E sm m ci"
  shows "w_SSVMessage sm = Some m" "getCommitteeAndValidatorIndices mv E (ssv_MsgID m) = Ok ci"
    "w_OperatorIDs sm \<noteq> []" "sorted_wrt (<) (w_OperatorIDs sm)" "0 \<notin> set (w_OperatorIDs sm)"
    "set (w_OperatorIDs sm) \<subseteq> set (ci_committee ci)" "length (w_Signatures sm) = length (w_OperatorIDs sm)"
proof -
  have signed: "w_OperatorIDs sm \<noteq> []" "sorted (w_OperatorIDs sm)" "length (w_Signatures sm) = length (w_OperatorIDs sm)"
      "validateSigners mv 0 (w_OperatorIDs sm) = Ok ()"
    using assms by (auto simp: envelope_checked_def validateSignedSSVMessage_def res_dest)
  then have "sorted (0 # w_OperatorIDs sm)" by simp
  from validateSigners_Ok [OF signed(4) this]
  show "sorted_wrt (<) (w_OperatorIDs sm)" "0 \<notin> set (w_OperatorIDs sm)" by simp_all
  show "set (w_OperatorIDs sm) \<subseteq> set (ci_committee ci)" using envelope_signers(1) [OF assms] by blast
qed (use assms in \<open>auto simp: envelope_checked_def validateSignedSSVMessage_def res_dest\<close>)

lemma partial_signer:
  assumes "partial_checked mv E sm m ci psm state signer"
  shows "w_OperatorIDs sm = [signer]" "mv_VerifySignature mv signer m (hd (w_Signatures sm)) = None"
  using assms
  by (auto simp: partial_checked_def validatePartialSignatureMessageSemantics_def firstSigner_def Let_def res_dest
      length_Suc_conv split: list.splits)

lemma demo_states_ok: "states_ok mv Map.empty"
  by (simp add: states_ok_def)

lemma demo_retention: "retention_ok demo_mv"
  by (simp add: retention_ok_def demo_mv_def storedSlotCount_def maxStoredSlots_def LateSlotAllowance_def
      proposerPreferencesEarlyEpochs_def)

section \<open>Properties\<close>

text \<open>
  C6: Authenticity of what is handed on. Whatever validation accepts was signed by members of the
  committee its identifier resolves to: the signers are not empty, strictly ascending (so
  distinct), none is zero, all belong to that committee, there is one signature per signer, and
  each was verified against the message for its own signer.
\<close>

theorem accepted_signed_by_committee:
  assumes "fst (handleSignedSSVMessage S mv E sm st) = Ok d"
  shows "\<exists>m ci. w_SSVMessage sm = Some m \<and> dm_SSVMessage d = Some m
    \<and> getCommitteeAndValidatorIndices mv E (ssv_MsgID m) = Ok ci
    \<and> w_OperatorIDs sm \<noteq> [] \<and> sorted_wrt (<) (w_OperatorIDs sm) \<and> 0 \<notin> set (w_OperatorIDs sm)
    \<and> set (w_OperatorIDs sm) \<subseteq> set (ci_committee ci) \<and> length (w_Signatures sm) = length (w_OperatorIDs sm)
    \<and> (\<forall>i < length (w_OperatorIDs sm). mv_VerifySignature mv (w_OperatorIDs sm ! i) m (w_Signatures sm ! i) = None)"
proof -
  obtain st' where h: "handleSignedSSVMessage S mv E sm st = (Ok d, st')" using assms by (metis surjective_pairing)
  from h show ?thesis
  proof (cases rule: handleSignedSSVMessage_cases)
    case (consensus m ci r1)
    then obtain msg where "dm_Body d = Some (ConsensusBody msg)" "dm_SSVMessage d = Some m" by (cases r1) auto
    note env = envelope_facts [OF consensus(1)]
    from accepted_consensus [OF h \<open>dm_Body d = _\<close>] obtain m' ci' where
      c: "envelope_checked mv E sm m' ci'" "verifySignatures mv E m' 0 (w_OperatorIDs sm) (w_Signatures sm) = Ok ()"
      unfolding consensus_checked_def by metis
    have "m' = m" using envelope_facts(1) [OF c(1)] env(1) by simp
    with verifySignatures_Ok [OF c(2)] env \<open>dm_SSVMessage d = Some m\<close> show ?thesis by auto
  next
    case (partial m ci r1)
    then obtain psm where "dm_Body d = Some (PartialBody psm)" "dm_SSVMessage d = Some m" by (cases r1) auto
    note env = envelope_facts [OF partial(1)]
    from accepted_partial [OF h \<open>dm_Body d = _\<close>] obtain m' ci' signer state where
      c: "envelope_checked mv E sm m' ci'" "partial_checked mv E sm m' ci' psm state signer" by metis
    have "m' = m" using envelope_facts(1) [OF c(1)] env(1) by simp
    moreover have "length (w_Signatures sm) = 1" using env(7) partial_signer(1) [OF c(2)] by simp
    ultimately show ?thesis
      using partial_signer [OF c(2)] env \<open>dm_SSVMessage d = Some m\<close> by (auto simp: length_Suc_conv)
  qed simp
qed

theorem accepted_signed_by_committee_witness:
  "\<exists>m ci. w_SSVMessage demo_prepare = Some m \<and> dm_SSVMessage demo_decoded = Some m
    \<and> getCommitteeAndValidatorIndices demo_mv demo_env (ssv_MsgID m) = Ok ci
    \<and> w_OperatorIDs demo_prepare \<noteq> [] \<and> sorted_wrt (<) (w_OperatorIDs demo_prepare) \<and> 0 \<notin> set (w_OperatorIDs demo_prepare)
    \<and> set (w_OperatorIDs demo_prepare) \<subseteq> set (ci_committee ci)
    \<and> length (w_Signatures demo_prepare) = length (w_OperatorIDs demo_prepare)
    \<and> (\<forall>i < length (w_OperatorIDs demo_prepare).
          mv_VerifySignature demo_mv (w_OperatorIDs demo_prepare ! i) m (w_Signatures demo_prepare ! i) = None)"
  by (rule accepted_signed_by_committee [OF demo_accepts])

text \<open>
  C7: No consensus message counts twice. After a message of one signer has been accepted, no
  message of that signer with the same identifier, slot, round and type is accepted again, however
  the messages in between interleave, as long as the cache keeps the state of the identifier and
  no accepted slot in between shares the ring entry of this one.
\<close>

theorem no_consensus_replay:
  assumes "states_ok mv st" "retention_ok mv"
    and "fst (handleSignedSSVMessage S mv E sm st) = Ok d" "dm_Body d = Some (ConsensusBody msg)"
    and "w_OperatorIDs sm = [signer]" "w_SSVMessage sm = Some m"
    and "\<forall>ev \<in> set evs. spares mv (ssv_MsgID m) (m_Height msg) ev"
    and "w_OperatorIDs sm' = [signer]" "w_SSVMessage sm' = Some m'" "ssv_MsgID m' = ssv_MsgID m"
    and "ssv_MsgType m' = SSVConsensusMsgType" "DecodeMessage (mv_spec mv) (ssv_Data m') = Inr msg'"
    and "m_Height msg' = m_Height msg" "m_Round msg' = m_Round msg" "m_MsgType msg' = m_MsgType msg"
  shows "\<not> is_Ok (fst (handleSignedSSVMessage S mv E' sm'
            (fold (val_step S mv) evs (snd (handleSignedSSVMessage S mv E sm st)))))"
proof -
  obtain st1 where h: "handleSignedSSVMessage S mv E sm st = (Ok d, st1)" using assms(3) by (metis surjective_pairing)
  note ok1 = handle_step(1) [OF assms(1,2) h]
  obtain ci where ci: "envelope_checked mv E sm m ci"
    "held st1 (ssv_MsgID m) ci (signerIndex ci signer) (m_Height msg) (m_Round msg) (m_MsgType msg)"
    using accepted_held [OF assms(1,2) h assms(4-6)] by blast
  have get: "getCommitteeAndValidatorIndices mv E (ssv_MsgID m) = Ok ci" using envelope_facts(2) [OF ci(1)] .
  note held = run_held [OF ok1 assms(2) get ci(2) assms(7), where S = S]
  have "\<not> is_Ok (fst (handleSignedSSVMessage S mv E' sm' (fold (val_step S mv) evs st1)))"
    by (rule held_refuses [OF run_ok [OF ok1 assms(2)] assms(2) held [folded assms(10)] get [folded assms(10)]
          assms(8,9,11,12,13,14,15)])
  then show ?thesis using h by simp
qed

theorem no_consensus_replay_witness:
  "\<not> is_Ok (fst (handleSignedSSVMessage demo_spec demo_mv demo_env demo_prepare
      (fold (val_step demo_spec demo_mv)
         [Expire [], Gossip demo_env (demo_signed [3] (demo_msg SSVConsensusMsgType [1, 1, 0, 0, 0, 0, 0, 0, 0, 5]))]
         (snd (handleSignedSSVMessage demo_spec demo_mv demo_env demo_prepare Map.empty)))))"
  by (rule no_consensus_replay [where d = demo_decoded and msg = demo_qbft and msg' = demo_qbft and signer = 2
        and m = "demo_msg SSVConsensusMsgType [1, 1, 0, 0, 0, 0, 0, 0, 0, 5]"
        and m' = "demo_msg SSVConsensusMsgType [1, 1, 0, 0, 0, 0, 0, 0, 0, 5]"])
    (simp_all add: demo_accepts demo_states_ok demo_retention spares_def slot_of_def demo_mv_spec, simp add: demo_key_def)

text \<open>
  C24: What an accepted consensus message obeys. It carries the identifier it is signed under and
  the domain of the fork active at its slot; its round is a real round within the limit of its
  role; only a commit has several signers, and then at least a quorum of the committee; a
  proposal comes from the leader of its round alone; full data hashes to the root; and it is
  neither early nor late for its slot.
\<close>

theorem accepted_consensus_rules:
  assumes "fst (handleSignedSSVMessage S mv E sm st) = Ok d" "dm_Body d = Some (ConsensusBody msg)"
  shows "\<exists>m ci. w_SSVMessage sm = Some m \<and> getCommitteeAndValidatorIndices mv E (ssv_MsgID m) = Ok ci
    \<and> m_Identifier msg = ssv_MsgID m
    \<and> DomainTypeAtSlot (mv_netCfg mv) (m_Height msg) = (Ok (GetDomain (mv_spec mv) (ssv_MsgID m)) :: (go_err, _) res)
    \<and> m_Round msg \<noteq> NoRound S \<and> (\<exists>limit. MaxRound (roleOf mv m) = Some limit \<and> m_Round msg \<le> limit)
    \<and> (length (w_OperatorIDs sm) \<noteq> 1 \<longrightarrow> m_MsgType msg = CommitMsgType
         \<and> fst (ComputeQuorumAndPartialQuorum (len_u64 (ci_committee ci))) \<le> len_u64 (w_OperatorIDs sm))
    \<and> (m_MsgType msg = ProposalMsgType \<longrightarrow> (\<exists>leader. w_OperatorIDs sm = [leader]
         \<and> Proposer S (m_Height msg) (m_Round msg) (ci_committee ci) (mv_netCfg mv) = (Ok leader :: (go_err, _) res)))
    \<and> (w_FullData sm \<noteq> [] \<longrightarrow> SpecHashDataRoot (mv_spec mv) (w_FullData sm) = Inr (m_Root msg))
    \<and> (\<exists>early late. messageEarliness mv (m_Height msg) (roleOf mv m) (v_receivedAt E) = (Ok early :: (go_err, _) res)
         \<and> early \<le> 1050000000
         \<and> messageLateness mv (m_Height msg) (roleOf mv m) (v_receivedAt E) = (Ok late :: (go_err, _) res) \<and> late \<le> 50000000)"
proof -
  obtain st' where "handleSignedSSVMessage S mv E sm st = (Ok d, st')" using assms(1) by (metis surjective_pairing)
  from accepted_consensus [OF this assms(2)] obtain m ci state where
    env: "envelope_checked mv E sm m ci" and chk: "consensus_checked S mv E sm m ci msg state" by metis
  note e = envelope_facts [OF env]
  have time: "validateSlotTime mv (m_Height msg) (roleOf mv m) (v_receivedAt E) = Ok ()"
    using chk by (auto simp: consensus_checked_def validateQBFTMessageByDutyLogic_def Let_def res_dest)
  have several: "m_MsgType msg = CommitMsgType
      \<and> fst (ComputeQuorumAndPartialQuorum (len_u64 (ci_committee ci))) \<le> len_u64 (w_OperatorIDs sm)"
    if "length (w_OperatorIDs sm) \<noteq> 1"
  proof -
    have "1 < length (w_OperatorIDs sm)" using that e(3) by (cases "w_OperatorIDs sm") auto
    then show ?thesis
      using chk by (auto simp: consensus_checked_def validateConsensusMessageSemantics_def Let_def res_dest)
  qed
  have leader: "\<exists>leader. w_OperatorIDs sm = [leader]
      \<and> Proposer S (m_Height msg) (m_Round msg) (ci_committee ci) (mv_netCfg mv) = (Ok leader :: (go_err, _) res)"
    if "m_MsgType msg = ProposalMsgType"
  proof -
    have "length (w_OperatorIDs sm) = 1" using several that by fastforce
    with chk that show ?thesis
      by (auto simp: consensus_checked_def validateQBFTLogic_def firstSigner_def res_dest length_Suc_conv)
  qed
  have "m_Identifier msg = ssv_MsgID m" "m_Round msg \<noteq> NoRound S"
    "\<exists>limit. MaxRound (roleOf mv m) = Some limit \<and> m_Round msg \<le> limit"
    "w_FullData sm \<noteq> [] \<longrightarrow> SpecHashDataRoot (mv_spec mv) (w_FullData sm) = Inr (m_Root msg)"
    using chk by (auto simp: consensus_checked_def validateConsensusMessageSemantics_def maxRound_def Let_def res_dest
        split: option.splits if_splits)
  moreover have "DomainTypeAtSlot (mv_netCfg mv) (m_Height msg) = (Ok (GetDomain (mv_spec mv) (ssv_MsgID m)) :: (go_err, _) res)"
    using chk by (auto simp: consensus_checked_def validateDomainAtSlot_def res_dest)
  moreover have "\<exists>early late. messageEarliness mv (m_Height msg) (roleOf mv m) (v_receivedAt E) = (Ok early :: (go_err, _) res)
         \<and> early \<le> 1050000000
         \<and> messageLateness mv (m_Height msg) (roleOf mv m) (v_receivedAt E) = (Ok late :: (go_err, _) res) \<and> late \<le> 50000000"
    using time by (auto simp: validateSlotTime_def margin_defs res_dest split: if_splits)
  ultimately show ?thesis using e(1,2) several leader by blast
qed

theorem accepted_consensus_rules_witness:
  "fst (handleSignedSSVMessage demo_spec demo_mv demo_env demo_prepare Map.empty) = Ok demo_decoded
   \<and> (\<exists>m. w_SSVMessage demo_prepare = Some m \<and> m_Identifier demo_qbft = ssv_MsgID m)"
proof -
  from accepted_consensus_rules [OF demo_accepts demo_decoded_sel] demo_accepts show ?thesis by blast
qed

text \<open>
  C26: A refused message leaves no trace. When validation ends in an error, the state kept for any
  identifier is what it was, except that an identifier whose committee is new to the cache gets
  an empty state: nothing an unverified or repeated message carries is recorded.
\<close>

theorem refused_leaves_no_trace:
  assumes "states_ok mv st" "retention_ok mv" "handleSignedSSVMessage S mv E sm st = (Err err, st')"
  shows "st' key = st key
    \<or> (\<exists>v ci. st' key = Some v \<and> getCommitteeAndValidatorIndices mv E key = Ok ci
         \<and> v = \<lparr>va_committeeID = ci_committeeID ci, va_operators = replicate (length (ci_committee ci)) None,
                 va_storedSlotCount = slots_of mv key, va_storedEpochCount = epochs_of mv key\<rparr>
         \<and> (\<forall>u. st key = Some u \<longrightarrow> va_committeeID u \<noteq> ci_committeeID ci))"
proof -
  have no_err: "EstimatedEpochAtSlot b slot \<noteq> Err e" for b slot and e :: go_err by (simp add: EstimatedEpochAtSlot_def)
  have fresh: ?thesis
    if "getCommitteeAndValidatorIndices mv E k = Ok ci" "st' = st(k \<mapsto> fst (validatorState mv k ci st))" for k ci
    using that by (auto simp: validatorState_def Let_def slots_of_def epochs_of_def split: option.splits if_splits)
  from assms(3) show ?thesis
  proof (cases rule: handleSignedSSVMessage_cases)
    case (consensus m ci r1)
    note e = envelope_facts [OF consensus(1)]
    note vok = validatorState_ok [OF assms(1,2) e(2)]
    have idxs: "\<forall>signer \<in> set (w_OperatorIDs sm). signerIndex ci signer < length (ci_committee ci)"
      using envelope_signers [OF consensus(1)] by blast
    from consensus(4) have r1: "r1 = Err err" by (cases r1) auto
    from consensus(3) show ?thesis
    proof (cases rule: validateConsensusMessage_cases)
      case (recorded msg r2 state)
      have "validConsensusMsgType (m_MsgType msg)"
        using recorded(1) by (auto simp: consensus_checked_def validateConsensusMessageSemantics_def Let_def res_dest)
      from updateConsensusState_Ok [OF vok(1) idxs this, of mv E] recorded(2,4) r1 no_err
      show ?thesis by (cases r2) (auto split: res.splits)
    qed (use fresh [OF e(2)] in auto)
  next
    case (partial m ci r1)
    note e = envelope_facts [OF partial(1)]
    note vok = validatorState_ok [OF assms(1,2) e(2)]
    from partial(4) have r1: "r1 = Err err" by (cases r1) auto
    from partial(3) show ?thesis
    proof (cases rule: validatePartialSignatureMessage_cases)
      case (recorded psm signer r2 state)
      have "validPartialSigMsgType (ps_Type psm)"
        using recorded(1) by (auto simp: partial_checked_def validatePartialSignatureMessageSemantics_def Let_def res_dest)
      moreover have "signerIndex ci signer < length (ci_committee ci)"
        using envelope_signers(2) [OF partial(1)] partial_signer(1) [OF recorded(1)] by simp
      ultimately show ?thesis
        using updatePartialSignatureState_Ok [OF vok(1), of ci signer psm S mv E] recorded(2,4) r1 no_err
        by (cases r2) (auto split: res.splits)
    qed (use fresh [OF e(2)] in auto)
  qed simp
qed

theorem refused_leaves_no_trace_witness:
  "(Map.empty(demo_key \<mapsto> demo_va)) demo_key = (Map.empty :: states) demo_key
   \<or> (\<exists>v ci. (Map.empty(demo_key \<mapsto> demo_va)) demo_key = Some v
        \<and> getCommitteeAndValidatorIndices demo_mv demo_env demo_key = Ok ci
        \<and> v = \<lparr>va_committeeID = ci_committeeID ci, va_operators = replicate (length (ci_committee ci)) None,
                va_storedSlotCount = slots_of demo_mv demo_key, va_storedEpochCount = epochs_of demo_mv demo_key\<rparr>
        \<and> (\<forall>u. (Map.empty :: states) demo_key = Some u \<longrightarrow> va_committeeID u \<noteq> ci_committeeID ci))"
  by (rule refused_leaves_no_trace [OF demo_states_ok demo_retention demo_refuses_forged])

end
