(* ===== verification/Validation_Panics.thy ===== *)
theory Validation_Panics
  imports Validation_Properties
begin

text \<open>
  Run-time panics of message validation. Slot arithmetic panics on slots beyond the range of
  \<open>time.Duration\<close>; for slots in range, and states the validator itself built, no check panics.
\<close>

section \<open>The conditions\<close>

definition clock_ok :: "messageValidator \<Rightarrow> venv \<Rightarrow> bool" where
  "clock_ok mv E \<longleftrightarrow> SlotsPerEpoch (beacon mv) \<noteq> 0 \<and> EpochsPerSyncCommitteePeriod (beacon mv) \<noteq> 0
     \<and> SlotDuration (beacon mv) \<noteq> 0 \<and> GenesisTime (beacon mv) \<le> v_now E \<and> GenesisTime (beacon mv) \<le> v_receivedAt E"

definition slot_in_range :: "messageValidator \<Rightarrow> u64 \<Rightarrow> bool" where
  "slot_in_range mv slot \<longleftrightarrow> uint slot + uint (maxStoredSlots mv) + 3 \<le> maxInt64"

lemma slot_in_range_add:
  assumes "slot_in_range mv slot" "uint ttl \<le> uint (maxStoredSlots mv) + 3"
  shows "uint (slot + ttl) \<le> maxInt64"
proof -
  have "uint (slot + ttl) \<le> uint slot + uint ttl" by (rule uint_add_le)
  with assms show ?thesis by (simp add: slot_in_range_def)
qed

lemma lateness_ttl_le: "lateness_ttl mv role = Some ttl \<Longrightarrow> uint ttl \<le> uint (maxStoredSlots mv) + 3"
  using uint_ge_0 [of "maxStoredSlots mv"]
  by (cases role) (auto simp: lateness_ttl_def LateSlotAllowance_def simp del: uint_ge_0)

named_theorems no_panic \<open>calls that do not panic\<close>

lemma clock_no_panic [no_panic]:
  assumes "clock_ok mv E"
  shows "EstimatedEpochAtSlot (beacon mv) slot \<noteq> Panic" "BooleForkAtSlot (mv_netCfg mv) slot \<noteq> Panic"
    "IsGloasAtSlot (beacon mv) slot \<noteq> Panic" "DomainTypeAtSlot (mv_netCfg mv) slot \<noteq> Panic"
    "IsFirstSlotOfEpoch (beacon mv) slot \<noteq> Panic" "EstimatedSyncCommitteePeriodAtEpoch (beacon mv) epoch \<noteq> Panic"
    "EstimatedCurrentSlot (beacon mv) (v_now E) \<noteq> Panic" "EstimatedCurrentEpoch (beacon mv) (v_now E) \<noteq> Panic"
    "EstimatedSlotAtTime (beacon mv) (v_receivedAt E) \<noteq> Panic" "IntervalDuration (beacon mv) slot \<noteq> Panic"
  using assms
  by (auto simp: clock_ok_def DomainTypeAtSlot_def IsFirstSlotOfEpoch_def EstimatedSyncCommitteePeriodAtEpoch_def
      EstimatedCurrentSlot_def EstimatedCurrentEpoch_def EstimatedSlotAtTime_def IntervalDuration_def i64_quot_def
      bind_res_Panic_iff)

lemma SlotStartTime_no_panic: "uint slot \<le> maxInt64 \<Longrightarrow> SlotStartTime b slot \<noteq> Panic"
  by (simp add: SlotStartTime_def)

lemma slot_in_range_le: "slot_in_range mv slot \<Longrightarrow> uint slot \<le> maxInt64"
  using slot_in_range_add [of mv slot 0] by simp

lemma previous_epoch_start:
  assumes "uint slot \<le> maxInt64" "e \<le> slot div SlotsPerEpoch b"
  shows "uint (FirstSlotAtEpoch b e) \<le> maxInt64"
proof -
  have "unat e * unat (SlotsPerEpoch b) \<le> unat slot"
    using assms(2) by (simp add: word_le_nat_alt unat_div)
      (metis div_times_less_eq_dividend le_trans mult_le_mono1)
  then have "unat (FirstSlotAtEpoch b e) \<le> unat slot"
    using unat_mult_le_div le_trans by (simp add: FirstSlotAtEpoch_def unat_word_ariths(2) mod_less_eq_dividend [THEN le_trans])
  with assms(1) show ?thesis
    by (simp add: word_le_nat_alt [symmetric] word_le_def)
qed

lemma messageEarliness_no_panic [no_panic]:
  assumes "clock_ok mv E" "slot_in_range mv slot"
  shows "messageEarliness mv slot role receivedAt \<noteq> Panic"
proof -
  let ?e = "slot div SlotsPerEpoch (beacon mv)"
  have "(if 1 \<le> ?e then ?e - 1 else 0) \<le> ?e" by (simp add: word_le_sub1 word_le_nat_alt unat_sub)
  from previous_epoch_start [OF slot_in_range_le [OF assms(2)] this]
  show ?thesis
    using assms slot_in_range_le [OF assms(2)]
    by (auto simp: messageEarliness_def bind_res_Panic_iff clock_ok_def proposerPreferencesEarlyEpochs_def Let_def
        SlotStartTime_no_panic split: if_splits)
qed

lemma messageLateness_no_panic [no_panic]:
  "slot_in_range mv slot \<Longrightarrow> messageLateness mv slot role receivedAt \<noteq> Panic"
  using slot_in_range_add lateness_ttl_le
  by (fastforce simp: messageLateness_def bind_res_Panic_iff SlotStartTime_no_panic split: option.splits)

section \<open>The checks\<close>

lemma case_option_no_panic [no_panic]:
  "(x = None \<Longrightarrow> a \<noteq> Panic) \<Longrightarrow> (\<And>y. x = Some y \<Longrightarrow> f y \<noteq> Panic) \<Longrightarrow> (case x of None \<Rightarrow> a | Some y \<Rightarrow> f y) \<noteq> Panic"
  by (cases x) auto

lemma ctx_Err_no_panic [no_panic]: "ctx_Err E p \<noteq> Panic"
  by (simp add: ctx_Err_def split: option.split)

lemma simple_checks_no_panic [no_panic]:
  "validateSigners mv prev ids \<noteq> Panic" "validateSignedSSVMessage mv msm \<noteq> Panic" "validateSSVMessage mv m \<noteq> Panic"
  "belongsToCommittee ids committee \<noteq> Panic" "validateDomainAllowlist mv key \<noteq> Panic"
  "validateJustifications mv msg \<noteq> Panic" "maxRound role \<noteq> Panic" "validateConsensusMessageLimit ids msg p s \<noteq> Panic"
  "validateSignerQBFT sm msg p s \<noteq> Panic" "validatorIndexCount_loop k cnt ms \<noteq> Panic"
proof -
  show signers: "validateSigners mv prev ids \<noteq> Panic" for prev ids
    by (induction mv prev ids rule: validateSigners.induct)
      (auto simp: bind_res_Panic_iff validateSignerNotZero_def validateSignerUnique_def validateSignerIsKnown_def)
  show "validateSignedSSVMessage mv msm \<noteq> Panic"
    using signers by (auto simp: validateSignedSSVMessage_def bind_res_Panic_iff each_not_Panic split: option.split)
  show "validateSSVMessage mv m \<noteq> Panic" by (auto simp: validateSSVMessage_def bind_res_Panic_iff split: if_splits)
  show "belongsToCommittee ids committee \<noteq> Panic" by (simp add: belongsToCommittee_def each_not_Panic)
  show "validateDomainAllowlist mv key \<noteq> Panic" by (simp add: validateDomainAllowlist_def Let_def)
  show "validateJustifications mv msg \<noteq> Panic" by (simp add: validateJustifications_def bind_res_Panic_iff)
  show "maxRound role \<noteq> Panic" by (simp add: maxRound_def split: option.split)
  show limit: "validateConsensusMessageLimit ids msg p s \<noteq> Panic" for ids
    by (simp add: validateConsensusMessageLimit_def repeated_def Let_def split: MessageType.split)
  show "validateSignerQBFT sm msg p s \<noteq> Panic"
    using limit by (auto simp: validateSignerQBFT_def bind_res_Panic_iff split: option.splits if_splits)
  show "validatorIndexCount_loop k cnt ms \<noteq> Panic"
    by (induction ms arbitrary: cnt) (simp_all add: Let_def)
qed

lemma clock_checks_no_panic [no_panic]:
  assumes "clock_ok mv E"
  shows "validRoleAtSlot mv role slot \<noteq> Panic" "validateTopicAtSlot mv ci topic slot \<noteq> Panic"
    "validateDomainAtSlot mv key slot \<noteq> Panic" "getCommitteeAndValidatorIndices mv E key \<noteq> Panic"
    "validateBeaconDuty mv E role slot indices randao \<noteq> Panic" "dutyLimit mv key slot indices \<noteq> Panic"
    "maxValidatorRoleSignatures mv role pt slot \<noteq> Panic" "registrationsRetired mv (v_receivedAt E) \<noteq> Panic"
    "validateConsensusMessageSemantics S mv sm m msg committee \<noteq> Panic"
proof -
  note clock = clock_no_panic [OF assms]
  show role: "validRoleAtSlot mv role slot \<noteq> Panic" for role
    by (simp add: clock validRoleAtSlot_def bind_res_Panic_iff)
  show "validateTopicAtSlot mv ci topic slot \<noteq> Panic" by (simp add: clock validateTopicAtSlot_def bind_res_Panic_iff)
  show "validateDomainAtSlot mv key slot \<noteq> Panic" by (simp add: clock validateDomainAtSlot_def bind_res_Panic_iff)
  show "getCommitteeAndValidatorIndices mv E key \<noteq> Panic"
    by (auto simp: clock getCommitteeAndValidatorIndices_def bind_res_Panic_iff Let_def split: option.splits if_splits)
  show "validateBeaconDuty mv E role slot indices randao \<noteq> Panic"
    by (auto simp: clock validateBeaconDuty_def bind_res_Panic_iff split: list.splits RunnerRole.splits if_splits)
  show "dutyLimit mv key slot indices \<noteq> Panic"
    by (auto simp: clock dutyLimit_def bind_res_Panic_iff Let_def split: RunnerRole.splits if_splits)
  show "maxValidatorRoleSignatures mv role pt slot \<noteq> Panic"
    by (simp add: clock maxValidatorRoleSignatures_def bind_res_Panic_iff)
  show "registrationsRetired mv (v_receivedAt E) \<noteq> Panic"
    by (simp add: clock registrationsRetired_def bind_res_Panic_iff)
  have "validRoleAtSlot mv role (m_Height msg) \<noteq> Panic" for role
    by (simp add: clock validRoleAtSlot_def bind_res_Panic_iff)
  then show "validateConsensusMessageSemantics S mv sm m msg committee \<noteq> Panic"
    by (auto simp: validateConsensusMessageSemantics_def bind_res_Panic_iff Let_def simple_checks_no_panic split: if_splits)
qed

lemma validateSlotTime_no_panic [no_panic]:
  "clock_ok mv E \<Longrightarrow> slot_in_range mv slot \<Longrightarrow> validateSlotTime mv slot role t \<noteq> Panic"
  by (auto simp: validateSlotTime_def bind_res_Panic_iff messageEarliness_no_panic messageLateness_no_panic split: if_splits)

lemma EstimatedRoundAt_no_panic: "EstimatedRoundAt f role i t \<noteq> Panic"
  by (simp add: EstimatedRoundAt_def Let_def i64_quot_def defaultQuickTimeoutForRole_def DefaultProposerQuickTimeout_def
      QuickTimeout_def SlowTimeout_def)

lemma roundBelongsToAllowedSpread_no_panic [no_panic]:
  "clock_ok mv E \<Longrightarrow> slot_in_range mv (m_Height msg) \<Longrightarrow> roundBelongsToAllowedSpread S mv E role msg \<noteq> Panic"
  by (auto simp: roundBelongsToAllowedSpread_def bind_res_Panic_iff clock_no_panic EstimatedRoundAt_no_panic Let_def
      SlotStartTime_no_panic slot_in_range_le split: if_splits)

lemma peek_no_panic:
  assumes "va_ok c e n v" "i < n"
  shows "peekOperatorState v i = (Ok (va_operators v ! i) :: (go_err, _) res)"
    "GetSignerStateForSlot (va_operators v ! i) slot \<noteq> (Panic :: (go_err, _) res)"
    "DutyCount (va_operators v ! i) epoch \<noteq> (Panic :: (go_err, _) res)"
proof -
  show "peekOperatorState v i = (Ok (va_operators v ! i) :: (go_err, _) res)"
    using assms by (simp add: peekOperatorState_def va_ok_def)
  show "GetSignerStateForSlot (va_operators v ! i) slot \<noteq> (Panic :: (go_err, _) res)"
    using GetSignerStateForSlot_slot_state [of "va_operators v ! i" c e, where 'a = go_err] va_ok_nth [OF assms] by simp
  show "DutyCount (va_operators v ! i) epoch \<noteq> (Panic :: (go_err, _) res)"
    using va_ok_nth [OF assms] by (auto simp: DutyCount_def epoch_index_Ok bind_res_Panic_iff split: option.split)
qed

lemma validateDutyCount_no_panic:
  assumes "clock_ok mv E" "va_ok c e n v" "i < n"
  shows "validateDutyCount mv key slot indices (va_operators v ! i) \<noteq> Panic"
  using peek_no_panic [OF assms(2,3)]
  by (auto simp: clock_no_panic [OF assms(1)] clock_checks_no_panic [OF assms(1)] validateDutyCount_def bind_res_Panic_iff Let_def split: option.splits if_splits)

lemma validateQBFTLogic_no_panic:
  assumes "clock_ok mv E" "va_ok c e n v" "\<forall>signer \<in> set (w_OperatorIDs sm). signerIndex ci signer < n"
    "small_committee (ci_committee ci)" "w_OperatorIDs sm \<noteq> []"
  shows "validateQBFTLogic S mv E sm msg ci v \<noteq> Panic"
proof -
  have "Proposer S (m_Height msg) (m_Round msg) (ci_committee ci) (mv_netCfg mv) \<noteq> (Panic :: (go_err, _) res)"
  proof -
    have "SlotsPerEpoch (beacon mv) \<noteq> 0" using assms(1) by (simp add: clock_ok_def)
    then show ?thesis
      by (cases rule: Proposer_seat [OF assms(4), where netCfg = "mv_netCfg mv" and height = "m_Height msg" and S = S and 'e = go_err]) simp_all
  qed
  moreover have "firstSigner sm \<noteq> (Panic :: (go_err, _) res)"
    using assms(5) by (simp add: firstSigner_def split: list.split)
  moreover have "bind_res (peekOperatorState v (signerIndex ci signer)) (\<lambda>mos.
         bind_res (GetSignerStateForSlot mos (m_Height msg)) (\<lambda>signerState.
           case signerState of None \<Rightarrow> Ok () | Some s \<Rightarrow> validateSignerQBFT sm msg (v_receivedFrom E) s)) \<noteq> Panic"
    if "signer \<in> set (w_OperatorIDs sm)" for signer
    using peek_no_panic [OF assms(2)] that assms(3) simple_checks_no_panic(9)
    by (auto simp: bind_res_Panic_iff split: option.splits)
  ultimately show ?thesis
    by (auto simp: validateQBFTLogic_def bind_res_Panic_iff each_not_Panic split: if_splits)
qed

lemma validateQBFTMessageByDutyLogic_no_panic:
  assumes "clock_ok mv E" "va_ok c e n v" "\<forall>signer \<in> set (w_OperatorIDs sm). signerIndex ci signer < n"
    "slot_in_range mv (m_Height msg)"
  shows "validateQBFTMessageByDutyLogic S mv E sm m msg ci v \<noteq> Panic"
proof -
  have "bind_res (peekOperatorState v (signerIndex ci signer)) (\<lambda>mos. validateDutyCount mv key slot indices mos) \<noteq> Panic"
    "bind_res (peekOperatorState v (signerIndex ci signer)) (\<lambda>mos. ensure (MaxSlot mos \<le> slot) ErrSlotAlreadyAdvanced) \<noteq> Panic"
    if "signer \<in> set (w_OperatorIDs sm)" for signer key slot indices
    using peek_no_panic(1) [OF assms(2)] validateDutyCount_no_panic [OF assms(1,2)] that assms(3)
    by (auto simp: bind_res_Panic_iff)
  then show ?thesis
    using assms(1,4)
    by (auto simp: validateQBFTMessageByDutyLogic_def bind_res_Panic_iff each_not_Panic Let_def no_panic split: if_splits)
qed

lemma validatePartialSemantics_no_panic:
  "clock_ok mv E \<Longrightarrow> validatePartialSignatureMessageSemantics mv sm m psm indices \<noteq> Panic"
  by (auto simp: validatePartialSignatureMessageSemantics_def bind_res_Panic_iff Let_def no_panic firstSigner_def
      each_not_Panic res_dest split: list.splits if_splits)

lemma partialLimit_no_panic: "validatePartialSignatureMessageLimit psm p s \<noteq> Panic"
  by (auto simp: validatePartialSignatureMessageLimit_def repeated_def validateDistinctRootBudget_def seenRootsFor_def
      bind_res_Panic_iff Let_def split: if_splits)

lemma validatePartialDuty_no_panic:
  assumes "clock_ok mv E" "va_ok c e n v" "w_OperatorIDs sm = [signer]" "signerIndex ci signer < n"
    "slot_in_range mv (ps_Slot psm)"
  shows "validatePartialSigMessagesByDutyLogic mv E sm m psm ci v \<noteq> Panic"
  using peek_no_panic [OF assms(2,4)] validateDutyCount_no_panic [OF assms(1,2,4)] assms(1,3,5) partialLimit_no_panic
  by (auto simp: validatePartialSigMessagesByDutyLogic_def bind_res_Panic_iff Let_def no_panic firstSigner_def
      split: if_splits option.splits)

lemma verifySignatures_no_panic: "length ids = length sigs \<Longrightarrow> verifySignatures mv E m k ids sigs \<noteq> Panic"
  by (induction mv E m k ids sigs rule: verifySignatures.induct)
    (auto simp: bind_res_Panic_iff no_panic split: option.splits)

section \<open>Properties\<close>

lemma consensus_no_panic:
  assumes "states_ok mv st" "retention_ok mv" "clock_ok mv E" "envelope_checked mv E sm m ci"
    "small_committee (ci_committee ci)" "\<And>msg. DecodeMessage (mv_spec mv) (ssv_Data m) = Inr msg \<Longrightarrow> slot_in_range mv (m_Height msg)"
  shows "fst (validateConsensusMessage S mv E sm m ci st) \<noteq> Panic"
proof
  let ?v = "fst (validatorState mv (ssv_MsgID m) ci st)"
  note env = envelope_facts [OF assms(4)]
  note vok = validatorState_ok [OF assms(1,2) env(2)]
  have idxs: "\<forall>signer \<in> set (w_OperatorIDs sm). signerIndex ci signer < length (ci_committee ci)"
    using envelope_signers [OF assms(4)] by blast
  note logic = validateQBFTLogic_no_panic [OF assms(3) vok(1) idxs assms(5) env(3)]
  note duty = validateQBFTMessageByDutyLogic_no_panic [OF assms(3) vok(1) idxs assms(6)]
  assume "fst (validateConsensusMessage S mv E sm m ci st) = Panic"
  then obtain msg where msg: "validateConsensusMessageSemantics S mv sm m msg (ci_committee ci) = Ok ()"
    "fst (updateConsensusState mv E sm msg ci ?v) = Panic"
    using env(7)
    by (auto simp: validateConsensusMessage_def bind_st_Panic_iff bind_res_Panic_iff res_dest split_beta Let_def
        clock_checks_no_panic [OF assms(3)] ctx_Err_no_panic verifySignatures_no_panic logic duty)
  have "validConsensusMsgType (m_MsgType msg)"
    using msg(1) by (auto simp: validateConsensusMessageSemantics_def Let_def res_dest)
  from updateConsensusState_Ok [OF vok(1) idxs this, of mv E] msg(2) assms(3)
  show False by (auto simp: clock_ok_def)
qed

lemma partial_no_panic:
  assumes "states_ok mv st" "retention_ok mv" "clock_ok mv E" "envelope_checked mv E sm m ci"
    "\<And>psm. DecodePartialSigs (mv_spec mv) (ssv_Data m) = Inr psm \<Longrightarrow> slot_in_range mv (ps_Slot psm)"
  shows "fst (validatePartialSignatureMessage S mv E sm m ci st) \<noteq> Panic"
proof
  let ?v = "fst (validatorState mv (ssv_MsgID m) ci st)"
  note env = envelope_facts [OF assms(4)]
  note vok = validatorState_ok [OF assms(1,2) env(2)]
  have one: "\<exists>signer signature. w_OperatorIDs sm = [signer] \<and> w_Signatures sm = [signature]
      \<and> signerIndex ci signer < length (ci_committee ci) \<and> validPartialSigMsgType (ps_Type psm)"
    if "validatePartialSignatureMessageSemantics mv sm m psm (ci_validatorIndices ci) = Ok ()" for psm
    using that env(7) envelope_signers(2) [OF assms(4)]
    by (auto simp: validatePartialSignatureMessageSemantics_def Let_def res_dest length_Suc_conv)
  assume panic: "fst (validatePartialSignatureMessage S mv E sm m ci st) = Panic"
  then obtain psm where psm: "DecodePartialSigs (mv_spec mv) (ssv_Data m) = Inr psm"
    "validatePartialSignatureMessageSemantics mv sm m psm (ci_validatorIndices ci) = Ok ()"
    by (auto simp: validatePartialSignatureMessage_def bind_st_Panic_iff bind_res_Panic_iff res_dest
        clock_checks_no_panic [OF assms(3)] validatePartialSemantics_no_panic [OF assms(3)])
  then obtain signer signature where sig: "w_OperatorIDs sm = [signer]" "w_Signatures sm = [signature]"
    "signerIndex ci signer < length (ci_committee ci)" "validPartialSigMsgType (ps_Type psm)"
    using one by blast
  note duty = validatePartialDuty_no_panic [OF assms(3) vok(1) sig(1,3) assms(5) [OF psm(1)]]
  have "fst (updatePartialSignatureState S mv E psm ci signer ?v) \<noteq> Panic"
    using updatePartialSignatureState_Ok [OF vok(1) sig(3,4), of S mv E] assms(3) by (simp add: clock_ok_def)
  with panic psm sig(1,2) show False
    by (auto simp: validatePartialSignatureMessage_def bind_st_Panic_iff bind_res_Panic_iff res_dest split_beta Let_def
        ctx_Err_no_panic firstSigner_def clock_checks_no_panic [OF assms(3)]
        validatePartialSemantics_no_panic [OF assms(3)] duty split: option.splits)
qed

lemma handle_panic:
  assumes "fst (handleSignedSSVMessage S mv E sm st) = Panic" "clock_ok mv E"
  shows "\<exists>m ci. envelope_checked mv E sm m ci
    \<and> (ssv_MsgType m = SSVConsensusMsgType \<and> fst (validateConsensusMessage S mv E sm m ci st) = Panic
       \<or> ssv_MsgType m = SSVPartialSignatureMsgType \<and> fst (validatePartialSignatureMessage S mv E sm m ci st) = Panic)"
proof -
  have "w_SSVMessage sm \<noteq> None" if "validateSignedSSVMessage mv (Some sm) = Ok ()"
    using that by (auto simp: validateSignedSSVMessage_def res_dest)
  then show ?thesis
    using assms(1)
    by (auto simp: handleSignedSSVMessage_def bind_st_Panic_iff bind_res_Panic_iff res_dest envelope_checked_def
        simple_checks_no_panic ctx_Err_no_panic clock_checks_no_panic [OF assms(2)] split: if_splits)
qed

text \<open>
  C27: Validation does not crash the node on messages whose slot is in range. With a configuration
  whose divisors are not zero, clocks past genesis and a committee of representable size, no
  message panics, whatever its content, in any state that earlier messages led to.
\<close>

theorem validation_no_panic:
  assumes "states_ok mv st" "retention_ok mv" "clock_ok mv E"
    and "\<forall>m slot. w_SSVMessage sm = Some m \<longrightarrow> slot_of mv m = Some slot \<longrightarrow> slot_in_range mv slot"
    and "\<forall>m ci. w_SSVMessage sm = Some m \<longrightarrow> getCommitteeAndValidatorIndices mv E (ssv_MsgID m) = Ok ci \<longrightarrow>
           length (ci_committee ci) < 2 ^ 63"
  shows "fst (handleSignedSSVMessage S mv E sm st) \<noteq> Panic"
proof
  assume "fst (handleSignedSSVMessage S mv E sm st) = Panic"
  then obtain m ci where m: "envelope_checked mv E sm m ci"
    "ssv_MsgType m = SSVConsensusMsgType \<and> fst (validateConsensusMessage S mv E sm m ci st) = Panic
       \<or> ssv_MsgType m = SSVPartialSignatureMsgType \<and> fst (validatePartialSignatureMessage S mv E sm m ci st) = Panic"
    using handle_panic [OF _ assms(3)] by blast
  note env = envelope_facts [OF m(1)]
  have "small_committee (ci_committee ci)"
    using assms(5) env(1,2,3,6) by (auto simp: small_committee_def)
  moreover have "slot_in_range mv (m_Height msg)"
    if "ssv_MsgType m = SSVConsensusMsgType" "DecodeMessage (mv_spec mv) (ssv_Data m) = Inr msg" for msg
    using assms(4) env(1) that by (simp add: slot_of_def)
  moreover have "slot_in_range mv (ps_Slot psm)"
    if "ssv_MsgType m = SSVPartialSignatureMsgType" "DecodePartialSigs (mv_spec mv) (ssv_Data m) = Inr psm" for psm
    using assms(4) env(1) that by (simp add: slot_of_def)
  ultimately show False
    using m(2) consensus_no_panic [OF assms(1-3) m(1)] partial_no_panic [OF assms(1-3) m(1)] by blast
qed

lemma demo_clock_ok: "clock_ok demo_mv demo_env"
  by (simp add: clock_ok_def demo_mv_def demo_env_def)

theorem validation_no_panic_witness:
  "fst (handleSignedSSVMessage demo_spec demo_mv demo_env demo_prepare Map.empty) \<noteq> Panic"
  by (rule validation_no_panic [OF demo_states_ok demo_retention demo_clock_ok])
    (auto simp: demo_mv_def slot_of_def slot_in_range_def maxStoredSlots_def LateSlotAllowance_def maxInt64_def
      demo_envelope(4) [where sm = demo_prepare])

end
