(* ===== verification/Partial_Sigs.thy ===== *)
theory Partial_Sigs
  imports Messages Share "HOL-Library.AList"
begin

text \<open>
  Collecting partial signatures: the errors of \<open>protocol/v2/ssv/runner/error.go\<close>, the signature checks
  of \<open>protocol/v2/types/crypto.go\<close> and \<open>utils/threshold/reconstruct.go\<close>, the container of
  \<open>protocol/v2/ssv/partial_sig_container.go\<close>, and the reconstruction of a quorum of
  \<open>protocol/v2/ssv/runner/runner_validations.go\<close> and \<open>runner_signatures.go\<close>. The BLS library is the
  argument \<open>B\<close>. A Go map is the association list of its entries in the order a loop visits them.
\<close>

section \<open>Errors of the runners\<close>

datatype run_code =
    NoRunningDutyErrorCode | PartialSigMessageInvalidSlotErrorCode | PartialSigMessageFutureSlotErrorCode
  | NoRunningConsensusInstanceErrorCode | NoDecidedValueErrorCode | WrongRootsCountErrorCode
  | WrongSigningRootErrorCode | UnknownValidatorIndexErrorCode | DutyAlreadyPassedErrorCode
  | DecidedWrongInstanceErrorCode | SkipConsensusMessageAsConsensusHasFinishedErrorCode
  | ReconstructSignatureErrorCode

text \<open>
  \<open>RPlain\<close> is a new error, \<open>RWrap\<close> an error wrapped by \<open>fmt.Errorf\<close> with \<open>%w\<close>, \<open>RCoded\<close> and
  \<open>RCodeWrap\<close> the coded errors of the specification package, which do not unwrap, \<open>RWithCode\<close> the
  \<open>codedError\<close> and \<open>RRecoverable\<close> the \<open>recoverableReconstructError\<close> of the runners, which do.
  \<open>RCanceled\<close> is \<open>context.Canceled\<close>, and \<open>RQbft\<close> an error of the consensus layer.
\<close>

datatype run_err =
    RPlain string
  | RWrap string run_err
  | RCoded run_code string
  | RCodeWrap run_code run_err
  | RWithCode run_code run_err
  | RRetryable run_err
  | RRecoverable run_err
  | RQbft qbft_err
  | RCanceled
  | ErrNoValidDutiesToExecute
  | ErrDutyInvariantViolation
  | ErrNoDutyAssigned
  | ErrRunningDutySucceeded
  | ErrFuturePartialSigMsg
  | ErrNoRunningInstance
  | ErrNoDecidedValue

text \<open>\<open>errors.Is\<close>: the error itself or one it unwraps to.\<close>

fun error_is :: "run_err \<Rightarrow> run_err \<Rightarrow> bool" where
  "error_is target e \<longleftrightarrow> e = target \<or>
     (case e of RWrap _ e \<Rightarrow> error_is target e
      | RWithCode _ e \<Rightarrow> error_is target e
      | RRetryable e \<Rightarrow> error_is target e
      | RRecoverable e \<Rightarrow> error_is target e
      | _ \<Rightarrow> False)"

fun RunIsRetryable :: "run_err \<Rightarrow> bool" where
  "RunIsRetryable (RWrap _ e) = RunIsRetryable e"
| "RunIsRetryable (RWithCode _ e) = RunIsRetryable e"
| "RunIsRetryable (RRecoverable e) = RunIsRetryable e"
| "RunIsRetryable (RRetryable e) = True"
| "RunIsRetryable _ = False"

fun isRecoverableReconstructError :: "run_err \<Rightarrow> bool" where
  "isRecoverableReconstructError (RWrap _ e) = isRecoverableReconstructError e"
| "isRecoverableReconstructError (RWithCode _ e) = isRecoverableReconstructError e"
| "isRecoverableReconstructError (RRetryable e) = isRecoverableReconstructError e"
| "isRecoverableReconstructError (RRecoverable e) = True"
| "isRecoverableReconstructError _ = False"

section \<open>The BLS library\<close>

text \<open>
  Public keys, signatures and identifiers are of the types \<open>'p\<close>, \<open>'s\<close> and \<open>'i\<close>. \<open>bls_ID\<close> is
  \<open>ID.SetDecString\<close> of a decimal number; the recover functions take the parallel vectors of the library.
\<close>

record ('p, 's, 'i) bls =
  bls_PublicKey :: "bytes \<Rightarrow> string + 'p"
  bls_Sign :: "bytes \<Rightarrow> string + 's"
  bls_ID :: "string \<Rightarrow> string + 'i"
  bls_VerifyByte :: "'s \<Rightarrow> 'p \<Rightarrow> bytes \<Rightarrow> bool"
  bls_RecoverSign :: "'s list \<Rightarrow> 'i list \<Rightarrow> string + 's"
  bls_RecoverPublicKey :: "'p list \<Rightarrow> 'i list \<Rightarrow> string + 'p"
  bls_IsEqual :: "'p \<Rightarrow> 'p \<Rightarrow> bool"
  bls_Serialize :: "'s \<Rightarrow> bytes"

text \<open>
  \<open>DeserializeBLSPublicKey\<close> keeps the keys it has deserialized in a cache; as deserialization depends
  on the bytes only, the cache does not change the result.
\<close>

definition DeserializeBLSPublicKey :: "('p, 's, 'i) bls \<Rightarrow> bytes \<Rightarrow> string + 'p" where
  "DeserializeBLSPublicKey B b = bls_PublicKey B b"

definition VerifyReconstructedSignature :: "('p, 's, 'i) bls \<Rightarrow> 's \<Rightarrow> bytes \<Rightarrow> root \<Rightarrow> (run_err, unit) res" where
  "VerifyReconstructedSignature B sig validatorPubKey root =
     bind_res (of_sum (\<lambda>e. RWrap ''could not deserialize validator pk'' (RPlain e))
                 (DeserializeBLSPublicKey B validatorPubKey)) (\<lambda>pk.
     ensure (bls_VerifyByte B sig pk root)
       (RCoded ReconstructSignatureErrorCode ''could not reconstruct a valid signature''))"

fun VerifyBeaconPartialSignature ::
    "('p, 's, 'i) bls \<Rightarrow> OperatorID \<Rightarrow> bytes \<Rightarrow> root \<Rightarrow> ShareMember list \<Rightarrow> (run_err, unit) res" where
  "VerifyBeaconPartialSignature B signer signature root [] = Err (RPlain ''unknown signer'')"
| "VerifyBeaconPartialSignature B signer signature root (member # committee) =
     (if Signer member \<noteq> signer then VerifyBeaconPartialSignature B signer signature root committee
      else
      bind_res (of_sum (\<lambda>e. RWrap ''could not deserialize share public key'' (RPlain e))
                  (DeserializeBLSPublicKey B (mem_SharePubKey member))) (\<lambda>pk.
      bind_res (of_sum (\<lambda>e. RWrap ''could not deserialize signature'' (RPlain e)) (bls_Sign B signature)) (\<lambda>sig.
      ensure (bls_VerifyByte B sig pk root) (RPlain ''wrong signature''))))"

text \<open>The loop body of \<open>ReconstructSignatures\<close> gives the identifier and the signature of an entry.\<close>

definition reconstructEntry :: "('p, 's, 'i) bls \<Rightarrow> OperatorID \<times> bytes \<Rightarrow> (run_err, 'i \<times> 's) res" where
  "reconstructEntry B entry =
     bind_res (of_sum RPlain (bls_ID B (show_dec (unat (fst entry))))) (\<lambda>blsID.
     bind_res (of_sum RPlain (bls_Sign B (snd entry))) (\<lambda>blsSig. Ok (blsID, blsSig)))"

definition ReconstructSignatures :: "('p, 's, 'i) bls \<Rightarrow> (OperatorID \<times> bytes) list \<Rightarrow> (run_err, 's) res" where
  "ReconstructSignatures B signatures =
     bind_res (each_map (reconstructEntry B) signatures) (\<lambda>entries.
       of_sum RPlain (bls_RecoverSign B (map snd entries) (map fst entries)))"

section \<open>The container\<close>

text \<open>Signatures by validator index, signing root and operator.\<close>

record PartialSigContainer =
  psc_Signatures :: "(u64 \<times> (root \<times> (OperatorID \<times> bytes) list) list) list"
  psc_Quorum :: u64

definition NewPartialSigContainer :: "u64 \<Rightarrow> PartialSigContainer" where
  "NewPartialSigContainer quorum = \<lparr>psc_Signatures = [], psc_Quorum = quorum\<rparr>"

text \<open>The lookup \<open>ps.Signatures[validatorIndex][root]\<close>, \<open>None\<close> for a nil map, and storing into it.\<close>

definition rootSigs :: "PartialSigContainer \<Rightarrow> u64 \<Rightarrow> root \<Rightarrow> (OperatorID \<times> bytes) list option" where
  "rootSigs ps validatorIndex root =
     (case map_of (psc_Signatures ps) validatorIndex of None \<Rightarrow> None | Some roots \<Rightarrow> map_of roots root)"

definition setRootSigs ::
    "PartialSigContainer \<Rightarrow> u64 \<Rightarrow> root \<Rightarrow> (OperatorID \<times> bytes) list \<Rightarrow> PartialSigContainer" where
  "setRootSigs ps validatorIndex root sigs =
     ps\<lparr>psc_Signatures := AList.update validatorIndex
          (AList.update root sigs (case map_of (psc_Signatures ps) validatorIndex of None \<Rightarrow> [] | Some roots \<Rightarrow> roots))
          (psc_Signatures ps)\<rparr>"

definition rootEntries :: "PartialSigContainer \<Rightarrow> u64 \<Rightarrow> root \<Rightarrow> (OperatorID \<times> bytes) list" where
  "rootEntries ps validatorIndex root = (case rootSigs ps validatorIndex root of None \<Rightarrow> [] | Some sigs \<Rightarrow> sigs)"

text \<open>\<open>copy\<close> into a fresh array of \<open>n\<close> bytes.\<close>

definition copy_into :: "nat \<Rightarrow> bytes \<Rightarrow> bytes" where
  "copy_into n b = take n (b @ replicate n 0)"

definition AddSignature :: "PartialSigContainer \<Rightarrow> PartialSignatureMessage \<Rightarrow> PartialSigContainer" where
  "AddSignature ps sigMsg =
     (let m = rootEntries ps (psm_ValidatorIndex sigMsg) (psm_SigningRoot sigMsg);
          m = (if map_of m (psm_Signer sigMsg) = None
               then AList.update (psm_Signer sigMsg) (copy_into 96 (psm_PartialSignature sigMsg)) m else m)
      in setRootSigs ps (psm_ValidatorIndex sigMsg) (psm_SigningRoot sigMsg) m)"

definition HasSignature :: "PartialSigContainer \<Rightarrow> u64 \<Rightarrow> OperatorID \<Rightarrow> root \<Rightarrow> bool" where
  "HasSignature ps validatorIndex signer signingRoot \<longleftrightarrow>
     map_of (rootEntries ps validatorIndex signingRoot) signer \<noteq> None"

definition GetSignature :: "PartialSigContainer \<Rightarrow> u64 \<Rightarrow> OperatorID \<Rightarrow> root \<Rightarrow> (run_err, bytes) res" where
  "GetSignature ps validatorIndex signer signingRoot =
     (case map_of (rootEntries ps validatorIndex signingRoot) signer of
        None \<Rightarrow> Err (RPlain ''no signature for validator, root and signer'')
      | Some sig \<Rightarrow> Ok sig)"

definition GetSignatures :: "PartialSigContainer \<Rightarrow> u64 \<Rightarrow> root \<Rightarrow> (OperatorID \<times> bytes) list" where
  "GetSignatures ps validatorIndex signingRoot = rootEntries ps validatorIndex signingRoot"

definition Remove :: "PartialSigContainer \<Rightarrow> u64 \<Rightarrow> OperatorID \<Rightarrow> root \<Rightarrow> PartialSigContainer" where
  "Remove ps validatorIndex signer signingRoot =
     (case rootSigs ps validatorIndex signingRoot of
        None \<Rightarrow> ps
      | Some sigs \<Rightarrow> setRootSigs ps validatorIndex signingRoot (AList.delete signer sigs))"

definition ResolveDuplicateSignature ::
    "('p, 's, 'i) bls \<Rightarrow> PartialSigContainer \<Rightarrow> PartialSignatureMessage \<Rightarrow> ShareMember list
       \<Rightarrow> (run_err, unit) res \<times> PartialSigContainer" where
  "ResolveDuplicateSignature B ps msg committee =
     (if is_Ok (bind_res (GetSignature ps (psm_ValidatorIndex msg) (psm_Signer msg) (psm_SigningRoot msg)) (\<lambda>existing.
            VerifyBeaconPartialSignature B (psm_Signer msg) existing (psm_SigningRoot msg) committee))
      then (Ok (), ps)
      else let ps = Remove ps (psm_ValidatorIndex msg) (psm_Signer msg) (psm_SigningRoot msg)
           in bind_st (VerifyBeaconPartialSignature B (psm_Signer msg) (psm_PartialSignature msg)
                         (psm_SigningRoot msg) committee, ps)
                (\<lambda>_ ps. (Ok (), AddSignature ps msg)))"

definition ReconstructSignature ::
    "('p, 's, 'i) bls \<Rightarrow> PartialSigContainer \<Rightarrow> root \<Rightarrow> bytes \<Rightarrow> u64 \<Rightarrow> (run_err, bytes) res" where
  "ReconstructSignature B ps root validatorPubKey validatorIndex =
     (case rootSigs ps validatorIndex root of
        None \<Rightarrow> Err (RPlain ''no signatures for validator and root'')
      | Some sigs \<Rightarrow>
          bind_res (map_err (RWrap ''reconstruct signatures'') (ReconstructSignatures B sigs)) (\<lambda>signature.
          bind_res (map_err (RWrap ''verify reconstructed signature'')
                      (VerifyReconstructedSignature B signature validatorPubKey root)) (\<lambda>_.
            Ok (bls_Serialize B signature))))"

definition psHasQuorum :: "PartialSigContainer \<Rightarrow> u64 \<Rightarrow> root \<Rightarrow> bool \<times> OperatorID list" where
  "psHasQuorum ps validatorIndex root =
     (let sigs = rootEntries ps validatorIndex root in (len_u64 sigs \<ge> psc_Quorum ps, map fst sigs))"

text \<open>
  The JSON form of a container: the value handed to the JSON library by \<open>MarshalJSON\<close>, with the roots
  in hex, and how \<open>UnmarshalJSON\<close> reads such a value.
\<close>

record jsonContainer =
  jc_Signatures :: "(u64 \<times> (string \<times> (OperatorID \<times> bytes) list) list) list"
  jc_Quorum :: u64

definition MarshalContainer :: "PartialSigContainer \<Rightarrow> jsonContainer" where
  "MarshalContainer ps =
     \<lparr>jc_Signatures = map (\<lambda>(vi, roots). (vi, map (\<lambda>(root, ops). (hex_encode root, ops)) roots)) (psc_Signatures ps),
      jc_Quorum = psc_Quorum ps\<rparr>"

definition unmarshalRoot :: "string \<Rightarrow> (run_err, root) res" where
  "unmarshalRoot rootHex =
     bind_res (map_err (\<lambda>e. RWrap ''decode signing root'' (RPlain e)) (hex_decode rootHex)) (\<lambda>rootBytes.
     bind_res (ensure (length rootBytes = 32) (RPlain ''invalid signing root length'')) (\<lambda>_.
       Ok rootBytes))"

definition UnmarshalContainer :: "jsonContainer \<Rightarrow> (run_err, PartialSigContainer) res" where
  "UnmarshalContainer jc =
     bind_res (each_map (\<lambda>(vi, roots).
         bind_res (each_map (\<lambda>(rootHex, ops). bind_res (unmarshalRoot rootHex) (\<lambda>root. Ok (root, ops))) roots)
           (\<lambda>roots. Ok (vi, fold (\<lambda>(root, ops) m. AList.update root ops m) roots []))) (jc_Signatures jc))
       (\<lambda>sigs. Ok \<lparr>psc_Signatures = sigs, psc_Quorum = jc_Quorum jc\<rparr>)"

section \<open>Duplicates, invalid shares and reconstruction in the runners\<close>

text \<open>The runner's own copy of the signature check.\<close>

fun verifyBeaconPartialSignature ::
    "('p, 's, 'i) bls \<Rightarrow> OperatorID \<Rightarrow> bytes \<Rightarrow> root \<Rightarrow> ShareMember list \<Rightarrow> (run_err, unit) res" where
  "verifyBeaconPartialSignature B signer signature root [] = Err (RPlain ''unknown signer'')"
| "verifyBeaconPartialSignature B signer signature root (n # committee) =
     (if Signer n = signer
      then bind_res (of_sum (\<lambda>e. RWrap ''could not deserialized pk'' (RPlain e))
                       (DeserializeBLSPublicKey B (mem_SharePubKey n))) (\<lambda>pk.
           bind_res (of_sum (\<lambda>e. RWrap ''could not deserialized Signature'' (RPlain e)) (bls_Sign B signature)) (\<lambda>sig.
           ensure (bls_VerifyByte B sig pk root) (RPlain ''wrong signature'')))
      else verifyBeaconPartialSignature B signer signature root committee)"

text \<open>What the runners read of a share of the specification package.\<close>

record RunnerShare =
  rsh_ValidatorIndex :: u64
  rsh_ValidatorPubKey :: bytes
  rsh_SharePubKey :: bytes
  rsh_Committee :: "ShareMember list"
  rsh_FeeRecipient :: bytes

definition resolveDuplicateSignature ::
    "('p, 's, 'i) bls \<Rightarrow> (u64 \<times> RunnerShare) list \<Rightarrow> PartialSigContainer \<Rightarrow> PartialSignatureMessage \<Rightarrow> PartialSigContainer" where
  "resolveDuplicateSignature B shares container msg =
     (case map_of shares (psm_ValidatorIndex msg) of
        None \<Rightarrow> Remove container (psm_ValidatorIndex msg) (psm_Signer msg) (psm_SigningRoot msg)
      | Some share \<Rightarrow>
          if is_Ok (bind_res (GetSignature container (psm_ValidatorIndex msg) (psm_Signer msg) (psm_SigningRoot msg))
                (\<lambda>previousSignature. verifyBeaconPartialSignature B (psm_Signer msg) previousSignature
                                       (psm_SigningRoot msg) (rsh_Committee share)))
          then container
          else let container = Remove container (psm_ValidatorIndex msg) (psm_Signer msg) (psm_SigningRoot msg)
               in if is_Ok (verifyBeaconPartialSignature B (psm_Signer msg) (psm_PartialSignature msg)
                              (psm_SigningRoot msg) (rsh_Committee share))
                  then AddSignature container msg else container)"

definition FallBackAndVerifyEachSignature ::
    "('p, 's, 'i) bls \<Rightarrow> PartialSigContainer \<Rightarrow> root \<Rightarrow> ShareMember list \<Rightarrow> u64 \<Rightarrow> PartialSigContainer" where
  "FallBackAndVerifyEachSignature B container root committee validatorIndex =
     fold (\<lambda>(operatorID, signature) container.
        if is_Ok (verifyBeaconPartialSignature B operatorID signature root committee) then container
        else Remove container validatorIndex operatorID root)
       (GetSignatures container validatorIndex root) container"

definition ReconstructBeaconSig ::
    "('p, 's, 'i) bls \<Rightarrow> PartialSigContainer \<Rightarrow> root \<Rightarrow> bytes \<Rightarrow> u64 \<Rightarrow> (run_err, bytes) res" where
  "ReconstructBeaconSig B container root validatorPubKey validatorIndex =
     map_err (RWrap ''could not reconstruct beacon sig'')
       (ReconstructSignature B container root validatorPubKey validatorIndex)"

section \<open>Lemmas on the container\<close>

lemma rootSigs_setRootSigs:
  "rootSigs (setRootSigs ps vi r sigs) vi' r' =
     (if vi' = vi \<and> r' = r then Some sigs else rootSigs ps vi' r')"
  by (auto simp: rootSigs_def setRootSigs_def update_conv' split: option.splits)

lemma Quorum_setRootSigs [simp]: "psc_Quorum (setRootSigs ps vi r sigs) = psc_Quorum ps"
  by (simp add: setRootSigs_def)

lemma Quorum_Remove [simp]: "psc_Quorum (Remove ps vi k r) = psc_Quorum ps"
  by (simp add: Remove_def split: option.split)

lemma rootEntries_setRootSigs:
  "rootEntries (setRootSigs ps vi r sigs) vi' r' =
     (if vi' = vi \<and> r' = r then sigs else rootEntries ps vi' r')"
  by (simp add: rootEntries_def rootSigs_setRootSigs)

lemma rootEntries_Remove:
  "rootEntries (Remove ps vi k r) vi' r' =
     (if vi' = vi \<and> r' = r then AList.delete k (rootEntries ps vi r) else rootEntries ps vi' r')"
  by (auto simp: Remove_def rootEntries_setRootSigs split: option.split)
    (auto simp: rootEntries_def)

lemma length_delete_le: "length (AList.delete k xs) \<le> length xs"
  by (simp add: AList.delete_eq)

lemma rootEntries_fold_Remove:
  "rootEntries (fold (\<lambda>(k, s) c. if P k s then c else Remove c vi k r) es c) vi r =
     filter (\<lambda>(k, s). \<forall>(k', s') \<in> set es. k' = k \<longrightarrow> P k' s') (rootEntries c vi r)"
proof (induction es arbitrary: c)
  case (Cons e es)
  obtain k s where e: "e = (k, s)"
    by (cases e)
  show ?case
    by (simp add: Cons.IH e rootEntries_Remove AList.delete_eq) (auto intro!: filter_cong)
qed simp

text \<open>Exactly the entries that verify survive the check of every share.\<close>

lemma rootEntries_FallBack:
  assumes "distinct (map fst (rootEntries c vi r))"
  shows "rootEntries (FallBackAndVerifyEachSignature B c r cm vi) vi r =
     filter (\<lambda>(k, s). is_Ok (verifyBeaconPartialSignature B k s r cm)) (rootEntries c vi r)"
  unfolding FallBackAndVerifyEachSignature_def GetSignatures_def rootEntries_fold_Remove
  by (rule filter_cong) (use assms in \<open>auto dest: eq_key_imp_eq_value\<close>)

lemma length_FallBack:
  "length (rootEntries (FallBackAndVerifyEachSignature B c r cm vi) vi r) \<le> length (rootEntries c vi r)"
  unfolding FallBackAndVerifyEachSignature_def GetSignatures_def rootEntries_fold_Remove by simp

section \<open>Reconstruction of a quorum\<close>

text \<open>The loop drops at least one share each time it goes round.\<close>

function reconstructQuorumSig ::
    "('p, 's, 'i) bls \<Rightarrow> PartialSigContainer \<Rightarrow> root \<Rightarrow> RunnerShare \<Rightarrow> string
       \<Rightarrow> (run_err, bytes) res \<times> PartialSigContainer" where
  "reconstructQuorumSig B container root share phase =
     (case ReconstructBeaconSig B container root (rsh_ValidatorPubKey share) (rsh_ValidatorIndex share) of
        Ok sig \<Rightarrow> (Ok (copy_into 96 sig), container)
      | Panic \<Rightarrow> (Panic, container)
      | Err err \<Rightarrow>
          let err = RWrap (''got '' @ phase @ '' quorum but it has invalid signatures'') err;
              shares = length (GetSignatures container (rsh_ValidatorIndex share) root);
              container = FallBackAndVerifyEachSignature B container root (rsh_Committee share) (rsh_ValidatorIndex share)
          in if \<not> fst (psHasQuorum container (rsh_ValidatorIndex share) root)
             then (Err (RRecoverable err), container)
             else if length (GetSignatures container (rsh_ValidatorIndex share) root) = shares
             then (Err err, container)
             else reconstructQuorumSig B container root share phase)"
  by pat_completeness auto

termination reconstructQuorumSig
  by (relation "measure (\<lambda>(B, c, r, share, _). length (rootEntries c (rsh_ValidatorIndex share) r))")
    (auto simp: GetSignatures_def intro: le_neq_implies_less length_FallBack)

declare reconstructQuorumSig.simps [simp del]

section \<open>Well-formed containers\<close>

definition psc_ok :: "PartialSigContainer \<Rightarrow> bool" where
  "psc_ok ps \<longleftrightarrow> distinct (map fst (psc_Signatures ps)) \<and>
     (\<forall>(vi, roots) \<in> set (psc_Signatures ps). distinct (map fst roots) \<and>
        (\<forall>(r, ops) \<in> set roots. distinct (map fst ops)))"

lemma psc_ok_New [simp]: "psc_ok (NewPartialSigContainer q)"
  by (simp add: psc_ok_def NewPartialSigContainer_def)

lemma Ball_update:
  "(\<forall>x \<in> set xs. P x) \<Longrightarrow> P (k, v) \<Longrightarrow> \<forall>x \<in> set (AList.update k v xs). P x"
  by (induction xs) auto

lemma psc_ok_setRootSigs:
  assumes "psc_ok ps" "distinct (map fst sigs)"
  shows "psc_ok (setRootSigs ps vi r sigs)"
proof -
  let ?roots = "case map_of (psc_Signatures ps) vi of None \<Rightarrow> [] | Some roots \<Rightarrow> roots"
  have "distinct (map fst ?roots) \<and> (\<forall>(r, ops) \<in> set ?roots. distinct (map fst ops))"
    using assms(1) by (auto simp: psc_ok_def split: option.split dest!: map_of_SomeD)
  then have "distinct (map fst (AList.update r sigs ?roots)) \<and>
      (\<forall>(r, ops) \<in> set (AList.update r sigs ?roots). distinct (map fst ops))"
    using assms(2) by (intro conjI distinct_update Ball_update) auto
  with assms(1) have "distinct (map fst (AList.update vi (AList.update r sigs ?roots) (psc_Signatures ps))) \<and>
      (\<forall>(vi, roots) \<in> set (AList.update vi (AList.update r sigs ?roots) (psc_Signatures ps)).
         distinct (map fst roots) \<and> (\<forall>(r, ops) \<in> set roots. distinct (map fst ops)))"
    unfolding psc_ok_def by (intro conjI distinct_update Ball_update) simp_all
  then show ?thesis
    by (simp add: psc_ok_def setRootSigs_def)
qed

lemma psc_ok_entries: "psc_ok ps \<Longrightarrow> distinct (map fst (rootEntries ps vi r))"
  by (fastforce simp: psc_ok_def rootEntries_def rootSigs_def split: option.split dest!: map_of_SomeD)

lemma psc_ok_AddSignature: "psc_ok ps \<Longrightarrow> psc_ok (AddSignature ps m)"
  unfolding AddSignature_def Let_def
  by (rule psc_ok_setRootSigs) (auto intro: distinct_update psc_ok_entries)

lemma psc_ok_Remove: "psc_ok ps \<Longrightarrow> psc_ok (Remove ps vi k r)"
  using psc_ok_entries [of ps vi r]
  by (auto simp: Remove_def rootEntries_def split: option.split intro!: psc_ok_setRootSigs distinct_delete)

lemma psc_ok_resolve: "psc_ok ps \<Longrightarrow> psc_ok (resolveDuplicateSignature B shares ps m)"
  by (simp add: resolveDuplicateSignature_def Let_def psc_ok_Remove psc_ok_AddSignature split: option.split)

lemma psc_ok_FallBack: "psc_ok ps \<Longrightarrow> psc_ok (FallBackAndVerifyEachSignature B ps r cm vi)"
proof -
  have "psc_ok c \<Longrightarrow> psc_ok (fold (\<lambda>(k, s) c. if P k s then c else Remove c vi k r) es c)" for P es c
    by (induction es arbitrary: c) (auto simp: psc_ok_Remove)
  then show "psc_ok ps \<Longrightarrow> ?thesis"
    by (simp add: FallBackAndVerifyEachSignature_def)
qed

lemma Quorum_FallBack [simp]: "psc_Quorum (FallBackAndVerifyEachSignature B ps r cm vi) = psc_Quorum ps"
proof -
  have "psc_Quorum (fold (\<lambda>(k, s) c. if P k s then c else Remove c vi k r) es c) = psc_Quorum c" for P es c
    by (induction es arbitrary: c) auto
  then show ?thesis
    by (simp add: FallBackAndVerifyEachSignature_def)
qed

lemma rootEntries_FallBack_other:
  "vi' \<noteq> vi \<or> r' \<noteq> r \<Longrightarrow> rootEntries (FallBackAndVerifyEachSignature B ps r cm vi) vi' r' = rootEntries ps vi' r'"
proof -
  assume other: "vi' \<noteq> vi \<or> r' \<noteq> r"
  then have "rootEntries (fold (\<lambda>(k, s) c. if P k s then c else Remove c vi k r) es c) vi' r' = rootEntries c vi' r'" for P es c
    by (induction es arbitrary: c) (auto simp: rootEntries_Remove)
  then show ?thesis
    by (simp add: FallBackAndVerifyEachSignature_def)
qed

text \<open>A container and its JSON form.\<close>

lemma fold_update_distinct:
  "distinct (map fst (acc @ es)) \<Longrightarrow> fold (\<lambda>(k, v) m. AList.update k v m) es acc = acc @ es"
proof (induction es arbitrary: acc)
  case (Cons e es)
  then have "AList.update (fst e) (snd e) acc = acc @ [e]"
    by (induction acc) auto
  with Cons show ?case
    by (simp add: case_prod_beta)
qed simp

lemma each_map_map_Ok:
  "(\<And>x. x \<in> set xs \<Longrightarrow> f (g x) = Ok (h x)) \<Longrightarrow> each_map f (map g xs) = Ok (map h xs)"
  by (induction xs) auto

lemma Unmarshal_Marshal:
  assumes "psc_ok ps" "\<forall>(vi, roots) \<in> set (psc_Signatures ps). \<forall>(r, ops) \<in> set roots. length r = 32"
  shows "UnmarshalContainer (MarshalContainer ps) = Ok ps"
proof -
  have "each_map (\<lambda>(rootHex, ops). bind_res (unmarshalRoot rootHex) (\<lambda>root. Ok (root, ops)))
          (map (\<lambda>(root, ops). (hex_encode root, ops)) roots) = Ok (map id roots)"
    if "(vi, roots) \<in> set (psc_Signatures ps)" for vi roots
  proof (rule each_map_map_Ok)
    fix x
    assume "x \<in> set roots"
    with bspec [OF assms(2) that] have "length (fst x) = 32"
      by (auto simp: case_prod_beta)
    then show "(case (case x of (root, ops) \<Rightarrow> (hex_encode root, ops)) of
        (rootHex, ops) \<Rightarrow> bind_res (unmarshalRoot rootHex) (\<lambda>root. Ok (root, ops))) = Ok (id x)"
      by (cases x) (simp add: unmarshalRoot_def hex_decode_encode)
  qed
  moreover have "fold (\<lambda>(root, ops) m. AList.update root ops m) roots [] = roots"
    if "(vi, roots) \<in> set (psc_Signatures ps)" for vi roots
    using fold_update_distinct [of "[]" roots] that assms(1) by (auto simp: psc_ok_def)
  ultimately have "each_map (\<lambda>(vi, roots).
         bind_res (each_map (\<lambda>(rootHex, ops). bind_res (unmarshalRoot rootHex) (\<lambda>root. Ok (root, ops))) roots)
           (\<lambda>roots. Ok (vi, fold (\<lambda>(root, ops) m. AList.update root ops m) roots [])))
       (map (\<lambda>(vi, roots). (vi, map (\<lambda>(root, ops). (hex_encode root, ops)) roots)) (psc_Signatures ps))
     = Ok (map id (psc_Signatures ps))"
    by (intro each_map_map_Ok) auto
  then show ?thesis
    by (simp add: UnmarshalContainer_def MarshalContainer_def)
qed

section \<open>What reconstruction promises\<close>

text \<open>The two copies of the signature check agree on which signatures are valid.\<close>

lemma verify_copies_agree:
  "is_Ok (verifyBeaconPartialSignature B signer sig r cm) \<longleftrightarrow> is_Ok (VerifyBeaconPartialSignature B signer sig r cm)"
  by (induction cm) (auto simp: is_Ok_iff bind_res_Ok_iff)

definition valid_entries ::
    "('p, 's, 'i) bls \<Rightarrow> PartialSigContainer \<Rightarrow> root \<Rightarrow> RunnerShare \<Rightarrow> (OperatorID \<times> bytes) list" where
  "valid_entries B c r share =
     filter (\<lambda>(k, s). is_Ok (verifyBeaconPartialSignature B k s r (rsh_Committee share)))
       (rootEntries c (rsh_ValidatorIndex share) r)"

lemma map_err_Err_iff: "map_err g m = Err e \<longleftrightarrow> (\<exists>e'. m = Err e' \<and> e = g e')"
  by (cases m) auto

lemma of_sum_Err_iff: "of_sum g x = Err e \<longleftrightarrow> (\<exists>e'. x = Inl e' \<and> e = g e')"
  by (cases x) auto

lemma ReconstructBeaconSig_cases:
  "ReconstructBeaconSig B c r pk vi \<noteq> Panic \<and>
   (\<forall>e. ReconstructBeaconSig B c r pk vi = Err e \<longrightarrow> \<not> isRecoverableReconstructError e)"
proof -
  have "each_map (reconstructEntry B) es \<noteq> Panic" for es
    by (rule each_map_not_Panic) (simp add: reconstructEntry_def bind_res_Panic_iff)
  moreover have "\<not> isRecoverableReconstructError e" if "each_map (reconstructEntry B) es = Err e" for es e
    using that by (induction es) (auto simp: reconstructEntry_def bind_res_Err_iff elim!: of_sum.elims)
  ultimately show ?thesis
    unfolding ReconstructBeaconSig_def ReconstructSignature_def
    by (auto simp: ReconstructSignatures_def VerifyReconstructedSignature_def bind_res_Panic_iff bind_res_Err_iff
        ensure_Err_iff map_err_Err_iff of_sum_Err_iff split: option.split)
qed

lemma ReconstructBeaconSig_Ok:
  "ReconstructBeaconSig B c r pk vi = Ok sig \<Longrightarrow>
     \<exists>s p. sig = bls_Serialize B s \<and> bls_PublicKey B pk = Inr p \<and> bls_VerifyByte B s p r"
  by (auto simp: ReconstructBeaconSig_def ReconstructSignature_def VerifyReconstructedSignature_def
      DeserializeBLSPublicKey_def bind_res_Ok_iff ensure_Ok_iff split: option.splits)

lemma quorum_FallBack:
  assumes "psc_ok c"
  shows "fst (psHasQuorum (FallBackAndVerifyEachSignature B c r (rsh_Committee share) (rsh_ValidatorIndex share))
           (rsh_ValidatorIndex share) r) \<longleftrightarrow> len_u64 (valid_entries B c r share) \<ge> psc_Quorum c"
  by (simp add: psHasQuorum_def Let_def rootEntries_FallBack psc_ok_entries assms valid_entries_def)

lemma FallBack_valid:
  assumes "psc_ok c" "\<forall>(k, s) \<in> set (rootEntries c vi r). is_Ok (verifyBeaconPartialSignature B k s r cm)"
  shows "FallBackAndVerifyEachSignature B c r cm vi = c"
proof -
  have "fold (\<lambda>(k, s) c. if P k s then c else Remove c vi k r) es c = c" if "\<forall>(k, s) \<in> set es. P k s" for P es c
    using that by (induction es) auto
  then show ?thesis
    using assms(2) by (simp add: FallBackAndVerifyEachSignature_def GetSignatures_def)
qed

lemma FallBack_idem:
  assumes "psc_ok c"
  shows "FallBackAndVerifyEachSignature B (FallBackAndVerifyEachSignature B c r cm vi) r cm vi =
     FallBackAndVerifyEachSignature B c r cm vi"
  using assms by (intro FallBack_valid psc_ok_FallBack) (auto simp: rootEntries_FallBack psc_ok_entries)

lemma filter_keeps_all: "length (filter P xs) = length xs \<Longrightarrow> x \<in> set xs \<Longrightarrow> P x"
  by (metis length_filter_less less_irrefl)

lemma FallBack_same_length:
  assumes "psc_ok c" "length (rootEntries (FallBackAndVerifyEachSignature B c r cm vi) vi r) = length (rootEntries c vi r)"
  shows "FallBackAndVerifyEachSignature B c r cm vi = c"
proof (rule FallBack_valid [OF assms(1)])
  have "length (filter (\<lambda>(k, s). is_Ok (verifyBeaconPartialSignature B k s r cm)) (rootEntries c vi r)) = length (rootEntries c vi r)"
    using assms by (simp add: rootEntries_FallBack psc_ok_entries)
  then show "\<forall>(k, s) \<in> set (rootEntries c vi r). is_Ok (verifyBeaconPartialSignature B k s r cm)"
    by (auto dest: filter_keeps_all)
qed

text \<open>The loop goes round at most once more: after one check of every share only valid ones are left.\<close>

lemma reconstructQuorumSig_eq:
  assumes ok: "psc_ok c"
  defines "msg \<equiv> \<lambda>phase. ''got '' @ phase @ '' quorum but it has invalid signatures''"
    and "c1 \<equiv> \<lambda>B r share. FallBackAndVerifyEachSignature B c r (rsh_Committee share) (rsh_ValidatorIndex share)"
    and "rec \<equiv> \<lambda>B r share c. ReconstructBeaconSig B c r (rsh_ValidatorPubKey share) (rsh_ValidatorIndex share)"
  shows "reconstructQuorumSig B c r share phase =
    (case rec B r share c of
       Ok sig \<Rightarrow> (Ok (copy_into 96 sig), c)
     | Panic \<Rightarrow> (Panic, c)
     | Err e \<Rightarrow>
         if len_u64 (valid_entries B c r share) < psc_Quorum c then (Err (RRecoverable (RWrap (msg phase) e)), c1 B r share)
         else (case rec B r share (c1 B r share) of
                 Ok sig \<Rightarrow> (Ok (copy_into 96 sig), c1 B r share)
               | Panic \<Rightarrow> (Panic, c1 B r share)
               | Err e \<Rightarrow> (Err (RWrap (msg phase) e), c1 B r share)))"
proof -
  let ?vi = "rsh_ValidatorIndex share"
  let ?c = "FallBackAndVerifyEachSignature B c r (rsh_Committee share) ?vi"
  note q = quorum_FallBack [OF ok, of B r share]
  have idem: "FallBackAndVerifyEachSignature B ?c r (rsh_Committee share) ?vi = ?c"
    by (rule FallBack_idem [OF ok])
  have again: "reconstructQuorumSig B ?c r share phase =
      (case rec B r share ?c of Ok sig \<Rightarrow> (Ok (copy_into 96 sig), ?c) | Panic \<Rightarrow> (Panic, ?c)
       | Err e \<Rightarrow> (Err (RWrap (msg phase) e), ?c))" if "fst (psHasQuorum ?c ?vi r)"
    using that by (subst reconstructQuorumSig.simps) (simp add: idem rec_def msg_def split: res.split)
  have same: "?c = c" if "length (GetSignatures ?c ?vi r) = length (GetSignatures c ?vi r)"
    using FallBack_same_length [OF ok] that by (simp add: GetSignatures_def)
  show ?thesis
    unfolding c1_def
    by (subst reconstructQuorumSig.simps)
      (auto simp: again q rec_def msg_def not_less Let_def dest!: same split: res.split)
qed

lemma reconstructQuorumSig_cases:
  assumes "psc_ok c" "reconstructQuorumSig B c r share phase = (result, c')"
  obtains (at_once) sig where "c' = c" "result = Ok (copy_into 96 sig)"
      "ReconstructBeaconSig B c r (rsh_ValidatorPubKey share) (rsh_ValidatorIndex share) = Ok sig"
  | (retried) sig where "c' = FallBackAndVerifyEachSignature B c r (rsh_Committee share) (rsh_ValidatorIndex share)"
      "result = Ok (copy_into 96 sig)"
      "ReconstructBeaconSig B c' r (rsh_ValidatorPubKey share) (rsh_ValidatorIndex share) = Ok sig"
  | (below) m e where "c' = FallBackAndVerifyEachSignature B c r (rsh_Committee share) (rsh_ValidatorIndex share)"
      "result = Err (RRecoverable (RWrap m e))" "len_u64 (valid_entries B c r share) < psc_Quorum c"
  | (terminal) m e where "c' = FallBackAndVerifyEachSignature B c r (rsh_Committee share) (rsh_ValidatorIndex share)"
      "result = Err (RWrap m e)" "\<not> len_u64 (valid_entries B c r share) < psc_Quorum c"
      "ReconstructBeaconSig B c' r (rsh_ValidatorPubKey share) (rsh_ValidatorIndex share) = Err e"
proof -
  let ?c = "FallBackAndVerifyEachSignature B c r (rsh_Committee share) (rsh_ValidatorIndex share)"
  let ?rec = "\<lambda>c. ReconstructBeaconSig B c r (rsh_ValidatorPubKey share) (rsh_ValidatorIndex share)"
  note run = assms(2) [unfolded reconstructQuorumSig_eq [OF assms(1)]]
  consider sig where "?rec c = Ok sig" | e where "?rec c = Err e"
    using ReconstructBeaconSig_cases by (metis res.exhaust)
  then show thesis
  proof cases
    case 1
    then show thesis
      using run by (intro at_once) simp_all
  next
    case 2
    then show thesis
      using run below retried terminal ReconstructBeaconSig_cases
      by (cases "len_u64 (valid_entries B c r share) < psc_Quorum c"; cases "?rec ?c") force+
  qed
qed

text \<open>
  What the threshold scheme of the BLS library promises for a share and root: a list of at least the
  quorum of shares that verify is recovered to a signature that verifies.
\<close>

definition threshold_scheme :: "('p, 's, 'i) bls \<Rightarrow> u64 \<Rightarrow> RunnerShare \<Rightarrow> root \<Rightarrow> bool" where
  "threshold_scheme B quorum share r \<longleftrightarrow>
     (\<forall>es. len_u64 es \<ge> quorum \<longrightarrow> distinct (map fst es) \<longrightarrow>
        (\<forall>(k, s) \<in> set es. is_Ok (verifyBeaconPartialSignature B k s r (rsh_Committee share))) \<longrightarrow>
        (\<exists>sig p. ReconstructSignatures B es = Ok sig \<and> bls_PublicKey B (rsh_ValidatorPubKey share) = Inr p \<and>
           bls_VerifyByte B sig p r))"

section \<open>An example\<close>

text \<open>
  In the example scheme a signature is valid if its first byte is that of the public key and its second
  that of the root; shares of different roots cannot be combined.
\<close>

definition demo_bls :: "(bytes, bytes, string) bls" where
  "demo_bls = \<lparr>bls_PublicKey = Inr, bls_Sign = Inr, bls_ID = Inr,
     bls_VerifyByte = (\<lambda>s pk r. s ! 0 = pk ! 0 \<and> s ! 1 = r ! 0),
     bls_RecoverSign = (\<lambda>sigs ids. if sigs = [] \<or> (\<exists>s \<in> set sigs. s ! 1 \<noteq> hd sigs ! 1) then Inl ''not one root''
                                   else Inr [0, hd sigs ! 1]),
     bls_RecoverPublicKey = (\<lambda>pks ids. Inr [0]), bls_IsEqual = (=), bls_Serialize = (\<lambda>s. s)\<rparr>"

definition demo_rshare :: RunnerShare where
  "demo_rshare = \<lparr>rsh_ValidatorIndex = 5, rsh_ValidatorPubKey = [0], rsh_SharePubKey = [1],
     rsh_Committee = map (\<lambda>k. \<lparr>Signer = word_of_nat k, mem_SharePubKey = [word_of_nat k]\<rparr>) [1, 2, 3, 4],
     rsh_FeeRecipient = []\<rparr>"

text \<open>Operators 1, 2 and 3 signed root 7; operator 4 sent a share for another root.\<close>

definition demo_container :: PartialSigContainer where
  "demo_container = foldl AddSignature (NewPartialSigContainer 3)
     (map (\<lambda>(k, b). \<lparr>psm_PartialSignature = [word_of_nat k, b], psm_SigningRoot = [7], psm_Signer = word_of_nat k,
                      psm_ValidatorIndex = 5\<rparr>) [(4, 9), (1, 7), (2, 7), (3, 7)])"

lemma demo_container_ok: "psc_ok demo_container"
  by (simp add: demo_container_def psc_ok_AddSignature)

lemma demo_valid: "len_u64 (valid_entries demo_bls demo_container [7] demo_rshare) = 3"
  "psc_Quorum demo_container = 3"
  by code_simp+

lemma verify_in_demo:
  "is_Ok (verifyBeaconPartialSignature demo_bls k s r cm) \<Longrightarrow> s ! 1 = r ! 0"
  by (induction cm) (auto simp: demo_bls_def DeserializeBLSPublicKey_def is_Ok_iff ensure_Ok_iff split: if_splits)

lemma demo_threshold: "0 < q \<Longrightarrow> threshold_scheme demo_bls q demo_rshare r"
proof -
  assume q: "0 < q"
  have "ReconstructSignatures demo_bls es = Ok [0, r ! 0]"
    if "len_u64 es \<ge> q" "\<forall>(k, s) \<in> set es. is_Ok (verifyBeaconPartialSignature demo_bls k s r (rsh_Committee demo_rshare))" for es
  proof -
    have "each_map (reconstructEntry demo_bls) es = Ok (map (\<lambda>(k, s). (show_dec (unat k), s)) es)"
      by (induction es) (auto simp: reconstructEntry_def demo_bls_def)
    moreover have "es \<noteq> []"
      using that(1) q by (auto simp: len_u64_def)
    moreover have "\<forall>s \<in> set (map snd es). s ! 1 = r ! 0"
      using that(2) verify_in_demo by fastforce
    ultimately show ?thesis
      by (auto simp: ReconstructSignatures_def demo_bls_def case_prod_beta comp_def hd_map) 
  qed
  then show ?thesis
    by (auto simp: threshold_scheme_def) (simp_all add: demo_bls_def demo_rshare_def)
qed

section \<open>Properties\<close>



text \<open>
  Invalid shares do not block a duty. Whatever else the container holds for the root, when the
  valid shares reach the quorum the signature of the validator is reconstructed.
\<close>

lemma invalid_shares_do_not_block:
  assumes "psc_ok c" "threshold_scheme B (psc_Quorum c) share r" "0 < psc_Quorum c"
    and "len_u64 (valid_entries B c r share) \<ge> psc_Quorum c"
  shows "\<exists>sig c'. reconstructQuorumSig B c r share phase = (Ok sig, c')"
proof -
  obtain result c' where run: "reconstructQuorumSig B c r share phase = (result, c')"
    by fastforce
  let ?c = "FallBackAndVerifyEachSignature B c r (rsh_Committee share) (rsh_ValidatorIndex share)"
  have kept: "rootEntries ?c (rsh_ValidatorIndex share) r = valid_entries B c r share"
    by (simp add: valid_entries_def rootEntries_FallBack psc_ok_entries assms(1))
  have "distinct (map fst (valid_entries B c r share))"
    using psc_ok_entries [OF psc_ok_FallBack [OF assms(1)]] kept by metis
  then obtain sig p where "ReconstructSignatures B (valid_entries B c r share) = Ok sig"
    "bls_PublicKey B (rsh_ValidatorPubKey share) = Inr p" "bls_VerifyByte B sig p r"
    using assms(2,4) unfolding threshold_scheme_def valid_entries_def by fastforce
  moreover have "valid_entries B c r share \<noteq> []"
    using assms(3,4) by (auto simp: len_u64_def)
  ultimately have "is_Ok (ReconstructBeaconSig B ?c r (rsh_ValidatorPubKey share) (rsh_ValidatorIndex share))"
    using kept by (auto simp: ReconstructBeaconSig_def ReconstructSignature_def rootEntries_def is_Ok_iff
        VerifyReconstructedSignature_def DeserializeBLSPublicKey_def bind_res_Ok_iff split: option.splits)
  from assms(1) run show ?thesis
    by (cases rule: reconstructQuorumSig_cases)
      (use run assms(4) \<open>is_Ok _\<close> in \<open>auto simp: is_Ok_iff\<close>)
qed

lemma invalid_shares_do_not_block_witness:
  "\<exists>sig c'. reconstructQuorumSig demo_bls demo_container [7] demo_rshare ''post consensus'' = (Ok sig, c')"
  by (rule invalid_shares_do_not_block) (simp_all add: demo_container_ok demo_valid demo_threshold)

end
