(* ===== verification/Share_Keys.thy ===== *)
theory Share_Keys
  imports Partial_Sigs Complex_Main
begin

text \<open>
  The check of the public keys of the shares of a validator, \<open>ValidateSharePublicKeys\<close> of
  \<open>protocol/v2/types/crypto.go\<close>, and what it guarantees: the keys are the values, at the operator ids,
  of one polynomial of degree exactly one less than the quorum with the validator key at zero. Secret
  sharing is seen through the exponents of the keys, which are elements of a field; that the BLS
  library recovers keys by interpolation at zero is the hypothesis \<open>interpolates\<close>.
\<close>

section \<open>The check\<close>

fun validateRemaining ::
    "('p, 's, 'i) bls \<Rightarrow> 'p \<Rightarrow> 'p list \<Rightarrow> 'i list \<Rightarrow> ('p \<times> 'i) list \<Rightarrow> (run_err, unit) res" where
  "validateRemaining B expected basePubKeys baseIDs [] = Ok ()"
| "validateRemaining B expected basePubKeys baseIDs ((pk, i) # rest) =
     bind_res (of_sum (\<lambda>e. RWrap ''failed to recover public key'' (RPlain e))
                 (bls_RecoverPublicKey B (basePubKeys @ [pk]) (baseIDs @ [i]))) (\<lambda>recovered.
     bind_res (ensure (bls_IsEqual B recovered expected) (RPlain ''validator public key not reconstructed'')) (\<lambda>_.
       validateRemaining B expected basePubKeys baseIDs rest))"

definition decodeShareKey :: "('p, 's, 'i) bls \<Rightarrow> OperatorID \<times> bytes \<Rightarrow> (run_err, 'p \<times> 'i) res" where
  "decodeShareKey B share =
     bind_res (of_sum (\<lambda>e. RWrap ''failed to set id for operator'' (RPlain e)) (bls_ID B (show_dec (unat (fst share))))) (\<lambda>i.
     bind_res (of_sum (\<lambda>e. RWrap ''failed to deserialize share public key of operator'' (RPlain e))
                 (bls_PublicKey B (snd share))) (\<lambda>pk. Ok (pk, i)))"

definition validateSharePublicKeys ::
    "('p, 's, 'i) bls \<Rightarrow> bytes \<Rightarrow> OperatorID list \<Rightarrow> bytes list \<Rightarrow> (run_err, unit) res" where
  "validateSharePublicKeys B validatorPubKey operatorIDs sharePubKeys =
     bind_res (ensure (length operatorIDs = length sharePubKeys)
                 (RPlain ''operator count does not match share public key count'')) (\<lambda>_.
     bind_res (ensure (ValidCommitteeSize (len_u64 operatorIDs)) (RPlain ''invalid committee size'')) (\<lambda>_.
     bind_res (of_sum (\<lambda>e. RWrap ''failed to deserialize validator public key'' (RPlain e))
                 (DeserializeBLSPublicKey B validatorPubKey)) (\<lambda>expected.
     bind_res (each_map (decodeShareKey B) (zip operatorIDs sharePubKeys)) (\<lambda>keys.
     let (quorum, _) = ComputeQuorumAndPartialQuorum (len_u64 operatorIDs);
         baseSize = unat (quorum - 1);
         base = take baseSize keys
     in bind_res (of_sum (\<lambda>e. RWrap ''failed to recover public key'' (RPlain e))
                    (bls_RecoverPublicKey B (map fst base) (map snd base))) (\<lambda>baseRecovered.
        bind_res (ensure (\<not> bls_IsEqual B baseRecovered expected) (RPlain ''polynomial degree below the quorum'')) (\<lambda>_.
          validateRemaining B expected (map fst base) (map snd base) (drop baseSize keys)))))))"

definition ValidateSharePublicKeys ::
    "('p, 's, 'i) bls \<Rightarrow> bytes \<Rightarrow> OperatorID list \<Rightarrow> bytes list \<Rightarrow> (run_err, unit) res" where
  "ValidateSharePublicKeys B validatorPubKey operatorIDs sharePubKeys =
     map_err (RWrap ''invalid share public keys'') (validateSharePublicKeys B validatorPubKey operatorIDs sharePubKeys)"

section \<open>Polynomials\<close>

text \<open>A polynomial function of degree less than \<open>n\<close>, by the scheme of Horner.\<close>

fun deg_lt :: "nat \<Rightarrow> ('f::field \<Rightarrow> 'f) \<Rightarrow> bool" where
  "deg_lt 0 f \<longleftrightarrow> f = (\<lambda>_. 0)"
| "deg_lt (Suc n) f \<longleftrightarrow> (\<exists>c g. deg_lt n g \<and> f = (\<lambda>x. c + x * g x))"

lemma deg_lt_horner: "deg_lt n g \<Longrightarrow> deg_lt (Suc n) (\<lambda>x. c + x * g x)"
  by auto

lemma deg_lt_0: "deg_lt n (\<lambda>_. 0)"
proof (induction n)
  case (Suc n)
  have "(\<lambda>_. 0) = (\<lambda>x. 0 + x * (0 :: 'a))"
    by simp
  with Suc show ?case
    unfolding deg_lt.simps by blast
qed simp

lemma deg_lt_Suc: "deg_lt n f \<Longrightarrow> deg_lt (Suc n) f"
proof (induction n arbitrary: f)
  case 0
  then show ?case
    using deg_lt_0 [of "Suc 0"] by simp
next
  case (Suc n)
  then obtain c g where "deg_lt n g" "f = (\<lambda>x. c + x * g x)"
    by auto
  then show ?case
    using Suc.IH deg_lt.simps(2) by blast
qed

lemma deg_lt_mono: "deg_lt m f \<Longrightarrow> m \<le> n \<Longrightarrow> deg_lt n f"
  by (induction n) (auto simp: le_Suc_eq deg_lt_Suc simp del: deg_lt.simps)

lemma deg_lt_add: "deg_lt n f \<Longrightarrow> deg_lt n g \<Longrightarrow> deg_lt n (\<lambda>x. f x + g x)"
proof (induction n arbitrary: f g)
  case (Suc n)
  then obtain c f' d g' where "deg_lt n f'" "f = (\<lambda>x. c + x * f' x)" "deg_lt n g'" "g = (\<lambda>x. d + x * g' x)"
    by auto
  moreover from this have "deg_lt n (\<lambda>x. f' x + g' x)"
    using Suc.IH by blast
  moreover have "(\<lambda>x. (c + x * f' x) + (d + x * g' x)) = (\<lambda>x. (c + d) + x * (f' x + g' x))"
    by (simp add: algebra_simps)
  ultimately show ?case
    unfolding deg_lt.simps by blast
qed simp

lemma deg_lt_scale: "deg_lt n f \<Longrightarrow> deg_lt n (\<lambda>x. a * f x)"
proof (induction n arbitrary: f)
  case (Suc n)
  then obtain c f' where "deg_lt n f'" "f = (\<lambda>x. c + x * f' x)"
    by auto
  moreover from this have "deg_lt n (\<lambda>x. a * f' x)"
    using Suc.IH by blast
  moreover have "(\<lambda>x. a * (c + x * f' x)) = (\<lambda>x. a * c + x * (a * f' x))"
    by (simp add: algebra_simps)
  ultimately show ?case
    unfolding deg_lt.simps by blast
qed simp

lemma deg_lt_diff: "deg_lt n f \<Longrightarrow> deg_lt n g \<Longrightarrow> deg_lt n (\<lambda>x. f x - g x)"
  using deg_lt_add [of n f "\<lambda>x. - 1 * g x"] deg_lt_scale [of n g "- 1"] by simp

lemma deg_lt_linear: "deg_lt n f \<Longrightarrow> deg_lt (Suc n) (\<lambda>x. (b + a * x) * f x)"
proof -
  assume f: "deg_lt n f"
  have "(\<lambda>x. a * (x * f x)) = (\<lambda>x. 0 + x * (a * f x))"
    by (simp add: algebra_simps)
  then have "deg_lt (Suc n) (\<lambda>x. a * (x * f x))"
    unfolding deg_lt.simps using deg_lt_scale [OF f, of a] by blast
  from deg_lt_add [OF deg_lt_scale [OF deg_lt_Suc [OF f], of b] this]
  show ?thesis
    by (simp add: algebra_simps)
qed

lemma deg_lt_sum_list: "(\<And>p. p \<in> set ps \<Longrightarrow> deg_lt n (f p)) \<Longrightarrow> deg_lt n (\<lambda>x. \<Sum>p\<leftarrow>ps. f p x)"
  by (induction ps) (auto intro: deg_lt_0 deg_lt_add)

text \<open>A root can be divided out, so a polynomial with as many roots as its degree bound is zero.\<close>

lemma deg_lt_divide: "deg_lt n g \<Longrightarrow> \<exists>h. deg_lt (n - 1) h \<and> (\<forall>x. g x - g a = (x - a) * h x)"
proof (induction n arbitrary: g)
  case (Suc n)
  then obtain c f where f: "deg_lt n f" "g = (\<lambda>x. c + x * f x)"
    by auto
  then obtain h where h: "deg_lt (n - 1) h" "\<forall>x. f x - f a = (x - a) * h x"
    using Suc.IH by blast
  have "deg_lt n (\<lambda>x. f x + a * h x)"
    by (intro deg_lt_add deg_lt_scale f(1) deg_lt_mono [OF h(1)]) simp
  moreover have "g x - g a = (x - a) * (f x + a * h x)" for x
  proof -
    have "g x - g a = (x - a) * f x + a * (f x - f a)"
      by (simp add: f(2) algebra_simps)
    then show ?thesis
      by (simp add: h(2) algebra_simps)
  qed
  ultimately show ?case
    by auto
qed (auto intro: deg_lt_0)

lemma deg_lt_roots:
  "deg_lt n f \<Longrightarrow> distinct xs \<Longrightarrow> length xs = n \<Longrightarrow> \<forall>x \<in> set xs. f x = 0 \<Longrightarrow> f = (\<lambda>_. 0)"
proof (induction n arbitrary: f xs)
  case (Suc n)
  then obtain a ys where xs: "xs = a # ys"
    by (cases xs) auto
  obtain h where h: "deg_lt n h" "\<forall>x. f x - f a = (x - a) * h x"
    using deg_lt_divide [OF Suc.prems(1), of a] by auto
  then have eq: "f x = (x - a) * h x" for x
    using Suc.prems(4) xs by simp
  have "h y = 0" if "y \<in> set ys" for y
    using that Suc.prems(2,4) xs eq [of y] by auto
  then have "h = (\<lambda>_. 0)"
    using Suc.IH [OF h(1), of ys] Suc.prems(2,3) xs by simp
  then show ?case
    using eq by auto
qed simp

lemma deg_lt_unique:
  assumes "deg_lt n f" "deg_lt n g" "distinct xs" "n \<le> length xs" "\<forall>x \<in> set xs. f x = g x"
  shows "f = g"
proof -
  have "(\<lambda>x. f x - g x) = (\<lambda>_. 0)"
    using assms(3-5) by (intro deg_lt_roots [OF deg_lt_diff [OF assms(1,2)], of "take n xs"])
      (auto dest: in_set_takeD)
  then have "f x = g x" for x
    by (simp add: fun_eq_iff)
  then show ?thesis
    by blast
qed

section \<open>Interpolation\<close>

definition basis :: "('f::field \<times> 'f) list \<Rightarrow> 'f \<Rightarrow> 'f \<Rightarrow> 'f" where
  "basis pts k x = (\<Prod>q\<leftarrow>filter (\<lambda>q. fst q \<noteq> k) pts. (fst q - x) / (fst q - k))"

definition interp :: "('f::field \<times> 'f) list \<Rightarrow> 'f \<Rightarrow> 'f" where
  "interp pts x = (\<Sum>p\<leftarrow>pts. snd p * basis pts (fst p) x)"

lemma deg_lt_prod: "deg_lt (Suc (length qs)) (\<lambda>x. \<Prod>q\<leftarrow>qs. (u q - x) / v q)"
proof (induction qs)
  case Nil
  show ?case
    by (auto intro: exI [of _ 1])
next
  case (Cons q qs)
  have "(\<lambda>x. (u q - x) / v q * (\<Prod>q\<leftarrow>qs. (u q - x) / v q)) =
      (\<lambda>x. (u q / v q + (- 1 / v q) * x) * (\<Prod>q\<leftarrow>qs. (u q - x) / v q))"
    by (simp add: diff_divide_distrib)
  with deg_lt_linear [OF Cons.IH, of "u q / v q" "- 1 / v q"] show ?case
    by (simp del: deg_lt.simps)
qed

lemma deg_lt_interp:
  assumes "distinct (map fst pts)"
  shows "deg_lt (length pts) (interp pts)"
proof -
  have "deg_lt (length pts) (\<lambda>x. snd p * basis pts (fst p) x)" if "p \<in> set pts" for p
  proof -
    have "length (filter (\<lambda>q. fst q \<noteq> fst p) pts) < length pts"
      using that by (rule length_filter_less) simp
    then show ?thesis
      unfolding basis_def by (intro deg_lt_scale deg_lt_mono [OF deg_lt_prod]) simp
  qed
  then show ?thesis
    unfolding interp_def [abs_def] by (rule deg_lt_sum_list)
qed

lemma basis_eq:
  assumes "q \<in> set pts"
  shows "basis pts k (fst q) = (if fst q = k then 1 else 0)"
proof (cases "fst q = k")
  case True
  have "(\<Prod>q\<leftarrow>qs. (fst q - k) / (fst q - k)) = 1" if "\<forall>q \<in> set qs. fst q \<noteq> k" for qs :: "('a \<times> 'a) list"
    using that by (induction qs) auto
  with True show ?thesis
    by (simp add: basis_def)
next
  case False
  then have "q \<in> set (filter (\<lambda>q. fst q \<noteq> k) pts)"
    using assms by simp
  then have "0 \<in> set (map (\<lambda>p. (fst p - fst q) / (fst p - k)) (filter (\<lambda>q. fst q \<noteq> k) pts))"
    by force
  with False show ?thesis
    by (simp add: basis_def prod_list_zero_iff)
qed

lemma interp_point:
  assumes "distinct (map fst pts)" "(x, y) \<in> set pts"
  shows "interp pts x = y"
proof -
  have "interp pts x = (\<Sum>p\<leftarrow>pts. if fst p = x then snd p else 0)"
    unfolding interp_def using basis_eq [OF assms(2)] by (auto intro!: arg_cong [where f = sum_list] map_cong)
  also have "\<dots> = y"
    using assms
  proof (induction pts)
    case (Cons p pts)
    have "(\<Sum>p\<leftarrow>pts. if fst p = x then snd p else 0) = 0" if "x \<notin> fst ` set pts"
      using that by (induction pts) auto
    moreover have "x \<in> fst ` set pts" if "(x, y) \<in> set pts"
      using that by force
    ultimately show ?case
      using Cons by (cases "p = (x, y)") auto
  qed simp
  finally show ?thesis .
qed

text \<open>Interpolating enough points of a polynomial gives the polynomial.\<close>

lemma interp_unique:
  assumes "deg_lt n f" "distinct (map fst pts)" "n \<le> length pts" "\<forall>(x, y) \<in> set pts. f x = y"
  shows "interp pts = f"
proof (rule deg_lt_unique [where n = "length pts" and xs = "map fst pts"])
  show "deg_lt (length pts) (interp pts)" "deg_lt (length pts) f"
    using assms by (auto intro: deg_lt_interp deg_lt_mono)
  show "\<forall>x \<in> set (map fst pts). interp pts x = f x"
    using assms(4) interp_point [OF assms(2)] by fastforce
qed (use assms in auto)

section \<open>Shares of one polynomial\<close>

definition one_polynomial :: "nat \<Rightarrow> 'f::field \<Rightarrow> ('f \<times> 'f) list \<Rightarrow> bool" where
  "one_polynomial t v pts \<longleftrightarrow>
     (\<exists>f. deg_lt t f \<and> \<not> deg_lt (t - 1) f \<and> f 0 = v \<and> (\<forall>(x, y) \<in> set pts. f x = y))"

lemma interp_below:
  assumes f: "deg_lt t f" "\<not> deg_lt (t - 1) f" and pts: "\<forall>(x, y) \<in> set pts. f x = y"
    and "distinct (map fst pts)" "0 \<notin> fst ` set pts" "length pts = t - 1" "0 < t"
  shows "interp pts 0 \<noteq> f 0"
proof
  assume eq: "interp pts 0 = f 0"
  have "interp pts = f"
  proof (rule deg_lt_unique [where n = t and xs = "0 # map fst pts"])
    show "deg_lt t (interp pts)"
      using deg_lt_mono [OF deg_lt_interp [OF assms(4)]] assms(6) by simp
    show "\<forall>x \<in> set (0 # map fst pts). interp pts x = f x"
      using eq pts interp_point [OF assms(4)] by fastforce
  qed (use assms in auto)
  then show False
    using f(2) deg_lt_interp [OF assms(4)] assms(6) by simp
qed

lemma one_polynomial_quorums:
  assumes "one_polynomial t v pts" "0 < t" "set S \<subseteq> set pts" "distinct (map fst S)" "0 \<notin> fst ` set pts"
  shows "t \<le> length S \<Longrightarrow> interp S 0 = v" "length S = t - 1 \<Longrightarrow> interp S 0 \<noteq> v"
proof -
  obtain f where f: "deg_lt t f" "\<not> deg_lt (t - 1) f" "f 0 = v" "\<forall>(x, y) \<in> set pts. f x = y"
    using assms(1) unfolding one_polynomial_def by blast
  have S: "\<forall>(x, y) \<in> set S. f x = y"
    using f(4) assms(3) by auto
  show "interp S 0 = v" if "t \<le> length S"
    using interp_unique [OF f(1) assms(4) that S] f(3) by simp
  show "interp S 0 \<noteq> v" if "length S = t - 1"
    using interp_below [OF f(1,2) S assms(4)] that assms(2,3,5) f(3) by auto
qed

lemma one_polynomial_iff:
  assumes pts: "distinct (map fst pts)" "0 \<notin> fst ` set pts" and t: "0 < t" "t \<le> length pts"
  shows "one_polynomial t v pts \<longleftrightarrow>
    interp (take (t - 1) pts) 0 \<noteq> v \<and> (\<forall>p \<in> set (drop (t - 1) pts). interp (take (t - 1) pts @ [p]) 0 = v)"
    (is "_ \<longleftrightarrow> ?base \<and> ?rest")
proof -
  let ?b = "take (t - 1) pts"
  have dist: "distinct (map fst (?b @ [p]))" if "p \<in> set (drop (t - 1) pts)" for p
  proof -
    have "distinct (map fst ?b @ map fst (drop (t - 1) pts))"
      using pts(1) by (metis append_take_drop_id map_append)
    with that show ?thesis
      by auto
  qed
  have len: "length ?b = t - 1"
    using t by simp
  show ?thesis
  proof
    assume one: "one_polynomial t v pts"
    have "?base"
      using one_polynomial_quorums(2) [OF one t(1) _ _ pts(2), of ?b] pts(1) len set_take_subset
      by (metis distinct_take take_map)
    moreover have "interp (?b @ [p]) 0 = v" if "p \<in> set (drop (t - 1) pts)" for p
    proof (rule one_polynomial_quorums(1) [OF one t(1) _ dist [OF that] pts(2)])
      show "set (?b @ [p]) \<subseteq> set pts"
        using that by (auto dest: in_set_takeD in_set_dropD)
      show "t \<le> length (?b @ [p])"
        using len t(1) by simp
    qed
    ultimately show "?base \<and> ?rest"
      by blast
  next
    assume checks: "?base \<and> ?rest"
    let ?p = "pts ! (t - 1)" and ?f = "interp (?b @ [pts ! (t - 1)])"
    have p: "?p \<in> set (drop (t - 1) pts)"
      using t by (metis Cons_nth_drop_Suc diff_less less_le_trans list.set_intros(1) zero_less_one)
    have deg: "deg_lt t (interp (?b @ [q]))" if "q \<in> set (drop (t - 1) pts)" for q
      using deg_lt_interp [OF dist [OF that]] len t(1) by (simp del: deg_lt.simps)
    have on_base: "interp (?b @ [q]) x = y" if "q \<in> set (drop (t - 1) pts)" "(x, y) \<in> set ?b" for q x y
      using interp_point [OF dist [OF that(1)], of x y] that(2) by simp
    have same: "interp (?b @ [q]) = ?f" if "q \<in> set (drop (t - 1) pts)" for q
    proof (rule deg_lt_unique [OF deg [OF that] deg [OF p], of "0 # map fst ?b"])
      show "distinct (0 # map fst ?b)"
        using pts by (auto simp: take_map [symmetric] dest: in_set_takeD)
      show "\<forall>x \<in> set (0 # map fst ?b). interp (?b @ [q]) x = ?f x"
        using checks that p on_base [OF that] on_base [OF p] by auto
    qed (use len t in simp)
    have "?f x = y" if "(x, y) \<in> set pts" for x y
    proof -
      have "(x, y) \<in> set ?b \<or> (x, y) \<in> set (drop (t - 1) pts)"
        using that by (metis Un_iff append_take_drop_id set_append)
      then show ?thesis
      proof
        assume p': "(x, y) \<in> set (drop (t - 1) pts)"
        have "interp (?b @ [(x, y)]) x = y"
          using interp_point [OF dist [OF p']] by simp
        then show ?thesis
          using same [OF p'] by metis
      qed (rule on_base [OF p])
    qed
    moreover have "\<not> deg_lt (t - 1) ?f"
    proof
      assume "deg_lt (t - 1) ?f"
      then have "interp ?b = ?f"
        using pts(1) len on_base [OF p] by (intro interp_unique) (auto simp: take_map [symmetric])
      then show False
        using checks p by metis
    qed
    ultimately show "one_polynomial t v pts"
      unfolding one_polynomial_def using deg [OF p] checks p by blast
  qed
qed

section \<open>The check decides sharing by one polynomial\<close>

text \<open>
  What is assumed of the BLS library: identifiers are the operator numbers as elements of a field
  in which they are distinct, keys are equal if their exponents are, and recovering from keys at
  distinct nonzero identifiers interpolates the exponents at zero.
\<close>

definition interpolates :: "('p, 's, 'i) bls \<Rightarrow> ('p \<Rightarrow> 'f::field) \<Rightarrow> ('i \<Rightarrow> 'f) \<Rightarrow> bool" where
  "interpolates B exponent number \<longleftrightarrow>
     (\<forall>n < 2 ^ 64. \<exists>i. bls_ID B (show_dec n) = Inr i \<and> number i = of_nat n) \<and>
     inj_on (of_nat :: nat \<Rightarrow> 'f) {..<2 ^ 64} \<and>
     (\<forall>p q. bls_IsEqual B p q \<longleftrightarrow> exponent p = exponent q) \<and>
     (\<forall>keys. keys \<noteq> [] \<longrightarrow> distinct (map (number \<circ> snd) keys) \<longrightarrow> 0 \<notin> (number \<circ> snd) ` set keys \<longrightarrow>
        (\<exists>p. bls_RecoverPublicKey B (map fst keys) (map snd keys) = Inr p \<and>
             exponent p = interp (map (\<lambda>(pk, i). (number i, exponent pk)) keys) 0))"

lemma validateRemaining_Ok_iff:
  "validateRemaining B expected pks is rest = Ok () \<longleftrightarrow>
     (\<forall>(pk, i) \<in> set rest. \<exists>p. bls_RecoverPublicKey B (pks @ [pk]) (is @ [i]) = Inr p \<and> bls_IsEqual B p expected)"
  by (induction rest) (auto simp: bind_res_Ok_iff ensure_Ok_iff)

lemma quorum_of_size:
  assumes "ValidCommitteeSize n" "fst (ComputeQuorumAndPartialQuorum n) = q"
  shows "unat (q - 1) = unat q - 1" "1 < unat q" "unat q \<le> unat n"
  using assms unfolding ValidCommitteeSize_iff
  by (auto simp: ComputeQuorumAndPartialQuorum_def ComputeF_def Let_def)

lemma recovered_iff:
  assumes B: "interpolates B exponent number" and "keys \<noteq> []"
    and "distinct (map (number \<circ> snd) keys)" "0 \<notin> (number \<circ> snd) ` set keys"
  shows "(\<exists>p. bls_RecoverPublicKey B (map fst keys) (map snd keys) = Inr p \<and> bls_IsEqual B p v) \<longleftrightarrow>
      interp (map (\<lambda>(pk, i). (number i, exponent pk)) keys) 0 = exponent v"
    and "\<exists>p. bls_RecoverPublicKey B (map fst keys) (map snd keys) = Inr p"
proof -
  obtain p where "bls_RecoverPublicKey B (map fst keys) (map snd keys) = Inr p"
      "exponent p = interp (map (\<lambda>(pk, i). (number i, exponent pk)) keys) 0"
    using assms unfolding interpolates_def by meson
  moreover have "bls_IsEqual B p v \<longleftrightarrow> exponent p = exponent v"
    using B unfolding interpolates_def by blast
  ultimately show "(\<exists>p. bls_RecoverPublicKey B (map fst keys) (map snd keys) = Inr p \<and> bls_IsEqual B p v) \<longleftrightarrow>
      interp (map (\<lambda>(pk, i). (number i, exponent pk)) keys) 0 = exponent v"
    "\<exists>p. bls_RecoverPublicKey B (map fst keys) (map snd keys) = Inr p"
    by auto
qed

text \<open>The points of the shares: operator numbers and the exponents of their keys.\<close>

definition share_points :: "('p, 's, 'i) bls \<Rightarrow> ('p \<Rightarrow> 'f::field) \<Rightarrow> OperatorID list \<Rightarrow> bytes list \<Rightarrow> ('f \<times> 'f) list" where
  "share_points B exponent ids ks =
     map (\<lambda>(k, b). (of_nat (unat k), exponent (projr (bls_PublicKey B b)))) (zip ids ks)"

lemma decoded_keys:
  assumes B: "interpolates B exponent number" and "\<forall>b \<in> set ks. \<exists>pk. bls_PublicKey B b = Inr pk"
  obtains keys where "each_map (decodeShareKey B) (zip ids ks) = Ok keys"
    "map (\<lambda>(pk, i). (number i, exponent pk)) keys = share_points B exponent ids ks"
proof -
  have "\<exists>keys. each_map (decodeShareKey B) es = Ok keys \<and>
      map (\<lambda>(pk, i). (number i, exponent pk)) keys =
      map (\<lambda>(k, b). (of_nat (unat k), exponent (projr (bls_PublicKey B b)))) es"
    if "\<forall>(k, b) \<in> set es. \<exists>pk. bls_PublicKey B b = Inr pk" for es :: "(OperatorID \<times> bytes) list"
    using that
  proof (induction es)
    case (Cons e es)
    obtain k b pk where e: "e = (k, b)" "bls_PublicKey B b = Inr pk"
      using Cons.prems by (cases e) auto
    have "unat k < 2 ^ 64"
      using unsigned_less [of k, where 'a = nat] by simp
    then obtain i where "bls_ID B (show_dec (unat k)) = Inr i" "number i = of_nat (unat k)"
      using B unfolding interpolates_def by blast
    with Cons e show ?case
      by (auto simp: decodeShareKey_def)
  qed simp
  from this [of "zip ids ks"] show thesis
    using assms(2) that by (fastforce simp: share_points_def dest: set_zip_rightD)
qed

lemma share_points_ok:
  assumes B: "interpolates B exponent (number :: 'i \<Rightarrow> 'f::field)" and "distinct ids" "0 \<notin> set ids" "length ids = length ks"
  shows "distinct (map fst (share_points B exponent ids ks))" "0 \<notin> fst ` set (share_points B exponent ids ks)"
    "length (share_points B exponent ids ks) = length ids"
proof -
  have inj: "inj_on (of_nat :: nat \<Rightarrow> 'f) {..<2 ^ 64}"
    using B unfolding interpolates_def by blast
  have small: "unat (k :: u64) < 2 ^ 64" for k
    using unsigned_less [of k, where 'a = nat] by simp
  have eq: "map fst (share_points B exponent ids ks) = map (\<lambda>k. of_nat (unat k)) ids"
    using assms(4) by (auto simp: share_points_def comp_def case_prod_beta intro: nth_equalityI)
  have inj': "inj_on (\<lambda>k. of_nat (unat k) :: 'f) (set ids)"
  proof (rule inj_onI)
    fix a b :: u64
    assume "(of_nat (unat a) :: 'f) = of_nat (unat b)"
    then have "unat a = unat b"
      by (rule inj_onD [OF inj]) (use small in simp_all)
    then show "a = b"
      by (simp add: word_unat_eq_iff)
  qed
  then show "distinct (map fst (share_points B exponent ids ks))"
    using assms(2) by (simp add: eq distinct_map)
  have "(0 :: 'f) \<noteq> of_nat (unat k)" if "k \<in> set ids" for k
  proof
    assume "(0 :: 'f) = of_nat (unat k)"
    then have "(of_nat 0 :: 'f) = of_nat (unat k)"
      by simp
    then have "0 = unat k"
      by (rule inj_onD [OF inj]) (use small in simp_all)
    then show False
      using that assms(3) by (metis unat_eq_zero)
  qed
  then show "0 \<notin> fst ` set (share_points B exponent ids ks)"
    by (metis (no_types, lifting) eq imageE list.set_map)
  show "length (share_points B exponent ids ks) = length ids"
    using eq by (metis length_map)
qed

lemma validate_iff:
  assumes B: "interpolates B exponent number" and "distinct ids" "0 \<notin> set ids" "length ids = length ks"
    and size: "ValidCommitteeSize (len_u64 ids)" "length ids < 2 ^ 63"
    and v: "bls_PublicKey B vpk = Inr v" "\<forall>b \<in> set ks. \<exists>pk. bls_PublicKey B b = Inr pk"
  shows "validateSharePublicKeys B vpk ids ks = Ok () \<longleftrightarrow>
     one_polynomial (unat (fst (ComputeQuorumAndPartialQuorum (len_u64 ids)))) (exponent v) (share_points B exponent ids ks)"
proof -
  define q where "q = fst (ComputeQuorumAndPartialQuorum (len_u64 ids))"
  note q = quorum_of_size [OF size(1) q_def [symmetric]]
  let ?pt = "\<lambda>(pk, i). (number i, exponent pk)" and ?n = "unat q - 1"
  obtain keys where keys: "each_map (decodeShareKey B) (zip ids ks) = Ok keys" "map ?pt keys = share_points B exponent ids ks"
    using decoded_keys [OF B v(2)] by blast
  note pts = share_points_ok [OF B assms(2-4), folded keys(2)]
  have len: "unat q \<le> length keys"
    using q(3) size(2) pts(3) by simp
  let ?b = "take ?n keys"
  have ok: "distinct (map (number \<circ> snd) (take n keys))" "0 \<notin> (number \<circ> snd) ` set (take n keys)"
      "p \<in> set (drop n keys) \<Longrightarrow> distinct (map (number \<circ> snd) (take n keys @ [p]))"
      "p \<in> set (drop n keys) \<Longrightarrow> 0 \<notin> (number \<circ> snd) ` set (take n keys @ [p])" for n p
  proof -
    have "map (number \<circ> snd) keys = map fst (map ?pt keys)"
      by (simp add: comp_def case_prod_beta)
    then have d: "distinct (map (number \<circ> snd) (take n keys) @ map (number \<circ> snd) (drop n keys))"
      and z: "0 \<notin> (number \<circ> snd) ` set keys"
      using pts(1,2) by (metis append_take_drop_id map_append, metis list.set_map)
    show "distinct (map (number \<circ> snd) (take n keys))"
      using d by simp
    show "distinct (map (number \<circ> snd) (take n keys @ [p]))" if "p \<in> set (drop n keys)"
      using d that by auto
    show "0 \<notin> (number \<circ> snd) ` set (take n keys)"
      using z by (auto dest: in_set_takeD)
    show "0 \<notin> (number \<circ> snd) ` set (take n keys @ [p])" if "p \<in> set (drop n keys)"
      using z that by (auto dest: in_set_takeD in_set_dropD)
  qed
  have b: "?b \<noteq> []"
    using len q(2) by auto
  have rest: "validateRemaining B v (map fst ?b) (map snd ?b) (drop ?n keys) = Ok () \<longleftrightarrow>
      (\<forall>p \<in> set (drop ?n keys). interp (map ?pt (?b @ [p])) 0 = exponent v)"
  proof -
    have "(\<exists>r. bls_RecoverPublicKey B (map fst ?b @ [fst p]) (map snd ?b @ [snd p]) = Inr r \<and> bls_IsEqual B r v) \<longleftrightarrow>
        interp (map ?pt (?b @ [p])) 0 = exponent v" if "p \<in> set (drop ?n keys)" for p
      using recovered_iff(1) [OF B _ ok(3) [OF that] ok(4) [OF that], of v] by simp
    then show ?thesis
      unfolding validateRemaining_Ok_iff by (auto simp: case_prod_beta)
  qed
  obtain p where p: "bls_RecoverPublicKey B (map fst ?b) (map snd ?b) = Inr p"
    using recovered_iff(2) [OF B b ok(1,2)] by blast
  then have "bls_IsEqual B p v \<longleftrightarrow> interp (map ?pt ?b) 0 = exponent v"
    using recovered_iff(1) [OF B b ok(1,2), of v] by auto
  then have "validateSharePublicKeys B vpk ids ks = Ok () \<longleftrightarrow>
      interp (map ?pt ?b) 0 \<noteq> exponent v \<and> (\<forall>p \<in> set (drop ?n keys). interp (map ?pt (?b @ [p])) 0 = exponent v)"
    using keys(1) v(1) size(1) assms(4) p rest q(1)
    by (simp add: validateSharePublicKeys_def DeserializeBLSPublicKey_def bind_res_Ok_iff ensure_Ok_iff
        case_prod_beta q_def [symmetric] Let_def)
  also have "\<dots> \<longleftrightarrow> one_polynomial (unat q) (exponent v) (map ?pt keys)"
    using one_polynomial_iff [OF pts(1,2), of "unat q" "exponent v"] q(2) len
    by (simp add: take_map drop_map case_prod_beta)
  finally show ?thesis
    by (simp add: keys(2) q_def)
qed

text \<open>
  C25: Share keys are accepted exactly if they are the values at the operator numbers of one polynomial
  of degree one less than the quorum, with the validator key at zero; then every quorum of the
  operators recovers the validator key, and no set of one operator less does.
\<close>

theorem share_keys_checked:
  assumes "interpolates B exponent number" "distinct ids" "0 \<notin> set ids" "length ids = length ks"
    and "ValidCommitteeSize (len_u64 ids)" "length ids < 2 ^ 63"
    and "bls_PublicKey B vpk = Inr v" "\<forall>b \<in> set ks. \<exists>pk. bls_PublicKey B b = Inr pk"
    and "q = unat (fst (ComputeQuorumAndPartialQuorum (len_u64 ids)))"
  shows "(ValidateSharePublicKeys B vpk ids ks = Ok () \<longleftrightarrow>
      one_polynomial q (exponent v) (share_points B exponent ids ks)) \<and>
    (ValidateSharePublicKeys B vpk ids ks = Ok () \<longrightarrow>
      (\<forall>S. set S \<subseteq> set (share_points B exponent ids ks) \<and> distinct (map fst S) \<longrightarrow>
         (q \<le> length S \<longrightarrow> interp S 0 = exponent v) \<and> (length S = q - 1 \<longrightarrow> interp S 0 \<noteq> exponent v)))"
proof -
  have "ValidateSharePublicKeys B vpk ids ks = Ok () \<longleftrightarrow> validateSharePublicKeys B vpk ids ks = Ok ()"
    by (simp add: ValidateSharePublicKeys_def)
  also have "\<dots> \<longleftrightarrow> one_polynomial q (exponent v) (share_points B exponent ids ks)"
    using validate_iff [OF assms(1-8)] assms(9) by simp
  finally have iff: "ValidateSharePublicKeys B vpk ids ks = Ok () \<longleftrightarrow>
      one_polynomial q (exponent v) (share_points B exponent ids ks)" .
  have "0 < q"
    using quorum_of_size(2) [OF assms(5) refl] assms(9) by simp
  then show ?thesis
    using iff one_polynomial_quorums share_points_ok(2) [OF assms(1-4)] by blast
qed

text \<open>
  The exponents of the example are rational numbers; the keys are the values of \<open>x\<^sup>2 + x + 5\<close>.
\<close>

definition demo_keys :: "(rat, unit, rat) bls" where
  "demo_keys = \<lparr>bls_PublicKey = (\<lambda>b. Inr (of_nat (nat_of_bytes b))), bls_Sign = (\<lambda>_. Inl ''none''),
     bls_ID = (\<lambda>s. case parseUint s of Ok w \<Rightarrow> Inr (of_nat (unat w)) | _ \<Rightarrow> Inl ''not a number''),
     bls_VerifyByte = (\<lambda>_ _ _. False), bls_RecoverSign = (\<lambda>_ _. Inl ''none''),
     bls_RecoverPublicKey = (\<lambda>pks ids. Inr (interp (zip ids pks) 0)), bls_IsEqual = (=), bls_Serialize = (\<lambda>_. [])\<rparr>"

lemma demo_keys_interpolate: "interpolates demo_keys (\<lambda>p. p) (\<lambda>i. i)"
proof -
  have "bls_ID demo_keys (show_dec n) = Inr (of_nat n)" if "n < 2 ^ 64" for n
    using parseUint_show_dec [of "word_of_nat n"] that by (simp add: demo_keys_def unat_of_nat)
  moreover have "zip (map snd keys) (map fst keys) = map (\<lambda>(pk, i). (i, pk)) keys" for keys :: "(rat \<times> rat) list"
    by (induction keys) auto
  ultimately show ?thesis
    by (auto simp: interpolates_def demo_keys_def)
qed

theorem share_keys_checked_witness:
  "ValidateSharePublicKeys demo_keys [5] [1, 2, 3, 4] [[7], [11], [17], [25]] = Ok () \<and>
   interp [(2, 11), (3, 17), (4, 25)] 0 = (5 :: rat) \<and> interp [(2, 11), (4, 25)] 0 \<noteq> (5 :: rat)"
proof -
  let ?f = "\<lambda>x :: rat. x * x + x + 5" and ?ids = "[1, 2, 3, 4] :: u64 list" and ?ks = "[[7], [11], [17], [25]] :: bytes list"
  have q: "unat (fst (ComputeQuorumAndPartialQuorum (len_u64 ?ids))) = 3" "ValidCommitteeSize (len_u64 ?ids)"
    by code_simp+
  have pts: "share_points demo_keys (\<lambda>p. p) ?ids ?ks = [(1, 7), (2, 11), (3, 17), (4, 25)]"
    by (simp add: share_points_def demo_keys_def nat_of_bytes_def)
  have "\<not> deg_lt 2 ?f"
  proof
    assume "deg_lt 2 ?f"
    then obtain c d where "?f = (\<lambda>x. c + x * (d + x * 0))"
      by (auto simp: numeral_2_eq_2)
    then have "?f x = c + x * (d + x * 0)" for x
      by (rule fun_cong)
    from this [of 0] this [of 1] this [of 2] show False
      by simp
  qed
  moreover have "deg_lt (Suc (Suc (Suc 0))) (\<lambda>x :: rat. 5 + x * (1 + x * (1 + x * 0)))"
    by (intro deg_lt_horner) simp
  then have "deg_lt 3 ?f"
    by (simp add: algebra_simps numeral_3_eq_3 del: deg_lt.simps)
  ultimately have one: "one_polynomial 3 5 [(1, 7), (2, 11), (3, 17), (4, 25 :: rat)]"
    unfolding one_polynomial_def by (intro exI [of _ ?f]) simp
  have "bls_PublicKey demo_keys [5] = Inr 5" "\<forall>b \<in> set ?ks. \<exists>pk. bls_PublicKey demo_keys b = Inr pk"
    by (simp_all add: demo_keys_def nat_of_bytes_def)
  from share_keys_checked [OF demo_keys_interpolate _ _ _ q(2) _ this refl, unfolded pts q(1)] one
  show ?thesis
    by (simp del: deg_lt.simps)
qed

end
