(* ===== verification/Beacon_Types.thy ===== *)
theory Beacon_Types
  imports Network_Config Qbft_Types
begin

text \<open>
  The beacon chain objects an operator signs. Their types are those of \<open>go-eth2-client\<close>; the fields that
  the node reads are fields of the records, and what it only passes on is kept as its encoding. The
  checkpoints of an attestation are pointers that the decoders of \<open>go-eth2-client\<close> always allocate, so
  they are not optional here.
\<close>

record Checkpoint =
  cp_Epoch :: u64
  cp_Root :: root

record AttestationData =
  ad_Slot :: u64
  ad_Index :: u64
  ad_BeaconBlockRoot :: root
  ad_Source :: Checkpoint
  ad_Target :: Checkpoint

abbreviation sourceEpoch :: "AttestationData \<Rightarrow> u64" where
  "sourceEpoch a \<equiv> cp_Epoch (ad_Source a)"

abbreviation targetEpoch :: "AttestationData \<Rightarrow> u64" where
  "targetEpoch a \<equiv> cp_Epoch (ad_Target a)"

record BeaconBlock =
  bb_Slot :: u64
  bb_ProposerIndex :: u64
  bb_ParentRoot :: root
  bb_StateRoot :: root
  bb_Body :: bytes

record VoluntaryExit =
  vex_Epoch :: u64
  vex_ValidatorIndex :: u64

record ValidatorRegistration =
  vr_FeeRecipient :: bytes
  vr_GasLimit :: u64
  vr_Timestamp :: int
  vr_Pubkey :: bytes

record PayloadAttestationData =
  pad_BeaconBlockRoot :: root
  pad_Slot :: u64
  pad_PayloadPresent :: bool
  pad_BlobDataAvailable :: bool

record SyncAggregatorSelectionData =
  sas_Slot :: u64
  sas_SubcommitteeIndex :: u64

text \<open>
  The values of the interface \<open>HashRoot\<close> by their dynamic type. Capella, Deneb and Electra have block and
  blinded block types of their own; Gloas has one block type.
\<close>

datatype hash_obj =
    ObjAttestationData AttestationData
  | ObjCapellaBlock BeaconBlock
  | ObjDenebBlock BeaconBlock
  | ObjElectraBlock BeaconBlock
  | ObjCapellaBlindedBlock BeaconBlock
  | ObjDenebBlindedBlock BeaconBlock
  | ObjElectraBlindedBlock BeaconBlock
  | ObjGloasBlock BeaconBlock
  | ObjVoluntaryExit VoluntaryExit
  | ObjValidatorRegistration ValidatorRegistration
  | ObjPayloadAttestationData PayloadAttestationData
  | ObjPhase0Aggregate bytes
  | ObjElectraAggregate bytes
  | ObjGloasAggregate bytes
  | ObjSyncAggregatorSelectionData SyncAggregatorSelectionData
  | ObjContributionAndProof bytes
  | ObjSSZUint64 u64
  | ObjSSZBytes bytes
  | ObjOther bytes

text \<open>The domain types of the specification package that the node names; any other is unknown to it.\<close>

datatype SigDomain =
    DomainAttester | DomainProposer | DomainVoluntaryExit | DomainAggregateAndProof | DomainSelectionProof
  | DomainRandao | DomainSyncCommittee | DomainSyncCommitteeSelectionProof | DomainContributionAndProof
  | DomainApplicationBuilder | DomainPTCAttester | DomainProposerPreferences | DomainBeaconBuilder
  | DomainBuilderRequestAuth | DomainOther

end
