(* ===== verification/Slashing_Protector.thy ===== *)
theory Slashing_Protector
  imports Beacon_Types
begin

text \<open>
  Slashing protection records, \<open>ssvsigner/ekm/signer_storage.go\<close> and \<open>slashing_protector.go\<close>: for every
  share key the highest attestation (source and target epoch) and the highest proposal (slot) it signed.

  The database of the interface \<open>Database\<close> is a map from a prefix and a key to a value; what a call to it
  fails with is the argument \<open>D\<close>. The encoders of \<open>go-eth2-client\<close> and \<open>fastssz\<close> are the argument \<open>Z\<close>,
  \<open>slashingprotection.NormalProtection\<close> of \<open>eth2-key-manager\<close> is the argument \<open>N\<close>. A transaction is one step:
  its writes are those of the calls that are given it.
\<close>

datatype km_err =
    KPlain string
  | KWrap string km_err
  | KShareDecryption km_err

section \<open>The storage\<close>

record dbFaults =
  df_Get :: "string \<Rightarrow> bytes \<Rightarrow> km_err option"
  df_Set :: "string \<Rightarrow> bytes \<Rightarrow> km_err option"
  df_Delete :: "string \<Rightarrow> bytes \<Rightarrow> km_err option"

record sszAPI =
  z_MarshalAttestation :: "AttestationData \<Rightarrow> km_err + bytes"
  z_UnmarshalAttestation :: "bytes \<Rightarrow> km_err + AttestationData"
  z_MarshalUint64 :: "u64 \<Rightarrow> bytes"
  z_UnmarshallUint64 :: "bytes \<Rightarrow> (km_err, u64) res"

record signerStorage =
  st_networkName :: string
  st_db :: "(string \<times> bytes) \<rightharpoonup> bytes"

abbreviation highestAttPrefix :: string where "highestAttPrefix \<equiv> ''signer_data-highest_att-''"
abbreviation highestProposalPrefix :: string where "highestProposalPrefix \<equiv> ''signer_data-highest_prop-''"

definition objPrefix :: "signerStorage \<Rightarrow> string \<Rightarrow> string" where
  "objPrefix s obj = st_networkName s @ obj"

definition db_Get :: "dbFaults \<Rightarrow> signerStorage \<Rightarrow> string \<Rightarrow> bytes \<Rightarrow> (km_err, bytes option) res" where
  "db_Get D s prefix key =
     (case df_Get D prefix key of Some e \<Rightarrow> Err e | None \<Rightarrow> Ok (st_db s (prefix, key)))"

definition db_Set ::
    "dbFaults \<Rightarrow> string \<Rightarrow> bytes \<Rightarrow> bytes \<Rightarrow> signerStorage \<Rightarrow> (km_err, unit) res \<times> signerStorage" where
  "db_Set D prefix key v s =
     (case df_Set D prefix key of
        Some e \<Rightarrow> (Err e, s)
      | None \<Rightarrow> (Ok (), s\<lparr>st_db := (st_db s)((prefix, key) \<mapsto> v)\<rparr>))"

definition db_Delete ::
    "dbFaults \<Rightarrow> string \<Rightarrow> bytes \<Rightarrow> signerStorage \<Rightarrow> (km_err, unit) res \<times> signerStorage" where
  "db_Delete D prefix key s =
     (case df_Delete D prefix key of
        Some e \<Rightarrow> (Err e, s)
      | None \<Rightarrow> (Ok (), s\<lparr>st_db := (st_db s)((prefix, key) := None)\<rparr>))"

text \<open>A key that is \<open>None\<close> is a nil slice, an attestation that is \<open>None\<close> a nil pointer.\<close>

definition SaveHighestAttestation ::
    "sszAPI \<Rightarrow> dbFaults \<Rightarrow> bytes option \<Rightarrow> AttestationData option \<Rightarrow> signerStorage
       \<Rightarrow> (km_err, unit) res \<times> signerStorage" where
  "SaveHighestAttestation Z D pubKey attestation s =
     (case pubKey of
        None \<Rightarrow> (Err (KPlain ''pubKey must not be nil''), s)
      | Some k \<Rightarrow>
          (case attestation of
             None \<Rightarrow> (Err (KPlain ''attestation data could not be nil''), s)
           | Some a \<Rightarrow>
               bind_st (of_sum (KWrap ''marshal attestation'') (z_MarshalAttestation Z a), s) (\<lambda>data s.
                 db_Set D (objPrefix s highestAttPrefix) k data s)))"

text \<open>The record, or \<open>None\<close> when there is none.\<close>

definition RetrieveHighestAttestation ::
    "sszAPI \<Rightarrow> dbFaults \<Rightarrow> signerStorage \<Rightarrow> bytes option \<Rightarrow> (km_err, AttestationData option) res" where
  "RetrieveHighestAttestation Z D s pubKey =
     (case pubKey of
        None \<Rightarrow> Err (KPlain ''public key could not be nil'')
      | Some k \<Rightarrow>
          bind_res (map_err (KWrap ''could not get highest attestation from db'')
                      (db_Get D s (objPrefix s highestAttPrefix) k)) (\<lambda>obj.
            case obj of
              None \<Rightarrow> Ok None
            | Some v \<Rightarrow>
                if v = [] then Err (KPlain ''highest attestation value is empty'')
                else bind_res (of_sum (KWrap ''could not unmarshal attestation data'') (z_UnmarshalAttestation Z v))
                       (\<lambda>ret. Ok (Some ret))))"

definition RemoveHighestAttestation ::
    "dbFaults \<Rightarrow> bytes \<Rightarrow> signerStorage \<Rightarrow> (km_err, unit) res \<times> signerStorage" where
  "RemoveHighestAttestation D pubKey s = db_Delete D (objPrefix s highestAttPrefix) pubKey s"

definition SaveHighestProposal ::
    "sszAPI \<Rightarrow> dbFaults \<Rightarrow> bytes option \<Rightarrow> u64 \<Rightarrow> signerStorage \<Rightarrow> (km_err, unit) res \<times> signerStorage" where
  "SaveHighestProposal Z D pubKey slot s =
     (case pubKey of
        None \<Rightarrow> (Err (KPlain ''pubKey must not be nil''), s)
      | Some k \<Rightarrow>
          if slot = 0 then (Err (KPlain ''invalid proposal slot, slot could not be 0''), s)
          else db_Set D (objPrefix s highestProposalPrefix) k (z_MarshalUint64 Z slot) s)"

definition RetrieveHighestProposal ::
    "sszAPI \<Rightarrow> dbFaults \<Rightarrow> signerStorage \<Rightarrow> bytes option \<Rightarrow> (km_err, u64 option) res" where
  "RetrieveHighestProposal Z D s pubKey =
     (case pubKey of
        None \<Rightarrow> Err (KPlain ''public key could not be nil'')
      | Some k \<Rightarrow>
          bind_res (map_err (KWrap ''could not get highest proposal from db'')
                      (db_Get D s (objPrefix s highestProposalPrefix) k)) (\<lambda>obj.
            case obj of
              None \<Rightarrow> Ok None
            | Some v \<Rightarrow>
                if v = [] then Err (KPlain ''highest proposal value is empty'')
                else bind_res (z_UnmarshallUint64 Z v) (\<lambda>slot. Ok (Some slot))))"

definition RemoveHighestProposal ::
    "dbFaults \<Rightarrow> bytes \<Rightarrow> signerStorage \<Rightarrow> (km_err, unit) res \<times> signerStorage" where
  "RemoveHighestProposal D pubKey s = db_Delete D (objPrefix s highestProposalPrefix) pubKey s"

section \<open>The protector\<close>

text \<open>
  What is used of \<open>NormalProtection\<close>, which reads and writes the records through the storage. A check
  answers with a status (\<open>None\<close> when the object is not slashable) or an error.
\<close>

record protection =
  np_IsSlashableAttestation ::
    "dbFaults \<Rightarrow> signerStorage \<Rightarrow> bytes \<Rightarrow> AttestationData \<Rightarrow> (km_err, string option) res"
  np_IsSlashableProposal :: "dbFaults \<Rightarrow> signerStorage \<Rightarrow> bytes \<Rightarrow> u64 \<Rightarrow> (km_err, string option) res"
  np_UpdateHighestAttestation ::
    "dbFaults \<Rightarrow> bytes \<Rightarrow> AttestationData \<Rightarrow> signerStorage \<Rightarrow> (km_err, unit) res \<times> signerStorage"
  np_UpdateHighestProposal ::
    "dbFaults \<Rightarrow> bytes \<Rightarrow> u64 \<Rightarrow> signerStorage \<Rightarrow> (km_err, unit) res \<times> signerStorage"

definition IsAttestationSlashable ::
    "protection \<Rightarrow> dbFaults \<Rightarrow> signerStorage \<Rightarrow> bytes \<Rightarrow> AttestationData \<Rightarrow> (km_err, unit) res" where
  "IsAttestationSlashable N D s pubKey attData =
     bind_res (np_IsSlashableAttestation N D s pubKey attData) (\<lambda>val.
       case val of
         None \<Rightarrow> Ok ()
       | Some status \<Rightarrow> Err (KPlain (''slashable attestation ('' @ status @ ''), not signing'')))"

definition IsBeaconBlockSlashable ::
    "protection \<Rightarrow> dbFaults \<Rightarrow> signerStorage \<Rightarrow> bytes \<Rightarrow> u64 \<Rightarrow> (km_err, unit) res" where
  "IsBeaconBlockSlashable N D s pubKey slot =
     bind_res (np_IsSlashableProposal N D s pubKey slot) (\<lambda>val.
       case val of
         None \<Rightarrow> Ok ()
       | Some status \<Rightarrow> Err (KPlain (''slashable proposal ('' @ status @ ''), not signing'')))"

definition minSPAttestationEpochGap :: u64 where "minSPAttestationEpochGap = 0"
definition minSPProposalSlotGap :: u64 where "minSPProposalSlotGap = 0"

definition computeMinimalAttestationSP :: "u64 \<Rightarrow> AttestationData" where
  "computeMinimalAttestationSP epoch =
     (let highestTarget = epoch + minSPAttestationEpochGap;
          highestSource = (if highestTarget > 0 then highestTarget - 1 else 0)
      in \<lparr>ad_Slot = 0, ad_Index = 0, ad_BeaconBlockRoot = replicate 32 0,
          ad_Source = \<lparr>cp_Epoch = highestSource, cp_Root = replicate 32 0\<rparr>,
          ad_Target = \<lparr>cp_Epoch = highestTarget, cp_Root = replicate 32 0\<rparr>\<rparr>)"

definition computeMinimalProposerSP :: "u64 \<Rightarrow> u64" where
  "computeMinimalProposerSP slot = slot + minSPProposalSlotGap"

definition updateHighestAttestation ::
    "sszAPI \<Rightarrow> dbFaults \<Rightarrow> Beacon \<Rightarrow> bytes \<Rightarrow> u64 \<Rightarrow> signerStorage \<Rightarrow> (km_err, unit) res \<times> signerStorage" where
  "updateHighestAttestation Z D b pubKey slot s =
     bind_st (map_err (KWrap ''could not retrieve highest attestation'')
                (RetrieveHighestAttestation Z D s (Some pubKey)), s) (\<lambda>retrieved s.
     bind_st (EstimatedEpochAtSlot b slot, s) (\<lambda>currentEpoch s.
       let minimalSP = computeMinimalAttestationSP currentEpoch
       in if (case retrieved of
                None \<Rightarrow> False
              | Some r \<Rightarrow> sourceEpoch r \<ge> sourceEpoch minimalSP \<or> targetEpoch r \<ge> targetEpoch minimalSP)
          then (Ok (), s)
          else map_err_st (KWrap ''could not save highest attestation'')
                 (SaveHighestAttestation Z D (Some pubKey) (Some minimalSP) s)))"

definition updateHighestProposal ::
    "sszAPI \<Rightarrow> dbFaults \<Rightarrow> bytes \<Rightarrow> u64 \<Rightarrow> signerStorage \<Rightarrow> (km_err, unit) res \<times> signerStorage" where
  "updateHighestProposal Z D pubKey slot s =
     bind_st (map_err (KWrap ''could not retrieve highest proposal'')
                (RetrieveHighestProposal Z D s (Some pubKey)), s) (\<lambda>retrieved s.
       let minimalSPSlot = computeMinimalProposerSP slot
       in if (case retrieved of None \<Rightarrow> False | Some r \<Rightarrow> r \<noteq> 0 \<and> r \<ge> minimalSPSlot)
          then (Ok (), s)
          else map_err_st (KWrap ''could not save highest proposal'')
                 (SaveHighestProposal Z D (Some pubKey) minimalSPSlot s))"

text \<open>\<open>now\<close> is the reading of the clock.\<close>

definition BumpSlashingProtection ::
    "sszAPI \<Rightarrow> dbFaults \<Rightarrow> Beacon \<Rightarrow> int \<Rightarrow> bytes \<Rightarrow> signerStorage \<Rightarrow> (km_err, unit) res \<times> signerStorage" where
  "BumpSlashingProtection Z D b now pubKey s =
     bind_st (EstimatedCurrentSlot b now, s) (\<lambda>currentSlot s.
     bind_st (updateHighestAttestation Z D b pubKey currentSlot s) (\<lambda>_ s.
       updateHighestProposal Z D pubKey currentSlot s))"

section \<open>The records\<close>

text \<open>The record that the storage holds for a key, whatever the database answers to a call.\<close>

definition attRecord :: "sszAPI \<Rightarrow> signerStorage \<Rightarrow> bytes \<Rightarrow> AttestationData option" where
  "attRecord Z s k =
     (case st_db s (objPrefix s highestAttPrefix, k) of
        None \<Rightarrow> None
      | Some v \<Rightarrow> if v = [] then None else case z_UnmarshalAttestation Z v of Inl e \<Rightarrow> None | Inr a \<Rightarrow> Some a)"

definition propRecord :: "sszAPI \<Rightarrow> signerStorage \<Rightarrow> bytes \<Rightarrow> u64 option" where
  "propRecord Z s k =
     (case st_db s (objPrefix s highestProposalPrefix, k) of
        None \<Rightarrow> None
      | Some v \<Rightarrow> if v = [] then None else case z_UnmarshallUint64 Z v of Ok n \<Rightarrow> Some n | _ \<Rightarrow> None)"

definition covers :: "AttestationData \<Rightarrow> AttestationData \<Rightarrow> bool" where
  "covers h a \<longleftrightarrow> sourceEpoch a \<le> sourceEpoch h \<and> targetEpoch a \<le> targetEpoch h"

text \<open>What the encoders promise: what was encoded is decoded, from at least one byte.\<close>

definition ssz_law :: "sszAPI \<Rightarrow> bool" where
  "ssz_law Z \<longleftrightarrow>
     (\<forall>a v. z_MarshalAttestation Z a = Inr v \<longrightarrow> v \<noteq> [] \<and> z_UnmarshalAttestation Z v = Inr a) \<and>
     (\<forall>n. z_MarshalUint64 Z n \<noteq> [] \<and> z_UnmarshallUint64 Z (z_MarshalUint64 Z n) = Ok n)"

text \<open>Everything but the attestation record, and everything but the proposal record, of a key is kept.\<close>

definition only_att :: "sszAPI \<Rightarrow> bytes \<Rightarrow> signerStorage \<Rightarrow> signerStorage \<Rightarrow> bool" where
  "only_att Z k s s' \<longleftrightarrow>
     (\<forall>k'. k' \<noteq> k \<longrightarrow> attRecord Z s' k' = attRecord Z s k') \<and> (\<forall>k'. propRecord Z s' k' = propRecord Z s k')"

definition only_prop :: "sszAPI \<Rightarrow> bytes \<Rightarrow> signerStorage \<Rightarrow> signerStorage \<Rightarrow> bool" where
  "only_prop Z k s s' \<longleftrightarrow>
     (\<forall>k'. attRecord Z s' k' = attRecord Z s k') \<and> (\<forall>k'. k' \<noteq> k \<longrightarrow> propRecord Z s' k' = propRecord Z s k')"

text \<open>
  What \<open>NormalProtection\<close> documents. An attestation that passes has a record below it: its source epoch
  is not below the record's and its target epoch is above the record's. A proposal that passes has a
  record of a lower slot. An update touches only its own record, never lowers it, and leaves it at or
  above the object when it succeeds.
\<close>

definition att_check_law :: "sszAPI \<Rightarrow> protection \<Rightarrow> bool" where
  "att_check_law Z N \<longleftrightarrow> (\<forall>D s k a. np_IsSlashableAttestation N D s k a = Ok None \<longrightarrow>
     (\<exists>h. attRecord Z s k = Some h \<and> sourceEpoch h \<le> sourceEpoch a \<and> targetEpoch h < targetEpoch a))"

definition prop_check_law :: "sszAPI \<Rightarrow> protection \<Rightarrow> bool" where
  "prop_check_law Z N \<longleftrightarrow> (\<forall>D s k slot. np_IsSlashableProposal N D s k slot = Ok None \<longrightarrow>
     (\<exists>h. propRecord Z s k = Some h \<and> h < slot))"

definition att_update_law :: "sszAPI \<Rightarrow> protection \<Rightarrow> bool" where
  "att_update_law Z N \<longleftrightarrow> (\<forall>D k a s r s'. np_UpdateHighestAttestation N D k a s = (r, s') \<longrightarrow>
     only_att Z k s s' \<and>
     (\<forall>h. attRecord Z s k = Some h \<longrightarrow> (\<exists>h'. attRecord Z s' k = Some h' \<and> covers h' h)) \<and>
     (r = Ok () \<longrightarrow> (\<exists>h'. attRecord Z s' k = Some h' \<and> covers h' a)))"

definition prop_update_law :: "sszAPI \<Rightarrow> protection \<Rightarrow> bool" where
  "prop_update_law Z N \<longleftrightarrow> (\<forall>D k slot s r s'. np_UpdateHighestProposal N D k slot s = (r, s') \<longrightarrow>
     only_prop Z k s s' \<and>
     (\<forall>h. propRecord Z s k = Some h \<longrightarrow> (\<exists>h'. propRecord Z s' k = Some h' \<and> h \<le> h')) \<and>
     (r = Ok () \<longrightarrow> (\<exists>h'. propRecord Z s' k = Some h' \<and> slot \<le> h')))"

definition minimal_protection :: "sszAPI \<Rightarrow> protection \<Rightarrow> bool" where
  "minimal_protection Z N \<longleftrightarrow>
     att_check_law Z N \<and> prop_check_law Z N \<and> att_update_law Z N \<and> prop_update_law Z N"

lemma covers_refl [simp]: "covers a a"
  by (simp add: covers_def)

lemma covers_trans: "covers a b \<Longrightarrow> covers b c \<Longrightarrow> covers a c"
  by (auto simp: covers_def)

lemma only_refl [simp]: "only_att Z k s s" "only_prop Z k s s"
  by (simp_all add: only_att_def only_prop_def)

lemma prefixes_distinct [simp]:
  "objPrefix s highestAttPrefix \<noteq> objPrefix s highestProposalPrefix"
  "objPrefix s highestProposalPrefix \<noteq> objPrefix s highestAttPrefix"
  by (simp_all add: objPrefix_def)

lemma objPrefix_db [simp]: "objPrefix (s\<lparr>st_db := d\<rparr>) p = objPrefix s p"
  by (simp add: objPrefix_def)

lemma Retrieve_attRecord:
  "RetrieveHighestAttestation Z D s (Some k) = Ok r \<Longrightarrow> attRecord Z s k = r"
  by (auto simp: RetrieveHighestAttestation_def db_Get_def attRecord_def bind_res_Ok_iff
      split: option.splits if_splits sum.splits)

lemma Retrieve_propRecord:
  "RetrieveHighestProposal Z D s (Some k) = Ok r \<Longrightarrow> propRecord Z s k = r"
  by (auto simp: RetrieveHighestProposal_def db_Get_def propRecord_def bind_res_Ok_iff
      split: option.splits if_splits res.splits)

lemma SaveHighestAttestation_cases:
  assumes "ssz_law Z" "SaveHighestAttestation Z D (Some k) (Some a) s = (r, s')"
  obtains (failed) "s' = s" "r \<noteq> Ok ()" | (saved) "r = Ok ()" "attRecord Z s' k = Some a" "only_att Z k s s'"
proof (cases "\<exists>v. z_MarshalAttestation Z a = Inr v \<and> df_Set D (objPrefix s highestAttPrefix) k = None")
  case True
  then obtain v where v: "z_MarshalAttestation Z a = Inr v" "df_Set D (objPrefix s highestAttPrefix) k = None"
    by blast
  then have "v \<noteq> []" "z_UnmarshalAttestation Z v = Inr a"
    using assms(1) by (simp_all add: ssz_law_def)
  moreover have "r = Ok ()" "s' = s\<lparr>st_db := (st_db s)((objPrefix s highestAttPrefix, k) \<mapsto> v)\<rparr>"
    using assms(2) v by (simp_all add: SaveHighestAttestation_def db_Set_def)
  ultimately show thesis
    using saved by (simp add: attRecord_def propRecord_def only_att_def)
next
  case False
  then show thesis
    using assms(2) failed
    by (cases "z_MarshalAttestation Z a") (auto simp: SaveHighestAttestation_def db_Set_def)
qed

lemma SaveHighestProposal_cases:
  assumes "ssz_law Z" "SaveHighestProposal Z D (Some k) slot s = (r, s')"
  obtains (failed) "s' = s" "r \<noteq> Ok ()"
    | (saved) "r = Ok ()" "slot \<noteq> 0" "propRecord Z s' k = Some slot" "only_prop Z k s s'"
  using assms
  by (auto simp: SaveHighestProposal_def db_Set_def attRecord_def propRecord_def only_prop_def ssz_law_def
      split: option.splits if_splits)

lemma RemoveHighestAttestation_cases:
  assumes "RemoveHighestAttestation D k s = (r, s')"
  shows "only_att Z k s s' \<and> (attRecord Z s' k = None \<or> s' = s)"
  using assms by (auto simp: RemoveHighestAttestation_def db_Delete_def attRecord_def propRecord_def only_att_def
      split: option.splits)

lemma RemoveHighestProposal_cases:
  assumes "RemoveHighestProposal D k s = (r, s')"
  shows "only_prop Z k s s' \<and> (propRecord Z s' k = None \<or> s' = s)"
  using assms by (auto simp: RemoveHighestProposal_def db_Delete_def attRecord_def propRecord_def only_prop_def
      split: option.splits)

section \<open>Raising the records to the present\<close>

lemma minimalSP_simps [simp]:
  "targetEpoch (computeMinimalAttestationSP e) = e"
  "sourceEpoch (computeMinimalAttestationSP e) = (if e > 0 then e - 1 else 0)"
  "computeMinimalProposerSP slot = slot"
  by (simp_all add: computeMinimalAttestationSP_def computeMinimalProposerSP_def minSPAttestationEpochGap_def
      minSPProposalSlotGap_def Let_def)

text \<open>A bump leaves a record alone or replaces it by the minimum for the epoch, which is above it.\<close>

lemma updateHighestAttestation_cases:
  assumes law: "ssz_law Z" and e: "EstimatedEpochAtSlot b slot = (Ok e :: (km_err, u64) res)"
    and run: "updateHighestAttestation Z D b k slot s = (r, s')"
  obtains (failed) "s' = s" "r \<noteq> Ok ()"
    | (kept) h where "r = Ok ()" "s' = s" "attRecord Z s k = Some h"
        "sourceEpoch (computeMinimalAttestationSP e) \<le> sourceEpoch h \<or> e \<le> targetEpoch h"
    | (raised) "r = Ok ()" "only_att Z k s s'" "attRecord Z s' k = Some (computeMinimalAttestationSP e)"
        "\<And>h. attRecord Z s k = Some h \<Longrightarrow> covers (computeMinimalAttestationSP e) h"
proof (cases "RetrieveHighestAttestation Z D s (Some k)")
  case (Ok found)
  note rec = Retrieve_attRecord [OF Ok]
  let ?m = "computeMinimalAttestationSP e"
  show thesis
  proof (cases "case found of None \<Rightarrow> False | Some h \<Rightarrow> sourceEpoch h \<ge> sourceEpoch ?m \<or> targetEpoch h \<ge> targetEpoch ?m")
    case True
    then show thesis
      using kept run e Ok rec
      by (auto simp: updateHighestAttestation_def Let_def simp del: minimalSP_simps(2) split: option.splits)
  next
    case False
    obtain p where p: "SaveHighestAttestation Z D (Some k) (Some ?m) s = p"
      by blast
    have "s' = snd p" "r = map_err (KWrap ''could not save highest attestation'') (fst p)"
      using run e Ok False p
      by (auto simp: updateHighestAttestation_def Let_def map_err_st_eq simp del: minimalSP_simps split: option.splits)
    moreover have "covers ?m h" if "attRecord Z s k = Some h" for h
      using False rec that by (auto simp: covers_def simp del: minimalSP_simps split: option.splits)
    moreover have "SaveHighestAttestation Z D (Some k) (Some ?m) s = (fst p, snd p)"
      using p by simp
    ultimately show thesis
      using SaveHighestAttestation_cases [OF law, of D k ?m s "fst p" "snd p" thesis] failed raised by simp
  qed
qed (use run failed in \<open>auto simp: updateHighestAttestation_def\<close>)

lemma updateHighestProposal_cases:
  assumes law: "ssz_law Z" and run: "updateHighestProposal Z D k slot s = (r, s')"
  obtains (failed) "s' = s" "r \<noteq> Ok ()"
    | (kept) h where "r = Ok ()" "s' = s" "propRecord Z s k = Some h" "slot \<le> h"
    | (raised) "r = Ok ()" "only_prop Z k s s'" "propRecord Z s' k = Some slot"
        "\<And>h. propRecord Z s k = Some h \<Longrightarrow> h \<le> slot"
proof (cases "RetrieveHighestProposal Z D s (Some k)")
  case (Ok found)
  note rec = Retrieve_propRecord [OF Ok]
  show thesis
  proof (cases "case found of None \<Rightarrow> False | Some h \<Rightarrow> h \<noteq> 0 \<and> h \<ge> slot")
    case True
    then show thesis
      using kept run Ok rec
      by (auto simp: updateHighestProposal_def Let_def split: option.splits)
  next
    case False
    obtain p where p: "SaveHighestProposal Z D (Some k) slot s = p"
      by blast
    have "s' = snd p" "r = map_err (KWrap ''could not save highest proposal'') (fst p)"
      using run Ok False p
      by (auto simp: updateHighestProposal_def Let_def map_err_st_eq split: option.splits)
    moreover have "h \<le> slot" if "propRecord Z s k = Some h" for h
      using False rec that by (auto split: option.splits)
    moreover have "SaveHighestProposal Z D (Some k) slot s = (fst p, snd p)"
      using p by simp
    ultimately show thesis
      using SaveHighestProposal_cases [OF law, of D k slot s "fst p" "snd p" thesis] failed raised by simp
  qed
qed (use run failed in \<open>auto simp: updateHighestProposal_def\<close>)

end
