(* ===== verification/Remote_Key_Manager.thy ===== *)
theory Remote_Key_Manager
  imports Slashing_Protector
begin

text \<open>
  The key manager of an operator whose shares are kept by a remote signer,
  \<open>ssvsigner/ekm/remote_key_manager.go\<close>, with the requests it sends, \<open>ssvsigner/web3signer/types.go\<close>,
  \<open>web3signer.go\<close> and \<open>block_data.go\<close>. Slashing protection is the operator's own: an attestation or a block is
  checked and recorded before the request leaves. What a call meets outside (clock, database, remote
  signer, the specification package and \<open>eth2-key-manager\<close>) is the argument \<open>E\<close>. The requests that
  were sent are kept in \<open>rk_requests\<close>, the latest last; the locks of the source make the work of one call
  on a key one step.
\<close>

section \<open>Requests\<close>

record ForkInfo =
  fi_Fork :: Fork
  fi_GenesisValidatorsRoot :: root

record BeaconBlockHeader =
  bh_Slot :: u64
  bh_ProposerIndex :: u64
  bh_ParentRoot :: root
  bh_StateRoot :: root
  bh_BodyRoot :: root

record BeaconBlockData =
  bd_Version :: DataVersion
  bd_BlockHeader :: BeaconBlockHeader

datatype AggregateAndProof = AggPhase0 bytes | AggElectra bytes

record SyncCommitteeMessage =
  scm_BeaconBlockRoot :: root
  scm_Slot :: u64

record SyncCommitteeAggregatorSelection =
  scs_Slot :: u64
  scs_SubcommitteeIndex :: u64

datatype SignedObjectType =
    TypeUnset | TypeAggregationSlot | TypeAggregateAndProof | TypeAttestation | TypeBlockV2 | TypeRandaoReveal
  | TypeVoluntaryExit | TypeSyncCommitteeMessage | TypeSyncCommitteeSelectionProof
  | TypeSyncCommitteeContributionAndProof | TypeValidatorRegistration

record SignRequest =
  rq_ForkInfo :: ForkInfo
  rq_SigningRoot :: root
  rq_Type :: SignedObjectType
  rq_Attestation :: "AttestationData option"
  rq_BeaconBlock :: "BeaconBlockData option"
  rq_VoluntaryExit :: "VoluntaryExit option"
  rq_AggregateAndProof :: "AggregateAndProof option"
  rq_AggregationSlot :: "u64 option"
  rq_RandaoReveal :: "u64 option"
  rq_SyncCommitteeMessage :: "SyncCommitteeMessage option"
  rq_SyncAggregatorSelectionData :: "SyncCommitteeAggregatorSelection option"
  rq_ContributionAndProof :: "bytes option"
  rq_ValidatorRegistration :: "ValidatorRegistration option"

definition emptyRequest :: "ForkInfo \<Rightarrow> SignRequest" where
  "emptyRequest fi =
     \<lparr>rq_ForkInfo = fi, rq_SigningRoot = replicate 32 0, rq_Type = TypeUnset, rq_Attestation = None,
      rq_BeaconBlock = None, rq_VoluntaryExit = None, rq_AggregateAndProof = None, rq_AggregationSlot = None,
      rq_RandaoReveal = None, rq_SyncCommitteeMessage = None, rq_SyncAggregatorSelectionData = None,
      rq_ContributionAndProof = None, rq_ValidatorRegistration = None\<rparr>"

section \<open>The key manager\<close>

abbreviation StatusImported :: string where "StatusImported \<equiv> ''imported''"
abbreviation StatusDuplicated :: string where "StatusDuplicated \<equiv> ''duplicate''"
abbreviation StatusDeleted :: string where "StatusDeleted \<equiv> ''deleted''"
abbreviation StatusNotFound :: string where "StatusNotFound \<equiv> ''not_found''"

record kmEnv =
  ke_now :: int
  ke_db :: dbFaults
  ke_AddValidators :: "bytes \<Rightarrow> bytes \<Rightarrow> km_err + string list"
  ke_RemoveValidators :: "bytes \<Rightarrow> km_err + string list"
  ke_Sign :: "bytes \<Rightarrow> SignRequest \<Rightarrow> km_err + bytes"
  ke_IsValidFarFutureEpoch :: "u64 \<Rightarrow> bool"
  ke_IsValidFarFutureSlot :: "u64 \<Rightarrow> bool"
  ke_ComputeETHSigningRoot :: "hash_obj \<Rightarrow> bytes \<Rightarrow> km_err + root"
  ke_BodyRoot :: "bytes \<Rightarrow> km_err + root"

record RemoteKeyManager =
  rk_beaconConfig :: Beacon
  rk_genesisRoot :: root
  rk_store :: signerStorage
  rk_requests :: "(bytes \<times> SignRequest) list"

type_synonym 'a khandler = "(km_err, 'a) res \<times> RemoteKeyManager"

text \<open>A call on the records, as a call on the key manager.\<close>

definition on_store ::
    "(signerStorage \<Rightarrow> (km_err, 'a) res \<times> signerStorage) \<Rightarrow> RemoteKeyManager \<Rightarrow> 'a khandler" where
  "on_store f km = (let (r, s) = f (rk_store km) in (r, km\<lparr>rk_store := s\<rparr>))"

definition kmBumpSlashingProtection :: "sszAPI \<Rightarrow> kmEnv \<Rightarrow> bytes \<Rightarrow> RemoteKeyManager \<Rightarrow> unit khandler" where
  "kmBumpSlashingProtection Z E pubKey km =
     on_store (BumpSlashingProtection Z (ke_db E) (rk_beaconConfig km) (ke_now E) pubKey) km"

definition AddShare :: "sszAPI \<Rightarrow> kmEnv \<Rightarrow> bytes \<Rightarrow> bytes \<Rightarrow> RemoteKeyManager \<Rightarrow> unit khandler" where
  "AddShare Z E encryptedPrivKey pubKey km =
     bind_st (of_sum (KWrap ''add validator'') (ke_AddValidators E encryptedPrivKey pubKey), km) (\<lambda>statuses km.
     bind_st (each (\<lambda>status. ensure (status = StatusImported \<or> status = StatusDuplicated)
                               (KPlain (''unexpected status '' @ status))) statuses, km) (\<lambda>_ km.
       map_err_st (KWrap ''could not bump slashing protection'') (kmBumpSlashingProtection Z E pubKey km)))"

definition RemoveShare :: "kmEnv \<Rightarrow> bytes \<Rightarrow> RemoteKeyManager \<Rightarrow> unit khandler" where
  "RemoveShare E pubKey km =
     bind_st (of_sum (KWrap ''remove validator'') (ke_RemoveValidators E pubKey), km) (\<lambda>statuses km.
     bind_st (each (\<lambda>status. ensure (status = StatusDeleted \<or> status = StatusNotFound)
                               (KPlain (''unexpected status '' @ status))) statuses, km) (\<lambda>_ km.
     bind_st (map_err_st (KWrap ''could not remove highest attestation'')
                (on_store (RemoveHighestAttestation (ke_db E) pubKey) km)) (\<lambda>_ km.
       map_err_st (KWrap ''could not remove highest proposal'')
         (on_store (RemoveHighestProposal (ke_db E) pubKey) km))))"

definition handleDomainAttester ::
    "protection \<Rightarrow> kmEnv \<Rightarrow> hash_obj \<Rightarrow> bytes \<Rightarrow> RemoteKeyManager \<Rightarrow> AttestationData khandler" where
  "handleDomainAttester N E obj sharePubkey km =
     (case obj of
        ObjAttestationData data \<Rightarrow>
          bind_st (ensure (ke_IsValidFarFutureEpoch E (targetEpoch data))
                     (KPlain ''target epoch too far into the future''), km) (\<lambda>_ km.
          bind_st (ensure (ke_IsValidFarFutureEpoch E (sourceEpoch data))
                     (KPlain ''source epoch too far into the future''), km) (\<lambda>_ km.
          bind_st (IsAttestationSlashable N (ke_db E) (rk_store km) sharePubkey data, km) (\<lambda>_ km.
          bind_st (on_store (np_UpdateHighestAttestation N (ke_db E) sharePubkey data) km) (\<lambda>_ km.
            (Ok data, km)))))
      | _ \<Rightarrow> (Err (KPlain ''could not cast obj to AttestationData''), km))"

text \<open>The six arms differ only in the type of the block and in the text of the error.\<close>

definition ConvertBlockToBeaconBlockData ::
    "(bytes \<Rightarrow> km_err + root) \<Rightarrow> hash_obj \<Rightarrow> DataVersion \<Rightarrow> (km_err, BeaconBlockData) res" where
  "ConvertBlockToBeaconBlockData bodyRootOf obj version =
     (let convert = (\<lambda>text v.
            bind_res (of_sum (KWrap text) (bodyRootOf (bb_Body v))) (\<lambda>bodyRoot.
              Ok \<lparr>bd_Version = version,
                  bd_BlockHeader =
                    \<lparr>bh_Slot = bb_Slot v, bh_ProposerIndex = bb_ProposerIndex v, bh_ParentRoot = bb_ParentRoot v,
                     bh_StateRoot = bb_StateRoot v, bh_BodyRoot = bodyRoot\<rparr>\<rparr>))
      in case obj of
           ObjCapellaBlock v \<Rightarrow> convert ''could not hash beacon block'' v
         | ObjDenebBlock v \<Rightarrow> convert ''could not hash beacon block'' v
         | ObjElectraBlock v \<Rightarrow> convert ''could not hash beacon block'' v
         | ObjCapellaBlindedBlock v \<Rightarrow> convert ''could not hash blinded beacon block'' v
         | ObjDenebBlindedBlock v \<Rightarrow> convert ''could not hash blinded beacon block'' v
         | ObjElectraBlindedBlock v \<Rightarrow> convert ''could not hash blinded beacon block'' v
         | _ \<Rightarrow> Err (KPlain ''obj type is unknown''))"

definition handleDomainProposer ::
    "protection \<Rightarrow> kmEnv \<Rightarrow> hash_obj \<Rightarrow> u64 \<Rightarrow> bytes \<Rightarrow> RemoteKeyManager \<Rightarrow> BeaconBlockData khandler" where
  "handleDomainProposer N E obj slot sharePubkey km =
     bind_st (EstimatedEpochAtSlot (rk_beaconConfig km) slot, km) (\<lambda>epoch km.
     bind_st (ForkAtEpoch (rk_beaconConfig km) epoch, km) (\<lambda>(version, _) km.
     bind_st (ConvertBlockToBeaconBlockData (ke_BodyRoot E) obj version, km) (\<lambda>ret km.
       let blockSlot = bh_Slot (bd_BlockHeader ret)
       in bind_st (ensure (ke_IsValidFarFutureSlot E blockSlot)
                     (KPlain ''proposed block slot too far into the future''), km) (\<lambda>_ km.
          bind_st (IsBeaconBlockSlashable N (ke_db E) (rk_store km) sharePubkey blockSlot, km) (\<lambda>_ km.
          bind_st (on_store (np_UpdateHighestProposal N (ke_db E) sharePubkey blockSlot) km) (\<lambda>_ km.
            (Ok ret, km)))))))"

definition GetForkInfo :: "RemoteKeyManager \<Rightarrow> u64 \<Rightarrow> (km_err, ForkInfo) res" where
  "GetForkInfo km epoch =
     bind_res (ForkAtEpoch (rk_beaconConfig km) epoch) (\<lambda>(_, currentFork).
       Ok \<lparr>fi_Fork = currentFork, fi_GenesisValidatorsRoot = rk_genesisRoot km\<rparr>)"

definition voluntaryExitForkInfo :: "RemoteKeyManager \<Rightarrow> (km_err, ForkInfo) res" where
  "voluntaryExitForkInfo km =
     (case ForkAtVersion (rk_beaconConfig km) DataVersionCapella of
        None \<Rightarrow> Err (KPlain ''capella fork not configured'')
      | Some capellaFork \<Rightarrow> Ok \<lparr>fi_Fork = capellaFork, fi_GenesisValidatorsRoot = rk_genesisRoot km\<rparr>)"

definition validatorRegistrationForkInfo :: "RemoteKeyManager \<Rightarrow> (km_err, ForkInfo) res" where
  "validatorRegistrationForkInfo km =
     (case ForkAtVersion (rk_beaconConfig km) DataVersionPhase0 of
        None \<Rightarrow> Err (KPlain ''genesis fork not configured'')
      | Some genesisFork \<Rightarrow> Ok \<lparr>fi_Fork = genesisFork, fi_GenesisValidatorsRoot = replicate 32 0\<rparr>)"

text \<open>
  The conversion of \<open>SSZBytes\<close> to a root panics on fewer than 32 bytes and takes the first 32.
\<close>

definition fillRequest ::
    "protection \<Rightarrow> kmEnv \<Rightarrow> hash_obj \<Rightarrow> bytes \<Rightarrow> u64 \<Rightarrow> SigDomain \<Rightarrow> SignRequest \<Rightarrow> RemoteKeyManager
       \<Rightarrow> SignRequest khandler" where
  "fillRequest N E obj sharePubkey slot signatureDomain req km =
     (case signatureDomain of
        DomainAttester \<Rightarrow>
          bind_st (handleDomainAttester N E obj sharePubkey km) (\<lambda>data km.
            (Ok (req\<lparr>rq_Type := TypeAttestation, rq_Attestation := Some data\<rparr>), km))
      | DomainProposer \<Rightarrow>
          bind_st (handleDomainProposer N E obj slot sharePubkey km) (\<lambda>block km.
            (Ok (req\<lparr>rq_Type := TypeBlockV2, rq_BeaconBlock := Some block\<rparr>), km))
      | DomainVoluntaryExit \<Rightarrow>
          (case obj of
             ObjVoluntaryExit data \<Rightarrow>
               bind_st (voluntaryExitForkInfo km, km) (\<lambda>forkInfo km.
                 (Ok (req\<lparr>rq_ForkInfo := forkInfo, rq_Type := TypeVoluntaryExit, rq_VoluntaryExit := Some data\<rparr>), km))
           | _ \<Rightarrow> (Err (KPlain ''could not cast obj to VoluntaryExit''), km))
      | DomainAggregateAndProof \<Rightarrow>
          (case obj of
             ObjPhase0Aggregate v \<Rightarrow>
               (Ok (req\<lparr>rq_Type := TypeAggregateAndProof, rq_AggregateAndProof := Some (AggPhase0 v)\<rparr>), km)
           | ObjElectraAggregate v \<Rightarrow>
               (Ok (req\<lparr>rq_Type := TypeAggregateAndProof, rq_AggregateAndProof := Some (AggElectra v)\<rparr>), km)
           | ObjGloasAggregate v \<Rightarrow>
               (Err (KPlain ''gloas aggregate and proof signing is not supported by the remote signer''), km)
           | _ \<Rightarrow> (Err (KPlain ''obj type is unknown''), km))
      | DomainSelectionProof \<Rightarrow>
          (case obj of
             ObjSSZUint64 data \<Rightarrow> (Ok (req\<lparr>rq_Type := TypeAggregationSlot, rq_AggregationSlot := Some data\<rparr>), km)
           | _ \<Rightarrow> (Err (KPlain ''could not cast obj to SSZUint64''), km))
      | DomainRandao \<Rightarrow>
          (case obj of
             ObjSSZUint64 data \<Rightarrow> (Ok (req\<lparr>rq_Type := TypeRandaoReveal, rq_RandaoReveal := Some data\<rparr>), km)
           | _ \<Rightarrow> (Err (KPlain ''could not cast obj to SSZUint64''), km))
      | DomainSyncCommittee \<Rightarrow>
          (case obj of
             ObjSSZBytes data \<Rightarrow>
               if length data < 32 then (Panic, km)
               else (Ok (req\<lparr>rq_Type := TypeSyncCommitteeMessage,
                             rq_SyncCommitteeMessage :=
                               Some \<lparr>scm_BeaconBlockRoot = take 32 data, scm_Slot = slot\<rparr>\<rparr>), km)
           | _ \<Rightarrow> (Err (KPlain ''could not cast obj to SSZBytes''), km))
      | DomainSyncCommitteeSelectionProof \<Rightarrow>
          (case obj of
             ObjSyncAggregatorSelectionData data \<Rightarrow>
               (Ok (req\<lparr>rq_Type := TypeSyncCommitteeSelectionProof,
                        rq_SyncAggregatorSelectionData :=
                          Some \<lparr>scs_Slot = sas_Slot data, scs_SubcommitteeIndex = sas_SubcommitteeIndex data\<rparr>\<rparr>), km)
           | _ \<Rightarrow> (Err (KPlain ''could not cast obj to SyncAggregatorSelectionData''), km))
      | DomainContributionAndProof \<Rightarrow>
          (case obj of
             ObjContributionAndProof data \<Rightarrow>
               (Ok (req\<lparr>rq_Type := TypeSyncCommitteeContributionAndProof, rq_ContributionAndProof := Some data\<rparr>), km)
           | _ \<Rightarrow> (Err (KPlain ''could not cast obj to ContributionAndProof''), km))
      | DomainApplicationBuilder \<Rightarrow>
          (case obj of
             ObjValidatorRegistration data \<Rightarrow>
               bind_st (validatorRegistrationForkInfo km, km) (\<lambda>forkInfo km.
                 (Ok (req\<lparr>rq_ForkInfo := forkInfo, rq_Type := TypeValidatorRegistration,
                          rq_ValidatorRegistration := Some data\<rparr>), km))
           | _ \<Rightarrow> (Err (KPlain ''could not cast obj to ValidatorRegistration''), km))
      | DomainPTCAttester \<Rightarrow>
          (Err (KPlain ''payload attestation signing is not supported by the remote signer''), km)
      | DomainProposerPreferences \<Rightarrow>
          (Err (KPlain ''proposer preferences signing is not supported by the remote signer''), km)
      | DomainBeaconBuilder \<Rightarrow>
          (Err (KPlain ''execution payload envelope signing is not supported by the remote signer''), km)
      | DomainBuilderRequestAuth \<Rightarrow>
          (Err (KPlain ''request auth signing is not supported by the remote signer''), km)
      | DomainOther \<Rightarrow> (Err (KPlain ''domain unknown''), km))"

definition prepareSignRequest ::
    "protection \<Rightarrow> kmEnv \<Rightarrow> hash_obj \<Rightarrow> bytes \<Rightarrow> bytes \<Rightarrow> u64 \<Rightarrow> SigDomain \<Rightarrow> RemoteKeyManager
       \<Rightarrow> (SignRequest \<times> root) khandler" where
  "prepareSignRequest N E obj domain sharePubkey slot signatureDomain km =
     bind_st (EstimatedEpochAtSlot (rk_beaconConfig km) slot, km) (\<lambda>epoch km.
     bind_st (GetForkInfo km epoch, km) (\<lambda>forkInfo km.
     bind_st (fillRequest N E obj sharePubkey slot signatureDomain (emptyRequest forkInfo) km) (\<lambda>req km.
     bind_st (of_sum (KWrap ''compute root'') (ke_ComputeETHSigningRoot E obj domain), km) (\<lambda>root km.
       (Ok (req\<lparr>rq_SigningRoot := root\<rparr>, root), km)))))"

definition SignBeaconObject ::
    "protection \<Rightarrow> kmEnv \<Rightarrow> hash_obj \<Rightarrow> bytes \<Rightarrow> bytes \<Rightarrow> u64 \<Rightarrow> SigDomain \<Rightarrow> RemoteKeyManager
       \<Rightarrow> (bytes \<times> root) khandler" where
  "SignBeaconObject N E obj domain sharePubkey slot signatureDomain km =
     bind_st (prepareSignRequest N E obj domain sharePubkey slot signatureDomain km) (\<lambda>(req, root) km.
     bind_st (of_sum (KWrap ''remote signer'') (ke_Sign E sharePubkey req),
              km\<lparr>rk_requests := rk_requests km @ [(sharePubkey, req)]\<rparr>) (\<lambda>sig km.
       (Ok (sig, root), km)))"

section \<open>What the key manager is asked to do\<close>

datatype km_call =
    CallSign hash_obj bytes bytes u64 SigDomain
  | CallAddShare bytes bytes
  | CallRemoveShare bytes
  | CallBump bytes

definition km_step :: "sszAPI \<Rightarrow> protection \<Rightarrow> kmEnv \<times> km_call \<Rightarrow> RemoteKeyManager \<Rightarrow> RemoteKeyManager" where
  "km_step Z N call km =
     (case call of (E, c) \<Rightarrow>
        (case c of
           CallSign obj domain k slot sigDomain \<Rightarrow> snd (SignBeaconObject N E obj domain k slot sigDomain km)
         | CallAddShare enc k \<Rightarrow> snd (AddShare Z E enc k km)
         | CallRemoveShare k \<Rightarrow> snd (RemoveShare E k km)
         | CallBump k \<Rightarrow> snd (kmBumpSlashingProtection Z E k km)))"

definition km_run :: "sszAPI \<Rightarrow> protection \<Rightarrow> (kmEnv \<times> km_call) list \<Rightarrow> RemoteKeyManager \<Rightarrow> RemoteKeyManager" where
  "km_run Z N calls km = fold (km_step Z N) calls km"

text \<open>The attestations and the blocks the remote signer was asked to sign for a key, in order.\<close>

definition attestations_sent :: "bytes \<Rightarrow> RemoteKeyManager \<Rightarrow> AttestationData list" where
  "attestations_sent k km =
     List.map_filter (\<lambda>(k', req). if k' = k then rq_Attestation req else None) (rk_requests km)"

definition blocks_sent :: "bytes \<Rightarrow> RemoteKeyManager \<Rightarrow> BeaconBlockData list" where
  "blocks_sent k km =
     List.map_filter (\<lambda>(k', req). if k' = k then rq_BeaconBlock req else None) (rk_requests km)"

end
