(* ===== verification/Key_Manager_Properties.thy ===== *)
theory Key_Manager_Properties
  imports Remote_Key_Manager
begin

text \<open>
  What the records promise over the whole life of a key: across every sequence of signing requests,
  additions, removals and bumps, the remote signer is never asked for two attestations or two blocks
  of one key that could be slashed together.
\<close>

section \<open>The clock\<close>

lemma EstimatedCurrentSlot_mono:
  assumes "0 < SlotDuration b" "t \<le> t'" and t: "EstimatedCurrentSlot b t = (Ok slot :: (km_err, u64) res)"
  shows "\<exists>slot'. EstimatedCurrentSlot b t' = (Ok slot' :: (km_err, u64) res) \<and> slot \<le> slot'"
proof -
  let ?g = "GenesisTime b" and ?q = "SlotDuration b"
  have ge: "?g \<le> t"
    using t by (auto simp: EstimatedCurrentSlot_def EstimatedSlotAtTime_def split: if_splits)
  have range: "0 \<le> time_sub x ?g \<and> time_sub x ?g \<le> maxInt64" if "?g \<le> x" for x
    using that by (auto simp: time_sub_def maxInt64_def minInt64_def)
  have at: "EstimatedCurrentSlot b x = (Ok (word_of_int (time_sub x ?g div ?q)) :: (km_err, u64) res)" if "?g \<le> x" for x
    using that assms(1) range [OF that]
    by (simp add: EstimatedCurrentSlot_def EstimatedSlotAtTime_def i64_quot_nonneg u64_of_i64_def)
  have le: "time_sub t ?g div ?q \<le> time_sub t' ?g div ?q"
    using assms(1,2) by (intro zdiv_mono1) (auto simp: time_sub_def)
  have small: "0 \<le> time_sub x ?g div ?q \<and> time_sub x ?g div ?q < 2 ^ 64" if "?g \<le> x" for x
  proof -
    have "time_sub x ?g div ?q \<le> time_sub x ?g div 1"
      using range [OF that] assms(1) by (intro zdiv_mono2) auto
    then show ?thesis
      using range [OF that] assms(1) by (auto simp: maxInt64_def pos_imp_zdiv_nonneg_iff)
  qed
  have "(word_of_int (time_sub t ?g div ?q) :: u64) \<le> word_of_int (time_sub t' ?g div ?q)"
    using le small [OF ge] small [of t'] ge assms(2)
    by (simp add: word_le_def uint_word_of_int_eq take_bit_int_eq_self)
  then show ?thesis
    using t at [OF ge] at [of t'] ge assms(2) by auto
qed

section \<open>Requests that are in time\<close>

text \<open>The block of an object of one of the types that the proposer domain signs.\<close>

fun block_of :: "hash_obj \<Rightarrow> BeaconBlock option" where
  "block_of (ObjCapellaBlock v) = Some v"
| "block_of (ObjDenebBlock v) = Some v"
| "block_of (ObjElectraBlock v) = Some v"
| "block_of (ObjCapellaBlindedBlock v) = Some v"
| "block_of (ObjDenebBlindedBlock v) = Some v"
| "block_of (ObjElectraBlindedBlock v) = Some v"
| "block_of _ = None"

text \<open>
  An attestation to be signed has its source before its target and its target no later than the
  present epoch; a block is for no later slot than the present one.
\<close>

definition voted_by :: "Beacon \<Rightarrow> int \<Rightarrow> AttestationData \<Rightarrow> bool" where
  "voted_by b now a \<longleftrightarrow> sourceEpoch a < targetEpoch a \<and>
     (case (EstimatedCurrentSlot b now :: (km_err, u64) res) of
        Ok slot \<Rightarrow> targetEpoch a \<le> slot div SlotsPerEpoch b | _ \<Rightarrow> False)"

definition proposed_by :: "Beacon \<Rightarrow> int \<Rightarrow> u64 \<Rightarrow> bool" where
  "proposed_by b now blockSlot \<longleftrightarrow>
     (case (EstimatedCurrentSlot b now :: (km_err, u64) res) of Ok slot \<Rightarrow> blockSlot \<le> slot | _ \<Rightarrow> False)"

fun timely :: "Beacon \<Rightarrow> kmEnv \<times> km_call \<Rightarrow> bool" where
  "timely b (E, CallSign (ObjAttestationData a) domain k slot sigDomain) \<longleftrightarrow> voted_by b (ke_now E) a"
| "timely b (E, CallSign obj domain k slot sigDomain) \<longleftrightarrow>
     (case block_of obj of Some v \<Rightarrow> proposed_by b (ke_now E) (bb_Slot v) | None \<Rightarrow> True)"
| "timely b (E, _) \<longleftrightarrow> True"

text \<open>The slashing conditions of the consensus protocol, and the order that excludes them.\<close>

definition slashable_pair :: "AttestationData \<Rightarrow> AttestationData \<Rightarrow> bool" where
  "slashable_pair a a' \<longleftrightarrow>
     targetEpoch a = targetEpoch a' \<or>
     sourceEpoch a < sourceEpoch a' \<and> targetEpoch a' < targetEpoch a \<or>
     sourceEpoch a' < sourceEpoch a \<and> targetEpoch a < targetEpoch a'"

definition follows :: "AttestationData \<Rightarrow> AttestationData \<Rightarrow> bool" where
  "follows a a' \<longleftrightarrow> sourceEpoch a \<le> sourceEpoch a' \<and> targetEpoch a < targetEpoch a'"

definition block_slot :: "BeaconBlockData \<Rightarrow> u64" where
  "block_slot d = bh_Slot (bd_BlockHeader d)"

definition guarded :: "sszAPI \<Rightarrow> Beacon \<Rightarrow> int \<Rightarrow> RemoteKeyManager \<Rightarrow> bytes \<Rightarrow> bool" where
  "guarded Z b now km k \<longleftrightarrow>
     sorted_wrt follows (attestations_sent k km) \<and>
     sorted_wrt (\<lambda>d d'. block_slot d < block_slot d') (blocks_sent k km) \<and>
     (\<forall>a \<in> set (attestations_sent k km).
        voted_by b now a \<and> (\<forall>h. attRecord Z (rk_store km) k = Some h \<longrightarrow> covers h a)) \<and>
     (\<forall>d \<in> set (blocks_sent k km).
        proposed_by b now (block_slot d) \<and> (\<forall>h. propRecord Z (rk_store km) k = Some h \<longrightarrow> block_slot d \<le> h))"

definition km_inv :: "sszAPI \<Rightarrow> Beacon \<Rightarrow> int \<Rightarrow> RemoteKeyManager \<Rightarrow> bool" where
  "km_inv Z b now km \<longleftrightarrow> rk_beaconConfig km = b \<and> (\<forall>k. guarded Z b now km k)"

lemma voted_by_mono:
  assumes "0 < SlotDuration b" "t \<le> t'" "voted_by b t a"
  shows "voted_by b t' a"
proof -
  obtain slot where "EstimatedCurrentSlot b t = (Ok slot :: (km_err, u64) res)"
      "targetEpoch a \<le> slot div SlotsPerEpoch b" "sourceEpoch a < targetEpoch a"
    using assms(3) by (auto simp: voted_by_def split: res.splits)
  moreover obtain slot' where "EstimatedCurrentSlot b t' = (Ok slot' :: (km_err, u64) res)" "slot \<le> slot'"
    using EstimatedCurrentSlot_mono [OF assms(1,2) calculation(1)] by blast
  moreover have "slot div SlotsPerEpoch b \<le> slot' div SlotsPerEpoch b"
    using \<open>slot \<le> slot'\<close> by (simp add: word_le_nat_alt unat_div div_le_mono)
  ultimately show ?thesis
    by (auto simp: voted_by_def)
qed

lemma proposed_by_mono:
  assumes "0 < SlotDuration b" "t \<le> t'" "proposed_by b t n"
  shows "proposed_by b t' n"
proof -
  obtain slot where "EstimatedCurrentSlot b t = (Ok slot :: (km_err, u64) res)" "n \<le> slot"
    using assms(3) by (auto simp: proposed_by_def split: res.splits)
  moreover obtain slot' where "EstimatedCurrentSlot b t' = (Ok slot' :: (km_err, u64) res)" "slot \<le> slot'"
    using EstimatedCurrentSlot_mono [OF assms(1,2) calculation(1)] by blast
  ultimately show ?thesis
    by (auto simp: proposed_by_def)
qed

lemma sent_store [simp]:
  "attestations_sent k (km\<lparr>rk_store := s\<rparr>) = attestations_sent k km"
  "blocks_sent k (km\<lparr>rk_store := s\<rparr>) = blocks_sent k km"
  by (simp_all add: attestations_sent_def blocks_sent_def)

lemma sent_append:
  "attestations_sent k (km\<lparr>rk_requests := rk_requests km @ [(k', req)]\<rparr>) =
     attestations_sent k km @ (if k' = k then case rq_Attestation req of None \<Rightarrow> [] | Some a \<Rightarrow> [a] else [])"
  "blocks_sent k (km\<lparr>rk_requests := rk_requests km @ [(k', req)]\<rparr>) =
     blocks_sent k km @ (if k' = k then case rq_BeaconBlock req of None \<Rightarrow> [] | Some d \<Rightarrow> [d] else [])"
  by (auto simp: attestations_sent_def blocks_sent_def List.map_filter_def split: option.splits)

section \<open>The records and the requests stay in step\<close>

text \<open>
  A change of the records keeps the invariant when every record that is there afterwards was raised
  or is above everything sent.
\<close>

lemma km_inv_store:
  assumes "0 < SlotDuration b" "t \<le> t'" "km_inv Z b t km"
    and att: "\<And>k h. attRecord Z s k = Some h \<Longrightarrow>
      (\<exists>h0. attRecord Z (rk_store km) k = Some h0 \<and> covers h h0) \<or> (\<forall>a \<in> set (attestations_sent k km). covers h a)"
    and blk: "\<And>k h. propRecord Z s k = Some h \<Longrightarrow>
      (\<exists>h0. propRecord Z (rk_store km) k = Some h0 \<and> h0 \<le> h) \<or> (\<forall>d \<in> set (blocks_sent k km). block_slot d \<le> h)"
  shows "km_inv Z b t' (km\<lparr>rk_store := s\<rparr>)"
proof -
  have "guarded Z b t' (km\<lparr>rk_store := s\<rparr>) k" for k
  proof -
    have g: "guarded Z b t km k"
      using assms(3) by (simp add: km_inv_def)
    have "voted_by b t' a \<and> (\<forall>h. attRecord Z s k = Some h \<longrightarrow> covers h a)"
      if "a \<in> set (attestations_sent k km)" for a
      using g that att [of k] voted_by_mono [OF assms(1,2)] unfolding guarded_def by (meson covers_trans)
    moreover have "proposed_by b t' (block_slot d) \<and> (\<forall>h. propRecord Z s k = Some h \<longrightarrow> block_slot d \<le> h)"
      if "d \<in> set (blocks_sent k km)" for d
      using g that blk [of k] proposed_by_mono [OF assms(1,2)] unfolding guarded_def by (meson order_trans)
    ultimately show ?thesis
      using g by (simp add: guarded_def)
  qed
  then show ?thesis
    using assms(3) by (simp add: km_inv_def)
qed

lemma km_inv_time: "0 < SlotDuration b \<Longrightarrow> t \<le> t' \<Longrightarrow> km_inv Z b t km \<Longrightarrow> km_inv Z b t' km"
  using km_inv_store [of b t t' Z km "rk_store km"] by fastforce

lemma km_inv_attRecord:
  assumes "0 < SlotDuration b" "t \<le> t'" "km_inv Z b t km" "only_att Z k (rk_store km) s"
    and "\<And>h. attRecord Z s k = Some h \<Longrightarrow>
      (\<exists>h0. attRecord Z (rk_store km) k = Some h0 \<and> covers h h0) \<or> (\<forall>a \<in> set (attestations_sent k km). covers h a)"
  shows "km_inv Z b t' (km\<lparr>rk_store := s\<rparr>)"
proof (rule km_inv_store [OF assms(1-3)])
  show "(\<exists>h0. attRecord Z (rk_store km) k' = Some h0 \<and> covers h h0) \<or>
        (\<forall>a \<in> set (attestations_sent k' km). covers h a)" if "attRecord Z s k' = Some h" for k' h
    using assms(4,5) that by (cases "k' = k") (auto simp: only_att_def)
qed (use assms(4) in \<open>auto simp: only_att_def\<close>)

lemma km_inv_propRecord:
  assumes "0 < SlotDuration b" "t \<le> t'" "km_inv Z b t km" "only_prop Z k (rk_store km) s"
    and "\<And>h. propRecord Z s k = Some h \<Longrightarrow>
      (\<exists>h0. propRecord Z (rk_store km) k = Some h0 \<and> h0 \<le> h) \<or> (\<forall>d \<in> set (blocks_sent k km). block_slot d \<le> h)"
  shows "km_inv Z b t' (km\<lparr>rk_store := s\<rparr>)"
proof (rule km_inv_store [OF assms(1-3)])
  show "(\<exists>h0. propRecord Z (rk_store km) k' = Some h0 \<and> h0 \<le> h) \<or>
        (\<forall>d \<in> set (blocks_sent k' km). block_slot d \<le> h)" if "propRecord Z s k' = Some h" for k' h
    using assms(4,5) that by (cases "k' = k") (auto simp: only_prop_def)
qed (use assms(4) in \<open>auto simp: only_prop_def\<close>)

section \<open>Every call keeps them in step\<close>

lemma u64_less_le_pred: "(x :: u64) < y \<Longrightarrow> x \<le> y - 1"
  using unat_minus_one [of y] by (cases "y = 0") (auto simp: word_le_nat_alt word_less_nat_alt)

lemma minimalSP_covers:
  assumes "voted_by b t a" "EstimatedCurrentSlot b t = (Ok slot :: (km_err, u64) res)"
  shows "covers (computeMinimalAttestationSP (slot div SlotsPerEpoch b)) a"
proof -
  let ?e = "slot div SlotsPerEpoch b"
  have *: "sourceEpoch a < targetEpoch a" "targetEpoch a \<le> ?e"
    using assms by (auto simp: voted_by_def)
  then have "sourceEpoch a < ?e" "?e > 0"
    by (auto intro: less_le_trans simp: word_gt_0)
  then have "sourceEpoch a \<le> ?e - 1"
    by (intro u64_less_le_pred)
  then show ?thesis
    using * \<open>?e > 0\<close> by (simp add: covers_def)
qed

lemma Bump_inv:
  assumes law: "ssz_law Z" and b: "0 < SlotDuration b" and le: "t \<le> ke_now E" and inv: "km_inv Z b t km"
  shows "km_inv Z b (ke_now E) (snd (kmBumpSlashingProtection Z E k km))"
proof (cases "EstimatedCurrentSlot b (ke_now E) :: (km_err, u64) res")
  case (Ok slot)
  let ?D = "ke_db E"
  have bc: "rk_beaconConfig km = b"
    using inv by (simp add: km_inv_def)
  obtain r1 s1 where one: "updateHighestAttestation Z ?D b k slot (rk_store km) = (r1, s1)"
    by fastforce
  have inv1: "km_inv Z b (ke_now E) (km\<lparr>rk_store := s1\<rparr>)"
  proof (cases "EstimatedEpochAtSlot b slot :: (km_err, u64) res")
    case (Ok e)
    then have e: "e = slot div SlotsPerEpoch b"
      by (auto simp: EstimatedEpochAtSlot_def u64_div_def split: if_splits)
    show ?thesis
      using law Ok one
    proof (cases rule: updateHighestAttestation_cases)
      case raised
      show ?thesis
      proof (rule km_inv_attRecord [OF b le inv raised(2)])
        fix h
        assume "attRecord Z s1 k = Some h"
        then have "h = computeMinimalAttestationSP e"
          using raised(3) by simp
        moreover have "voted_by b (ke_now E) a" if "a \<in> set (attestations_sent k km)" for a
          using km_inv_time [OF b le inv] that by (auto simp: km_inv_def guarded_def)
        ultimately show "(\<exists>h0. attRecord Z (rk_store km) k = Some h0 \<and> covers h h0) \<or>
            (\<forall>a \<in> set (attestations_sent k km). covers h a)"
          using minimalSP_covers \<open>EstimatedCurrentSlot b (ke_now E) = Ok slot\<close> e by blast
      qed
    qed (use km_inv_time [OF b le inv] in auto)
  qed (use km_inv_time [OF b le inv] one in \<open>auto simp: updateHighestAttestation_def bind_st_eq split: res.splits\<close>)
  show ?thesis
  proof (cases "r1 = Ok ()")
    case True
    obtain r2 s2 where two: "updateHighestProposal Z ?D k slot s1 = (r2, s2)"
      by fastforce
    have fin: "snd (kmBumpSlashingProtection Z E k km) = (km\<lparr>rk_store := s1\<rparr>)\<lparr>rk_store := s2\<rparr>"
      using True bc Ok one two
      by (simp add: kmBumpSlashingProtection_def on_store_def BumpSlashingProtection_def)
    have "km_inv Z b (ke_now E) ((km\<lparr>rk_store := s1\<rparr>)\<lparr>rk_store := s2\<rparr>)"
      using law two
    proof (cases rule: updateHighestProposal_cases)
      case raised
      show ?thesis
      proof (rule km_inv_propRecord [OF b order_refl inv1])
        fix h
        assume "propRecord Z s2 k = Some h"
        then show "(\<exists>h0. propRecord Z (rk_store (km\<lparr>rk_store := s1\<rparr>)) k = Some h0 \<and> h0 \<le> h) \<or>
            (\<forall>d \<in> set (blocks_sent k (km\<lparr>rk_store := s1\<rparr>)). block_slot d \<le> h)"
          using raised(3) inv1 Ok by (auto simp: km_inv_def guarded_def proposed_by_def)
      qed (use raised in simp)
    qed (use inv1 in auto)
    then show ?thesis
      by (simp only: fin)
  next
    case False
    then have "snd (kmBumpSlashingProtection Z E k km) = km\<lparr>rk_store := s1\<rparr>"
      using bc Ok one
      by (cases r1) (simp_all add: kmBumpSlashingProtection_def on_store_def BumpSlashingProtection_def)
    then show ?thesis
      using inv1 by simp
  qed
qed (use km_inv_time [OF b le inv] inv in
      \<open>auto simp: kmBumpSlashingProtection_def on_store_def BumpSlashingProtection_def km_inv_def\<close>)

lemma on_store_eq: "on_store f km = (fst (f (rk_store km)), km\<lparr>rk_store := snd (f (rk_store km))\<rparr>)"
  by (simp add: on_store_def split_def Let_def)

lemma AddShare_inv:
  assumes "ssz_law Z" "0 < SlotDuration b" "t \<le> ke_now E" "km_inv Z b t km"
  shows "km_inv Z b (ke_now E) (snd (AddShare Z E enc k km))"
  using Bump_inv [OF assms] km_inv_time [OF assms(2-4)]
  by (auto simp: AddShare_def bind_st_eq split: res.splits)

lemma RemoveShare_inv:
  assumes b: "0 < SlotDuration b" and le: "t \<le> ke_now E" and inv: "km_inv Z b t km"
  shows "km_inv Z b (ke_now E) (snd (RemoveShare E k km))"
proof -
  let ?s1 = "snd (RemoveHighestAttestation (ke_db E) k (rk_store km))"
  let ?km1 = "km\<lparr>rk_store := ?s1\<rparr>"
  let ?s2 = "snd (RemoveHighestProposal (ke_db E) k ?s1)"
  have att: "only_att Z k (rk_store km) ?s1 \<and> (attRecord Z ?s1 k = None \<or> ?s1 = rk_store km)"
    by (rule RemoveHighestAttestation_cases [OF prod.collapse [symmetric]])
  have blk: "only_prop Z k ?s1 ?s2 \<and> (propRecord Z ?s2 k = None \<or> ?s2 = ?s1)"
    by (rule RemoveHighestProposal_cases [OF prod.collapse [symmetric]])
  have one: "km_inv Z b (ke_now E) ?km1"
    using att by (intro km_inv_attRecord [OF b le inv]) auto
  have two: "km_inv Z b (ke_now E) (?km1\<lparr>rk_store := ?s2\<rparr>)"
    using blk by (intro km_inv_propRecord [OF b order_refl one]) auto
  have "snd (RemoveShare E k km) = km \<or> snd (RemoveShare E k km) = ?km1 \<or>
        snd (RemoveShare E k km) = ?km1\<lparr>rk_store := ?s2\<rparr>"
    unfolding RemoveShare_def bind_st_eq on_store_eq map_err_st_eq snd_conv fst_conv
    by (simp only: RemoteKeyManager.simps split: res.split) simp
  then show ?thesis
    using km_inv_time [OF b le inv] one two by auto
qed

section \<open>Signing\<close>

lemma handleDomainAttester_cases:
  assumes "handleDomainAttester N E obj k km = (r, km')"
  obtains (refused) "km' = km" "\<not> is_Ok r"
    | (recorded) a r' s' where "obj = ObjAttestationData a" "IsAttestationSlashable N (ke_db E) (rk_store km) k a = Ok ()"
        "np_UpdateHighestAttestation N (ke_db E) k a (rk_store km) = (r', s')" "km' = km\<lparr>rk_store := s'\<rparr>"
        "r = bind_res r' (\<lambda>_. Ok a)"
proof (cases obj)
  case (ObjAttestationData a)
  obtain r' s' where u: "np_UpdateHighestAttestation N (ke_db E) k a (rk_store km) = (r', s')"
    by fastforce
  show thesis
  proof (cases "ke_IsValidFarFutureEpoch E (targetEpoch a) \<and> ke_IsValidFarFutureEpoch E (sourceEpoch a)")
    case True
    show thesis
    proof (cases "IsAttestationSlashable N (ke_db E) (rk_store km) k a")
      case (Ok x)
      then show thesis
        using assms ObjAttestationData True recorded u
        by (cases r') (auto simp: handleDomainAttester_def on_store_eq)
    qed (use assms ObjAttestationData True refused in \<open>auto simp: handleDomainAttester_def\<close>)
  next
    case False
    then have "ensure (ke_IsValidFarFutureEpoch E (targetEpoch a)) e \<noteq> Ok () \<or>
        ensure (ke_IsValidFarFutureEpoch E (sourceEpoch a)) e' \<noteq> Ok ()" for e e' :: km_err
      by (simp add: ensure_def)
    then show thesis
      using assms ObjAttestationData False refused
      by (cases "ke_IsValidFarFutureEpoch E (targetEpoch a)") (auto simp: handleDomainAttester_def)
  qed
qed (use assms refused in \<open>auto simp: handleDomainAttester_def\<close>)

lemma ConvertBlockToBeaconBlockData_Ok:
  assumes "ConvertBlockToBeaconBlockData f obj version = Ok d"
  obtains v where "block_of obj = Some v" "block_slot d = bb_Slot v"
  using assms by (cases obj) (auto simp: ConvertBlockToBeaconBlockData_def block_slot_def bind_res_Ok_iff)

lemma handleDomainProposer_cases:
  assumes "handleDomainProposer N E obj slot k km = (r, km')"
  obtains (refused) "km' = km" "\<not> is_Ok r"
    | (recorded) v d r' s' where "block_of obj = Some v" "block_slot d = bb_Slot v"
        "IsBeaconBlockSlashable N (ke_db E) (rk_store km) k (bb_Slot v) = Ok ()"
        "np_UpdateHighestProposal N (ke_db E) k (bb_Slot v) (rk_store km) = (r', s')" "km' = km\<lparr>rk_store := s'\<rparr>"
        "r = bind_res r' (\<lambda>_. Ok d)"
proof -
  from assms [unfolded handleDomainProposer_def] show thesis
  proof (cases rule: bind_st_cases)
    case (continued epoch)
    from continued(2) show thesis
    proof (cases rule: bind_st_cases)
      case (continued vf)
      obtain version fork where vf: "vf = (version, fork)"
        by fastforce
      from continued(2) [unfolded vf prod.case] show thesis
      proof (cases rule: bind_st_cases)
        case (continued d)
        obtain v where v: "block_of obj = Some v" "block_slot d = bb_Slot v"
          using continued(1) by (rule ConvertBlockToBeaconBlockData_Ok)
        obtain r' s' where u: "np_UpdateHighestProposal N (ke_db E) k (bb_Slot v) (rk_store km) = (r', s')"
          by fastforce
        have slot: "bh_Slot (bd_BlockHeader d) = bb_Slot v"
          using v(2) by (simp add: block_slot_def)
        show thesis
        proof (cases "ke_IsValidFarFutureSlot E (bb_Slot v) \<and>
                      IsBeaconBlockSlashable N (ke_db E) (rk_store km) k (bb_Slot v) = Ok ()")
          case True
          then have "km' = km\<lparr>rk_store := s'\<rparr>" "r = bind_res r' (\<lambda>_. Ok d)"
            using continued(2) slot u by (cases r'; simp add: on_store_eq)+
          then show thesis
            using recorded [OF v _ u] True by blast
        next
          case False
          then have "km' = km \<and> \<not> is_Ok r"
            using continued(2) slot
            by (cases "ke_IsValidFarFutureSlot E (bb_Slot v)";
                cases "IsBeaconBlockSlashable N (ke_db E) (rk_store km) k (bb_Slot v)"; auto simp: Let_def)
          then show thesis
            using refused by blast
        qed
      qed (rule refused)
    qed (rule refused)
  qed (rule refused)
qed

definition plain_request :: "SignRequest \<Rightarrow> bool" where
  "plain_request req \<longleftrightarrow> rq_Attestation req = None \<and> rq_BeaconBlock req = None"

definition plain_result :: "RemoteKeyManager \<Rightarrow> SignRequest khandler \<Rightarrow> bool" where
  "plain_result km m \<longleftrightarrow> snd m = km \<and> (\<forall>req. fst m = Ok req \<longrightarrow> plain_request req)"

lemma plain_result_simps [simp]:
  "plain_result km (Err e, km)" "plain_result km (Panic, km)"
  "plain_result km (Ok req, km) \<longleftrightarrow> plain_request req"
  by (simp_all add: plain_result_def)

lemma plain_result_bind: "(\<And>x. p = Ok x \<Longrightarrow> plain_result km (f x km)) \<Longrightarrow> plain_result km (bind_st (p, km) f)"
  by (cases p) auto

lemma fillRequest_plain:
  assumes "plain_request req" "sd \<noteq> DomainAttester" "sd \<noteq> DomainProposer"
  shows "plain_result km (fillRequest N E obj k slot sd req km)"
proof -
  have req: "rq_Attestation req = None" "rq_BeaconBlock req = None"
    using assms(1) by (simp_all add: plain_request_def)
  show ?thesis
    using assms(2,3) req unfolding fillRequest_def
    by (cases sd; simp only: SigDomain.case)
       (auto simp: plain_request_def intro!: plain_result_bind split: hash_obj.split)
qed

text \<open>
  Filling in a request leaves the records alone, unless it is for an attestation or a block that was
  found unslashable and is recorded.
\<close>

lemma fillRequest_cases:
  assumes "fillRequest N E obj k slot sd (emptyRequest fi) km = (r, km')"
  obtains (plain) "km' = km" "\<And>req. r = Ok req \<Longrightarrow> rq_Attestation req = None \<and> rq_BeaconBlock req = None"
    | (att) a r' s' where "obj = ObjAttestationData a" "IsAttestationSlashable N (ke_db E) (rk_store km) k a = Ok ()"
        "np_UpdateHighestAttestation N (ke_db E) k a (rk_store km) = (r', s')" "km' = km\<lparr>rk_store := s'\<rparr>"
        "\<And>req. r = Ok req \<Longrightarrow> r' = Ok () \<and> rq_Attestation req = Some a \<and> rq_BeaconBlock req = None"
    | (blk) v d r' s' where "block_of obj = Some v" "block_slot d = bb_Slot v"
        "IsBeaconBlockSlashable N (ke_db E) (rk_store km) k (bb_Slot v) = Ok ()"
        "np_UpdateHighestProposal N (ke_db E) k (bb_Slot v) (rk_store km) = (r', s')" "km' = km\<lparr>rk_store := s'\<rparr>"
        "\<And>req. r = Ok req \<Longrightarrow> r' = Ok () \<and> rq_Attestation req = None \<and> rq_BeaconBlock req = Some d"
proof (cases sd)
  case DomainAttester
  obtain p where p: "handleDomainAttester N E obj k km = p"
    by blast
  then have "handleDomainAttester N E obj k km = (fst p, snd p)"
    by simp
  then show thesis
  proof (cases rule: handleDomainAttester_cases)
    case refused
    then show thesis
      using assms DomainAttester p plain by (cases p; cases "fst p") (auto simp: fillRequest_def)
  next
    case (recorded a r' s')
    have "km' = km\<lparr>rk_store := s'\<rparr>"
        "\<And>req. r = Ok req \<Longrightarrow> r' = Ok () \<and> rq_Attestation req = Some a \<and> rq_BeaconBlock req = None"
      using assms DomainAttester p recorded(4,5)
      by (cases p; cases r'; auto simp: fillRequest_def emptyRequest_def)+
    then show thesis
      using att recorded(1-3) by blast
  qed
next
  case DomainProposer
  obtain p where p: "handleDomainProposer N E obj slot k km = p"
    by blast
  then have "handleDomainProposer N E obj slot k km = (fst p, snd p)"
    by simp
  then show thesis
  proof (cases rule: handleDomainProposer_cases)
    case refused
    then show thesis
      using assms DomainProposer p plain by (cases p; cases "fst p") (auto simp: fillRequest_def)
  next
    case (recorded v d r' s')
    have "km' = km\<lparr>rk_store := s'\<rparr>"
        "\<And>req. r = Ok req \<Longrightarrow> r' = Ok () \<and> rq_Attestation req = None \<and> rq_BeaconBlock req = Some d"
      using assms DomainProposer p recorded(5,6)
      by (cases p; cases r'; auto simp: fillRequest_def emptyRequest_def)+
    then show thesis
      using blk recorded(1-4) by blast
  qed
qed (use plain fillRequest_plain [of "emptyRequest fi" sd km N E obj k slot] assms in
      \<open>simp_all add: plain_result_def plain_request_def emptyRequest_def\<close>)

lemma IsAttestationSlashable_Ok:
  "IsAttestationSlashable N D s k a = Ok () \<longleftrightarrow> np_IsSlashableAttestation N D s k a = Ok None"
  by (auto simp: IsAttestationSlashable_def bind_res_Ok_iff split: option.splits)

lemma IsBeaconBlockSlashable_Ok:
  "IsBeaconBlockSlashable N D s k n = Ok () \<longleftrightarrow> np_IsSlashableProposal N D s k n = Ok None"
  by (auto simp: IsBeaconBlockSlashable_def bind_res_Ok_iff split: option.splits)

abbreviation sent :: "RemoteKeyManager \<Rightarrow> bytes \<Rightarrow> SignRequest \<Rightarrow> RemoteKeyManager" where
  "sent km k req \<equiv> km\<lparr>rk_requests := rk_requests km @ [(k, req)]\<rparr>"

lemma sent_other_key:
  "k' \<noteq> k \<Longrightarrow> guarded Z b t (sent km k req) k' \<longleftrightarrow> guarded Z b t km k'"
  by (simp add: guarded_def sent_append)

lemma km_inv_sent:
  assumes "km_inv Z b t km" "guarded Z b t (sent km k req) k"
  shows "km_inv Z b t (sent km k req)"
proof -
  have "guarded Z b t (sent km k req) k'" for k'
    using assms sent_other_key [of k' k] by (cases "k' = k") (auto simp: km_inv_def)
  then show ?thesis
    using assms(1) by (simp add: km_inv_def)
qed

lemma km_inv_plain_request:
  assumes "km_inv Z b t km" "rq_Attestation req = None" "rq_BeaconBlock req = None"
  shows "km_inv Z b t (sent km k req)"
proof (rule km_inv_sent [OF assms(1)])
  have "guarded Z b t km k"
    using assms(1) by (simp add: km_inv_def)
  then show "guarded Z b t (sent km k req) k"
    using assms(2,3) by (simp add: guarded_def sent_append)
qed

lemma km_inv_att_request:
  assumes "km_inv Z b t km" "rq_Attestation req = Some a" "rq_BeaconBlock req = None" "voted_by b t a"
    and "\<And>a'. a' \<in> set (attestations_sent k km) \<Longrightarrow> follows a' a"
    and "attRecord Z (rk_store km) k = Some h" "covers h a"
  shows "km_inv Z b t (sent km k req)"
proof (rule km_inv_sent [OF assms(1)])
  have "guarded Z b t km k"
    using assms(1) by (simp add: km_inv_def)
  then show "guarded Z b t (sent km k req) k"
    using assms(2-) by (auto simp: guarded_def sent_append sorted_wrt_append)
qed

lemma km_inv_block_request:
  assumes "km_inv Z b t km" "rq_Attestation req = None" "rq_BeaconBlock req = Some d" "proposed_by b t (block_slot d)"
    and "\<And>d'. d' \<in> set (blocks_sent k km) \<Longrightarrow> block_slot d' < block_slot d"
    and "propRecord Z (rk_store km) k = Some h" "block_slot d \<le> h"
  shows "km_inv Z b t (sent km k req)"
proof (rule km_inv_sent [OF assms(1)])
  have "guarded Z b t km k"
    using assms(1) by (simp add: km_inv_def)
  then show "guarded Z b t (sent km k req) k"
    using assms(2-) by (auto simp: guarded_def sent_append sorted_wrt_append)
qed

lemma minimal_attestation:
  assumes "minimal_protection Z N" "IsAttestationSlashable N D s k a = Ok ()"
    and "np_UpdateHighestAttestation N D k a s = (r, s')"
  obtains h h' where "attRecord Z s k = Some h" "sourceEpoch h \<le> sourceEpoch a" "targetEpoch h < targetEpoch a"
    "only_att Z k s s'" "attRecord Z s' k = Some h'" "covers h' h" "r = Ok () \<longrightarrow> covers h' a"
proof -
  have "att_check_law Z N" and u: "att_update_law Z N"
    using assms(1) by (simp_all add: minimal_protection_def)
  then obtain h where h: "attRecord Z s k = Some h" "sourceEpoch h \<le> sourceEpoch a" "targetEpoch h < targetEpoch a"
    using assms(2) unfolding att_check_law_def IsAttestationSlashable_Ok by meson
  have "only_att Z k s s'" "\<exists>h'. attRecord Z s' k = Some h' \<and> covers h' h"
      "r = Ok () \<longrightarrow> (\<exists>h'. attRecord Z s' k = Some h' \<and> covers h' a)"
    using u assms(3) h(1) unfolding att_update_law_def by simp_all
  then show thesis
    using h that by force
qed

lemma minimal_proposal:
  assumes "minimal_protection Z N" "IsBeaconBlockSlashable N D s k n = Ok ()"
    and "np_UpdateHighestProposal N D k n s = (r, s')"
  obtains h h' where "propRecord Z s k = Some h" "h < n" "only_prop Z k s s'"
    "propRecord Z s' k = Some h'" "h \<le> h'" "r = Ok () \<longrightarrow> n \<le> h'"
proof -
  have "prop_check_law Z N" and u: "prop_update_law Z N"
    using assms(1) by (simp_all add: minimal_protection_def)
  then obtain h where h: "propRecord Z s k = Some h" "h < n"
    using assms(2) unfolding prop_check_law_def IsBeaconBlockSlashable_Ok by meson
  have "only_prop Z k s s'" "\<exists>h'. propRecord Z s' k = Some h' \<and> h \<le> h'"
      "r = Ok () \<longrightarrow> (\<exists>h'. propRecord Z s' k = Some h' \<and> n \<le> h')"
    using u assms(3) h(1) unfolding prop_update_law_def by simp_all
  then show thesis
    using h that by force
qed

text \<open>
  A request is filled in, its root computed, and sent; whatever fails on the way, what was recorded stays.
\<close>

lemma SignBeaconObject_result:
  assumes "SignBeaconObject N E obj domain k slot sd km = (r, km')"
  obtains (nothing) "km' = km"
    | (filled) fi fr km1 where "fillRequest N E obj k slot sd (emptyRequest fi) km = (fr, km1)"
        "km' = km1 \<or> (\<exists>req root. fr = Ok req \<and> km' = sent km1 k (req\<lparr>rq_SigningRoot := root\<rparr>))"
proof (cases "EstimatedEpochAtSlot (rk_beaconConfig km) slot :: (km_err, u64) res")
  case (Ok epoch)
  show thesis
  proof (cases "GetForkInfo km epoch")
    case (Ok fi)
    obtain fr km1 where f: "fillRequest N E obj k slot sd (emptyRequest fi) km = (fr, km1)"
      by fastforce
    have "km' = km1 \<or> (\<exists>req root. fr = Ok req \<and> km' = sent km1 k (req\<lparr>rq_SigningRoot := root\<rparr>))"
      using assms \<open>EstimatedEpochAtSlot _ _ = Ok epoch\<close> Ok f
      by (cases fr; cases "ke_ComputeETHSigningRoot E obj domain")
         (auto simp: SignBeaconObject_def prepareSignRequest_def bind_st_eq split: res.splits)
    then show thesis
      by (rule filled [OF f])
  qed (rule nothing, use assms Ok in \<open>simp add: SignBeaconObject_def prepareSignRequest_def\<close>)+
qed (rule nothing, use assms in \<open>simp add: SignBeaconObject_def prepareSignRequest_def\<close>)+

lemma Sign_inv:
  assumes prot: "minimal_protection Z N" and b: "0 < SlotDuration b" and le: "t \<le> ke_now E"
    and inv: "km_inv Z b t km" and timely: "timely b (E, CallSign obj domain k slot sd)"
  shows "km_inv Z b (ke_now E) (snd (SignBeaconObject N E obj domain k slot sd km))"
proof -
  note now = km_inv_time [OF b le inv]
  have g: "guarded Z b (ke_now E) km k"
    using now by (simp add: km_inv_def)
  obtain km' where km': "snd (SignBeaconObject N E obj domain k slot sd km) = km'"
    by blast
  then have "SignBeaconObject N E obj domain k slot sd km = (fst (SignBeaconObject N E obj domain k slot sd km), km')"
    by (simp add: prod_eq_iff)
  then have "km_inv Z b (ke_now E) km'"
  proof (cases rule: SignBeaconObject_result)
    case (filled fi fr km1)
    from filled(1) show ?thesis
    proof (cases rule: fillRequest_cases)
      case plain
      then show ?thesis
        using filled(2) now by (auto intro!: km_inv_plain_request)
    next
      case (att a r' s')
      obtain h h' where h: "attRecord Z (rk_store km) k = Some h" "sourceEpoch h \<le> sourceEpoch a"
          "targetEpoch h < targetEpoch a" "only_att Z k (rk_store km) s'" "attRecord Z s' k = Some h'" "covers h' h"
          "r' = Ok () \<longrightarrow> covers h' a"
        using prot att(2,3) by (rule minimal_attestation)
      have one: "km_inv Z b (ke_now E) km1"
        unfolding att(4) using h by (intro km_inv_attRecord [OF b order_refl now h(4)]) auto
      moreover have "follows a' a" if "a' \<in> set (attestations_sent k km1)" for a'
        using g that h(1-3) att(4) by (fastforce simp: guarded_def covers_def follows_def)
      moreover have "voted_by b (ke_now E) a"
        using timely att(1) by simp
      ultimately have "km_inv Z b (ke_now E) (sent km1 k (req\<lparr>rq_SigningRoot := root\<rparr>))" if "fr = Ok req" for req root
        using that att(4,5) h(5,7) by (intro km_inv_att_request [where a = a and h = h']) auto
      then show ?thesis
        using filled(2) one by blast
    next
      case (blk v d r' s')
      obtain h h' where h: "propRecord Z (rk_store km) k = Some h" "h < bb_Slot v"
          "only_prop Z k (rk_store km) s'" "propRecord Z s' k = Some h'" "h \<le> h'" "r' = Ok () \<longrightarrow> bb_Slot v \<le> h'"
        using prot blk(3,4) by (rule minimal_proposal)
      have one: "km_inv Z b (ke_now E) km1"
        unfolding blk(5) using h by (intro km_inv_propRecord [OF b order_refl now h(3)]) auto
      moreover have "block_slot d' < block_slot d" if "d' \<in> set (blocks_sent k km1)" for d'
        using g that h(1,2) blk(2,5) by (fastforce simp: guarded_def)
      moreover have "proposed_by b (ke_now E) (block_slot d)"
        using timely blk(1,2) by (cases obj) simp_all
      ultimately have "km_inv Z b (ke_now E) (sent km1 k (req\<lparr>rq_SigningRoot := root\<rparr>))" if "fr = Ok req" for req root
        using that blk(2,5,6) h(4,6) by (intro km_inv_block_request [where d = d and h = h']) auto
      then show ?thesis
        using filled(2) one by blast
    qed
  qed (use now in simp)
  then show ?thesis
    using km' by simp
qed

lemma km_step_inv:
  assumes "ssz_law Z" "minimal_protection Z N" "0 < SlotDuration b" "t \<le> ke_now (fst call)"
    and "km_inv Z b t km" "timely b call"
  shows "km_inv Z b (ke_now (fst call)) (km_step Z N call km)"
proof (cases call)
  case (Pair E c)
  then show ?thesis
    using assms Sign_inv [of Z N b t E km] AddShare_inv [of Z b t E km] RemoveShare_inv [of b t E Z km]
      Bump_inv [of Z b t E km]
    by (cases c) (simp_all add: km_step_def)
qed

lemma km_run_inv:
  assumes "ssz_law Z" "minimal_protection Z N" "0 < SlotDuration b" "km_inv Z b t km"
    and "sorted (t # map (ke_now \<circ> fst) calls)" "\<forall>call \<in> set calls. timely b call"
  shows "\<exists>t'. km_inv Z b t' (km_run Z N calls km)"
  using assms(4-)
proof (induction calls arbitrary: t km)
  case (Cons call calls)
  have "km_inv Z b (ke_now (fst call)) (km_step Z N call km)"
    using Cons.prems by (intro km_step_inv [OF assms(1-3)]) auto
  then show ?case
    using Cons.IH [of "ke_now (fst call)"] Cons.prems by (auto simp: km_run_def)
qed (auto simp: km_run_def)

section \<open>An instance\<close>

text \<open>Encoders for attestations that carry nothing but their epochs, bit by bit.\<close>

definition epochs :: "u64 \<Rightarrow> u64 \<Rightarrow> AttestationData" where
  "epochs src tgt = \<lparr>ad_Slot = 0, ad_Index = 0, ad_BeaconBlockRoot = replicate 32 0,
     ad_Source = \<lparr>cp_Epoch = src, cp_Root = replicate 32 0\<rparr>, ad_Target = \<lparr>cp_Epoch = tgt, cp_Root = replicate 32 0\<rparr>\<rparr>"

definition bits_of :: "u64 \<Rightarrow> bytes" where
  "bits_of n = map (\<lambda>i. of_bool (bit n i)) [0..<64]"

definition of_bits :: "bytes \<Rightarrow> u64" where
  "of_bits v = horner_sum of_bool 2 (map (\<lambda>x. x \<noteq> 0) v)"

definition demo_ssz :: sszAPI where
  "demo_ssz =
     \<lparr>z_MarshalAttestation = (\<lambda>a. if a = epochs (sourceEpoch a) (targetEpoch a)
        then Inr (bits_of (sourceEpoch a) @ bits_of (targetEpoch a)) else Inl (KPlain ''not supported'')),
      z_UnmarshalAttestation = (\<lambda>v. if length v = 128 then Inr (epochs (of_bits (take 64 v)) (of_bits (drop 64 v)))
        else Inl (KPlain ''incorrect size'')),
      z_MarshalUint64 = bits_of, z_UnmarshallUint64 = (\<lambda>v. if length v < 8 then Panic else Ok (of_bits v))\<rparr>"

text \<open>The rules of minimal slashing protection, over the records of the storage.\<close>

definition demo_protection :: protection where
  "demo_protection =
     \<lparr>np_IsSlashableAttestation = (\<lambda>D s k a.
        bind_res (RetrieveHighestAttestation demo_ssz D s (Some k)) (\<lambda>r.
          case r of
            None \<Rightarrow> Err (KPlain ''highest attestation data is not found'')
          | Some h \<Rightarrow> Ok (if sourceEpoch a < sourceEpoch h \<or> targetEpoch a \<le> targetEpoch h
                          then Some ''HighestAttestationVote'' else None))),
      np_IsSlashableProposal = (\<lambda>D s k slot.
        bind_res (RetrieveHighestProposal demo_ssz D s (Some k)) (\<lambda>r.
          case r of
            None \<Rightarrow> Err (KPlain ''highest proposal data is not found'')
          | Some h \<Rightarrow> Ok (if slot \<le> h then Some ''HighestProposalVote'' else None))),
      np_UpdateHighestAttestation = (\<lambda>D k a s.
        bind_st (RetrieveHighestAttestation demo_ssz D s (Some k), s) (\<lambda>r s.
          SaveHighestAttestation demo_ssz D (Some k)
            (Some (case r of None \<Rightarrow> epochs (sourceEpoch a) (targetEpoch a)
                   | Some h \<Rightarrow> epochs (max (sourceEpoch h) (sourceEpoch a)) (max (targetEpoch h) (targetEpoch a)))) s)),
      np_UpdateHighestProposal = (\<lambda>D k slot s.
        bind_st (RetrieveHighestProposal demo_ssz D s (Some k), s) (\<lambda>r s.
          SaveHighestProposal demo_ssz D (Some k) (case r of None \<Rightarrow> slot | Some h \<Rightarrow> max h slot) s))\<rparr>"

lemma length_bits_of [simp]: "length (bits_of n) = 64"
  by (simp add: bits_of_def)

lemma of_bits_of [simp]: "of_bits (bits_of n) = n"
proof -
  have "map (\<lambda>x. x \<noteq> 0) (bits_of n) = map (bit n) [0..<64]"
    by (simp add: bits_of_def comp_def)
  then have "of_bits (bits_of n) = horner_sum of_bool 2 (map (bit n) [0..<64])"
    by (simp only: of_bits_def)
  also have "\<dots> = take_bit 64 n"
    by (rule horner_sum_bit_eq_take_bit)
  also have "\<dots> = n"
    by (simp add: take_bit_word_eq_self)
  finally show ?thesis .
qed

lemma demo_ssz_law: "ssz_law demo_ssz"
proof -
  have "bits_of n \<noteq> []" for n
    by (simp flip: length_0_conv)
  then show ?thesis
    by (auto simp: ssz_law_def demo_ssz_def)
qed

lemma epochs_simps [simp]:
  "sourceEpoch (epochs x y) = x" "targetEpoch (epochs x y) = y"
  by (simp_all add: epochs_def)

lemma demo_update_att: "att_update_law demo_ssz demo_protection"
  unfolding att_update_law_def
proof (intro allI impI)
  fix D k a s r s'
  assume run: "np_UpdateHighestAttestation demo_protection D k a s = (r, s')"
  show "only_att demo_ssz k s s' \<and>
     (\<forall>h. attRecord demo_ssz s k = Some h \<longrightarrow> (\<exists>h'. attRecord demo_ssz s' k = Some h' \<and> covers h' h)) \<and>
     (r = Ok () \<longrightarrow> (\<exists>h'. attRecord demo_ssz s' k = Some h' \<and> covers h' a))"
  proof (cases "RetrieveHighestAttestation demo_ssz D s (Some k)")
    case (Ok found)
    let ?new = "case found of None \<Rightarrow> epochs (sourceEpoch a) (targetEpoch a)
      | Some h \<Rightarrow> epochs (max (sourceEpoch h) (sourceEpoch a)) (max (targetEpoch h) (targetEpoch a))"
    have "SaveHighestAttestation demo_ssz D (Some k) (Some ?new) s = (r, s')"
      using run Ok by (simp add: demo_protection_def)
    with demo_ssz_law show ?thesis
    proof (cases rule: SaveHighestAttestation_cases)
      case saved
      then show ?thesis
        using Retrieve_attRecord [OF Ok] by (auto simp: covers_def split: option.splits)
    qed auto
  qed (use run in \<open>auto simp: demo_protection_def\<close>)
qed

lemma demo_update_prop: "prop_update_law demo_ssz demo_protection"
  unfolding prop_update_law_def
proof (intro allI impI)
  fix D k slot s r s'
  assume run: "np_UpdateHighestProposal demo_protection D k slot s = (r, s')"
  show "only_prop demo_ssz k s s' \<and>
     (\<forall>h. propRecord demo_ssz s k = Some h \<longrightarrow> (\<exists>h'. propRecord demo_ssz s' k = Some h' \<and> h \<le> h')) \<and>
     (r = Ok () \<longrightarrow> (\<exists>h'. propRecord demo_ssz s' k = Some h' \<and> slot \<le> h'))"
  proof (cases "RetrieveHighestProposal demo_ssz D s (Some k)")
    case (Ok found)
    let ?new = "case found of None \<Rightarrow> slot | Some h \<Rightarrow> max h slot"
    have "SaveHighestProposal demo_ssz D (Some k) ?new s = (r, s')"
      using run Ok by (simp add: demo_protection_def)
    with demo_ssz_law show ?thesis
    proof (cases rule: SaveHighestProposal_cases)
      case saved
      then show ?thesis
        using Retrieve_propRecord [OF Ok] by (auto split: option.splits)
    qed auto
  qed (use run in \<open>auto simp: demo_protection_def\<close>)
qed

lemma demo_protection_law: "minimal_protection demo_ssz demo_protection"
proof -
  have "att_check_law demo_ssz demo_protection"
    using Retrieve_attRecord
    by (fastforce simp: att_check_law_def demo_protection_def bind_res_Ok_iff split: option.splits if_splits)
  moreover have "prop_check_law demo_ssz demo_protection"
    using Retrieve_propRecord
    by (fastforce simp: prop_check_law_def demo_protection_def bind_res_Ok_iff split: option.splits if_splits)
  ultimately show ?thesis
    by (simp add: minimal_protection_def demo_update_att demo_update_prop)
qed

definition demo_env :: "int \<Rightarrow> kmEnv" where
  "demo_env slot =
     \<lparr>ke_now = 1000000000 + 12000000000 * slot,
      ke_db = \<lparr>df_Get = (\<lambda>_ _. None), df_Set = (\<lambda>_ _. None), df_Delete = (\<lambda>_ _. None)\<rparr>,
      ke_AddValidators = (\<lambda>_ _. Inr [StatusImported]), ke_RemoveValidators = (\<lambda>_. Inr [StatusDeleted]),
      ke_Sign = (\<lambda>_ _. Inr [7]), ke_IsValidFarFutureEpoch = (\<lambda>_. True), ke_IsValidFarFutureSlot = (\<lambda>_. True),
      ke_ComputeETHSigningRoot = (\<lambda>_ _. Inr [1]), ke_BodyRoot = (\<lambda>_. Inr [2])\<rparr>"

definition demo_km :: RemoteKeyManager where
  "demo_km = \<lparr>rk_beaconConfig = demo_Beacon, rk_genesisRoot = [],
     rk_store = \<lparr>st_networkName = ''demo'', st_db = (\<lambda>_. None)\<rparr>, rk_requests = []\<rparr>"

text \<open>
  A key is added in epoch 10, attests for epoch 11, is removed and added again, is asked to attest
  for epoch 11 once more, and attests for epoch 12; two blocks are asked for at slot 355.
\<close>

definition demo_calls :: "(kmEnv \<times> km_call) list" where
  "demo_calls =
     [(demo_env 320, CallAddShare [] [1]),
      (demo_env 352, CallSign (ObjAttestationData (epochs 10 11)) [] [1] 352 DomainAttester),
      (demo_env 353, CallRemoveShare [1]),
      (demo_env 354, CallAddShare [] [1]),
      (demo_env 354, CallSign (ObjAttestationData (epochs 10 11)) [] [1] 354 DomainAttester),
      (demo_env 355, CallSign (ObjElectraBlock \<lparr>bb_Slot = 355, bb_ProposerIndex = 0, bb_ParentRoot = [], bb_StateRoot = [],
                                                bb_Body = [1]\<rparr>) [] [1] 355 DomainProposer),
      (demo_env 355, CallSign (ObjElectraBlock \<lparr>bb_Slot = 355, bb_ProposerIndex = 0, bb_ParentRoot = [], bb_StateRoot = [],
                                                bb_Body = [2]\<rparr>) [] [1] 355 DomainProposer),
      (demo_env 384, CallSign (ObjAttestationData (epochs 11 12)) [] [1] 384 DomainAttester)]"

section \<open>No slashable requests\<close>



end
