(* ===== verification/Doppelganger.thy ===== *)
theory Doppelganger
  imports Share "HOL-Library.AList"
begin

text \<open>
  Doppelganger protection, \<open>doppelganger/doppelganger.go\<close> and \<open>state.go\<close>: a validator may sign only after the
  beacon node reported it inactive in enough epochs, or after its committee was seen to sign for it.

  The map of states is an association list with distinct keys in one of its iteration orders. The
  loop of \<open>Start\<close> is the function \<open>onTick\<close>, one call per tick, with the variables of the loop in
  \<open>monitor\<close>; \<open>mon_checks\<close> keeps the epochs that were checked, the latest last, each with what
  the beacon node answered when it was asked. The locks of the source
  make a tick, \<open>ReportQuorum\<close> and \<open>RemoveValidatorState\<close> steps of their own.
\<close>

section \<open>The state of a validator\<close>

record doppelgangerState =
  remainingEpochs :: u64
  observedQuorum :: bool

definition initialRemainingDetectionEpochs :: u64 where
  "initialRemainingDetectionEpochs = 2"

definition safe :: "doppelgangerState \<Rightarrow> bool" where
  "safe ds \<longleftrightarrow> remainingEpochs ds = 0 \<or> observedQuorum ds"

definition decreaseRemainingEpochs :: "doppelgangerState \<Rightarrow> (string, unit) res \<times> doppelgangerState" where
  "decreaseRemainingEpochs ds =
     (if remainingEpochs ds = 0 then (Err ''attempted to decrease remaining epochs at 0'', ds)
      else (Ok (), ds\<lparr>remainingEpochs := remainingEpochs ds - 1\<rparr>))"

definition resetRemainingEpochs :: "doppelgangerState \<Rightarrow> doppelgangerState" where
  "resetRemainingEpochs ds = ds\<lparr>remainingEpochs := initialRemainingDetectionEpochs\<rparr>"

section \<open>The handler\<close>

record ValidatorLiveness =
  vl_Index :: u64
  vl_IsLive :: bool

record monitor =
  validatorsState :: "(u64 \<times> doppelgangerState) list"
  mon_beaconConfig :: Beacon
  mon_startEpoch :: u64
  mon_previousEpoch :: u64
  mon_firstRun :: bool
  mon_checks :: "(u64 \<times> (string + ValidatorLiveness list) option) list"

definition NewHandler :: "Beacon \<Rightarrow> monitor" where
  "NewHandler b = \<lparr>validatorsState = [], mon_beaconConfig = b, mon_startEpoch = 0, mon_previousEpoch = 0,
                   mon_firstRun = True, mon_checks = []\<rparr>"

definition CanSign :: "monitor \<Rightarrow> u64 \<Rightarrow> bool" where
  "CanSign h validatorIndex =
     (case map_of (validatorsState h) validatorIndex of None \<Rightarrow> False | Some state \<Rightarrow> safe state)"

definition ReportQuorum :: "u64 \<Rightarrow> monitor \<Rightarrow> monitor" where
  "ReportQuorum validatorIndex h =
     (case map_of (validatorsState h) validatorIndex of
        None \<Rightarrow> h
      | Some state \<Rightarrow>
          if safe state then h
          else h\<lparr>validatorsState := AList.update validatorIndex (state\<lparr>observedQuorum := True\<rparr>) (validatorsState h)\<rparr>)"

definition addTracked :: "u64 \<Rightarrow> (u64 \<times> doppelgangerState) list \<Rightarrow> (u64 \<times> doppelgangerState) list" where
  "addTracked idx m =
     (case map_of m idx of
        None \<Rightarrow> AList.update idx \<lparr>remainingEpochs = initialRemainingDetectionEpochs, observedQuorum = False\<rparr> m
      | Some state \<Rightarrow> m)"

definition updateDoppelgangerState :: "u64 list \<Rightarrow> monitor \<Rightarrow> monitor" where
  "updateDoppelgangerState validatorIndices h =
     h\<lparr>validatorsState :=
         filter (\<lambda>(idx, _). idx \<in> set validatorIndices) (fold addTracked validatorIndices (validatorsState h))\<rparr>"

definition RemoveValidatorState :: "u64 \<Rightarrow> monitor \<Rightarrow> monitor" where
  "RemoveValidatorState validatorIndex h =
     (case map_of (validatorsState h) validatorIndex of
        None \<Rightarrow> h
      | Some _ \<Rightarrow> h\<lparr>validatorsState := AList.delete validatorIndex (validatorsState h)\<rparr>)"

text \<open>One answer of the beacon node; the error of \<open>decreaseRemainingEpochs\<close> is only logged.\<close>

definition processLiveness ::
    "ValidatorLiveness \<Rightarrow> (u64 \<times> doppelgangerState) list \<Rightarrow> (u64 \<times> doppelgangerState) list" where
  "processLiveness response m =
     (case map_of m (vl_Index response) of
        None \<Rightarrow> m
      | Some state \<Rightarrow>
          AList.update (vl_Index response)
            (if vl_IsLive response then resetRemainingEpochs state else snd (decreaseRemainingEpochs state)) m)"

definition processLivenessData :: "ValidatorLiveness list \<Rightarrow> monitor \<Rightarrow> monitor" where
  "processLivenessData livenessData h =
     h\<lparr>validatorsState := fold processLiveness livenessData (validatorsState h)\<rparr>"

abbreviation checked ::
    "u64 \<Rightarrow> (string + ValidatorLiveness list) option \<Rightarrow> monitor \<Rightarrow> monitor" where
  "checked epoch answer h \<equiv> h\<lparr>mon_checks := mon_checks h @ [(epoch, answer)]\<rparr>"

definition resetDoppelgangerStates :: "monitor \<Rightarrow> monitor" where
  "resetDoppelgangerStates h =
     h\<lparr>validatorsState := map (\<lambda>(idx, state). (idx, resetRemainingEpochs state)) (validatorsState h)\<rparr>"

text \<open>
  \<open>liveness\<close> is the beacon node's answer to a request for an epoch and a list of validators. The
  deadline of the request is computed first, and a slot too large for it panics.
\<close>

definition checkLiveness ::
    "(u64 \<Rightarrow> u64 list \<Rightarrow> string + ValidatorLiveness list) \<Rightarrow> u64 \<Rightarrow> u64 \<Rightarrow> monitor \<Rightarrow> (string, unit) res \<times> monitor" where
  "checkLiveness liveness slot epoch h =
     bind_st (SlotStartTime (mon_beaconConfig h) (slot + 1), h) (\<lambda>_ h.
       let validatorsToCheck = map fst (filter (\<lambda>(_, state). \<not> safe state) (validatorsState h))
       in if validatorsToCheck = [] then (Ok (), checked epoch None h)
          else let answer = liveness epoch validatorsToCheck; h = checked epoch (Some answer) h
               in case answer of
                    Inl _ \<Rightarrow> (Ok (), h)
                  | Inr livenessData \<Rightarrow> (Ok (), processLivenessData livenessData h))"

text \<open>The checked part of a tick: the first run, the skipped epochs, the request.\<close>

definition checkEpoch ::
    "(u64 \<Rightarrow> u64 list \<Rightarrow> string + ValidatorLiveness list) \<Rightarrow> u64 \<Rightarrow> u64 \<Rightarrow> monitor \<Rightarrow> (string, unit) res \<times> monitor" where
  "checkEpoch liveness currentSlot currentEpoch h =
     (let h = (if mon_firstRun h then h\<lparr>mon_startEpoch := currentEpoch, mon_firstRun := False\<rparr> else h);
          h = (if mon_previousEpoch h > 0 \<and> currentEpoch \<noteq> mon_previousEpoch h + 1
               then resetDoppelgangerStates h else h)
      in bind_st (checkLiveness liveness currentSlot (currentEpoch - 1) h) (\<lambda>_ h.
           (Ok (), h\<lparr>mon_previousEpoch := currentEpoch\<rparr>)))"

definition onTick ::
    "(u64 \<Rightarrow> u64 list \<Rightarrow> string + ValidatorLiveness list) \<Rightarrow> u64 \<Rightarrow> SSVShare list \<Rightarrow> monitor
       \<Rightarrow> (string, unit) res \<times> monitor" where
  "onTick liveness currentSlot shares h =
     bind_st (EstimatedEpochAtSlot (mon_beaconConfig h) currentSlot, h) (\<lambda>currentEpoch h.
       let slotsPerEpoch = SlotsPerEpoch (mon_beaconConfig h);
           h = updateDoppelgangerState (map sh_ValidatorIndex shares) h
       in if \<not> mon_firstRun h \<and> currentSlot mod slotsPerEpoch \<noteq> slotsPerEpoch - 1 \<or> mon_startEpoch h = currentEpoch
          then (Ok (), h)
          else checkEpoch liveness currentSlot currentEpoch h)"

section \<open>Runs\<close>

datatype dg_event =
    DgTick "u64 \<Rightarrow> u64 list \<Rightarrow> string + ValidatorLiveness list" u64 "SSVShare list"
  | DgQuorum u64
  | DgRemove u64

primrec dg_step :: "dg_event \<Rightarrow> monitor \<Rightarrow> monitor" where
  "dg_step (DgTick liveness slot shares) h = snd (onTick liveness slot shares h)"
| "dg_step (DgQuorum i) h = ReportQuorum i h"
| "dg_step (DgRemove i) h = RemoveValidatorState i h"

definition dg_run :: "dg_event list \<Rightarrow> monitor \<Rightarrow> monitor" where
  "dg_run events h = fold dg_step events h"

section \<open>What the states remember\<close>

text \<open>The reports about a validator in the answer to a check.\<close>

definition reported :: "u64 \<Rightarrow> bool \<Rightarrow> u64 \<times> (string + ValidatorLiveness list) option \<Rightarrow> bool" where
  "reported i live check =
     (case snd check of
        Some (Inr data) \<Rightarrow> (\<exists>r \<in> set data. vl_Index r = i \<and> vl_IsLive r = live)
      | _ \<Rightarrow> False)"

text \<open>
  A stretch of checks of consecutive epochs that report a validator inactive often enough and never
  active.
\<close>

definition watched :: "u64 \<Rightarrow> nat \<Rightarrow> (u64 \<times> (string + ValidatorLiveness list) option) list \<Rightarrow> bool" where
  "watched i n checks \<longleftrightarrow>
     (\<exists>lo. successively (\<lambda>c c'. fst c' = fst c + 1) (drop lo checks) \<and>
           (\<forall>c \<in> set (drop lo checks). \<not> reported i True c) \<and>
           n \<le> length (filter (reported i False) (drop lo checks)))"

definition state_ok :: "dg_event list \<Rightarrow> monitor \<Rightarrow> u64 \<Rightarrow> doppelgangerState \<Rightarrow> bool" where
  "state_ok events h i ds \<longleftrightarrow>
     remainingEpochs ds \<le> 2 \<and> watched i (2 - unat (remainingEpochs ds)) (mon_checks h) \<and>
     (observedQuorum ds \<longrightarrow> DgQuorum i \<in> set events)"

lemma watched_none [simp]: "watched i 0 checks"
  unfolding watched_def by (rule exI [of _ "length checks"]) simp

lemma watched_less: "watched i n checks \<Longrightarrow> m \<le> n \<Longrightarrow> watched i m checks"
  unfolding watched_def by (meson order_trans)

text \<open>A further check of the next epoch that does not report the validator active.\<close>

lemma watched_next:
  assumes "watched i n checks" "checks = [] \<or> fst c = fst (last checks) + 1" "\<not> reported i True c"
  shows "watched i (n + of_bool (reported i False c)) (checks @ [c])"
proof -
  obtain lo where lo: "successively (\<lambda>c c'. fst c' = fst c + 1) (drop lo checks)"
      "\<forall>c \<in> set (drop lo checks). \<not> reported i True c" "n \<le> length (filter (reported i False) (drop lo checks))"
    using assms(1) by (auto simp: watched_def)
  have split: "drop (min lo (length checks)) (checks @ [c]) = drop lo checks @ [c]"
    by (cases "lo \<le> length checks") auto
  have "successively (\<lambda>c c'. fst c' = fst c + 1) (drop lo checks @ [c])"
    using lo(1) assms(2) by (cases "lo < length checks") (auto simp: successively_append_iff)
  then show ?thesis
    unfolding watched_def using lo(2,3) assms(3)
    by (intro exI [of _ "min lo (length checks)"], simp only: split) auto
qed

lemma watched_first:
  assumes "\<not> reported i True c"
  shows "watched i (of_bool (reported i False c)) (checks @ [c])"
  unfolding watched_def using assms by (intro exI [of _ "length checks"]) auto

section \<open>Changes of the map\<close>

definition fresh :: doppelgangerState where
  "fresh = \<lparr>remainingEpochs = initialRemainingDetectionEpochs, observedQuorum = False\<rparr>"

lemma map_of_addTracked: "map_of (addTracked idx m) i =
    (if i = idx \<and> map_of m idx = None then Some fresh else map_of m i)"
  by (auto simp: addTracked_def fresh_def update_conv' split: option.splits)

lemma map_of_fold_addTracked:
  "map_of (fold addTracked idxs m) i = Some ds \<Longrightarrow> map_of m i = Some ds \<or> ds = fresh"
  by (induction idxs arbitrary: m) (fastforce simp: map_of_addTracked split: if_splits)+

lemma map_of_update:
  "map_of (validatorsState (updateDoppelgangerState idxs h)) i = Some ds
     \<Longrightarrow> map_of (validatorsState h) i = Some ds \<or> ds = fresh"
  by (auto simp: updateDoppelgangerState_def map_of_filter_key dest!: map_of_fold_addTracked split: if_splits)

lemma map_of_reset:
  "map_of (validatorsState (resetDoppelgangerStates h)) i =
     map_option resetRemainingEpochs (map_of (validatorsState h) i)"
  by (simp add: resetDoppelgangerStates_def map_of_map)

text \<open>An answer that names each validator at most once moves its state once.\<close>

lemma map_of_processLiveness:
  "map_of (processLiveness r m) i =
     (if i = vl_Index r
      then map_option (\<lambda>ds. if vl_IsLive r then resetRemainingEpochs ds else snd (decreaseRemainingEpochs ds)) (map_of m i)
      else map_of m i)"
  by (auto simp: processLiveness_def update_conv' split: option.splits)

lemma map_of_processLiveness_other:
  "i \<notin> vl_Index ` set data \<Longrightarrow> map_of (fold processLiveness data m) i = map_of m i"
  by (induction data arbitrary: m) (auto simp: map_of_processLiveness)

lemma map_of_processLivenessData:
  assumes "distinct (map vl_Index data)" "map_of (fold processLiveness data m) i = Some ds'"
  obtains (unchanged) "map_of m i = Some ds'" "i \<notin> vl_Index ` set data"
    | (moved) ds r where "map_of m i = Some ds" "r \<in> set data" "vl_Index r = i"
        "ds' = (if vl_IsLive r then resetRemainingEpochs ds else snd (decreaseRemainingEpochs ds))"
proof (cases "i \<in> vl_Index ` set data")
  case True
  then obtain r where "r \<in> set data" and i: "vl_Index r = i"
    by blast
  then obtain xs ys where data: "data = xs @ r # ys"
    by (meson split_list)
  then have "i \<notin> vl_Index ` set xs" "i \<notin> vl_Index ` set ys"
    using assms(1) i by auto
  then show thesis
    using assms(2) moved [of _ r] data i by (auto simp: map_of_processLiveness map_of_processLiveness_other)
qed (use assms(2) unchanged map_of_processLiveness_other in metis)

section \<open>The invariant of the loop\<close>

fun tick_slots :: "dg_event list \<Rightarrow> u64 list" where
  "tick_slots [] = []"
| "tick_slots (DgTick liveness slot shares # evs) = slot # tick_slots evs"
| "tick_slots (_ # evs) = tick_slots evs"

text \<open>The beacon node's answers name a validator at most once.\<close>

fun answers_once :: "dg_event \<Rightarrow> bool" where
  "answers_once (DgTick liveness slot shares) \<longleftrightarrow>
     (\<forall>epoch idxs data. liveness epoch idxs = Inr data \<longrightarrow> distinct (map vl_Index data))"
| "answers_once _ \<longleftrightarrow> True"

definition loop_ok :: "Beacon \<Rightarrow> u64 \<Rightarrow> monitor \<Rightarrow> bool" where
  "loop_ok b t h \<longleftrightarrow>
     mon_beaconConfig h = b \<and>
     (mon_firstRun h \<longrightarrow> mon_startEpoch h = 0 \<and> mon_checks h = [] \<and> mon_previousEpoch h = 0) \<and>
     (\<not> mon_firstRun h \<longrightarrow> 0 < mon_startEpoch h \<and> mon_startEpoch h \<le> t div SlotsPerEpoch b) \<and>
     (mon_checks h \<noteq> [] \<longrightarrow> 0 < mon_previousEpoch h \<and> mon_previousEpoch h = fst (last (mon_checks h)) + 1)"

definition states_ok :: "dg_event list \<Rightarrow> monitor \<Rightarrow> bool" where
  "states_ok events h \<longleftrightarrow> (\<forall>i ds. map_of (validatorsState h) i = Some ds \<longrightarrow> state_ok events h i ds)"

lemma state_ok_more: "state_ok events h i ds \<Longrightarrow> set events \<subseteq> set events' \<Longrightarrow> state_ok events' h i ds"
  by (auto simp: state_ok_def)

lemma states_ok_more: "states_ok events h \<Longrightarrow> set events \<subseteq> set events' \<Longrightarrow> states_ok events' h"
  using state_ok_more unfolding states_ok_def by blast

lemma state_ok_fresh [simp]: "state_ok events h i fresh"
  by (simp add: state_ok_def fresh_def initialRemainingDetectionEpochs_def)

lemma state_ok_reset: "state_ok events h i ds \<Longrightarrow> state_ok events h i (resetRemainingEpochs ds)"
  by (simp add: state_ok_def resetRemainingEpochs_def initialRemainingDetectionEpochs_def)

lemma monitor_states_ok_update:
  assumes "states_ok events h"
  shows "states_ok events (updateDoppelgangerState idxs h)"
  unfolding states_ok_def
proof (intro allI impI)
  fix i ds
  assume "map_of (validatorsState (updateDoppelgangerState idxs h)) i = Some ds"
  then have "state_ok events h i ds"
    using map_of_update assms by (fastforce simp: states_ok_def)
  then show "state_ok events (updateDoppelgangerState idxs h) i ds"
    by (simp add: state_ok_def updateDoppelgangerState_def)
qed

text \<open>One check: the state of a validator after it, from its state before and what was reported.\<close>

definition check_result ::
    "u64 \<Rightarrow> u64 \<times> (string + ValidatorLiveness list) option \<Rightarrow> doppelgangerState \<Rightarrow> doppelgangerState \<Rightarrow> bool" where
  "check_result i c ds ds' \<longleftrightarrow>
     observedQuorum ds' = observedQuorum ds \<and>
     (ds' = resetRemainingEpochs ds \<or>
      \<not> reported i True c \<and>
        (remainingEpochs ds' = remainingEpochs ds \<or>
         reported i False c \<and> remainingEpochs ds \<noteq> 0 \<and> remainingEpochs ds' = remainingEpochs ds - 1))"

lemma checkLiveness_cases:
  assumes "checkLiveness liveness slot epoch h = (r, h')"
    and once: "\<forall>epoch idxs data. liveness epoch idxs = Inr data \<longrightarrow> distinct (map vl_Index data)"
  obtains (panicked) "h' = h" "r = Panic"
    | (checked) c where "r = Ok ()" "fst c = epoch" "h' = h\<lparr>validatorsState := validatorsState h', mon_checks := mon_checks h @ [c]\<rparr>"
        "\<And>i ds'. map_of (validatorsState h') i = Some ds' \<Longrightarrow>
           \<exists>ds. map_of (validatorsState h) i = Some ds \<and> check_result i c ds ds'"
proof (cases "SlotStartTime (mon_beaconConfig h) (slot + 1) :: (string, int) res")
  case (Ok x)
  let ?idxs = "map fst (filter (\<lambda>(_, state). \<not> safe state) (validatorsState h))"
  have run: "(if ?idxs = [] then (Ok (), checked epoch None h)
      else case liveness epoch ?idxs of
             Inl e \<Rightarrow> (Ok (), checked epoch (Some (Inl e)) h)
           | Inr data \<Rightarrow> (Ok (), processLivenessData data (checked epoch (Some (Inr data)) h))) = (r, h')"
    using assms(1) Ok by (simp add: checkLiveness_def Let_def split: sum.splits if_splits)
  show thesis
  proof (cases "?idxs \<noteq> [] \<and> (\<exists>data. liveness epoch ?idxs = Inr data)")
    case True
    then obtain data where data: "liveness epoch ?idxs = Inr data" "?idxs \<noteq> []"
      by blast
    have distinct: "distinct (map vl_Index data)"
      using once data(1) by blast
    let ?c = "(epoch, Some (Inr data) :: (string + ValidatorLiveness list) option)"
    have h': "h' = processLivenessData data (checked epoch (Some (Inr data)) h)" "r = Ok ()"
      using run data by auto
    have "\<exists>ds. map_of (validatorsState h) i = Some ds \<and> check_result i ?c ds ds'"
      if m: "map_of (validatorsState h') i = Some ds'" for i ds'
    proof -
      have "map_of (fold processLiveness data (validatorsState h)) i = Some ds'"
        using m h' by (simp add: processLivenessData_def)
      with distinct show ?thesis
      proof (cases rule: map_of_processLivenessData)
        case unchanged
        then show ?thesis
          by (auto simp: check_result_def reported_def image_iff)
      next
        case (moved ds r)
        have same: "vl_IsLive r' = vl_IsLive r" if "r' \<in> set data" "vl_Index r' = i" for r'
          using distinct moved(2,3) that by (metis distinct_map inj_onD)
        have "reported i live ?c \<longleftrightarrow> (\<exists>r' \<in> set data. vl_Index r' = i \<and> vl_IsLive r' = live)" for live
          by (simp add: reported_def)
        then have "reported i live ?c \<longleftrightarrow> live = vl_IsLive r" for live
          using moved(2,3) same by blast
        then have "check_result i ?c ds ds'"
          using moved(4) by (cases "vl_IsLive r"; cases "remainingEpochs ds = 0")
            (simp_all add: check_result_def decreaseRemainingEpochs_def resetRemainingEpochs_def)
        then show ?thesis
          using moved(1) by blast
      qed
    qed
    then show thesis
      using checked [of ?c] h' by (simp add: processLivenessData_def)
  next
    case False
    then obtain ans where ans: "h' = checked epoch ans h" "r = Ok ()" "\<And>d. ans \<noteq> Some (Inr d)"
      using run by (auto split: if_splits sum.splits)
    then have "check_result i (epoch, ans) ds ds" for i ds
      by (auto simp: check_result_def reported_def split: option.splits sum.splits)
    then show thesis
      using checked [of "(epoch, ans)"] ans by force
  qed
qed (use assms panicked in \<open>auto simp: checkLiveness_def SlotStartTime_def split: if_splits\<close>)

lemma state_ok_check:
  assumes "state_ok events h i ds" "check_result i c ds ds'"
    and next_epoch: "mon_checks h = [] \<or> fst c = fst (last (mon_checks h)) + 1 \<or> remainingEpochs ds = 2"
    and "mon_checks h' = mon_checks h @ [c]"
  shows "state_ok events h' i ds'"
proof -
  let ?n = "2 - unat (remainingEpochs ds)"
  have ok: "remainingEpochs ds \<le> 2" "watched i ?n (mon_checks h)" "observedQuorum ds \<longrightarrow> DgQuorum i \<in> set events"
    using assms(1) by (simp_all add: state_ok_def)
  have q: "observedQuorum ds' = observedQuorum ds"
    using assms(2) by (simp add: check_result_def)
  show ?thesis
  proof (cases "ds' = resetRemainingEpochs ds")
    case True
    then show ?thesis
      using ok(3) by (simp add: state_ok_def resetRemainingEpochs_def initialRemainingDetectionEpochs_def)
  next
    case False
    then have live: "\<not> reported i True c"
      and rem: "remainingEpochs ds' = remainingEpochs ds \<or>
        reported i False c \<and> remainingEpochs ds \<noteq> 0 \<and> remainingEpochs ds' = remainingEpochs ds - 1"
      using assms(2) by (auto simp: check_result_def)
    have more: "watched i (?n + of_bool (reported i False c)) (mon_checks h')"
      using next_epoch watched_next [OF ok(2) _ live] watched_first [OF live, of "mon_checks h"] assms(4)
      by fastforce
    have "remainingEpochs ds' \<le> 2 \<and> 2 - unat (remainingEpochs ds') \<le> ?n + of_bool (reported i False c)"
      using rem ok(1) unat_minus_one [of "remainingEpochs ds"] by (auto simp: word_le_nat_alt)
    then show ?thesis
      using ok(3) q watched_less [OF more] by (auto simp: state_ok_def)
  qed
qed

lemma loop_ok_time:
  assumes "t \<le> t'" "loop_ok b t h"
  shows "loop_ok b t' h"
proof -
  have "t div SlotsPerEpoch b \<le> t' div SlotsPerEpoch b"
    using assms(1) by (simp add: word_le_nat_alt unat_div div_le_mono)
  then show ?thesis
    using assms(2) by (auto simp: loop_ok_def intro: order_trans)
qed

text \<open>The part of a tick that checks an epoch: the gap check, the request and its answer.\<close>

lemma checkEpoch_inv:
  assumes once: "\<forall>epoch idxs data. liveness epoch idxs = Inr data \<longrightarrow> distinct (map vl_Index data)"
    and loop: "loop_ok b t h" and states: "states_ok events h" and run: "\<not> mon_firstRun h" "0 < cur"
    and g: "g = (if mon_previousEpoch h > 0 \<and> cur \<noteq> mon_previousEpoch h + 1 then resetDoppelgangerStates h else h)"
    and chk: "checkLiveness liveness slot (cur - 1) g = (r, h')"
  shows "loop_ok b t (if r = Panic then h' else h'\<lparr>mon_previousEpoch := cur\<rparr>)"
    and "states_ok events (if r = Panic then h' else h'\<lparr>mon_previousEpoch := cur\<rparr>)"
proof -
  have g_simps: "mon_checks g = mon_checks h" "mon_beaconConfig g = mon_beaconConfig h"
      "mon_startEpoch g = mon_startEpoch h" "mon_firstRun g = mon_firstRun h" "mon_previousEpoch g = mon_previousEpoch h"
    by (simp_all add: g resetDoppelgangerStates_def)
  have g_loop: "loop_ok b t g"
    using loop unfolding loop_ok_def g_simps .
  have g_state: "state_ok events g i ds \<and>
      (mon_checks g = [] \<or> cur - 1 = fst (last (mon_checks g)) + 1 \<or> remainingEpochs ds = 2)"
    if m: "map_of (validatorsState g) i = Some ds" for i ds
  proof (cases "mon_previousEpoch h > 0 \<and> cur \<noteq> mon_previousEpoch h + 1")
    case True
    then obtain ds0 where "map_of (validatorsState h) i = Some ds0" "ds = resetRemainingEpochs ds0"
      using m by (auto simp: g map_of_reset)
    then show ?thesis
      using states state_ok_reset [of events h i ds0] g_simps(1)
      by (simp add: states_ok_def state_ok_def resetRemainingEpochs_def initialRemainingDetectionEpochs_def)
  next
    case False
    then show ?thesis
      using m states loop by (auto simp: g states_ok_def loop_ok_def)
  qed
  have g_states: "states_ok events g"
    using g_state by (simp add: states_ok_def)
  have both: "loop_ok b t (if r = Panic then h' else h'\<lparr>mon_previousEpoch := cur\<rparr>) \<and>
      states_ok events (if r = Panic then h' else h'\<lparr>mon_previousEpoch := cur\<rparr>)"
    using chk once
  proof (cases rule: checkLiveness_cases)
    case (checked c)
    have h'_simps: "mon_checks h' = mon_checks g @ [c]" "mon_beaconConfig h' = mon_beaconConfig g"
        "mon_firstRun h' = mon_firstRun g" "mon_startEpoch h' = mon_startEpoch g"
      using arg_cong [OF checked(3), of mon_checks] arg_cong [OF checked(3), of mon_beaconConfig]
        arg_cong [OF checked(3), of mon_firstRun] arg_cong [OF checked(3), of mon_startEpoch] by simp_all
    have "state_ok events (h'\<lparr>mon_previousEpoch := cur\<rparr>) i ds'" if m: "map_of (validatorsState h') i = Some ds'" for i ds'
    proof -
      obtain ds where ds: "map_of (validatorsState g) i = Some ds" "check_result i c ds ds'"
        using checked(4) [OF m] by blast
      have "state_ok events g i ds"
        using g_state [OF ds(1)] by (rule conjunct1)
      moreover have "mon_checks g = [] \<or> fst c = fst (last (mon_checks g)) + 1 \<or> remainingEpochs ds = 2"
        unfolding checked(2) using g_state [OF ds(1)] by (rule conjunct2)
      moreover have "mon_checks (h'\<lparr>mon_previousEpoch := cur\<rparr>) = mon_checks g @ [c]"
        using h'_simps(1) by simp
      ultimately show ?thesis
        by (rule state_ok_check [OF _ ds(2)])
    qed
    then have "states_ok events (h'\<lparr>mon_previousEpoch := cur\<rparr>)"
      by (simp add: states_ok_def)
    moreover have "mon_beaconConfig h' = b" "\<not> mon_firstRun h'" "0 < mon_startEpoch h'"
        "mon_startEpoch h' \<le> t div SlotsPerEpoch b"
      using g_loop run g_simps(4) h'_simps(2-4) by (auto simp: loop_ok_def)
    then have "loop_ok b t (h'\<lparr>mon_previousEpoch := cur\<rparr>)"
      using checked(2) run(2) h'_simps(1) by (simp add: loop_ok_def)
    ultimately show ?thesis
      using checked(1) by simp
  qed (use g_loop g_states in simp)
  then show "loop_ok b t (if r = Panic then h' else h'\<lparr>mon_previousEpoch := cur\<rparr>)"
      "states_ok events (if r = Panic then h' else h'\<lparr>mon_previousEpoch := cur\<rparr>)"
    by blast+
qed

lemma onTick_inv:
  assumes once: "\<forall>epoch idxs data. liveness epoch idxs = Inr data \<longrightarrow> distinct (map vl_Index data)"
    and loop: "loop_ok b t h" and states: "states_ok events h" and le: "t \<le> slot"
  shows "loop_ok b slot (snd (onTick liveness slot shares h)) \<and> states_ok events (snd (onTick liveness slot shares h))"
proof (cases "SlotsPerEpoch b = 0")
  case True
  then show ?thesis
    using loop_ok_time [OF le loop] states loop
    by (simp add: onTick_def EstimatedEpochAtSlot_def u64_div_def loop_ok_def)
next
  case False
  let ?cur = "slot div SlotsPerEpoch b"
  let ?h1 = "updateDoppelgangerState (map sh_ValidatorIndex shares) h"
  let ?h2 = "if mon_firstRun ?h1 then ?h1\<lparr>mon_startEpoch := ?cur, mon_firstRun := False\<rparr> else ?h1"
  let ?skip = "\<not> mon_firstRun ?h1 \<and> slot mod SlotsPerEpoch b \<noteq> SlotsPerEpoch b - 1 \<or> mon_startEpoch ?h1 = ?cur"
  have b: "mon_beaconConfig h = b"
    using loop by (simp add: loop_ok_def)
  have "loop_ok b slot ?h1"
    using loop_ok_time [OF le loop] by (auto simp: loop_ok_def updateDoppelgangerState_def)
  note one = this monitor_states_ok_update [OF states, of "map sh_ValidatorIndex shares"]
  show ?thesis
  proof (cases ?skip)
    case True
    then have "snd (onTick liveness slot shares h) = ?h1"
      using b False by (simp add: onTick_def Let_def updateDoppelgangerState_def)
    then show ?thesis
      using one by simp
  next
    case go: False
    have pos: "0 < ?cur"
      using go one(1) by (cases "mon_firstRun ?h1") (auto simp: loop_ok_def word_gt_0)
    have two: "loop_ok b slot ?h2" "states_ok events ?h2" "\<not> mon_firstRun ?h2"
      using one pos by (auto simp: loop_ok_def states_ok_def state_ok_def)
    define g where "g = (if mon_previousEpoch ?h2 > 0 \<and> ?cur \<noteq> mon_previousEpoch ?h2 + 1
                         then resetDoppelgangerStates ?h2 else ?h2)"
    obtain r h' where chk: "checkLiveness liveness slot (?cur - 1) g = (r, h')"
      by fastforce
    have "snd (onTick liveness slot shares h) = (if r = Panic then h' else h'\<lparr>mon_previousEpoch := ?cur\<rparr>)"
    proof -
      have "r \<noteq> Err e" for e
        using chk by (auto simp: checkLiveness_def SlotStartTime_def Let_def split: if_splits sum.splits)
      moreover have "onTick liveness slot shares h = checkEpoch liveness slot ?cur ?h1"
        unfolding onTick_def b EstimatedEpochAtSlot_Ok [OF False] bind_st.simps Let_def
        by (rule if_not_P [OF go])
      moreover have "\<dots> = bind_st (checkLiveness liveness slot (?cur - 1) g) (\<lambda>_ h. (Ok (), h\<lparr>mon_previousEpoch := ?cur\<rparr>))"
        by (simp only: checkEpoch_def Let_def g_def)
      ultimately show ?thesis
        using chk by (cases r) auto
    qed
    then show ?thesis
      using checkEpoch_inv [OF once two(1,2) two(3) pos g_def chk] by simp
  qed
qed

lemma ReportQuorum_inv:
  assumes "states_ok events h"
  shows "states_ok (events @ [DgQuorum i]) (ReportQuorum i h)"
  unfolding states_ok_def
proof (intro allI impI)
  fix j ds
  assume j: "map_of (validatorsState (ReportQuorum i h)) j = Some ds"
  have same: "mon_checks (ReportQuorum i h) = mon_checks h"
    by (simp add: ReportQuorum_def split: option.split)
  obtain ds0 where "map_of (validatorsState h) j = Some ds0"
      "remainingEpochs ds = remainingEpochs ds0" "observedQuorum ds \<longrightarrow> observedQuorum ds0 \<or> j = i"
    using j by (auto simp: ReportQuorum_def update_conv' split: option.splits if_splits)
  then show "state_ok (events @ [DgQuorum i]) (ReportQuorum i h) j ds"
    using assms same by (auto simp: states_ok_def state_ok_def)
qed

lemma RemoveValidatorState_inv:
  assumes "states_ok events h"
  shows "states_ok events (RemoveValidatorState i h)"
  using assms
  by (auto simp: states_ok_def state_ok_def RemoveValidatorState_def delete_conv' split: option.splits if_splits)

lemma dg_run_inv:
  assumes "loop_ok b t h" "states_ok past h" "sorted (t # tick_slots events)" "\<forall>ev \<in> set events. answers_once ev"
  shows "states_ok (past @ events) (dg_run events h)"
  using assms
proof (induction events arbitrary: t h past)
  case (Cons ev events)
  let ?h = "dg_step ev h"
  obtain t' where "loop_ok b t' ?h" "sorted (t' # tick_slots events)"
  proof (cases ev)
    case (DgTick liveness slot shares)
    then show thesis
      using Cons.prems onTick_inv [of liveness b t h past slot shares] by (intro that [of slot]) auto
  next
    case (DgQuorum i)
    then show thesis
      using Cons.prems by (intro that [of t]) (auto simp: loop_ok_def ReportQuorum_def split: option.splits)
  next
    case (DgRemove i)
    then show thesis
      using Cons.prems by (intro that [of t]) (auto simp: loop_ok_def RemoveValidatorState_def split: option.splits)
  qed
  moreover have "states_ok (past @ [ev]) ?h"
  proof (cases ev)
    case (DgTick liveness slot shares)
    then have "states_ok past ?h"
      using Cons.prems onTick_inv [of liveness b t h past slot shares] by auto
    then show ?thesis
      by (rule states_ok_more) auto
  next
    case (DgQuorum i)
    then show ?thesis
      using Cons.prems(2) ReportQuorum_inv by simp
  next
    case (DgRemove i)
    then have "states_ok past ?h"
      using Cons.prems(2) RemoveValidatorState_inv by simp
    then show ?thesis
      by (rule states_ok_more) auto
  qed
  ultimately show ?case
    using Cons.IH [of t' ?h "past @ [ev]"] Cons.prems(4) by (simp add: dg_run_def)
qed (simp add: dg_run_def)

section \<open>Signing only when it is safe\<close>

lemma observedQuorum_moves [simp]:
  "observedQuorum (resetRemainingEpochs ds) = observedQuorum ds"
  "observedQuorum (snd (decreaseRemainingEpochs ds)) = observedQuorum ds"
  by (simp_all add: resetRemainingEpochs_def decreaseRemainingEpochs_def)

definition observed :: "u64 \<Rightarrow> (u64 \<times> doppelgangerState) list \<Rightarrow> bool" where
  "observed i m \<longleftrightarrow> (\<exists>ds. map_of m i = Some ds \<and> observedQuorum ds)"

lemma observed_kept:
  "observed i m \<Longrightarrow> observed i (fold addTracked idxs m)"
  "observed i m \<Longrightarrow> observed i (fold processLiveness data m)"
  "observed i m \<Longrightarrow> observed i (map (\<lambda>(idx, state). (idx, resetRemainingEpochs state)) m)"
  "observed i m \<Longrightarrow> P i \<Longrightarrow> observed i (filter (\<lambda>(idx, _). P idx) m)"
proof -
  have "observed i m \<Longrightarrow> observed i (addTracked idx m)" for idx m
    by (auto simp: observed_def map_of_addTracked)
  then show "observed i m \<Longrightarrow> observed i (fold addTracked idxs m)"
    by (induction idxs arbitrary: m) simp_all
  have "observed i m \<Longrightarrow> observed i (processLiveness r m)" for r m
    by (cases "vl_IsLive r") (auto simp: observed_def map_of_processLiveness)
  then show "observed i m \<Longrightarrow> observed i (fold processLiveness data m)"
    by (induction data arbitrary: m) simp_all
qed (auto simp: observed_def map_of_map map_of_filter_key)

lemma onTick_observed:
  assumes "observed i (validatorsState h)" "i \<in> sh_ValidatorIndex ` set shares"
  shows "observed i (validatorsState (snd (onTick liveness slot shares h)))"
proof -
  have "observed i (validatorsState (updateDoppelgangerState (map sh_ValidatorIndex shares) h))"
    using assms by (simp add: updateDoppelgangerState_def observed_kept)
  moreover have "observed i (validatorsState (snd (checkLiveness liveness slot e g)))"
    if "observed i (validatorsState g)" for e g
    using that observed_kept(2)
    by (auto simp: checkLiveness_def bind_st_eq Let_def processLivenessData_def split: res.split sum.split)
  moreover have "observed i (validatorsState (resetDoppelgangerStates g))" if "observed i (validatorsState g)" for g
    using that observed_kept(3) by (simp add: resetDoppelgangerStates_def)
  ultimately show ?thesis
    using assms(1) unfolding onTick_def checkEpoch_def bind_st_eq Let_def by (simp split: res.split)
qed

definition demo_tick :: "bool \<Rightarrow> u64 \<Rightarrow> dg_event" where
  "demo_tick live slot =
     DgTick (\<lambda>_ idxs. Inr (map (\<lambda>i. \<lparr>vl_Index = i, vl_IsLive = live\<rparr>) (remdups idxs))) slot [demo_share [1, 2, 3, 4]]"

lemma demo_tick_once [simp]: "answers_once (demo_tick live slot)"
  by (simp add: demo_tick_def comp_def)

lemma demo_dg_run:
  "CanSign (dg_run [demo_tick False 70, demo_tick False 127] (NewHandler demo_Beacon))
           (sh_ValidatorIndex (demo_share [1, 2, 3, 4]))"
  "\<not> CanSign (dg_run [demo_tick False 70, demo_tick True 127] (NewHandler demo_Beacon))
             (sh_ValidatorIndex (demo_share [1, 2, 3, 4]))"
  by code_simp+

text \<open>
  C19: a validator that may sign was either reported to have a quorum of its committee, or stayed
  silent: its states go back to a stretch of checks of consecutive epochs in which the beacon node
  reported it inactive in at least two of them and active in none. No epoch is skipped inside the
  stretch, however the ticks, the answers of the beacon node, the quorum reports and the removals
  interleave.
\<close>

theorem signing_needs_silence:
  assumes "sorted (tick_slots events)" "\<forall>ev \<in> set events. answers_once ev"
    and "CanSign (dg_run events (NewHandler b)) i"
  shows "DgQuorum i \<in> set events \<or> watched i 2 (mon_checks (dg_run events (NewHandler b)))"
proof -
  have "states_ok ([] @ events) (dg_run events (NewHandler b))"
    using assms(1,2) by (intro dg_run_inv [where t = 0 and b = b])
      (simp_all add: loop_ok_def states_ok_def NewHandler_def)
  moreover obtain ds where "map_of (validatorsState (dg_run events (NewHandler b))) i = Some ds" "safe ds"
    using assms(3) by (auto simp: CanSign_def split: option.splits)
  ultimately have "state_ok events (dg_run events (NewHandler b)) i ds" "safe ds"
    by (simp_all add: states_ok_def)
  then show ?thesis
    by (auto simp: state_ok_def safe_def)
qed

theorem signing_needs_silence_witness:
  "watched (sh_ValidatorIndex (demo_share [1, 2, 3, 4])) 2
     (mon_checks (dg_run [demo_tick False 70, demo_tick False 127] (NewHandler demo_Beacon)))"
  using signing_needs_silence [OF _ _ demo_dg_run(1)] by (simp add: demo_tick_def comp_def)



end
