(* ===== verification/Runner_Base.thy ===== *)
theory Runner_Base
  imports Beacon_Types Partial_Sigs Qbft_Controller "HOL-Library.List_Lexorder"
begin

text \<open>
  The part of the duty runners they all share: \<open>protocol/v2/ssv/runner/runner.go\<close>, \<open>runner_state.go\<close>,
  \<open>runner_validations.go\<close>, \<open>runner_signatures.go\<close> and \<open>type_assertions.go\<close>. A runner of the source embeds
  a \<open>BaseRunner\<close>; here it is a record that extends \<open>BaseRunner\<close>, and the methods of the base are
  polymorphic in the extension. What the base calls of the runner around it (the Go interface
  \<open>Runner\<close>) is the argument \<open>I\<close>, the specification package the argument \<open>X\<close>, and what a call meets
  outside (clock, beacon node, signers, network) the argument \<open>E\<close>.
\<close>

section \<open>Duties\<close>

record ValidatorDuty =
  vd_Slot :: u64
  vd_ValidatorIndex :: u64
  vd_PubKey :: bytes
  vd_CommitteeIndex :: u64
  vd_CommitteeLength :: u64

record CommitteeDuty =
  cd_Slot :: u64
  cd_ValidatorDuties :: "ValidatorDuty list"

text \<open>A value of the interface \<open>spectypes.Duty\<close>; the pointer inside it may be nil.\<close>

datatype Duty =
    ValidatorDutyPtr "ValidatorDuty option"
  | CommitteeDutyPtr "CommitteeDuty option"
  | AggregatorCommitteeDutyPtr "CommitteeDuty option"

fun DutySlot :: "Duty \<Rightarrow> ('e, u64) res" where
  "DutySlot (ValidatorDutyPtr d) = bind_res (deref d) (\<lambda>d. Ok (vd_Slot d))"
| "DutySlot (CommitteeDutyPtr d) = bind_res (deref d) (\<lambda>d. Ok (cd_Slot d))"
| "DutySlot (AggregatorCommitteeDutyPtr d) = bind_res (deref d) (\<lambda>d. Ok (cd_Slot d))"

fun validatorDutyFromDuty :: "Duty option \<Rightarrow> (run_err, ValidatorDuty) res" where
  "validatorDutyFromDuty None = Err (RPlain ''duty is nil'')"
| "validatorDutyFromDuty (Some (ValidatorDutyPtr None)) = Err (RPlain ''validator duty is nil'')"
| "validatorDutyFromDuty (Some (ValidatorDutyPtr (Some d))) = Ok d"
| "validatorDutyFromDuty (Some _) = Err (RPlain ''duty is not a ValidatorDuty'')"

fun committeeDutyFromDuty :: "Duty option \<Rightarrow> (run_err, CommitteeDuty) res" where
  "committeeDutyFromDuty None = Err (RPlain ''duty is nil'')"
| "committeeDutyFromDuty (Some (CommitteeDutyPtr None)) = Err (RPlain ''committee duty is nil'')"
| "committeeDutyFromDuty (Some (CommitteeDutyPtr (Some d))) = Ok d"
| "committeeDutyFromDuty (Some _) = Err (RPlain ''duty is not a CommitteeDuty'')"

section \<open>State\<close>

text \<open>
  \<open>rs_RunningInstance\<close> is the running instance as it was before the last call of the controller. The
  source keeps a pointer to an entry of the controller's container, see \<open>runningInstance\<close> below.
\<close>

record 'c RunnerState =
  rs_PreConsensusContainer :: PartialSigContainer
  rs_PostConsensusContainer :: PartialSigContainer
  rs_RunningInstance :: "'c Instance option"
  rs_DecidedValue :: bytes
  rs_CurrentDuty :: Duty
  rs_Succeeded :: bool

definition NewRunnerState :: "u64 \<Rightarrow> Duty \<Rightarrow> 'c RunnerState" where
  "NewRunnerState quorum duty =
     \<lparr>rs_PreConsensusContainer = NewPartialSigContainer quorum,
      rs_PostConsensusContainer = NewPartialSigContainer quorum,
      rs_RunningInstance = None, rs_DecidedValue = [], rs_CurrentDuty = duty, rs_Succeeded = False\<rparr>"

datatype dutyOutcome =
    dutyOutcomeSucceeded | dutyOutcomeNotRequired | dutyOutcomeFailed | dutyOutcomeStuck | dutyOutcomeNoQuorum

record dutyConclusion =
  dc_outcome :: dutyOutcome
  dc_reason :: "run_err option"

text \<open>
  \<open>br_dutyConcluded\<close> tells whether the channel field of that name is set; \<open>br_concluded\<close> is what was
  sent to the watcher of the current duty, \<open>br_dutyFailureNoted\<close> the other channel (\<open>None\<close> if nil) with
  its buffered value, and \<open>br_deadline\<close> the deadline of the watcher. \<open>br_sent\<close> lists the messages handed
  to the network.
\<close>

record 'c BaseRunner =
  br_State :: "'c RunnerState option"
  br_Share :: "(u64 \<times> RunnerShare) list"
  br_QBFTController :: "'c Controller option"
  br_NetworkConfig :: Network
  br_Role :: RunnerRole
  br_roundTimerF :: "u64 \<Rightarrow> RoundTimer"
  br_dutyConcluded :: bool
  br_concluded :: "dutyConclusion list"
  br_dutyFailureNoted :: "run_err option option"
  br_deadline :: int
  br_deadlineOutcome :: dutyOutcome
  br_highestDecidedSlot :: u64
  br_sent :: "(SignedSSVMessage \<times> u64) list"

type_synonym ('c, 'm, 'a) rhandler = "(run_err, 'a) res \<times> ('c, 'm) BaseRunner_scheme"

definition upd_RunnerState ::
    "('c RunnerState \<Rightarrow> 'c RunnerState) \<Rightarrow> ('c, 'm) BaseRunner_scheme \<Rightarrow> ('c, 'm) BaseRunner_scheme" where
  "upd_RunnerState f b = b\<lparr>br_State := map_option f (br_State b)\<rparr>"

section \<open>What is used of the specification package and the surroundings\<close>

record 'o runnerspec =
  x_ValidatePartialSigs :: "PartialSignatureMessages \<Rightarrow> string option"
  x_EncodePartialSigs :: "PartialSignatureMessages \<Rightarrow> string + bytes"
  x_NewValidatorMsgID :: "bytes \<Rightarrow> bytes \<Rightarrow> RunnerRole \<Rightarrow> bytes"
  x_ComputeETHSigningRoot :: "'o \<Rightarrow> bytes \<Rightarrow> string + root"
  x_DecodeMessage :: "bytes \<Rightarrow> string + Message"
  x_DecodeBeaconVote :: "bytes \<Rightarrow> string option"
  x_DecodeGloasBeaconVote :: "bytes \<Rightarrow> string option"
  x_DecodeAggregatorCommittee :: "bytes \<Rightarrow> string option"
  x_OperatorID :: OperatorID

record 'o renv =
  re_qbft :: env
  re_DomainData :: "u64 \<Rightarrow> SigDomain \<Rightarrow> run_err + bytes"
  re_SignBeaconObject :: "'o \<Rightarrow> bytes \<Rightarrow> bytes \<Rightarrow> u64 \<Rightarrow> SigDomain \<Rightarrow> run_err + bytes \<times> root"

record 'o PostConsensusRoot =
  pr_Root :: 'o
  pr_Domain :: SigDomain
  pr_Optional :: bool

text \<open>
  The methods of the interface \<open>Runner\<close> that the base calls, and \<open>awaitingEnvelope\<close> of the proposer,
  false for every other runner.
\<close>

record ('c, 'm, 'o) runnerI =
  ri_expectedPre :: "('c, 'm) BaseRunner_scheme \<Rightarrow> (run_err, 'o list \<times> SigDomain) res"
  ri_expectedPost :: "('c, 'm) BaseRunner_scheme \<Rightarrow> (run_err, 'o PostConsensusRoot list) res"
  ri_awaitingEnvelope :: "('c, 'm) BaseRunner_scheme \<Rightarrow> bool"

definition singleDomainPostConsensusRoots :: "SigDomain \<Rightarrow> 'o list \<Rightarrow> 'o PostConsensusRoot list" where
  "singleDomainPostConsensusRoots domain roots =
     map (\<lambda>root. \<lparr>pr_Root = root, pr_Domain = domain, pr_Optional = False\<rparr>) roots"

section \<open>The running instance\<close>

text \<open>
  The instance a runner started stays in the container of its controller until instances of greater
  heights push it out; it is not admitted again, and no call of the controller changes an instance it
  does not keep. So the pointer refers to the entry of its height while there is one, and to the
  value it last had there afterwards.
\<close>

definition runningInstance :: "('c, 'm) BaseRunner_scheme \<Rightarrow> 'c Instance option" where
  "runningInstance b =
     (case br_State b of
        None \<Rightarrow> None
      | Some s \<Rightarrow>
          (case rs_RunningInstance s of
             None \<Rightarrow> None
           | Some inst \<Rightarrow>
               (case br_QBFTController b of
                  None \<Rightarrow> Some inst
                | Some ctl \<Rightarrow>
                    (case FindInstance (ctl_RecentInstances ctl) (GetHeight inst) of
                       Some current \<Rightarrow> Some current
                     | None \<Rightarrow> Some inst))))"

text \<open>Storing the controller after a call.\<close>

definition withController :: "('c, 'm) BaseRunner_scheme \<Rightarrow> 'c Controller \<Rightarrow> ('c, 'm) BaseRunner_scheme" where
  "withController b ctl =
     (upd_RunnerState (\<lambda>s. s\<lparr>rs_RunningInstance := runningInstance b\<rparr>) b)\<lparr>br_QBFTController := Some ctl\<rparr>"

section \<open>Getters\<close>

definition hasDutyAssigned :: "('c, 'm) BaseRunner_scheme \<Rightarrow> bool" where
  "hasDutyAssigned b \<longleftrightarrow> br_State b \<noteq> None"

definition hasDutyRunning :: "('c, 'm) BaseRunner_scheme \<Rightarrow> bool" where
  "hasDutyRunning b \<longleftrightarrow> (case br_State b of None \<Rightarrow> False | Some s \<Rightarrow> \<not> rs_Succeeded s)"

definition hasDutySucceeded :: "('c, 'm) BaseRunner_scheme \<Rightarrow> bool" where
  "hasDutySucceeded b \<longleftrightarrow> (case br_State b of None \<Rightarrow> False | Some s \<Rightarrow> rs_Succeeded s)"

definition HasRunningDuty :: "('c, 'm) BaseRunner_scheme \<Rightarrow> bool" where
  "HasRunningDuty b = hasDutyRunning b"

definition HasStartedQBFTInstance :: "('c, 'm) BaseRunner_scheme \<Rightarrow> bool" where
  "HasStartedQBFTInstance b \<longleftrightarrow> hasDutyAssigned b \<and> runningInstance b \<noteq> None"

definition HasRunningQBFTInstance :: "('c, 'm) BaseRunner_scheme \<Rightarrow> bool" where
  "HasRunningQBFTInstance b \<longleftrightarrow> hasDutyRunning b \<and>
     (case runningInstance b of None \<Rightarrow> False | Some inst \<Rightarrow> \<not> st_Decided (i_State inst))"

definition HasAcceptedProposalForCurrentRound :: "('c, 'm) BaseRunner_scheme \<Rightarrow> bool" where
  "HasAcceptedProposalForCurrentRound b \<longleftrightarrow> hasDutyRunning b \<and>
     (case runningInstance b of None \<Rightarrow> False
      | Some inst \<Rightarrow> st_ProposalAcceptedForCurrentRound (i_State inst) \<noteq> None)"

definition CurrentDutySlot :: "('c, 'm) BaseRunner_scheme \<Rightarrow> ('e, u64 \<times> bool) res" where
  "CurrentDutySlot b =
     (case br_State b of
        None \<Rightarrow> Ok (0, False)
      | Some s \<Rightarrow> bind_res (DutySlot (rs_CurrentDuty s)) (\<lambda>slot. Ok (slot, True)))"

definition GetShare :: "('c, 'm) BaseRunner_scheme \<Rightarrow> RunnerShare option" where
  "GetShare b = (case br_Share b of [] \<Rightarrow> None | (_, share) # _ \<Rightarrow> Some share)"

definition GetLastHeight :: "('c, 'm) BaseRunner_scheme \<Rightarrow> Height" where
  "GetLastHeight b = (case br_QBFTController b of None \<Rightarrow> 0 | Some ctl \<Rightarrow> ctl_LatestInstanceHeight ctl)"

definition GetLastRound :: "('c, 'm) BaseRunner_scheme \<Rightarrow> Round" where
  "GetLastRound b =
     (if hasDutyRunning b
      then (case runningInstance b of Some inst \<Rightarrow> st_Round (i_State inst) | None \<Rightarrow> 1) else 1)"

definition currentValidatorDuty :: "('c, 'm) BaseRunner_scheme \<Rightarrow> (run_err, ValidatorDuty) res" where
  "currentValidatorDuty b =
     (case br_State b of
        None \<Rightarrow> Err (RPlain ''no current duty assigned'')
      | Some s \<Rightarrow> validatorDutyFromDuty (Some (rs_CurrentDuty s)))"

definition currentCommitteeDuty :: "('c, 'm) BaseRunner_scheme \<Rightarrow> (run_err, CommitteeDuty) res" where
  "currentCommitteeDuty b =
     (case br_State b of
        None \<Rightarrow> Err (RPlain ''no current duty assigned'')
      | Some s \<Rightarrow> committeeDutyFromDuty (Some (rs_CurrentDuty s)))"

definition currentDutySlot :: "('c, 'm) BaseRunner_scheme \<Rightarrow> (run_err, u64) res" where
  "currentDutySlot b =
     (case br_State b of
        None \<Rightarrow> Err (RPlain ''no current duty assigned'')
      | Some s \<Rightarrow>
          (case rs_CurrentDuty s of
             ValidatorDutyPtr None \<Rightarrow> Err (RPlain ''validator duty is nil'')
           | ValidatorDutyPtr (Some d) \<Rightarrow> Ok (vd_Slot d)
           | CommitteeDutyPtr None \<Rightarrow> Err (RPlain ''committee duty is nil'')
           | CommitteeDutyPtr (Some d) \<Rightarrow> Ok (cd_Slot d)
           | AggregatorCommitteeDutyPtr None \<Rightarrow> Err (RPlain ''aggregator committee duty is nil'')
           | AggregatorCommitteeDutyPtr (Some d) \<Rightarrow> Ok (cd_Slot d)))"

section \<open>Outcome of a duty\<close>

definition concludeDuty :: "dutyOutcome \<Rightarrow> run_err option \<Rightarrow> ('c, 'm) BaseRunner_scheme \<Rightarrow> ('c, 'm) BaseRunner_scheme" where
  "concludeDuty outcome reason b =
     (if br_dutyConcluded b
      then b\<lparr>br_concluded := br_concluded b @ [\<lparr>dc_outcome = outcome, dc_reason = reason\<rparr>], br_dutyConcluded := False\<rparr>
      else b)"

definition markDutySucceeded :: "('c, 'm) BaseRunner_scheme \<Rightarrow> ('c, 'm) BaseRunner_scheme" where
  "markDutySucceeded b = concludeDuty dutyOutcomeSucceeded None (upd_RunnerState (\<lambda>s. s\<lparr>rs_Succeeded := True\<rparr>) b)"

definition markDutyNotRequired :: "('c, 'm) BaseRunner_scheme \<Rightarrow> ('c, 'm) BaseRunner_scheme" where
  "markDutyNotRequired b = concludeDuty dutyOutcomeNotRequired None (upd_RunnerState (\<lambda>s. s\<lparr>rs_Succeeded := True\<rparr>) b)"

definition markDutyFailed :: "run_err \<Rightarrow> ('c, 'm) BaseRunner_scheme \<Rightarrow> ('c, 'm) BaseRunner_scheme" where
  "markDutyFailed reason b = (if error_is RCanceled reason then b else concludeDuty dutyOutcomeFailed (Some reason) b)"

definition noteDutyFailure :: "run_err \<Rightarrow> ('c, 'm) BaseRunner_scheme \<Rightarrow> ('c, 'm) BaseRunner_scheme" where
  "noteDutyFailure reason b =
     (if error_is RCanceled reason then b
      else if br_dutyFailureNoted b = Some None then b\<lparr>br_dutyFailureNoted := Some (Some reason)\<rparr> else b)"

definition maxGossipClockDisparity :: int where "maxGossipClockDisparity = 500 * 1000000"

definition dutyOutcomeDeadline :: "'o renv \<Rightarrow> ('c, 'm) BaseRunner_scheme \<Rightarrow> (run_err, int) res" where
  "dutyOutcomeDeadline E b =
     (let beacon = nw_Beacon (br_NetworkConfig b)
      in bind_res (EstimatedCurrentSlot beacon (e_now (re_qbft E))) (\<lambda>current.
         bind_res (SlotStartTime beacon (current + 1)) (\<lambda>deadline.
         case br_State b of
           None \<Rightarrow> Ok deadline
         | Some s \<Rightarrow>
             if br_Role b = RoleProposerPreferences
             then bind_res (DutySlot (rs_CurrentDuty s)) (\<lambda>slot.
                  bind_res (SlotStartTime beacon slot) (\<lambda>d. Ok (max d deadline)))
             else if br_Role b = RolePTCAttester
             then bind_res (DutySlot (rs_CurrentDuty s)) (\<lambda>slot.
                  bind_res (SlotStartTime beacon (slot + 1)) (\<lambda>d. Ok (max (d + maxGossipClockDisparity) deadline)))
             else Ok deadline)))"

definition watchDutyOutcome :: "'o renv \<Rightarrow> ('c, 'm) BaseRunner_scheme \<Rightarrow> ('c, 'm, unit) rhandler" where
  "watchDutyOutcome E b =
     (let b = b\<lparr>br_dutyConcluded := True, br_concluded := [], br_dutyFailureNoted := Some None\<rparr>
      in bind_st (dutyOutcomeDeadline E b, b) (\<lambda>deadline b.
           (Ok (), b\<lparr>br_deadline := deadline,
              br_deadlineOutcome := (if br_Role b = RolePTCAttester then dutyOutcomeNoQuorum else dutyOutcomeStuck)\<rparr>)))"

text \<open>What the watcher of the current duty reports when its deadline has come.\<close>

definition reportAtDeadline :: "('c, 'm) BaseRunner_scheme \<Rightarrow> dutyConclusion" where
  "reportAtDeadline b =
     (case br_concluded b of
        c # _ \<Rightarrow> c
      | [] \<Rightarrow>
          (case br_dutyFailureNoted b of
             Some (Some reason) \<Rightarrow> \<lparr>dc_outcome = dutyOutcomeFailed, dc_reason = Some reason\<rparr>
           | _ \<Rightarrow> \<lparr>dc_outcome = br_deadlineOutcome b, dc_reason = None\<rparr>))"

section \<open>Signing and broadcasting\<close>

definition signAsValidator ::
    "'o runnerspec \<Rightarrow> 'o renv \<Rightarrow> ('c, 'm) BaseRunner_scheme \<Rightarrow> u64 \<Rightarrow> 'o \<Rightarrow> u64 \<Rightarrow> SigDomain \<Rightarrow> bytes
       \<Rightarrow> (run_err, PartialSignatureMessage) res" where
  "signAsValidator X E b validatorIndex obj slot signatureDomain domain =
     (case map_of (br_Share b) validatorIndex of
        None \<Rightarrow> Err (RPlain ''unknown validator index'')
      | Some share \<Rightarrow>
          bind_res (of_sum (RWrap ''could not sign beacon object'')
                      (re_SignBeaconObject E obj domain (rsh_SharePubKey share) slot signatureDomain)) (\<lambda>(sig, r).
            Ok \<lparr>psm_PartialSignature = sig, psm_SigningRoot = r, psm_Signer = x_OperatorID X,
                psm_ValidatorIndex = validatorIndex\<rparr>))"

definition signBeaconObject ::
    "'o runnerspec \<Rightarrow> 'o renv \<Rightarrow> ('c, 'm) BaseRunner_scheme \<Rightarrow> ValidatorDuty \<Rightarrow> 'o \<Rightarrow> u64 \<Rightarrow> SigDomain
       \<Rightarrow> (run_err, PartialSignatureMessage) res" where
  "signBeaconObject X E b duty obj slot signatureDomain =
     bind_res (EstimatedEpochAtSlot (nw_Beacon (br_NetworkConfig b)) slot) (\<lambda>epoch.
     bind_res (of_sum (RWrap ''failed to fetch beacon domain'') (re_DomainData E epoch signatureDomain)) (\<lambda>domain.
       signAsValidator X E b (vd_ValidatorIndex duty) obj slot signatureDomain domain))"

text \<open>Handing a message to the network.\<close>

definition broadcastAtSlot :: "'o renv \<Rightarrow> SignedSSVMessage \<Rightarrow> u64 \<Rightarrow> ('c, 'm) BaseRunner_scheme \<Rightarrow> ('c, 'm, unit) rhandler" where
  "broadcastAtSlot E msg slot b =
     (case e_BroadcastAtSlot (re_qbft E) msg slot of None \<Rightarrow> Ok () | Some e \<Rightarrow> Err (RPlain e),
      b\<lparr>br_sent := br_sent b @ [(msg, slot)]\<rparr>)"

definition signPartialSigMsgs ::
    "'o runnerspec \<Rightarrow> 'o renv \<Rightarrow> ('c, 'm) BaseRunner_scheme \<Rightarrow> string \<Rightarrow> string \<Rightarrow> bytes \<Rightarrow> PartialSignatureMessages
       \<Rightarrow> (run_err, SignedSSVMessage) res" where
  "signPartialSigMsgs X E b encodeErr signErr validatorPubKey msgs =
     bind_res (DomainTypeAtSlot (br_NetworkConfig b) (ps_Slot msgs)) (\<lambda>domain.
     let msgID = x_NewValidatorMsgID X domain validatorPubKey (br_Role b)
     in bind_res (of_sum (\<lambda>e. RWrap encodeErr (RPlain e)) (x_EncodePartialSigs X msgs)) (\<lambda>encodedMsg.
        let ssvMsg = \<lparr>ssv_MsgType = SSVPartialSignatureMsgType, ssv_MsgID = msgID, ssv_Data = encodedMsg\<rparr>
        in bind_res (of_sum (\<lambda>e. RWrap signErr (RPlain e)) (e_SignSSVMessage (re_qbft E) ssvMsg)) (\<lambda>sig.
             Ok \<lparr>s_Signatures = [sig], s_OperatorIDs = [x_OperatorID X], s_SSVMessage = ssvMsg, s_FullData = None\<rparr>)))"

definition signAndBroadcastPartialSigMsgs ::
    "'o runnerspec \<Rightarrow> 'o renv \<Rightarrow> bytes \<Rightarrow> PartialSignatureMessages \<Rightarrow> ('c, 'm) BaseRunner_scheme \<Rightarrow> ('c, 'm, unit) rhandler" where
  "signAndBroadcastPartialSigMsgs X E validatorPubKey msgs b =
     bind_st (signPartialSigMsgs X E b ''could not encode partial signature messages'' ''could not sign SSVMessage''
                validatorPubKey msgs, b) (\<lambda>msg b.
       map_err_st (RWrap ''could not broadcast signed SSV message'') (broadcastAtSlot E msg (ps_Slot msgs) b))"

definition signAndBroadcastPostConsensusMsg ::
    "'o runnerspec \<Rightarrow> 'o renv \<Rightarrow> bytes \<Rightarrow> PartialSignatureMessages \<Rightarrow> ('c, 'm) BaseRunner_scheme \<Rightarrow> ('c, 'm, unit) rhandler" where
  "signAndBroadcastPostConsensusMsg X E validatorPubKey msgs b =
     bind_st (signPartialSigMsgs X E b ''could not encode post-consensus partial signature message''
                ''could not sign post-consensus SSV message'' validatorPubKey msgs, b) (\<lambda>msg b.
       broadcastAtSlot E msg (ps_Slot msgs) b)"

section \<open>Validation of partial signatures\<close>

definition PartialSigMsgSigner :: "PartialSignatureMessages \<Rightarrow> ('e, OperatorID) res" where
  "PartialSigMsgSigner msg = (case ps_Messages msg of [] \<Rightarrow> Panic | m # _ \<Rightarrow> Ok (psm_Signer m))"

definition validatePartialSigMsg ::
    "'o runnerspec \<Rightarrow> ('c, 'm) BaseRunner_scheme \<Rightarrow> PartialSignatureMessages \<Rightarrow> u64 \<Rightarrow> (run_err, unit) res" where
  "validatePartialSigMsg X b psigMsgs expectedSlot =
     bind_res (case x_ValidatePartialSigs X psigMsgs of
                 Some e \<Rightarrow> Err (RWrap ''PartialSignatureMessages invalid'' (RPlain e)) | None \<Rightarrow> Ok ()) (\<lambda>_.
     bind_res (ensure (\<not> ps_Slot psigMsgs < expectedSlot)
                 (RCodeWrap PartialSigMessageInvalidSlotErrorCode (RPlain ''invalid partial sig slot''))) (\<lambda>_.
     bind_res (ensure (\<not> ps_Slot psigMsgs > expectedSlot)
                 (RRetryable (RWithCode PartialSigMessageFutureSlotErrorCode
                    (RWrap ''message slot'' ErrFuturePartialSigMsg)))) (\<lambda>_.
     bind_res (PartialSigMsgSigner psigMsgs) (\<lambda>msgSigner.
     case GetShare b of
       None \<Rightarrow> Err (RPlain ''can not get committee because there is not a single Share in runner'')
     | Some shareSample \<Rightarrow>
         ensure (\<exists>operator \<in> set (rsh_Committee shareSample). Signer operator = msgSigner) (RPlain ''unknown signer'')))))"

definition validateValidatorIndexInPartialSigMsg ::
    "('c, 'm) BaseRunner_scheme \<Rightarrow> PartialSignatureMessages \<Rightarrow> (run_err, unit) res" where
  "validateValidatorIndexInPartialSigMsg b psigMsgs =
     each (\<lambda>msg. ensure (map_of (br_Share b) (psm_ValidatorIndex msg) \<noteq> None)
                   (RCoded UnknownValidatorIndexErrorCode ''unknown validator index'')) (ps_Messages psigMsgs)"

text \<open>The epoch of the current duty; its callers have checked that there is one.\<close>

definition currentDutyEpoch :: "('c, 'm) BaseRunner_scheme \<Rightarrow> (run_err, u64) res" where
  "currentDutyEpoch b =
     bind_res (deref (br_State b)) (\<lambda>s.
     bind_res (DutySlot (rs_CurrentDuty s)) (\<lambda>slot.
       EstimatedEpochAtSlot (nw_Beacon (br_NetworkConfig b)) slot))"

definition verifyExpectedRoot ::
    "'o runnerspec \<Rightarrow> 'o renv \<Rightarrow> ('c, 'm) BaseRunner_scheme \<Rightarrow> PartialSignatureMessages \<Rightarrow> 'o list \<Rightarrow> SigDomain
       \<Rightarrow> (run_err, unit) res" where
  "verifyExpectedRoot X E b psigMsgs expectedRootObjs domain =
     bind_res (ensure (length expectedRootObjs = length (ps_Messages psigMsgs))
                 (RCoded WrongRootsCountErrorCode ''wrong expected roots count'')) (\<lambda>_.
     bind_res (currentDutyEpoch b) (\<lambda>epoch.
     bind_res (of_sum (RWrap ''could not get pre consensus root domain'') (re_DomainData E epoch domain)) (\<lambda>d.
     bind_res (each_map (\<lambda>rootI. of_sum (\<lambda>e. RWrap ''could not compute ETH signing root'' (RPlain e))
                                   (x_ComputeETHSigningRoot X rootI d)) expectedRootObjs) (\<lambda>ret.
     let sortedExpectedRoots = sort ret;
         sortedRoots = sort (map psm_SigningRoot (ps_Messages psigMsgs))
     in each (\<lambda>(expected, r). ensure (expected = r) (RCoded WrongSigningRootErrorCode ''wrong signing root''))
          (zip sortedExpectedRoots sortedRoots)))))"

definition resolvePostConsensusSigningRoots ::
    "'o runnerspec \<Rightarrow> 'o renv \<Rightarrow> ('c, 'm) BaseRunner_scheme \<Rightarrow> 'o PostConsensusRoot list
       \<Rightarrow> (run_err, (bool \<times> root) list) res" where
  "resolvePostConsensusSigningRoots X E b expected =
     bind_res (currentDutyEpoch b) (\<lambda>epoch.
       each_map (\<lambda>e.
         bind_res (of_sum (RWrap ''could not get post consensus root domain'') (re_DomainData E epoch (pr_Domain e))) (\<lambda>domain.
         bind_res (of_sum (\<lambda>e. RWrap ''could not compute ETH signing root'' (RPlain e))
                     (x_ComputeETHSigningRoot X (pr_Root e) domain)) (\<lambda>signingRoot.
           Ok (pr_Optional e, signingRoot)))) expected)"

text \<open>The first loop: every entry matches an expected root, and none is matched twice.\<close>

fun matchRoots :: "root list \<Rightarrow> root list \<Rightarrow> PartialSignatureMessage list \<Rightarrow> (run_err, root list) res" where
  "matchRoots signingRoots covered [] = Ok covered"
| "matchRoots signingRoots covered (msg # msgs) =
     (if psm_SigningRoot msg \<notin> set signingRoots
      then Err (RCoded WrongSigningRootErrorCode ''unexpected signing root'')
      else if psm_SigningRoot msg \<in> set covered
      then Err (RCoded WrongRootsCountErrorCode ''duplicate expected signing root'')
      else matchRoots signingRoots (psm_SigningRoot msg # covered) msgs)"

definition verifyExpectedPostConsensusRoots ::
    "'o runnerspec \<Rightarrow> 'o renv \<Rightarrow> ('c, 'm) BaseRunner_scheme \<Rightarrow> PartialSignatureMessages \<Rightarrow> 'o PostConsensusRoot list
       \<Rightarrow> (run_err, unit) res" where
  "verifyExpectedPostConsensusRoots X E b psigMsgs expected =
     bind_res (ensure (length (ps_Messages psigMsgs) \<le> length expected)
                 (RCoded WrongRootsCountErrorCode ''wrong expected roots count'')) (\<lambda>_.
     bind_res (resolvePostConsensusSigningRoots X E b expected) (\<lambda>signingRoots.
     bind_res (matchRoots (map snd signingRoots) [] (ps_Messages psigMsgs)) (\<lambda>covered.
       each (\<lambda>(optional, signingRoot). ensure (optional \<or> signingRoot \<in> set covered)
               (RCoded WrongRootsCountErrorCode ''missing required signing root'')) signingRoots)))"

definition ValidatePreConsensusMsg ::
    "'o runnerspec \<Rightarrow> ('c, 'm, 'o) runnerI \<Rightarrow> 'o renv \<Rightarrow> ('c, 'm) BaseRunner_scheme \<Rightarrow> PartialSignatureMessages
       \<Rightarrow> (run_err, unit) res" where
  "ValidatePreConsensusMsg X I E b psigMsgs =
     (case br_State b of
        None \<Rightarrow> Err (RWithCode NoRunningDutyErrorCode ErrNoDutyAssigned)
      | Some s \<Rightarrow>
          if rs_Succeeded s then Err (RWithCode NoRunningDutyErrorCode ErrRunningDutySucceeded)
          else
          bind_res (DutySlot (rs_CurrentDuty s)) (\<lambda>slot.
          bind_res (validatePartialSigMsg X b psigMsgs slot) (\<lambda>_.
          if br_Role b = RoleAggregatorCommittee then Ok ()
          else bind_res (map_err (RWrap ''compute pre-consensus roots and domain'') (ri_expectedPre I b)) (\<lambda>(roots, domain).
                 verifyExpectedRoot X E b psigMsgs roots domain))))"

definition slotIsRelevant :: "u64 \<Rightarrow> u64 \<Rightarrow> (run_err, unit) res" where
  "slotIsRelevant dutySlot slot =
     bind_res (ensure (\<not> slot < dutySlot - 1)
                 (RCodeWrap PartialSigMessageInvalidSlotErrorCode (RPlain ''invalid partial sig slot''))) (\<lambda>_.
     ensure (\<not> slot > dutySlot)
       (RRetryable (RWithCode PartialSigMessageFutureSlotErrorCode (RWrap ''message slot'' ErrFuturePartialSigMsg))))"

definition ValidatePostConsensusMsg ::
    "'o runnerspec \<Rightarrow> ('c, 'm, 'o) runnerI \<Rightarrow> 'o renv \<Rightarrow> ('c, 'm) BaseRunner_scheme \<Rightarrow> PartialSignatureMessages
       \<Rightarrow> (run_err, unit) res" where
  "ValidatePostConsensusMsg X I E b psigMsgs =
     (case br_State b of
        None \<Rightarrow> Err (RWithCode NoRunningDutyErrorCode ErrNoDutyAssigned)
      | Some s \<Rightarrow>
          if rs_Succeeded s \<and> \<not> ri_awaitingEnvelope I b
          then Err (RWithCode NoRunningDutyErrorCode ErrRunningDutySucceeded)
          else
          bind_res (DutySlot (rs_CurrentDuty s)) (\<lambda>slot.
          bind_res (slotIsRelevant slot (ps_Slot psigMsgs)) (\<lambda>_.
          case runningInstance b of
            None \<Rightarrow> Err (RRetryable (RWithCode NoRunningConsensusInstanceErrorCode ErrNoRunningInstance))
          | Some inst \<Rightarrow>
          let (decided, decidedValue) = IsDecided inst;
              decidedValueBytes = (case decidedValue of None \<Rightarrow> [] | Some v \<Rightarrow> v)
          in if \<not> decided \<or> rs_DecidedValue s = []
          then Err (RRetryable (RWithCode NoDecidedValueErrorCode ErrNoDecidedValue))
          else if br_Role b = RoleAggregatorCommittee
          then bind_res (case x_DecodeAggregatorCommittee X decidedValueBytes of
                  Some e \<Rightarrow> Err (RWrap ''failed to parse decided value to AggregatorCommitteeConsensusData'' (RPlain e))
                | None \<Rightarrow> Ok ()) (\<lambda>_. validatePartialSigMsg X b psigMsgs slot)
          else if br_Role b = RoleCommittee
          then bind_res (IsGloasAtSlot (nw_Beacon (br_NetworkConfig b)) slot) (\<lambda>gloas.
               bind_res (case (if gloas then x_DecodeGloasBeaconVote X else x_DecodeBeaconVote X) decidedValueBytes of
                  Some e \<Rightarrow> Err (RWrap ''failed to parse decided beacon vote'' (RPlain e))
                | None \<Rightarrow> Ok ()) (\<lambda>_. validatePartialSigMsg X b psigMsgs slot))
          else
          bind_res (validatePartialSigMsg X b psigMsgs slot) (\<lambda>_.
          bind_res (validateValidatorIndexInPartialSigMsg b psigMsgs) (\<lambda>_.
          bind_res (ri_expectedPost I b) (\<lambda>expected.
            verifyExpectedPostConsensusRoots X E b psigMsgs expected))))))"

section \<open>Processing of partial signatures\<close>

text \<open>
  The map \<open>roots\<close> of the source keeps, for every root that just reached its quorum, the validators and
  their signers.
\<close>

type_synonym quorumRoots = "(root \<times> (u64 \<times> OperatorID list) list) list"

definition addQuorumRoot :: "root \<Rightarrow> u64 \<Rightarrow> OperatorID list \<Rightarrow> quorumRoots \<Rightarrow> quorumRoots" where
  "addQuorumRoot root validatorIndex quorumSigners roots =
     AList.update root
       (AList.update validatorIndex quorumSigners (case map_of roots root of None \<Rightarrow> [] | Some vs \<Rightarrow> vs)) roots"

definition processPartialSig ::
    "('p, 's, 'i) bls \<Rightarrow> (u64 \<times> RunnerShare) list \<Rightarrow> PartialSignatureMessage \<Rightarrow> PartialSigContainer \<Rightarrow> PartialSigContainer" where
  "processPartialSig B shares msg container =
     (if HasSignature container (psm_ValidatorIndex msg) (psm_Signer msg) (psm_SigningRoot msg)
      then resolveDuplicateSignature B shares container msg
      else AddSignature container msg)"

fun basePartialSigMsgProcessing ::
    "('p, 's, 'i) bls \<Rightarrow> (u64 \<times> RunnerShare) list \<Rightarrow> PartialSignatureMessage list \<Rightarrow> PartialSigContainer \<Rightarrow> bool \<Rightarrow> quorumRoots
       \<Rightarrow> (bool \<times> quorumRoots) \<times> PartialSigContainer" where
  "basePartialSigMsgProcessing B shares [] container gotAnyQuorum roots = ((gotAnyQuorum, roots), container)"
| "basePartialSigMsgProcessing B shares (msg # msgs) container gotAnyQuorum roots =
     (let quorumReachedPreviously = fst (psHasQuorum container (psm_ValidatorIndex msg) (psm_SigningRoot msg));
          container = processPartialSig B shares msg container;
          (hasQuorum, quorumSigners) = psHasQuorum container (psm_ValidatorIndex msg) (psm_SigningRoot msg)
      in if \<not> quorumReachedPreviously \<and> hasQuorum
         then basePartialSigMsgProcessing B shares msgs container True
                (addQuorumRoot (psm_SigningRoot msg) (psm_ValidatorIndex msg) quorumSigners roots)
         else basePartialSigMsgProcessing B shares msgs container gotAnyQuorum roots)"

definition basePreConsensusMsgProcessing ::
    "('p, 's, 'i) bls \<Rightarrow> 'o runnerspec \<Rightarrow> ('c, 'm, 'o) runnerI \<Rightarrow> 'o renv \<Rightarrow> PartialSignatureMessages
       \<Rightarrow> ('c, 'm) BaseRunner_scheme \<Rightarrow> ('c, 'm, bool \<times> root list) rhandler" where
  "basePreConsensusMsgProcessing B X I E signedMsg b =
     bind_st (map_err (RWrap ''invalid pre-consensus message'') (ValidatePreConsensusMsg X I E b signedMsg), b) (\<lambda>_ b.
     bind_st (deref (br_State b), b) (\<lambda>s b.
       let ((hasQuorum, quorumRoots), c) =
             basePartialSigMsgProcessing B (br_Share b) (ps_Messages signedMsg) (rs_PreConsensusContainer s) False []
       in (Ok (hasQuorum, map fst quorumRoots), upd_RunnerState (\<lambda>s. s\<lparr>rs_PreConsensusContainer := c\<rparr>) b)))"

definition basePostConsensusMsgProcessing ::
    "('p, 's, 'i) bls \<Rightarrow> 'o runnerspec \<Rightarrow> ('c, 'm, 'o) runnerI \<Rightarrow> 'o renv \<Rightarrow> PartialSignatureMessages
       \<Rightarrow> ('c, 'm) BaseRunner_scheme \<Rightarrow> ('c, 'm, bool \<times> root list) rhandler" where
  "basePostConsensusMsgProcessing B X I E signedMsg b =
     bind_st (map_err (RWrap ''invalid post-consensus message'') (ValidatePostConsensusMsg X I E b signedMsg), b) (\<lambda>_ b.
     bind_st (deref (br_State b), b) (\<lambda>s b.
       let ((hasQuorum, quorumRoots), c) =
             basePartialSigMsgProcessing B (br_Share b) (ps_Messages signedMsg) (rs_PostConsensusContainer s) False []
       in (Ok (hasQuorum, map fst quorumRoots), upd_RunnerState (\<lambda>s. s\<lparr>rs_PostConsensusContainer := c\<rparr>) b)))"

section \<open>Consensus\<close>

definition didDecideCorrectly ::
    "'o runnerspec \<Rightarrow> ('c, 'm) BaseRunner_scheme \<Rightarrow> bool \<Rightarrow> SignedSSVMessage \<Rightarrow> (run_err, bool) res" where
  "didDecideCorrectly X b prevDecided signedMessage =
     bind_res (of_sum RPlain (x_DecodeMessage X (ssv_Data (s_SSVMessage signedMessage)))) (\<lambda>decidedMessage.
     case runningInstance b of
       None \<Rightarrow> Err (RCoded DecidedWrongInstanceErrorCode ''decided wrong instance (running instance is nil)'')
     | Some inst \<Rightarrow>
         if m_Height decidedMessage \<noteq> GetHeight inst
         then Err (RCodeWrap DecidedWrongInstanceErrorCode (RPlain ''decided wrong instance''))
         else Ok (\<not> prevDecided))"

text \<open>
  The decoder and encoder of the decided value are arguments; an error result comes with the flag
  \<open>decided\<close> that the source returns beside it.
\<close>

definition validateDecidedConsensusData ::
    "('v \<Rightarrow> string + bytes) \<Rightarrow> (bytes option \<Rightarrow> string option) \<Rightarrow> 'v \<Rightarrow> (run_err, unit) res" where
  "validateDecidedConsensusData encode valueCheckFn val =
     bind_res (of_sum (\<lambda>e. RWrap ''could not encode decided value'' (RPlain e)) (encode val)) (\<lambda>byts.
     case valueCheckFn (Some byts) of
       Some e \<Rightarrow> Err (RWrap ''decided value is invalid'' (RPlain e))
     | None \<Rightarrow> Ok ())"

definition takeUpDecided ::
    "(bytes \<Rightarrow> string + 'v) \<Rightarrow> ('v \<Rightarrow> string + bytes) \<Rightarrow> (bytes option \<Rightarrow> string option) \<Rightarrow> SignedSSVMessage
       \<Rightarrow> ('c, 'm) BaseRunner_scheme \<Rightarrow> (run_err, 'v) res \<times> ('c, 'm) BaseRunner_scheme" where
  "takeUpDecided decode encode valueCheckFn decidedMsg b =
     bind_st (of_sum (\<lambda>e. RWrap ''failed to parse decided value to ValidatorConsensusData'' (RPlain e))
                (decode (case s_FullData decidedMsg of None \<Rightarrow> [] | Some d \<Rightarrow> d)), b) (\<lambda>decidedValue b.
     bind_st (map_err (RWrap ''decided ValidatorConsensusData invalid'')
                (validateDecidedConsensusData encode valueCheckFn decidedValue), b) (\<lambda>_ b.
     bind_st (of_sum (\<lambda>e. RWrap ''could not encode decided value'' (RPlain e)) (encode decidedValue), b) (\<lambda>encoded b.
     let b = upd_RunnerState (\<lambda>s. s\<lparr>rs_DecidedValue := encoded\<rparr>) b
     in bind_st (map_err (RWrap ''current duty slot'') (currentDutySlot b), b) (\<lambda>slot b.
          (Ok decidedValue, b\<lparr>br_highestDecidedSlot := slot\<rparr>)))))"

definition baseConsensusMsgProcessing ::
    "'c specqbft \<Rightarrow> 'o runnerspec \<Rightarrow> 'o renv \<Rightarrow> (bytes \<Rightarrow> string + 'v) \<Rightarrow> ('v \<Rightarrow> string + bytes)
       \<Rightarrow> (bytes option \<Rightarrow> string option) \<Rightarrow> SignedSSVMessage \<Rightarrow> ('c, 'm) BaseRunner_scheme
       \<Rightarrow> (run_err \<times> bool, 'v option) res \<times> ('c, 'm) BaseRunner_scheme" where
  "baseConsensusMsgProcessing S X E decode encode valueCheckFn msg b =
     (let prevDecided = (hasDutyRunning b \<and> (case runningInstance b of None \<Rightarrow> False | Some inst \<Rightarrow> fst (IsDecided inst)))
      in if prevDecided
         then (Err (RCoded SkipConsensusMessageAsConsensusHasFinishedErrorCode
                 ''not processing consensus message since consensus has already finished'', True), b)
         else case br_QBFTController b of
           None \<Rightarrow> (Panic, b)
         | Some ctl \<Rightarrow>
             (case ControllerProcessMsg S (re_qbft E) ctl msg (br_roundTimerF b) of (r, ctl) \<Rightarrow>
                let b = withController b ctl
                in case r of
                     Panic \<Rightarrow> (Panic, b)
                   | Err e \<Rightarrow> (Err (if CtrlIsRetryable e then RRetryable (RQbft e) else RQbft e, False), b)
                   | Ok decidedMsg \<Rightarrow>
                       if \<not> hasDutyRunning b then (Ok None, b)
                       else case decidedMsg of
                         None \<Rightarrow> (Ok None, b)
                       | Some decidedMsg \<Rightarrow>
                           (case didDecideCorrectly X b prevDecided decidedMsg of
                              Panic \<Rightarrow> (Panic, b)
                            | Err e \<Rightarrow> (Err (e, False), b)
                            | Ok False \<Rightarrow> (Ok None, b)
                            | Ok True \<Rightarrow>
                                (case takeUpDecided decode encode valueCheckFn decidedMsg b of
                                   (Ok v, b) \<Rightarrow> (Ok (Some v), b)
                                 | (Err e, b) \<Rightarrow> (Err (e, True), markDutyFailed e b)
                                 | (Panic, b) \<Rightarrow> (Panic, b)))))"

definition decide ::
    "'c specqbft \<Rightarrow> 'o renv \<Rightarrow> ('v \<Rightarrow> string + bytes) \<Rightarrow> u64 \<Rightarrow> 'v \<Rightarrow> (bytes option \<Rightarrow> string option)
       \<Rightarrow> ('c, 'm) BaseRunner_scheme \<Rightarrow> ('c, 'm, unit) rhandler" where
  "decide S E encode slot input valueChecker b =
     bind_st (of_sum (\<lambda>e. RWrap ''could not encode input data for consensus'' (RPlain e)) (encode input), b) (\<lambda>byts b.
     bind_st (case valueChecker (Some byts) of
                Some e \<Rightarrow> Err (RWrap ''input data invalid'' (RPlain e)) | None \<Rightarrow> Ok (), b) (\<lambda>_ b.
     case br_QBFTController b of
       None \<Rightarrow> (Panic, b)
     | Some ctl \<Rightarrow>
         (case StartNewInstance S (re_qbft E) ctl slot (Some byts) valueChecker (br_roundTimerF b) of (r, ctl) \<Rightarrow>
            let b = withController b ctl
            in case r of
                 Panic \<Rightarrow> (Panic, b)
               | Err e \<Rightarrow> (Err (RWrap ''could not start new QBFT instance'' (RQbft e)), b)
               | Ok newInstance \<Rightarrow>
                   bind_st (deref (br_State b), b) (\<lambda>_ b.
                     (Ok (), upd_RunnerState (\<lambda>s. s\<lparr>rs_RunningInstance := Some newInstance\<rparr>) b)))))"

section \<open>Starting a duty and timeouts\<close>

definition ShouldProcessDuty :: "Duty \<Rightarrow> ('c, 'm) BaseRunner_scheme \<Rightarrow> (run_err, unit) res" where
  "ShouldProcessDuty duty b =
     bind_res (deref (br_QBFTController b)) (\<lambda>ctl.
     bind_res (DutySlot duty) (\<lambda>slot.
       ensure (\<not> (ctl_LatestInstanceHeight ctl \<ge> slot \<and> ctl_LatestInstanceHeight ctl \<noteq> 0))
         (RCoded DutyAlreadyPassedErrorCode ''duty already passed'')))"

definition ShouldProcessNonBeaconDuty :: "Duty \<Rightarrow> ('c, 'm) BaseRunner_scheme \<Rightarrow> (run_err, unit) res" where
  "ShouldProcessNonBeaconDuty duty b =
     (case br_State b of
        None \<Rightarrow> Ok ()
      | Some s \<Rightarrow>
          bind_res (DutySlot (rs_CurrentDuty s)) (\<lambda>current.
          bind_res (DutySlot duty) (\<lambda>slot.
            ensure (\<not> current \<ge> slot) (RCoded DutyAlreadyPassedErrorCode ''duty already passed''))))"

text \<open>\<open>executeDuty\<close> is the method of the runner around the base.\<close>

definition startDuty ::
    "'o renv \<Rightarrow> (Duty \<Rightarrow> ('c, 'm) BaseRunner_scheme \<Rightarrow> ('c, 'm, unit) rhandler) \<Rightarrow> (run_err \<Rightarrow> run_err) \<Rightarrow> Duty \<Rightarrow> u64
       \<Rightarrow> ('c, 'm) BaseRunner_scheme \<Rightarrow> ('c, 'm, unit) rhandler" where
  "startDuty E executeDuty wrapErr duty quorum b =
     bind_st (watchDutyOutcome E (b\<lparr>br_State := Some (NewRunnerState quorum duty)\<rparr>)) (\<lambda>_ b.
       case executeDuty duty b of
         (Ok _, b) \<Rightarrow> (Ok (), b)
       | (Err e, b) \<Rightarrow> (Err (wrapErr e), markDutyFailed e b)
       | (Panic, b) \<Rightarrow> (Panic, b))"

definition baseStartNewDuty ::
    "'o renv \<Rightarrow> (Duty \<Rightarrow> ('c, 'm) BaseRunner_scheme \<Rightarrow> ('c, 'm, unit) rhandler) \<Rightarrow> Duty \<Rightarrow> u64
       \<Rightarrow> ('c, 'm) BaseRunner_scheme \<Rightarrow> ('c, 'm, unit) rhandler" where
  "baseStartNewDuty E executeDuty duty quorum b =
     bind_st (map_err (RWrap ''can't start duty'') (ShouldProcessDuty duty b), b) (\<lambda>_ b.
       startDuty E executeDuty (RWrap ''failed to execute duty'') duty quorum b)"

definition baseStartNewNonBeaconDuty ::
    "'o renv \<Rightarrow> (Duty \<Rightarrow> ('c, 'm) BaseRunner_scheme \<Rightarrow> ('c, 'm, unit) rhandler) \<Rightarrow> ValidatorDuty \<Rightarrow> u64
       \<Rightarrow> ('c, 'm) BaseRunner_scheme \<Rightarrow> ('c, 'm, unit) rhandler" where
  "baseStartNewNonBeaconDuty E executeDuty duty quorum b =
     (let duty = ValidatorDutyPtr (Some duty)
      in bind_st (map_err (RWrap ''can't start non-beacon duty'') (ShouldProcessNonBeaconDuty duty b), b) (\<lambda>_ b.
           startDuty E executeDuty (\<lambda>e. e) duty quorum b))"

definition RunnerOnQBFTRoundTimeout ::
    "'c specqbft \<Rightarrow> 'o renv \<Rightarrow> TimeoutData \<Rightarrow> ('c, 'm) BaseRunner_scheme \<Rightarrow> ('c, 'm, unit) rhandler" where
  "RunnerOnQBFTRoundTimeout S E timeoutData b =
     (if \<not> hasDutyRunning b then (Ok (), b)
      else bind_st (map_err (RWrap ''current duty slot'') (currentDutySlot b), b) (\<lambda>slot b.
        if td_Slot timeoutData \<noteq> slot then (Ok (), b)
        else case br_QBFTController b of
               None \<Rightarrow> (Panic, b)
             | Some ctl \<Rightarrow>
                 (case OnQBFTRoundTimeout S (re_qbft E) ctl (td_Slot timeoutData) (td_Round timeoutData) of
                    (r, ctl) \<Rightarrow> (map_err RQbft r, withController b ctl))))"

section \<open>Shared by the runners\<close>

text \<open>The deferred function that reports a failure after the quorum, unless it is recoverable.\<close>

fun deferMarkFailed :: "('c, 'm, 'a) rhandler \<Rightarrow> ('c, 'm, 'a) rhandler" where
  "deferMarkFailed (Err e, b) = (Err e, if isRecoverableReconstructError e then b else markDutyFailed e b)"
| "deferMarkFailed (r, b) = (r, b)"

text \<open>The deferred function that notes a failure after the decision.\<close>

fun deferNoteFailure :: "('c, 'm, 'a) rhandler \<Rightarrow> ('c, 'm, 'a) rhandler" where
  "deferNoteFailure (Err e, b) = (Err e, noteDutyFailure e b)"
| "deferNoteFailure (r, b) = (r, b)"

text \<open>\<open>reconstructQuorumSig\<close> of the first root that reached its quorum, for the only share.\<close>

definition reconstructFirstRoot ::
    "('p, 's, 'i) bls \<Rightarrow> bool \<Rightarrow> root list \<Rightarrow> ('c, 'm) BaseRunner_scheme \<Rightarrow> ('c, 'm, bytes) rhandler" where
  "reconstructFirstRoot B post roots b =
     (case (roots, GetShare b, br_State b) of
        (root # _, Some share, Some s) \<Rightarrow>
          (if post
           then (case reconstructQuorumSig B (rs_PostConsensusContainer s) root share ''post-consensus'' of
                   (r, c) \<Rightarrow> (r, upd_RunnerState (\<lambda>s. s\<lparr>rs_PostConsensusContainer := c\<rparr>) b))
           else (case reconstructQuorumSig B (rs_PreConsensusContainer s) root share ''pre-consensus'' of
                   (r, c) \<Rightarrow> (r, upd_RunnerState (\<lambda>s. s\<lparr>rs_PreConsensusContainer := c\<rparr>) b)))
      | _ \<Rightarrow> (Panic, b))"

end
