(* ===== verification/Runner_Duties.thy ===== *)
theory Runner_Duties
  imports Runner_Base
begin

text \<open>
  The runners of the duties without a consensus phase: \<open>voluntary_exit.go\<close>, \<open>validator_registration.go\<close> and
  \<open>ptc_attester.go\<close> of \<open>protocol/v2/ssv/runner\<close>. Each extends the base by its own fields and by the list of
  what it handed to the beacon node (or, for registrations, to the submitter).
\<close>

text \<open>A partial signature of this operator, signed and handed to the network.\<close>

definition signAndSend ::
    "hash_obj runnerspec \<Rightarrow> hash_obj renv \<Rightarrow> PartialSigMsgType \<Rightarrow> (string \<times> string) \<Rightarrow> ValidatorDuty \<Rightarrow> hash_obj \<Rightarrow> SigDomain
       \<Rightarrow> ('c, 'm) BaseRunner_scheme \<Rightarrow> ('c, 'm, unit) rhandler" where
  "signAndSend X E ty errs duty obj domain r =
     bind_st (map_err (RWrap (fst errs)) (signBeaconObject X E r duty obj (vd_Slot duty) domain), r) (\<lambda>msg r.
     bind_st (deref (GetShare r), r) (\<lambda>share r.
       map_err_st (RWrap (snd errs))
         (signAndBroadcastPartialSigMsgs X E (rsh_ValidatorPubKey share)
            \<lparr>ps_Type = ty, ps_Slot = vd_Slot duty, ps_Messages = [msg]\<rparr> r)))"

section \<open>Voluntary exits\<close>

record 'c VoluntaryExitRunner = "'c BaseRunner" +
  ver_voluntaryExit :: "VoluntaryExit option"
  ver_submitted :: "(VoluntaryExit option \<times> bytes) list"

definition NewVoluntaryExitRunner ::
    "Network \<Rightarrow> (u64 \<times> RunnerShare) list \<Rightarrow> (u64 \<Rightarrow> RoundTimer) \<Rightarrow> (run_err, 'c VoluntaryExitRunner) res" where
  "NewVoluntaryExitRunner net share tf =
     (if length share \<noteq> 1 then Err (RPlain ''must have one share'')
      else Ok \<lparr>br_State = None, br_Share = share, br_QBFTController = None, br_NetworkConfig = net,
               br_Role = RoleVoluntaryExit, br_roundTimerF = tf, br_dutyConcluded = False, br_concluded = [],
               br_dutyFailureNoted = None, br_deadline = 0, br_deadlineOutcome = dutyOutcomeStuck,
               br_highestDecidedSlot = 0, br_sent = [], ver_voluntaryExit = None, ver_submitted = []\<rparr>)"

definition calculateVoluntaryExit ::
    "('c, 'm) BaseRunner_scheme \<Rightarrow> ValidatorDuty \<Rightarrow> (run_err, VoluntaryExit) res" where
  "calculateVoluntaryExit r duty =
     bind_res (EstimatedEpochAtSlot (nw_Beacon (br_NetworkConfig r)) (vd_Slot duty)) (\<lambda>epoch.
       Ok \<lparr>vex_Epoch = epoch, vex_ValidatorIndex = vd_ValidatorIndex duty\<rparr>)"

definition exitExpectedPre :: "('c, 'm) BaseRunner_scheme \<Rightarrow> (run_err, hash_obj list \<times> SigDomain) res" where
  "exitExpectedPre r =
     bind_res (map_err (RWrap ''current validator duty'') (currentValidatorDuty r)) (\<lambda>validatorDuty.
     bind_res (map_err (RWrap ''could not calculate voluntary exit'') (calculateVoluntaryExit r validatorDuty)) (\<lambda>vr.
       Ok ([ObjVoluntaryExit vr], DomainVoluntaryExit)))"

definition exitI :: "('c, 'm, hash_obj) runnerI" where
  "exitI = \<lparr>ri_expectedPre = exitExpectedPre,
            ri_expectedPost = (\<lambda>_. Err (RPlain ''no post consensus roots for voluntary exit'')),
            ri_awaitingEnvelope = (\<lambda>_. False)\<rparr>"

definition exitExecuteDuty ::
    "hash_obj runnerspec \<Rightarrow> hash_obj renv \<Rightarrow> Duty \<Rightarrow> 'c VoluntaryExitRunner
       \<Rightarrow> (run_err, unit) res \<times> 'c VoluntaryExitRunner" where
  "exitExecuteDuty X E duty r =
     bind_st (validatorDutyFromDuty (Some duty), r) (\<lambda>validatorDuty r.
     bind_st (map_err (RWrap ''could not calculate voluntary exit'') (calculateVoluntaryExit r validatorDuty), r)
       (\<lambda>voluntaryExit r.
     bind_st (signAndSend X E VoluntaryExitPartialSig
                (''could not sign voluntary exit'', ''could not sign/broadcast voluntary exit partial sig'')
                validatorDuty (ObjVoluntaryExit voluntaryExit) DomainVoluntaryExit r) (\<lambda>_ r.
       (Ok (), r\<lparr>ver_voluntaryExit := Some voluntaryExit\<rparr>))))"

definition exitStartNewDuty ::
    "hash_obj runnerspec \<Rightarrow> hash_obj renv \<Rightarrow> Duty option \<Rightarrow> u64 \<Rightarrow> 'c VoluntaryExitRunner
       \<Rightarrow> (run_err, unit) res \<times> 'c VoluntaryExitRunner" where
  "exitStartNewDuty X E duty quorum r =
     bind_st (validatorDutyFromDuty duty, r) (\<lambda>validatorDuty r.
       baseStartNewNonBeaconDuty E (exitExecuteDuty X E) validatorDuty quorum r)"

text \<open>
  The epoch of the stored exit is read for the log once the exit was submitted, which panics if there
  is none.
\<close>

definition exitSubmit ::
    "(VoluntaryExit option \<Rightarrow> bytes \<Rightarrow> run_err option) \<Rightarrow> bytes \<Rightarrow> 'c VoluntaryExitRunner
       \<Rightarrow> (run_err, unit) res \<times> 'c VoluntaryExitRunner" where
  "exitSubmit submit specSig r =
     (let r' = r\<lparr>ver_submitted := ver_submitted r @ [(ver_voluntaryExit r, specSig)]\<rparr>
      in bind_st (case submit (ver_voluntaryExit r) specSig of
                    Some e \<Rightarrow> Err (RWrap ''could not submit voluntary exit'' e) | None \<Rightarrow> Ok (), r') (\<lambda>_ r.
         bind_st (deref (ver_voluntaryExit r), r) (\<lambda>_ r. (Ok (), markDutySucceeded r))))"

definition exitProcessPreConsensus ::
    "('p, 's, 'i) bls \<Rightarrow> hash_obj runnerspec \<Rightarrow> hash_obj renv \<Rightarrow> (VoluntaryExit option \<Rightarrow> bytes \<Rightarrow> run_err option)
       \<Rightarrow> PartialSignatureMessages \<Rightarrow> 'c VoluntaryExitRunner \<Rightarrow> (run_err, unit) res \<times> 'c VoluntaryExitRunner" where
  "exitProcessPreConsensus B X E submit signedMsg r =
     bind_st (map_err_st (RWrap ''failed processing voluntary exit message'')
                (basePreConsensusMsgProcessing B X exitI E signedMsg r)) (\<lambda>(hasQuorum, roots) r.
       if \<not> hasQuorum then (Ok (), r)
       else deferMarkFailed (bind_st (reconstructFirstRoot B False roots r) (exitSubmit submit)))"

section \<open>Validator registrations\<close>

definition DefaultGasLimit :: u64 where "DefaultGasLimit = 36000000"

record 'c ValidatorRegistrationRunner = "'c BaseRunner" +
  vrr_gasLimit :: u64
  vrr_enqueued :: "(ValidatorRegistration \<times> bytes) list"

text \<open>The provider of fee recipients is the argument \<open>getFeeRecipient\<close>.\<close>

definition buildValidatorRegistration ::
    "(bytes \<Rightarrow> run_err + bytes) \<Rightarrow> 'c ValidatorRegistrationRunner \<Rightarrow> u64 \<Rightarrow> (run_err, ValidatorRegistration) res" where
  "buildValidatorRegistration getFeeRecipient r slot =
     bind_res (deref (GetShare r)) (\<lambda>share.
     bind_res (of_sum (RWrap ''could not get fee recipient for validator'') (getFeeRecipient (rsh_ValidatorPubKey share)))
       (\<lambda>feeRecipient.
     let gasLimit = (if vrr_gasLimit r = 0 then DefaultGasLimit else vrr_gasLimit r);
         beacon = nw_Beacon (br_NetworkConfig r)
     in bind_res (EstimatedEpochAtSlot beacon slot) (\<lambda>epoch.
        bind_res (EpochStartTime beacon epoch) (\<lambda>timestamp.
          Ok \<lparr>vr_FeeRecipient = feeRecipient, vr_GasLimit = gasLimit, vr_Timestamp = timestamp,
              vr_Pubkey = rsh_ValidatorPubKey share\<rparr>))))"

definition registrationExpectedPre ::
    "(bytes \<Rightarrow> run_err + bytes) \<Rightarrow> 'c ValidatorRegistrationRunner \<Rightarrow> (run_err, hash_obj list \<times> SigDomain) res" where
  "registrationExpectedPre getFeeRecipient r =
     bind_res (map_err (RWrap ''current duty slot'') (currentDutySlot r)) (\<lambda>slot.
     bind_res (map_err (RWrap ''could not calculate validator registration'')
                 (buildValidatorRegistration getFeeRecipient r slot)) (\<lambda>vr.
       Ok ([ObjValidatorRegistration vr], DomainApplicationBuilder)))"

definition registrationI ::
    "(bytes \<Rightarrow> run_err + bytes) \<Rightarrow> ('c, \<lparr>vrr_gasLimit :: u64, vrr_enqueued :: (ValidatorRegistration \<times> bytes) list\<rparr>, hash_obj) runnerI" where
  "registrationI getFeeRecipient =
     \<lparr>ri_expectedPre = registrationExpectedPre getFeeRecipient,
      ri_expectedPost = (\<lambda>_. Err (RPlain ''no post consensus roots for validator registration'')),
      ri_awaitingEnvelope = (\<lambda>_. False)\<rparr>"

definition registrationExecuteDuty ::
    "(bytes \<Rightarrow> run_err + bytes) \<Rightarrow> hash_obj runnerspec \<Rightarrow> hash_obj renv \<Rightarrow> Duty \<Rightarrow> 'c ValidatorRegistrationRunner
       \<Rightarrow> (run_err, unit) res \<times> 'c ValidatorRegistrationRunner" where
  "registrationExecuteDuty getFeeRecipient X E duty r =
     bind_st (validatorDutyFromDuty (Some duty), r) (\<lambda>validatorDuty r.
     bind_st (map_err (RWrap ''could not calculate validator registration'')
                (buildValidatorRegistration getFeeRecipient r (vd_Slot validatorDuty)), r) (\<lambda>vr r.
       signAndSend X E ValidatorRegistrationPartialSig
         (''could not sign validator registration'', ''could not sign/broadcast validator registration partial sig'')
         validatorDuty (ObjValidatorRegistration vr) DomainApplicationBuilder r))"

definition registrationStartNewDuty ::
    "(bytes \<Rightarrow> run_err + bytes) \<Rightarrow> hash_obj runnerspec \<Rightarrow> hash_obj renv \<Rightarrow> Duty option \<Rightarrow> u64
       \<Rightarrow> 'c ValidatorRegistrationRunner \<Rightarrow> (run_err, unit) res \<times> 'c ValidatorRegistrationRunner" where
  "registrationStartNewDuty getFeeRecipient X E duty quorum r =
     bind_st (validatorDutyFromDuty duty, r) (\<lambda>validatorDuty r.
     bind_st (IsGloasAtSlot (nw_Beacon (br_NetworkConfig r)) (vd_Slot validatorDuty), r) (\<lambda>gloas r.
       if gloas then (Err (RPlain ''validator registration is deprecated from Gloas; use proposer preferences''), r)
       else baseStartNewNonBeaconDuty E (registrationExecuteDuty getFeeRecipient X E) validatorDuty quorum r))"

definition registrationSubmit ::
    "(bytes \<Rightarrow> run_err + bytes) \<Rightarrow> (ValidatorRegistration \<Rightarrow> bytes \<Rightarrow> run_err option) \<Rightarrow> bytes \<Rightarrow> 'c ValidatorRegistrationRunner
       \<Rightarrow> (run_err, unit) res \<times> 'c ValidatorRegistrationRunner" where
  "registrationSubmit getFeeRecipient enqueue specSig r =
     bind_st (map_err (RWrap ''current validator duty'') (currentValidatorDuty r), r) (\<lambda>validatorDuty r.
     bind_st (map_err (RWrap ''could not calculate validator registration'')
                (buildValidatorRegistration getFeeRecipient r (vd_Slot validatorDuty)), r) (\<lambda>registration r.
     let r = r\<lparr>vrr_enqueued := vrr_enqueued r @ [(registration, specSig)]\<rparr>
     in bind_st (case enqueue registration specSig of
                   Some e \<Rightarrow> Err (RWrap ''could not submit validator registration'' e) | None \<Rightarrow> Ok (), r) (\<lambda>_ r.
          (Ok (), markDutySucceeded r))))"

definition registrationProcessPreConsensus ::
    "('p, 's, 'i) bls \<Rightarrow> (bytes \<Rightarrow> run_err + bytes) \<Rightarrow> hash_obj runnerspec \<Rightarrow> hash_obj renv
       \<Rightarrow> (ValidatorRegistration \<Rightarrow> bytes \<Rightarrow> run_err option) \<Rightarrow> PartialSignatureMessages
       \<Rightarrow> 'c ValidatorRegistrationRunner \<Rightarrow> (run_err, unit) res \<times> 'c ValidatorRegistrationRunner" where
  "registrationProcessPreConsensus B getFeeRecipient X E enqueue signedMsg r =
     bind_st (map_err_st (RWrap ''failed processing validator registration message'')
                (basePreConsensusMsgProcessing B X (registrationI getFeeRecipient) E signedMsg r)) (\<lambda>(hasQuorum, roots) r.
       if \<not> hasQuorum then (Ok (), r)
       else deferMarkFailed (bind_st (reconstructFirstRoot B False roots r) (registrationSubmit getFeeRecipient enqueue)))"

section \<open>Payload attestations\<close>

record 'c PTCAttesterRunner = "'c BaseRunner" +
  ptc_payloadAttestationData :: "PayloadAttestationData option"
  ptc_submitted :: "(u64 \<times> PayloadAttestationData \<times> bytes) list"

definition ptcExpectedPre :: "'c PTCAttesterRunner \<Rightarrow> (run_err, hash_obj list \<times> SigDomain) res" where
  "ptcExpectedPre r =
     (case ptc_payloadAttestationData r of
        None \<Rightarrow> Err (RPlain ''no frozen payload attestation data'')
      | Some data \<Rightarrow> Ok ([ObjPayloadAttestationData data], DomainPTCAttester))"

definition ptcI :: "('c, \<lparr>ptc_payloadAttestationData :: PayloadAttestationData option,
    ptc_submitted :: (u64 \<times> PayloadAttestationData \<times> bytes) list\<rparr>, hash_obj) runnerI" where
  "ptcI = \<lparr>ri_expectedPre = ptcExpectedPre,
           ri_expectedPost = (\<lambda>_. Err (RPlain ''no post-consensus roots for PTC attestation'')),
           ri_awaitingEnvelope = (\<lambda>_. False)\<rparr>"

text \<open>The beacon node answers with an error, with no data, or with data, which may have a zero root.\<close>

definition ptcExecuteDuty ::
    "(u64 \<Rightarrow> run_err + PayloadAttestationData option) \<Rightarrow> hash_obj runnerspec \<Rightarrow> hash_obj renv \<Rightarrow> Duty \<Rightarrow> 'c PTCAttesterRunner
       \<Rightarrow> (run_err, unit) res \<times> 'c PTCAttesterRunner" where
  "ptcExecuteDuty payloadData X E duty r =
     bind_st (validatorDutyFromDuty (Some duty), r) (\<lambda>validatorDuty r.
     let r = r\<lparr>ptc_payloadAttestationData := None\<rparr>
     in case payloadData (vd_Slot validatorDuty) of
          Inl e \<Rightarrow> (Ok (), markDutyFailed e r)
        | Inr None \<Rightarrow> (Ok (), markDutyNotRequired r)
        | Inr (Some data) \<Rightarrow>
            if pad_BeaconBlockRoot data = replicate 32 0 then (Ok (), markDutyNotRequired r)
            else signAndSend X E PTCAttesterPartialSig
                   (''could not sign payload attestation data'', ''could not sign/broadcast payload attestation partial sig'')
                   validatorDuty (ObjPayloadAttestationData data) DomainPTCAttester
                   (r\<lparr>ptc_payloadAttestationData := Some data\<rparr>))"

definition ptcStartNewDuty ::
    "(u64 \<Rightarrow> run_err + PayloadAttestationData option) \<Rightarrow> hash_obj runnerspec \<Rightarrow> hash_obj renv \<Rightarrow> Duty option \<Rightarrow> u64
       \<Rightarrow> 'c PTCAttesterRunner \<Rightarrow> (run_err, unit) res \<times> 'c PTCAttesterRunner" where
  "ptcStartNewDuty payloadData X E duty quorum r =
     bind_st (validatorDutyFromDuty duty, r) (\<lambda>validatorDuty r.
       baseStartNewNonBeaconDuty E (ptcExecuteDuty payloadData X E) validatorDuty quorum r)"

definition ptcSubmit ::
    "(u64 \<Rightarrow> PayloadAttestationData \<Rightarrow> bytes \<Rightarrow> run_err option) \<Rightarrow> PayloadAttestationData \<Rightarrow> bytes \<Rightarrow> 'c PTCAttesterRunner
       \<Rightarrow> (run_err, unit) res \<times> 'c PTCAttesterRunner" where
  "ptcSubmit submit data signature r =
     bind_st (deref (GetShare r), r) (\<lambda>share r.
     let r = r\<lparr>ptc_submitted := ptc_submitted r @ [(rsh_ValidatorIndex share, data, signature)]\<rparr>
     in bind_st (case submit (rsh_ValidatorIndex share) data signature of
                   Some e \<Rightarrow> Err (RWrap ''could not submit payload attestation message'' e) | None \<Rightarrow> Ok (), r) (\<lambda>_ r.
          (Ok (), markDutySucceeded r)))"

definition ptcProcessPreConsensus ::
    "('p, 's, 'i) bls \<Rightarrow> hash_obj runnerspec \<Rightarrow> hash_obj renv \<Rightarrow> (u64 \<Rightarrow> PayloadAttestationData \<Rightarrow> bytes \<Rightarrow> run_err option)
       \<Rightarrow> PartialSignatureMessages \<Rightarrow> 'c PTCAttesterRunner \<Rightarrow> (run_err, unit) res \<times> 'c PTCAttesterRunner" where
  "ptcProcessPreConsensus B X E submit signedMsg r =
     bind_st (map_err_st (RWrap ''failed processing payload attestation message'')
                (basePreConsensusMsgProcessing B X ptcI E signedMsg r)) (\<lambda>(hasQuorum, roots) r.
       if \<not> hasQuorum then (Ok (), r)
       else deferMarkFailed
         (case ptc_payloadAttestationData r of
            None \<Rightarrow> (Err (RPlain ''reached quorum without a frozen payload attestation data''), r)
          | Some data \<Rightarrow> bind_st (reconstructFirstRoot B False roots r) (ptcSubmit submit data)))"

end
