(* ===== verification/Runner_Properties.thy ===== *)
theory Runner_Properties
  imports Runner_Duties
begin

text \<open>
  What the runners guarantee about partial signatures: valid ones are collected and kept whatever else
  arrives, so that the honest operators of a committee complete a duty, and what a runner submits
  carries a signature of the validator over what the duty is about.
\<close>

section \<open>Collecting partial signatures\<close>

text \<open>The container holds a valid share of an operator for a validator and a root.\<close>

definition has_valid ::
    "('p, 's, 'i) bls \<Rightarrow> RunnerShare \<Rightarrow> root \<Rightarrow> PartialSigContainer \<Rightarrow> OperatorID \<Rightarrow> bool" where
  "has_valid B share r c k \<longleftrightarrow>
     (\<exists>s. map_of (rootEntries c (rsh_ValidatorIndex share) r) k = Some s \<and>
          is_Ok (verifyBeaconPartialSignature B k s r (rsh_Committee share)))"

text \<open>A message of an operator with a valid share of full length.\<close>

definition honest_msg ::
    "('p, 's, 'i) bls \<Rightarrow> RunnerShare \<Rightarrow> root \<Rightarrow> OperatorID \<Rightarrow> PartialSignatureMessage \<Rightarrow> bool" where
  "honest_msg B share r k msg \<longleftrightarrow>
     psm_Signer msg = k \<and> psm_ValidatorIndex msg = rsh_ValidatorIndex share \<and> psm_SigningRoot msg = r \<and>
     length (psm_PartialSignature msg) = 96 \<and>
     is_Ok (verifyBeaconPartialSignature B k (psm_PartialSignature msg) r (rsh_Committee share))"

lemma copy_into_length: "length b = n \<Longrightarrow> copy_into n b = b"
  by (simp add: copy_into_def)

lemma rootEntries_AddSignature:
  "map_of (rootEntries (AddSignature c m) vi r) k =
     (if vi = psm_ValidatorIndex m \<and> r = psm_SigningRoot m \<and> k = psm_Signer m
         \<and> map_of (rootEntries c vi r) k = None
      then Some (copy_into 96 (psm_PartialSignature m)) else map_of (rootEntries c vi r) k)"
  by (auto simp: AddSignature_def Let_def rootEntries_setRootSigs update_conv')

lemma map_of_Remove:
  "map_of (rootEntries (Remove c vi' k' r') vi r) k =
     (if vi = vi' \<and> r = r' \<and> k = k' then None else map_of (rootEntries c vi r) k)"
  by (auto simp: rootEntries_Remove delete_conv')

lemma processPartialSig_keeps:
  assumes "map_of shares (rsh_ValidatorIndex share) = Some share" "has_valid B share r c k"
  shows "has_valid B share r (processPartialSig B shares m c) k"
proof -
  obtain s where s: "map_of (rootEntries c (rsh_ValidatorIndex share) r) k = Some s"
      "is_Ok (verifyBeaconPartialSignature B k s r (rsh_Committee share))"
    using assms(2) by (auto simp: has_valid_def)
  show ?thesis
  proof (cases "psm_ValidatorIndex m = rsh_ValidatorIndex share \<and> psm_SigningRoot m = r \<and> psm_Signer m = k")
    case True
    then have "processPartialSig B shares m c = c"
      using s assms(1) by (simp add: processPartialSig_def HasSignature_def resolveDuplicateSignature_def GetSignature_def)
    then show ?thesis
      using assms(2) by simp
  next
    case False
    then have "map_of (rootEntries (processPartialSig B shares m c) (rsh_ValidatorIndex share) r) k = Some s"
      using s(1) by (auto simp: processPartialSig_def resolveDuplicateSignature_def Let_def rootEntries_AddSignature
          map_of_Remove split: option.split)
    then show ?thesis
      using s(2) by (auto simp: has_valid_def)
  qed
qed

lemma processPartialSig_gains:
  assumes "map_of shares (rsh_ValidatorIndex share) = Some share" "honest_msg B share r k m"
  shows "has_valid B share r (processPartialSig B shares m c) k"
proof -
  have m: "psm_Signer m = k" "psm_ValidatorIndex m = rsh_ValidatorIndex share" "psm_SigningRoot m = r"
      "copy_into 96 (psm_PartialSignature m) = psm_PartialSignature m"
      "is_Ok (verifyBeaconPartialSignature B k (psm_PartialSignature m) r (rsh_Committee share))"
    using assms(2) by (simp_all add: honest_msg_def copy_into_length)
  show ?thesis
  proof (cases "map_of (rootEntries c (rsh_ValidatorIndex share) r) k")
    case None
    then show ?thesis
      using m by (simp add: has_valid_def processPartialSig_def HasSignature_def rootEntries_AddSignature)
  next
    case (Some s)
    then show ?thesis
      using m assms(1)
      by (simp add: has_valid_def processPartialSig_def HasSignature_def resolveDuplicateSignature_def GetSignature_def
          Let_def rootEntries_AddSignature map_of_Remove)
  qed
qed

lemma psc_ok_process: "psc_ok c \<Longrightarrow> psc_ok (processPartialSig B shares m c)"
  by (simp add: processPartialSig_def psc_ok_resolve psc_ok_AddSignature)

lemma Quorum_process [simp]: "psc_Quorum (processPartialSig B shares m c) = psc_Quorum c"
  by (simp add: processPartialSig_def resolveDuplicateSignature_def AddSignature_def Let_def split: option.split)

text \<open>Entries of other validators are left alone, and the check of every share keeps the valid ones.\<close>

lemma rootEntries_process_other:
  "vi \<noteq> psm_ValidatorIndex m \<Longrightarrow> rootEntries (processPartialSig B shares m c) vi r = rootEntries c vi r"
  by (simp add: processPartialSig_def resolveDuplicateSignature_def AddSignature_def Let_def rootEntries_setRootSigs
      rootEntries_Remove split: option.split)

lemma signers_process:
  "fst ` set (rootEntries (processPartialSig B shares m c) vi r) \<subseteq> insert (psm_Signer m) (fst ` set (rootEntries c vi r))"
proof -
  have "map_of (rootEntries (processPartialSig B shares m c) vi r) k = None"
    if "k \<noteq> psm_Signer m" "map_of (rootEntries c vi r) k = None" for k
    using that by (simp add: processPartialSig_def resolveDuplicateSignature_def Let_def rootEntries_AddSignature
        map_of_Remove split: option.split)
  then show ?thesis
    by (auto simp: map_of_eq_None_iff)
qed

lemma signers_FallBack:
  "psc_ok c \<Longrightarrow> fst ` set (rootEntries (FallBackAndVerifyEachSignature B c r cm vi) vi r) \<subseteq> fst ` set (rootEntries c vi r)"
  by (auto simp: rootEntries_FallBack psc_ok_entries)

lemma has_valid_iff:
  "psc_ok c \<Longrightarrow> has_valid B share r c k \<longleftrightarrow> k \<in> fst ` set (valid_entries B c r share)"
  by (force simp: has_valid_def valid_entries_def psc_ok_entries dest: map_of_SomeD)

lemma has_valid_FallBack:
  assumes "psc_ok c" "has_valid B share r c k"
  shows "has_valid B share r (FallBackAndVerifyEachSignature B c r (rsh_Committee share) (rsh_ValidatorIndex share)) k"
  using assms by (simp add: has_valid_iff psc_ok_FallBack)
    (simp add: valid_entries_def rootEntries_FallBack psc_ok_entries)

section \<open>One pre-consensus message\<close>

text \<open>The runner with another container of pre-consensus signatures.\<close>

definition setPre :: "PartialSigContainer \<Rightarrow> ('c, 'm) BaseRunner_scheme \<Rightarrow> ('c, 'm) BaseRunner_scheme" where
  "setPre c b = upd_RunnerState (\<lambda>s. s\<lparr>rs_PreConsensusContainer := c\<rparr>) b"

lemma setPre_simps [simp]:
  "setPre c (setPre c' b) = setPre c b"
  "br_State (setPre c b) = map_option (\<lambda>s. s\<lparr>rs_PreConsensusContainer := c\<rparr>) (br_State b)"
  "br_Share (setPre c b) = br_Share b" "br_Role (setPre c b) = br_Role b"
  "br_NetworkConfig (setPre c b) = br_NetworkConfig b" "GetShare (setPre c b) = GetShare b"
  "BaseRunner.more (setPre c b) = BaseRunner.more b"
  by (simp_all add: setPre_def upd_RunnerState_def GetShare_def option.map_comp comp_def)

lemma setPre_id: "br_State b = Some s \<Longrightarrow> setPre (rs_PreConsensusContainer s) b = b"
  by (simp add: setPre_def upd_RunnerState_def)

lemma currentDutyEpoch_setPre [simp]: "currentDutyEpoch (setPre c b) = currentDutyEpoch b"
  by (cases "br_State b") (simp_all add: currentDutyEpoch_def)

lemma validatePartialSigMsg_setPre [simp]: "validatePartialSigMsg X (setPre c b) m slot = validatePartialSigMsg X b m slot"
  by (simp add: validatePartialSigMsg_def)

lemma verifyExpectedRoot_setPre [simp]:
  "verifyExpectedRoot X E (setPre c b) m objs d = verifyExpectedRoot X E b m objs d"
  by (simp add: verifyExpectedRoot_def)

lemma currentValidatorDuty_setPre [simp]: "currentValidatorDuty (setPre c b) = currentValidatorDuty b"
  by (cases "br_State b") (simp_all add: currentValidatorDuty_def)

lemma currentDutySlot_setPre [simp]: "currentDutySlot (setPre c b) = currentDutySlot b"
  by (cases "br_State b") (simp_all add: currentDutySlot_def)

text \<open>The signing root of the only object a duty is about.\<close>

definition signs_root ::
    "'o runnerspec \<Rightarrow> ('c, 'm, 'o) runnerI \<Rightarrow> 'o renv \<Rightarrow> ('c, 'm) BaseRunner_scheme \<Rightarrow> root \<Rightarrow> bool" where
  "signs_root X I E b r \<longleftrightarrow>
     (\<exists>obj sd epoch d. ri_expectedPre I b = Ok ([obj], sd) \<and> currentDutyEpoch b = Ok epoch \<and>
        re_DomainData E epoch sd = Inr d \<and> x_ComputeETHSigningRoot X obj d = Inr r)"

text \<open>
  The container before the quorum: well formed, with shares of committee members only, and not yet
  complete.
\<close>

definition collecting :: "u64 \<Rightarrow> RunnerShare \<Rightarrow> root \<Rightarrow> PartialSigContainer \<Rightarrow> bool" where
  "collecting q share r c \<longleftrightarrow>
     psc_ok c \<and> psc_Quorum c = q \<and> \<not> fst (psHasQuorum c (rsh_ValidatorIndex share) r) \<and>
     fst ` set (rootEntries c (rsh_ValidatorIndex share) r) \<subseteq> Signer ` set (rsh_Committee share)"

text \<open>Reconstruction ends with a verified signature, or throws out what is invalid and goes on collecting.\<close>

lemma reconstruct_or_collect:
  assumes ok: "psc_ok c" and thr: "threshold_scheme B (psc_Quorum c) share r" and pos: "0 < psc_Quorum c"
    and signers: "fst ` set (rootEntries c (rsh_ValidatorIndex share) r) \<subseteq> Signer ` set (rsh_Committee share)"
  obtains (signed_root) sig p c' where
    "reconstructQuorumSig B c r share phase = (Ok (copy_into 96 (bls_Serialize B sig)), c')"
    "bls_PublicKey B (rsh_ValidatorPubKey share) = Inr p" "bls_VerifyByte B sig p r"
  | (again) err c' where "reconstructQuorumSig B c r share phase = (Err (RRecoverable err), c')"
    "collecting (psc_Quorum c) share r c'" "\<forall>k. has_valid B share r c k \<longrightarrow> has_valid B share r c' k"
proof -
  obtain result c' where rec: "reconstructQuorumSig B c r share phase = (result, c')"
    by fastforce
  from ok rec show thesis
  proof (cases rule: reconstructQuorumSig_cases)
    case (at_once sig)
    then show thesis
      using ReconstructBeaconSig_Ok [OF at_once(3)] rec by (auto intro: signed_root)
  next
    case (retried sig)
    then show thesis
      using ReconstructBeaconSig_Ok [OF retried(3)] rec by (auto intro: signed_root)
  next
    case (below w err)
    have "collecting (psc_Quorum c) share r c'"
      using below ok subset_trans [OF signers_FallBack [OF ok] signers, of B "rsh_Committee share"]
      by (simp add: collecting_def quorum_FallBack psc_ok_FallBack not_le)
    then show thesis
      using has_valid_FallBack [OF ok] below rec by (intro again) auto
  next
    case (terminal w err)
    then show thesis
      using invalid_shares_do_not_block [OF ok thr pos, of phase] rec by (auto simp: not_less)
  qed
qed

text \<open>
  What the three handlers have in common: collect the message and, once a root has just reached its
  quorum, reconstruct its signature and hand it to \<open>submit\<close>.
\<close>

definition collectThenSubmit ::
    "('p, 's, 'i) bls \<Rightarrow> 'o runnerspec \<Rightarrow> ('c, 'm, 'o) runnerI \<Rightarrow> (run_err \<Rightarrow> run_err)
       \<Rightarrow> (bytes \<Rightarrow> ('c, 'm) BaseRunner_scheme \<Rightarrow> ('c, 'm, unit) rhandler)
       \<Rightarrow> 'o renv \<Rightarrow> PartialSignatureMessages \<Rightarrow> ('c, 'm) BaseRunner_scheme \<Rightarrow> ('c, 'm, unit) rhandler" where
  "collectThenSubmit B X I wrap submit E signedMsg r =
     bind_st (map_err_st wrap (basePreConsensusMsgProcessing B X I E signedMsg r)) (\<lambda>(hasQuorum, roots) r.
       if \<not> hasQuorum then (Ok (), r)
       else deferMarkFailed (bind_st (reconstructFirstRoot B False roots r) submit))"

lemma collecting_new: "0 < q \<Longrightarrow> collecting q share r (rs_PreConsensusContainer (NewRunnerState q d))"
  by (simp add: collecting_def NewRunnerState_def)
    (simp add: psHasQuorum_def rootEntries_def rootSigs_def NewPartialSigContainer_def len_u64_def not_le word_gt_0)

text \<open>A sequence of such messages, each with what its processing meets outside.\<close>

definition collect_run :: "('e \<Rightarrow> 'a \<Rightarrow> 'b \<Rightarrow> 'x \<times> 'b) \<Rightarrow> ('e \<times> 'a) list \<Rightarrow> 'b \<Rightarrow> 'b" where
  "collect_run step ms b = fold (\<lambda>(E, m) b. snd (step E m b)) ms b"

lemma collect_run_grows:
  assumes "\<And>E m b. \<exists>xs. subs (snd (step E m b)) = subs b @ xs"
  shows "\<exists>xs. subs (collect_run step ms b) = subs b @ xs"
proof (induction ms arbitrary: b)
  case (Cons x ms)
  then show ?case
    using assms by (cases x) (metis (no_types, lifting) append.assoc case_prod_conv collect_run_def fold_simps(2))
qed (simp add: collect_run_def)

lemma collecting_incomplete:
  assumes "length (rsh_Committee share) < 2 ^ 64" "unat q \<le> card H" "collecting q share r c"
  shows "\<not> (\<forall>k \<in> H. has_valid B share r c k)"
proof
  assume all: "\<forall>k \<in> H. has_valid B share r c k"
  let ?es = "rootEntries c (rsh_ValidatorIndex share) r"
  have sub: "fst ` set ?es \<subseteq> Signer ` set (rsh_Committee share)" and d: "distinct (map fst ?es)"
    and low: "len_u64 ?es < q"
    using assms(3) by (auto simp: collecting_def psHasQuorum_def Let_def psc_ok_entries)
  have "length ?es = card (fst ` set ?es)"
    using d by (metis distinct_card length_map list.set_map)
  moreover have "card (fst ` set ?es) \<le> length (rsh_Committee share)"
    using sub by (meson List.finite_set card_image_le card_length card_mono finite_imageI order_trans)
  moreover have "H \<subseteq> fst ` set ?es"
    using all by (force simp: has_valid_def dest: map_of_SomeD)
  then have "card H \<le> card (fst ` set ?es)"
    by (intro card_mono) auto
  ultimately show False
    using low assms(1,2) by (simp add: len_u64_def word_less_nat_alt unat_of_nat)
qed

text \<open>
  A runner whose duty is about one object: the object it expects signatures for does not depend on
  the signatures collected so far.
\<close>

locale single_root_runner =
  fixes I :: "('c, 'm, 'o) runnerI"
  assumes expectedPre_setPre: "ri_expectedPre I (setPre c b) = ri_expectedPre I b"
    and expectedPre_single: "ri_expectedPre I b = Ok (objs, sd) \<Longrightarrow> \<exists>obj. objs = [obj]"
begin

lemma ValidatePre_setPre:
  "ValidatePreConsensusMsg X I E (setPre c b) m = ValidatePreConsensusMsg X I E b m"
  unfolding ValidatePreConsensusMsg_def verifyExpectedRoot_setPre
  by (cases "br_State b") (simp_all add: expectedPre_setPre)

lemma ValidatePre_Ok:
  assumes "ValidatePreConsensusMsg X I E b m = Ok ()" "br_Role b \<noteq> RoleAggregatorCommittee"
  obtains s e r where "br_State b = Some s" "\<not> rs_Succeeded s" "signs_root X I E b r"
    "ps_Messages m = [e]" "psm_SigningRoot e = r"
proof -
  obtain s where s: "br_State b = Some s" "\<not> rs_Succeeded s"
    using assms(1) by (auto simp: ValidatePreConsensusMsg_def split: option.splits if_splits)
  obtain objs sd where pre: "ri_expectedPre I b = Ok (objs, sd)" "verifyExpectedRoot X E b m objs sd = Ok ()"
    using assms s by (auto simp: ValidatePreConsensusMsg_def bind_res_Ok_iff)
  obtain obj where obj: "objs = [obj]"
    using expectedPre_single [OF pre(1)] by blast
  have "length (ps_Messages m) = Suc 0"
    using pre(2) obj by (auto simp: verifyExpectedRoot_def bind_res_Ok_iff ensure_Ok_iff)
  then obtain e where e: "ps_Messages m = [e]"
    by (auto simp: length_Suc_conv)
  obtain epoch d r where "currentDutyEpoch b = Ok epoch" "re_DomainData E epoch sd = Inr d"
      "x_ComputeETHSigningRoot X obj d = Inr r" "psm_SigningRoot e = r"
    using pre(2) obj e by (auto simp: verifyExpectedRoot_def bind_res_Ok_iff ensure_Ok_iff of_sum_Ok_iff Let_def)
  then show thesis
    using that s e pre(1) obj by (auto simp: signs_root_def)
qed

lemma basePre_eq:
  assumes "br_Role b \<noteq> RoleAggregatorCommittee" "br_State b = Some s" "rs_PreConsensusContainer s = c"
    "ValidatePreConsensusMsg X I E b m = Ok ()"
  obtains e r where "ps_Messages m = [e]" "psm_SigningRoot e = r" "signs_root X I E b r" "\<not> rs_Succeeded s"
    "basePreConsensusMsgProcessing B X I E m b =
       (let c' = processPartialSig B (br_Share b) e c;
            q = (\<not> fst (psHasQuorum c (psm_ValidatorIndex e) r) \<and> fst (psHasQuorum c' (psm_ValidatorIndex e) r))
        in (Ok (q, if q then [r] else []), setPre c' b))"
proof -
  obtain s' e r where e: "br_State b = Some s'" "\<not> rs_Succeeded s'" "signs_root X I E b r"
      "ps_Messages m = [e]" "psm_SigningRoot e = r"
    using ValidatePre_Ok [OF assms(4,1)] .
  have "basePreConsensusMsgProcessing B X I E m b =
       (let c' = processPartialSig B (br_Share b) e c;
            q = (\<not> fst (psHasQuorum c (psm_ValidatorIndex e) r) \<and> fst (psHasQuorum c' (psm_ValidatorIndex e) r))
        in (Ok (q, if q then [r] else []), setPre c' b))"
    using assms e
    by (simp add: basePreConsensusMsgProcessing_def bind_st_eq Let_def case_prod_beta addQuorumRoot_def setPre_def)
  then show thesis
    using that e assms(2) by auto
qed

lemma collect_refused:
  assumes "ValidatePreConsensusMsg X I E b m \<noteq> Ok ()"
  shows "snd (collectThenSubmit B X I wrap submit E m b) = b"
  using assms by (cases "ValidatePreConsensusMsg X I E b m")
    (simp_all add: collectThenSubmit_def basePreConsensusMsgProcessing_def bind_st_eq)

text \<open>An accepted message is added to the container, and a root that reached its quorum is reconstructed.\<close>

lemma collect_accepted:
  assumes role: "br_Role b \<noteq> RoleAggregatorCommittee" and share: "br_Share b = [(rsh_ValidatorIndex share, share)]"
    and state: "br_State b = Some s" and root: "\<forall>r'. signs_root X I E b r' \<longrightarrow> r' = r"
    and valid: "ValidatePreConsensusMsg X I E b m = Ok ()"
  obtains e c' where "ps_Messages m = [e]" "psm_Signer e \<in> Signer ` set (rsh_Committee share)"
    "c' = processPartialSig B (br_Share b) e c"
    "collectThenSubmit B X I wrap submit E m (setPre c b) =
       (if \<not> fst (psHasQuorum c (psm_ValidatorIndex e) r) \<and> fst (psHasQuorum c' (psm_ValidatorIndex e) r)
        then (case reconstructQuorumSig B c' r share ''pre-consensus'' of
                (result, c2) \<Rightarrow> deferMarkFailed (bind_st (result, setPre c2 b) submit))
        else (Ok (), setPre c' b))"
proof -
  have map_share: "GetShare b = Some share"
    by (simp add: share GetShare_def)
  obtain e r' where e: "ps_Messages m = [e]" "signs_root X I E (setPre c b) r'"
    and run: "basePreConsensusMsgProcessing B X I E m (setPre c b) =
       (let c' = processPartialSig B (br_Share b) e c;
            q = (\<not> fst (psHasQuorum c (psm_ValidatorIndex e) r') \<and> fst (psHasQuorum c' (psm_ValidatorIndex e) r'))
        in (Ok (q, if q then [r'] else []), setPre c' b))"
    by (rule basePre_eq [of "setPre c b" "s\<lparr>rs_PreConsensusContainer := c\<rparr>" c X E m B])
      (use role state valid in \<open>auto simp: ValidatePre_setPre\<close>)
  have r': "r' = r"
    using e(2) root by (auto simp: signs_root_def expectedPre_setPre)
  have signer: "psm_Signer e \<in> Signer ` set (rsh_Committee share)"
    using valid state e(1) map_share
    by (force simp: ValidatePreConsensusMsg_def validatePartialSigMsg_def PartialSigMsgSigner_def bind_res_Ok_iff
        ensure_Ok_iff split: if_splits)
  show thesis
    using run r' state
    by (intro that [OF e(1) signer refl])
      (simp add: collectThenSubmit_def reconstructFirstRoot_def map_share Let_def setPre_def [symmetric] split: prod.split)
qed

lemma collect_step:
  assumes role: "br_Role b \<noteq> RoleAggregatorCommittee" and share: "br_Share b = [(rsh_ValidatorIndex share, share)]"
    and state: "br_State b = Some s" and c: "collecting q share r c" and thr: "threshold_scheme B q share r"
    and root: "\<forall>r'. signs_root X I E b r' \<longrightarrow> r' = r"
  obtains (collected) c' where
    "snd (collectThenSubmit B X I wrap submit E m (setPre c b)) = setPre c' b" "collecting q share r c'"
    "\<forall>k. has_valid B share r c k \<longrightarrow> has_valid B share r c' k"
    "\<forall>k. \<forall>e \<in> set (ps_Messages m). ValidatePreConsensusMsg X I E b m = Ok () \<longrightarrow> honest_msg B share r k e
       \<longrightarrow> has_valid B share r c' k"
  | (submitted) c' sig p where
    "collectThenSubmit B X I wrap submit E m (setPre c b) =
       deferMarkFailed (submit (copy_into 96 (bls_Serialize B sig)) (setPre c' b))"
    "bls_PublicKey B (rsh_ValidatorPubKey share) = Inr p" "bls_VerifyByte B sig p r"
proof (cases "ValidatePreConsensusMsg X I E b m = Ok ()")
  case False
  then show thesis
    using collect_refused [of X E "setPre c b" m B wrap submit] c
    by (intro collected [of c]) (simp_all add: ValidatePre_setPre)
next
  case True
  obtain e c1 where e: "ps_Messages m = [e]" "psm_Signer e \<in> Signer ` set (rsh_Committee share)" and c1: "c1 = processPartialSig B (br_Share b) e c"
    and run: "collectThenSubmit B X I wrap submit E m (setPre c b) =
       (if \<not> fst (psHasQuorum c (psm_ValidatorIndex e) r) \<and> fst (psHasQuorum c1 (psm_ValidatorIndex e) r)
        then (case reconstructQuorumSig B c1 r share ''pre-consensus'' of
                (result, c2) \<Rightarrow> deferMarkFailed (bind_st (result, setPre c2 b) submit))
        else (Ok (), setPre c1 b))"
    by (rule collect_accepted [OF role share state root True, of B c wrap submit])
  have inv: "psc_ok c1" "psc_Quorum c1 = q" "0 < q"
    using c by (auto simp: c1 collecting_def psc_ok_process psHasQuorum_def Let_def word_gt_0)
  have signers: "fst ` set (rootEntries c1 (rsh_ValidatorIndex share) r) \<subseteq> Signer ` set (rsh_Committee share)"
    using c e(2) subset_trans [OF signers_process [of B "br_Share b" e c "rsh_ValidatorIndex share" r]]
    by (simp add: c1 collecting_def)
  have keep: "has_valid B share r c k \<Longrightarrow> has_valid B share r c1 k"
    and gain: "honest_msg B share r k e \<Longrightarrow> has_valid B share r c1 k" for k
    unfolding c1 by (simp_all add: share processPartialSig_keeps processPartialSig_gains)
  show thesis
  proof (cases "\<not> fst (psHasQuorum c (psm_ValidatorIndex e) r) \<and> fst (psHasQuorum c1 (psm_ValidatorIndex e) r)")
    case False
    have "collecting q share r c1"
      using False c inv signers by (cases "psm_ValidatorIndex e = rsh_ValidatorIndex share")
        (auto simp: collecting_def psHasQuorum_def Let_def c1 rootEntries_process_other)
    then show thesis
      using False run keep gain e by (intro collected [of c1]) auto
  next
    case True
    have "threshold_scheme B (psc_Quorum c1) share r" "0 < psc_Quorum c1"
      using thr inv by simp_all
    from inv(1) this signers show thesis
      by (cases rule: reconstruct_or_collect [where phase = "''pre-consensus''"])
        (use True run keep gain inv e in \<open>auto intro: collected submitted\<close>)
  qed
qed

text \<open>Whatever the BLS scheme does, something is submitted only with a verified signature over the expected root.\<close>

lemma collect_sound:
  assumes role: "br_Role b \<noteq> RoleAggregatorCommittee" and share: "br_Share b = [(rsh_ValidatorIndex share, share)]"
    and ok: "\<forall>s. br_State b = Some s \<longrightarrow> psc_ok (rs_PreConsensusContainer s)"
  obtains (quiet) c e where "snd (collectThenSubmit B X I wrap submit E m b) \<in> {b, setPre c b, markDutyFailed e (setPre c b)}"
  | (submitted) r c sig p where "signs_root X I E b r"
    "collectThenSubmit B X I wrap submit E m b =
       deferMarkFailed (submit (copy_into 96 (bls_Serialize B sig)) (setPre c b))"
    "bls_PublicKey B (rsh_ValidatorPubKey share) = Inr p" "bls_VerifyByte B sig p r"
proof (cases "ValidatePreConsensusMsg X I E b m = Ok ()")
  case False
  then show thesis
    using collect_refused [of X E b m B wrap submit] by (intro quiet) simp
next
  case True
  obtain s r where s: "br_State b = Some s" and r: "signs_root X I E b r"
    using ValidatePre_Ok [OF True role] by metis
  have "\<forall>r'. signs_root X I E b r' \<longrightarrow> r' = r"
    using r by (auto simp: signs_root_def)
  then obtain e c1 where c1: "c1 = processPartialSig B (br_Share b) e (rs_PreConsensusContainer s)"
    and run: "collectThenSubmit B X I wrap submit E m b =
       (if \<not> fst (psHasQuorum (rs_PreConsensusContainer s) (psm_ValidatorIndex e) r) \<and> fst (psHasQuorum c1 (psm_ValidatorIndex e) r)
        then (case reconstructQuorumSig B c1 r share ''pre-consensus'' of
                (result, c2) \<Rightarrow> deferMarkFailed (bind_st (result, setPre c2 b) submit))
        else (Ok (), setPre c1 b))"
    using collect_accepted [OF role share s _ True, of r B "rs_PreConsensusContainer s" wrap submit] setPre_id [OF s] by metis
  have "psc_ok c1"
    using ok s by (simp add: c1 psc_ok_process)
  moreover obtain result c2 where rec: "reconstructQuorumSig B c1 r share ''pre-consensus'' = (result, c2)"
    by fastforce
  ultimately show thesis
    by (cases rule: reconstructQuorumSig_cases)
      (use run rec r in \<open>auto intro: quiet dest!: ReconstructBeaconSig_Ok intro: submitted split: if_splits\<close>)
qed

text \<open>When the arriving messages contain a quorum of valid shares, one of them leads to a submission.\<close>

lemma run_reaches_submit:
  assumes role: "br_Role b \<noteq> RoleAggregatorCommittee" and share: "br_Share b = [(rsh_ValidatorIndex share, share)]"
    and state: "br_State b = Some s" and thr: "threshold_scheme B q share r"
    and committee: "length (rsh_Committee share) < 2 ^ 64" and card: "unat q \<le> card H"
    and "collecting q share r c" "\<forall>(E, m) \<in> set ms. \<forall>r'. signs_root X I E b r' \<longrightarrow> r' = r"
    and "\<forall>k \<in> H. has_valid B share r c k \<or> (\<exists>(E, m) \<in> set ms. ValidatePreConsensusMsg X I E b m = Ok () \<and>
           (\<exists>e \<in> set (ps_Messages m). honest_msg B share r k e))"
  shows "\<exists>before E m after c' sig p. ms = before @ (E, m) # after \<and>
    collectThenSubmit B X I wrap submit E m (collect_run (collectThenSubmit B X I wrap submit) before (setPre c b)) =
      deferMarkFailed (submit (copy_into 96 (bls_Serialize B sig)) (setPre c' b)) \<and>
    bls_PublicKey B (rsh_ValidatorPubKey share) = Inr p \<and> bls_VerifyByte B sig p r"
  using assms(7-)
proof (induction ms arbitrary: c)
  case Nil
  then show ?case
    using collecting_incomplete [OF committee card, of r c B] by auto
next
  case (Cons x ms)
  obtain E m where x: "x = (E, m)"
    by (cases x)
  have "\<forall>r'. signs_root X I E b r' \<longrightarrow> r' = r"
    using Cons.prems(2) x by auto
  from role share state Cons.prems(1) thr this show ?case
  proof (cases rule: collect_step [where m = m and wrap = wrap and submit = submit])
    case (collected c')
    have "collecting q share r c'" "\<forall>(E, m) \<in> set ms. \<forall>r'. signs_root X I E b r' \<longrightarrow> r' = r"
      using collected(2) Cons.prems(2) by auto
    moreover have "\<forall>k \<in> H. has_valid B share r c' k \<or> (\<exists>(E, m) \<in> set ms. ValidatePreConsensusMsg X I E b m = Ok () \<and>
           (\<exists>e \<in> set (ps_Messages m). honest_msg B share r k e))"
      using collected(3,4) Cons.prems(3) x by fastforce
    ultimately obtain before E' m' after c2 sig p where "ms = before @ (E', m') # after"
      "collectThenSubmit B X I wrap submit E' m' (collect_run (collectThenSubmit B X I wrap submit) before (setPre c' b)) =
         deferMarkFailed (submit (copy_into 96 (bls_Serialize B sig)) (setPre c2 b))"
      "bls_PublicKey B (rsh_ValidatorPubKey share) = Inr p" "bls_VerifyByte B sig p r"
      using Cons.IH [of c'] by blast
    then show ?thesis
      using collected(1) x by (intro exI [of _ "x # before"]) (auto simp: collect_run_def)
  next
    case (submitted c' sig p)
    then show ?thesis
      using x by (intro exI [of _ "[]"]) (auto simp: collect_run_def)
  qed
qed

end

section \<open>The three runners\<close>

lemma upd_RunnerState_more [simp]:
  "ver_voluntaryExit (upd_RunnerState f r) = ver_voluntaryExit r" "ver_submitted (upd_RunnerState f r) = ver_submitted r"
  "vrr_gasLimit (upd_RunnerState f r2) = vrr_gasLimit r2" "vrr_enqueued (upd_RunnerState f r2) = vrr_enqueued r2"
  "ptc_payloadAttestationData (upd_RunnerState f r3) = ptc_payloadAttestationData r3"
  "ptc_submitted (upd_RunnerState f r3) = ptc_submitted r3"
  by (simp_all add: upd_RunnerState_def)

lemma setPre_more [simp]:
  "ver_voluntaryExit (setPre c r) = ver_voluntaryExit r" "ver_submitted (setPre c r) = ver_submitted r"
  "vrr_gasLimit (setPre c r2) = vrr_gasLimit r2" "vrr_enqueued (setPre c r2) = vrr_enqueued r2"
  "ptc_payloadAttestationData (setPre c r3) = ptc_payloadAttestationData r3"
  "ptc_submitted (setPre c r3) = ptc_submitted r3"
  by (simp_all add: setPre_def)

lemma concludeDuty_more [simp]:
  "ver_submitted (concludeDuty x y r) = ver_submitted r" "vrr_enqueued (concludeDuty x y r2) = vrr_enqueued r2"
  "ptc_submitted (concludeDuty x y r3) = ptc_submitted r3"
  "ptc_payloadAttestationData (concludeDuty x y r3) = ptc_payloadAttestationData r3"
  "ver_voluntaryExit (concludeDuty x y r) = ver_voluntaryExit r"
  "br_State (concludeDuty x y b) = br_State b" "br_Role (concludeDuty x y b) = br_Role b" "br_Share (concludeDuty x y b) = br_Share b"
  by (simp_all add: concludeDuty_def)

interpretation exit_runner: single_root_runner exitI
  by unfold_locales
    (auto simp: exitI_def exitExpectedPre_def calculateVoluntaryExit_def bind_res_Ok_iff)

interpretation registration_runner: single_root_runner "registrationI getFeeRecipient" for getFeeRecipient
  by unfold_locales
    (auto simp: registrationI_def registrationExpectedPre_def buildValidatorRegistration_def bind_res_Ok_iff)

interpretation ptc_runner: single_root_runner ptcI
  by unfold_locales (auto simp: ptcI_def ptcExpectedPre_def split: option.splits)

text \<open>What the base does to a runner before something is submitted only touches the container.\<close>

lemma basePre_state:
  obtains c where "snd (basePreConsensusMsgProcessing B X I E m b) = setPre c b"
  | "snd (basePreConsensusMsgProcessing B X I E m b) = b"
  by (cases "ValidatePreConsensusMsg X I E b m"; cases "br_State b")
    (auto simp: basePreConsensusMsgProcessing_def bind_st_eq case_prod_beta Let_def setPre_def)

lemma reconstruct_state:
  obtains c where "snd (reconstructFirstRoot B False roots b) = setPre c b"
  | "snd (reconstructFirstRoot B False roots b) = b"
  by (cases roots; cases "GetShare b"; cases "br_State b")
    (auto simp: reconstructFirstRoot_def setPre_def case_prod_beta)

lemma deferMarkFailed_state:
  "snd (deferMarkFailed x) = snd x \<or> (\<exists>e. snd (deferMarkFailed x) = markDutyFailed e (snd x))"
  by (cases x rule: deferMarkFailed.cases) auto

lemma collect_preserves:
  assumes "P b" and pre: "\<And>c b. P b \<Longrightarrow> P (setPre c b)" and failed: "\<And>e b. P b \<Longrightarrow> P (markDutyFailed e b)"
    and submit: "\<And>sig b. P b \<Longrightarrow> P (snd (submit sig b))"
  shows "P (snd (collectThenSubmit B X I wrap submit E m b))"
proof -
  have rec: "P b \<Longrightarrow> P (snd (reconstructFirstRoot B False roots b))" for roots b
    using pre by (cases rule: reconstruct_state [of B roots b]) simp_all
  have deferred: "P (snd x) \<Longrightarrow> P (snd (deferMarkFailed x))" for x
    using deferMarkFailed_state [of x] failed by auto
  have base: "P (snd (basePreConsensusMsgProcessing B X I E m b))"
    using assms(1) pre by (cases rule: basePre_state [of B X I E m b]) simp_all
  have "P b \<Longrightarrow> P (snd (deferMarkFailed (bind_st (reconstructFirstRoot B False roots b) submit)))" for roots b
    using rec submit by (intro deferred) (simp add: snd_bind_st split: res.split)
  then show ?thesis
    using base by (auto simp: collectThenSubmit_def snd_bind_st split: res.split)
qed

lemma collect_grows:
  assumes "\<And>c b. subs (setPre c b) = subs b" "\<And>e b. subs (markDutyFailed e b) = subs b"
    and "\<And>sig b. \<exists>xs. subs (snd (submit sig b)) = subs b @ xs"
  shows "\<exists>xs. subs (snd (collectThenSubmit B X I wrap submit E m b)) = subs b @ xs"
  by (rule collect_preserves [where P = "\<lambda>b'. \<exists>xs. subs b' = subs b @ xs"])
    (use assms in \<open>auto, metis append.assoc\<close>)

text \<open>The handlers are instances of \<^const>\<open>collectThenSubmit\<close>.\<close>

lemma exit_collect:
  "exitProcessPreConsensus B X E submit m r =
     collectThenSubmit B X exitI (RWrap ''failed processing voluntary exit message'') (exitSubmit submit) E m r"
  by (simp add: exitProcessPreConsensus_def collectThenSubmit_def)

lemma exit_run_collect:
  "collect_run (\<lambda>E. exitProcessPreConsensus B X E submit) =
     collect_run (collectThenSubmit B X exitI (RWrap ''failed processing voluntary exit message'') (exitSubmit submit))"
  by (simp add: fun_eq_iff collect_run_def exit_collect)

lemma registration_collect:
  "registrationProcessPreConsensus B g X E submit m r =
     collectThenSubmit B X (registrationI g) (RWrap ''failed processing validator registration message'')
       (registrationSubmit g submit) E m r"
  by (simp add: registrationProcessPreConsensus_def collectThenSubmit_def)

lemma ptc_collect:
  assumes "ptc_payloadAttestationData r = Some data"
  shows "ptcProcessPreConsensus B X E submit m r =
     collectThenSubmit B X ptcI (RWrap ''failed processing payload attestation message'') (ptcSubmit submit data) E m r"
proof -
  have "ptc_payloadAttestationData (snd (basePreConsensusMsgProcessing B X ptcI E m r)) = Some data"
    using assms by (cases rule: basePre_state [of B X ptcI E m r]) simp_all
  then show ?thesis
    by (simp add: ptcProcessPreConsensus_def collectThenSubmit_def bind_st_eq split: res.split)
qed

lemma markDutyFailed_more [simp]:
  "ver_submitted (markDutyFailed e r) = ver_submitted r" "vrr_enqueued (markDutyFailed e r2) = vrr_enqueued r2"
  "ptc_submitted (markDutyFailed e r3) = ptc_submitted r3"
  "ptc_payloadAttestationData (markDutyFailed e r3) = ptc_payloadAttestationData r3"
  "ver_voluntaryExit (markDutyFailed e r) = ver_voluntaryExit r"
  "br_State (markDutyFailed e b) = br_State b" "br_Role (markDutyFailed e b) = br_Role b" "br_Share (markDutyFailed e b) = br_Share b"
  by (simp_all add: markDutyFailed_def)

lemma deferMarkFailed_more [simp]:
  "ptc_submitted (snd (deferMarkFailed x)) = ptc_submitted (snd x)"
  "ptc_payloadAttestationData (snd (deferMarkFailed x)) = ptc_payloadAttestationData (snd x)"
  using deferMarkFailed_state [of x] by auto

lemma ptcSubmit_more:
  "\<exists>xs. ptc_submitted (snd (ptcSubmit submit data sig r)) = ptc_submitted r @ xs"
  "ptc_payloadAttestationData (snd (ptcSubmit submit data sig r)) = ptc_payloadAttestationData r"
  "GetShare r = Some share \<Longrightarrow>
     ptc_submitted (snd (ptcSubmit submit data sig r)) = ptc_submitted r @ [(rsh_ValidatorIndex share, data, sig)]"
  by (auto simp: ptcSubmit_def snd_bind_st Let_def markDutySucceeded_def split: res.split)

lemma ptc_run_collect:
  assumes "ptc_payloadAttestationData r = Some data"
  shows "collect_run (\<lambda>E. ptcProcessPreConsensus B X E submit) ms r =
    collect_run (collectThenSubmit B X ptcI (RWrap ''failed processing payload attestation message'')
      (ptcSubmit submit data)) ms r"
  using assms
proof (induction ms arbitrary: r)
  case (Cons x ms)
  obtain E m where x: "x = (E, m)"
    by (cases x)
  have "ptc_payloadAttestationData (snd (collectThenSubmit B X ptcI (RWrap ''failed processing payload attestation message'')
          (ptcSubmit submit data) E m r)) = Some data"
    by (rule collect_preserves) (simp_all add: Cons.prems ptcSubmit_more)
  then show ?case
    using Cons.IH Cons.prems by (simp add: collect_run_def x ptc_collect)
qed (simp add: collect_run_def)

text \<open>
  A signature of the validator over an object: it verifies under the key of the validator for the signing
  root of the object in the domain of the epoch of the duty.
\<close>

definition validator_signed ::
    "('p, 's, 'i) bls \<Rightarrow> 'o runnerspec \<Rightarrow> 'o renv \<Rightarrow> ('c, 'm) BaseRunner_scheme \<Rightarrow> bytes \<Rightarrow> SigDomain \<Rightarrow> 'o \<Rightarrow> bytes \<Rightarrow> bool" where
  "validator_signed B X E b validatorPubKey sd obj signature \<longleftrightarrow>
     (\<exists>epoch d r sig p. currentDutyEpoch b = Ok epoch \<and> re_DomainData E epoch sd = Inr d \<and>
        x_ComputeETHSigningRoot X obj d = Inr r \<and> bls_PublicKey B validatorPubKey = Inr p \<and>
        bls_VerifyByte B sig p r \<and> signature = copy_into 96 (bls_Serialize B sig))"

definition containers_ok :: "('c, 'm) BaseRunner_scheme \<Rightarrow> bool" where
  "containers_ok b \<longleftrightarrow>
     (case br_State b of None \<Rightarrow> True
      | Some s \<Rightarrow> psc_ok (rs_PreConsensusContainer s) \<and> psc_ok (rs_PostConsensusContainer s))"

lemma signs_root_state: "signs_root X I E b r \<Longrightarrow> br_State b \<noteq> None"
  by (auto simp: signs_root_def currentDutyEpoch_def bind_res_Ok_iff)

lemma Succeeded_marked [simp]: "hasDutySucceeded (markDutySucceeded b) = (br_State b \<noteq> None)"
  by (cases "br_State b") (simp_all add: hasDutySucceeded_def markDutySucceeded_def upd_RunnerState_def)

lemma deferMarkFailed_Ok: "fst (deferMarkFailed x) = Ok v \<longleftrightarrow> fst x = Ok v"
  by (cases x rule: deferMarkFailed.cases) auto

lemma deferMarkFailed_succeeded [simp]: "hasDutySucceeded (snd (deferMarkFailed x)) = hasDutySucceeded (snd x)"
  using deferMarkFailed_state [of x] by (auto simp: hasDutySucceeded_def)

context single_root_runner
begin

lemma collect_submission:
  assumes "br_Role b \<noteq> RoleAggregatorCommittee" "br_Share b = [(rsh_ValidatorIndex share, share)]" "containers_ok b"
    and quiet: "\<And>c. subs (setPre c b) = subs b" "\<And>e b. subs (markDutyFailed e b) = subs b"
    and adds: "\<And>sig c. subs (snd (submit sig (setPre c b))) \<in> {subs b, subs b @ [f sig]}"
    and succeeds: "\<And>sig c. br_State b \<noteq> None \<Longrightarrow> fst (submit sig (setPre c b)) = Ok () \<Longrightarrow>
      hasDutySucceeded (snd (submit sig (setPre c b)))"
    and step: "collectThenSubmit B X I wrap submit E m b = (result, b')"
  shows "subs b' = subs b \<or>
    (\<exists>obj sd sig. ri_expectedPre I b = Ok ([obj], sd) \<and> subs b' = subs b @ [f sig] \<and>
       validator_signed B X E b (rsh_ValidatorPubKey share) sd obj sig \<and> (result = Ok () \<longrightarrow> hasDutySucceeded b'))"
proof -
  have ok: "\<forall>s. br_State b = Some s \<longrightarrow> psc_ok (rs_PreConsensusContainer s)"
    using assms(3) by (simp add: containers_ok_def split: option.splits)
  from assms(1,2) ok show ?thesis
  proof (cases rule: collect_sound [where B = B and X = X and E = E and m = m and submit = submit and wrap = wrap])
    case quiet: (quiet c e)
    then show ?thesis
      using step assms(4,5) by auto
  next
    case (submitted root c sig p)
    let ?sig = "copy_into 96 (bls_Serialize B sig)"
    have run: "(result, b') = deferMarkFailed (submit ?sig (setPre c b))"
      using step submitted(2) by simp
    have "subs b' = subs (snd (submit ?sig (setPre c b)))"
      using deferMarkFailed_state [of "submit ?sig (setPre c b)"] run assms(5) by (metis snd_conv)
    moreover have "result = Ok () \<longrightarrow> hasDutySucceeded b'"
      using run succeeds [of ?sig c] submitted(1) deferMarkFailed_Ok deferMarkFailed_succeeded
      by (metis fst_conv signs_root_state snd_conv)
    moreover obtain obj sd where "ri_expectedPre I b = Ok ([obj], sd)"
        "validator_signed B X E b (rsh_ValidatorPubKey share) sd obj ?sig"
      using submitted(1,3,4) unfolding signs_root_def validator_signed_def by blast
    ultimately show ?thesis
      using adds [of ?sig c] by auto
  qed
qed

end

lemma ptc_refused:
  assumes "ValidatePreConsensusMsg X ptcI E r m = Err e"
  shows "ptcProcessPreConsensus B X E submit m r =
    (Err (RWrap ''failed processing payload attestation message'' (RWrap ''invalid pre-consensus message'' e)), r)"
  using assms by (simp add: ptcProcessPreConsensus_def basePreConsensusMsgProcessing_def)

lemma ptc_submission:
  assumes "br_Role r = RolePTCAttester" "br_Share r = [(rsh_ValidatorIndex share, share)]" "containers_ok r"
    and step: "ptcProcessPreConsensus B X E submit m r = (result, r')"
  shows "ptc_submitted r' = ptc_submitted r \<or>
    (\<exists>data sig. ptc_payloadAttestationData r = Some data \<and>
       ptc_submitted r' = ptc_submitted r @ [(rsh_ValidatorIndex share, data, sig)] \<and>
       validator_signed B X E r (rsh_ValidatorPubKey share) DomainPTCAttester (ObjPayloadAttestationData data) sig \<and>
       (result = Ok () \<longrightarrow> hasDutySucceeded r'))"
proof (cases "ptc_payloadAttestationData r")
  case None
  then have "ValidatePreConsensusMsg X ptcI E r m \<noteq> Ok ()"
    using assms(1) by (auto simp: ValidatePreConsensusMsg_def bind_res_Ok_iff ptcI_def ptcExpectedPre_def split: option.splits)
  then show ?thesis
    using step by (cases "ValidatePreConsensusMsg X ptcI E r m")
      (auto simp: ptcProcessPreConsensus_def basePreConsensusMsgProcessing_def)
next
  case (Some data)
  have share: "GetShare (setPre c r) = Some share" for c
    using assms(2) by (simp add: GetShare_def)
  have "hasDutySucceeded (snd (ptcSubmit submit data sig (setPre c r)))"
    if "br_State r \<noteq> None" "fst (ptcSubmit submit data sig (setPre c r)) = Ok ()" for sig c
    using that share by (auto simp: ptcSubmit_def bind_st_eq Let_def split: option.splits)
  then show ?thesis
    using ptc_runner.collect_submission [where subs = ptc_submitted and f = "\<lambda>sig. (rsh_ValidatorIndex share, data, sig)",
        OF _ assms(2,3) _ _ _ _ step [unfolded ptc_collect [OF Some]]] assms(1) share Some
    by (fastforce simp: ptcSubmit_more ptcI_def ptcExpectedPre_def)
qed

lemma validator_duty_slot: "currentValidatorDuty b = Ok duty \<Longrightarrow> currentDutySlot b = Ok (vd_Slot duty)"
  by (auto simp: currentValidatorDuty_def currentDutySlot_def split: option.splits
      elim!: validatorDutyFromDuty.elims)

lemma currentValidatorDuty_not_Panic: "currentValidatorDuty b \<noteq> Panic"
proof -
  have "validatorDutyFromDuty d \<noteq> Panic" for d
    by (cases d rule: validatorDutyFromDuty.cases) simp_all
  then show ?thesis
    by (simp add: currentValidatorDuty_def split: option.split)
qed

lemma currentValidatorDuty_failed: "currentValidatorDuty (markDutyFailed e b) = currentValidatorDuty b"
  by (simp add: currentValidatorDuty_def)

lemma build_setPre: "buildValidatorRegistration g (setPre c v) slot = buildValidatorRegistration g v slot"
  by (simp add: buildValidatorRegistration_def)

lemma registration_submission:
  assumes "br_Role v = RoleValidatorRegistration" "br_Share v = [(rsh_ValidatorIndex share, share)]" "containers_ok v"
    and step: "registrationProcessPreConsensus B g X E enqueue m v = (result, v')"
  shows "vrr_enqueued v' = vrr_enqueued v \<or>
    (\<exists>slot registration sig. currentDutySlot v = Ok slot \<and> buildValidatorRegistration g v slot = Ok registration \<and>
       vrr_enqueued v' = vrr_enqueued v @ [(registration, sig)] \<and>
       validator_signed B X E v (rsh_ValidatorPubKey share) DomainApplicationBuilder
         (ObjValidatorRegistration registration) sig \<and>
       (result = Ok () \<longrightarrow> hasDutySucceeded v'))"
proof (cases "currentValidatorDuty v")
  case (Ok duty)
  define f where "f sig = (case buildValidatorRegistration g v (vd_Slot duty) of Ok reg \<Rightarrow> (reg, sig))" for sig :: bytes
  have slot: "currentDutySlot v = Ok (vd_Slot duty)"
    by (rule validator_duty_slot [OF Ok])
  have adds: "vrr_enqueued (snd (registrationSubmit g enqueue sig (setPre c v))) \<in> {vrr_enqueued v, vrr_enqueued v @ [f sig]}" for sig c
    by (auto simp: registrationSubmit_def Ok f_def snd_bind_st build_setPre Let_def markDutySucceeded_def split: res.split)
  have succeeds: "hasDutySucceeded (snd (registrationSubmit g enqueue sig (setPre c v)))"
    if "br_State v \<noteq> None" "fst (registrationSubmit g enqueue sig (setPre c v)) = Ok ()" for sig c
    using that by (auto simp: registrationSubmit_def bind_st_eq Let_def split: res.splits option.splits)
  have "vrr_enqueued v' = vrr_enqueued v \<or>
    (\<exists>obj sd sig. ri_expectedPre (registrationI g) v = Ok ([obj], sd) \<and> vrr_enqueued v' = vrr_enqueued v @ [f sig] \<and>
       validator_signed B X E v (rsh_ValidatorPubKey share) sd obj sig \<and> (result = Ok () \<longrightarrow> hasDutySucceeded v'))"
    by (rule registration_runner.collect_submission [OF _ assms(2,3) _ _ adds succeeds step [unfolded registration_collect]])
      (use assms(1) in simp_all)
  then show ?thesis
    by (auto simp: registrationI_def registrationExpectedPre_def bind_res_Ok_iff slot f_def)
next
  case (Err e)
  have "vrr_enqueued (snd (registrationProcessPreConsensus B g X E enqueue m v)) = vrr_enqueued v \<and>
      currentValidatorDuty (snd (registrationProcessPreConsensus B g X E enqueue m v)) = Err e"
    unfolding registration_collect
    by (rule collect_preserves [where P = "\<lambda>b. vrr_enqueued b = vrr_enqueued v \<and> currentValidatorDuty b = Err e"])
      (use Err in \<open>auto simp: registrationSubmit_def currentValidatorDuty_failed\<close>)
  then show ?thesis
    using step by simp
qed (simp add: currentValidatorDuty_not_Panic)

lemma succeeded_refuses:
  "hasDutySucceeded b \<Longrightarrow> ValidatePreConsensusMsg X I E b m = Err (RWithCode NoRunningDutyErrorCode ErrRunningDutySucceeded)"
  by (auto simp: hasDutySucceeded_def ValidatePreConsensusMsg_def split: option.splits)

lemma ptc_succeeded:
  "hasDutySucceeded r \<Longrightarrow> ptcProcessPreConsensus B X E submit m r = (result, r') \<Longrightarrow> (\<exists>e. result = Err e) \<and> r' = r"
  by (auto simp: ptcProcessPreConsensus_def basePreConsensusMsgProcessing_def succeeded_refuses)

lemma registration_succeeded:
  "hasDutySucceeded v \<Longrightarrow> registrationProcessPreConsensus B g X E enqueue m v = (result, v') \<Longrightarrow>
     (\<exists>e. result = Err e) \<and> v' = v"
  by (auto simp: registrationProcessPreConsensus_def basePreConsensusMsgProcessing_def succeeded_refuses)

section \<open>An example\<close>

text \<open>
  A payload attestation of validator 5 at slot 40 with the example scheme; its signing root is 7 in
  every fork. Operator 4 sends an invalid share first.
\<close>

definition demo_rspec :: "hash_obj runnerspec" where
  "demo_rspec = \<lparr>x_ValidatePartialSigs = (\<lambda>_. None), x_EncodePartialSigs = (\<lambda>_. Inr []),
     x_NewValidatorMsgID = (\<lambda>_ _ _. []), x_ComputeETHSigningRoot = (\<lambda>_ _. Inr [7]),
     x_DecodeMessage = (\<lambda>_. Inl ''not a message''), x_DecodeBeaconVote = (\<lambda>_. None), x_DecodeGloasBeaconVote = (\<lambda>_. None),
     x_DecodeAggregatorCommittee = (\<lambda>_. None), x_OperatorID = 1\<rparr>"

definition demo_renv :: "hash_obj renv" where
  "demo_renv = \<lparr>re_qbft = \<lparr>e_now = 1480000000000, e_SignSSVMessage = (\<lambda>_. Inr [7]), e_BroadcastAtSlot = (\<lambda>_ _. None)\<rparr>,
     re_DomainData = (\<lambda>_ _. Inr [1]), re_SignBeaconObject = (\<lambda>_ _ _ _ _. Inr (1 # 7 # replicate 94 0, [7]))\<rparr>"

definition demo_duty :: ValidatorDuty where
  "demo_duty = \<lparr>vd_Slot = 40, vd_ValidatorIndex = 5, vd_PubKey = [0], vd_CommitteeIndex = 0, vd_CommitteeLength = 0\<rparr>"

definition demo_payload :: PayloadAttestationData where
  "demo_payload = \<lparr>pad_BeaconBlockRoot = replicate 32 3, pad_Slot = 40, pad_PayloadPresent = True, pad_BlobDataAvailable = True\<rparr>"

definition demo_ptc :: "nat PTCAttesterRunner" where
  "demo_ptc = \<lparr>br_State = Some (NewRunnerState 3 (ValidatorDutyPtr (Some demo_duty))), br_Share = [(5, demo_rshare)],
     br_QBFTController = None, br_NetworkConfig = demo_Network, br_Role = RolePTCAttester,
     br_roundTimerF = (\<lambda>slot. New 0 demo_Beacon RolePTCAttester slot False), br_dutyConcluded = True, br_concluded = [],
     br_dutyFailureNoted = Some None, br_deadline = 0, br_deadlineOutcome = dutyOutcomeNoQuorum,
     br_highestDecidedSlot = 0, br_sent = [], ptc_payloadAttestationData = Some demo_payload, ptc_submitted = []\<rparr>"

definition demo_partial :: "PartialSigMsgType \<Rightarrow> nat \<Rightarrow> nat \<Rightarrow> PartialSignatureMessages" where
  "demo_partial ty k b = \<lparr>ps_Type = ty, ps_Slot = 40, ps_Messages =
     [\<lparr>psm_PartialSignature = word_of_nat k # word_of_nat b # replicate 94 0, psm_SigningRoot = [7],
       psm_Signer = word_of_nat k, psm_ValidatorIndex = 5\<rparr>]\<rparr>"

definition demo_arrivals :: "(hash_obj renv \<times> PartialSignatureMessages) list" where
  "demo_arrivals = map (\<lambda>(k, b). (demo_renv, demo_partial PTCAttesterPartialSig k b)) [(4, 9), (1, 7), (2, 7), (3, 7)]"

lemma demo_rshare_fields: "rsh_ValidatorIndex demo_rshare = 5" "length (rsh_Committee demo_rshare) = 4"
  by (simp_all add: demo_rshare_def)

lemma demo_ptc_accepts:
  "\<forall>(E, m) \<in> set demo_arrivals. ValidatePreConsensusMsg demo_rspec ptcI E demo_ptc m = Ok ()"
  by code_simp

lemma demo_honest:
  "\<forall>k \<in> {1, 2, 3}. honest_msg demo_bls demo_rshare [7] (word_of_nat k) (hd (ps_Messages (demo_partial ty k 7)))"
  by code_simp

section \<open>Properties\<close>

definition demo_ptc_waiting :: "nat PTCAttesterRunner" where
  "demo_ptc_waiting =
     setPre (fold (\<lambda>k c. AddSignature c (hd (ps_Messages (demo_partial PTCAttesterPartialSig k 7)))) [1, 2]
               (NewPartialSigContainer 3)) demo_ptc"

definition demo_registration :: "nat ValidatorRegistrationRunner" where
  "demo_registration = BaseRunner.extend
     (BaseRunner.truncate demo_ptc_waiting\<lparr>br_Role := RoleValidatorRegistration\<rparr>)
     (ValidatorRegistrationRunner.fields 30000000 [])"

lemma demo_waiting:
  "br_Role demo_ptc_waiting = RolePTCAttester" "br_Share demo_ptc_waiting = [(5, demo_rshare)]"
  "br_Share demo_registration = [(5, demo_rshare)]" "br_Role demo_registration = RoleValidatorRegistration"
  "containers_ok demo_ptc_waiting" "containers_ok demo_registration"
  by code_simp+

lemma demo_last_share:
  "ptc_submitted (snd (ptcProcessPreConsensus demo_bls demo_rspec demo_renv (\<lambda>_ _ _. None)
     (demo_partial PTCAttesterPartialSig 3 7) demo_ptc_waiting)) \<noteq> ptc_submitted demo_ptc_waiting"
  "vrr_enqueued (snd (registrationProcessPreConsensus demo_bls (\<lambda>_. Inr [9]) demo_rspec demo_renv (\<lambda>_ _. None)
     (demo_partial PTCAttesterPartialSig 3 7) demo_registration)) \<noteq> vrr_enqueued demo_registration"
  by code_simp+

text \<open>
  C11: Honest operators complete a payload attestation. From a runner that is still collecting, when the
  messages that arrive include a valid share of every member of a quorum, then whatever other messages
  arrive before, between or after them - invalid shares, duplicates, messages for other validators or
  slots - the runner hands the payload attestation to the beacon node with a signature that verifies
  under the key of the validator.
\<close>

theorem honest_quorum_submits:
  assumes "br_Role r = RolePTCAttester" "br_Share r = [(rsh_ValidatorIndex share, share)]"
    and "br_State r = Some s" "ptc_payloadAttestationData r = Some data"
    and "collecting q share root (rs_PreConsensusContainer s)" "threshold_scheme B q share root"
    and "length (rsh_Committee share) < 2 ^ 64" "unat q \<le> card H"
    and "\<forall>(E, m) \<in> set ms. \<forall>r'. signs_root X ptcI E r r' \<longrightarrow> r' = root"
    and "\<forall>k \<in> H. \<exists>(E, m) \<in> set ms. ValidatePreConsensusMsg X ptcI E r m = Ok () \<and>
           (\<exists>e \<in> set (ps_Messages m). honest_msg B share root k e)"
  shows "\<exists>sig p. bls_PublicKey B (rsh_ValidatorPubKey share) = Inr p \<and> bls_VerifyByte B sig p root \<and>
    (rsh_ValidatorIndex share, data, copy_into 96 (bls_Serialize B sig)) \<in>
      set (drop (length (ptc_submitted r))
        (ptc_submitted (collect_run (\<lambda>E. ptcProcessPreConsensus B X E submit) ms r)))"
proof -
  have share: "GetShare r = Some share"
    by (simp add: assms(2) GetShare_def)
  let ?step = "collectThenSubmit B X ptcI (RWrap ''failed processing payload attestation message'') (ptcSubmit submit data)"
  have grows: "\<exists>xs. ptc_submitted (collect_run ?step ms b) = ptc_submitted b @ xs" for ms b
    by (rule collect_run_grows, rule collect_grows) (simp_all add: ptcSubmit_more)
  have role: "br_Role r \<noteq> RoleAggregatorCommittee"
    and honest: "\<forall>k \<in> H. has_valid B share root (rs_PreConsensusContainer s) k \<or>
      (\<exists>(E, m) \<in> set ms. ValidatePreConsensusMsg X ptcI E r m = Ok () \<and> (\<exists>e \<in> set (ps_Messages m). honest_msg B share root k e))"
    using assms(1,10) by simp_all
  obtain before E m after c sig p where ms: "ms = before @ (E, m) # after"
    and last: "?step E m (collect_run ?step before r) =
      deferMarkFailed (ptcSubmit submit data (copy_into 96 (bls_Serialize B sig)) (setPre c r))"
    and sig: "bls_PublicKey B (rsh_ValidatorPubKey share) = Inr p" "bls_VerifyByte B sig p root"
    using ptc_runner.run_reaches_submit [OF role assms(2,3,6-8,5,9) honest, of
        "RWrap ''failed processing payload attestation message''" "ptcSubmit submit data"]
    unfolding setPre_id [OF assms(3)] by (elim exE conjE) (rule that)
  let ?r = "snd (deferMarkFailed (ptcSubmit submit data (copy_into 96 (bls_Serialize B sig)) (setPre c r)))"
  have "collect_run ?step ms r = collect_run ?step after ?r"
    by (simp add: ms collect_run_def last [unfolded collect_run_def])
  then show ?thesis
    using sig grows [of after ?r] ptcSubmit_more(3) [of "setPre c r" share submit data] share
    by (auto simp: ptc_run_collect [OF assms(4)])
qed

theorem honest_quorum_submits_witness:
  "\<exists>sig p. bls_PublicKey demo_bls (rsh_ValidatorPubKey demo_rshare) = Inr p \<and> bls_VerifyByte demo_bls sig p [7] \<and>
    (rsh_ValidatorIndex demo_rshare, demo_payload, copy_into 96 (bls_Serialize demo_bls sig)) \<in>
      set (drop (length (ptc_submitted demo_ptc)) (ptc_submitted
        (collect_run (\<lambda>E. ptcProcessPreConsensus demo_bls demo_rspec E (\<lambda>_ _ _. None)) demo_arrivals demo_ptc)))"
proof (rule honest_quorum_submits [where H = "{1, 2, 3}" and q = 3])
  show "\<forall>(E, m) \<in> set demo_arrivals. \<forall>r'. signs_root demo_rspec ptcI E demo_ptc r' \<longrightarrow> r' = [7]"
    by (auto simp: demo_arrivals_def signs_root_def demo_rspec_def)
  show "\<forall>k \<in> {1, 2, 3}. \<exists>(E, m) \<in> set demo_arrivals. ValidatePreConsensusMsg demo_rspec ptcI E demo_ptc m = Ok () \<and>
      (\<exists>e \<in> set (ps_Messages m). honest_msg demo_bls demo_rshare [7] k e)"
    using demo_ptc_accepts demo_honest by (simp add: demo_arrivals_def demo_partial_def)
qed (rule collecting_new | simp add: demo_ptc_def demo_threshold demo_rshare_fields)+

text \<open>
  C9: What the payload attester and the registration runner hand out is signed. A message adds at most one
  submission; its object is the one the current duty is about, and its signature verifies under the key
  of the validator for the signing root of that object in the domain of the duty's epoch. When the call
  reports success the duty is marked as succeeded, and after that no message changes the runner.
\<close>

theorem submissions_signed:
  assumes "br_Role r = RolePTCAttester" "br_Share r = [(rsh_ValidatorIndex share, share)]" "containers_ok r"
    and "ptcProcessPreConsensus B X E submit m r = (result, r')"
    and "br_Role v = RoleValidatorRegistration" "br_Share v = [(rsh_ValidatorIndex share, share)]" "containers_ok v"
    and "registrationProcessPreConsensus B g X E enqueue m v = (result', v')"
  shows "(ptc_submitted r' = ptc_submitted r \<or>
      (\<exists>data sig. ptc_payloadAttestationData r = Some data \<and>
         ptc_submitted r' = ptc_submitted r @ [(rsh_ValidatorIndex share, data, sig)] \<and>
         validator_signed B X E r (rsh_ValidatorPubKey share) DomainPTCAttester (ObjPayloadAttestationData data) sig \<and>
         (result = Ok () \<longrightarrow> hasDutySucceeded r'))) \<and>
    (vrr_enqueued v' = vrr_enqueued v \<or>
      (\<exists>slot registration sig. currentDutySlot v = Ok slot \<and> buildValidatorRegistration g v slot = Ok registration \<and>
         vrr_enqueued v' = vrr_enqueued v @ [(registration, sig)] \<and>
         validator_signed B X E v (rsh_ValidatorPubKey share) DomainApplicationBuilder
           (ObjValidatorRegistration registration) sig \<and>
         (result' = Ok () \<longrightarrow> hasDutySucceeded v'))) \<and>
    (hasDutySucceeded r \<longrightarrow> (\<exists>e. result = Err e) \<and> r' = r) \<and>
    (hasDutySucceeded v \<longrightarrow> (\<exists>e. result' = Err e) \<and> v' = v)"
  using ptc_submission [OF assms(1-4)] registration_submission [OF assms(5-8)]
    ptc_succeeded [OF _ assms(4)] registration_succeeded [OF _ assms(8)] by blast

theorem submissions_signed_witness:
  "(\<exists>data sig. ptc_payloadAttestationData demo_ptc_waiting = Some data \<and>
     ptc_submitted (snd (ptcProcessPreConsensus demo_bls demo_rspec demo_renv (\<lambda>_ _ _. None)
       (demo_partial PTCAttesterPartialSig 3 7) demo_ptc_waiting)) = ptc_submitted demo_ptc_waiting @ [(5, data, sig)] \<and>
     validator_signed demo_bls demo_rspec demo_renv demo_ptc_waiting [0] DomainPTCAttester (ObjPayloadAttestationData data) sig) \<and>
   (\<exists>slot registration sig. buildValidatorRegistration (\<lambda>_. Inr [9]) demo_registration slot = Ok registration \<and>
     validator_signed demo_bls demo_rspec demo_renv demo_registration [0] DomainApplicationBuilder
       (ObjValidatorRegistration registration) sig)"
proof -
  have share: "br_Share demo_ptc_waiting = [(rsh_ValidatorIndex demo_rshare, demo_rshare)]"
    "br_Share demo_registration = [(rsh_ValidatorIndex demo_rshare, demo_rshare)]"
    "rsh_ValidatorIndex demo_rshare = 5" "rsh_ValidatorPubKey demo_rshare = [0]"
    by (simp_all add: demo_waiting demo_rshare_def)
  show ?thesis
    using submissions_signed [OF demo_waiting(1) share(1) demo_waiting(5) surjective_pairing demo_waiting(4) share(2)
        demo_waiting(6) surjective_pairing, of demo_bls demo_rspec demo_renv "\<lambda>_ _ _. None"
        "demo_partial PTCAttesterPartialSig 3 7" "\<lambda>_. Inr [9]" "\<lambda>_ _. None"]
      demo_last_share unfolding share(3,4) by blast
qed

section \<open>Voluntary exits\<close>

text \<open>A duty whose own share cannot be signed is started all the same, and no exit is stored.\<close>

lemma signBeaconObject_fails:
  assumes "\<forall>obj d pk slot sd. \<exists>e. re_SignBeaconObject E obj d pk slot sd = Inl e"
  shows "signBeaconObject X E b duty obj slot sd \<noteq> Ok x"
proof -
  have "signAsValidator X E b vi obj slot sd d \<noteq> Ok x" for vi d
  proof (cases "map_of (br_Share b) vi")
    case (Some share)
    obtain e where "re_SignBeaconObject E obj d (rsh_SharePubKey share) slot sd = Inl e"
      using assms by blast
    then show ?thesis
      by (simp add: signAsValidator_def Some)
  qed (simp add: signAsValidator_def)
  then show ?thesis
    by (simp add: signBeaconObject_def bind_res_Ok_iff)
qed

lemma exitExecuteDuty_fails:
  assumes "\<forall>obj d pk slot sd. \<exists>e. re_SignBeaconObject E obj d pk slot sd = Inl e"
  shows "snd (exitExecuteDuty X E duty r) = r \<and> fst (exitExecuteDuty X E duty r) \<noteq> Ok ()"
proof (cases "validatorDutyFromDuty (Some duty)")
  case duty: (Ok d)
  show ?thesis
  proof (cases "calculateVoluntaryExit r d")
    case (Ok vex)
    have "\<nexists>x. signBeaconObject X E r d (ObjVoluntaryExit vex) (vd_Slot d) DomainVoluntaryExit = Ok x"
      using signBeaconObject_fails [OF assms] by blast
    then show ?thesis
      by (cases "signBeaconObject X E r d (ObjVoluntaryExit vex) (vd_Slot d) DomainVoluntaryExit")
        (simp_all add: exitExecuteDuty_def duty Ok signAndSend_def)
  qed (simp_all add: exitExecuteDuty_def duty)
qed (simp_all add: exitExecuteDuty_def)

lemma exit_deferred:
  "ver_submitted (snd (deferMarkFailed x)) = ver_submitted (snd x)" "fst (deferMarkFailed x) = Panic \<longleftrightarrow> fst x = Panic"
  by (cases x rule: deferMarkFailed.cases; simp)+

lemma exit_started_unsigned:
  assumes "NewVoluntaryExitRunner net [(rsh_ValidatorIndex share, share)] tf = Ok r"
    and "\<forall>obj d pk slot sd. \<exists>e. re_SignBeaconObject E obj d pk slot sd = Inl e"
    and "snd (exitStartNewDuty X E (Some (ValidatorDutyPtr (Some duty))) q r) = b"
  shows "br_State b = Some (NewRunnerState q (ValidatorDutyPtr (Some duty)))" "br_Role b = RoleVoluntaryExit"
    "br_Share b = [(rsh_ValidatorIndex share, share)]" "ver_voluntaryExit b = None" "ver_submitted b = []"
proof -
  have r: "br_State r = None" "br_Role r = RoleVoluntaryExit" "br_Share r = [(rsh_ValidatorIndex share, share)]"
      "ver_voluntaryExit r = None" "ver_submitted r = []"
    using assms(1) by (auto simp: NewVoluntaryExitRunner_def)
  let ?r = "snd (watchDutyOutcome E (r\<lparr>br_State := Some (NewRunnerState q (ValidatorDutyPtr (Some duty)))\<rparr>))"
  have watched: "br_State ?r = Some (NewRunnerState q (ValidatorDutyPtr (Some duty)))" "br_Role ?r = RoleVoluntaryExit"
      "br_Share ?r = [(rsh_ValidatorIndex share, share)]" "ver_voluntaryExit ?r = None" "ver_submitted ?r = []"
    using r by (simp_all add: watchDutyOutcome_def snd_bind_st Let_def split: res.split)
  have "b = snd (startDuty E (exitExecuteDuty X E) (\<lambda>e. e) (ValidatorDutyPtr (Some duty)) q r)"
    using assms(3) r(1) by (simp add: exitStartNewDuty_def baseStartNewNonBeaconDuty_def ShouldProcessNonBeaconDuty_def)
  then have "b = ?r \<or> (\<exists>e. b = markDutyFailed e ?r)"
    using exitExecuteDuty_fails [OF assms(2), of X "ValidatorDutyPtr (Some duty)" ?r]
    by (cases "exitExecuteDuty X E (ValidatorDutyPtr (Some duty)) ?r")
      (auto simp: startDuty_def snd_bind_st split: res.splits)
  then show "br_State b = Some (NewRunnerState q (ValidatorDutyPtr (Some duty)))" "br_Role b = RoleVoluntaryExit"
      "br_Share b = [(rsh_ValidatorIndex share, share)]" "ver_voluntaryExit b = None" "ver_submitted b = []"
    using watched by auto
qed

text \<open>
  C22: An operator that could not sign its own share of a voluntary exit, but receives the shares of a
  quorum of its peers, hands an exit without a message to the beacon node: the runner keeps the exit
  only after its own share was sent, while the duty counts as started before. If the beacon node
  accepts the submission, reading the epoch of the missing exit panics.
\<close>

theorem exit_submitted_without_message:
  assumes "NewVoluntaryExitRunner net [(rsh_ValidatorIndex share, share)] tf = Ok r"
    and "\<forall>obj d pk slot sd. \<exists>e. re_SignBeaconObject E obj d pk slot sd = Inl e"
    and "snd (exitStartNewDuty X E (Some (ValidatorDutyPtr (Some duty))) q r) = b"
    and "0 < q" "threshold_scheme B q share root" "length (rsh_Committee share) < 2 ^ 64" "unat q \<le> card H"
    and "\<forall>(E, m) \<in> set ms. \<forall>r'. signs_root X exitI E b r' \<longrightarrow> r' = root"
    and "\<forall>k \<in> H. \<exists>(E, m) \<in> set ms. ValidatePreConsensusMsg X exitI E b m = Ok () \<and>
           (\<exists>e \<in> set (ps_Messages m). honest_msg B share root k e)"
  shows "\<exists>before E m after sig result r'. ms = before @ (E, m) # after \<and>
    exitProcessPreConsensus B X E submit m (collect_run (\<lambda>E. exitProcessPreConsensus B X E submit) before b) = (result, r') \<and>
    ver_submitted r' = [(None, sig)] \<and> (submit None sig = None \<longrightarrow> result = Panic)"
proof -
  note b = exit_started_unsigned [OF assms(1-3)]
  let ?wrap = "RWrap ''failed processing voluntary exit message''"
  obtain s where s: "br_State b = Some s" "collecting q share root (rs_PreConsensusContainer s)"
    using b(1) collecting_new [OF assms(4)] by metis
  have role: "br_Role b \<noteq> RoleAggregatorCommittee"
    and honest: "\<forall>k \<in> H. has_valid B share root (rs_PreConsensusContainer s) k \<or>
      (\<exists>(E, m) \<in> set ms. ValidatePreConsensusMsg X exitI E b m = Ok () \<and> (\<exists>e \<in> set (ps_Messages m). honest_msg B share root k e))"
    using b(2) assms(9) by simp_all
  obtain before E' m after c' sig where ms: "ms = before @ (E', m) # after"
    and last: "collectThenSubmit B X exitI ?wrap (exitSubmit submit) E' m
        (collect_run (collectThenSubmit B X exitI ?wrap (exitSubmit submit)) before b) =
      deferMarkFailed (exitSubmit submit sig (setPre c' b))"
    using exit_runner.run_reaches_submit [OF role b(3) s(1) assms(5-7) s(2) assms(8) honest, of ?wrap "exitSubmit submit"]
    unfolding setPre_id [OF s(1)] by (elim exE conjE) (rule that)
  have "ver_submitted (snd (exitSubmit submit sig (setPre c' b))) = [(None, sig)]"
      "submit None sig = None \<longrightarrow> fst (exitSubmit submit sig (setPre c' b)) = Panic"
    using b(4,5) by (auto simp: exitSubmit_def bind_st_eq Let_def split: option.splits)
  then have "ver_submitted (snd (deferMarkFailed (exitSubmit submit sig (setPre c' b)))) = [(None, sig)]"
      "submit None sig = None \<longrightarrow> fst (deferMarkFailed (exitSubmit submit sig (setPre c' b))) = Panic"
    by (simp_all add: exit_deferred)
  moreover obtain result r' where "deferMarkFailed (exitSubmit submit sig (setPre c' b)) = (result, r')"
    by fastforce
  ultimately show ?thesis
    using ms last
    by (intro exI [of _ before] exI [of _ E'] exI [of _ m] exI [of _ after] exI [of _ sig] exI [of _ result] exI [of _ r'])
      (simp add: exit_collect exit_run_collect)
qed

definition demo_exit :: "nat VoluntaryExitRunner" where
  "demo_exit = (case NewVoluntaryExitRunner demo_Network [(5, demo_rshare)]
     (\<lambda>slot. New 0 demo_Beacon RoleVoluntaryExit slot False) of Ok r \<Rightarrow> r)"

definition demo_broken_signer :: "hash_obj renv" where
  "demo_broken_signer = demo_renv\<lparr>re_SignBeaconObject := (\<lambda>_ _ _ _ _. Inl (RPlain ''signer is down''))\<rparr>"

definition demo_exit_arrivals :: "(hash_obj renv \<times> PartialSignatureMessages) list" where
  "demo_exit_arrivals = map (\<lambda>k. (demo_renv, demo_partial VoluntaryExitPartialSig k 7)) [1, 2, 3]"

lemma demo_exit_accepts:
  "\<forall>(E, m) \<in> set demo_exit_arrivals. ValidatePreConsensusMsg demo_rspec exitI E
     (snd (exitStartNewDuty demo_rspec demo_broken_signer (Some (ValidatorDutyPtr (Some demo_duty))) 3 demo_exit)) m = Ok ()"
  by code_simp

theorem exit_submitted_without_message_witness:
  "\<exists>before E m after sig result r'. demo_exit_arrivals = before @ (E, m) # after \<and>
    exitProcessPreConsensus demo_bls demo_rspec E (\<lambda>_ _. None) m
      (collect_run (\<lambda>E. exitProcessPreConsensus demo_bls demo_rspec E (\<lambda>_ _. None)) before
         (snd (exitStartNewDuty demo_rspec demo_broken_signer (Some (ValidatorDutyPtr (Some demo_duty))) 3 demo_exit))) = (result, r') \<and>
    ver_submitted r' = [(None, sig)] \<and> ((None :: run_err option) = None \<longrightarrow> result = Panic)"
proof (rule exit_submitted_without_message [where H = "{1, 2, 3}", OF _ _ refl])
  show "NewVoluntaryExitRunner demo_Network [(rsh_ValidatorIndex demo_rshare, demo_rshare)]
      (\<lambda>slot. New 0 demo_Beacon RoleVoluntaryExit slot False) = Ok demo_exit"
    by (simp add: demo_exit_def NewVoluntaryExitRunner_def demo_rshare_fields)
  show "\<forall>(E, m) \<in> set demo_exit_arrivals. \<forall>r'. signs_root demo_rspec exitI E
      (snd (exitStartNewDuty demo_rspec demo_broken_signer (Some (ValidatorDutyPtr (Some demo_duty))) 3 demo_exit)) r' \<longrightarrow> r' = [7]"
    by (auto simp: demo_exit_arrivals_def signs_root_def demo_rspec_def)
  show "\<forall>k \<in> {1, 2, 3}. \<exists>(E, m) \<in> set demo_exit_arrivals. ValidatePreConsensusMsg demo_rspec exitI E
      (snd (exitStartNewDuty demo_rspec demo_broken_signer (Some (ValidatorDutyPtr (Some demo_duty))) 3 demo_exit)) m = Ok () \<and>
      (\<exists>e \<in> set (ps_Messages m). honest_msg demo_bls demo_rshare [7] k e)"
    using demo_exit_accepts demo_honest by (simp add: demo_exit_arrivals_def demo_partial_def)
qed (simp_all add: demo_broken_signer_def demo_threshold demo_rshare_fields)

end
