(* ===== verification/Runner_Types.thy ===== *)
theory Runner_Types
  imports Runner_Properties
begin

text \<open>
  Well-formed payload attester runners: the form every reachable runner has, and that no operation on a
  runner of this form runs into a nil pointer, an index out of range or a division by zero. The
  operations are those of \<open>protocol/v2/ssv/runner/ptc_attester.go\<close> and of the base they call.
\<close>

section \<open>The form of a runner\<close>

definition ptc_ok :: "RunnerShare \<Rightarrow> 'c PTCAttesterRunner \<Rightarrow> bool" where
  "ptc_ok share r \<longleftrightarrow>
     br_Role r = RolePTCAttester \<and> br_Share r = [(rsh_ValidatorIndex share, share)] \<and>
     SlotsPerEpoch (nw_Beacon (br_NetworkConfig r)) \<noteq> 0 \<and> containers_ok r \<and>
     (case br_State r of None \<Rightarrow> True | Some s \<Rightarrow> \<exists>d. rs_CurrentDuty s = ValidatorDutyPtr (Some d))"

text \<open>
  Starting a duty reads the clock: it must not be before genesis, and slots up to the one after the
  duty must fit the signed integers of the time arithmetic.
\<close>

definition clock_ok :: "Beacon \<Rightarrow> int \<Rightarrow> u64 \<Rightarrow> bool" where
  "clock_ok beacon now slot \<longleftrightarrow>
     GenesisTime beacon \<le> now \<and> 0 < SlotDuration beacon \<and> uint (slot + 1) \<le> maxInt64 \<and>
     (case EstimatedCurrentSlot beacon now :: (run_err, u64) res of Ok current \<Rightarrow> uint (current + 1) \<le> maxInt64 | _ \<Rightarrow> False)"

text \<open>The specification package rejects partial signature messages without an entry.\<close>

definition rejects_empty :: "'o runnerspec \<Rightarrow> bool" where
  "rejects_empty X \<longleftrightarrow> (\<forall>m. ps_Messages m = [] \<longrightarrow> x_ValidatePartialSigs X m \<noteq> None)"

datatype ptc_event =
    PtcStart "u64 \<Rightarrow> run_err + PayloadAttestationData option" "hash_obj renv" "Duty option" u64
  | PtcMessage "hash_obj renv" "u64 \<Rightarrow> PayloadAttestationData \<Rightarrow> bytes \<Rightarrow> run_err option" PartialSignatureMessages

fun ptc_apply ::
    "('p, 's, 'i) bls \<Rightarrow> hash_obj runnerspec \<Rightarrow> ptc_event \<Rightarrow> 'c PTCAttesterRunner \<Rightarrow> (run_err, unit) res \<times> 'c PTCAttesterRunner" where
  "ptc_apply B X (PtcStart payloadData E duty quorum) r = ptcStartNewDuty payloadData X E duty quorum r"
| "ptc_apply B X (PtcMessage E submit m) r = ptcProcessPreConsensus B X E submit m r"

text \<open>What an event needs of the clock.\<close>

fun ptc_event_ok :: "Beacon \<Rightarrow> ptc_event \<Rightarrow> bool" where
  "ptc_event_ok beacon (PtcStart payloadData E duty quorum) =
     (case validatorDutyFromDuty duty of Ok d \<Rightarrow> clock_ok beacon (e_now (re_qbft E)) (vd_Slot d) | _ \<Rightarrow> True)"
| "ptc_event_ok beacon (PtcMessage E submit m) = True"

inductive ptc_reachable ::
    "('p, 's, 'i) bls \<Rightarrow> hash_obj runnerspec \<Rightarrow> 'c PTCAttesterRunner \<Rightarrow> 'c PTCAttesterRunner \<Rightarrow> bool"
  for B X r0 where
  ptc_initial: "ptc_reachable B X r0 r0"
| ptc_event: "ptc_reachable B X r0 r \<Longrightarrow> ptc_reachable B X r0 (snd (ptc_apply B X e r))"

section \<open>Preservation\<close>

lemma base_container_ok: "psc_ok c \<Longrightarrow> psc_ok (snd (basePartialSigMsgProcessing B shares msgs c got roots))"
  by (induction msgs arbitrary: c got roots) (simp_all add: Let_def case_prod_beta psc_ok_process)

lemma reconstruct_ok:
  assumes "psc_ok c"
  shows "psc_ok (snd (reconstructQuorumSig B c r share phase))" "fst (reconstructQuorumSig B c r share phase) \<noteq> Panic"
proof -
  obtain result c' where rec: "reconstructQuorumSig B c r share phase = (result, c')"
    by fastforce
  from assms rec have "psc_ok c' \<and> result \<noteq> Panic"
    by (cases rule: reconstructQuorumSig_cases) (simp_all add: assms psc_ok_FallBack)
  then show "psc_ok (snd (reconstructQuorumSig B c r share phase))" "fst (reconstructQuorumSig B c r share phase) \<noteq> Panic"
    by (simp_all add: rec)
qed

lemma ptc_ok_setPre: "ptc_ok share r \<Longrightarrow> psc_ok c \<Longrightarrow> ptc_ok share (setPre c r)"
  by (cases "br_State r") (auto simp: ptc_ok_def containers_ok_def)

lemma NetworkConfig_concludeDuty [simp]: "br_NetworkConfig (concludeDuty x y b) = br_NetworkConfig b"
  by (simp add: concludeDuty_def)

lemma ptc_ok_conclude: "ptc_ok share r \<Longrightarrow> ptc_ok share (concludeDuty x y r)"
  by (simp add: ptc_ok_def containers_ok_def)

lemma ptc_ok_failed: "ptc_ok share r \<Longrightarrow> ptc_ok share (markDutyFailed e r)"
  by (simp add: markDutyFailed_def ptc_ok_conclude)

lemma ptc_ok_Succeeded: "ptc_ok share r \<Longrightarrow> ptc_ok share (upd_RunnerState (\<lambda>s. s\<lparr>rs_Succeeded := v\<rparr>) r)"
  by (cases "br_State r") (auto simp: ptc_ok_def containers_ok_def upd_RunnerState_def)

lemma ptc_ok_fields:
  "ptc_ok share (r\<lparr>ptc_submitted := x\<rparr>) = ptc_ok share r" "ptc_ok share (r\<lparr>ptc_payloadAttestationData := y\<rparr>) = ptc_ok share r"
  "ptc_ok share (r\<lparr>br_sent := z\<rparr>) = ptc_ok share r"
  by (simp_all add: ptc_ok_def containers_ok_def)

lemma ptc_ok_marked:
  assumes "ptc_ok share r"
  shows "ptc_ok share (markDutySucceeded r)" "ptc_ok share (markDutyNotRequired r)"
  using assms by (simp_all add: markDutySucceeded_def markDutyNotRequired_def ptc_ok_conclude ptc_ok_Succeeded)

lemma basePre_ok: "ptc_ok share r \<Longrightarrow> ptc_ok share (snd (basePreConsensusMsgProcessing B X I E m r))"
proof (cases "br_State r")
  case (Some s)
  assume ok: "ptc_ok share r"
  have "psc_ok (rs_PreConsensusContainer s)"
    using ok Some by (simp add: ptc_ok_def containers_ok_def)
  then have "psc_ok (snd (basePartialSigMsgProcessing B (br_Share r) (ps_Messages m) (rs_PreConsensusContainer s) False []))"
    by (rule base_container_ok)
  then show ?thesis
    using ok Some by (cases "ValidatePreConsensusMsg X I E r m")
      (auto simp: basePreConsensusMsgProcessing_def case_prod_beta Let_def setPre_def [symmetric] ptc_ok_setPre)
qed (simp add: basePreConsensusMsgProcessing_def ValidatePreConsensusMsg_def)

lemma reconstructFirstRoot_ok: "ptc_ok share r \<Longrightarrow> ptc_ok share (snd (reconstructFirstRoot B False roots r))"
proof (cases "br_State r")
  case (Some s)
  assume ok: "ptc_ok share r"
  have "psc_ok (rs_PreConsensusContainer s)"
    using ok Some by (simp add: ptc_ok_def containers_ok_def)
  then have "psc_ok (snd (reconstructQuorumSig B (rs_PreConsensusContainer s) root share' ''pre-consensus''))" for root share'
    by (rule reconstruct_ok)
  then show ?thesis
    using ok Some by (cases roots; cases "GetShare r")
      (auto simp: reconstructFirstRoot_def case_prod_beta setPre_def [symmetric] ptc_ok_setPre)
qed (cases roots; cases "GetShare r"; simp add: reconstructFirstRoot_def)

lemma ptcSubmit_ok: "ptc_ok share r \<Longrightarrow> ptc_ok share (snd (ptcSubmit submit data sig r))"
  by (auto simp: ptcSubmit_def snd_bind_st Let_def ptc_ok_fields ptc_ok_marked split: res.split)

lemma deferMarkFailed_ok: "ptc_ok share (snd x) \<Longrightarrow> ptc_ok share (snd (deferMarkFailed x))"
  using deferMarkFailed_state [of x] ptc_ok_failed by metis

lemma ptcProcess_ok: "ptc_ok share r \<Longrightarrow> ptc_ok share (snd (ptcProcessPreConsensus B X E submit m r))"
proof -
  assume "ptc_ok share r"
  then have "ptc_ok share (snd (basePreConsensusMsgProcessing B X ptcI E m r))"
    by (rule basePre_ok)
  then show ?thesis
    by (auto simp: ptcProcessPreConsensus_def snd_bind_st reconstructFirstRoot_ok ptcSubmit_ok ptc_ok_failed
        intro!: deferMarkFailed_ok split: res.split option.split)
qed

lemma signAndSend_ok: "ptc_ok share r \<Longrightarrow> ptc_ok share (snd (signAndSend X E ty errs duty obj sd r))"
  by (auto simp: signAndSend_def signAndBroadcastPartialSigMsgs_def broadcastAtSlot_def snd_bind_st ptc_ok_fields
      split: res.split)

lemma ptcExecute_ok: "ptc_ok share r \<Longrightarrow> ptc_ok share (snd (ptcExecuteDuty payloadData X E duty r))"
  by (auto simp: ptcExecuteDuty_def snd_bind_st Let_def ptc_ok_fields ptc_ok_failed ptc_ok_marked signAndSend_ok
      split: res.split sum.split option.split)

lemma watch_ok: "ptc_ok share r \<Longrightarrow> ptc_ok share (snd (watchDutyOutcome E r))"
  by (auto simp: watchDutyOutcome_def snd_bind_st Let_def ptc_ok_def containers_ok_def split: res.split)

lemma ptc_ok_new: "ptc_ok share r \<Longrightarrow> ptc_ok share (r\<lparr>br_State := Some (NewRunnerState q (ValidatorDutyPtr (Some d)))\<rparr>)"
  by (simp add: ptc_ok_def containers_ok_def NewRunnerState_def)

lemma ptcStart_ok: "ptc_ok share r \<Longrightarrow> ptc_ok share (snd (ptcStartNewDuty payloadData X E duty q r))"
proof (cases "validatorDutyFromDuty duty")
  case (Ok d)
  assume ok: "ptc_ok share r"
  let ?r = "snd (watchDutyOutcome E (r\<lparr>br_State := Some (NewRunnerState q (ValidatorDutyPtr (Some d)))\<rparr>))"
  have "ptc_ok share ?r"
    by (intro watch_ok ptc_ok_new ok)
  moreover from this have "ptc_ok share (snd (ptcExecuteDuty payloadData X E (ValidatorDutyPtr (Some d)) ?r))"
    by (rule ptcExecute_ok)
  ultimately have "ptc_ok share (snd (startDuty E (ptcExecuteDuty payloadData X E) (\<lambda>e. e) (ValidatorDutyPtr (Some d)) q r))"
    by (cases "ptcExecuteDuty payloadData X E (ValidatorDutyPtr (Some d)) ?r")
      (auto simp: startDuty_def snd_bind_st ptc_ok_failed split: res.split)
  then show ?thesis
    using ok by (auto simp: ptcStartNewDuty_def Ok baseStartNewNonBeaconDuty_def snd_bind_st Let_def split: res.split)
qed (simp_all add: ptcStartNewDuty_def)

lemma ptc_reachable_ok: "ptc_reachable B X r0 r \<Longrightarrow> ptc_ok share r0 \<Longrightarrow> ptc_ok share r"
proof (induction rule: ptc_reachable.induct)
  case (ptc_event r e)
  then show ?case
    by (cases e) (simp_all add: ptcStart_ok ptcProcess_ok)
qed

section \<open>No operation panics\<close>

lemma GetShare_ok: "ptc_ok share r \<Longrightarrow> GetShare r = Some share"
  by (simp add: ptc_ok_def GetShare_def)

lemma state_ok: "ptc_ok share r \<Longrightarrow> br_State r = Some s \<Longrightarrow> \<exists>d. rs_CurrentDuty s = ValidatorDutyPtr (Some d)"
  by (simp add: ptc_ok_def)

lemma epoch_not_Panic: "ptc_ok share r \<Longrightarrow> EstimatedEpochAtSlot (nw_Beacon (br_NetworkConfig r)) slot \<noteq> Panic"
  by (simp add: ptc_ok_def EstimatedEpochAtSlot_def u64_div_def)

lemma ValidatePre_not_Panic:
  assumes ok: "ptc_ok share r" and empty: "rejects_empty X"
  shows "ValidatePreConsensusMsg X ptcI E r m \<noteq> Panic"
proof (cases "br_State r")
  case (Some s)
  obtain d where d: "rs_CurrentDuty s = ValidatorDutyPtr (Some d)"
    using state_ok [OF ok Some] ..
  have message: "validatePartialSigMsg X r m slot \<noteq> Panic" for slot
    using empty by (auto simp: validatePartialSigMsg_def PartialSigMsgSigner_def GetShare_ok [OF ok] bind_res_Panic_iff
        rejects_empty_def split: option.splits list.splits)
  have "currentDutyEpoch r \<noteq> Panic"
    using epoch_not_Panic [OF ok] by (simp add: currentDutyEpoch_def Some d)
  moreover have "each (\<lambda>(a, b). ensure (a = b) e) xs \<noteq> Panic" for e :: run_err and xs :: "(root \<times> root) list"
    by (rule each_not_Panic) auto
  ultimately have "verifyExpectedRoot X E r m objs sd \<noteq> Panic" for objs sd
    by (auto simp: verifyExpectedRoot_def bind_res_Panic_iff each_map_not_Panic Let_def)
  with message show ?thesis
    by (auto simp: ValidatePreConsensusMsg_def Some d bind_res_Panic_iff ptcI_def ptcExpectedPre_def split: option.split)
qed (simp add: ValidatePreConsensusMsg_def)

lemma ptcSubmit_not_Panic: "ptc_ok share r \<Longrightarrow> fst (ptcSubmit submit data sig r) \<noteq> Panic"
  by (auto simp: ptcSubmit_def bind_st_eq GetShare_ok Let_def split: option.split)

lemma deferMarkFailed_Panic: "fst (deferMarkFailed x) = Panic \<longleftrightarrow> fst x = Panic"
  by (cases x rule: deferMarkFailed.cases) auto

lemma ptcProcess_not_Panic:
  assumes ok: "ptc_ok share r" and "rejects_empty X"
  shows "fst (ptcProcessPreConsensus B X E submit m r) \<noteq> Panic"
proof (cases "ValidatePreConsensusMsg X ptcI E r m")
  case (Ok u)
  have role: "br_Role r \<noteq> RoleAggregatorCommittee"
    using ok by (simp add: ptc_ok_def)
  obtain s where s: "br_State r = Some s"
    using ptc_runner.ValidatePre_Ok [OF _ role] Ok by (metis old.unit.exhaust)
  obtain e root where base: "basePreConsensusMsgProcessing B X ptcI E m r =
       (let c' = processPartialSig B (br_Share r) e (rs_PreConsensusContainer s);
            q = (\<not> fst (psHasQuorum (rs_PreConsensusContainer s) (psm_ValidatorIndex e) root) \<and>
                 fst (psHasQuorum c' (psm_ValidatorIndex e) root))
        in (Ok (q, if q then [root] else []), setPre c' r))"
    using ptc_runner.basePre_eq [OF role s refl, of X E m B] Ok by (metis old.unit.exhaust)
  let ?c = "processPartialSig B (br_Share r) e (rs_PreConsensusContainer s)"
  have c: "psc_ok ?c"
    using ok s by (simp add: ptc_ok_def containers_ok_def psc_ok_process)
  have rec: "fst (reconstructFirstRoot B False [root] (setPre ?c r)) \<noteq> Panic"
    using reconstruct_ok(2) [OF c] by (simp add: reconstructFirstRoot_def GetShare_ok [OF ok] s case_prod_beta)
  have "fst (bind_st (reconstructFirstRoot B False [root] (setPre ?c r)) (ptcSubmit submit data)) \<noteq> Panic" for data
    using rec ptcSubmit_not_Panic [OF reconstructFirstRoot_ok [OF ptc_ok_setPre [OF ok c], of B "[root]"]]
    by (auto simp: bind_st_eq split: res.split)
  then show ?thesis
    using base by (auto simp: ptcProcessPreConsensus_def Let_def deferMarkFailed_Panic split: option.split)
qed (use ValidatePre_not_Panic [OF assms] in \<open>simp_all add: ptcProcessPreConsensus_def basePreConsensusMsgProcessing_def\<close>)

lemma domain_not_Panic: "ptc_ok share r \<Longrightarrow> DomainTypeAtSlot (br_NetworkConfig r) slot \<noteq> Panic"
  by (simp add: ptc_ok_def DomainTypeAtSlot_def BooleForkAtSlot_def EstimatedEpochAtSlot_def u64_div_def)

lemma signAndSend_not_Panic:
  assumes ok: "ptc_ok share r"
  shows "fst (signAndSend X E ty errs duty obj sd r) \<noteq> Panic"
proof -
  have "signBeaconObject X E r duty obj slot sd \<noteq> Panic" for slot
    using epoch_not_Panic [OF ok] by (auto simp: signBeaconObject_def signAsValidator_def bind_res_Panic_iff split: option.split)
  moreover have "signPartialSigMsgs X E r e1 e2 pk msgs \<noteq> Panic" for e1 e2 pk msgs
    using domain_not_Panic [OF ok] by (auto simp: signPartialSigMsgs_def bind_res_Panic_iff Let_def)
  ultimately show ?thesis
    by (auto simp: signAndSend_def signAndBroadcastPartialSigMsgs_def broadcastAtSlot_def bind_st_eq GetShare_ok [OF ok]
        split: res.split option.split)
qed

lemma ptcExecute_not_Panic:
  assumes "ptc_ok share r"
  shows "fst (ptcExecuteDuty payloadData X E (ValidatorDutyPtr (Some d)) r) \<noteq> Panic"
  using assms by (auto simp: ptcExecuteDuty_def Let_def ptc_ok_fields intro!: signAndSend_not_Panic
      split: sum.split option.split)

lemma deadline_not_Panic:
  assumes "clock_ok (nw_Beacon (br_NetworkConfig r)) (e_now (re_qbft E)) (vd_Slot d)"
    and "br_State r = Some s" "rs_CurrentDuty s = ValidatorDutyPtr (Some d)" "br_Role r = RolePTCAttester"
  shows "dutyOutcomeDeadline E r \<noteq> Panic"
  using assms by (auto simp: dutyOutcomeDeadline_def clock_ok_def Let_def SlotStartTime_def split: res.splits)

lemma ptcStart_not_Panic:
  assumes ok: "ptc_ok share r"
    and clock: "\<And>d. validatorDutyFromDuty duty = Ok d \<Longrightarrow>
      clock_ok (nw_Beacon (br_NetworkConfig r)) (e_now (re_qbft E)) (vd_Slot d)"
  shows "fst (ptcStartNewDuty payloadData X E duty q r) \<noteq> Panic"
proof (cases "validatorDutyFromDuty duty")
  case (Ok d)
  let ?r1 = "r\<lparr>br_State := Some (NewRunnerState q (ValidatorDutyPtr (Some d)))\<rparr>"
  let ?r = "snd (watchDutyOutcome E ?r1)"
  have "ShouldProcessNonBeaconDuty (ValidatorDutyPtr (Some d)) r \<noteq> Panic"
    using state_ok [OF ok] by (auto simp: ShouldProcessNonBeaconDuty_def bind_res_Panic_iff split: option.split)
  moreover have "fst (watchDutyOutcome E ?r1) \<noteq> Panic"
    using deadline_not_Panic [of "?r1\<lparr>br_dutyConcluded := True, br_concluded := [], br_dutyFailureNoted := Some None\<rparr>" E d]
      clock [OF Ok] ok
    by (auto simp: watchDutyOutcome_def bind_st_eq Let_def NewRunnerState_def ptc_ok_def split: res.split)
  moreover have "fst (ptcExecuteDuty payloadData X E (ValidatorDutyPtr (Some d)) ?r) \<noteq> Panic"
    by (rule ptcExecute_not_Panic [OF watch_ok [OF ptc_ok_new [OF ok]]])
  ultimately show ?thesis
    by (cases "ptcExecuteDuty payloadData X E (ValidatorDutyPtr (Some d)) ?r")
      (auto simp: ptcStartNewDuty_def Ok baseStartNewNonBeaconDuty_def startDuty_def bind_st_eq Let_def split: res.split)
next
  case Panic
  then show ?thesis
    by (cases duty rule: validatorDutyFromDuty.cases) simp_all
qed (simp add: ptcStartNewDuty_def)

section \<open>Property\<close>

text \<open>
  C21: Payload attester runners are type safe. From a well-formed runner, every sequence of started duties
  and partial signature messages leads to a well-formed runner: one share, its role, containers without
  duplicate keys, and a current duty that is a validator duty. On such a runner no message panics,
  whatever it contains and whatever the signer, the network and the beacon node answer, and starting a
  duty does not panic while the clock and the slot of the duty stay in range.
\<close>

theorem ptc_type_safe:
  assumes "ptc_ok share r0" "ptc_reachable B X r0 r" "rejects_empty X"
  shows "ptc_ok share r \<and> ptc_ok share (snd (ptc_apply B X e r)) \<and>
    (ptc_event_ok (nw_Beacon (br_NetworkConfig r)) e \<longrightarrow> fst (ptc_apply B X e r) \<noteq> Panic)"
proof -
  have ok: "ptc_ok share r"
    by (rule ptc_reachable_ok [OF assms(2,1)])
  moreover have "fst (ptc_apply B X e r) \<noteq> Panic" if "ptc_event_ok (nw_Beacon (br_NetworkConfig r)) e"
  proof (cases e)
    case (PtcStart payloadData E duty q)
    then show ?thesis
      using that by (auto intro!: ptcStart_not_Panic [OF ok] split: res.splits)
  next
    case (PtcMessage E submit m)
    then show ?thesis
      by (simp add: ptcProcess_not_Panic [OF ok assms(3)])
  qed
  moreover have "ptc_ok share (snd (ptc_apply B X e r))"
    by (cases e) (simp_all add: ok ptcStart_ok ptcProcess_ok)
  ultimately show ?thesis
    by blast
qed

definition demo_events :: "ptc_event list" where
  "demo_events = [PtcStart (\<lambda>_. Inr (Some demo_payload)) demo_renv (Some (ValidatorDutyPtr (Some demo_duty))) 3,
     PtcMessage demo_renv (\<lambda>_ _ _. None) (demo_partial PTCAttesterPartialSig 1 7)]"

definition demo_strict :: "hash_obj runnerspec" where
  "demo_strict = demo_rspec\<lparr>x_ValidatePartialSigs := (\<lambda>m. if ps_Messages m = [] then Some ''no messages'' else None)\<rparr>"

theorem ptc_type_safe_witness:
  "(let r = snd (ptc_apply demo_bls demo_strict (demo_events ! 0) (demo_ptc\<lparr>br_State := None\<rparr>)) in
     ptc_ok demo_rshare r \<and> ptc_ok demo_rshare (snd (ptc_apply demo_bls demo_strict (demo_events ! 1) r)) \<and>
     fst (ptc_apply demo_bls demo_strict (demo_events ! 1) r) \<noteq> Panic) \<and>
   fst (ptc_apply demo_bls demo_strict (demo_events ! 0) (demo_ptc\<lparr>br_State := None\<rparr>)) \<noteq> Panic"
proof -
  have start: "ptc_ok demo_rshare (demo_ptc\<lparr>br_State := None\<rparr>)"
    by (simp add: ptc_ok_def containers_ok_def demo_ptc_def demo_rshare_fields demo_Network_def demo_Beacon_def)
  have empty: "rejects_empty demo_strict"
    by (simp add: rejects_empty_def demo_strict_def)
  have "ptc_event_ok (nw_Beacon (br_NetworkConfig (demo_ptc\<lparr>br_State := None\<rparr>))) (demo_events ! 0)"
    by code_simp
  then show ?thesis
    using ptc_type_safe [OF start ptc_initial empty, of demo_bls "demo_events ! 0"]
      ptc_type_safe [OF start ptc_event [OF ptc_initial] empty, of demo_bls "demo_events ! 0" "demo_events ! 1"]
    by (simp add: Let_def demo_events_def)
qed

end
