(* ===== verification/Validator_Store_Refinement.thy ===== *)
theory Validator_Store_Refinement
  imports Validator_Store
begin

text \<open>
  The indices of the validator store against what they index. The specification is a list of shares,
  one per validator: the committee of an identifier holds exactly the shares with that identifier,
  and the entry of an operator exactly the shares and the committees it takes part in. Adding,
  updating and removing a share of \<open>registry/storage/validatorstore.go\<close> refine appending to, replacing
  in and filtering of the list.
\<close>

section \<open>Specification\<close>

definition with_key :: "(bytes \<Rightarrow> bytes) \<Rightarrow> SSVShare list \<Rightarrow> bytes \<Rightarrow> SSVShare list" where
  "with_key sha S k = filter (\<lambda>s. cid sha s = k) S"

definition with_operator :: "SSVShare list \<Rightarrow> OperatorID \<Rightarrow> SSVShare list" where
  "with_operator S op = filter (\<lambda>s. op \<in> set (OperatorIDs s)) S"

definition committee_of :: "(bytes \<Rightarrow> bytes) \<Rightarrow> SSVShare list \<Rightarrow> bytes \<Rightarrow> Committee" where
  "committee_of sha S k =
     (let shares = with_key sha S k
      in \<lparr>c_ID = k, c_Operators = sort (OperatorIDs (hd shares)), c_Shares = shares,
          c_Indices = map sh_ValidatorIndex shares, c_booleCommitteeSubnet = None, c_alanCommitteeSubnet = None\<rparr>)"

definition keys_of :: "(bytes \<Rightarrow> bytes) \<Rightarrow> SSVShare list \<Rightarrow> OperatorID \<Rightarrow> bytes set" where
  "keys_of sha S op = cid sha ` set (with_operator S op)"

text \<open>
  The shares a registry holds: one per validator, with distinct operators, and two shares with the same
  committee identifier have the same operators.
\<close>

definition registry_ok :: "(bytes \<Rightarrow> bytes) \<Rightarrow> SSVShare list \<Rightarrow> bool" where
  "registry_ok sha S \<longleftrightarrow>
     distinct (map pk S) \<and> (\<forall>s \<in> set S. distinct (OperatorIDs s)) \<and>
     (\<forall>s \<in> set S. \<forall>s' \<in> set S. cid sha s = cid sha s' \<longrightarrow> set (OperatorIDs s) = set (OperatorIDs s'))"

lemma registry_distinct: "registry_ok sha S \<Longrightarrow> distinct (map pk S)"
  unfolding registry_ok_def by blast

lemma registry_operators: "registry_ok sha S \<Longrightarrow> s \<in> set S \<Longrightarrow> distinct (OperatorIDs s)"
  unfolding registry_ok_def by blast

lemma registry_committee:
  "registry_ok sha S \<Longrightarrow> s \<in> set S \<Longrightarrow> s' \<in> set S \<Longrightarrow> cid sha s = cid sha s' \<Longrightarrow> set (OperatorIDs s) = set (OperatorIDs s')"
  unfolding registry_ok_def by blast

text \<open>
  The indices for a list of shares; \<open>g\<close> gives the committee of an identifier. It is \<open>committee_of\<close>, except
  while the metadata of shares has been written but their committees have not been rebuilt.
\<close>

definition operator_entry ::
    "(bytes \<Rightarrow> bytes) \<Rightarrow> (bytes \<Rightarrow> Committee) \<Rightarrow> SSVShare list \<Rightarrow> OperatorID \<Rightarrow> sharesAndCommittees option \<Rightarrow> bool" where
  "operator_entry sha g S op entry \<longleftrightarrow>
     (case entry of
        None \<Rightarrow> with_operator S op = []
      | Some d \<Rightarrow> with_operator S op \<noteq> [] \<and> sc_shares d = with_operator S op \<and>
          distinct (map c_ID (sc_committees d)) \<and> set (sc_committees d) = g ` keys_of sha S op)"

definition indexes_with :: "(bytes \<Rightarrow> bytes) \<Rightarrow> (bytes \<Rightarrow> Committee) \<Rightarrow> SSVShare list \<Rightarrow> validatorStore \<Rightarrow> bool" where
  "indexes_with sha g S c \<longleftrightarrow>
     (\<forall>k. map_of (byCommitteeID c) k = (if with_key sha S k = [] then None else Some (g k))) \<and>
     (\<forall>op. operator_entry sha g S op (map_of (byOperatorID c) op))"

definition indexes :: "(bytes \<Rightarrow> bytes) \<Rightarrow> SSVShare list \<Rightarrow> validatorStore \<Rightarrow> bool" where
  "indexes sha S c \<longleftrightarrow> indexes_with sha (committee_of sha S) S c"

section \<open>Lists of committees\<close>

lemma c_ID_committee_of [simp]: "c_ID (committee_of sha S k) = k"
  and committee_of_fields [simp]: "c_Shares (committee_of sha S k) = with_key sha S k"
    "c_Indices (committee_of sha S k) = map sh_ValidatorIndex (with_key sha S k)"
  by (simp_all add: committee_of_def Let_def)

lemma set_replaceCommittee:
  assumes "distinct (map c_ID cs)" "c_ID cm = k"
  shows "set (replaceCommittee k cm cs) = (if k \<in> c_ID ` set cs then insert cm {c \<in> set cs. c_ID c \<noteq> k} else set cs)"
    "map c_ID (replaceCommittee k cm cs) = map c_ID cs"
  using assms by (induction cs) (auto simp: image_iff)

lemma set_removeFirstCommittee:
  assumes "distinct (map c_ID cs)"
  shows "set (removeFirstCommittee k cs) = {c \<in> set cs. c_ID c \<noteq> k}" "distinct (map c_ID (removeFirstCommittee k cs))"
proof -
  show "set (removeFirstCommittee k cs) = {c \<in> set cs. c_ID c \<noteq> k}"
    using assms by (induction cs) (auto simp: rev_image_eqI)
  show "distinct (map c_ID (removeFirstCommittee k cs))"
    using assms
  proof (induction cs)
    case (Cons c cs)
    have "c_ID ` set (removeFirstCommittee k cs) \<subseteq> c_ID ` set cs"
      by (induction cs) auto
    then show ?case
      using Cons by auto
  qed simp
qed

lemma upsertCommittee_image:
  assumes "distinct (map c_ID cs)" "set cs = g ` K" "\<And>k. c_ID (g k) = k" "c_ID cm = k"
  shows "set (upsertCommittee cm cs) = (g(k := cm)) ` insert k K" "distinct (map c_ID (upsertCommittee cm cs))"
  using assms set_replaceCommittee [OF assms(1,4)]
  by (auto simp: upsertCommittee_def image_iff split: if_splits)

lemma replaceCommittee_image:
  assumes "distinct (map c_ID cs)" "set cs = g ` K" "\<And>k. c_ID (g k) = k" "c_ID cm = k" "k \<in> K"
  shows "set (replaceCommittee k cm cs) = (g(k := cm)) ` K" "distinct (map c_ID (replaceCommittee k cm cs))"
  using assms set_replaceCommittee [OF assms(1,4)] by (auto simp: image_iff)

lemma removeCommittee_image:
  assumes "distinct (map c_ID cs)" "set cs = g ` K" "\<And>k. c_ID (g k) = k"
  shows "set (removeFirstCommittee k cs) = g ` (K - {k})" "distinct (map c_ID (removeFirstCommittee k cs))"
  using assms set_removeFirstCommittee [OF assms(1), of k] by auto

section \<open>Adding a share\<close>

lemma containsShare_iff: "containsShare ss share \<longleftrightarrow> pk share \<in> pk ` set ss"
  unfolding containsShare_def image_iff by metis

lemma buildCommittee_of:
  assumes "with_key sha S k \<noteq> []"
  shows "buildCommittee sha (with_key sha S k) = Ok (committee_of sha S k)"
proof -
  have "cid sha (hd (with_key sha S k)) = k"
    using assms hd_in_set [OF assms] by (auto simp: with_key_def)
  then show ?thesis
    using assms by (cases "with_key sha S k") (simp_all add: buildCommittee_def committee_of_def OperatorIDs_def)
qed

text \<open>One step of the loop over the operators, as an update of the operator's entry.\<close>

definition add_entry :: "Committee \<Rightarrow> SSVShare \<Rightarrow> sharesAndCommittees option \<Rightarrow> sharesAndCommittees" where
  "add_entry cm share entry =
     (let d = (case entry of Some d \<Rightarrow> d | None \<Rightarrow> \<lparr>sc_shares = [], sc_committees = []\<rparr>)
      in \<lparr>sc_shares = sc_shares d @ [share], sc_committees = upsertCommittee cm (sc_committees d)\<rparr>)"

lemma addToOperators_eq:
  assumes "distinct (map Signer ops)" "seen \<inter> Signer ` set ops = {}"
    and "\<forall>m \<in> set ops. \<forall>d. map_of (byOperatorID c) (Signer m) = Some d \<longrightarrow> \<not> containsShare (sc_shares d) share"
  shows "\<exists>bo. addToOperators cm share seen ops c = (Ok (), c\<lparr>byOperatorID := bo\<rparr>) \<and>
    (\<forall>op. map_of bo op = (if op \<in> Signer ` set ops then Some (add_entry cm share (map_of (byOperatorID c) op))
                          else map_of (byOperatorID c) op))"
  using assms
proof (induction ops arbitrary: seen c)
  case Nil
  then show ?case
    by (intro exI [of _ "byOperatorID c"]) simp
next
  case (Cons m ops)
  let ?data = "case map_of (byOperatorID c) (Signer m) of Some d \<Rightarrow> d | None \<Rightarrow> \<lparr>sc_shares = [], sc_committees = []\<rparr>"
  let ?c = "c\<lparr>byOperatorID := AList.update (Signer m) (add_entry cm share (map_of (byOperatorID c) (Signer m))) (byOperatorID c)\<rparr>"
  have "\<not> containsShare (sc_shares ?data) share"
    using Cons.prems(3) by (auto simp: containsShare_def split: option.splits)
  then have step: "addToOperators cm share seen (m # ops) c = addToOperators cm share (insert (Signer m) seen) ops ?c"
    using Cons.prems(2) by (simp add: add_entry_def Let_def)
  have "Signer m' \<noteq> Signer m" if "m' \<in> set ops" for m'
    using Cons.prems(1) that by (auto simp: rev_image_eqI)
  then have "\<forall>m' \<in> set ops. \<forall>d. map_of (byOperatorID ?c) (Signer m') = Some d \<longrightarrow> \<not> containsShare (sc_shares d) share"
    using Cons.prems(3) by (simp add: update_conv')
  moreover have "distinct (map Signer ops)" "insert (Signer m) seen \<inter> Signer ` set ops = {}"
    using Cons.prems(1,2) by auto
  ultimately obtain bo where "addToOperators cm share (insert (Signer m) seen) ops ?c = (Ok (), ?c\<lparr>byOperatorID := bo\<rparr>)"
    "\<forall>op. map_of bo op = (if op \<in> Signer ` set ops then Some (add_entry cm share (map_of (byOperatorID ?c) op))
                          else map_of (byOperatorID ?c) op)"
    using Cons.IH by blast
  then show ?case
    using step Cons.prems(1) by (intro exI [of _ bo]) (auto simp: update_conv')
qed

lemma committee_of_append:
  "k \<noteq> cid sha share \<Longrightarrow> committee_of sha (S @ [share]) k = committee_of sha S k"
  "(committee_of sha S)(cid sha share := committee_of sha (S @ [share]) (cid sha share)) = committee_of sha (S @ [share])"
  by (auto simp: fun_eq_iff committee_of_def with_key_def)

lemma keys_of_append:
  "keys_of sha (S @ [share]) op = (if op \<in> set (OperatorIDs share) then insert (cid sha share) (keys_of sha S op) else keys_of sha S op)"
  by (auto simp: keys_of_def with_operator_def)

lemma key_not_in:
  assumes "registry_ok sha S" "share \<in> set S" "op \<notin> set (OperatorIDs share)"
  shows "cid sha share \<notin> keys_of sha S op"
proof
  assume "cid sha share \<in> keys_of sha S op"
  then obtain s where "s \<in> set S" "op \<in> set (OperatorIDs s)" "cid sha s = cid sha share"
    by (auto simp: keys_of_def with_operator_def)
  then show False
    using assms unfolding registry_ok_def by blast
qed

text \<open>Entries of operators that a change does not concern stay right.\<close>

lemma operator_entry_other:
  assumes "with_operator S' op = with_operator S op" "\<And>k. k \<in> keys_of sha S op \<Longrightarrow> g' k = g k"
  shows "operator_entry sha g' S' op entry = operator_entry sha g S op entry"
proof -
  have "g' ` keys_of sha S' op = g ` keys_of sha S op"
    using assms by (auto simp: keys_of_def intro!: image_cong)
  then show ?thesis
    by (cases entry) (simp_all add: operator_entry_def assms(1))
qed

lemma operator_entry_add:
  assumes reg: "registry_ok sha (S @ [share])" and old: "operator_entry sha (committee_of sha S) S op entry"
  shows "operator_entry sha (committee_of sha (S @ [share])) (S @ [share]) op
    (if op \<in> set (OperatorIDs share) then Some (add_entry (committee_of sha (S @ [share]) (cid sha share)) share entry) else entry)"
proof (cases "op \<in> set (OperatorIDs share)")
  case True
  let ?cs = "sc_committees (case entry of Some d \<Rightarrow> d | None \<Rightarrow> \<lparr>sc_shares = [], sc_committees = []\<rparr>)"
  have "distinct (map c_ID ?cs)" "set ?cs = committee_of sha S ` keys_of sha S op"
    using old by (auto simp: operator_entry_def keys_of_def split: option.splits)
  from upsertCommittee_image [OF this c_ID_committee_of c_ID_committee_of [of sha "S @ [share]" "cid sha share"]]
  have up: "set (upsertCommittee (committee_of sha (S @ [share]) (cid sha share)) ?cs) =
      committee_of sha (S @ [share]) ` insert (cid sha share) (keys_of sha S op)"
    "distinct (map c_ID (upsertCommittee (committee_of sha (S @ [share]) (cid sha share)) ?cs))"
    by (simp_all add: committee_of_append(2) del: fun_upd_apply image_insert)
  have shares: "with_operator (S @ [share]) op = with_operator S op @ [share]"
    using True by (simp add: with_operator_def)
  show ?thesis
    using True old up keys_of_append [of sha S share op]
    by (auto simp: operator_entry_def add_entry_def Let_def shares split: option.splits)
next
  case False
  have "cid sha share \<notin> keys_of sha S op"
    using key_not_in [OF reg _ False] keys_of_append [of sha S share op] False by simp
  moreover have "with_operator (S @ [share]) op = with_operator S op"
    using False by (simp add: with_operator_def)
  ultimately have "operator_entry sha (committee_of sha (S @ [share])) (S @ [share]) op entry = operator_entry sha (committee_of sha S) S op entry"
    by (intro operator_entry_other committee_of_append(1)) auto
  then show ?thesis
    using old False by simp
qed

lemma addShare_refines:
  assumes ix: "indexes sha S c" and reg: "registry_ok sha (S @ [share])"
  shows "fst (addShare sha (Some share) c) = Ok () \<and> indexes sha (S @ [share]) (snd (addShare sha (Some share) c))"
proof -
  let ?k = "cid sha share" and ?cm = "committee_of sha (S @ [share]) (cid sha share)"
  let ?c = "(indexShare c share)\<lparr>byCommitteeID := AList.update ?k ?cm (byCommitteeID c)\<rparr>"
  have fresh: "pk share \<notin> pk ` set S" and ops: "distinct (map Signer (sh_Committee share))"
    using reg by (auto simp: registry_ok_def OperatorIDs_def)
  have same: "byCommitteeID (indexShare c share) = byCommitteeID c" "byOperatorID (indexShare c share) = byOperatorID c"
    by (simp_all add: indexShare_def)
  have built: "(buildCommittee sha (with_key sha S ?k @ [share]) :: (store_err, Committee) res) = Ok ?cm"
    using buildCommittee_of [of sha "S @ [share]" ?k] by (simp add: with_key_def)
  have lookup: "map_of (byCommitteeID c) ?k = (if with_key sha S ?k = [] then None else Some (committee_of sha S ?k))"
    using ix by (simp add: indexes_def indexes_with_def)
  have "\<not> containsShare (c_Shares (committee_of sha S ?k)) share"
    using fresh by (auto simp: containsShare_iff with_key_def)
  then have run: "addShare sha (Some share) c = addToOperators ?cm share {} (sh_Committee share) ?c"
    using built lookup by (cases "with_key sha S ?k = []") (simp_all add: addShare_def Let_def same)
  have entry: "operator_entry sha (committee_of sha S) S op (map_of (byOperatorID c) op)" for op
    using ix by (simp add: indexes_def indexes_with_def)
  have "\<not> containsShare (sc_shares d) share" if "map_of (byOperatorID c) op = Some d" for op d
    using entry [of op] that fresh by (auto simp: operator_entry_def containsShare_iff with_operator_def)
  then obtain bo where bo: "addToOperators ?cm share {} (sh_Committee share) ?c = (Ok (), ?c\<lparr>byOperatorID := bo\<rparr>)"
    "\<forall>op. map_of bo op = (if op \<in> Signer ` set (sh_Committee share) then Some (add_entry ?cm share (map_of (byOperatorID c) op))
                          else map_of (byOperatorID c) op)"
    using addToOperators_eq [OF ops, of "{}" ?c share ?cm] same by auto
  have "operator_entry sha (committee_of sha (S @ [share])) (S @ [share]) op (map_of bo op)" for op
    using operator_entry_add [OF reg entry [of op]] bo(2) by (auto simp: OperatorIDs_def)
  moreover have "map_of (AList.update ?k ?cm (byCommitteeID c)) k =
      (if with_key sha (S @ [share]) k = [] then None else Some (committee_of sha (S @ [share]) k))" for k
    using ix by (simp add: update_conv' indexes_def indexes_with_def with_key_def committee_of_append(1))
  ultimately show ?thesis
    by (simp add: run bo(1) indexes_def indexes_with_def)
qed

section \<open>Removing a share\<close>

definition without :: "SSVShare \<Rightarrow> SSVShare list \<Rightarrow> SSVShare list" where
  "without share S = filter (\<lambda>s. pk s \<noteq> pk share) S"

lemma withoutShare_eq: "withoutShare rm ss (map sh_ValidatorIndex ss) = Ok (pk rm \<in> pk ` set ss, without rm ss)"
  by (induction ss) (auto simp: without_def)

lemma removeFirstShare_eq:
  "distinct (map pk ss) \<Longrightarrow> pk rm \<in> pk ` set ss \<Longrightarrow> removeFirstShare rm ss = Some (without rm ss)"
proof (induction ss)
  case (Cons s ss)
  then show ?case
    by (cases "pk s = pk rm") (auto simp: without_def intro!: filter_True [symmetric] rev_image_eqI)
qed simp

lemma with_without:
  "with_key sha (without share S) k = without share (with_key sha S k)"
  "with_operator (without share S) op = without share (with_operator S op)"
  by (simp_all add: with_key_def with_operator_def without_def conj_commute)

lemma without_absent: "pk share \<notin> pk ` set S \<Longrightarrow> without share S = S"
  by (auto simp: without_def intro!: filter_True rev_image_eqI)

text \<open>Of all shares with the public key of a share in the registry there is only the share itself.\<close>

lemma registry_pk: "registry_ok sha S \<Longrightarrow> s \<in> set S \<Longrightarrow> s' \<in> set S \<Longrightarrow> pk s = pk s' \<Longrightarrow> s = s'"
  by (auto simp: registry_ok_def distinct_map inj_on_def)

lemma registry_without: "registry_ok sha S \<Longrightarrow> registry_ok sha (without share S)"
  by (auto simp: registry_ok_def without_def distinct_map_filter)

definition remove_entry :: "bytes \<Rightarrow> Committee \<Rightarrow> SSVShare \<Rightarrow> sharesAndCommittees \<Rightarrow> sharesAndCommittees option" where
  "remove_entry k newCommittee share d =
     (let shares = without share (sc_shares d)
      in if shares = [] then None
         else Some \<lparr>sc_shares = shares,
                    sc_committees = (if c_Shares newCommittee = [] then removeFirstCommittee k (sc_committees d)
                                     else replaceCommittee k newCommittee (sc_committees d))\<rparr>)"

lemma removeFromOperators_eq:
  assumes "distinct (map Signer ops)"
    and "\<forall>m \<in> set ops. \<exists>d. map_of (byOperatorID c) (Signer m) = Some d \<and> pk share \<in> pk ` set (sc_shares d) \<and> distinct (map pk (sc_shares d))"
  shows "\<exists>bo. removeFromOperators k cm share ops c = (Ok (), c\<lparr>byOperatorID := bo\<rparr>) \<and>
    (\<forall>op. map_of bo op = (if op \<in> Signer ` set ops
                          then remove_entry k cm share (the (map_of (byOperatorID c) op)) else map_of (byOperatorID c) op))"
  using assms
proof (induction ops arbitrary: c)
  case Nil
  then show ?case
    by (intro exI [of _ "byOperatorID c"]) simp
next
  case (Cons m ops)
  obtain d where d: "map_of (byOperatorID c) (Signer m) = Some d" "pk share \<in> pk ` set (sc_shares d)" "distinct (map pk (sc_shares d))"
    using Cons.prems(2) by auto
  define b0 where "b0 = (if without share (sc_shares d) = [] then AList.delete (Signer m) (byOperatorID c)
    else AList.update (Signer m) (the (remove_entry k cm share d)) (byOperatorID c))"
  have step: "removeFromOperators k cm share (m # ops) c = removeFromOperators k cm share ops (c\<lparr>byOperatorID := b0\<rparr>)"
    using removeFirstShare_eq [OF d(3,2)] d(1) by (auto simp: Let_def remove_entry_def b0_def)
  have b0: "map_of b0 op = (if op = Signer m then remove_entry k cm share d else map_of (byOperatorID c) op)" for op
    by (simp add: update_conv' delete_conv' remove_entry_def Let_def b0_def)
  have other: "Signer m' \<noteq> Signer m" if "m' \<in> set ops" for m'
    using Cons.prems(1) that by (auto simp: rev_image_eqI)
  have "\<forall>m \<in> set ops. \<exists>d. map_of (byOperatorID (c\<lparr>byOperatorID := b0\<rparr>)) (Signer m) = Some d \<and>
      pk share \<in> pk ` set (sc_shares d) \<and> distinct (map pk (sc_shares d))"
    using Cons.prems(2) other by (simp add: b0)
  then obtain bo where "removeFromOperators k cm share ops (c\<lparr>byOperatorID := b0\<rparr>) = (Ok (), c\<lparr>byOperatorID := bo\<rparr>)"
    "\<forall>op. map_of bo op = (if op \<in> Signer ` set ops then remove_entry k cm share (the (map_of b0 op)) else map_of b0 op)"
    using Cons.IH [of "c\<lparr>byOperatorID := b0\<rparr>"] Cons.prems(1) by auto
  then show ?case
    unfolding step using b0 d(1) Cons.prems(1) by (intro exI [of _ bo]) (auto simp: rev_image_eqI)
qed

lemma removeShare_committee:
  assumes "share \<in> set S" "registry_ok sha S"
  defines "cm \<equiv> (if with_key sha (without share S) (cid sha share) = []
    then \<lparr>c_ID = cid sha share, c_Operators = [], c_Shares = [], c_Indices = [], c_booleCommitteeSubnet = None, c_alanCommitteeSubnet = None\<rparr>
    else committee_of sha (without share S) (cid sha share))"
  shows "removeShareFromCommittee sha (committee_of sha S (cid sha share)) share = Ok cm"
proof -
  have "pk share \<in> pk ` set (with_key sha S (cid sha share))"
    using assms(1) by (auto simp: with_key_def)
  then show ?thesis
    using buildCommittee_of [of sha "without share S" "cid sha share"]
    by (auto simp: removeShareFromCommittee_def withoutShare_eq cm_def with_without)
qed

lemma committee_of_without:
  assumes "registry_ok sha S" "share \<in> set S" "k \<noteq> cid sha share"
  shows "committee_of sha (without share S) k = committee_of sha S k"
proof -
  have "pk share \<notin> pk ` set (with_key sha S k)"
  proof
    assume "pk share \<in> pk ` set (with_key sha S k)"
    then obtain s where "s \<in> set S" "cid sha s = k" "pk share = pk s"
      by (auto simp: with_key_def)
    then show False
      using registry_pk [OF assms(1,2)] assms(3) by blast
  qed
  then have "without share (with_key sha S k) = with_key sha S k"
    by (rule without_absent)
  then show ?thesis
    by (simp add: committee_of_def with_without)
qed

lemma keys_of_without:
  assumes reg: "registry_ok sha S" and share: "share \<in> set S" "op \<in> set (OperatorIDs share)"
  shows "keys_of sha (without share S) op =
    (if with_key sha (without share S) (cid sha share) = [] then keys_of sha S op - {cid sha share} else keys_of sha S op)"
proof -
  have mem: "s \<in> set (without share S) \<longleftrightarrow> s \<in> set S \<and> s \<noteq> share" for s
    using registry_pk [OF reg _ share(1)] share(1) by (auto simp: without_def)
  have same: "op \<in> set (OperatorIDs s)" if "s \<in> set S" "cid sha s = cid sha share" for s
    using reg share that unfolding registry_ok_def by blast
  show ?thesis
  proof (cases "with_key sha (without share S) (cid sha share) = []")
    case True
    then have "cid sha s \<noteq> cid sha share" if "s \<in> set S" "s \<noteq> share" for s
      using that mem by (auto simp: with_key_def filter_empty_conv)
    then show ?thesis
      using True share by (auto simp: keys_of_def with_operator_def mem)
  next
    case False
    then obtain s where s: "s \<in> set S" "s \<noteq> share" "cid sha s = cid sha share"
      by (auto simp: with_key_def filter_empty_conv mem)
    have "\<exists>y. y \<in> set S \<and> y \<noteq> share \<and> op \<in> set (OperatorIDs y) \<and> cid sha x = cid sha y"
      if "x \<in> set S" "op \<in> set (OperatorIDs x)" for x
      using that s same [OF s(1,3)] by (cases "x = share") auto
    then show ?thesis
      using False by (auto simp: keys_of_def with_operator_def mem image_iff)
  qed
qed

lemma operator_entry_remove:
  assumes reg: "registry_ok sha S" and share: "share \<in> set S" and old: "operator_entry sha (committee_of sha S) S op (Some d)"
    and op: "op \<in> set (OperatorIDs share)" and cm: "c_ID cm = cid sha share"
      "c_Shares cm = with_key sha (without share S) (cid sha share)"
      "c_Shares cm \<noteq> [] \<Longrightarrow> cm = committee_of sha (without share S) (cid sha share)"
  shows "operator_entry sha (committee_of sha (without share S)) (without share S) op (remove_entry (cid sha share) cm share d)"
proof -
  let ?k = "cid sha share" and ?S = "without share S"
  have d: "sc_shares d = with_operator S op" "distinct (map c_ID (sc_committees d))"
      "set (sc_committees d) = committee_of sha S ` keys_of sha S op"
    using old by (simp_all add: operator_entry_def)
  have k: "?k \<in> keys_of sha S op"
    using share op by (auto simp: keys_of_def with_operator_def)
  have others: "committee_of sha ?S k = committee_of sha S k" if "k \<noteq> ?k" for k
    using committee_of_without [OF reg share that] .
  show ?thesis
  proof (cases "c_Shares cm = []")
    case True
    have "set (removeFirstCommittee ?k (sc_committees d)) = committee_of sha ?S ` keys_of sha ?S op"
      using removeCommittee_image [OF d(2,3), of ?k] keys_of_without [OF reg share op] True cm(2) others by auto
    then show ?thesis
      using removeCommittee_image [OF d(2,3), of ?k] True d(1) by (simp add: operator_entry_def remove_entry_def Let_def with_without)
  next
    case False
    have "set (replaceCommittee ?k cm (sc_committees d)) = ((committee_of sha S)(?k := cm)) ` keys_of sha S op"
      by (rule replaceCommittee_image(1) [OF d(2,3) c_ID_committee_of cm(1) k])
    also have "(committee_of sha S)(?k := cm) = committee_of sha ?S"
      using cm(3) [OF False] by (auto simp: fun_eq_iff others)
    also have "keys_of sha S op = keys_of sha ?S op"
      using keys_of_without [OF reg share op] False cm(2) by simp
    finally show ?thesis
      using replaceCommittee_image(2) [OF d(2,3) c_ID_committee_of cm(1) k] False d(1) by (simp add: operator_entry_def remove_entry_def Let_def with_without)
  qed
qed

lemma handleShareRemoved_refines:
  assumes ix: "indexes sha S c" and reg: "registry_ok sha S" and share: "share \<in> set S"
  shows "fst (handleShareRemoved sha (Some share) c) = Ok () \<and>
    indexes sha (without share S) (snd (handleShareRemoved sha (Some share) c))"
proof -
  let ?k = "cid sha share" and ?S = "without share S"
  obtain cm where cm: "removeShareFromCommittee sha (committee_of sha S ?k) share = Ok cm" "c_ID cm = ?k"
      "c_Shares cm = with_key sha ?S ?k" "c_Shares cm \<noteq> [] \<Longrightarrow> cm = committee_of sha ?S ?k"
    using removeShare_committee [OF share reg] by (cases "with_key sha ?S ?k = []") simp_all
  define c1 where "c1 = (if HasBeaconMetadata (Some share)
    then c\<lparr>byValidatorIndex := AList.delete (sh_ValidatorIndex share) (byValidatorIndex c)\<rparr> else c)"
  define bc where "bc = (if c_Shares cm = [] then AList.delete ?k (byCommitteeID c) else AList.update ?k cm (byCommitteeID c))"
  have c1: "byCommitteeID c1 = byCommitteeID c" "byOperatorID c1 = byOperatorID c"
    by (simp_all add: c1_def)
  have "with_key sha S ?k \<noteq> []"
    using share by (auto simp: with_key_def filter_empty_conv)
  then have "map_of (byCommitteeID c) ?k = Some (committee_of sha S ?k)"
    using ix by (simp add: indexes_def indexes_with_def)
  then have run: "handleShareRemoved sha (Some share) c =
      removeFromOperators ?k cm share (sh_Committee share) (c1\<lparr>byCommitteeID := bc\<rparr>)"
    using cm(1,2) by (simp add: handleShareRemoved_def Let_def c1_def [symmetric] c1 bc_def)
  have entry: "operator_entry sha (committee_of sha S) S op (map_of (byOperatorID c) op)" for op
    using ix by (simp add: indexes_def indexes_with_def)
  have has_entry: "\<exists>d. map_of (byOperatorID c) op = Some d \<and> pk share \<in> pk ` set (sc_shares d) \<and> distinct (map pk (sc_shares d))"
    if "op \<in> set (OperatorIDs share)" for op
  proof -
    have mem: "share \<in> set (with_operator S op)" and d: "distinct (map pk (with_operator S op))"
      using share that registry_distinct [OF reg] by (simp_all add: with_operator_def distinct_map_filter)
    then show ?thesis
      using entry [of op] by (cases "map_of (byOperatorID c) op") (auto simp: operator_entry_def)
  qed
  have "distinct (map Signer (sh_Committee share))"
    using registry_operators [OF reg share] by (simp add: OperatorIDs_def)
  moreover have "\<forall>m \<in> set (sh_Committee share). \<exists>d. map_of (byOperatorID (c1\<lparr>byCommitteeID := bc\<rparr>)) (Signer m) = Some d \<and>
      pk share \<in> pk ` set (sc_shares d) \<and> distinct (map pk (sc_shares d))"
    using has_entry by (simp add: c1 OperatorIDs_def)
  ultimately obtain bo where bo: "removeFromOperators ?k cm share (sh_Committee share) (c1\<lparr>byCommitteeID := bc\<rparr>) =
      (Ok (), c1\<lparr>byCommitteeID := bc, byOperatorID := bo\<rparr>)"
    "\<forall>op. map_of bo op = (if op \<in> Signer ` set (sh_Committee share)
       then remove_entry ?k cm share (the (map_of (byOperatorID (c1\<lparr>byCommitteeID := bc\<rparr>)) op))
       else map_of (byOperatorID (c1\<lparr>byCommitteeID := bc\<rparr>)) op)"
    using removeFromOperators_eq by blast
  then have bo2: "map_of bo op = (if op \<in> set (OperatorIDs share) then remove_entry ?k cm share (the (map_of (byOperatorID c) op))
                          else map_of (byOperatorID c) op)" for op
    by (simp add: c1 OperatorIDs_def)
  have "operator_entry sha (committee_of sha ?S) ?S op (map_of bo op)" for op
  proof (cases "op \<in> set (OperatorIDs share)")
    case True
    obtain d where "map_of (byOperatorID c) op = Some d"
      using has_entry [OF True] by blast
    then show ?thesis
      using operator_entry_remove [OF reg share _ True cm(2-4)] entry [of op] bo2 True by simp
  next
    case False
    have "with_operator ?S op = with_operator S op"
      using False registry_pk [OF reg share] unfolding with_without
      by (intro without_absent) (auto simp: with_operator_def)
    moreover have "committee_of sha ?S k = committee_of sha S k" if "k \<in> keys_of sha S op" for k
      using key_not_in [OF reg share False] that by (intro committee_of_without [OF reg share]) auto
    ultimately have "operator_entry sha (committee_of sha ?S) ?S op (map_of (byOperatorID c) op)"
      using operator_entry_other [of ?S op S sha "committee_of sha ?S"] entry [of op] by blast
    then show ?thesis
      using bo2 False by simp
  qed
  moreover have "map_of bc k = (if with_key sha ?S k = [] then None else Some (committee_of sha ?S k))" for k
  proof (cases "k = ?k")
    case False
    then have "committee_of sha ?S k = committee_of sha S k"
      by (rule committee_of_without [OF reg share])
    moreover from arg_cong [OF this, of c_Shares] have "with_key sha ?S k = with_key sha S k"
      by simp
    ultimately show ?thesis
      using ix False by (simp add: bc_def update_conv' delete_conv' indexes_def indexes_with_def)
  qed (use cm in \<open>simp add: bc_def update_conv' delete_conv'\<close>)
  ultimately show ?thesis
    by (simp add: run bo(1) indexes_def indexes_with_def)
qed


section \<open>Updating a share\<close>

definition replaced :: "SSVShare \<Rightarrow> SSVShare list \<Rightarrow> SSVShare list" where
  "replaced share S = map (\<lambda>s. if pk s = pk share then share else s) S"

text \<open>The new share of a validator keeps its operators and its committee identifier.\<close>

definition same_committee :: "(bytes \<Rightarrow> bytes) \<Rightarrow> SSVShare list \<Rightarrow> SSVShare \<Rightarrow> bool" where
  "same_committee sha S share \<longleftrightarrow> pk share \<in> pk ` set S \<and>
     (\<forall>s \<in> set S. pk s = pk share \<longrightarrow> OperatorIDs s = OperatorIDs share \<and> cid sha s = cid sha share)"

lemma filter_replaced:
  "(\<And>s. s \<in> set S \<Longrightarrow> pk s = pk share \<Longrightarrow> P s = P share) \<Longrightarrow> filter P (replaced share S) = replaced share (filter P S)"
  by (induction S) (auto simp: replaced_def)

lemma with_replaced:
  assumes "same_committee sha S share"
  shows "with_key sha (replaced share S) k = replaced share (with_key sha S k)"
    "with_operator (replaced share S) op = replaced share (with_operator S op)"
  unfolding with_key_def with_operator_def using assms
  by (intro filter_replaced; auto simp: same_committee_def)+

lemma replaced_absent: "pk share \<notin> pk ` set S \<Longrightarrow> replaced share S = S"
  by (induction S) (auto simp: replaced_def)

lemma replaceFirstShare_eq: "distinct (map pk ss) \<Longrightarrow> replaceFirstShare share ss = replaced share ss"
proof (induction ss)
  case (Cons s ss)
  then show ?case
    using replaced_absent [of share ss] by (auto simp: replaced_def)
qed (simp add: replaced_def)

lemma replaced_Nil [simp]: "replaced share S = [] \<longleftrightarrow> S = []"
  by (simp add: replaced_def)

lemma map_pk_replaced: "map pk (replaced share S) = map pk S"
  by (simp add: replaced_def)

lemma set_replaced: "s \<in> set (replaced share S) \<longleftrightarrow> (s = share \<and> pk share \<in> pk ` set S) \<or> (s \<in> set S \<and> pk s \<noteq> pk share)"
  by (induction S) (auto simp: replaced_def)

lemma keys_of_replaced:
  assumes "same_committee sha S share"
  shows "keys_of sha (replaced share S) op = keys_of sha S op"
proof -
  have "cid sha (if pk s = pk share then share else s) = cid sha s" if "s \<in> set (with_operator S op)" for s
    using assms that by (auto simp: same_committee_def with_operator_def)
  then have "cid sha ` set (replaced share (with_operator S op)) = cid sha ` set (with_operator S op)"
    unfolding replaced_def set_map image_image by (intro image_cong) simp_all
  then show ?thesis
    by (simp add: keys_of_def with_replaced(2) [OF assms])
qed

lemma committee_of_replaced:
  assumes "same_committee sha S share" "k \<noteq> cid sha share"
  shows "committee_of sha (replaced share S) k = committee_of sha S k"
proof -
  have "pk share \<notin> pk ` set (with_key sha S k)"
    using assms by (auto simp: same_committee_def with_key_def)
  then show ?thesis
    unfolding committee_of_def with_replaced(1) [OF assms(1)] by (simp add: replaced_absent)
qed

definition update_entry :: "bytes \<Rightarrow> Committee \<Rightarrow> SSVShare \<Rightarrow> sharesAndCommittees \<Rightarrow> sharesAndCommittees" where
  "update_entry k newCommittee share d =
     \<lparr>sc_shares = replaced share (sc_shares d), sc_committees = replaceCommittee k newCommittee (sc_committees d)\<rparr>"

lemma updateInOperators_eq:
  assumes "distinct (map Signer ops)"
    and "\<forall>m \<in> set ops. \<exists>d. map_of (byOperatorID c) (Signer m) = Some d \<and> pk share \<in> pk ` set (sc_shares d) \<and> distinct (map pk (sc_shares d))"
  shows "\<exists>bo. updateInOperators k cm share ops c = (Ok (), c\<lparr>byOperatorID := bo\<rparr>) \<and>
    (\<forall>op. map_of bo op = (if op \<in> Signer ` set ops
                          then map_option (update_entry k cm share) (map_of (byOperatorID c) op) else map_of (byOperatorID c) op))"
  using assms
proof (induction ops arbitrary: c)
  case Nil
  then show ?case
    by (intro exI [of _ "byOperatorID c"]) simp
next
  case (Cons m ops)
  obtain d where d: "map_of (byOperatorID c) (Signer m) = Some d" "pk share \<in> pk ` set (sc_shares d)" "distinct (map pk (sc_shares d))"
    using Cons.prems(2) by auto
  define b0 where "b0 = AList.update (Signer m) (update_entry k cm share d) (byOperatorID c)"
  have step: "updateInOperators k cm share (m # ops) c = updateInOperators k cm share ops (c\<lparr>byOperatorID := b0\<rparr>)"
    using d by (simp add: b0_def update_entry_def replaceFirstShare_eq containsShare_iff)
  have b0: "map_of b0 op = (if op = Signer m then Some (update_entry k cm share d) else map_of (byOperatorID c) op)" for op
    by (simp add: update_conv' b0_def)
  have other: "Signer m' \<noteq> Signer m" if "m' \<in> set ops" for m'
    using Cons.prems(1) that by (auto simp: rev_image_eqI)
  have "\<forall>m \<in> set ops. \<exists>d. map_of (byOperatorID (c\<lparr>byOperatorID := b0\<rparr>)) (Signer m) = Some d \<and>
      pk share \<in> pk ` set (sc_shares d) \<and> distinct (map pk (sc_shares d))"
    using Cons.prems(2) other by (simp add: b0)
  then obtain bo where "updateInOperators k cm share ops (c\<lparr>byOperatorID := b0\<rparr>) = (Ok (), c\<lparr>byOperatorID := bo\<rparr>)"
    "\<forall>op. map_of bo op = (if op \<in> Signer ` set ops then map_option (update_entry k cm share) (map_of b0 op) else map_of b0 op)"
    using Cons.IH [of "c\<lparr>byOperatorID := b0\<rparr>"] Cons.prems(1) by auto
  then show ?case
    unfolding step using b0 d(1) Cons.prems(1) by (intro exI [of _ bo]) (auto simp: rev_image_eqI)
qed

lemma operator_entry_update:
  assumes same: "same_committee sha S share" and old: "operator_entry sha g S op (Some d)" and op: "op \<in> set (OperatorIDs share)"
    and g: "\<And>k. c_ID (g k) = k" "c_ID cm = cid sha share"
  shows "operator_entry sha (g(cid sha share := cm)) (replaced share S) op (Some (update_entry (cid sha share) cm share d))"
proof -
  let ?k = "cid sha share"
  have d: "sc_shares d = with_operator S op" "distinct (map c_ID (sc_committees d))"
      "set (sc_committees d) = g ` keys_of sha S op" "with_operator S op \<noteq> []"
    using old by (simp_all add: operator_entry_def)
  obtain s where "s \<in> set S" "pk s = pk share" "op \<in> set (OperatorIDs s)" "cid sha s = ?k"
    using same op by (auto simp: same_committee_def)
  then have k: "?k \<in> keys_of sha S op"
    by (auto simp: keys_of_def with_operator_def intro!: image_eqI [of _ _ s])
  show ?thesis
    using replaceCommittee_image [OF d(2,3) g k] d keys_of_replaced [OF same, of op]
    by (simp add: operator_entry_def update_entry_def with_replaced(2) [OF same] del: fun_upd_apply)
qed

text \<open>
  The committee of the share is rebuilt from the shares in the store; those of the other committees are
  what they were.
\<close>

lemma updateShare_refines_with:
  assumes ix: "indexes_with sha g S c" and reg: "registry_ok sha S" and same: "same_committee sha S share"
    and g: "\<And>k. c_ID (g k) = k" "\<And>k. c_Shares (g k) = with_key sha S k"
  shows "fst (updateShare sha (Some share) c) = Ok () \<and>
    indexes_with sha (g(cid sha share := committee_of sha (replaced share S) (cid sha share))) (replaced share S)
      (snd (updateShare sha (Some share) c))"
proof -
  let ?k = "cid sha share" and ?S = "replaced share S"
  let ?cm = "committee_of sha ?S ?k"
  let ?g = "g(?k := ?cm)"
  obtain s where s: "s \<in> set S" "pk s = pk share" "OperatorIDs s = OperatorIDs share" "cid sha s = ?k"
    using same by (auto simp: same_committee_def)
  define c1 where "c1 = (indexShare c share)\<lparr>byCommitteeID := AList.update ?k ?cm (byCommitteeID c)\<rparr>"
  have c1: "byOperatorID c1 = byOperatorID c" "byCommitteeID (indexShare c share) = byCommitteeID c"
    by (simp_all add: c1_def indexShare_def)
  have key: "with_key sha S ?k \<noteq> []"
    using s by (auto simp: with_key_def filter_empty_conv)
  then have "map_of (byCommitteeID c) ?k = Some (g ?k)"
    using ix by (simp add: indexes_with_def)
  moreover have "containsShare (with_key sha S ?k) share"
    using s by (auto simp: containsShare_def with_key_def)
  moreover have "(buildCommittee sha (replaced share (with_key sha S ?k)) :: (store_err, Committee) res) = Ok ?cm"
    using buildCommittee_of [of sha ?S ?k] key by (simp add: with_replaced(1) [OF same])
  ultimately have run: "updateShare sha (Some share) c = updateInOperators ?k ?cm share (sh_Committee share) c1"
    by (simp add: updateShare_def Let_def c1 c1_def updateCommitteeWithShare_def replaced_def g)
  have entry: "operator_entry sha g S op (map_of (byOperatorID c) op)" for op
    using ix by (simp add: indexes_with_def)
  have has_entry: "\<exists>d. map_of (byOperatorID c) op = Some d \<and> pk share \<in> pk ` set (sc_shares d) \<and> distinct (map pk (sc_shares d))"
    if "op \<in> set (OperatorIDs share)" for op
  proof -
    have "s \<in> set (with_operator S op)" "distinct (map pk (with_operator S op))"
      using s that registry_distinct [OF reg] by (simp_all add: with_operator_def distinct_map_filter)
    then show ?thesis
      using entry [of op] s(2) by (cases "map_of (byOperatorID c) op") (auto simp: operator_entry_def intro: rev_image_eqI)
  qed
  have "distinct (map Signer (sh_Committee share))"
    using registry_operators [OF reg s(1)] s(3) by (simp add: OperatorIDs_def)
  moreover have "\<forall>m \<in> set (sh_Committee share). \<exists>d. map_of (byOperatorID c1) (Signer m) = Some d \<and>
      pk share \<in> pk ` set (sc_shares d) \<and> distinct (map pk (sc_shares d))"
    using has_entry by (simp add: c1 OperatorIDs_def)
  ultimately obtain bo where bo: "updateInOperators ?k ?cm share (sh_Committee share) c1 = (Ok (), c1\<lparr>byOperatorID := bo\<rparr>)"
    "\<forall>op. map_of bo op = (if op \<in> Signer ` set (sh_Committee share)
       then map_option (update_entry ?k ?cm share) (map_of (byOperatorID c1) op) else map_of (byOperatorID c1) op)"
    using updateInOperators_eq by blast
  have "operator_entry sha ?g ?S op (map_of bo op)" for op
  proof (cases "op \<in> set (OperatorIDs share)")
    case True
    then obtain d where "map_of (byOperatorID c) op = Some d"
      using has_entry by blast
    then show ?thesis
      using operator_entry_update [OF same _ True g(1) c_ID_committee_of, of d] entry [of op] bo(2) True
      by (simp add: c1 OperatorIDs_def del: fun_upd_apply)
  next
    case False
    have "?k \<notin> keys_of sha S op"
      using key_not_in [OF reg s(1)] False s(3,4) by simp
    moreover have "pk share \<notin> pk ` set (with_operator S op)"
      using same False by (auto simp: same_committee_def with_operator_def)
    then have "with_operator ?S op = with_operator S op"
      by (simp add: with_replaced(2) [OF same] replaced_absent)
    ultimately have "operator_entry sha ?g ?S op (map_of (byOperatorID c) op) = operator_entry sha g S op (map_of (byOperatorID c) op)"
      by (intro operator_entry_other) auto
    then show ?thesis
      using entry [of op] bo(2) False by (simp add: c1 OperatorIDs_def)
  qed
  moreover have "map_of (byCommitteeID c1) k = (if with_key sha ?S k = [] then None else Some (?g k))" for k
    using ix key by (simp add: c1_def update_conv' indexes_with_def with_replaced(1) [OF same])
  ultimately show ?thesis
    by (simp add: run bo(1) indexes_with_def)
qed

lemma updateShare_refines:
  assumes "indexes sha S c" "registry_ok sha S" "same_committee sha S share"
  shows "fst (updateShare sha (Some share) c) = Ok () \<and> indexes sha (replaced share S) (snd (updateShare sha (Some share) c))"
proof -
  have "(committee_of sha S)(cid sha share := committee_of sha (replaced share S) (cid sha share)) = committee_of sha (replaced share S)"
    using committee_of_replaced [OF assms(3)] by (auto simp: fun_eq_iff)
  then show ?thesis
    using updateShare_refines_with [OF assms(1) [unfolded indexes_def] assms(2,3) c_ID_committee_of committee_of_fields(1)]
    by (simp add: indexes_def)
qed

lemma registry_replaced:
  assumes "registry_ok sha S" "same_committee sha S share"
  shows "registry_ok sha (replaced share S)"
proof -
  obtain s where s: "s \<in> set S" "pk s = pk share" "OperatorIDs s = OperatorIDs share" "cid sha s = cid sha share"
    using assms(2) by (auto simp: same_committee_def)
  have "distinct (OperatorIDs t)" if "t \<in> set (replaced share S)" for t
    using that registry_operators [OF assms(1)] s by (auto simp: set_replaced) metis
  moreover have "set (OperatorIDs t) = set (OperatorIDs t')"
    if "t \<in> set (replaced share S)" "t' \<in> set (replaced share S)" "cid sha t = cid sha t'" for t t'
    using that registry_committee [OF assms(1)] s unfolding set_replaced by metis
  ultimately show ?thesis
    using registry_distinct [OF assms(1)] unfolding registry_ok_def map_pk_replaced by blast
qed

end
