(* ===== verification/Shares_Storage.thy ===== *)
theory Shares_Storage
  imports Validator_Store_Refinement
begin

text \<open>
  The storage of validator shares, \<open>registry/storage/shares.go\<close>: the shares in memory by public key, the
  validator store that indexes them, and their encoding in the database. The database is the argument
  \<open>D\<close>, as seen through the transaction a call is given; its content is a value the operations pass on. The
  SSZ code generated for a stored share is the argument \<open>Z\<close>. The map of shares is keyed by the hex form
  of the public key; hex is injective, and here it is keyed by the public key itself.
\<close>

section \<open>Stored shares\<close>

record storageOperator =
  so_OperatorID :: u64
  so_PubKey :: bytes

record storageShare =
  st_ValidatorIndex :: u64
  st_ValidatorPubKey :: bytes
  st_SharePubKey :: bytes
  st_Committee :: "storageOperator list"
  st_DomainType :: bytes
  st_FeeRecipientAddress :: bytes
  st_Graffiti :: bytes
  st_Status :: u64
  st_ActivationEpoch :: u64
  st_ExitEpoch :: u64
  st_OwnerAddress :: bytes
  st_Liquidated :: bool

text \<open>
  The generated encoder and decoder, and the number of a validator state, which the beacon client library
  defines.
\<close>

record shareSSZ =
  z_MarshalSSZ :: "storageShare \<Rightarrow> string + bytes"
  z_UnmarshalSSZ :: "bytes \<Rightarrow> string + storageShare"
  z_number :: "ValidatorState \<Rightarrow> u64"
  z_state :: "u64 \<Rightarrow> ValidatorState"
  z_MaxAllowedShareSize :: nat

record 'd shareDB =
  db_SetMany :: "bytes \<Rightarrow> (store_err, bytes \<times> bytes) res list \<Rightarrow> 'd \<Rightarrow> string option \<times> 'd"
  db_GetAll :: "bytes \<Rightarrow> 'd \<Rightarrow> (bytes \<times> bytes) list \<times> string option"
  db_GetMany :: "bytes \<Rightarrow> bytes list \<Rightarrow> 'd \<Rightarrow> (bytes \<times> bytes) list \<times> string option"
  db_Delete :: "bytes \<Rightarrow> bytes \<Rightarrow> 'd \<Rightarrow> string option \<times> 'd"
  db_DropPrefix :: "bytes \<Rightarrow> 'd \<Rightarrow> string option \<times> 'd"

definition FromSSVShare :: "shareSSZ \<Rightarrow> SSVShare \<Rightarrow> storageShare" where
  "FromSSVShare Z share =
     \<lparr>st_ValidatorIndex = sh_ValidatorIndex share, st_ValidatorPubKey = sh_ValidatorPubKey share,
      st_SharePubKey = sh_SharePubKey share,
      st_Committee = map (\<lambda>c. \<lparr>so_OperatorID = Signer c, so_PubKey = mem_SharePubKey c\<rparr>) (sh_Committee share),
      st_DomainType = sh_DomainType share, st_FeeRecipientAddress = replicate 20 0, st_Graffiti = sh_Graffiti share,
      st_Status = z_number Z (sh_Status share), st_ActivationEpoch = sh_ActivationEpoch share,
      st_ExitEpoch = sh_ExitEpoch share, st_OwnerAddress = sh_OwnerAddress share, st_Liquidated = sh_Liquidated share\<rparr>"

definition ToSSVShare :: "shareSSZ \<Rightarrow> storageShare \<Rightarrow> (store_err, SSVShare) res" where
  "ToSSVShare Z st =
     (if length (st_ValidatorPubKey st) \<noteq> 48 then Err (DBError ''invalid ValidatorPubKey length'')
      else Ok \<lparr>sh_ValidatorIndex = st_ValidatorIndex st, sh_ValidatorPubKey = st_ValidatorPubKey st,
               sh_SharePubKey = st_SharePubKey st,
               sh_Committee = map (\<lambda>c. \<lparr>Signer = so_OperatorID c, mem_SharePubKey = so_PubKey c\<rparr>) (st_Committee st),
               sh_DomainType = st_DomainType st, sh_Graffiti = st_Graffiti st, sh_Status = z_state Z (st_Status st),
               sh_ActivationEpoch = st_ActivationEpoch st, sh_ExitEpoch = st_ExitEpoch st,
               sh_OwnerAddress = st_OwnerAddress st, sh_Liquidated = st_Liquidated st, sh_BeaconMetadataLastUpdated = 0,
               sh_committeeID = None, sh_booleCommitteeSubnet = None, sh_alanCommitteeSubnet = None,
               sh_minParticipationEpoch = 0\<rparr>)"

definition EncodeShare :: "shareSSZ \<Rightarrow> storageShare \<Rightarrow> (store_err, bytes) res" where
  "EncodeShare Z st = of_sum DBError (z_MarshalSSZ Z st)"

definition DecodeShare :: "shareSSZ \<Rightarrow> bytes \<Rightarrow> (store_err, storageShare) res" where
  "DecodeShare Z data =
     (if length data > z_MaxAllowedShareSize Z then Err (DBError ''share size is too big'')
      else of_sum DBError (z_UnmarshalSSZ Z data))"

definition str :: "string \<Rightarrow> bytes" where "str s = map of_char s"

definition SharesDBPrefix :: "bytes \<Rightarrow> bytes" where "SharesDBPrefix storagePrefix = storagePrefix @ str ''shares_v2/''"
definition SharesDBKey :: "bytes \<Rightarrow> bytes" where "SharesDBKey k = str ''shares_v2/'' @ k"
definition PubkeyToIndexMappingDBKey :: "bytes \<Rightarrow> bytes" where
  "PubkeyToIndexMappingDBKey storagePrefix = storagePrefix @ str ''val_pki''"

section \<open>The storage\<close>

record 'd sharesStorage =
  ss_storagePrefix :: bytes
  ss_shares :: "(bytes \<times> SSVShare) list"
  ss_validatorStore :: validatorStore
  ss_db :: 'd

text \<open>\<open>binary.LittleEndian.Uint64\<close> panics on fewer than eight bytes.\<close>

definition get_u64 :: "bytes \<Rightarrow> ('e, u64) res" where
  "get_u64 b = (if length b < 8 then Panic else Ok (word_of_nat (foldr (\<lambda>x n. unat x + 256 * n) (take 8 b) 0)))"

definition loadFromDB :: "'d shareDB \<Rightarrow> shareSSZ \<Rightarrow> bytes \<Rightarrow> 'd \<Rightarrow> (store_err, (bytes \<times> SSVShare) list) res" where
  "loadFromDB D Z prefix d =
     (let (objs, err) = db_GetAll D (SharesDBPrefix prefix) d
      in bind_res (each_map (\<lambda>(_, v). bind_res (DecodeShare Z v) (\<lambda>st.
                     bind_res (ToSSVShare Z st) (\<lambda>share. Ok (st_ValidatorPubKey st, share)))) objs) (\<lambda>shares.
           case err of Some e \<Rightarrow> Err (DBError e) | None \<Rightarrow> Ok (fold (\<lambda>(k, s) m. AList.update k s m) shares [])))"

definition loadPubkeyToIndexMappings :: "'d shareDB \<Rightarrow> bytes \<Rightarrow> 'd \<Rightarrow> (store_err, (bytes \<times> u64) list) res" where
  "loadPubkeyToIndexMappings D prefix d =
     (let (objs, err) = db_GetAll D (PubkeyToIndexMappingDBKey prefix) d
      in bind_res (each_map (\<lambda>(k, v). bind_res (ensure (length k = 48) (DBError ''invalid validator PK: bad length'')) (\<lambda>_.
                     bind_res (get_u64 v) (\<lambda>i. Ok (k, i)))) objs) (\<lambda>m.
           case err of Some e \<Rightarrow> Err (DBError e) | None \<Rightarrow> Ok (fold (\<lambda>(k, i) m. AList.update k i m) m [])))"

definition NewSharesStorage ::
    "(bytes \<Rightarrow> bytes) \<Rightarrow> 'd shareDB \<Rightarrow> shareSSZ \<Rightarrow> bytes \<Rightarrow> 'd \<Rightarrow> (store_err, 'd sharesStorage) res" where
  "NewSharesStorage sha D Z prefix d =
     bind_res (loadFromDB D Z prefix d) (\<lambda>shares.
     bind_res (loadPubkeyToIndexMappings D prefix d) (\<lambda>pki.
     case handleSharesAdded sha (map (Some \<circ> snd) shares) (newValidatorStore pki) of
       (Ok _, c) \<Rightarrow> Ok \<lparr>ss_storagePrefix = prefix, ss_shares = shares, ss_validatorStore = c, ss_db = d\<rparr>
     | (Err e, _) \<Rightarrow> Err e
     | (Panic, _) \<Rightarrow> Panic))"

definition sharesGet :: "'d sharesStorage \<Rightarrow> bytes \<Rightarrow> SSVShare option" where
  "sharesGet s pubKey = map_of (ss_shares s) pubKey"

definition sharesList :: "'d sharesStorage \<Rightarrow> (SSVShare \<Rightarrow> bool) list \<Rightarrow> SSVShare list" where
  "sharesList s filters = filter (\<lambda>share. \<forall>f \<in> set filters. f share) (map snd (ss_shares s))"

definition ByOperatorID :: "OperatorID \<Rightarrow> SSVShare \<Rightarrow> bool" where
  "ByOperatorID operatorID share = BelongsToOperator share operatorID"

definition ByNotLiquidated :: "SSVShare \<Rightarrow> bool" where
  "ByNotLiquidated share \<longleftrightarrow> \<not> sh_Liquidated share"

definition ByClusterIDHash :: "(bytes \<Rightarrow> bytes) \<Rightarrow> bytes \<Rightarrow> SSVShare \<Rightarrow> bool" where
  "ByClusterIDHash keccak clusterID share \<longleftrightarrow>
     ComputeClusterIDHash keccak (sh_OwnerAddress share) (map Signer (sh_Committee share)) = clusterID"

definition GetValidatorIndicesByPubkeys ::
    "'d shareDB \<Rightarrow> 'd sharesStorage \<Rightarrow> bytes list \<Rightarrow> (store_err, u64 list) res" where
  "GetValidatorIndicesByPubkeys D s vkeys =
     (let (objs, err) = db_GetMany D (PubkeyToIndexMappingDBKey (ss_storagePrefix s)) vkeys (ss_db s)
      in bind_res (each_map (\<lambda>(_, v). get_u64 v) objs) (\<lambda>idxs.
           case err of Some e \<Rightarrow> Err (DBError e) | None \<Rightarrow> Ok idxs))"

text \<open>The result of a database call and the storage with the new content.\<close>

definition dbResult :: "string option \<times> 'd \<Rightarrow> 'd sharesStorage \<Rightarrow> (store_err, unit) res \<times> 'd sharesStorage" where
  "dbResult r s = (case fst r of None \<Rightarrow> Ok () | Some e \<Rightarrow> Err (DBError e), s\<lparr>ss_db := snd r\<rparr>)"

definition saveToDB ::
    "'d shareDB \<Rightarrow> shareSSZ \<Rightarrow> SSVShare list \<Rightarrow> 'd sharesStorage \<Rightarrow> (store_err, unit) res \<times> 'd sharesStorage" where
  "saveToDB D Z shares s =
     bind_st (dbResult (db_SetMany D (PubkeyToIndexMappingDBKey (ss_storagePrefix s))
                (map (\<lambda>share. Ok (pk share, le_bytes 8 (sh_ValidatorIndex share))) shares) (ss_db s)) s) (\<lambda>_ s.
       dbResult (db_SetMany D (ss_storagePrefix s)
         (map (\<lambda>share. bind_res (EncodeShare Z (FromSSVShare Z share)) (\<lambda>v. Ok (SharesDBKey (pk share), v))) shares)
         (ss_db s)) s)"

text \<open>The validator store runs one of its handlers.\<close>

definition onStore ::
    "(validatorStore \<Rightarrow> (store_err, unit) res \<times> validatorStore) \<Rightarrow> 'd sharesStorage \<Rightarrow> (store_err, unit) res \<times> 'd sharesStorage" where
  "onStore h s = (case h (ss_validatorStore s) of (r, c) \<Rightarrow> (r, s\<lparr>ss_validatorStore := c\<rparr>))"

text \<open>The loop that sorts the shares into new and known ones and writes the map.\<close>

fun splitShares ::
    "SSVShare list \<Rightarrow> (bytes \<times> SSVShare) list \<Rightarrow> (SSVShare list \<times> SSVShare list) \<times> (bytes \<times> SSVShare) list" where
  "splitShares [] m = (([], []), m)"
| "splitShares (share # shares) m =
     (let known = (map_of m (pk share) \<noteq> None);
          ((us, as), m') = splitShares shares (AList.update (pk share) share m)
      in (if known then (share # us, as) else (us, share # as), m'))"

definition sharesSave ::
    "(bytes \<Rightarrow> bytes) \<Rightarrow> 'd shareDB \<Rightarrow> shareSSZ \<Rightarrow> SSVShare option list \<Rightarrow> 'd sharesStorage
       \<Rightarrow> (store_err, unit) res \<times> 'd sharesStorage" where
  "sharesSave sha D Z mshares s =
     (if mshares = [] then (Ok (), s)
      else if None \<in> set mshares then (Err NilShare, s)
      else let shares = map the mshares;
               ((updateShares, addShares), m) = splitShares shares (ss_shares s)
           in bind_st (map_err_st HandleUpdated (onStore (handleSharesUpdated sha (map Some updateShares)) (s\<lparr>ss_shares := m\<rparr>))) (\<lambda>_ s.
              bind_st (map_err_st HandleAdded (onStore (handleSharesAdded sha (map Some addShares)) s)) (\<lambda>_ s.
                saveToDB D Z shares s)))"

definition sharesDelete ::
    "(bytes \<Rightarrow> bytes) \<Rightarrow> 'd shareDB \<Rightarrow> bytes \<Rightarrow> 'd sharesStorage \<Rightarrow> (store_err, unit) res \<times> 'd sharesStorage" where
  "sharesDelete sha D pubKey s =
     (case map_of (ss_shares s) pubKey of
        None \<Rightarrow> (Ok (), s)
      | Some share \<Rightarrow>
          bind_st (onStore (handleShareRemoved sha (Some share)) (s\<lparr>ss_shares := AList.delete pubKey (ss_shares s)\<rparr>)) (\<lambda>_ s.
            dbResult (db_Delete D (ss_storagePrefix s) (SharesDBKey pubKey) (ss_db s)) s))"

text \<open>
  A write through the pointer of a share shows in the map and in every index that holds the share. The
  pointer of a validator is the same everywhere, an entry of \<open>byValidatorIndex\<close> left behind by a change of
  the validator's index apart: the statements below are not about that index.
\<close>

definition throughPointer :: "SSVShare \<Rightarrow> SSVShare \<Rightarrow> SSVShare" where
  "throughPointer share s = (if pk s = pk share then share else s)"

definition writeCommittee :: "SSVShare \<Rightarrow> Committee \<Rightarrow> Committee" where
  "writeCommittee share cm = cm\<lparr>c_Shares := map (throughPointer share) (c_Shares cm)\<rparr>"

definition writeStore :: "SSVShare \<Rightarrow> validatorStore \<Rightarrow> validatorStore" where
  "writeStore share c =
     c\<lparr>byValidatorIndex := map (\<lambda>(i, s). (i, throughPointer share s)) (byValidatorIndex c),
       byCommitteeID := map (\<lambda>(k, cm). (k, writeCommittee share cm)) (byCommitteeID c),
       byOperatorID := map (\<lambda>(op, d). (op, \<lparr>sc_shares = map (throughPointer share) (sc_shares d),
          sc_committees = map (writeCommittee share) (sc_committees d)\<rparr>)) (byOperatorID c)\<rparr>"

definition writeShare :: "SSVShare \<Rightarrow> 'd sharesStorage \<Rightarrow> 'd sharesStorage" where
  "writeShare share s =
     s\<lparr>ss_shares := map (\<lambda>(k, t). (k, throughPointer share t)) (ss_shares s),
       ss_validatorStore := writeStore share (ss_validatorStore s)\<rparr>"

definition metadataEquals :: "ValidatorMetadata \<Rightarrow> ValidatorMetadata option \<Rightarrow> bool" where
  "metadataEquals m other \<longleftrightarrow>
     (case other of None \<Rightarrow> False
      | Some other \<Rightarrow> md_Status m = md_Status other \<and> md_Index m = md_Index other \<and>
          md_ActivationEpoch m = md_ActivationEpoch other \<and> md_ExitEpoch m = md_ExitEpoch other)"

fun applyMetadata ::
    "int \<Rightarrow> (bytes \<times> ValidatorMetadata option) list \<Rightarrow> 'd sharesStorage
       \<Rightarrow> (SSVShare list \<times> (bytes \<times> ValidatorMetadata) list) \<times> 'd sharesStorage" where
  "applyMetadata now [] s = (([], []), s)"
| "applyMetadata now ((k, None) # data) s = applyMetadata now data s"
| "applyMetadata now ((k, Some metadata) # data) s =
     (case sharesGet s k of
        None \<Rightarrow> applyMetadata now data s
      | Some share \<Rightarrow>
          if metadataEquals metadata (Some (BeaconMetadata share))
          then applyMetadata now data (writeShare (share\<lparr>sh_BeaconMetadataLastUpdated := now\<rparr>) s)
          else let share = SetBeaconMetadata now share (Some metadata);
                   ((changed, changedMetadata), s) = applyMetadata now data (writeShare share s)
               in ((share # changed, (k, metadata) # changedMetadata), s))"

definition UpdateValidatorsMetadata ::
    "(bytes \<Rightarrow> bytes) \<Rightarrow> 'd shareDB \<Rightarrow> shareSSZ \<Rightarrow> int \<Rightarrow> (bytes \<times> ValidatorMetadata option) list \<Rightarrow> 'd sharesStorage
       \<Rightarrow> (store_err, (bytes \<times> ValidatorMetadata) list) res \<times> 'd sharesStorage" where
  "UpdateValidatorsMetadata sha D Z now data s =
     (let ((changedShares, changedMetadata), s) = applyMetadata now data s
      in if changedShares = [] then (Ok [], s)
         else bind_st (onStore (handleSharesUpdated sha (map Some changedShares)) s) (\<lambda>_ s.
              bind_st (saveToDB D Z changedShares s) (\<lambda>_ s. (Ok changedMetadata, s))))"

definition sharesDrop :: "'d shareDB \<Rightarrow> 'd sharesStorage \<Rightarrow> (store_err, unit) res \<times> 'd sharesStorage" where
  "sharesDrop D s =
     (let s = s\<lparr>ss_shares := [], ss_validatorStore := handleDrop (ss_validatorStore s)\<rparr>
      in dbResult (db_DropPrefix D (SharesDBPrefix (ss_storagePrefix s)) (ss_db s)) s)"

section \<open>Stored shares read back\<close>

text \<open>
  A stored share reads back as the share, without the time of its metadata and the values it caches, as
  long as the library's numbers of the validator states are distinct.
\<close>

lemma ToSSVShare_FromSSVShare:
  assumes "length (pk share) = 48" "z_state Z (z_number Z (sh_Status share)) = sh_Status share"
  shows "ToSSVShare Z (FromSSVShare Z share) =
    Ok (share\<lparr>sh_BeaconMetadataLastUpdated := 0, sh_committeeID := None, sh_booleCommitteeSubnet := None,
              sh_alanCommitteeSubnet := None, sh_minParticipationEpoch := 0\<rparr>)"
proof -
  have "map (\<lambda>c. \<lparr>Signer = Signer c, mem_SharePubKey = mem_SharePubKey c\<rparr>) cs = cs" for cs
    by (intro map_idI) simp
  then show ?thesis
    using assms by (cases share) (simp add: ToSSVShare_def FromSSVShare_def comp_def)
qed

section \<open>Refinement\<close>

text \<open>
  The specification is the list of shares of \<open>Validator_Store_Refinement\<close>. The storage holds it in the map,
  and the validator store indexes it.
\<close>

definition share_of :: "SSVShare list \<Rightarrow> bytes \<Rightarrow> SSVShare option" where
  "share_of S = map_of (map (\<lambda>s. (pk s, s)) S)"

definition storage_ok :: "(bytes \<Rightarrow> bytes) \<Rightarrow> SSVShare list \<Rightarrow> 'd sharesStorage \<Rightarrow> bool" where
  "storage_ok sha S s \<longleftrightarrow>
     registry_ok sha S \<and> map_of (ss_shares s) = share_of S \<and> indexes sha S (ss_validatorStore s)"

definition put :: "SSVShare \<Rightarrow> SSVShare list \<Rightarrow> SSVShare list" where
  "put share S = (if pk share \<in> pk ` set S then replaced share S else S @ [share])"

definition refreshed :: "int \<Rightarrow> (bytes \<times> ValidatorMetadata option) list \<Rightarrow> SSVShare list \<Rightarrow> SSVShare list" where
  "refreshed now data S =
     map (\<lambda>s. case map_of data (pk s) of Some md \<Rightarrow> SetBeaconMetadata now s md | None \<Rightarrow> s) S"

lemma share_of_iff: "distinct (map pk S) \<Longrightarrow> share_of S k = Some s \<longleftrightarrow> s \<in> set S \<and> pk s = k"
  unfolding share_of_def by (subst map_of_eq_Some_iff) (auto simp: comp_def)

lemma share_of_None: "share_of S k = None \<longleftrightarrow> k \<notin> pk ` set S"
  by (auto simp: share_of_def map_of_eq_None_iff image_image)

lemma share_of_replaced: "share_of (replaced share S) = (share_of S)(pk share := if pk share \<in> pk ` set S then Some share else None)"
  by (induction S) (auto simp: share_of_def replaced_def fun_eq_iff)

lemma share_of_append: "share_of (S @ [share]) = [pk share \<mapsto> share] ++ share_of S"
  by (simp add: share_of_def)

lemma share_of_put: "share_of (put share S) = (share_of S)(pk share \<mapsto> share)"
proof (cases "pk share \<in> pk ` set S")
  case False
  then have "share_of S (pk share) = None"
    by (simp add: share_of_None)
  then show ?thesis
    using False by (auto simp: put_def share_of_append map_add_def fun_eq_iff split: option.split)
qed (simp add: put_def share_of_replaced)

lemma share_of_without: "distinct (map pk S) \<Longrightarrow> share_of (without share S) = (share_of S)(pk share := None)"
  by (induction S) (auto simp: share_of_def without_def fun_eq_iff)

lemma registry_prefix: "registry_ok sha (S @ T) \<Longrightarrow> registry_ok sha S"
  by (auto simp: registry_ok_def)

subsection \<open>Saving\<close>

lemma pk_replaced: "pk ` set (replaced share S) = pk ` set S"
  using map_pk_replaced [of share S] by (metis set_map)

lemma same_committee_replaced:
  assumes u: "same_committee sha S u" and v: "same_committee sha S v"
  shows "same_committee sha (replaced v S) u"
proof -
  have "OperatorIDs s = OperatorIDs u \<and> cid sha s = cid sha u" if s: "s \<in> set (replaced v S)" "pk s = pk u" for s
  proof (cases "s \<in> set S")
    case True
    then show ?thesis
      using u s(2) by (simp add: same_committee_def)
  next
    case False
    then have "s = v" "pk v \<in> pk ` set S"
      using s(1) by (auto simp: set_replaced)
    then obtain t where t: "t \<in> set S" "pk t = pk v"
      by auto
    have "OperatorIDs t = OperatorIDs v \<and> cid sha t = cid sha v"
      using v t by (simp add: same_committee_def)
    moreover have "OperatorIDs t = OperatorIDs u \<and> cid sha t = cid sha u"
      using u t s(2) \<open>s = v\<close> by (simp add: same_committee_def)
    ultimately show ?thesis
      using \<open>s = v\<close> by simp
  qed
  then show ?thesis
    using u by (auto simp: same_committee_def pk_replaced simp del: fst_conv)
qed

lemma handleSharesUpdated_refines:
  assumes "indexes sha S c" "registry_ok sha S" "\<forall>u \<in> set us. same_committee sha S u"
  shows "fst (handleSharesUpdated sha (map Some us) c) = Ok () \<and> registry_ok sha (fold replaced us S) \<and>
    indexes sha (fold replaced us S) (snd (handleSharesUpdated sha (map Some us) c))"
  using assms
proof (induction us arbitrary: S c)
  case (Cons u us)
  have u: "same_committee sha S u"
    using Cons.prems by simp
  have "\<forall>v \<in> set us. same_committee sha (replaced u S) v"
    using Cons.prems u by (auto intro: same_committee_replaced)
  moreover have "fst (updateShare sha (Some u) c) = Ok ()" "indexes sha (replaced u S) (snd (updateShare sha (Some u) c))"
    using updateShare_refines [OF Cons.prems(1,2) u] by simp_all
  ultimately show ?case
    using Cons.IH [of "replaced u S" "snd (updateShare sha (Some u) c)"] registry_replaced [OF Cons.prems(2) u]
    by (simp add: bind_st_eq)
qed simp

lemma handleSharesAdded_refines:
  assumes "indexes sha S c" "registry_ok sha (S @ as)"
  shows "fst (handleSharesAdded sha (map Some as) c) = Ok () \<and>
    indexes sha (S @ as) (snd (handleSharesAdded sha (map Some as) c))"
  using assms
proof (induction as arbitrary: S c)
  case (Cons a as)
  have "registry_ok sha (S @ [a])"
    using registry_prefix [of sha "S @ [a]" as] Cons.prems by simp
  then have "fst (addShare sha (Some a) c) = Ok ()" "indexes sha (S @ [a]) (snd (addShare sha (Some a) c))"
    using addShare_refines [OF Cons.prems(1)] by blast+
  then show ?case
    using Cons.IH [of "S @ [a]" "snd (addShare sha (Some a) c)"] Cons.prems by (simp add: bind_st_eq)
qed simp

lemma fold_replaced_append:
  "\<forall>u \<in> set us. pk u \<notin> pk ` set T \<Longrightarrow> fold replaced us (S @ T) = fold replaced us S @ T"
proof (induction us arbitrary: S)
  case (Cons u us)
  have "replaced u (S @ T) = replaced u S @ replaced u T"
    by (simp add: replaced_def)
  then show ?case
    using Cons by (simp add: replaced_absent)
qed simp

lemma fold_put_eq:
  assumes "distinct (map pk shares)"
  shows "fold put shares S =
    fold replaced (filter (\<lambda>s. pk s \<in> pk ` set S) shares) S @ filter (\<lambda>s. pk s \<notin> pk ` set S) shares"
  using assms
proof (induction shares arbitrary: S)
  case (Cons share shares)
  show ?case
  proof (cases "pk share \<in> pk ` set S")
    case True
    then show ?thesis
      using Cons by (simp add: put_def pk_replaced)
  next
    case False
    have other: "pk s \<noteq> pk share" if "s \<in> set shares" for s
      using Cons.prems that by (auto simp: rev_image_eqI)
    then have "filter (\<lambda>s. pk s \<in> pk ` set (S @ [share])) shares = filter (\<lambda>s. pk s \<in> pk ` set S) shares"
      "filter (\<lambda>s. pk s \<notin> pk ` set (S @ [share])) shares = filter (\<lambda>s. pk s \<notin> pk ` set S) shares"
      by (auto intro: filter_cong)
    moreover have "fold replaced (filter (\<lambda>s. pk s \<in> pk ` set S) shares) (S @ [share]) =
        fold replaced (filter (\<lambda>s. pk s \<in> pk ` set S) shares) S @ [share]"
      using other by (intro fold_replaced_append) auto
    ultimately show ?thesis
      using Cons False by (simp add: put_def)
  qed
qed simp

lemma splitShares_eq:
  assumes "distinct (map pk shares)"
  shows "splitShares shares m =
    ((filter (\<lambda>s. map_of m (pk s) \<noteq> None) shares, filter (\<lambda>s. map_of m (pk s) = None) shares),
     fold (\<lambda>s. AList.update (pk s) s) shares m)"
  using assms
proof (induction shares arbitrary: m)
  case (Cons share shares)
  have "pk s \<noteq> pk share" if "s \<in> set shares" for s
    using Cons.prems that by (auto simp: rev_image_eqI)
  then have "filter (\<lambda>s. map_of (AList.update (pk share) share m) (pk s) \<noteq> None) shares = filter (\<lambda>s. map_of m (pk s) \<noteq> None) shares"
    "filter (\<lambda>s. map_of (AList.update (pk share) share m) (pk s) = None) shares = filter (\<lambda>s. map_of m (pk s) = None) shares"
    by (auto simp: update_conv' intro!: filter_cong)
  then show ?case
    using Cons by simp
qed simp

lemma share_of_puts:
  "map_of m = share_of S \<Longrightarrow> map_of (fold (\<lambda>s. AList.update (pk s) s) shares m) = share_of (fold put shares S)"
  by (induction shares arbitrary: m S) (simp_all add: update_conv' share_of_put)

text \<open>A database call changes neither the map nor the indices.\<close>

lemma dbResult_memory [simp]:
  "ss_shares (snd (dbResult r s)) = ss_shares s" "ss_validatorStore (snd (dbResult r s)) = ss_validatorStore s"
  by (simp_all add: dbResult_def)

lemma saveToDB_memory [simp]:
  "ss_shares (snd (saveToDB D Z shares s)) = ss_shares s"
  "ss_validatorStore (snd (saveToDB D Z shares s)) = ss_validatorStore s"
  by (simp_all add: saveToDB_def bind_st_eq split: res.split)

text \<open>The operation succeeded in memory: it returned without error, or with one of the database.\<close>

definition in_memory :: "(store_err, 'a) res \<Rightarrow> bool" where
  "in_memory r \<longleftrightarrow> (case r of Ok _ \<Rightarrow> True | Err (DBError _) \<Rightarrow> True | _ \<Rightarrow> False)"

lemma in_memory_db [simp]: "in_memory (fst (dbResult r s))" "in_memory (fst (saveToDB D Z shares s))"
  by (auto simp: in_memory_def dbResult_def saveToDB_def bind_st_eq split: option.split)

lemma sharesSave_refines:
  assumes ok: "storage_ok sha S s" and "distinct (map pk shares)"
    and "\<forall>u \<in> set shares. pk u \<in> pk ` set S \<longrightarrow> same_committee sha S u" and reg: "registry_ok sha (fold put shares S)"
  shows "in_memory (fst (sharesSave sha D Z (map Some shares) s)) \<and>
    storage_ok sha (fold put shares S) (snd (sharesSave sha D Z (map Some shares) s))"
proof (cases "shares = []")
  case True
  then show ?thesis
    using ok by (simp add: sharesSave_def in_memory_def)
next
  case False
  let ?us = "filter (\<lambda>s. pk s \<in> pk ` set S) shares" and ?as = "filter (\<lambda>s. pk s \<notin> pk ` set S) shares"
  let ?c = "ss_validatorStore s" and ?m = "fold (\<lambda>s. AList.update (pk s) s) shares (ss_shares s)"
  have map: "map_of (ss_shares s) = share_of S"
    using ok by (simp add: storage_ok_def)
  then have split: "splitShares shares (ss_shares s) = ((?us, ?as), ?m)"
    by (simp add: splitShares_eq [OF assms(2)] share_of_None del: not_None_eq)
  have upd: "fst (handleSharesUpdated sha (map Some ?us) ?c) = Ok ()"
      "indexes sha (fold replaced ?us S) (snd (handleSharesUpdated sha (map Some ?us) ?c))"
    using handleSharesUpdated_refines [of sha S ?c ?us] ok assms(3) by (simp_all add: storage_ok_def)
  define c1 where "c1 = snd (handleSharesUpdated sha (map Some ?us) ?c)"
  have add: "fst (handleSharesAdded sha (map Some ?as) c1) = Ok ()"
      "indexes sha (fold put shares S) (snd (handleSharesAdded sha (map Some ?as) c1))"
    using handleSharesAdded_refines [OF upd(2), of ?as] reg by (simp_all add: fold_put_eq [OF assms(2)] c1_def)
  define c2 where "c2 = snd (handleSharesAdded sha (map Some ?as) c1)"
  have run: "sharesSave sha D Z (map Some shares) s =
      saveToDB D Z shares (s\<lparr>ss_shares := ?m, ss_validatorStore := c2\<rparr>)"
    using False upd(1) add(1)
    by (auto simp: sharesSave_def split onStore_def c1_def c2_def map_err_st_eq comp_def bind_st_eq Let_def case_prod_beta)
  show ?thesis
    unfolding run using reg add(2) share_of_puts [OF map] by (simp add: storage_ok_def c2_def)
qed

subsection \<open>Deleting and dropping\<close>

lemma sharesDelete_refines:
  assumes ok: "storage_ok sha S s"
  shows "in_memory (fst (sharesDelete sha D k s)) \<and>
    storage_ok sha (filter (\<lambda>t. pk t \<noteq> k) S) (snd (sharesDelete sha D k s))"
proof (cases "share_of S k")
  case None
  then have "filter (\<lambda>t. pk t \<noteq> k) S = S"
    by (auto simp: share_of_None intro!: filter_True)
  then show ?thesis
    using None ok by (simp add: sharesDelete_def storage_ok_def in_memory_def)
next
  case (Some share)
  have reg: "registry_ok sha S" and map: "map_of (ss_shares s) = share_of S"
    using ok by (simp_all add: storage_ok_def)
  have share: "share \<in> set S" "pk share = k"
    using Some share_of_iff [OF registry_distinct [OF reg]] by simp_all
  then have S: "filter (\<lambda>t. pk t \<noteq> k) S = without share S"
    by (simp add: without_def)
  define c where "c = snd (handleShareRemoved sha (Some share) (ss_validatorStore s))"
  have removed: "fst (handleShareRemoved sha (Some share) (ss_validatorStore s)) = Ok ()" "indexes sha (without share S) c"
    using handleShareRemoved_refines [of sha S "ss_validatorStore s" share] ok share(1) by (simp_all add: storage_ok_def c_def)
  then have "sharesDelete sha D k s =
      dbResult (db_Delete D (ss_storagePrefix s) (SharesDBKey k) (ss_db s))
        (s\<lparr>ss_shares := AList.delete k (ss_shares s), ss_validatorStore := c\<rparr>)"
    by (simp add: sharesDelete_def map Some onStore_def case_prod_beta bind_st_eq c_def)
  then show ?thesis
    using removed(2) registry_without [OF reg, of share] share_of_without [OF registry_distinct [OF reg], of share] share(2)
    by (simp add: storage_ok_def S delete_conv' map)
qed

lemma registry_Nil: "registry_ok sha []"
  by (simp add: registry_ok_def)

lemma indexes_Nil: "byCommitteeID c = [] \<Longrightarrow> byOperatorID c = [] \<Longrightarrow> indexes sha [] c"
  by (simp add: indexes_def indexes_with_def with_key_def operator_entry_def with_operator_def)

lemma sharesDrop_refines: "in_memory (fst (sharesDrop D s)) \<and> storage_ok sha [] (snd (sharesDrop D s))"
  by (simp add: sharesDrop_def Let_def storage_ok_def registry_Nil indexes_Nil handleDrop_def share_of_def)

subsection \<open>Refreshing the metadata\<close>

lemma map_throughPointer: "map (throughPointer share) S = replaced share S"
  by (simp add: replaced_def throughPointer_def)

lemma c_ID_writeCommittee [simp]: "c_ID (writeCommittee share cm) = c_ID cm"
  by (simp add: writeCommittee_def)

lemma writeStore_indexes:
  assumes "indexes_with sha g S c" and same: "same_committee sha S share" and g: "\<And>k. c_ID (g k) = k"
  shows "indexes_with sha (\<lambda>k. writeCommittee share (g k)) (replaced share S) (writeStore share c)"
proof -
  have "operator_entry sha (\<lambda>k. writeCommittee share (g k)) (replaced share S) op (map_of (byOperatorID (writeStore share c)) op)" for op
  proof -
    have "operator_entry sha g S op (map_of (byOperatorID c) op)"
      using assms(1) by (simp add: indexes_with_def)
    then show ?thesis
      by (cases "map_of (byOperatorID c) op")
        (simp_all add: operator_entry_def writeStore_def map_of_map with_replaced(2) [OF same] keys_of_replaced [OF same]
          map_throughPointer image_image comp_def)
  qed
  moreover have "map_of (byCommitteeID (writeStore share c)) k =
      (if with_key sha (replaced share S) k = [] then None else Some (writeCommittee share (g k)))" for k
    using assms(1) by (simp add: indexes_with_def writeStore_def map_of_map with_replaced(1) [OF same])
  ultimately show ?thesis
    by (simp add: indexes_with_def)
qed

text \<open>
  While the loop runs, the shares of a committee are up to date but its indices may not be; those of a
  committee none of whose shares is in the list of changed ones are.
\<close>

definition refreshing :: "(bytes \<Rightarrow> bytes) \<Rightarrow> SSVShare list \<Rightarrow> (bytes \<Rightarrow> Committee) \<Rightarrow> bytes set \<Rightarrow> 'd sharesStorage \<Rightarrow> bool" where
  "refreshing sha S g K s \<longleftrightarrow>
     registry_ok sha S \<and> map_of (ss_shares s) = share_of S \<and> indexes_with sha g S (ss_validatorStore s) \<and>
     (\<forall>k. g k = (committee_of sha S k)\<lparr>c_Indices := c_Indices (g k)\<rparr> \<and> (k \<notin> K \<longrightarrow> g k = committee_of sha S k))"

lemma refreshing_storage_ok: "refreshing sha S (committee_of sha S) {} s \<longleftrightarrow> storage_ok sha S s"
  by (simp add: refreshing_def storage_ok_def indexes_def)

lemma c_ID_refreshing: "refreshing sha S g K s \<Longrightarrow> c_ID (g k) = k"
  and c_Shares_refreshing: "refreshing sha S g K s \<Longrightarrow> c_Shares (g k) = with_key sha S k"
proof -
  assume "refreshing sha S g K s"
  then have "g k = (committee_of sha S k)\<lparr>c_Indices := c_Indices (g k)\<rparr>"
    unfolding refreshing_def by blast
  then have "c_ID (g k) = c_ID ((committee_of sha S k)\<lparr>c_Indices := c_Indices (g k)\<rparr>)"
    "c_Shares (g k) = c_Shares ((committee_of sha S k)\<lparr>c_Indices := c_Indices (g k)\<rparr>)"
    by (rule arg_cong)+
  then show "c_ID (g k) = k" "c_Shares (g k) = with_key sha S k"
    by simp_all
qed

lemma hd_replaced:
  "same_committee sha S share \<Longrightarrow> T \<noteq> [] \<Longrightarrow> set T \<subseteq> set S \<Longrightarrow> OperatorIDs (hd (replaced share T)) = OperatorIDs (hd T)"
  by (cases T) (auto simp: replaced_def same_committee_def)

lemma writeCommittee_of:
  assumes same: "same_committee sha S share"
  shows "writeCommittee share (committee_of sha S k) =
    (committee_of sha (replaced share S) k)\<lparr>c_Indices := map sh_ValidatorIndex (with_key sha S k)\<rparr>"
proof -
  have "OperatorIDs (hd (replaced share (with_key sha S k))) = OperatorIDs (hd (with_key sha S k))"
  proof (cases "with_key sha S k = []")
    case False
    then show ?thesis
      using hd_replaced [OF same] by (auto simp: with_key_def)
  qed (simp add: replaced_def)
  then show ?thesis
    by (simp add: writeCommittee_def committee_of_def Let_def with_replaced(1) [OF same] map_throughPointer)
qed

lemma indices_kept:
  assumes "\<forall>s \<in> set T. pk s = pk share \<longrightarrow> sh_ValidatorIndex s = sh_ValidatorIndex share"
  shows "map sh_ValidatorIndex (replaced share T) = map sh_ValidatorIndex T"
  using assms by (auto simp: replaced_def)

lemma write_refreshing:
  assumes r: "refreshing sha S g K s" and old: "old \<in> set S" "pk share = pk old"
    "OperatorIDs share = OperatorIDs old" "cid sha share = cid sha old"
    and K': "K \<subseteq> K'" "sh_ValidatorIndex share = sh_ValidatorIndex old \<or> cid sha share \<in> K'"
  shows "\<exists>g'. refreshing sha (replaced share S) g' K' (writeShare share s)"
proof -
  have reg: "registry_ok sha S"
    using r by (simp add: refreshing_def)
  have same: "same_committee sha S share"
    using old registry_pk [OF reg _ old(1)] by (auto simp: same_committee_def)
  let ?g = "\<lambda>k. writeCommittee share (g k)"
  have g: "g k = (committee_of sha S k)\<lparr>c_Indices := c_Indices (g k)\<rparr>" "k \<notin> K \<Longrightarrow> g k = committee_of sha S k" for k
    using r unfolding refreshing_def by blast+
  have "?g k = (committee_of sha (replaced share S) k)\<lparr>c_Indices := c_Indices (?g k)\<rparr>" for k
  proof -
    have "?g k = (writeCommittee share (committee_of sha S k))\<lparr>c_Indices := c_Indices (g k)\<rparr>"
      by (subst g(1)) (simp add: writeCommittee_def)
    then show ?thesis
      unfolding writeCommittee_of [OF same] by (simp add: writeCommittee_def)
  qed
  moreover have "?g k = committee_of sha (replaced share S) k" if k: "k \<notin> K'" for k
  proof -
    have "\<forall>s \<in> set (with_key sha S k). pk s = pk share \<longrightarrow> sh_ValidatorIndex s = sh_ValidatorIndex share"
    proof (intro ballI impI)
      fix t
      assume "t \<in> set (with_key sha S k)" "pk t = pk share"
      then show "sh_ValidatorIndex t = sh_ValidatorIndex share"
        using K'(2) k old(2,4) registry_pk [OF reg _ old(1), of t] by (auto simp: with_key_def)
    qed
    then have "map sh_ValidatorIndex (with_key sha S k) = c_Indices (committee_of sha (replaced share S) k)"
      by (simp add: with_replaced(1) [OF same] indices_kept)
    moreover have "g k = committee_of sha S k"
      using g(2) k K'(1) by blast
    ultimately show ?thesis
      using writeCommittee_of [OF same, of k] by (simp del: committee_of_fields(2))
  qed
  moreover have "map_of (ss_shares (writeShare share s)) = share_of (replaced share S)"
  proof
    fix k
    have "map_of (ss_shares s) = share_of S"
      using r by (simp add: refreshing_def)
    then have "map_of (ss_shares (writeShare share s)) k = map_option (throughPointer share) (share_of S k)"
      by (simp add: writeShare_def map_of_map)
    moreover have "pk share \<in> pk ` set S"
      using old by simp
    moreover from this have "k \<noteq> pk share" if "share_of S k = None"
      using that share_of_None by metis
    moreover have "pk t = k" if "share_of S k = Some t" for t
      using that share_of_iff [OF registry_distinct [OF reg]] by simp
    ultimately show "map_of (ss_shares (writeShare share s)) k = share_of (replaced share S) k"
      by (cases "share_of S k") (auto simp: share_of_replaced throughPointer_def)
  qed
  moreover have "indexes_with sha ?g (replaced share S) (ss_validatorStore (writeShare share s))"
    using writeStore_indexes [OF _ same c_ID_refreshing [OF r]] r by (simp add: refreshing_def writeShare_def)
  ultimately show ?thesis
    using registry_replaced [OF reg same] unfolding refreshing_def by blast
qed

lemma SetBeaconMetadata_same [simp]:
  "pk (SetBeaconMetadata now s md) = pk s" "OperatorIDs (SetBeaconMetadata now s md) = OperatorIDs s"
  "cid sha (SetBeaconMetadata now s md) = cid sha s"
  by (simp_all add: SetBeaconMetadata_def OperatorIDs_def CommitteeID_def Let_def split: option.split)

lemma metadataEquals_refresh:
  assumes "metadataEquals md (Some (BeaconMetadata s))"
  shows "s\<lparr>sh_BeaconMetadataLastUpdated := now\<rparr> = SetBeaconMetadata now s (Some md)"
    "sh_ValidatorIndex (SetBeaconMetadata now s (Some md)) = sh_ValidatorIndex s"
  using assms by (simp_all add: metadataEquals_def BeaconMetadata_def SetBeaconMetadata_def)

lemma refreshed_skip: "k \<notin> fst ` set data \<Longrightarrow> k \<notin> pk ` set S \<or> md = None \<Longrightarrow> refreshed now ((k, md) # data) S = refreshed now data S"
  by (auto simp: refreshed_def SetBeaconMetadata_def map_of_eq_None_iff [symmetric] rev_image_eqI split: option.split)

lemma refreshed_step:
  assumes "registry_ok sha S" "share \<in> set S" "pk share \<notin> fst ` set data"
  shows "refreshed now ((pk share, md) # data) S = refreshed now data (replaced (SetBeaconMetadata now share md) S)"
proof -
  have "map_of data (pk share) = None"
    using assms(3) by (simp add: map_of_eq_None_iff)
  then show ?thesis
    using registry_pk [OF assms(1) _ assms(2)] by (auto simp: refreshed_def replaced_def)
qed

lemma refreshed_keeps: "s \<in> set S \<Longrightarrow> pk s \<notin> fst ` set data \<Longrightarrow> s \<in> set (refreshed now data S)"
  unfolding refreshed_def by (auto simp: map_of_eq_None_iff [symmetric] intro!: rev_image_eqI [of s])

lemma applyMetadata_refreshing:
  assumes "refreshing sha S g K s" "distinct (map fst data)" "applyMetadata now data s = ((changed, changedMetadata), s')"
  shows "\<exists>g'. refreshing sha (refreshed now data S) g' (K \<union> cid sha ` set changed) s' \<and>
    set changed \<subseteq> set (refreshed now data S)"
  using assms
proof (induction now data s arbitrary: S g K changed changedMetadata rule: applyMetadata.induct)
  case (1 now s)
  then show ?case
    by (auto simp: refreshed_def)
next
  case (2 now k data s)
  then show ?case
    using refreshed_skip [of k data S None now] by auto
next
  case (3 now k metadata data s)
  have reg: "registry_ok sha S" and map: "map_of (ss_shares s) = share_of S" and k: "k \<notin> fst ` set data"
    using 3 by (auto simp: refreshing_def)
  show ?case
  proof (cases "share_of S k")
    case None
    then have "refreshed now ((k, Some metadata) # data) S = refreshed now data S"
      using k by (intro refreshed_skip) (auto simp: share_of_None)
    then show ?thesis
      using 3 None map by (simp add: sharesGet_def)
  next
    case (Some share)
    let ?new = "SetBeaconMetadata now share (Some metadata)"
    have get: "sharesGet s k = Some share" and share: "share \<in> set S" "pk share = k"
      using Some map share_of_iff [OF registry_distinct [OF reg]] by (simp_all add: sharesGet_def)
    have step: "refreshed now ((k, Some metadata) # data) S = refreshed now data (replaced ?new S)"
      using refreshed_step [OF reg share(1)] share(2) k by simp
    show ?thesis
    proof (cases "metadataEquals metadata (Some (BeaconMetadata share))")
      case True
      obtain g' where "refreshing sha (replaced ?new S) g' K (writeShare ?new s)"
        using write_refreshing [OF "3.prems"(1) share(1), of ?new K] metadataEquals_refresh(2) [OF True] by auto
      then show ?thesis
        using "3.IH"(2) [OF get True] "3.prems" metadataEquals_refresh(1) [OF True] by (simp add: get True step)
    next
      case False
      obtain ch cm where rest: "applyMetadata now data (writeShare ?new s) = ((ch, cm), s')" "changed = ?new # ch"
        using "3.prems"(3) False by (auto simp: get Let_def split: prod.splits)
      obtain g' where "refreshing sha (replaced ?new S) g' (insert (cid sha ?new) K) (writeShare ?new s)"
        using write_refreshing [OF "3.prems"(1) share(1), of ?new "insert (cid sha ?new) K"] by auto
      then obtain g'' where "refreshing sha (refreshed now data (replaced ?new S)) g'' (insert (cid sha ?new) K \<union> cid sha ` set ch) s'"
          "set ch \<subseteq> set (refreshed now data (replaced ?new S))"
        using "3.IH"(3) [OF get False refl _ _ rest(1)] "3.prems"(2) unfolding list.map distinct.simps by blast
      moreover have "?new \<in> set (refreshed now data (replaced ?new S))"
        using share k by (intro refreshed_keeps) (auto simp: set_replaced)
      ultimately show ?thesis
        unfolding step rest(2) by auto
    qed
  qed
qed

text \<open>The committees of the changed shares are rebuilt.\<close>

lemma handleSharesUpdated_refreshing:
  assumes "refreshing sha S g K s" "set us \<subseteq> set S"
  shows "fst (handleSharesUpdated sha (map Some us) (ss_validatorStore s)) = Ok () \<and>
    (\<exists>g'. refreshing sha S g' (K - cid sha ` set us) (s\<lparr>ss_validatorStore := snd (handleSharesUpdated sha (map Some us) (ss_validatorStore s))\<rparr>))"
  using assms
proof (induction us arbitrary: g K s)
  case (Cons u us)
  let ?g = "g(cid sha u := committee_of sha S (cid sha u))" and ?c = "snd (updateShare sha (Some u) (ss_validatorStore s))"
  have reg: "registry_ok sha S" and u: "u \<in> set S"
    using Cons.prems by (simp_all add: refreshing_def)
  have same: "same_committee sha S u"
    using u registry_pk [OF reg _ u] by (auto simp: same_committee_def)
  have "replaced u S = S"
    unfolding replaced_def by (intro map_idI) (metis registry_pk [OF reg _ u])
  then have upd: "fst (updateShare sha (Some u) (ss_validatorStore s)) = Ok ()" "indexes_with sha ?g S ?c"
    using updateShare_refines_with [OF _ reg same c_ID_refreshing [OF Cons.prems(1)] c_Shares_refreshing [OF Cons.prems(1)],
        of "ss_validatorStore s"] Cons.prems(1) by (simp_all add: refreshing_def del: fun_upd_apply)
  then have "refreshing sha S ?g (K - {cid sha u}) (s\<lparr>ss_validatorStore := ?c\<rparr>)"
    using Cons.prems(1) by (simp add: refreshing_def)
  from Cons.IH [OF this] have IH: "fst (handleSharesUpdated sha (map Some us) ?c) = Ok () \<and>
      (\<exists>g'. refreshing sha S g' (K - {cid sha u} - cid sha ` set us) (s\<lparr>ss_validatorStore := snd (handleSharesUpdated sha (map Some us) ?c)\<rparr>))"
    using Cons.prems(2) by simp
  have run: "handleSharesUpdated sha (map Some (u # us)) (ss_validatorStore s) = handleSharesUpdated sha (map Some us) ?c"
    using upd(1) by (simp add: bind_st_eq)
  have "K - cid sha ` set (u # us) = K - {cid sha u} - cid sha ` set us"
    by auto
  then show ?case
    unfolding run using IH by simp
qed auto

lemma refreshing_done: "refreshing sha S g {} s \<Longrightarrow> storage_ok sha S s"
proof -
  assume r: "refreshing sha S g {} s"
  then have "g = committee_of sha S"
    unfolding refreshing_def by blast
  then show ?thesis
    using r by (simp add: refreshing_storage_ok)
qed

lemma UpdateValidatorsMetadata_refines:
  assumes ok: "storage_ok sha S s" and "distinct (map fst data)"
  shows "in_memory (fst (UpdateValidatorsMetadata sha D Z now data s)) \<and>
    storage_ok sha (refreshed now data S) (snd (UpdateValidatorsMetadata sha D Z now data s))"
proof -
  obtain ch cm s1 where run: "applyMetadata now data s = ((ch, cm), s1)"
    by (metis surj_pair)
  have "refreshing sha S (committee_of sha S) {} s"
    using ok by (simp add: refreshing_storage_ok)
  then obtain g where g: "refreshing sha (refreshed now data S) g (cid sha ` set ch) s1" "set ch \<subseteq> set (refreshed now data S)"
    using applyMetadata_refreshing [OF _ assms(2) run] by force
  define c where "c = snd (handleSharesUpdated sha (map Some ch) (ss_validatorStore s1))"
  have upd: "fst (handleSharesUpdated sha (map Some ch) (ss_validatorStore s1)) = Ok ()"
      "storage_ok sha (refreshed now data S) (s1\<lparr>ss_validatorStore := c\<rparr>)"
    using handleSharesUpdated_refreshing [OF g] by (auto simp: c_def intro: refreshing_done)
  show ?thesis
  proof (cases "ch = []")
    case True
    then show ?thesis
      using refreshing_done [of sha _ g s1] g(1) by (simp add: UpdateValidatorsMetadata_def run in_memory_def)
  next
    case False
    have "UpdateValidatorsMetadata sha D Z now data s =
        bind_st (saveToDB D Z ch (s1\<lparr>ss_validatorStore := c\<rparr>)) (\<lambda>_ s. (Ok cm, s))"
      using False upd(1) by (simp add: UpdateValidatorsMetadata_def run onStore_def case_prod_beta bind_st_eq [of "(_, _)"] c_def)
    moreover have "in_memory (fst (saveToDB D Z ch (s1\<lparr>ss_validatorStore := c\<rparr>)))"
      by simp
    ultimately show ?thesis
      using upd(2) by (auto simp: bind_st_eq storage_ok_def in_memory_def split: res.splits)
  qed
qed

subsection \<open>Loading\<close>

lemma each_map_Ok: "each_map f xs = Ok ys \<Longrightarrow> \<forall>y \<in> set ys. \<exists>x \<in> set xs. f x = Ok y"
  by (induction xs arbitrary: ys) (fastforce simp: bind_res_Ok_iff)+

lemma fold_update_keys:
  assumes "\<forall>(k, s) \<in> set xs. k = pk s" "\<forall>(k, s) \<in> set m. k = pk s" "distinct (map fst m)"
  shows "(\<forall>(k, s) \<in> set (fold (\<lambda>(k, s) m. AList.update k s m) xs m). k = pk s) \<and>
    distinct (map fst (fold (\<lambda>(k, s) m. AList.update k s m) xs m))"
  using assms
proof (induction xs arbitrary: m)
  case (Cons x xs)
  obtain k s where x: "x = (k, s)" "k = pk s"
    using Cons.prems(1) by (cases x) auto
  have "set (AList.update k s m) \<subseteq> insert (k, s) (set m)"
    by (induction m) auto
  then have "\<forall>(k, s) \<in> set (AList.update k s m). k = pk s"
    using x(2) Cons.prems(2) by fastforce
  moreover have "fold (\<lambda>(k, s) m. AList.update k s m) (x # xs) m = fold (\<lambda>(k, s) m. AList.update k s m) xs (AList.update k s m)"
    by (simp add: x(1))
  ultimately show ?case
    using Cons.IH [OF _ _ distinct_update [OF Cons.prems(3)], of k s] Cons.prems(1) by (metis list.set_intros(2))
qed simp

lemma loadFromDB_keys:
  assumes "loadFromDB D Z prefix d = Ok m"
  shows "map_of m = share_of (map snd m)"
proof -
  obtain objs err where objs: "db_GetAll D (SharesDBPrefix prefix) d = (objs, err)"
    by (meson surj_pair)
  obtain shares where shares: "\<forall>(k, s) \<in> set shares. k = pk s" "m = fold (\<lambda>(k, s) m. AList.update k s m) shares []"
    using assms
    by (fastforce simp: loadFromDB_def objs bind_res_Ok_iff ToSSVShare_def split: option.splits if_splits dest!: each_map_Ok)
  then have "\<forall>(k, s) \<in> set m. k = pk s"
    using fold_update_keys [OF shares(1), of "[]"] by simp
  then have "map (\<lambda>s. (pk s, s)) (map snd m) = m"
    by (induction m) auto
  then show ?thesis
    by (simp add: share_of_def)
qed

lemma NewSharesStorage_refines:
  assumes "NewSharesStorage sha D Z prefix d = Ok s" "registry_ok sha (map snd (ss_shares s))"
  shows "storage_ok sha (map snd (ss_shares s)) s"
proof -
  obtain m pki where m: "loadFromDB D Z prefix d = Ok m"
    and new: "(case handleSharesAdded sha (map (Some \<circ> snd) m) (newValidatorStore pki) of
       (Ok _, c) \<Rightarrow> Ok \<lparr>ss_storagePrefix = prefix, ss_shares = m, ss_validatorStore = c, ss_db = d\<rparr>
     | (Err e, _) \<Rightarrow> Err e | (Panic, _) \<Rightarrow> Panic) = Ok s"
    using assms(1) unfolding NewSharesStorage_def bind_res_Ok_iff by blast
  have s: "ss_shares s = m"
      "ss_validatorStore s = snd (handleSharesAdded sha (map (Some \<circ> snd) m) (newValidatorStore pki))"
    using new by (cases "handleSharesAdded sha (map (Some \<circ> snd) m) (newValidatorStore pki)"; auto split: res.splits)+
  have "indexes sha [] (newValidatorStore pki)"
    by (simp add: newValidatorStore_def indexes_Nil)
  then have "indexes sha (map snd m) (ss_validatorStore s)"
    using handleSharesAdded_refines [of sha "[]" _ "map snd m"] assms(2) by (simp add: s)
  then show ?thesis
    using assms(2) loadFromDB_keys [OF m] by (simp add: storage_ok_def s)
qed

lemma storage_lookups:
  assumes "storage_ok sha S s"
  shows "sharesGet s = share_of S" "OperatorValidators (ss_validatorStore s) op = with_operator S op"
    "CommitteeByID (ss_validatorStore s) k = (if with_key sha S k = [] then None else Some (committee_of sha S k))"
proof -
  have "operator_entry sha (committee_of sha S) S op (map_of (byOperatorID (ss_validatorStore s)) op)"
    using assms by (simp add: storage_ok_def indexes_def indexes_with_def)
  then show "OperatorValidators (ss_validatorStore s) op = with_operator S op"
    by (auto simp: OperatorValidators_def operator_entry_def split: option.splits)
qed (use assms in \<open>simp_all add: storage_ok_def indexes_def indexes_with_def sharesGet_def CommitteeByID_def fun_eq_iff\<close>)

section \<open>Histories\<close>

datatype storage_op =
    SaveShares "SSVShare list"
  | DeleteShare bytes
  | RefreshMetadata int "(bytes \<times> ValidatorMetadata option) list"
  | DropShares

fun storage_step ::
    "(bytes \<Rightarrow> bytes) \<Rightarrow> 'd shareDB \<Rightarrow> shareSSZ \<Rightarrow> storage_op \<Rightarrow> 'd sharesStorage \<Rightarrow> (store_err, unit) res \<times> 'd sharesStorage" where
  "storage_step sha D Z (SaveShares shares) s = sharesSave sha D Z (map Some shares) s"
| "storage_step sha D Z (DeleteShare k) s = sharesDelete sha D k s"
| "storage_step sha D Z (RefreshMetadata now data) s =
     bind_st (UpdateValidatorsMetadata sha D Z now data s) (\<lambda>_ s. (Ok (), s))"
| "storage_step sha D Z DropShares s = sharesDrop D s"

fun registry_step :: "storage_op \<Rightarrow> SSVShare list \<Rightarrow> SSVShare list" where
  "registry_step (SaveShares shares) S = fold put shares S"
| "registry_step (DeleteShare k) S = filter (\<lambda>t. pk t \<noteq> k) S"
| "registry_step (RefreshMetadata now data) S = refreshed now data S"
| "registry_step DropShares S = []"

text \<open>
  What the callers of the storage see to: the shares of one call are of different validators, a share
  saved again keeps its committee, and the shares stay a registry. The metadata comes in a map.
\<close>

fun op_ok :: "(bytes \<Rightarrow> bytes) \<Rightarrow> storage_op \<Rightarrow> SSVShare list \<Rightarrow> bool" where
  "op_ok sha (SaveShares shares) S \<longleftrightarrow>
     distinct (map pk shares) \<and> (\<forall>u \<in> set shares. pk u \<in> pk ` set S \<longrightarrow> same_committee sha S u) \<and>
     registry_ok sha (fold put shares S)"
| "op_ok sha (DeleteShare k) S \<longleftrightarrow> True"
| "op_ok sha (RefreshMetadata now data) S \<longleftrightarrow> distinct (map fst data)"
| "op_ok sha DropShares S \<longleftrightarrow> True"

fun ops_ok :: "(bytes \<Rightarrow> bytes) \<Rightarrow> storage_op list \<Rightarrow> SSVShare list \<Rightarrow> bool" where
  "ops_ok sha [] S \<longleftrightarrow> True"
| "ops_ok sha (e # es) S \<longleftrightarrow> op_ok sha e S \<and> ops_ok sha es (registry_step e S)"

text \<open>The results of a history and the storage it leaves; a call that fails does not end it.\<close>

fun storage_run ::
    "(bytes \<Rightarrow> bytes) \<Rightarrow> 'd shareDB \<Rightarrow> shareSSZ \<Rightarrow> storage_op list \<Rightarrow> 'd sharesStorage
       \<Rightarrow> (store_err, unit) res list \<times> 'd sharesStorage" where
  "storage_run sha D Z [] s = ([], s)"
| "storage_run sha D Z (e # es) s =
     (let (r, s) = storage_step sha D Z e s; (rs, s) = storage_run sha D Z es s in (r # rs, s))"

lemma storage_step_refines:
  assumes "storage_ok sha S s" "op_ok sha e S"
  shows "in_memory (fst (storage_step sha D Z e s)) \<and> storage_ok sha (registry_step e S) (snd (storage_step sha D Z e s))"
proof (cases e)
  case (RefreshMetadata now data)
  then show ?thesis
    using UpdateValidatorsMetadata_refines [OF assms(1), of data D Z now] assms(2)
    by (auto simp: bind_st_eq in_memory_def split: res.splits)
next
  case (SaveShares shares)
  then show ?thesis
    using sharesSave_refines [OF assms(1), of shares D Z] assms(2) by simp
next
  case (DeleteShare k)
  then show ?thesis
    using sharesDelete_refines [OF assms(1), of D k] by simp
next
  case DropShares
  then show ?thesis
    using sharesDrop_refines [of D s sha] by simp
qed

lemma storage_run_refines:
  assumes "storage_ok sha S s" "ops_ok sha es S"
  shows "list_all in_memory (fst (storage_run sha D Z es s)) \<and>
    storage_ok sha (fold registry_step es S) (snd (storage_run sha D Z es s))"
  using assms
proof (induction es arbitrary: S s)
  case (Cons e es)
  then show ?case
    using storage_step_refines [of sha S s e D Z] Cons.IH [of "registry_step e S" "snd (storage_step sha D Z e s)"]
    by (simp add: case_prod_beta Let_def)
qed simp

text \<open>C14: The storage of shares and its indices refine a list of shares. A storage is opened on a database,
  and then shares are saved, deleted, dropped and have their metadata refreshed, in any order, as the
  conditions of \<open>op_ok\<close> allow; the database may fail at any point. No operation fails in memory, so none
  reports that an index misses a share, a committee or an operator, and none panics. After all of them,
  the share of a validator, the validators of an operator and the committee of an identifier, its member
  list and its validator indices included, are those of the list on which the same operations were done.\<close>

theorem storage_refines_registry:
  assumes "NewSharesStorage sha D Z prefix d = Ok s" "registry_ok sha (map snd (ss_shares s))"
    and "ops_ok sha es (map snd (ss_shares s))"
    and "S = fold registry_step es (map snd (ss_shares s))" "(results, s') = storage_run sha D Z es s"
  shows "list_all in_memory results \<and> sharesGet s' = share_of S \<and>
    (\<forall>op. OperatorValidators (ss_validatorStore s') op = with_operator S op) \<and>
    (\<forall>k. CommitteeByID (ss_validatorStore s') k = (if with_key sha S k = [] then None else Some (committee_of sha S k)))"
proof -
  have "list_all in_memory results" "storage_ok sha S s'"
    using storage_run_refines [OF NewSharesStorage_refines [OF assms(1,2)] assms(3), of D Z] assms(4,5) by (simp_all add: prod_eq_iff)
  then show ?thesis
    using storage_lookups [of sha S s'] by blast
qed

text \<open>
  Two shares of different committees, saved into an empty storage; the metadata of the first is refreshed
  and the second is deleted.
\<close>

definition demo_db :: "unit shareDB" where
  "demo_db = \<lparr>db_SetMany = (\<lambda>_ _ d. (None, d)), db_GetAll = (\<lambda>_ _. ([], None)), db_GetMany = (\<lambda>_ _ _. ([], None)),
     db_Delete = (\<lambda>_ _ d. (Some ''conflict'', d)), db_DropPrefix = (\<lambda>_ d. (None, d))\<rparr>"

definition demo_ssz :: shareSSZ where
  "demo_ssz = \<lparr>z_MarshalSSZ = (\<lambda>st. Inr (st_ValidatorPubKey st)), z_UnmarshalSSZ = (\<lambda>_. Inl ''size''),
     z_number = (\<lambda>_. 0), z_state = (\<lambda>_. ValidatorStateUnknown), z_MaxAllowedShareSize = 1258\<rparr>"

definition demo_history :: "storage_op list" where
  "demo_history =
     [SaveShares [demo_share [1, 2, 3, 4], (demo_share [4, 5, 6, 7])\<lparr>sh_ValidatorPubKey := [9], sh_ValidatorIndex := 8\<rparr>],
      RefreshMetadata 100 [([1, 2, 3], Some \<lparr>md_Status = ValidatorStateActiveOngoing, md_Index = 11,
                                           md_ActivationEpoch = 1, md_ExitEpoch = 2\<rparr>)],
      DeleteShare [9]]"

definition demo_storage :: "unit sharesStorage" where
  "demo_storage = \<lparr>ss_storagePrefix = [], ss_shares = [], ss_validatorStore = newValidatorStore [], ss_db = ()\<rparr>"

theorem storage_refines_registry_witness:
  "NewSharesStorage id demo_db demo_ssz [] () = Ok demo_storage \<and> ops_ok id demo_history [] \<and>
   map sh_ValidatorIndex (OperatorValidators (ss_validatorStore (snd (storage_run id demo_db demo_ssz demo_history demo_storage))) 4) = [11] \<and>
   OperatorValidators (ss_validatorStore (snd (storage_run id demo_db demo_ssz demo_history demo_storage))) 5 = []"
proof -
  have new: "NewSharesStorage id demo_db demo_ssz [] () = Ok demo_storage"
    by code_simp
  have loaded: "map snd (ss_shares demo_storage) = []"
    by code_simp
  have ops: "ops_ok id demo_history []"
    by code_simp
  have four: "map sh_ValidatorIndex (with_operator (fold registry_step demo_history []) 4) = [11]"
    by code_simp
  have five: "with_operator (fold registry_step demo_history []) 5 = []"
    by code_simp
  show ?thesis
    using storage_refines_registry [OF new _ _ refl prod.collapse, of demo_history] registry_Nil [of id] ops new four five
    unfolding loaded by simp
qed

end
