(* ===== verification/Registry_Records.thy ===== *)
theory Registry_Records
  imports Shares_Storage
begin

text \<open>
  The records of operators and of fee recipients, \<open>registry/storage/operators.go\<close> and
  \<open>registry/storage/recipients.go\<close>, and the last processed block of \<open>operator/storage/storage.go\<close>. They are
  kept in a key-value database, seen here as a map from keys to encoded values; \<open>F\<close> says which accesses
  fail. \<open>J\<close> is the JSON library with the types of the records. What a transaction has written is in
  \<open>rg_txn\<close>; a call without a transaction reads \<open>rg_committed\<close>. The names of operators' keys are byte strings.
\<close>

section \<open>Records\<close>

type_synonym u16 = "16 word"
type_synonym address = bytes

record OperatorData =
  od_ID :: OperatorID
  od_PublicKey :: bytes
  od_OwnerAddress :: address

record RecipientData =
  rd_Owner :: address
  rd_FeeRecipient :: address
  rd_Nonce :: "u16 option"

record jsonAPI =
  j_MarshalOperator :: "OperatorData \<Rightarrow> string + bytes"
  j_UnmarshalOperator :: "bytes \<Rightarrow> string + OperatorData"
  j_MarshalRecipient :: "RecipientData \<Rightarrow> string + bytes"
  j_UnmarshalRecipient :: "bytes \<Rightarrow> string + RecipientData"

record kvFaults =
  kf_Get :: "bytes \<Rightarrow> string option"
  kf_Set :: "bytes \<Rightarrow> string option"
  kf_Delete :: "bytes \<Rightarrow> string option"
  kf_Commit :: "string option"

record registryDB =
  rg_committed :: "bytes \<rightharpoonup> bytes"
  rg_txn :: "bytes \<rightharpoonup> bytes"
  rg_pubkeyIdx :: "bytes \<rightharpoonup> OperatorID"
  rg_feeRecipients :: "address \<rightharpoonup> address"

definition buildOperatorKey :: "OperatorID \<Rightarrow> bytes" where
  "buildOperatorKey i = str ''operators'' @ str ''/'' @ str (show_dec (unat i))"

definition buildRecipientKey :: "address \<Rightarrow> bytes" where
  "buildRecipientKey owner = str ''recipients'' @ str ''/'' @ owner"

definition lastProcessedBlockKey :: bytes where
  "lastProcessedBlockKey = str ''syncOffset''"

definition kvGet :: "kvFaults \<Rightarrow> (bytes \<rightharpoonup> bytes) \<Rightarrow> bytes \<Rightarrow> (string, bytes option) res" where
  "kvGet F db key = (case kf_Get F key of Some e \<Rightarrow> Err e | None \<Rightarrow> Ok (db key))"

definition kvSet :: "kvFaults \<Rightarrow> bytes \<Rightarrow> bytes \<Rightarrow> registryDB \<Rightarrow> (string, unit) res \<times> registryDB" where
  "kvSet F key v s =
     (case kf_Set F key of Some e \<Rightarrow> (Err e, s) | None \<Rightarrow> (Ok (), s\<lparr>rg_txn := (rg_txn s)(key \<mapsto> v)\<rparr>))"

section \<open>Operators\<close>

definition getOperatorData ::
    "jsonAPI \<Rightarrow> kvFaults \<Rightarrow> (bytes \<rightharpoonup> bytes) \<Rightarrow> OperatorID \<Rightarrow> (string, OperatorData option) res" where
  "getOperatorData J F db i =
     bind_res (kvGet F db (buildOperatorKey i)) (\<lambda>obj.
       case obj of
         None \<Rightarrow> Ok None
       | Some value \<Rightarrow> bind_res (of_sum (\<lambda>e. e) (j_UnmarshalOperator J value)) (\<lambda>od. Ok (Some od)))"

definition getOperatorDataByPubKey ::
    "jsonAPI \<Rightarrow> kvFaults \<Rightarrow> registryDB \<Rightarrow> bytes \<Rightarrow> (string, OperatorData option) res" where
  "getOperatorDataByPubKey J F s operatorPubKey =
     (case rg_pubkeyIdx s operatorPubKey of
        None \<Rightarrow> Ok None
      | Some i \<Rightarrow>
          bind_res (getOperatorData J F (rg_txn s) i) (\<lambda>op.
            case op of
              None \<Rightarrow> Ok None
            | Some od \<Rightarrow> if od_PublicKey od \<noteq> operatorPubKey then Ok None else Ok (Some od)))"

text \<open>The keys that are found are counted; an error ends the search.\<close>

fun countFound :: "kvFaults \<Rightarrow> (bytes \<rightharpoonup> bytes) \<Rightarrow> bytes list \<Rightarrow> (string, nat) res" where
  "countFound F db [] = Ok 0"
| "countFound F db (key # keys) =
     bind_res (kvGet F db key) (\<lambda>obj. bind_res (countFound F db keys) (\<lambda>n. Ok (if obj = None then n else n + 1)))"

definition operatorsExist :: "kvFaults \<Rightarrow> registryDB \<Rightarrow> OperatorID list \<Rightarrow> (string, bool) res" where
  "operatorsExist F s ids =
     bind_res (countFound F (rg_txn s) (map buildOperatorKey ids)) (\<lambda>seen. Ok (seen = length ids))"

text \<open>Whether the operator is there is read without the transaction.\<close>

definition SaveOperatorData ::
    "jsonAPI \<Rightarrow> kvFaults \<Rightarrow> OperatorData \<Rightarrow> registryDB \<Rightarrow> (string, bool) res \<times> registryDB" where
  "SaveOperatorData J F operatorData s =
     bind_st (getOperatorData J F (rg_committed s) (od_ID operatorData), s) (\<lambda>found s.
       if found \<noteq> None then (Ok True, s)
       else bind_st (of_sum (\<lambda>e. e) (j_MarshalOperator J operatorData), s) (\<lambda>raw s.
            bind_st (kvSet F (buildOperatorKey (od_ID operatorData)) raw s) (\<lambda>_ s.
              (Ok False, s\<lparr>rg_pubkeyIdx := (rg_pubkeyIdx s)(od_PublicKey operatorData \<mapsto> od_ID operatorData)\<rparr>))))"

definition DeleteOperatorData :: "kvFaults \<Rightarrow> OperatorID \<Rightarrow> registryDB \<Rightarrow> (string, unit) res \<times> registryDB" where
  "DeleteOperatorData F i s =
     (case kf_Delete F (buildOperatorKey i) of
        Some e \<Rightarrow> (Err e, s)
      | None \<Rightarrow> (Ok (), s\<lparr>rg_txn := (rg_txn s)(buildOperatorKey i := None)\<rparr>))"

section \<open>Recipients and nonces\<close>

definition getRecipientData ::
    "jsonAPI \<Rightarrow> kvFaults \<Rightarrow> registryDB \<Rightarrow> address \<Rightarrow> (string, RecipientData option) res" where
  "getRecipientData J F s owner =
     bind_res (kvGet F (rg_txn s) (buildRecipientKey owner)) (\<lambda>obj.
       case obj of
         None \<Rightarrow> Ok None
       | Some value \<Rightarrow> bind_res (of_sum (\<lambda>e. e) (j_UnmarshalRecipient J value)) (\<lambda>rd. Ok (Some rd)))"

definition GetNextNonce :: "jsonAPI \<Rightarrow> kvFaults \<Rightarrow> registryDB \<Rightarrow> address \<Rightarrow> (string, u16) res" where
  "GetNextNonce J F s owner =
     bind_res (getRecipientData J F s owner) (\<lambda>data.
       case data of
         None \<Rightarrow> Ok 0
       | Some d \<Rightarrow> (case rd_Nonce d of None \<Rightarrow> Ok 0 | Some n \<Rightarrow> Ok (n + 1)))"

definition bumped :: "address \<Rightarrow> RecipientData option \<Rightarrow> RecipientData" where
  "bumped owner data =
     (case data of
        None \<Rightarrow> \<lparr>rd_Owner = owner, rd_FeeRecipient = owner, rd_Nonce = Some 0\<rparr>
      | Some d \<Rightarrow> d\<lparr>rd_Nonce := Some (case rd_Nonce d of None \<Rightarrow> 0 | Some n \<Rightarrow> n + 1)\<rparr>)"

definition BumpNonce :: "jsonAPI \<Rightarrow> kvFaults \<Rightarrow> address \<Rightarrow> registryDB \<Rightarrow> (string, unit) res \<times> registryDB" where
  "BumpNonce J F owner s =
     bind_st (getRecipientData J F s owner, s) (\<lambda>data s.
     let rData = bumped owner data
     in bind_st (of_sum (\<lambda>e. e) (j_MarshalRecipient J rData), s) (\<lambda>raw s.
        bind_st (kvSet F (buildRecipientKey (rd_Owner rData)) raw s) (\<lambda>_ s.
          (Ok (), if data = None
                  then s\<lparr>rg_feeRecipients := (rg_feeRecipients s)(owner \<mapsto> rd_FeeRecipient rData)\<rparr> else s))))"

text \<open>The result says whether the fee recipient changed.\<close>

definition SaveRecipientData ::
    "jsonAPI \<Rightarrow> kvFaults \<Rightarrow> address \<Rightarrow> address \<Rightarrow> registryDB \<Rightarrow> (string, RecipientData option) res \<times> registryDB" where
  "SaveRecipientData J F owner feeRecipient s =
     bind_st (getRecipientData J F s owner, s) (\<lambda>data s.
       if (case data of Some d \<Rightarrow> rd_FeeRecipient d = feeRecipient | None \<Rightarrow> False) then (Ok None, s)
       else let recipientData =
                  (case data of Some d \<Rightarrow> d | None \<Rightarrow> \<lparr>rd_Owner = owner, rd_FeeRecipient = replicate 20 0, rd_Nonce = None\<rparr>)
                    \<lparr>rd_FeeRecipient := feeRecipient\<rparr>
            in bind_st (of_sum (\<lambda>e. e) (j_MarshalRecipient J recipientData), s) (\<lambda>raw s.
               bind_st (kvSet F (buildRecipientKey owner) raw s) (\<lambda>_ s.
                 (Ok (Some recipientData), s\<lparr>rg_feeRecipients := (rg_feeRecipients s)(owner \<mapsto> feeRecipient)\<rparr>))))"

section \<open>The last processed block\<close>

text \<open>\<open>big.Int\<close> in its shortest big-endian form; \<open>Uint64\<close> reads its low 64 bits.\<close>

fun nat_bytes :: "nat \<Rightarrow> bytes" where
  "nat_bytes n = (if n = 0 then [] else nat_bytes (n div 256) @ [word_of_nat (n mod 256)])"

definition bytes_nat :: "bytes \<Rightarrow> nat" where
  "bytes_nat b = foldl (\<lambda>n w. 256 * n + unat w) 0 b"

definition GetLastProcessedBlock :: "kvFaults \<Rightarrow> registryDB \<Rightarrow> (string, nat option) res" where
  "GetLastProcessedBlock F s =
     bind_res (kvGet F (rg_txn s) lastProcessedBlockKey) (\<lambda>obj. Ok (map_option bytes_nat obj))"

definition SaveLastProcessedBlock :: "kvFaults \<Rightarrow> u64 \<Rightarrow> registryDB \<Rightarrow> (string, unit) res \<times> registryDB" where
  "SaveLastProcessedBlock F block s = kvSet F lastProcessedBlockKey (nat_bytes (unat block)) s"

lemma bytes_nat_append: "bytes_nat (b @ [w]) = 256 * bytes_nat b + unat w"
  by (simp add: bytes_nat_def)

lemma bytes_nat_bytes: "bytes_nat (nat_bytes n) = n"
proof (induction n rule: nat_bytes.induct)
  case (1 n)
  have "unat (word_of_nat (n mod 256) :: 8 word) = n mod 256"
    by (simp add: unat_of_nat)
  then show ?case
    using 1 by (subst nat_bytes.simps) (simp add: bytes_nat_append bytes_nat_def [of "[]"] del: nat_bytes.simps)
qed

declare nat_bytes.simps [simp del]

section \<open>What the records promise\<close>

text \<open>
  Records read back as they were written, and the keys of different records differ. A nonce counts the
  bumps of its owner modulo \<open>2 ^ 16\<close>, and saving a recipient does not change it.
\<close>

definition json_ok :: "jsonAPI \<Rightarrow> bool" where
  "json_ok J \<longleftrightarrow>
     (\<forall>od raw. j_MarshalOperator J od = Inr raw \<longrightarrow> j_UnmarshalOperator J raw = Inr od) \<and>
     (\<forall>rd raw. j_MarshalRecipient J rd = Inr raw \<longrightarrow> j_UnmarshalRecipient J raw = Inr rd)"

definition stored_recipient :: "jsonAPI \<Rightarrow> registryDB \<Rightarrow> address \<Rightarrow> RecipientData option" where
  "stored_recipient J s owner =
     (case rg_txn s (buildRecipientKey owner) of
        None \<Rightarrow> None
      | Some raw \<Rightarrow> (case j_UnmarshalRecipient J raw of Inr rd \<Rightarrow> Some rd | Inl _ \<Rightarrow> None))"

definition next_nonce :: "jsonAPI \<Rightarrow> registryDB \<Rightarrow> address \<Rightarrow> u16" where
  "next_nonce J s owner =
     (case stored_recipient J s owner of
        None \<Rightarrow> 0
      | Some d \<Rightarrow> (case rd_Nonce d of None \<Rightarrow> 0 | Some n \<Rightarrow> n + 1))"

end
