(* ===== verification/Event_Handler.thy ===== *)
theory Event_Handler
  imports Registry_Records Share_Keys
begin

text \<open>
  The handler of contract events, \<open>eth/eventhandler\<close>: \<open>handlers.go\<close>, \<open>validation.go\<close> and \<open>event_handler.go\<close>.
  It keeps the operators, the recipients and the shares of the node in step with the events of the SSV
  contract. The key manager and the doppelganger protection are reached through interfaces, whose methods
  are fields of \<open>K\<close>. The parser of logs, whose bindings are generated, is \<open>L\<close>. \<open>C\<close> holds the configuration
  and the libraries, \<open>E\<close> what one event finds: the time, the failures of the database and the database of
  the shares. Logging and metrics are left out.
\<close>

section \<open>Events\<close>

record ContractOperatorAdded =
  oa_OperatorId :: OperatorID
  oa_Owner :: address
  oa_PublicKey :: bytes

record ContractOperatorRemoved =
  or_OperatorId :: OperatorID

record ContractValidatorAdded =
  va_Owner :: address
  va_OperatorIds :: "OperatorID list"
  va_PublicKey :: bytes
  va_Shares :: bytes

record ContractValidatorRemoved =
  vr_Owner :: address
  vr_OperatorIds :: "OperatorID list"
  vr_PublicKey :: bytes

record ContractCluster =
  cl_Owner :: address
  cl_OperatorIds :: "OperatorID list"

record ContractFeeRecipient =
  fr_Owner :: address
  fr_RecipientAddress :: address
  fr_BlockNumber :: u64

record ContractValidatorExited =
  ve_Owner :: address
  ve_OperatorIds :: "OperatorID list"
  ve_PublicKey :: bytes
  ve_BlockNumber :: u64

datatype eh_err =
    EhErr string
  | EhStore store_err
  | EhKeys run_err
  | Malformed eh_err
  | EhWrap string eh_err

text \<open>\<open>errors.As\<close> with a \<open>MalformedEventError\<close>.\<close>

fun is_malformed :: "eh_err \<Rightarrow> bool" where
  "is_malformed (Malformed e) = True"
| "is_malformed (EhWrap w e) = is_malformed e"
| "is_malformed _ = False"

text \<open>\<open>ssvsigner.ShareDecryptionError\<close> or any other error of the key manager.\<close>

datatype km_failure = ShareDecryptionError string | KeyManagerError string

record 'k keyManagerI =
  km_AddShare :: "bytes \<Rightarrow> bytes \<Rightarrow> 'k \<Rightarrow> (km_failure, unit) res \<times> 'k"
  km_RemoveShare :: "bytes \<Rightarrow> 'k \<Rightarrow> (km_failure, unit) res \<times> 'k"
  km_BumpSlashingProtection :: "bytes \<Rightarrow> 'k \<Rightarrow> (km_failure, unit) res \<times> 'k"
  km_Discard :: "'k \<Rightarrow> 'k \<Rightarrow> 'k"

record ('p, 's, 'i, 'g) ehConfig =
  hc_bls :: "('p, 's, 'i) bls"
  hc_SerializePublicKey :: "'p \<Rightarrow> bytes"
  hc_sha :: "bytes \<Rightarrow> bytes"
  hc_keccak :: "bytes \<Rightarrow> bytes"
  hc_AddressString :: "address \<Rightarrow> bytes"
  hc_json :: jsonAPI
  hc_ssz :: shareSSZ
  hc_DomainType :: bytes
  hc_Beacon :: Beacon
  hc_RemoveValidatorState :: "u64 \<Rightarrow> 'g \<Rightarrow> 'g"

record 'd ehEnv =
  he_now :: int
  he_faults :: kvFaults
  he_sharesDB :: "'d shareDB"

record ('d, 'k, 'g) EventHandler =
  eh_registry :: registryDB
  eh_shares :: "'d sharesStorage"
  eh_operatorData :: "OperatorData option"
  eh_keyManager :: 'k
  eh_doppelganger :: 'g

type_synonym ('d, 'k, 'g, 'a) eh_result = "(eh_err, 'a) res \<times> ('d, 'k, 'g) EventHandler"

definition GetOperatorID :: "('d, 'k, 'g) EventHandler \<Rightarrow> OperatorID" where
  "GetOperatorID h = (case eh_operatorData h of None \<Rightarrow> 0 | Some od \<Rightarrow> od_ID od)"

text \<open>An operation on one of the stores or on the key manager.\<close>

definition onRegistry ::
    "string \<Rightarrow> (registryDB \<Rightarrow> (string, 'a) res \<times> registryDB) \<Rightarrow> ('d, 'k, 'g) EventHandler \<Rightarrow> ('d, 'k, 'g, 'a) eh_result" where
  "onRegistry w f h =
     (case f (eh_registry h) of (r, s) \<Rightarrow> (map_err (\<lambda>e. EhWrap w (EhErr e)) r, h\<lparr>eh_registry := s\<rparr>))"

definition onShares ::
    "string \<Rightarrow> ('d sharesStorage \<Rightarrow> (store_err, 'a) res \<times> 'd sharesStorage) \<Rightarrow> ('d, 'k, 'g) EventHandler
       \<Rightarrow> ('d, 'k, 'g, 'a) eh_result" where
  "onShares w f h = (case f (eh_shares h) of (r, s) \<Rightarrow> (map_err (\<lambda>e. EhWrap w (EhStore e)) r, h\<lparr>eh_shares := s\<rparr>))"

definition onKeys ::
    "(km_failure \<Rightarrow> eh_err) \<Rightarrow> ('k \<Rightarrow> (km_failure, 'a) res \<times> 'k) \<Rightarrow> ('d, 'k, 'g) EventHandler \<Rightarrow> ('d, 'k, 'g, 'a) eh_result" where
  "onKeys w f h = (case f (eh_keyManager h) of (r, k) \<Rightarrow> (map_err w r, h\<lparr>eh_keyManager := k\<rparr>))"

text \<open>The conversion of a slice to an array of 48 bytes panics on a shorter slice.\<close>

definition BLSPubKey :: "bytes \<Rightarrow> ('e, bytes) res" where
  "BLSPubKey b = (if length b < 48 then Panic else Ok (take 48 b))"

section \<open>Operators\<close>

definition handleOperatorAdded ::
    "('p, 's, 'i, 'g) ehConfig \<Rightarrow> 'd ehEnv \<Rightarrow> ContractOperatorAdded \<Rightarrow> ('d, 'k, 'g) EventHandler \<Rightarrow> ('d, 'k, 'g, unit) eh_result" where
  "handleOperatorAdded C E event h =
     (let od = \<lparr>od_ID = oa_OperatorId event, od_PublicKey = oa_PublicKey event, od_OwnerAddress = oa_Owner event\<rparr>;
          F = he_faults E; J = hc_json C
      in bind_st (onRegistry ''could not check if operator exists'' (\<lambda>s. (operatorsExist F s [oa_OperatorId event], s)) h) (\<lambda>existsById h.
         if existsById then (Err (Malformed (EhErr ''operator ID already exists'')), h)
         else bind_st (onRegistry ''could not get operator data by public key'' (\<lambda>s. (getOperatorDataByPubKey J F s (oa_PublicKey event), s)) h) (\<lambda>operatorData h.
         if operatorData \<noteq> None then (Err (Malformed (EhErr ''operator public key already exists'')), h)
         else bind_st (onRegistry ''save operator data'' (SaveOperatorData J F od) h) (\<lambda>exists h.
         if exists then (Ok (), h)
         else case eh_operatorData h of
                None \<Rightarrow> (Panic, h)
              | Some own \<Rightarrow> (Ok (), if oa_PublicKey event = od_PublicKey own then h\<lparr>eh_operatorData := Some od\<rparr> else h)))))"

definition handleOperatorRemoved ::
    "('p, 's, 'i, 'g) ehConfig \<Rightarrow> 'd ehEnv \<Rightarrow> ContractOperatorRemoved \<Rightarrow> ('d, 'k, 'g) EventHandler \<Rightarrow> ('d, 'k, 'g, unit) eh_result" where
  "handleOperatorRemoved C E event h =
     bind_st (onRegistry ''could not get operator data''
                (\<lambda>s. (getOperatorData (hc_json C) (he_faults E) (rg_txn s) (or_OperatorId event), s)) h) (\<lambda>od h.
       if od = None then (Err (Malformed (EhErr ''operator data not found'')), h)
       else onRegistry ''could not delete operator data'' (DeleteOperatorData (he_faults E) (or_OperatorId event)) h)"

section \<open>Validators\<close>

definition maxOperators :: nat where "maxOperators = 13"

definition validateOperators :: "kvFaults \<Rightarrow> registryDB \<Rightarrow> OperatorID list \<Rightarrow> (eh_err, unit) res" where
  "validateOperators F s operators =
     (if length operators > maxOperators then Err (EhErr ''too many operators'')
      else if length operators = 0 then Err (EhErr ''no operators'')
      else if \<not> ValidCommitteeSize (word_of_nat (length operators)) then Err (EhErr ''operator count cannot build a 3f+1 quorum'')
      else if \<not> distinct operators then Err (EhErr ''duplicated operator ID'')
      else bind_res (map_err (\<lambda>e. EhWrap ''storage'' (EhErr e)) (operatorsExist F s operators)) (\<lambda>exist.
           if exist then Ok () else Err (EhErr ''not all operators exist'')))"

definition registrationData :: "(address \<Rightarrow> bytes) \<Rightarrow> address \<Rightarrow> u16 \<Rightarrow> bytes" where
  "registrationData addressString owner nonce = addressString owner @ str '':'' @ str (show_dec (unat nonce))"

definition verifySignature ::
    "('p, 's, 'i, 'g) ehConfig \<Rightarrow> bytes \<Rightarrow> address \<Rightarrow> bytes \<Rightarrow> u16 \<Rightarrow> (eh_err, unit) res" where
  "verifySignature C sig owner pubKey nonce =
     (let hash = hc_keccak C (registrationData (hc_AddressString C) owner nonce)
      in bind_res (of_sum (\<lambda>e. EhWrap ''failed to deserialize signature'' (EhErr e)) (bls_Sign (hc_bls C) sig)) (\<lambda>sign.
         bind_res (of_sum (\<lambda>e. EhWrap ''failed to deserialize public key'' (EhErr e)) (bls_PublicKey (hc_bls C) pubKey)) (\<lambda>pk.
           ensure (bls_VerifyByte (hc_bls C) sign pk hash) (EhErr ''failed to verify signature''))))"

function splitChunks :: "nat \<Rightarrow> bytes \<Rightarrow> bytes list" where
  "splitChunks n buf =
     (if n > 0 \<and> length buf \<ge> n then take n buf # splitChunks n (drop n buf)
      else if length buf > 0 then [buf] else [])"
  by auto
termination
  by (relation "measure (\<lambda>(n, buf). length buf)") auto

text \<open>The capacity of the result is computed by a division, which panics for a limit of zero.\<close>

definition splitBytes :: "bytes \<Rightarrow> nat \<Rightarrow> ('e, bytes list) res" where
  "splitBytes buf n = (if n = 0 then Panic else Ok (splitChunks n buf))"

definition at_index :: "'a list \<Rightarrow> nat \<Rightarrow> ('e, 'a) res" where
  "at_index xs i = (if i < length xs then Ok (xs ! i) else Panic)"

definition emptyShare :: SSVShare where
  "emptyShare =
     \<lparr>sh_ValidatorIndex = 0, sh_ValidatorPubKey = replicate 48 0, sh_SharePubKey = [], sh_Committee = [],
      sh_DomainType = replicate 4 0, sh_Graffiti = [], sh_Status = ValidatorStateUnknown, sh_ActivationEpoch = 0,
      sh_ExitEpoch = 0, sh_OwnerAddress = replicate 20 0, sh_Liquidated = False, sh_BeaconMetadataLastUpdated = 0,
      sh_committeeID = None, sh_booleCommitteeSubnet = None, sh_alanCommitteeSubnet = None, sh_minParticipationEpoch = 0\<rparr>"

text \<open>The loop over the operators of an event: the share so far, its members and the encrypted key.\<close>

fun collectMembers ::
    "jsonAPI \<Rightarrow> kvFaults \<Rightarrow> registryDB \<Rightarrow> OperatorID \<Rightarrow> bytes list \<Rightarrow> bytes list \<Rightarrow> nat \<Rightarrow> OperatorID list
       \<Rightarrow> SSVShare \<times> ShareMember list \<times> bytes \<Rightarrow> (eh_err, SSVShare \<times> ShareMember list \<times> bytes) res" where
  "collectMembers J F s self sharePublicKeys encryptedKeys i [] acc = Ok acc"
| "collectMembers J F s self sharePublicKeys encryptedKeys i (operatorID # ids) (share, members, encryptedKey) =
     bind_res (map_err (\<lambda>e. EhWrap ''could not get operator data'' (EhErr e)) (getOperatorData J F (rg_txn s) operatorID)) (\<lambda>od.
     if od = None then Err (Malformed (EhErr ''operator data not found''))
     else bind_res (at_index sharePublicKeys i) (\<lambda>key.
          let members = members @ [\<lparr>Signer = operatorID, mem_SharePubKey = key\<rparr>]
          in if operatorID \<noteq> self
             then collectMembers J F s self sharePublicKeys encryptedKeys (i + 1) ids (share, members, encryptedKey)
             else bind_res (at_index encryptedKeys i) (\<lambda>enc.
                  collectMembers J F s self sharePublicKeys encryptedKeys (i + 1) ids
                    (share\<lparr>sh_SharePubKey := key\<rparr>, members, enc))))"

definition validatorAddedEventToShare ::
    "('p, 's, 'i, 'g) ehConfig \<Rightarrow> 'd ehEnv \<Rightarrow> ContractValidatorAdded \<Rightarrow> bytes list \<Rightarrow> bytes list \<Rightarrow> ('d, 'k, 'g) EventHandler
       \<Rightarrow> (eh_err, SSVShare \<times> bytes) res" where
  "validatorAddedEventToShare C E event sharePublicKeys encryptedKeys h =
     bind_res (of_sum (\<lambda>e. Malformed (EhWrap ''failed to deserialize validator public key'' (EhErr e)))
                 (DeserializeBLSPublicKey (hc_bls C) (va_PublicKey event))) (\<lambda>publicKey.
     let share = emptyShare\<lparr>sh_ValidatorPubKey := copy_into 48 (hc_SerializePublicKey C publicKey), sh_OwnerAddress := va_Owner event\<rparr>
     in bind_res (collectMembers (hc_json C) (he_faults E) (eh_registry h) (GetOperatorID h) sharePublicKeys encryptedKeys 0
                    (va_OperatorIds event) (share, [], [])) (\<lambda>(share, members, encryptedKey).
          Ok (share\<lparr>sh_DomainType := hc_DomainType C, sh_Committee := members\<rparr>, encryptedKey)))"

definition contractParticipationDelay :: u64 where "contractParticipationDelay = 1"

definition addShareError :: "km_failure \<Rightarrow> eh_err" where
  "addShareError e =
     (case e of
        ShareDecryptionError m \<Rightarrow> Malformed (EhErr m)
      | KeyManagerError m \<Rightarrow> EhWrap ''could not add share encrypted key'' (EhErr m))"

definition handleShareCreation ::
    "('p, 's, 'i, 'g) ehConfig \<Rightarrow> 'k keyManagerI \<Rightarrow> 'd ehEnv \<Rightarrow> ContractValidatorAdded \<Rightarrow> bytes list \<Rightarrow> bytes list
       \<Rightarrow> ('d, 'k, 'g) EventHandler \<Rightarrow> ('d, 'k, 'g, SSVShare) eh_result" where
  "handleShareCreation C K E event sharePublicKeys encryptedKeys h =
     bind_st (map_err (EhWrap ''could not extract validator share from event'')
                (validatorAddedEventToShare C E event sharePublicKeys encryptedKeys h), h) (\<lambda>(share, encryptedKey) h.
     bind_st (if BelongsToOperator share (GetOperatorID h)
              then bind_st (BLSPubKey (sh_SharePubKey share), h) (\<lambda>key h.
                   bind_st (onKeys addShareError (km_AddShare K encryptedKey key) h) (\<lambda>_ h.
                   bind_st (EstimatedCurrentEpoch (hc_Beacon C) (he_now E), h) (\<lambda>epoch h.
                     (Ok (SetMinParticipationEpoch share (epoch + contractParticipationDelay)), h))))
              else (Ok share, h)) (\<lambda>share h.
     bind_st (onShares ''could not save validator share'' (sharesSave (hc_sha C) (he_sharesDB E) (hc_ssz C) [Some share]) h) (\<lambda>_ h.
       (Ok share, h))))"

definition encryptedKeyLength :: nat where "encryptedKeyLength = 256"

definition handleValidatorAdded ::
    "('p, 's, 'i, 'g) ehConfig \<Rightarrow> 'k keyManagerI \<Rightarrow> 'd ehEnv \<Rightarrow> ContractValidatorAdded \<Rightarrow> ('d, 'k, 'g) EventHandler
       \<Rightarrow> ('d, 'k, 'g, SSVShare option) eh_result" where
  "handleValidatorAdded C K E event h =
     bind_st (onRegistry ''failed to get next nonce'' (\<lambda>s. (GetNextNonce (hc_json C) (he_faults E) s (va_Owner event), s)) h) (\<lambda>nonce h.
     bind_st (onRegistry '''' (BumpNonce (hc_json C) (he_faults E) (va_Owner event)) h) (\<lambda>_ h.
     bind_st (map_err Malformed (validateOperators (he_faults E) (eh_registry h) (va_OperatorIds event)), h) (\<lambda>_ h.
     let operatorCount = length (va_OperatorIds event); signatureOffset = 96;
         pubKeysOffset = 48 * operatorCount + signatureOffset;
         sharesExpectedLength = encryptedKeyLength * operatorCount + pubKeysOffset
     in if sharesExpectedLength \<noteq> length (va_Shares event) then (Err (Malformed (EhErr ''shares length is not correct'')), h)
        else
          let signature = take signatureOffset (va_Shares event); rest = drop pubKeysOffset (va_Shares event)
          in bind_st (splitBytes (drop signatureOffset (take pubKeysOffset (va_Shares event))) 48, h) (\<lambda>sharePublicKeys h.
             bind_st (splitBytes rest (length rest div operatorCount), h) (\<lambda>encryptedKeys h.
             bind_st (map_err (\<lambda>_. Malformed (EhErr ''signature verification failed''))
                        (verifySignature C signature (va_Owner event) (va_PublicKey event) nonce), h) (\<lambda>_ h.
             bind_st (map_err (\<lambda>e. Malformed (EhKeys e))
                        (ValidateSharePublicKeys (hc_bls C) (va_PublicKey event) (va_OperatorIds event) sharePublicKeys), h) (\<lambda>_ h.
             bind_st (case sharesGet (eh_shares h) (va_PublicKey event) of
                        None \<Rightarrow> handleShareCreation C K E event sharePublicKeys encryptedKeys h
                      | Some validatorShare \<Rightarrow>
                          if va_Owner event \<noteq> sh_OwnerAddress validatorShare
                          then (Err (Malformed (EhErr ''share already exists and belongs to different owner'')), h)
                          else (Ok validatorShare, h)) (\<lambda>validatorShare h.
               (Ok (if BelongsToOperator validatorShare (GetOperatorID h) then Some validatorShare else None), h)))))))))"

text \<open>An absent key is the empty key of the code.\<close>

definition handleValidatorRemoved ::
    "('p, 's, 'i, 'g) ehConfig \<Rightarrow> 'k keyManagerI \<Rightarrow> 'd ehEnv \<Rightarrow> ContractValidatorRemoved \<Rightarrow> ('d, 'k, 'g) EventHandler
       \<Rightarrow> ('d, 'k, 'g, bytes option) eh_result" where
  "handleValidatorRemoved C K E event h =
     (case sharesGet (eh_shares h) (vr_PublicKey event) of
        None \<Rightarrow> (Err (Malformed (EhErr ''validator share not found'')), h)
      | Some share \<Rightarrow>
          if vr_Owner event \<noteq> sh_OwnerAddress share
          then (Err (Malformed (EhErr ''share already exists and belongs to different owner'')), h)
          else bind_st (onShares ''could not remove validator share'' (sharesDelete (hc_sha C) (he_sharesDB E) (pk share)) h) (\<lambda>_ h.
               if BelongsToOperator share (GetOperatorID h)
               then bind_st (BLSPubKey (sh_SharePubKey share), h) (\<lambda>key h.
                    bind_st (onKeys (\<lambda>_. EhErr ''could not remove share from ekm storage'') (km_RemoveShare K key) h) (\<lambda>_ h.
                      (Ok (Some (pk share)),
                       h\<lparr>eh_doppelganger := hc_RemoveValidatorState C (sh_ValidatorIndex share) (eh_doppelganger h)\<rparr>)))
               else (Ok None, h)))"

section \<open>Clusters\<close>

text \<open>The loop that writes the flag through the pointers of the shares.\<close>

fun setLiquidated ::
    "OperatorID \<Rightarrow> bool \<Rightarrow> SSVShare list \<Rightarrow> 'd sharesStorage \<Rightarrow> (SSVShare list \<times> SSVShare list) \<times> 'd sharesStorage" where
  "setLiquidated self toLiquidate [] s = (([], []), s)"
| "setLiquidated self toLiquidate (share # shares) s =
     (let share = share\<lparr>sh_Liquidated := toLiquidate\<rparr>;
          ((toUpdate, operatorShares), s) = setLiquidated self toLiquidate shares (writeShare share s)
      in ((share # toUpdate, if BelongsToOperator share self then share # operatorShares else operatorShares), s))"

definition processClusterEvent ::
    "('p, 's, 'i, 'g) ehConfig \<Rightarrow> 'd ehEnv \<Rightarrow> address \<Rightarrow> OperatorID list \<Rightarrow> bool \<Rightarrow> ('d, 'k, 'g) EventHandler
       \<Rightarrow> ('d, 'k, 'g, SSVShare list) eh_result" where
  "processClusterEvent C E owner operatorIDs toLiquidate h =
     (let clusterID = ComputeClusterIDHash (hc_keccak C) owner operatorIDs;
          shares = sharesList (eh_shares h) [ByClusterIDHash (hc_keccak C) clusterID];
          ((toUpdate, operatorShares), s) = setLiquidated (GetOperatorID h) toLiquidate shares (eh_shares h);
          h = h\<lparr>eh_shares := s\<rparr>
      in if toUpdate = [] then (Ok operatorShares, h)
         else bind_st (onShares ''could not save validator shares''
                         (sharesSave (hc_sha C) (he_sharesDB E) (hc_ssz C) (map Some toUpdate)) h) (\<lambda>_ h. (Ok operatorShares, h)))"

definition handleClusterLiquidated ::
    "('p, 's, 'i, 'g) ehConfig \<Rightarrow> 'd ehEnv \<Rightarrow> ContractCluster \<Rightarrow> ('d, 'k, 'g) EventHandler \<Rightarrow> ('d, 'k, 'g, SSVShare list) eh_result" where
  "handleClusterLiquidated C E event h =
     bind_st (map_err_st (EhWrap ''could not process cluster event'')
                (processClusterEvent C E (cl_Owner event) (cl_OperatorIds event) True h)) (\<lambda>toLiquidate h.
       (Ok toLiquidate,
        h\<lparr>eh_doppelganger := fold (\<lambda>share. hc_RemoveValidatorState C (sh_ValidatorIndex share)) toLiquidate (eh_doppelganger h)\<rparr>))"

fun bumpReactivated ::
    "('p, 's, 'i, 'g) ehConfig \<Rightarrow> 'k keyManagerI \<Rightarrow> 'd ehEnv \<Rightarrow> SSVShare list \<Rightarrow> ('d, 'k, 'g) EventHandler
       \<Rightarrow> ('d, 'k, 'g, unit) eh_result" where
  "bumpReactivated C K E [] h = (Ok (), h)"
| "bumpReactivated C K E (share # shares) h =
     bind_st (BLSPubKey (sh_SharePubKey share), h) (\<lambda>key h.
     bind_st (onKeys (\<lambda>_. EhErr ''could not bump slashing protection'') (km_BumpSlashingProtection K key) h) (\<lambda>_ h.
     bind_st (EstimatedCurrentEpoch (hc_Beacon C) (he_now E), h) (\<lambda>epoch h.
       bumpReactivated C K E shares
         (h\<lparr>eh_shares := writeShare (SetMinParticipationEpoch share (epoch + contractParticipationDelay)) (eh_shares h)\<rparr>))))"

definition handleClusterReactivated ::
    "('p, 's, 'i, 'g) ehConfig \<Rightarrow> 'k keyManagerI \<Rightarrow> 'd ehEnv \<Rightarrow> ContractCluster \<Rightarrow> ('d, 'k, 'g) EventHandler
       \<Rightarrow> ('d, 'k, 'g, SSVShare list) eh_result" where
  "handleClusterReactivated C K E event h =
     bind_st (map_err_st (EhWrap ''could not process cluster event'')
                (processClusterEvent C E (cl_Owner event) (cl_OperatorIds event) False h)) (\<lambda>toReactivate h.
     bind_st (bumpReactivated C K E toReactivate h) (\<lambda>_ h. (Ok toReactivate, h)))"

section \<open>Recipients and exits\<close>

definition handleFeeRecipientAddressUpdated ::
    "('p, 's, 'i, 'g) ehConfig \<Rightarrow> 'd ehEnv \<Rightarrow> ContractFeeRecipient \<Rightarrow> ('d, 'k, 'g) EventHandler \<Rightarrow> ('d, 'k, 'g, bool) eh_result" where
  "handleFeeRecipientAddressUpdated C E event h =
     bind_st (onRegistry ''could not save recipient data''
                (SaveRecipientData (hc_json C) (he_faults E) (fr_Owner event) (fr_RecipientAddress event)) h) (\<lambda>r h. (Ok (r \<noteq> None), h))"

record ehExitDescriptor =
  xd_OwnValidator :: bool
  xd_PubKey :: bytes
  xd_ValidatorIndex :: u64
  xd_BlockNumber :: u64

definition handleValidatorExited ::
    "ContractValidatorExited \<Rightarrow> ('d, 'k, 'g) EventHandler \<Rightarrow> (eh_err, ehExitDescriptor option) res" where
  "handleValidatorExited event h =
     (case sharesGet (eh_shares h) (ve_PublicKey event) of
        None \<Rightarrow> Err (Malformed (EhErr ''validator share not found''))
      | Some share \<Rightarrow>
          if ve_Owner event \<noteq> sh_OwnerAddress share
          then Err (Malformed (EhErr ''share already exists and belongs to different owner''))
          else if \<not> HasBeaconMetadata (Some share) then Ok None
          else Ok (Some \<lparr>xd_OwnValidator = BelongsToOperator share (GetOperatorID h), xd_PubKey = pk share,
                         xd_ValidatorIndex = sh_ValidatorIndex share, xd_BlockNumber = ve_BlockNumber event\<rparr>))"

section \<open>Blocks\<close>

datatype Task =
    StopValidatorTask bytes
  | LiquidateClusterTask address "OperatorID list" "SSVShare list"
  | ReactivateClusterTask address "OperatorID list" "SSVShare list"
  | UpdateFeeRecipientTask address address u64
  | ExitValidatorTask bytes u64 u64 bool

text \<open>A log of the contract, with its data left open, and the parser.\<close>

record 'l ethLog =
  lg_Topics :: "bytes list"
  lg_Data :: 'l

record 'l eventParser =
  ep_EventByID :: "bytes \<Rightarrow> string + string"
  ep_ParseOperatorAdded :: "'l ethLog \<Rightarrow> string + ContractOperatorAdded"
  ep_ParseOperatorRemoved :: "'l ethLog \<Rightarrow> string + ContractOperatorRemoved"
  ep_ParseValidatorAdded :: "'l ethLog \<Rightarrow> string + ContractValidatorAdded"
  ep_ParseValidatorRemoved :: "'l ethLog \<Rightarrow> string + ContractValidatorRemoved"
  ep_ParseClusterLiquidated :: "'l ethLog \<Rightarrow> string + ContractCluster"
  ep_ParseClusterReactivated :: "'l ethLog \<Rightarrow> string + ContractCluster"
  ep_ParseFeeRecipientAddressUpdated :: "'l ethLog \<Rightarrow> string + ContractFeeRecipient"
  ep_ParseValidatorExited :: "'l ethLog \<Rightarrow> string + ContractValidatorExited"

text \<open>
  What every case of \<open>processEvent\<close> does: a log that does not parse is skipped; a malformed event is too,
  with whatever its handler wrote; any other error is wrapped and ends the block.
\<close>

definition runHandler ::
    "string \<Rightarrow> string + 'ev \<Rightarrow> ('ev \<Rightarrow> ('d, 'k, 'g) EventHandler \<Rightarrow> ('d, 'k, 'g, 'a) eh_result) \<Rightarrow> ('ev \<Rightarrow> 'a \<Rightarrow> Task option)
       \<Rightarrow> ('d, 'k, 'g) EventHandler \<Rightarrow> ('d, 'k, 'g, Task option) eh_result" where
  "runHandler name parsed handle task h =
     (case parsed of
        Inl _ \<Rightarrow> (Ok None, h)
      | Inr event \<Rightarrow>
          (case handle event h of
             (Ok x, h) \<Rightarrow> (Ok (task event x), h)
           | (Err e, h) \<Rightarrow> if is_malformed e then (Ok None, h) else (Err (EhWrap name e), h)
           | (Panic, h) \<Rightarrow> (Panic, h)))"

text \<open>\<open>ComputeClusterIDHash\<close> sorts the operators of the event in place.\<close>

definition processEvent ::
    "('p, 's, 'i, 'g) ehConfig \<Rightarrow> 'k keyManagerI \<Rightarrow> 'l eventParser \<Rightarrow> 'd ehEnv \<Rightarrow> 'l ethLog \<Rightarrow> ('d, 'k, 'g) EventHandler
       \<Rightarrow> ('d, 'k, 'g, Task option) eh_result" where
  "processEvent C K L E event h =
     (case lg_Topics event of
        [] \<Rightarrow> (Panic, h)
      | topic # _ \<Rightarrow>
          (case ep_EventByID L topic of
             Inl _ \<Rightarrow> (Ok None, h)
           | Inr name \<Rightarrow>
               if name = ''OperatorAdded''
               then runHandler ''handle OperatorAdded'' (ep_ParseOperatorAdded L event) (handleOperatorAdded C E) (\<lambda>_ _. None) h
               else if name = ''OperatorRemoved''
               then runHandler ''handle OperatorRemoved'' (ep_ParseOperatorRemoved L event) (handleOperatorRemoved C E) (\<lambda>_ _. None) h
               else if name = ''ValidatorAdded''
               then runHandler ''handle ValidatorAdded'' (ep_ParseValidatorAdded L event) (handleValidatorAdded C K E) (\<lambda>_ _. None) h
               else if name = ''ValidatorRemoved''
               then runHandler ''handle ValidatorRemoved'' (ep_ParseValidatorRemoved L event) (handleValidatorRemoved C K E)
                      (\<lambda>_ key. if key = None \<or> key = Some (replicate 48 0) then None else Some (StopValidatorTask (the key))) h
               else if name = ''ClusterLiquidated''
               then runHandler ''handle ClusterLiquidated'' (ep_ParseClusterLiquidated L event) (handleClusterLiquidated C E)
                      (\<lambda>e shares. if shares = [] then None
                         else Some (LiquidateClusterTask (cl_Owner e) (sort (cl_OperatorIds e)) shares)) h
               else if name = ''ClusterReactivated''
               then runHandler ''handle ClusterReactivated'' (ep_ParseClusterReactivated L event) (handleClusterReactivated C K E)
                      (\<lambda>e shares. if shares = [] then None
                         else Some (ReactivateClusterTask (cl_Owner e) (sort (cl_OperatorIds e)) shares)) h
               else if name = ''FeeRecipientAddressUpdated''
               then runHandler ''handle FeeRecipientAddressUpdated'' (ep_ParseFeeRecipientAddressUpdated L event)
                      (handleFeeRecipientAddressUpdated C E)
                      (\<lambda>e updated. if updated then Some (UpdateFeeRecipientTask (fr_Owner e) (fr_RecipientAddress e) (fr_BlockNumber e)) else None) h
               else if name = ''ValidatorExited''
               then runHandler ''handle ValidatorExited'' (ep_ParseValidatorExited L event)
                      (\<lambda>e h. (handleValidatorExited e h, h))
                      (\<lambda>_ x. map_option (\<lambda>d. ExitValidatorTask (xd_PubKey d) (xd_BlockNumber d) (xd_ValidatorIndex d) (xd_OwnValidator d)) x) h
               else (Ok None, h)))"

fun processLogs ::
    "('p, 's, 'i, 'g) ehConfig \<Rightarrow> 'k keyManagerI \<Rightarrow> 'l eventParser \<Rightarrow> ('d ehEnv \<times> 'l ethLog) list \<Rightarrow> ('d, 'k, 'g) EventHandler
       \<Rightarrow> ('d, 'k, 'g, Task list) eh_result" where
  "processLogs C K L [] h = (Ok [], h)"
| "processLogs C K L ((E, l) # ls) h =
     bind_st (processEvent C K L E l h) (\<lambda>task h.
     bind_st (processLogs C K L ls h) (\<lambda>tasks h.
       (Ok (case task of None \<Rightarrow> tasks | Some t \<Rightarrow> t # tasks), h)))"

record ('d, 'l) BlockLogs =
  bl_BlockNumber :: u64
  bl_Logs :: "('d ehEnv \<times> 'l ethLog) list"
  bl_faults :: kvFaults

text \<open>\<open>Begin\<close>, \<open>Commit\<close> and the deferred \<open>Discard\<close>; what was changed in memory stays changed.\<close>

definition beginTxn :: "('d, 'k, 'g) EventHandler \<Rightarrow> ('d, 'k, 'g) EventHandler" where
  "beginTxn h = h\<lparr>eh_registry := (eh_registry h)\<lparr>rg_txn := rg_committed (eh_registry h)\<rparr>\<rparr>"

definition commitTxn :: "('d, 'k, 'g) EventHandler \<Rightarrow> ('d, 'k, 'g) EventHandler" where
  "commitTxn h = h\<lparr>eh_registry := (eh_registry h)\<lparr>rg_committed := rg_txn (eh_registry h)\<rparr>\<rparr>"

definition discardTxn :: "'k keyManagerI \<Rightarrow> ('d, 'k, 'g) EventHandler \<Rightarrow> ('d, 'k, 'g) EventHandler \<Rightarrow> ('d, 'k, 'g) EventHandler" where
  "discardTxn K before h =
     h\<lparr>eh_registry := (eh_registry h)\<lparr>rg_txn := rg_committed (eh_registry h)\<rparr>,
       eh_shares := (eh_shares h)\<lparr>ss_db := ss_db (eh_shares before)\<rparr>,
       eh_keyManager := km_Discard K (eh_keyManager before) (eh_keyManager h)\<rparr>"

definition processBlockEvents ::
    "('p, 's, 'i, 'g) ehConfig \<Rightarrow> 'k keyManagerI \<Rightarrow> 'l eventParser \<Rightarrow> ('d, 'l) BlockLogs \<Rightarrow> ('d, 'k, 'g) EventHandler
       \<Rightarrow> ('d, 'k, 'g, Task list) eh_result" where
  "processBlockEvents C K L block before =
     (let F = bl_faults block;
          (r, h) =
            bind_st (onRegistry ''get last processed block'' (\<lambda>s. (GetLastProcessedBlock F s, s)) (beginTxn before)) (\<lambda>lastBlock h.
            if word_of_nat (case lastBlock of None \<Rightarrow> 0 | Some n \<Rightarrow> n) \<ge> bl_BlockNumber block
            then (Err (EhErr ''block is not higher than the last processed block''), h)
            else bind_st (processLogs C K L (bl_Logs block) h) (\<lambda>tasks h.
                 bind_st (onRegistry ''set last processed block'' (SaveLastProcessedBlock F (bl_BlockNumber block)) h) (\<lambda>_ h.
                   case kf_Commit F of
                     Some e \<Rightarrow> (Err (EhWrap ''commit transaction'' (EhErr e)), h)
                   | None \<Rightarrow> (Ok tasks, commitTxn h))))
      in case r of Ok tasks \<Rightarrow> (Ok tasks, h) | _ \<Rightarrow> (r, discardTxn K before h))"

text \<open>
  A stream of blocks. \<open>execute\<close> runs a task of the node; its failure is logged. The result is the last
  processed block, and an error with the state it leaves.
\<close>

fun HandleBlockEventsStream ::
    "('p, 's, 'i, 'g) ehConfig \<Rightarrow> 'k keyManagerI \<Rightarrow> 'l eventParser \<Rightarrow> (Task \<Rightarrow> 'n \<Rightarrow> 'n) \<Rightarrow> bool \<Rightarrow> ('d, 'l) BlockLogs list
       \<Rightarrow> u64 option \<Rightarrow> 'n \<Rightarrow> ('d, 'k, 'g) EventHandler \<Rightarrow> ((eh_err, u64 option) res \<times> 'n) \<times> ('d, 'k, 'g) EventHandler" where
  "HandleBlockEventsStream C K L execute executeTasks [] processed node h = ((Ok processed, node), h)"
| "HandleBlockEventsStream C K L execute executeTasks (block # blocks) processed node h =
     (case processBlockEvents C K L block h of
        (Ok tasks, h) \<Rightarrow>
          HandleBlockEventsStream C K L execute executeTasks blocks (Some (bl_BlockNumber block))
            (if executeTasks then fold execute tasks node else node) h
      | (Err e, h) \<Rightarrow> ((Err (EhWrap ''process block events'' e), node), h)
      | (Panic, h) \<Rightarrow> ((Panic, node), h))"

text \<open>
  Events of a local file. The data of an event is asserted to have the type its name calls for; a
  malformed event is an error here.
\<close>

datatype localData =
    LocalOperatorAdded ContractOperatorAdded
  | LocalOperatorRemoved ContractOperatorRemoved
  | LocalValidatorAdded ContractValidatorAdded
  | LocalValidatorRemoved ContractValidatorRemoved
  | LocalClusterLiquidated ContractCluster
  | LocalClusterReactivated ContractCluster
  | LocalFeeRecipientAddressUpdated ContractFeeRecipient
  | LocalValidatorExited ContractValidatorExited

definition localHandler ::
    "string \<Rightarrow> ('d, 'k, 'g, 'a) eh_result \<Rightarrow> ('d, 'k, 'g, unit) eh_result" where
  "localHandler w r = bind_st (map_err_st (EhWrap w) r) (\<lambda>_ h. (Ok (), h))"

definition processLocalEvent ::
    "('p, 's, 'i, 'g) ehConfig \<Rightarrow> 'k keyManagerI \<Rightarrow> 'd ehEnv \<Rightarrow> string \<times> localData \<Rightarrow> ('d, 'k, 'g) EventHandler
       \<Rightarrow> ('d, 'k, 'g, unit) eh_result" where
  "processLocalEvent C K E event h =
     (let (name, data) = event
      in if name = ''OperatorAdded''
         then (case data of LocalOperatorAdded e \<Rightarrow> localHandler ''handle OperatorAdded'' (handleOperatorAdded C E e h) | _ \<Rightarrow> (Panic, h))
         else if name = ''OperatorRemoved''
         then (case data of LocalOperatorRemoved e \<Rightarrow> localHandler ''handle OperatorRemoved'' (handleOperatorRemoved C E e h) | _ \<Rightarrow> (Panic, h))
         else if name = ''ValidatorAdded''
         then (case data of LocalValidatorAdded e \<Rightarrow> localHandler ''handle ValidatorAdded'' (handleValidatorAdded C K E e h) | _ \<Rightarrow> (Panic, h))
         else if name = ''ValidatorRemoved''
         then (case data of LocalValidatorRemoved e \<Rightarrow> localHandler ''handle ValidatorRemoved'' (handleValidatorRemoved C K E e h) | _ \<Rightarrow> (Panic, h))
         else if name = ''ClusterLiquidated''
         then (case data of LocalClusterLiquidated e \<Rightarrow> localHandler ''handle ClusterLiquidated'' (handleClusterLiquidated C E e h) | _ \<Rightarrow> (Panic, h))
         else if name = ''ClusterReactivated''
         then (case data of LocalClusterReactivated e \<Rightarrow> localHandler ''handle ClusterReactivated'' (handleClusterReactivated C K E e h) | _ \<Rightarrow> (Panic, h))
         else if name = ''FeeRecipientAddressUpdated''
         then (case data of LocalFeeRecipientAddressUpdated e \<Rightarrow>
                 localHandler ''handle FeeRecipientAddressUpdated'' (handleFeeRecipientAddressUpdated C E e h) | _ \<Rightarrow> (Panic, h))
         else if name = ''ValidatorExited''
         then (case data of LocalValidatorExited e \<Rightarrow> localHandler ''handle ValidatorExited'' (handleValidatorExited e h, h) | _ \<Rightarrow> (Panic, h))
         else (Ok (), h))"

fun processLocalEvents ::
    "('p, 's, 'i, 'g) ehConfig \<Rightarrow> 'k keyManagerI \<Rightarrow> ('d ehEnv \<times> string \<times> localData) list \<Rightarrow> ('d, 'k, 'g) EventHandler
       \<Rightarrow> ('d, 'k, 'g, unit) eh_result" where
  "processLocalEvents C K [] h = (Ok (), h)"
| "processLocalEvents C K ((E, event) # events) h =
     bind_st (map_err_st (EhWrap ''process local event'') (processLocalEvent C K E event h)) (\<lambda>_. processLocalEvents C K events)"

definition HandleLocalEvents ::
    "('p, 's, 'i, 'g) ehConfig \<Rightarrow> 'k keyManagerI \<Rightarrow> kvFaults \<Rightarrow> ('d ehEnv \<times> string \<times> localData) list \<Rightarrow> ('d, 'k, 'g) EventHandler
       \<Rightarrow> ('d, 'k, 'g, unit) eh_result" where
  "HandleLocalEvents C K F events before =
     (let (r, h) =
            bind_st (processLocalEvents C K events (beginTxn before)) (\<lambda>_ h.
              case kf_Commit F of
                Some e \<Rightarrow> (Err (EhWrap ''commit transaction'' (EhErr e)), h)
              | None \<Rightarrow> (Ok (), commitTxn h))
      in case r of Ok _ \<Rightarrow> (Ok (), h) | _ \<Rightarrow> (r, discardTxn K before h))"

end
