(* ===== verification/Event_Handler_Properties.thy ===== *)
theory Event_Handler_Properties
  imports Event_Handler
begin

text \<open>
  What the handler of contract events keeps: the shares and their indices stay a registry of valid
  committees, an owner's events change only the owner's validators, a registration cannot be replayed,
  and what becomes of a registration when the database fails.
\<close>

section \<open>Registered shares\<close>

definition registered :: "('p, 's, 'i, 'g) ehConfig \<Rightarrow> SSVShare \<Rightarrow> bool" where
  "registered C s \<longleftrightarrow>
     distinct (OperatorIDs s) \<and> length (OperatorIDs s) \<in> {4, 7, 10, 13} \<and> (\<forall>i \<in> set (OperatorIDs s). i < 2 ^ 32) \<and>
     cid (hc_sha C) s = ComputeCommitteeID (hc_sha C) (OperatorIDs s) \<and> length (sh_OwnerAddress s) = 20 \<and>
     ValidateSharePublicKeys (hc_bls C) (pk s) (OperatorIDs s) (map mem_SharePubKey (sh_Committee s)) = Ok ()"

definition consistent :: "('p, 's, 'i, 'g) ehConfig \<Rightarrow> SSVShare list \<Rightarrow> 'd sharesStorage \<Rightarrow> bool" where
  "consistent C S s \<longleftrightarrow>
     storage_ok (hc_sha C) S s \<and> distinct (map fst (ss_shares s)) \<and> (\<forall>x \<in> set S. registered C x)"

text \<open>What the handler relies on: canonical encodings of keys, and hashes without collisions.\<close>

definition canonical_keys :: "('p, 's, 'i, 'g) ehConfig \<Rightarrow> bool" where
  "canonical_keys C \<longleftrightarrow> (\<forall>b p. bls_PublicKey (hc_bls C) b = Inr p \<longrightarrow> length b = 48 \<and> hc_SerializePublicKey C p = b)"

definition collision_free :: "('p, 's, 'i, 'g) ehConfig \<Rightarrow> bool" where
  "collision_free C \<longleftrightarrow>
     (\<forall>ids ids'. (\<forall>i \<in> set ids \<union> set ids'. i < 2 ^ 32) \<longrightarrow>
        ComputeCommitteeID (hc_sha C) ids = ComputeCommitteeID (hc_sha C) ids' \<longrightarrow> set ids = set ids') \<and>
     (\<forall>a a' ids ids'. length a = 20 \<longrightarrow> length a' = 20 \<longrightarrow>
        ComputeClusterIDHash (hc_keccak C) a ids = ComputeClusterIDHash (hc_keccak C) a' ids' \<longrightarrow> a = a')"

text \<open>Addresses have 20 bytes, and the contract numbers operators from one.\<close>

definition parser_ok :: "'l eventParser \<Rightarrow> bool" where
  "parser_ok L \<longleftrightarrow>
     (\<forall>l e. ep_ParseValidatorAdded L l = Inr e \<longrightarrow> length (va_Owner e) = 20 \<and> (\<forall>i \<in> set (va_OperatorIds e). i < 2 ^ 32)) \<and>
     (\<forall>l e. ep_ParseClusterLiquidated L l = Inr e \<longrightarrow> length (cl_Owner e) = 20) \<and>
     (\<forall>l e. ep_ParseClusterReactivated L l = Inr e \<longrightarrow> length (cl_Owner e) = 20)"

section \<open>Keeping the registry\<close>

definition others :: "address set \<Rightarrow> SSVShare list \<Rightarrow> SSVShare list" where
  "others Os S = filter (\<lambda>s. sh_OwnerAddress s \<notin> Os) S"

definition keeps :: "('p, 's, 'i, 'g) ehConfig \<Rightarrow> address set \<Rightarrow> ('d, 'k, 'g) EventHandler \<Rightarrow> ('d, 'k, 'g) EventHandler \<Rightarrow> bool" where
  "keeps C Os h h' \<longleftrightarrow>
     (\<forall>S. consistent C S (eh_shares h) \<longrightarrow> (\<exists>S'. consistent C S' (eh_shares h') \<and> others Os S' = others Os S))"

lemma keeps_refl: "eh_shares h' = eh_shares h \<Longrightarrow> keeps C Os h h'"
  by (auto simp: keeps_def)

lemma keeps_memory:
  "ss_shares (eh_shares h') = ss_shares (eh_shares h) \<Longrightarrow> ss_validatorStore (eh_shares h') = ss_validatorStore (eh_shares h) \<Longrightarrow> keeps C Os h h'"
  by (auto simp: keeps_def consistent_def storage_ok_def)

lemma keeps_trans: "keeps C Os h h' \<Longrightarrow> keeps C Os h' h'' \<Longrightarrow> keeps C Os h h''"
  unfolding keeps_def by metis

lemma others_mono: "others Os S' = others Os S \<Longrightarrow> Os \<subseteq> Os' \<Longrightarrow> others Os' S' = others Os' S"
proof -
  assume "others Os S' = others Os S" "Os \<subseteq> Os'"
  moreover from this(2) have "others Os' T = others Os' (others Os T)" for T
    by (auto simp: others_def intro!: filter_cong)
  ultimately show ?thesis
    by metis
qed

lemma keeps_mono: "keeps C Os h h' \<Longrightarrow> Os \<subseteq> Os' \<Longrightarrow> keeps C Os' h h'"
  unfolding keeps_def using others_mono by metis

lemma keeps_bind:
  assumes "keeps C Os h (snd m)" "\<And>x. fst m = Ok x \<Longrightarrow> keeps C Os (snd m) (snd (f x (snd m)))"
  shows "keeps C Os h (snd (bind_st m f))"
  using assms keeps_trans [OF assms(1)] by (cases "fst m") (auto simp: snd_bind_st)

lemma eh_shares_onRegistry [simp]: "eh_shares (snd (onRegistry w f h)) = eh_shares h"
  and eh_shares_onKeys [simp]: "eh_shares (snd (onKeys k g h)) = eh_shares h"
  by (simp_all add: onRegistry_def onKeys_def case_prod_beta)

lemmas keeps_same = keeps_refl [OF eh_shares_onRegistry] keeps_refl [OF eh_shares_onKeys]

text \<open>A registered share that changes neither its committee nor its owner nor its index.\<close>

definition tweaks :: "SSVShare \<Rightarrow> SSVShare \<Rightarrow> bool" where
  "tweaks old new \<longleftrightarrow>
     pk new = pk old \<and> sh_Committee new = sh_Committee old \<and> sh_OwnerAddress new = sh_OwnerAddress old \<and>
     sh_committeeID new = sh_committeeID old \<and> sh_ValidatorIndex new = sh_ValidatorIndex old"

lemma tweaks_registered:
  assumes "tweaks old new"
  shows "OperatorIDs new = OperatorIDs old" "cid sha new = cid sha old" "registered C new = registered C old"
proof -
  show "OperatorIDs new = OperatorIDs old" "cid sha new = cid sha old"
    using assms by (auto simp: tweaks_def OperatorIDs_def CommitteeID_def Let_def split: option.split)
  moreover have "cid (hc_sha C) new = cid (hc_sha C) old"
    using assms by (auto simp: tweaks_def CommitteeID_def Let_def split: option.split)
  ultimately show "registered C new = registered C old"
    using assms by (simp add: registered_def tweaks_def)
qed

lemma tweak_cases [simp]:
  "tweaks s (s\<lparr>sh_Liquidated := b\<rparr>)" "tweaks s (SetMinParticipationEpoch s e)"
  by (simp_all add: tweaks_def SetMinParticipationEpoch_def)

lemma consistent_storage: "consistent C S s \<Longrightarrow> storage_ok (hc_sha C) S s"
  by (simp add: consistent_def)

lemma consistent_registry: "consistent C S s \<Longrightarrow> registry_ok (hc_sha C) S"
  by (simp add: consistent_def storage_ok_def)

lemma consistent_distinct: "consistent C S s \<Longrightarrow> distinct (map pk S)"
  by (rule registry_distinct [OF consistent_registry])

lemma consistent_get: "consistent C S s \<Longrightarrow> sharesGet s = share_of S"
  by (rule storage_lookups(1) [OF consistent_storage])

lemma consistent_share:
  "consistent C S s \<Longrightarrow> share_of S k = Some x \<longleftrightarrow> x \<in> set S \<and> pk x = k"
  by (rule share_of_iff [OF consistent_distinct])

lemma others_replaced:
  assumes "\<And>s. s \<in> set S \<Longrightarrow> pk s = pk new \<Longrightarrow> sh_OwnerAddress s \<in> Os" "sh_OwnerAddress new \<in> Os"
  shows "others Os (replaced new S) = others Os S"
  using assms by (induction S) (auto simp: others_def replaced_def)

lemma write_tweak:
  assumes ok: "consistent C S s" and old: "share_of S (pk new) = Some old" "tweaks old new" "sh_OwnerAddress old \<in> Os"
  shows "consistent C (replaced new S) (writeShare new s) \<and> others Os (replaced new S) = others Os S"
proof -
  have mem: "old \<in> set S" "pk new = pk old"
    using old consistent_share [OF ok] by (simp_all add: tweaks_def)
  have only: "s = old" if "s \<in> set S" "pk s = pk new" for s
    using that mem registry_pk [OF consistent_registry [OF ok]] by simp
  have base: "refreshing (hc_sha C) S (committee_of (hc_sha C) S) {} s"
    using ok by (simp add: consistent_def refreshing_storage_ok)
  obtain g where "refreshing (hc_sha C) (replaced new S) g {} (writeShare new s)"
    using write_refreshing [OF base mem tweaks_registered(1,2) [OF old(2)], where K' = "{}"] old(2) by (auto simp: tweaks_def)
  then have "storage_ok (hc_sha C) (replaced new S) (writeShare new s)"
    by (rule refreshing_done)
  moreover have "distinct (map fst (ss_shares (writeShare new s)))"
    using ok by (simp add: consistent_def writeShare_def comp_def case_prod_beta)
  moreover have "\<forall>x \<in> set (replaced new S). registered C x"
    using ok mem(1) tweaks_registered(3) [OF old(2), of C] by (auto simp: consistent_def set_replaced)
  moreover have "others Os (replaced new S) = others Os S"
    using only old(2,3) by (intro others_replaced) (auto simp: tweaks_def)
  ultimately show ?thesis
    by (simp add: consistent_def)
qed

section \<open>Saving and deleting\<close>

lemma splitShares_distinct: "distinct (map fst m) \<Longrightarrow> distinct (map fst (snd (splitShares shares m)))"
  by (induction shares arbitrary: m) (simp_all add: Let_def case_prod_beta distinct_update)

lemma ss_shares_onStore [simp]: "ss_shares (snd (onStore f s)) = ss_shares s"
  by (simp add: onStore_def case_prod_beta)

lemma sharesSave_distinct:
  assumes "distinct (map fst (ss_shares s))"
  shows "distinct (map fst (ss_shares (snd (sharesSave sha D Z shares s))))"
  using splitShares_distinct [OF assms, of "map the shares"] assms
  by (simp add: sharesSave_def Let_def case_prod_beta snd_bind_st split: res.split)

lemma sharesDelete_distinct:
  "distinct (map fst (ss_shares s)) \<Longrightarrow> distinct (map fst (ss_shares (snd (sharesDelete sha D k s))))"
  by (simp add: sharesDelete_def snd_bind_st distinct_delete split: option.split res.split)

lemma eh_shares_onShares [simp]: "eh_shares (snd (onShares w f h)) = snd (f (eh_shares h))"
  by (simp add: onShares_def case_prod_beta)

text \<open>Saving shares the storage has already changes nothing but the database.\<close>

lemma fold_put_same:
  assumes "registry_ok sha S" "set us \<subseteq> set S"
  shows "fold put us S = S"
  using assms(2)
proof (induction us)
  case (Cons u us)
  have "replaced u S = S"
    unfolding replaced_def using Cons.prems by (intro map_idI) (metis registry_pk [OF assms(1)] list.set_intros(1) subsetD)
  then show ?case
    using Cons by (simp add: put_def)
qed simp

lemma save_known:
  assumes ok: "consistent C S s" and us: "set us \<subseteq> set S" "distinct (map pk us)"
  shows "consistent C S (snd (sharesSave (hc_sha C) D Z (map Some us) s))"
proof -
  have same: "same_committee (hc_sha C) S u" if "u \<in> set us" for u
    using that us(1) registry_pk [OF consistent_registry [OF ok]] unfolding same_committee_def by blast
  have "fold put us S = S"
    by (rule fold_put_same [OF consistent_registry [OF ok] us(1)])
  then have "storage_ok (hc_sha C) S (snd (sharesSave (hc_sha C) D Z (map Some us) s))"
    using sharesSave_refines [OF consistent_storage [OF ok] us(2)] same consistent_registry [OF ok] by simp
  then show ?thesis
    using ok sharesSave_distinct [of s] by (simp add: consistent_def)
qed

lemma save_new:
  assumes ok: "consistent C S s" and cf: "collision_free C" and new: "registered C share" "share_of S (pk share) = None"
  shows "consistent C (S @ [share]) (snd (sharesSave (hc_sha C) D Z [Some share] s))"
proof -
  have fresh: "pk share \<notin> pk ` set S"
    using new(2) by (simp add: share_of_None)
  have same: "set (OperatorIDs s) = set (OperatorIDs s')"
    if "s \<in> set (S @ [share])" "s' \<in> set (S @ [share])" "cid (hc_sha C) s = cid (hc_sha C) s'" for s s'
  proof -
    have "registered C s" "registered C s'"
      using that(1,2) ok new(1) by (auto simp: consistent_def)
    then show ?thesis
      using that(3) cf unfolding registered_def collision_free_def by (metis Un_iff)
  qed
  have "registry_ok (hc_sha C) (S @ [share])"
    unfolding registry_ok_def
  proof (intro conjI ballI impI)
    show "distinct (map pk (S @ [share]))"
      using fresh consistent_distinct [OF ok] by simp
    show "distinct (OperatorIDs s)" if "s \<in> set (S @ [share])" for s
      using that ok new(1) by (auto simp: consistent_def registered_def)
  qed (rule same)
  moreover have "fold put [share] S = S @ [share]"
    using fresh by (simp add: put_def)
  ultimately have "storage_ok (hc_sha C) (S @ [share]) (snd (sharesSave (hc_sha C) D Z [Some share] s))"
    using sharesSave_refines [OF consistent_storage [OF ok], of "[share]" D Z] fresh by simp
  then show ?thesis
    using ok new(1) sharesSave_distinct [of s] by (simp add: consistent_def)
qed

lemma delete_share:
  assumes ok: "consistent C S s" and share: "share_of S k = Some share" "sh_OwnerAddress share \<in> Os"
  shows "consistent C (filter (\<lambda>t. pk t \<noteq> k) S) (snd (sharesDelete (hc_sha C) D k s))"
    "others Os (filter (\<lambda>t. pk t \<noteq> k) S) = others Os S"
proof -
  show "consistent C (filter (\<lambda>t. pk t \<noteq> k) S) (snd (sharesDelete (hc_sha C) D k s))"
    using sharesDelete_refines [OF consistent_storage [OF ok]] sharesDelete_distinct [of s] ok by (simp add: consistent_def)
  have "t = share" if "t \<in> set S" "pk t = k" for t
    using that consistent_share [OF ok, of k] share(1) by (metis option.inject)
  then show "others Os (filter (\<lambda>t. pk t \<noteq> k) S) = others Os S"
    using share(2) unfolding others_def filter_filter by (intro filter_cong) auto
qed

section \<open>Adding validators\<close>

lemma collectMembers_Ok:
  assumes "collectMembers J F s self keys encs i ids (share, members, enc) = Ok (share', members', enc')"
  shows "(\<exists>k. share' = share\<lparr>sh_SharePubKey := k\<rparr>) \<and>
    members' = members @ map (\<lambda>(op, key). \<lparr>Signer = op, mem_SharePubKey = key\<rparr>) (zip ids (drop i keys))"
  using assms
proof (induction ids arbitrary: i share members enc)
  case Nil
  then show ?case
    by (auto intro: exI [of _ "sh_SharePubKey share"])
next
  case (Cons op ids)
  obtain key share1 enc1 where key: "i < length keys" "key = keys ! i"
    and run: "collectMembers J F s self keys encs (i + 1) ids
       (share1, members @ [\<lparr>Signer = op, mem_SharePubKey = key\<rparr>], enc1) = Ok (share', members', enc')"
    and share1: "share1 = share \<or> (\<exists>k. share1 = share\<lparr>sh_SharePubKey := k\<rparr>)"
    using Cons.prems by (auto simp: bind_res_Ok_iff at_index_def Let_def split: if_splits)
  have "drop i keys = key # drop (i + 1) keys"
    using key by (simp add: Cons_nth_drop_Suc)
  then show ?case
    using Cons.IH [OF run] share1 by auto
qed

lemma length_splitChunks: "0 < n \<Longrightarrow> length buf = n * k \<Longrightarrow> length (splitChunks n buf) = k"
  by (induction k arbitrary: buf) (subst splitChunks.simps; simp)+

declare splitChunks.simps [simp del]

lemma validatorAddedEventToShare_Ok:
  assumes "validatorAddedEventToShare C E event keys encs h = Ok (share, enc)" and canon: "canonical_keys C"
    and len: "length keys = length (va_OperatorIds event)"
  shows "pk share = va_PublicKey event" "OperatorIDs share = va_OperatorIds event" "map mem_SharePubKey (sh_Committee share) = keys"
    "sh_OwnerAddress share = va_Owner event" "sh_committeeID share = None"
proof -
  obtain p share1 members where p: "bls_PublicKey (hc_bls C) (va_PublicKey event) = Inr p"
    and run: "collectMembers (hc_json C) (he_faults E) (eh_registry h) (GetOperatorID h) keys encs 0 (va_OperatorIds event)
        (emptyShare\<lparr>sh_ValidatorPubKey := copy_into 48 (hc_SerializePublicKey C p), sh_OwnerAddress := va_Owner event\<rparr>, [], []) =
        Ok (share1, members, enc)"
    and share: "share = share1\<lparr>sh_DomainType := hc_DomainType C, sh_Committee := members\<rparr>"
    using assms(1) by (auto simp: validatorAddedEventToShare_def DeserializeBLSPublicKey_def Let_def bind_res_Ok_iff)
  have "copy_into 48 (hc_SerializePublicKey C p) = va_PublicKey event"
    using canon p by (simp add: canonical_keys_def copy_into_def)
  then show "pk share = va_PublicKey event" "sh_OwnerAddress share = va_Owner event" "sh_committeeID share = None"
    using collectMembers_Ok [OF run] share by (auto simp: emptyShare_def)
  show "OperatorIDs share = va_OperatorIds event" "map mem_SharePubKey (sh_Committee share) = keys"
    using collectMembers_Ok [OF run] share len by (auto simp: OperatorIDs_def comp_def case_prod_beta map_fst_zip [unfolded comp_def] map_snd_zip [unfolded comp_def])
qed

lemma handleShareCreation_keeps:
  assumes canon: "canonical_keys C" and cf: "collision_free C"
    and len: "length keys = length (va_OperatorIds event)" and small: "\<forall>i \<in> set (va_OperatorIds event). i < 2 ^ 32"
    and ids: "distinct (va_OperatorIds event)" "length (va_OperatorIds event) \<in> {4, 7, 10, 13}" "length (va_Owner event) = 20"
    and valid: "ValidateSharePublicKeys (hc_bls C) (va_PublicKey event) (va_OperatorIds event) keys = Ok ()"
    and new: "sharesGet (eh_shares h) (va_PublicKey event) = None"
  shows "keeps C {va_Owner event} h (snd (handleShareCreation C K E event keys encs h))"
proof (cases "validatorAddedEventToShare C E event keys encs h")
  case (Ok se)
  obtain share enc where se: "se = (share, enc)"
    by (cases se)
  note ev = validatorAddedEventToShare_Ok [OF Ok [unfolded se] canon len]
  have reg: "registered C share"
    using ev ids small valid by (auto simp: registered_def CommitteeID_def OperatorIDs_def [symmetric] Let_def)
  define own where "own = (if BelongsToOperator share (GetOperatorID h)
      then bind_st (BLSPubKey (sh_SharePubKey share), h) (\<lambda>key h.
           bind_st (onKeys addShareError (km_AddShare K enc key) h) (\<lambda>_ h.
           bind_st (EstimatedCurrentEpoch (hc_Beacon C) (he_now E), h) (\<lambda>epoch h.
             (Ok (SetMinParticipationEpoch share (epoch + contractParticipationDelay)), h))))
      else (Ok share, h))"
  have own: "eh_shares (snd own) = eh_shares h" "fst own = Ok x \<Longrightarrow> x = share \<or> (\<exists>e. x = SetMinParticipationEpoch share e)" for x
    by (auto simp: own_def bind_st_eq split: res.splits if_splits)
  have run: "handleShareCreation C K E event keys encs h = bind_st own (\<lambda>share h.
      bind_st (onShares ''could not save validator share'' (sharesSave (hc_sha C) (he_sharesDB E) (hc_ssz C) [Some share]) h) (\<lambda>_ h. (Ok share, h)))"
    by (simp add: handleShareCreation_def Ok se own_def)
  show ?thesis
    unfolding run
  proof (rule keeps_bind)
    show "keeps C {va_Owner event} h (snd own)"
      by (rule keeps_refl [OF own(1)])
    fix x
    assume "fst own = Ok x"
    then have "tweaks share x"
      using own(2) by (auto simp: tweaks_def SetMinParticipationEpoch_def)
    then have x: "registered C x" "pk x = va_PublicKey event" "sh_OwnerAddress x = va_Owner event"
      using reg ev tweaks_registered(3) [of share x C] by (auto simp: tweaks_def)
    have "\<exists>S'. consistent C S' (snd (sharesSave (hc_sha C) (he_sharesDB E) (hc_ssz C) [Some x] (eh_shares h))) \<and>
        others {va_Owner event} S' = others {va_Owner event} S" if "consistent C S (eh_shares h)" for S
      using save_new [OF that cf x(1)] new consistent_get [OF that] x(2,3) by (intro exI [of _ "S @ [x]"]) (simp add: others_def)
    then show "keeps C {va_Owner event} (snd own) (snd (bind_st (onShares ''could not save validator share''
        (sharesSave (hc_sha C) (he_sharesDB E) (hc_ssz C) [Some x]) (snd own)) (\<lambda>_ h. (Ok x, h))))"
      by (simp add: keeps_def own(1) snd_bind_st split: res.split)
  qed
qed (simp_all add: handleShareCreation_def keeps_refl)

lemma validateOperators_Ok:
  assumes "validateOperators F s ids = Ok ()"
  shows "distinct ids" "length ids \<in> {4, 7, 10, 13}"
proof -
  have "length ids \<le> 13" "ValidCommitteeSize (word_of_nat (length ids))" "distinct ids"
    using assms by (auto simp: validateOperators_def maxOperators_def split: if_splits)
  moreover have "unat (word_of_nat (length ids) :: u64) = length ids" if "length ids \<le> 13"
    using that by (simp add: unat_of_nat)
  ultimately show "distinct ids" "length ids \<in> {4, 7, 10, 13}"
    unfolding ValidCommitteeSize_iff by auto
qed

lemma keeps_pure: "keeps C Os h (snd (r, h))"
  by (simp add: keeps_refl)

lemma handleValidatorAdded_keeps:
  assumes canon: "canonical_keys C" and cf: "collision_free C"
    and event: "length (va_Owner event) = 20" "\<forall>i \<in> set (va_OperatorIds event). i < 2 ^ 32"
  shows "keeps C {va_Owner event} h (snd (handleValidatorAdded C K E event h))"
  unfolding handleValidatorAdded_def
proof (rule keeps_bind [OF keeps_same(1)], rule keeps_bind [OF keeps_same(1)], rule keeps_bind [OF keeps_pure], goal_cases)
  case (1 nonce u v)
  define n where "n = length (va_OperatorIds event)"
  have ids: "distinct (va_OperatorIds event)" "length (va_OperatorIds event) \<in> {4, 7, 10, 13}"
    using 1(3) validateOperators_Ok by auto
  show ?case
  proof (cases "encryptedKeyLength * n + (48 * n + 96) = length (va_Shares event)")
    case True
    define keys where "keys = splitChunks 48 (drop 96 (take (48 * n + 96) (va_Shares event)))"
    have "length keys = n"
      unfolding keys_def using True by (intro length_splitChunks) simp_all
    then have create: "keeps C {va_Owner event} h' (snd (handleShareCreation C K E event keys encs h'))"
      if "ValidateSharePublicKeys (hc_bls C) (va_PublicKey event) (va_OperatorIds event) keys = Ok ()"
        "sharesGet (eh_shares h') (va_PublicKey event) = None" for encs h'
      using handleShareCreation_keeps [OF canon cf _ event(2) ids event(1) that] by (simp add: n_def)
    have lookup: "keeps C {va_Owner event} h' (snd (case sharesGet (eh_shares h') (va_PublicKey event) of
        None \<Rightarrow> handleShareCreation C K E event keys encs h'
      | Some validatorShare \<Rightarrow>
          if va_Owner event \<noteq> sh_OwnerAddress validatorShare
          then (Err (Malformed (EhErr ''share already exists and belongs to different owner'')), h') else (Ok validatorShare, h')))"
      if "ValidateSharePublicKeys (hc_bls C) (va_PublicKey event) (va_OperatorIds event) keys = Ok ()" for encs h'
      using create [OF that] by (auto simp: keeps_refl split: option.split)
    have len: "\<not> encryptedKeyLength * n + (48 * n + 96) \<noteq> length (va_Shares event)"
      using True by simp
    show ?thesis
      unfolding Let_def n_def [symmetric] if_not_P [OF len]
    proof (rule keeps_bind [OF keeps_pure], rule keeps_bind [OF keeps_pure], rule keeps_bind [OF keeps_pure],
        rule keeps_bind [OF keeps_pure], goal_cases)
      case (1 ks encs w w')
      then have ks: "ks = keys"
        by (simp add: splitBytes_def keys_def)
      show ?case
        unfolding ks by (rule keeps_bind, rule lookup, use 1(4) in \<open>simp add: ks\<close>, rule keeps_pure)
    qed
  qed (simp add: Let_def n_def keeps_refl)
qed

section \<open>Removing validators and clusters\<close>

lemma handleValidatorRemoved_keeps: "keeps C {vr_Owner event} h (snd (handleValidatorRemoved C K E event h))"
proof (cases "sharesGet (eh_shares h) (vr_PublicKey event)")
  case (Some share)
  show ?thesis
  proof (cases "vr_Owner event = sh_OwnerAddress share")
    case True
    define deleted where "deleted = onShares ''could not remove validator share'' (sharesDelete (hc_sha C) (he_sharesDB E) (pk share)) h"
    have "keeps C {vr_Owner event} h (snd deleted)"
      unfolding keeps_def
    proof (intro allI impI)
      fix S
      assume ok: "consistent C S (eh_shares h)"
      have "share_of S (pk share) = Some share"
        using Some consistent_get [OF ok] consistent_share [OF ok] by simp
      then show "\<exists>S'. consistent C S' (eh_shares (snd deleted)) \<and> others {vr_Owner event} S' = others {vr_Owner event} S"
        using delete_share [OF ok, of "pk share" share "{vr_Owner event}"] True unfolding deleted_def by auto
    qed
    moreover have "keeps C {vr_Owner event} (snd deleted) (snd (if BelongsToOperator share (GetOperatorID (snd deleted))
        then bind_st (BLSPubKey (sh_SharePubKey share), snd deleted) (\<lambda>key h.
             bind_st (onKeys (\<lambda>_. EhErr ''could not remove share from ekm storage'') (km_RemoveShare K key) h) (\<lambda>_ h.
               (Ok (Some (pk share)), h\<lparr>eh_doppelganger := hc_RemoveValidatorState C (sh_ValidatorIndex share) (eh_doppelganger h)\<rparr>)))
        else (Ok None, snd deleted)))"
      by (rule keeps_refl) (simp add: snd_bind_st split: res.split)
    ultimately show ?thesis
      using Some True by (auto simp: handleValidatorRemoved_def deleted_def [symmetric] intro: keeps_bind)
  qed (simp add: handleValidatorRemoved_def Some keeps_refl)
qed (simp add: handleValidatorRemoved_def keeps_refl)

text \<open>The shares of a list are in the registry as they are, and belong to the owners \<open>Os\<close>.\<close>

definition held :: "address set \<Rightarrow> SSVShare list \<Rightarrow> SSVShare list \<Rightarrow> bool" where
  "held Os S xs \<longleftrightarrow> (\<forall>x \<in> set xs. share_of S (pk x) = Some x \<and> sh_OwnerAddress x \<in> Os) \<and> distinct (map pk xs)"

lemma held_Cons:
  "held Os S (x # xs) \<longleftrightarrow> share_of S (pk x) = Some x \<and> sh_OwnerAddress x \<in> Os \<and> pk x \<notin> pk ` set xs \<and> held Os S xs"
  by (auto simp: held_def)

lemma held_replaced:
  assumes "held Os S xs" "pk new \<notin> pk ` set xs"
  shows "held Os (replaced new S) xs"
proof -
  have "pk x \<noteq> pk new" if "x \<in> set xs" for x
    using that assms(2) by (metis imageI)
  then show ?thesis
    using assms(1) by (simp add: held_def share_of_replaced)
qed

lemma setLiquidated_keeps:
  assumes "consistent C S s" "held Os S xs" "setLiquidated self b xs s = ((up, own), s')"
  shows "\<exists>S'. consistent C S' s' \<and> others Os S' = others Os S \<and> held Os S' up \<and> held Os S' own \<and>
    set own \<subseteq> set up \<and> map pk up = map pk xs \<and> (\<forall>k. k \<notin> pk ` set xs \<longrightarrow> share_of S' k = share_of S k)"
  using assms
proof (induction xs arbitrary: S s up own)
  case (Cons x xs)
  let ?x = "x\<lparr>sh_Liquidated := b\<rparr>"
  have x: "share_of S (pk ?x) = Some x" "sh_OwnerAddress x \<in> Os" and fresh: "pk x \<notin> pk ` set xs" and xs: "held Os S xs"
    using Cons.prems(2) by (simp_all add: held_Cons)
  obtain up1 own1 where run: "setLiquidated self b xs (writeShare ?x s) = ((up1, own1), s')"
      "up = ?x # up1" "own = (if BelongsToOperator ?x self then ?x # own1 else own1)"
    using Cons.prems(3) by (cases "setLiquidated self b xs (writeShare ?x s)") (auto simp: Let_def split: prod.splits)
  have w: "consistent C (replaced ?x S) (writeShare ?x s)" "others Os (replaced ?x S) = others Os S"
    using write_tweak [OF Cons.prems(1) x(1) tweak_cases(1) x(2)] by simp_all
  have "held Os (replaced ?x S) xs"
    using fresh by (intro held_replaced [OF xs]) simp
  then obtain S' where S': "consistent C S' s'" "others Os S' = others Os S" "held Os S' up1" "held Os S' own1"
      "set own1 \<subseteq> set up1" "map pk up1 = map pk xs" "\<forall>k. k \<notin> pk ` set xs \<longrightarrow> share_of S' k = share_of (replaced ?x S) k"
    using Cons.IH [OF w(1) _ run(1)] w(2) by metis
  have known: "pk x \<in> pk ` set S"
    using x(1) share_of_None [of S "pk x"] by auto
  have "share_of S' (pk ?x) = Some ?x"
    using S'(7) fresh known by (simp add: share_of_replaced)
  moreover have "pk ` set up1 = pk ` set xs"
    using S'(6) by (metis list.set_map)
  moreover from this S'(5) have "pk ` set own1 \<subseteq> pk ` set xs"
    by blast
  moreover from this fresh have "pk x \<notin> pk ` set own1"
    by blast
  ultimately have "held Os S' up" "held Os S' own"
    unfolding run(2,3) using S'(3,4) x(2) fresh by (simp_all add: held_Cons split: if_split)
  moreover have "share_of S' k = share_of S k" if "k \<notin> pk ` set (x # xs)" for k
    using that S'(7) by (simp add: share_of_replaced)
  moreover have "set own \<subseteq> set up" "map pk up = map pk (x # xs)"
    using S'(5,6) run(2,3) by auto
  ultimately show ?case
    using S'(1,2) by (intro exI [of _ S'] conjI allI impI)
qed (auto simp: held_def)

lemma sharesList_held:
  assumes ok: "consistent C S s" and own: "\<And>x. x \<in> set S \<Longrightarrow> list_all (\<lambda>f. f x) filters \<Longrightarrow> sh_OwnerAddress x \<in> Os"
  shows "held Os S (sharesList s filters)"
proof -
  have entries: "share_of S k = Some x" if "(k, x) \<in> set (ss_shares s)" for k x
    using that ok by (metis consistent_def storage_ok_def map_of_is_SomeI)
  have key: "map (pk \<circ> snd) (ss_shares s) = map fst (ss_shares s)"
    using entries consistent_share [OF ok] by auto
  have "distinct (map pk (map snd (ss_shares s)))"
    using ok unfolding map_map key consistent_def by simp
  then have "distinct (map pk (sharesList s filters))"
    by (simp add: sharesList_def distinct_map_filter)
  moreover have "share_of S (pk x) = Some x \<and> sh_OwnerAddress x \<in> Os" if "x \<in> set (sharesList s filters)" for x
    using that entries own consistent_share [OF ok] by (fastforce simp: sharesList_def list_all_iff)
  ultimately show ?thesis
    by (simp add: held_def)
qed

text \<open>The shares a cluster event returns are the registry's own, so that they may be written again.\<close>

lemma processClusterEvent_keeps:
  assumes cf: "collision_free C" and owner: "length owner = 20" and ok: "consistent C S (eh_shares h)"
  shows "\<exists>S'. consistent C S' (eh_shares (snd (processClusterEvent C E owner ids b h))) \<and> others {owner} S' = others {owner} S \<and>
    (\<forall>xs. fst (processClusterEvent C E owner ids b h) = Ok xs \<longrightarrow> held {owner} S' xs)"
proof -
  define shares where "shares = sharesList (eh_shares h) [ByClusterIDHash (hc_keccak C) (ComputeClusterIDHash (hc_keccak C) owner ids)]"
  obtain up own s where run: "setLiquidated (GetOperatorID h) b shares (eh_shares h) = ((up, own), s)"
    by (metis prod.collapse)
  have "held {owner} S shares"
    unfolding shares_def
  proof (rule sharesList_held [OF ok])
    fix x
    assume "x \<in> set S" "list_all (\<lambda>f. f x) [ByClusterIDHash (hc_keccak C) (ComputeClusterIDHash (hc_keccak C) owner ids)]"
    then have "length (sh_OwnerAddress x) = 20"
        "ComputeClusterIDHash (hc_keccak C) (sh_OwnerAddress x) (map Signer (sh_Committee x)) = ComputeClusterIDHash (hc_keccak C) owner ids"
      using ok by (simp_all add: consistent_def registered_def ByClusterIDHash_def)
    then show "sh_OwnerAddress x \<in> {owner}"
      using cf owner unfolding collision_free_def by blast
  qed
  from setLiquidated_keeps [OF ok this run] obtain S' where S': "consistent C S' s" "others {owner} S' = others {owner} S"
      "held {owner} S' up" "held {owner} S' own"
    by blast
  have up: "set up \<subseteq> set S'" "distinct (map pk up)"
    using S'(3) consistent_share [OF S'(1)] by (auto simp: held_def)
  show ?thesis
    using S' save_known [OF S'(1) up, of "he_sharesDB E" "hc_ssz C"]
    by (intro exI [of _ S']) (auto simp: processClusterEvent_def shares_def [symmetric] run Let_def bind_st_eq split: res.splits)
qed

lemma handleClusterLiquidated_keeps:
  assumes "collision_free C" "length (cl_Owner event) = 20"
  shows "keeps C {cl_Owner event} h (snd (handleClusterLiquidated C E event h))"
  unfolding keeps_def
proof (intro allI impI)
  fix S
  assume "consistent C S (eh_shares h)"
  from processClusterEvent_keeps [OF assms this, of E "cl_OperatorIds event" True]
  show "\<exists>S'. consistent C S' (eh_shares (snd (handleClusterLiquidated C E event h))) \<and> others {cl_Owner event} S' = others {cl_Owner event} S"
    by (auto simp: handleClusterLiquidated_def snd_bind_st map_err_st_eq split: res.split)
qed

lemma bumpReactivated_keeps:
  assumes "consistent C S (eh_shares h)" "held Os S xs"
  shows "\<exists>S'. consistent C S' (eh_shares (snd (bumpReactivated C K E xs h))) \<and> others Os S' = others Os S"
  using assms
proof (induction xs arbitrary: S h)
  case (Cons x xs)
  have x: "share_of S (pk x) = Some x" "sh_OwnerAddress x \<in> Os" "pk x \<notin> pk ` set xs" "held Os S xs"
    using Cons.prems(2) by (auto simp: held_def)
  have step: "\<exists>S'. consistent C S' (eh_shares (snd (bumpReactivated C K E xs
      (h'\<lparr>eh_shares := writeShare (SetMinParticipationEpoch x e) (eh_shares h')\<rparr>)))) \<and> others Os S' = others Os S"
    if "eh_shares h' = eh_shares h" for h' e
  proof -
    let ?x = "SetMinParticipationEpoch x e"
    have key: "pk ?x = pk x"
      by (simp add: SetMinParticipationEpoch_def)
    have w: "consistent C (replaced ?x S) (writeShare ?x (eh_shares h'))" "others Os (replaced ?x S) = others Os S"
      using write_tweak [OF Cons.prems(1), of ?x x Os] x key that by simp_all
    have "held Os (replaced ?x S) xs"
      using x(3) key by (intro held_replaced [OF x(4)]) simp
    then show ?thesis
      using Cons.IH [of "replaced ?x S" "h'\<lparr>eh_shares := writeShare ?x (eh_shares h')\<rparr>"] w by simp
  qed
  show ?case
    using Cons.prems(1) step by (auto simp: snd_bind_st split: res.split)
qed auto

lemma handleClusterReactivated_keeps:
  assumes "collision_free C" "length (cl_Owner event) = 20"
  shows "keeps C {cl_Owner event} h (snd (handleClusterReactivated C K E event h))"
  unfolding keeps_def
proof (intro allI impI)
  fix S
  assume "consistent C S (eh_shares h)"
  from processClusterEvent_keeps [OF assms this, of E "cl_OperatorIds event" False]
  obtain S' where S': "consistent C S' (eh_shares (snd (processClusterEvent C E (cl_Owner event) (cl_OperatorIds event) False h)))"
      "others {cl_Owner event} S' = others {cl_Owner event} S"
      "\<And>xs. fst (processClusterEvent C E (cl_Owner event) (cl_OperatorIds event) False h) = Ok xs \<Longrightarrow> held {cl_Owner event} S' xs"
    by blast
  show "\<exists>S'. consistent C S' (eh_shares (snd (handleClusterReactivated C K E event h))) \<and> others {cl_Owner event} S' = others {cl_Owner event} S"
    using S' bumpReactivated_keeps [OF S'(1) S'(3), of _ K E]
    by (auto simp: handleClusterReactivated_def snd_bind_st map_err_st_eq split: res.split)
qed

section \<open>Events and blocks\<close>

definition owner_if :: "string + 'ev \<Rightarrow> ('ev \<Rightarrow> address) \<Rightarrow> address set" where
  "owner_if parsed owner = (case parsed of Inl _ \<Rightarrow> {} | Inr e \<Rightarrow> {owner e})"

text \<open>The owners whose validators an event is about.\<close>

definition event_owners :: "'l eventParser \<Rightarrow> 'l ethLog \<Rightarrow> address set" where
  "event_owners L l =
     (case lg_Topics l of
        [] \<Rightarrow> {}
      | topic # _ \<Rightarrow>
          (case ep_EventByID L topic of
             Inl _ \<Rightarrow> {}
           | Inr name \<Rightarrow>
               if name = ''ValidatorAdded'' then owner_if (ep_ParseValidatorAdded L l) va_Owner
               else if name = ''ValidatorRemoved'' then owner_if (ep_ParseValidatorRemoved L l) vr_Owner
               else if name = ''ClusterLiquidated'' then owner_if (ep_ParseClusterLiquidated L l) cl_Owner
               else if name = ''ClusterReactivated'' then owner_if (ep_ParseClusterReactivated L l) cl_Owner
               else {}))"

lemma runHandler_keeps:
  assumes "\<And>e. parsed = Inr e \<Longrightarrow> keeps C Os h (snd (handle e h))"
  shows "keeps C Os h (snd (runHandler name parsed handle task h))"
proof (cases parsed)
  case (Inr e)
  then show ?thesis
    using assms [OF Inr] by (cases "handle e h") (auto simp: runHandler_def split: res.split)
qed (simp add: runHandler_def keeps_refl)

lemma registry_handlers_keep:
  "keeps C Os h (snd (handleOperatorAdded C E oa h))"
  "keeps C Os h (snd (handleOperatorRemoved C E orem h))"
  "keeps C Os h (snd (handleFeeRecipientAddressUpdated C E fr h))"
proof -
  show "keeps C Os h (snd (handleOperatorAdded C E oa h))"
    unfolding handleOperatorAdded_def Let_def
    by (intro keeps_bind keeps_same) (auto intro!: keeps_bind keeps_same keeps_refl [of "h'\<lparr>eh_operatorData := od\<rparr>" h' for h' od] keeps_pure [unfolded snd_conv] split: option.split)
  show "keeps C Os h (snd (handleOperatorRemoved C E orem h))"
    unfolding handleOperatorRemoved_def by (intro keeps_bind keeps_same) (simp add: keeps_refl)
  show "keeps C Os h (snd (handleFeeRecipientAddressUpdated C E fr h))"
    unfolding handleFeeRecipientAddressUpdated_def by (intro keeps_bind keeps_same) (simp add: keeps_refl)
qed

lemma owner_handlers_keep:
  assumes "canonical_keys C" "collision_free C" "parser_ok L"
  shows "keeps C (owner_if (ep_ParseValidatorAdded L l) va_Owner) h (snd (runHandler n1 (ep_ParseValidatorAdded L l) (handleValidatorAdded C K E) t1 h))"
    "keeps C (owner_if (ep_ParseValidatorRemoved L l) vr_Owner) h (snd (runHandler n2 (ep_ParseValidatorRemoved L l) (handleValidatorRemoved C K E) t2 h))"
    "keeps C (owner_if (ep_ParseClusterLiquidated L l) cl_Owner) h (snd (runHandler n3 (ep_ParseClusterLiquidated L l) (handleClusterLiquidated C E) t3 h))"
    "keeps C (owner_if (ep_ParseClusterReactivated L l) cl_Owner) h (snd (runHandler n3 (ep_ParseClusterReactivated L l) (handleClusterReactivated C K E) t3 h))"
  using assms(3) unfolding parser_ok_def
  by (auto simp: owner_if_def intro!: runHandler_keeps handleValidatorAdded_keeps [OF assms(1,2)] handleValidatorRemoved_keeps
      handleClusterLiquidated_keeps [OF assms(2)] handleClusterReactivated_keeps [OF assms(2)])

lemma processEvent_keeps:
  assumes "canonical_keys C" "collision_free C" "parser_ok L"
  shows "keeps C (event_owners L l) h (snd (processEvent C K L E l h))"
proof (cases "lg_Topics l")
  case (Cons topic rest)
  show ?thesis
  proof (cases "ep_EventByID L topic")
    case (Inr name)
    note unfolded = processEvent_def event_owners_def Cons Inr owner_handlers_keep [OF assms]
      runHandler_keeps registry_handlers_keep
    consider "name = ''OperatorAdded''" | "name = ''OperatorRemoved''" | "name = ''ValidatorAdded''" | "name = ''ValidatorRemoved''"
      | "name = ''ClusterLiquidated''" | "name = ''ClusterReactivated''" | "name = ''FeeRecipientAddressUpdated''"
      | "name = ''ValidatorExited''"
      | "name \<noteq> ''OperatorAdded''" "name \<noteq> ''OperatorRemoved''" "name \<noteq> ''ValidatorAdded''" "name \<noteq> ''ValidatorRemoved''"
        "name \<noteq> ''ClusterLiquidated''" "name \<noteq> ''ClusterReactivated''" "name \<noteq> ''FeeRecipientAddressUpdated''"
        "name \<noteq> ''ValidatorExited''"
      by blast
    then show ?thesis
      by cases (simp_all add: unfolded keeps_refl)
  qed (simp add: processEvent_def Cons keeps_refl)
qed (simp add: processEvent_def keeps_refl)

lemma processLogs_keeps:
  assumes "canonical_keys C" "collision_free C" "parser_ok L"
  shows "keeps C (\<Union>(E, l) \<in> set ls. event_owners L l) h (snd (processLogs C K L ls h))"
proof (induction ls arbitrary: h)
  case (Cons El ls)
  obtain E l where El: "El = (E, l)"
    by (cases El)
  let ?Os = "\<Union>(E, l) \<in> set (El # ls). event_owners L l"
  have "keeps C ?Os h (snd (processEvent C K L E l h))"
    by (rule keeps_mono [OF processEvent_keeps [OF assms]]) (auto simp: El)
  moreover have "keeps C ?Os h' (snd (processLogs C K L ls h'))" for h'
    by (rule keeps_mono [OF Cons.IH]) auto
  ultimately show ?case
    unfolding El processLogs.simps by (intro keeps_bind) (auto simp: keeps_refl)
qed (simp add: keeps_refl)

text \<open>Beginning, committing and discarding leave the shares in memory.\<close>

lemma txn_keeps: "keeps C Os h (beginTxn h)" "keeps C Os h (commitTxn h)" "keeps C Os h (discardTxn K before h)"
  by (simp_all add: keeps_memory beginTxn_def commitTxn_def discardTxn_def)

lemma processBlockEvents_keeps:
  assumes "canonical_keys C" "collision_free C" "parser_ok L"
  shows "keeps C (\<Union>(E, l) \<in> set (bl_Logs block). event_owners L l) h (snd (processBlockEvents C K L block h))"
proof -
  let ?Os = "\<Union>(E, l) \<in> set (bl_Logs block). event_owners L l"
  define body where "body = bind_st (onRegistry ''get last processed block'' (\<lambda>s. (GetLastProcessedBlock (bl_faults block) s, s)) (beginTxn h)) (\<lambda>lastBlock h.
      if word_of_nat (case lastBlock of None \<Rightarrow> 0 | Some n \<Rightarrow> n) \<ge> bl_BlockNumber block
      then (Err (EhErr ''block is not higher than the last processed block''), h)
      else bind_st (processLogs C K L (bl_Logs block) h) (\<lambda>tasks h.
           bind_st (onRegistry ''set last processed block'' (SaveLastProcessedBlock (bl_faults block) (bl_BlockNumber block)) h) (\<lambda>_ h.
             case kf_Commit (bl_faults block) of
               Some e \<Rightarrow> (Err (EhWrap ''commit transaction'' (EhErr e)), h)
             | None \<Rightarrow> (Ok tasks, commitTxn h))))"
  have "keeps C ?Os (beginTxn h) (snd body)"
    unfolding body_def
    by (rule keeps_bind [OF keeps_same(1)])
      (auto intro!: keeps_bind processLogs_keeps [OF assms] keeps_same txn_keeps keeps_pure [unfolded snd_conv] simp del: eh_shares_onRegistry split: option.split)
  then have "keeps C ?Os h (snd body)"
    using keeps_trans txn_keeps(1) by blast
  then show ?thesis
    using keeps_trans [OF _ txn_keeps(3)] by (auto simp: processBlockEvents_def body_def [symmetric] Let_def case_prod_beta split: res.split)
qed

text \<open>C41: The events of a block keep the shares of the node and their indices a registry of valid committees,
  and change only the validators of the owners the events are about. A share is registered only if its
  operators are distinct, make a committee of 4, 7, 10 or 13, and hold keys that combine to the key of the
  validator. The block may succeed, fail at any event, be refused as old or panic, the database and the key
  manager may fail at any call, and the transaction may be discarded: what is in memory afterwards is such a
  registry, its lookups by key, operator and committee agree, and the shares of every other owner are as
  they were. Keys are assumed to have one encoding, the two hashes to have no collisions on what is hashed,
  and the parsed owners to be addresses.\<close>

theorem block_keeps_registry:
  assumes "canonical_keys C" "collision_free C" "parser_ok L" "consistent C S (eh_shares h)"
    and "Os = (\<Union>(E, l) \<in> set (bl_Logs block). event_owners L l)"
  shows "\<exists>S'. consistent C S' (eh_shares (snd (processBlockEvents C K L block h))) \<and> others Os S' = others Os S"
  using processBlockEvents_keeps [OF assms(1-3), of block h K] assms(4,5) by (simp add: keeps_def)

section \<open>Two owners\<close>

lemma le_bytes_4_inj:
  assumes "le_bytes 4 a = le_bytes 4 b" "a < 2 ^ 32" "b < 2 ^ 32"
  shows "a = b"
proof (rule bit_word_eqI)
  fix n
  assume "n < LENGTH(64)"
  have small: "\<not> bit w n" if "w < 2 ^ 32" "32 \<le> n" for w :: u64
  proof -
    have "take_bit 32 w = w"
      unfolding take_bit_eq_mask by (rule less_mask_eq [OF that(1)])
    then show ?thesis
      using that(2) by (metis bit_take_bit_iff not_le)
  qed
  show "bit a n = bit b n"
  proof (cases "n < 32")
    case True
    have "map (\<lambda>i. ucast (drop_bit (8 * i) a) :: 8 word) [0..<4] ! (n div 8) = map (\<lambda>i. ucast (drop_bit (8 * i) b)) [0..<4] ! (n div 8)"
      using assms(1) by (simp only: le_bytes_def)
    moreover have "[0..<4] ! (n div 8) = n div 8"
      using nth_upt [of 0 "n div 8" 4] True by simp
    ultimately have "(ucast (drop_bit (8 * (n div 8)) a) :: 8 word) = ucast (drop_bit (8 * (n div 8)) b)"
      using True by simp
    then have "bit (ucast (drop_bit (8 * (n div 8)) a) :: 8 word) (n mod 8) = bit (ucast (drop_bit (8 * (n div 8)) b) :: 8 word) (n mod 8)"
      by simp
    then show ?thesis
      by (simp add: bit_ucast_iff bit_drop_bit_eq)
  qed (use small assms in auto)
qed

lemma chunks_eq:
  assumes "concat (map f xs) = concat (map f ys)" "\<And>x. length (f x) = Suc k"
  shows "map f xs = map f ys"
  using assms(1)
proof (induction xs arbitrary: ys)
  case Nil
  then show ?case
    using assms(2) by (cases ys) (auto dest: arg_cong [where f = length])
next
  case (Cons x xs)
  then obtain y ys' where ys: "ys = y # ys'"
    using assms(2) [of x] by (cases ys) (auto dest: arg_cong [where f = length])
  then have "f x = f y \<and> concat (map f xs) = concat (map f ys')"
    using Cons.prems assms(2) by simp
  then show ?case
    using Cons.IH [of ys'] ys by simp
qed

lemma committee_bytes_inj:
  assumes "\<forall>i \<in> set ids \<union> set ids'. i < 2 ^ 32" "ComputeCommitteeID (\<lambda>b. b) ids = ComputeCommitteeID (\<lambda>b. b) ids'"
  shows "set ids = set ids'"
proof -
  have "map (le_bytes 4) (sort ids) = map (le_bytes 4) (sort ids')"
    using assms(2) by (intro chunks_eq [where k = 3]) (simp_all add: ComputeCommitteeID_def le_bytes_def)
  moreover have "inj_on (le_bytes 4) (set (sort ids) \<union> set (sort ids'))"
    using assms(1) le_bytes_4_inj by (auto intro!: inj_onI)
  ultimately have "sort ids = sort ids'"
    by (rule map_inj_on)
  then show ?thesis
    by (metis set_sort)
qed

text \<open>Keys of 48 bytes; three of them or more recover the key of the validator. A hash is its input.\<close>

definition demo_bls :: "(bytes, unit, unit) bls" where
  "demo_bls = \<lparr>bls_PublicKey = (\<lambda>b. if length b = 48 then Inr b else Inl ''length''), bls_Sign = (\<lambda>_. Inr ()), bls_ID = (\<lambda>_. Inr ()),
     bls_VerifyByte = (\<lambda>_ _ _. True), bls_RecoverSign = (\<lambda>_ _. Inr ()),
     bls_RecoverPublicKey = (\<lambda>keys _. Inr (if length keys < 3 then [] else hd keys)), bls_IsEqual = (=), bls_Serialize = (\<lambda>_. [])\<rparr>"

definition demo_json :: jsonAPI where
  "demo_json = \<lparr>j_MarshalOperator = (\<lambda>_. Inr []), j_UnmarshalOperator = (\<lambda>_. Inl ''syntax''),
     j_MarshalRecipient = (\<lambda>_. Inr []), j_UnmarshalRecipient = (\<lambda>_. Inl ''syntax'')\<rparr>"

definition demo_handler_config :: "(bytes, unit, unit, unit) ehConfig" where
  "demo_handler_config = \<lparr>hc_bls = demo_bls, hc_SerializePublicKey = (\<lambda>b. b), hc_sha = (\<lambda>b. b), hc_keccak = (\<lambda>b. b),
     hc_AddressString = (\<lambda>b. b), hc_json = demo_json, hc_ssz = demo_ssz, hc_DomainType = [0, 0, 0, 1], hc_Beacon = demo_Beacon,
     hc_RemoveValidatorState = (\<lambda>_ g. g)\<rparr>"

definition demo_key_manager :: "unit keyManagerI" where
  "demo_key_manager = \<lparr>km_AddShare = (\<lambda>_ _ k. (Ok (), k)), km_RemoveShare = (\<lambda>_ k. (Ok (), k)),
     km_BumpSlashingProtection = (\<lambda>_ k. (Ok (), k)), km_Discard = (\<lambda>_ k. k)\<rparr>"

definition no_faults :: kvFaults where
  "no_faults = \<lparr>kf_Get = (\<lambda>_. None), kf_Set = (\<lambda>_. None), kf_Delete = (\<lambda>_. None), kf_Commit = None\<rparr>"

text \<open>Two validators of the same operators and of different owners.\<close>

definition owned_share :: "8 word \<Rightarrow> SSVShare" where
  "owned_share b = emptyShare\<lparr>sh_ValidatorPubKey := replicate 48 b, sh_OwnerAddress := replicate 20 b,
     sh_Committee := map (\<lambda>i. \<lparr>Signer = i, mem_SharePubKey = replicate 48 b\<rparr>) [1, 2, 3, 4]\<rparr>"

definition demo_handler :: "(unit, unit, unit) EventHandler" where
  "demo_handler =
     \<lparr>eh_registry = \<lparr>rg_committed = (\<lambda>_. None), rg_txn = (\<lambda>_. None), rg_pubkeyIdx = (\<lambda>_. None), rg_feeRecipients = (\<lambda>_. None)\<rparr>,
      eh_shares = snd (sharesSave (\<lambda>b. b) demo_db demo_ssz [Some (owned_share 2)]
                    (snd (sharesSave (\<lambda>b. b) demo_db demo_ssz [Some (owned_share 1)] demo_storage))),
      eh_operatorData = None, eh_keyManager = (), eh_doppelganger = ()\<rparr>"

definition demo_parser :: "unit eventParser" where
  "demo_parser = \<lparr>ep_EventByID = (\<lambda>_. Inr ''ClusterLiquidated''), ep_ParseOperatorAdded = (\<lambda>_. Inl ''''), ep_ParseOperatorRemoved = (\<lambda>_. Inl ''''),
     ep_ParseValidatorAdded = (\<lambda>_. Inl ''''), ep_ParseValidatorRemoved = (\<lambda>_. Inl ''''),
     ep_ParseClusterLiquidated = (\<lambda>_. Inr \<lparr>cl_Owner = replicate 20 1, cl_OperatorIds = [4, 3, 2, 1]\<rparr>),
     ep_ParseClusterReactivated = (\<lambda>_. Inl ''''), ep_ParseFeeRecipientAddressUpdated = (\<lambda>_. Inl ''''), ep_ParseValidatorExited = (\<lambda>_. Inl '''')\<rparr>"

definition demo_block :: "(unit, unit) BlockLogs" where
  "demo_block = \<lparr>bl_BlockNumber = 5, bl_Logs = [(\<lparr>he_now = 0, he_faults = no_faults, he_sharesDB = demo_db\<rparr>, \<lparr>lg_Topics = [[]], lg_Data = ()\<rparr>)],
     bl_faults = no_faults\<rparr>"

lemma demo_config_ok: "canonical_keys demo_handler_config" "collision_free demo_handler_config" "parser_ok demo_parser"
  using committee_bytes_inj
  by (auto simp: canonical_keys_def collision_free_def parser_ok_def demo_handler_config_def demo_bls_def demo_parser_def
      ComputeClusterIDHash_def split: if_splits)

lemma owned_registered: "registered demo_handler_config (owned_share 1)" "registered demo_handler_config (owned_share 2)"
  by code_simp+

lemma demo_consistent: "consistent demo_handler_config [owned_share 1, owned_share 2] (eh_shares demo_handler)"
proof -
  let ?C = demo_handler_config
  have new: "NewSharesStorage (hc_sha ?C) demo_db demo_ssz [] () = Ok demo_storage"
    by code_simp
  have base: "consistent ?C [] demo_storage"
    using NewSharesStorage_refines [OF new] registry_Nil by (simp add: consistent_def demo_storage_def)
  have "consistent ?C ([] @ [owned_share 1]) (snd (sharesSave (hc_sha ?C) demo_db demo_ssz [Some (owned_share 1)] demo_storage))"
    by (rule save_new [OF base demo_config_ok(2) owned_registered(1)]) (simp add: share_of_None)
  from save_new [OF this demo_config_ok(2) owned_registered(2), of demo_db demo_ssz]
  show ?thesis
    by (simp add: demo_handler_def demo_handler_config_def share_of_def owned_share_def)
qed

theorem block_keeps_registry_witness:
  "\<exists>S'. consistent demo_handler_config S' (eh_shares (snd (processBlockEvents demo_handler_config demo_key_manager demo_parser demo_block demo_handler))) \<and>
     others {replicate 20 1} S' = [owned_share 2] \<and>
     map (sh_Liquidated \<circ> snd) (ss_shares (eh_shares (snd (processBlockEvents demo_handler_config demo_key_manager demo_parser demo_block demo_handler)))) = [True, False]"
proof -
  have owners: "{replicate 20 1} = (\<Union>(E, l) \<in> set (bl_Logs demo_block). event_owners demo_parser l)"
    by (simp add: demo_block_def demo_parser_def event_owners_def owner_if_def)
  have "others {replicate 20 1} [owned_share 1, owned_share 2] = [owned_share 2]"
    by (simp add: others_def owned_share_def)
  moreover have "map (sh_Liquidated \<circ> snd) (ss_shares (eh_shares (snd (processBlockEvents demo_handler_config demo_key_manager demo_parser demo_block demo_handler)))) = [True, False]"
    by code_simp
  ultimately show ?thesis
    using block_keeps_registry [OF demo_config_ok demo_consistent owners, of demo_key_manager] by auto
qed

end
