(* ===== verification/Message_Queue.thy ===== *)
theory Message_Queue
  imports Messages "HOL-Library.Product_Lexorder"
begin

text \<open>
  The queue between the network and a duty runner, \<open>protocol/v2/ssv/queue\<close>: \<open>queue.go\<close> with its buffered
  inbox and linked list, and the prioritizers of \<open>message_prioritizer.go\<close> with the scores of
  \<open>messages.go\<close>. Prioritizers and filters are arguments of the queue as in the code. A Go \<open>int\<close> score is an
  \<open>int\<close>; times are nanoseconds. The observers, which record metrics, are left out.
\<close>

section \<open>Scores\<close>

record queueState =
  qs_HasRunningInstance :: bool
  qs_Round :: Round
  qs_Slot :: u64
  qs_Quorum :: u64

definition compareHeightOrSlot :: "queueState \<Rightarrow> DecodedMsg \<Rightarrow> int" where
  "compareHeightOrSlot st m =
     (case dm_Body m of
        Some (ConsensusBody qbftMsg) \<Rightarrow>
          if m_Height qbftMsg = qs_Slot st then 0 else if m_Height qbftMsg > qs_Slot st then 1 else - 1
      | Some (PartialBody pms) \<Rightarrow>
          if ps_Slot pms = qs_Slot st then 0 else if ps_Slot pms > qs_Slot st then 1 else - 1
      | _ \<Rightarrow> - 1)"

definition scoreRound :: "queueState \<Rightarrow> DecodedMsg \<Rightarrow> int" where
  "scoreRound st m =
     (case dm_Body m of
        Some (ConsensusBody qbftMsg) \<Rightarrow>
          if m_Round qbftMsg = qs_Round st then 2 else if m_Round qbftMsg > qs_Round st then 1 else - 1
      | _ \<Rightarrow> 0)"

definition scoreMessageType :: "DecodedMsg \<Rightarrow> int" where
  "scoreMessageType m =
     (case dm_Body m of
        Some (EventBody mm) \<Rightarrow> (case ev_Type mm of ExecuteDuty \<Rightarrow> 3 | Timeout \<Rightarrow> 2 | OtherEventType _ \<Rightarrow> 0)
      | _ \<Rightarrow> 0)"

record messageClassification =
  isConsensusMessage :: bool
  isPreConsensusMessage :: bool
  isPostConsensusMessage :: bool
  consensusMsgType :: "MessageType option"

text \<open>The type of a consensus message is only read where there is one; its zero value is \<open>None\<close>.\<close>

definition classifyMessage :: "DecodedMsg \<Rightarrow> messageClassification" where
  "classifyMessage m =
     (case dm_Body m of
        Some (ConsensusBody mm) \<Rightarrow>
          \<lparr>isConsensusMessage = True, isPreConsensusMessage = False, isPostConsensusMessage = False,
           consensusMsgType = Some (m_MsgType mm)\<rparr>
      | Some (PartialBody mm) \<Rightarrow>
          \<lparr>isConsensusMessage = False, isPreConsensusMessage = (ps_Type mm \<noteq> PostConsensusPartialSig),
           isPostConsensusMessage = (ps_Type mm = PostConsensusPartialSig), consensusMsgType = None\<rparr>
      | _ \<Rightarrow>
          \<lparr>isConsensusMessage = False, isPreConsensusMessage = False, isPostConsensusMessage = False,
           consensusMsgType = None\<rparr>)"

text \<open>Reading the operators of a message without its signed form panics.\<close>

definition isDecidedMessage :: "queueState \<Rightarrow> DecodedMsg \<Rightarrow> ('e, bool) res" where
  "isDecidedMessage s m =
     (case dm_Body m of
        Some (ConsensusBody consensusMessage) \<Rightarrow>
          if m_MsgType consensusMessage = CommitMsgType
          then bind_res (deref (dm_Signed m)) (\<lambda>signed. Ok (word_of_nat (length (w_OperatorIDs signed)) > qs_Quorum s))
          else Ok False
      | _ \<Rightarrow> Ok False)"

definition scoreMessageSubtype :: "queueState \<Rightarrow> DecodedMsg \<Rightarrow> int \<Rightarrow> ('e, int) res" where
  "scoreMessageSubtype st m relativeHeight =
     (let c = classifyMessage m
      in if relativeHeight = 0
         then if qs_HasRunningInstance st
              then Ok (if isConsensusMessage c then 3 else if isPreConsensusMessage c then 2
                       else if isPostConsensusMessage c then 1 else 0)
              else Ok (if isPreConsensusMessage c then 3 else if isPostConsensusMessage c then 2
                       else if isConsensusMessage c then 1 else 0)
         else if relativeHeight = 1
         then bind_res (isDecidedMessage st m) (\<lambda>decided.
                Ok (if decided then 4 else if isPreConsensusMessage c then 3 else if isConsensusMessage c then 2
                    else if isPostConsensusMessage c then 1 else 0))
         else bind_res (isDecidedMessage st m) (\<lambda>decided.
                Ok (if decided then 2
                    else if isConsensusMessage c \<and> consensusMsgType c = Some CommitMsgType then 1 else 0)))"

definition scoreConsensusType :: "DecodedMsg \<Rightarrow> int" where
  "scoreConsensusType m =
     (case dm_Body m of
        Some (ConsensusBody qbftMsg) \<Rightarrow>
          (if m_MsgType qbftMsg = ProposalMsgType then 4 else if m_MsgType qbftMsg = PrepareMsgType then 3
           else if m_MsgType qbftMsg = CommitMsgType then 2 else if m_MsgType qbftMsg = RoundChangeMsgType then 1 else 0)
      | _ \<Rightarrow> 0)"

text \<open>The case of a post-consensus message comes before the call that may panic.\<close>

definition scoreCommitteeMessageSubtype :: "queueState \<Rightarrow> DecodedMsg \<Rightarrow> int \<Rightarrow> ('e, int) res" where
  "scoreCommitteeMessageSubtype st m relativeHeight =
     (let c = classifyMessage m
      in if relativeHeight = 0
         then if qs_HasRunningInstance st
              then Ok (if isPostConsensusMessage c then 4 else if isConsensusMessage c then 3
                       else if isPreConsensusMessage c then 2 else 0)
              else Ok (if isPostConsensusMessage c then 3 else if isPreConsensusMessage c then 2
                       else if isConsensusMessage c then 1 else 0)
         else if relativeHeight = 1
         then if isPostConsensusMessage c then Ok 4
              else bind_res (isDecidedMessage st m) (\<lambda>decided.
                Ok (if decided then 3 else if isPreConsensusMessage c then 2 else if isConsensusMessage c then 1 else 0))
         else bind_res (isDecidedMessage st m) (\<lambda>decided.
                Ok (if decided then 2
                    else if isConsensusMessage c \<and> consensusMsgType c = Some CommitMsgType then 1 else 0)))"

definition scoreHeight :: "int \<Rightarrow> int" where
  "scoreHeight relativeHeight =
     (if relativeHeight = 0 then 2 else if relativeHeight = 1 then 1 else if relativeHeight = - 1 then 0 else 0)"

section \<open>Prioritizers\<close>

definition standardPrior :: "queueState \<Rightarrow> DecodedMsg \<Rightarrow> DecodedMsg \<Rightarrow> ('e, bool) res" where
  "standardPrior st a b =
     (if scoreMessageType a \<noteq> scoreMessageType b then Ok (scoreMessageType a > scoreMessageType b)
      else let heightA = compareHeightOrSlot st a; heightB = compareHeightOrSlot st b
           in if heightA \<noteq> heightB then Ok (scoreHeight heightA > scoreHeight heightB)
              else bind_res (scoreMessageSubtype st a heightA) (\<lambda>scoreA.
                   bind_res (scoreMessageSubtype st b heightB) (\<lambda>scoreB.
                   if scoreA \<noteq> scoreB then Ok (scoreA > scoreB)
                   else if scoreRound st a \<noteq> scoreRound st b then Ok (scoreRound st a > scoreRound st b)
                   else if scoreConsensusType a \<noteq> scoreConsensusType b
                   then Ok (scoreConsensusType a > scoreConsensusType b)
                   else Ok True)))"

definition committeePrior :: "queueState \<Rightarrow> DecodedMsg \<Rightarrow> DecodedMsg \<Rightarrow> ('e, bool) res" where
  "committeePrior st a b =
     (if scoreMessageType a \<noteq> scoreMessageType b then Ok (scoreMessageType a > scoreMessageType b)
      else let heightA = compareHeightOrSlot st a; heightB = compareHeightOrSlot st b
           in if heightA \<noteq> heightB then Ok (scoreHeight heightA > scoreHeight heightB)
              else bind_res (scoreCommitteeMessageSubtype st a heightA) (\<lambda>scoreA.
                   bind_res (scoreCommitteeMessageSubtype st b heightB) (\<lambda>scoreB.
                   if scoreA \<noteq> scoreB then Ok (scoreA > scoreB)
                   else if scoreConsensusType a \<noteq> scoreConsensusType b
                   then Ok (scoreConsensusType a > scoreConsensusType b)
                   else Ok True)))"

section \<open>The queue\<close>

text \<open>The linked list from its head, and the inbox, a channel with its oldest message first.\<close>

record priorityQueue =
  pq_items :: "DecodedMsg list"
  pq_inbox :: "DecodedMsg list"
  pq_capacity :: nat
  pq_lastRead :: int

type_synonym 'e prior = "DecodedMsg \<Rightarrow> DecodedMsg \<Rightarrow> ('e, bool) res"

definition inboxReadFrequency :: int where "inboxReadFrequency = 1000000"

definition FilterAny :: "DecodedMsg \<Rightarrow> bool" where "FilterAny m = True"

definition NewQueue :: "nat \<Rightarrow> priorityQueue" where
  "NewQueue capacity = \<lparr>pq_items = [], pq_inbox = [], pq_capacity = capacity, pq_lastRead = 0\<rparr>"

text \<open>\<open>Push\<close> blocks while the inbox is full, which is \<open>None\<close>.\<close>

definition Push :: "DecodedMsg \<Rightarrow> priorityQueue \<Rightarrow> priorityQueue option" where
  "Push msg q = (if length (pq_inbox q) < pq_capacity q then Some (q\<lparr>pq_inbox := pq_inbox q @ [msg]\<rparr>) else None)"

definition TryPush :: "DecodedMsg \<Rightarrow> priorityQueue \<Rightarrow> bool \<times> priorityQueue" where
  "TryPush msg q =
     (if length (pq_inbox q) < pq_capacity q then (True, q\<lparr>pq_inbox := pq_inbox q @ [msg]\<rparr>) else (False, q))"

text \<open>The loop of \<open>readInbox\<close>; the list is empty or not, the message becomes its head.\<close>

fun drainInbox :: "DecodedMsg list \<Rightarrow> DecodedMsg list \<Rightarrow> DecodedMsg list" where
  "drainInbox [] items = items"
| "drainInbox (msg # msgs) items = drainInbox msgs (msg # items)"

definition readInbox :: "int \<Rightarrow> priorityQueue \<Rightarrow> priorityQueue" where
  "readInbox now q = q\<lparr>pq_items := drainInbox (pq_inbox q) (pq_items q), pq_inbox := [], pq_lastRead := now\<rparr>"

text \<open>The loop of \<open>pop\<close> over the items after the first; \<open>highest\<close> is a position and its message.\<close>

fun scanItems ::
    "'e prior \<Rightarrow> (DecodedMsg \<Rightarrow> bool) \<Rightarrow> DecodedMsg list \<Rightarrow> nat \<Rightarrow> (nat \<times> DecodedMsg) option
       \<Rightarrow> ('e, (nat \<times> DecodedMsg) option) res" where
  "scanItems prior f [] i highest = Ok highest"
| "scanItems prior f (m # ms) i highest =
     bind_res (case highest of None \<Rightarrow> Ok True | Some (_, h) \<Rightarrow> prior m h) (\<lambda>p.
       scanItems prior f ms (i + 1) (if p \<and> f m then Some (i, m) else highest))"

definition popItem ::
    "'e prior \<Rightarrow> (DecodedMsg \<Rightarrow> bool) \<Rightarrow> DecodedMsg list \<Rightarrow> ('e, DecodedMsg option \<times> DecodedMsg list) res" where
  "popItem prior f items =
     (case items of
        [] \<Rightarrow> Panic
      | [m] \<Rightarrow> if f m then Ok (Some m, []) else Ok (None, items)
      | m # ms \<Rightarrow>
          bind_res (scanItems prior f ms 1 (if f m then Some (0, m) else None)) (\<lambda>highest.
            case highest of
              None \<Rightarrow> Ok (None, items)
            | Some (i, h) \<Rightarrow> Ok (Some h, take i items @ drop (i + 1) items)))"

definition popQueue ::
    "'e prior \<Rightarrow> (DecodedMsg \<Rightarrow> bool) \<Rightarrow> priorityQueue \<Rightarrow> ('e, DecodedMsg option \<times> priorityQueue) res" where
  "popQueue prior f q =
     (if pq_items q \<noteq> []
      then bind_res (popItem prior f (pq_items q)) (\<lambda>(m, items). Ok (m, q\<lparr>pq_items := items\<rparr>))
      else Ok (None, q))"

definition TryPop ::
    "int \<Rightarrow> 'e prior \<Rightarrow> (DecodedMsg \<Rightarrow> bool) \<Rightarrow> priorityQueue \<Rightarrow> ('e, DecodedMsg option \<times> priorityQueue) res" where
  "TryPop now prior f q = popQueue prior f (readInbox now q)"

text \<open>
  What happens while \<open>Pop\<close> waits: another goroutine pushes, the loop receives the oldest message of the
  inbox, or its context is cancelled. Where both branches of the \<open>select\<close> are ready the schedule says which
  is taken; a schedule that ends leaves \<open>Pop\<close> waiting.
\<close>

datatype wait_event = Pushed DecodedMsg | Received | Cancelled

fun waitLoop :: "(DecodedMsg \<Rightarrow> bool) \<Rightarrow> wait_event list \<Rightarrow> priorityQueue \<Rightarrow> priorityQueue option" where
  "waitLoop f [] q = None"
| "waitLoop f (Pushed m # es) q = waitLoop f es (case Push m q of Some q' \<Rightarrow> q' | None \<Rightarrow> q)"
| "waitLoop f (Cancelled # es) q = Some q"
| "waitLoop f (Received # es) q =
     (case pq_inbox q of
        [] \<Rightarrow> waitLoop f es q
      | m # ms \<Rightarrow>
          let q' = q\<lparr>pq_items := m # pq_items q, pq_inbox := ms\<rparr>
          in if f m then Some q' else waitLoop f es q')"

text \<open>\<open>Ok None\<close> says that \<open>Pop\<close> is still waiting at the end of the schedule.\<close>

definition Pop ::
    "int \<Rightarrow> 'e prior \<Rightarrow> (DecodedMsg \<Rightarrow> bool) \<Rightarrow> wait_event list \<Rightarrow> int \<Rightarrow> priorityQueue
       \<Rightarrow> ('e, (DecodedMsg option \<times> priorityQueue) option) res" where
  "Pop now prior f events later q =
     bind_res (popQueue prior f (if now - pq_lastRead q > inboxReadFrequency then readInbox now q else q)) (\<lambda>(m, q).
       if m \<noteq> None then Ok (Some (m, q))
       else case waitLoop f events q of
              None \<Rightarrow> Ok None
            | Some q \<Rightarrow> bind_res (popQueue prior f (readInbox later q)) (\<lambda>r. Ok (Some r)))"

text \<open>The messages handed to \<open>onRemoved\<close>, in its order; their number is the result in the code.\<close>

fun purgeItems :: "(DecodedMsg \<Rightarrow> bool) \<Rightarrow> DecodedMsg list \<Rightarrow> DecodedMsg list \<times> DecodedMsg list" where
  "purgeItems shouldDrop [] = ([], [])"
| "purgeItems shouldDrop (m # ms) =
     (let (removed, kept) = purgeItems shouldDrop ms
      in if shouldDrop m then (m # removed, kept) else (removed, m # kept))"

definition Purge :: "int \<Rightarrow> (DecodedMsg \<Rightarrow> bool) \<Rightarrow> priorityQueue \<Rightarrow> DecodedMsg list \<times> priorityQueue" where
  "Purge now shouldDrop q =
     (let q = readInbox now q; (removed, kept) = purgeItems shouldDrop (pq_items q)
      in (removed, q\<lparr>pq_items := kept\<rparr>))"

definition EmptyQueue :: "priorityQueue \<Rightarrow> bool" where
  "EmptyQueue q \<longleftrightarrow> pq_items q = [] \<and> length (pq_inbox q) = 0"

definition LenQueue :: "priorityQueue \<Rightarrow> nat" where
  "LenQueue q = length (pq_inbox q) + length (pq_items q)"

section \<open>Prioritizers order messages by rank\<close>

text \<open>
  What the queue relies on of a prioritizer: on the messages it can compare, \<open>Prior\<close> does not panic and
  says whether the first message ranks at least as high as the second.
\<close>

locale prioritizer =
  fixes prior :: "'e prior" and rank :: "DecodedMsg \<Rightarrow> 'r :: linorder" and ok :: "DecodedMsg \<Rightarrow> bool"
  assumes prior_rank: "ok a \<Longrightarrow> ok b \<Longrightarrow> prior a b = Ok (rank b \<le> rank a)"

text \<open>A message comes from the network with its signed form.\<close>

definition has_signed :: "DecodedMsg \<Rightarrow> bool" where
  "has_signed m \<longleftrightarrow> (case dm_Body m of Some (ConsensusBody _) \<Rightarrow> dm_Signed m \<noteq> None | _ \<Rightarrow> True)"

definition score_of :: "('e, int) res \<Rightarrow> int" where
  "score_of r = (case r of Ok s \<Rightarrow> s | _ \<Rightarrow> 0)"

definition standardScore :: "queueState \<Rightarrow> DecodedMsg \<Rightarrow> int" where
  "standardScore st m = score_of (scoreMessageSubtype st m (compareHeightOrSlot st m) :: (unit, int) res)"

definition committeeScore :: "queueState \<Rightarrow> DecodedMsg \<Rightarrow> int" where
  "committeeScore st m = score_of (scoreCommitteeMessageSubtype st m (compareHeightOrSlot st m) :: (unit, int) res)"

definition standardRank :: "queueState \<Rightarrow> DecodedMsg \<Rightarrow> int \<times> int \<times> int \<times> int \<times> int" where
  "standardRank st m =
     (scoreMessageType m, scoreHeight (compareHeightOrSlot st m),
      standardScore st m, scoreRound st m, scoreConsensusType m)"

definition committeeRank :: "queueState \<Rightarrow> DecodedMsg \<Rightarrow> int \<times> int \<times> int \<times> int" where
  "committeeRank st m =
     (scoreMessageType m, scoreHeight (compareHeightOrSlot st m),
      committeeScore st m, scoreConsensusType m)"

lemma compareHeightOrSlot_range: "compareHeightOrSlot st m \<in> {- 1, 0, 1}"
  by (auto simp: compareHeightOrSlot_def split: option.split Body.split)

lemma scoreHeight_inj: "scoreHeight (compareHeightOrSlot st a) = scoreHeight (compareHeightOrSlot st b) \<longleftrightarrow>
    compareHeightOrSlot st a = compareHeightOrSlot st b"
  using compareHeightOrSlot_range [of st a] compareHeightOrSlot_range [of st b] by (auto simp: scoreHeight_def)

definition decided :: "queueState \<Rightarrow> DecodedMsg \<Rightarrow> bool" where
  "decided st m \<longleftrightarrow>
     (case dm_Body m of
        Some (ConsensusBody c) \<Rightarrow>
          m_MsgType c = CommitMsgType \<and> qs_Quorum st < word_of_nat (length (w_OperatorIDs (the (dm_Signed m))))
      | _ \<Rightarrow> False)"

lemma isDecidedMessage_total: "has_signed m \<Longrightarrow> isDecidedMessage st m = Ok (decided st m)"
  by (auto simp: isDecidedMessage_def has_signed_def decided_def split: option.splits Body.splits)

lemma scoreMessageSubtype_total: "has_signed m \<Longrightarrow> scoreMessageSubtype st m (compareHeightOrSlot st m) = Ok (standardScore st m)"
  by (simp add: scoreMessageSubtype_def Let_def standardScore_def score_of_def isDecidedMessage_total)

lemma scoreCommitteeMessageSubtype_total:
  "has_signed m \<Longrightarrow> scoreCommitteeMessageSubtype st m (compareHeightOrSlot st m) = Ok (committeeScore st m)"
  by (simp add: scoreCommitteeMessageSubtype_def Let_def committeeScore_def score_of_def isDecidedMessage_total)

text \<open>Comparing one score after the other is comparing the tuples of scores.\<close>

lemma lex_Cons:
  fixes a b :: int and x y :: "'r :: linorder"
  shows "(if a \<noteq> b then Ok (b < a) else Ok (y \<le> x)) = Ok ((b, y) \<le> (a, x))"
  by (auto simp: less_eq_prod_def)

lemma lex_last: "(if a \<noteq> b then Ok (b < a) else Ok True) = Ok (b \<le> (a :: int))"
  by auto

interpretation standard: prioritizer "standardPrior st" "standardRank st" has_signed for st
proof
  fix a b
  assume signed: "has_signed a" "has_signed b"
  show "standardPrior st a b = Ok (standardRank st b \<le> standardRank st a)"
    unfolding standardPrior_def Let_def standardRank_def lex_Cons [symmetric] lex_last [symmetric] scoreHeight_inj
      scoreMessageSubtype_total [OF signed(1)] scoreMessageSubtype_total [OF signed(2)] bind_res.simps ..
qed

interpretation committee: prioritizer "committeePrior st" "committeeRank st" has_signed for st
proof
  fix a b
  assume signed: "has_signed a" "has_signed b"
  show "committeePrior st a b = Ok (committeeRank st b \<le> committeeRank st a)"
    unfolding committeePrior_def Let_def committeeRank_def lex_Cons [symmetric] lex_last [symmetric] scoreHeight_inj
      scoreCommitteeMessageSubtype_total [OF signed(1)] scoreCommitteeMessageSubtype_total [OF signed(2)] bind_res.simps ..
qed

section \<open>Popping\<close>

text \<open>The messages of a queue in the order they arrived.\<close>

definition arrivals :: "priorityQueue \<Rightarrow> DecodedMsg list" where
  "arrivals q = rev (pq_items q) @ pq_inbox q"

text \<open>
  From \<open>xs\<close> the oldest of the highest ranked among the accepted messages is taken, and the rest stays as it
  was; nothing is taken only if no message is accepted.
\<close>

definition takes_best ::
    "(DecodedMsg \<Rightarrow> 'r :: linorder) \<Rightarrow> (DecodedMsg \<Rightarrow> bool) \<Rightarrow> DecodedMsg list \<Rightarrow> DecodedMsg option \<Rightarrow> DecodedMsg list \<Rightarrow> bool" where
  "takes_best rank f xs r ys \<longleftrightarrow>
     (case r of
        None \<Rightarrow> ys = xs \<and> (\<forall>x \<in> set xs. \<not> f x)
      | Some m \<Rightarrow> f m \<and> (\<exists>older newer. xs = older @ m # newer \<and> ys = older @ newer \<and>
          (\<forall>x \<in> set older. f x \<longrightarrow> rank x < rank m) \<and> (\<forall>x \<in> set newer. f x \<longrightarrow> rank x \<le> rank m)))"

definition best_at :: "(DecodedMsg \<Rightarrow> 'r :: linorder) \<Rightarrow> (DecodedMsg \<Rightarrow> bool) \<Rightarrow> DecodedMsg list \<Rightarrow> (nat \<times> DecodedMsg) option \<Rightarrow> bool" where
  "best_at rank f xs highest \<longleftrightarrow>
     (case highest of
        None \<Rightarrow> \<forall>x \<in> set xs. \<not> f x
      | Some (i, h) \<Rightarrow> i < length xs \<and> xs ! i = h \<and> f h \<and>
          (\<forall>x \<in> set (take i xs). f x \<longrightarrow> rank x \<le> rank h) \<and> (\<forall>x \<in> set (drop (Suc i) xs). f x \<longrightarrow> rank x < rank h))"

lemma best_at_accept:
  assumes "best_at rank f xs highest" "f m" "\<And>i h. highest = Some (i, h) \<Longrightarrow> rank h \<le> rank m"
  shows "best_at rank f (xs @ [m]) (Some (length xs, m))"
proof (cases highest)
  case None
  then show ?thesis
    using assms by (simp add: best_at_def)
next
  case (Some ih)
  obtain i h where ih: "ih = (i, h)"
    by (cases ih)
  have h: "rank h \<le> rank m" "i < length xs" "xs ! i = h"
    using assms Some ih by (simp_all add: best_at_def)
  have "rank x \<le> rank m" if "x \<in> set xs" "f x" for x
  proof -
    have "xs = take i xs @ h # drop (Suc i) xs"
      using h id_take_nth_drop by blast
    then have "x \<in> set (take i xs) \<or> x = h \<or> x \<in> set (drop (Suc i) xs)"
      using that(1) by (metis Un_iff set_ConsD set_append)
    then show ?thesis
      using assms(1) Some ih that(2) h(1) by (auto simp: best_at_def)
  qed
  then show ?thesis
    using assms(2) by (simp add: best_at_def)
qed

lemma best_at_skip:
  assumes "best_at rank f xs highest" "f m \<Longrightarrow> \<exists>i h. highest = Some (i, h) \<and> rank m < rank h"
  shows "best_at rank f (xs @ [m]) highest"
  using assms by (auto simp: best_at_def nth_append split: option.splits)

lemma takes_best_remove:
  assumes "best_at rank f (rev xs) highest"
  shows "takes_best rank f xs (map_option snd highest)
    (case highest of None \<Rightarrow> xs | Some (i, _) \<Rightarrow> rev (take i (rev xs) @ drop (Suc i) (rev xs)))"
proof (cases highest)
  case (Some ih)
  obtain i h where ih: "ih = (i, h)"
    by (cases ih)
  have h: "i < length (rev xs)" "rev xs ! i = h"
    using assms Some ih by (simp_all add: best_at_def)
  have "rev xs = take i (rev xs) @ h # drop (Suc i) (rev xs)"
    using h id_take_nth_drop by blast
  then have xs: "xs = rev (drop (Suc i) (rev xs)) @ h # rev (take i (rev xs))"
    by (metis append.assoc append_Cons append_Nil rev.simps(2) rev_append rev_rev_ident)
  have best: "f h" "\<forall>x \<in> set (rev (drop (Suc i) (rev xs))). f x \<longrightarrow> rank x < rank h"
      "\<forall>x \<in> set (rev (take i (rev xs))). f x \<longrightarrow> rank x \<le> rank h"
    using assms Some ih by (simp_all add: best_at_def)
  have "takes_best rank f xs (Some h) (rev (drop (Suc i) (rev xs)) @ rev (take i (rev xs)))"
    unfolding takes_best_def option.case using xs best by blast
  then show ?thesis
    by (simp add: Some ih)
qed (use assms in \<open>simp add: takes_best_def best_at_def\<close>)

lemma drainInbox_eq: "drainInbox inbox items = rev inbox @ items"
  by (induction inbox arbitrary: items) simp_all

context prioritizer
begin

lemma scan_best:
  assumes "\<forall>x \<in> set (xs @ ms). ok x" "best_at rank f xs highest"
  shows "\<exists>highest'. scanItems prior f ms (length xs) highest = Ok highest' \<and> best_at rank f (xs @ ms) highest'"
  using assms
proof (induction ms arbitrary: xs highest)
  case (Cons m ms)
  define p where "p \<longleftrightarrow> (\<forall>i h. highest = Some (i, h) \<longrightarrow> rank h \<le> rank m)"
  define nxt where "nxt = (if p \<and> f m then Some (length xs, m) else highest)"
  have "ok h" if "highest = Some (i, h)" for i h
    using that Cons.prems by (auto simp: best_at_def)
  then have "(case highest of None \<Rightarrow> Ok True | Some (_, h) \<Rightarrow> prior m h) = Ok p"
    using Cons.prems(1) by (auto simp: p_def prior_rank split: option.split)
  then have step: "scanItems prior f (m # ms) (length xs) highest = scanItems prior f ms (length (xs @ [m])) nxt"
    by (simp add: nxt_def)
  have "best_at rank f (xs @ [m]) nxt"
  proof (cases "p \<and> f m")
    case True
    then show ?thesis
      using best_at_accept [OF Cons.prems(2)] by (simp add: nxt_def p_def)
  next
    case False
    then show ?thesis
      using best_at_skip [OF Cons.prems(2), of m] by (auto simp: nxt_def p_def not_le)
  qed
  then show ?case
    using Cons.IH [of "xs @ [m]" nxt] Cons.prems(1) step by simp
qed simp

lemma popItem_best:
  assumes "\<forall>x \<in> set items. ok x" "items \<noteq> []"
  shows "\<exists>highest. best_at rank f items highest \<and> popItem prior f items =
    Ok (map_option snd highest, case highest of None \<Rightarrow> items | Some (i, _) \<Rightarrow> take i items @ drop (Suc i) items)"
proof -
  obtain m ms where items: "items = m # ms"
    using assms(2) by (cases items) auto
  have start: "best_at rank f [m] (if f m then Some (0, m) else None)"
    by (simp add: best_at_def)
  show ?thesis
  proof (cases "ms = []")
    case True
    then show ?thesis
      using start by (cases "f m") (force simp: popItem_def items)+
  next
    case False
    then obtain m' ms' where ms: "ms = m' # ms'"
      by (cases ms) auto
    obtain highest where "scanItems prior f ms 1 (if f m then Some (0, m) else None) = Ok highest" "best_at rank f items highest"
      using scan_best [OF _ start, of ms] assms(1) by (auto simp: items)
    then show ?thesis
      by (intro exI [of _ highest], cases highest) (simp_all add: popItem_def items ms case_prod_beta)
  qed
qed

lemma popQueue_best:
  assumes "\<forall>x \<in> set (pq_items q). ok x"
  shows "\<exists>r q'. popQueue prior f q = Ok (r, q') \<and> pq_inbox q' = pq_inbox q \<and>
    takes_best rank f (rev (pq_items q)) r (rev (pq_items q'))"
proof (cases "pq_items q = []")
  case True
  then show ?thesis
    by (simp add: popQueue_def takes_best_def)
next
  case False
  obtain highest where "best_at rank f (pq_items q) highest" "popItem prior f (pq_items q) =
      Ok (map_option snd highest, case highest of None \<Rightarrow> pq_items q | Some (i, _) \<Rightarrow> take i (pq_items q) @ drop (Suc i) (pq_items q))"
    using popItem_best [OF assms False] by blast
  then show ?thesis
    using takes_best_remove [of rank f "rev (pq_items q)" highest] False
    by (cases highest) (auto simp: popQueue_def)
qed

lemma TryPop_best:
  assumes "\<forall>x \<in> set (arrivals q). ok x"
  shows "\<exists>r q'. TryPop now prior f q = Ok (r, q') \<and> takes_best rank f (arrivals q) r (arrivals q')"
proof -
  have read: "pq_items (readInbox now q) = rev (arrivals q)" "pq_inbox (readInbox now q) = []"
    by (simp_all add: readInbox_def arrivals_def drainInbox_eq)
  then obtain r q' where "popQueue prior f (readInbox now q) = Ok (r, q')" "pq_inbox q' = []"
      "takes_best rank f (arrivals q) r (rev (pq_items q'))"
    using popQueue_best [of "readInbox now q" f] assms by auto
  then show ?thesis
    by (simp add: TryPop_def arrivals_def [of q'])
qed

text \<open>A pop that returns a message returns one the filter accepts, and it never panics.\<close>

lemma waitLoop_arrivals:
  "waitLoop f events q = Some q' \<Longrightarrow> set (arrivals q') \<subseteq> set (arrivals q) \<union> {m. Pushed m \<in> set events}"
proof (induction events arbitrary: q)
  case (Cons e es)
  show ?case
  proof (cases e)
    case (Pushed m)
    define q1 where "q1 = (case Push m q of Some q' \<Rightarrow> q' | None \<Rightarrow> q)"
    have "set (arrivals q1) \<subseteq> insert m (set (arrivals q))"
      by (auto simp: q1_def Push_def arrivals_def)
    then show ?thesis
      using Cons.IH [of q1] Cons.prems by (auto simp: Pushed q1_def [symmetric])
  next
    case Received
    show ?thesis
    proof (cases "pq_inbox q")
      case Nil
      then show ?thesis
        using Cons.IH [of q] Cons.prems by (auto simp: Received)
    next
      case (Cons m ms)
      define q1 where "q1 = q\<lparr>pq_items := m # pq_items q, pq_inbox := ms\<rparr>"
      have "set (arrivals q1) = set (arrivals q)"
        by (auto simp: q1_def arrivals_def Cons)
      then show ?thesis
        using Cons.IH [of q1] Cons.prems Cons by (cases "f m") (auto simp: Received q1_def [symmetric])
    qed
  next
    case Cancelled
    then show ?thesis
      using Cons.prems by auto
  qed
qed simp

lemma Pop_accepted:
  assumes "\<forall>x \<in> set (arrivals q). ok x" "\<forall>m. Pushed m \<in> set events \<longrightarrow> ok m"
  shows "\<exists>r. Pop now prior f events later q = Ok r \<and> (\<forall>m q'. r = Some (Some m, q') \<longrightarrow> f m)"
proof -
  define q0 where "q0 = (if now - pq_lastRead q > inboxReadFrequency then readInbox now q else q)"
  have "set (arrivals q0) = set (arrivals q)"
    by (auto simp: q0_def readInbox_def arrivals_def drainInbox_eq)
  then obtain r q1 where r: "popQueue prior f q0 = Ok (r, q1)" "pq_inbox q1 = pq_inbox q0"
      "takes_best rank f (rev (pq_items q0)) r (rev (pq_items q1))" and ok0: "\<forall>x \<in> set (arrivals q0). ok x"
    using popQueue_best [of q0 f] assms(1) by (auto simp: arrivals_def)
  show ?thesis
  proof (cases r)
    case None
    then have ok1: "\<forall>x \<in> set (arrivals q1). ok x"
      using r ok0 by (simp add: takes_best_def arrivals_def)
    show ?thesis
    proof (cases "waitLoop f events q1")
      case (Some q2)
      have "\<forall>x \<in> set (pq_items (readInbox later q2)). ok x"
        using waitLoop_arrivals [OF Some] ok1 assms(2) by (auto simp: readInbox_def arrivals_def drainInbox_eq)
      then obtain r2 q3 where "popQueue prior f (readInbox later q2) = Ok (r2, q3)"
          "takes_best rank f (rev (pq_items (readInbox later q2))) r2 (rev (pq_items q3))"
        using popQueue_best by blast
      then show ?thesis
        using r(1) None Some by (auto simp: Pop_def q0_def [symmetric] takes_best_def)
    qed (use r(1) None in \<open>simp add: Pop_def q0_def [symmetric]\<close>)
  next
    case (Some m)
    then show ?thesis
      using r by (auto simp: Pop_def q0_def [symmetric] takes_best_def)
  qed
qed

end

lemma DecodeSignedSSVMessage_has_signed: "DecodeSignedSSVMessage P sm = Ok d \<Longrightarrow> has_signed d"
  by (auto simp: DecodeSignedSSVMessage_def bind_res_Ok_iff has_signed_def split: option.split Body.split)

lemma Purge_eq:
  "Purge now f q = (rev (filter f (arrivals q)), (readInbox now q)\<lparr>pq_items := rev (filter (\<lambda>m. \<not> f m) (arrivals q))\<rparr>)"
proof -
  have "purgeItems f items = (filter f items, filter (\<lambda>m. \<not> f m) items)" for items
    by (induction items) auto
  then show ?thesis
    by (simp add: Purge_def Let_def readInbox_def drainInbox_eq arrivals_def rev_filter)
qed

text \<open>C20: Popping takes the most urgent message, and among equally urgent ones the oldest. With either
  prioritizer, if every consensus message in the queue has its signed form, \<open>TryPop\<close> does not panic; it
  returns a message the filter accepts whose scores are the highest among the accepted ones, compared in
  the order of the code (type of message, height, kind, round, consensus step), and that arrived before
  every other message with the same scores. All other messages stay in the queue in their order, and
  nothing is returned only if the filter accepts no message.\<close>

theorem pop_most_urgent_oldest:
  assumes "\<forall>m \<in> set (arrivals q). has_signed m"
  shows "(\<exists>r q'. TryPop now (standardPrior st) f q = Ok (r, q') \<and> takes_best (standardRank st) f (arrivals q) r (arrivals q')) \<and>
    (\<exists>r q'. TryPop now (committeePrior st) f q = Ok (r, q') \<and> takes_best (committeeRank st) f (arrivals q) r (arrivals q'))"
  using standard.TryPop_best [OF assms] committee.TryPop_best [OF assms] by blast

definition demo_consensus :: "MessageType \<Rightarrow> Round \<Rightarrow> DecodedMsg" where
  "demo_consensus t round =
     \<lparr>dm_Signed = Some \<lparr>w_Signatures = [], w_OperatorIDs = [1], w_SSVMessage = None, w_FullData = []\<rparr>, dm_SSVMessage = None,
      dm_Body = Some (ConsensusBody \<lparr>m_MsgType = t, m_Height = 5, m_Round = round, m_Identifier = [], m_Root = [],
        m_DataRound = 0, m_RoundChangeJustification = [], m_PrepareJustification = []\<rparr>)\<rparr>"

definition demo_queueState :: queueState where
  "demo_queueState = \<lparr>qs_HasRunningInstance = True, qs_Round = 1, qs_Slot = 5, qs_Quorum = 3\<rparr>"

text \<open>A prepare in the list, then a proposal of the next round, one of this round and one more prepare.\<close>

definition demo_queue :: priorityQueue where
  "demo_queue = \<lparr>pq_items = [demo_consensus PrepareMsgType 1],
     pq_inbox = [demo_consensus ProposalMsgType 2, demo_consensus ProposalMsgType 1, demo_consensus PrepareMsgType 1],
     pq_capacity = 8, pq_lastRead = 0\<rparr>"

theorem pop_most_urgent_oldest_witness:
  "\<exists>q'. TryPop 7 (standardPrior demo_queueState) FilterAny demo_queue =
     (Ok (Some (demo_consensus ProposalMsgType 1), q') :: (string, _) res) \<and>
   arrivals q' = [demo_consensus PrepareMsgType 1, demo_consensus ProposalMsgType 2, demo_consensus PrepareMsgType 1] \<and>
   takes_best (standardRank demo_queueState) FilterAny (arrivals demo_queue) (Some (demo_consensus ProposalMsgType 1)) (arrivals q')"
proof -
  have signed: "\<forall>m \<in> set (arrivals demo_queue). has_signed m"
    by code_simp
  obtain r q' where r: "TryPop 7 (standardPrior demo_queueState) FilterAny demo_queue = (Ok (r, q') :: (string, _) res)"
      "takes_best (standardRank demo_queueState) FilterAny (arrivals demo_queue) r (arrivals q')"
    using pop_most_urgent_oldest [OF signed, of 7 demo_queueState FilterAny, where 'a = string] by blast
  have "(case TryPop 7 (standardPrior demo_queueState) FilterAny demo_queue :: (string, _) res of
      Ok (r, q') \<Rightarrow> r = Some (demo_consensus ProposalMsgType 1) \<and>
        arrivals q' = [demo_consensus PrepareMsgType 1, demo_consensus ProposalMsgType 2, demo_consensus PrepareMsgType 1]
    | _ \<Rightarrow> False)"
    by code_simp
  then show ?thesis
    using r by auto
qed

end
