(* ===== verification/Spec2Isabelle.thy ===== *)
theory Spec2Isabelle
  imports Network_Config Round_Timer Qbft_Properties Qbft_Controller_Properties Dutystore Validator_Store
    Validation_Panics Share_Keys Key_Manager_Properties Doppelganger Runner_Types
    Event_Handler_Properties Message_Queue
begin

text \<open>
  A verification development for the SSV node.
\<close>

end
